(* ===== verification/Tailpath_Prelude.thy ===== *)
theory Tailpath_Prelude
  imports Main "HOL-Library.AList" "HOL-Library.Char_ord" "HOL-Library.List_Lexorder"
    "HOL-Library.Multiset" "HOL-Library.Monad_Syntax"
begin

text \<open>
  The prelude of the development: the parts of Go and of its standard library that every
  component uses.

  \<^item> Instants and durations. \<open>time\<close> counts nanoseconds from Go's zero time, so
    \<open>time.Time{}\<close> is 0 and \<open>IsZero\<close> is equality with 0; \<open>Time.Sub\<close> saturates at the
    bounds of a 64-bit duration, as Go's does.
  \<^item> Strings are byte lists, ordered as Go orders them (lexicographically by byte);
    \<open>strings.TrimSpace\<close> removes the UTF-8 encodings of the runes \<open>unicode.IsSpace\<close>
    accepts; \<open>strings.ToLower\<close> is modelled on ASCII.
  \<^item> Go maps are association lists. The order of the list stands for the iteration order,
    which Go leaves open: a theorem about every list holds for every order.
  \<^item> Sets (\<open>map[string]struct{}\<close>) are HOL sets, or lists where the code iterates.
\<close>

named_theorems time_simps \<open>instants and durations\<close>
named_theorems gomap_simps \<open>Go maps as association lists\<close>

section \<open>Instants and durations\<close>

type_synonym time = int
type_synonym duration = int

definition max_duration :: duration where
  "max_duration = 9223372036854775807"

definition min_duration :: duration where
  "min_duration = - 9223372036854775808"

definition time_sub :: "time \<Rightarrow> time \<Rightarrow> duration" where
  "time_sub t u = max min_duration (min max_duration (t - u))"

definition second :: duration where
  "second = 1000000000"

definition trunc_div :: "int \<Rightarrow> int \<Rightarrow> int" where
  "trunc_div a b = sgn a * sgn b * (\<bar>a\<bar> div \<bar>b\<bar>)"

text \<open>\<open>Duration.Milliseconds\<close> truncates towards zero.\<close>

definition milliseconds :: "duration \<Rightarrow> int" where
  "milliseconds d = trunc_div d 1000000"

definition duration_window :: "duration \<Rightarrow> bool" where
  "duration_window w \<longleftrightarrow> 0 \<le> w \<and> w < max_duration"

lemma time_sub_le [time_simps]:
  "duration_window w \<Longrightarrow> time_sub t u \<le> w \<longleftrightarrow> t \<le> u + w"
  by (auto simp: time_sub_def duration_window_def min_duration_def max_duration_def min_def max_def)

lemma time_sub_gt [time_simps]:
  "duration_window w \<Longrightarrow> w < time_sub t u \<longleftrightarrow> u + w < t"
  by (auto simp: time_sub_def duration_window_def min_duration_def max_duration_def min_def max_def)

lemma time_sub_self [simp]: "time_sub t t = 0"
  by (simp add: time_sub_def min_duration_def max_duration_def)

lemma time_sub_bounds: "min_duration \<le> time_sub t u" "time_sub t u \<le> max_duration"
  by (auto simp: time_sub_def min_duration_def max_duration_def)

section \<open>Strings\<close>

definition space_runes :: "string list" where
  "space_runes =
    [[CHR 0x20], [CHR 0x09], [CHR 0x0A], [CHR 0x0B], [CHR 0x0C], [CHR 0x0D],
     [CHR 0xC2, CHR 0x85], [CHR 0xC2, CHR 0xA0], [CHR 0xE1, CHR 0x9A, CHR 0x80],
     [CHR 0xE2, CHR 0x80, CHR 0x80], [CHR 0xE2, CHR 0x80, CHR 0x81],
     [CHR 0xE2, CHR 0x80, CHR 0x82], [CHR 0xE2, CHR 0x80, CHR 0x83],
     [CHR 0xE2, CHR 0x80, CHR 0x84], [CHR 0xE2, CHR 0x80, CHR 0x85],
     [CHR 0xE2, CHR 0x80, CHR 0x86], [CHR 0xE2, CHR 0x80, CHR 0x87],
     [CHR 0xE2, CHR 0x80, CHR 0x88], [CHR 0xE2, CHR 0x80, CHR 0x89],
     [CHR 0xE2, CHR 0x80, CHR 0x8A], [CHR 0xE2, CHR 0x80, CHR 0xA8],
     [CHR 0xE2, CHR 0x80, CHR 0xA9], [CHR 0xE2, CHR 0x80, CHR 0xAF],
     [CHR 0xE2, CHR 0x81, CHR 0x9F], [CHR 0xE3, CHR 0x80, CHR 0x80]]"

fun drop_rune :: "string list \<Rightarrow> string \<Rightarrow> string option" where
  "drop_rune [] s = None"
| "drop_rune (r # rs) s =
     (if r \<noteq> [] \<and> take (length r) s = r then Some (drop (length r) s) else drop_rune rs s)"

lemma drop_rune_shorter: "drop_rune rs s = Some s' \<Longrightarrow> length s' < length s"
proof (induction rs s rule: drop_rune.induct)
  case (2 r rs s)
  then show ?case
    by (cases "r \<noteq> [] \<and> take (length r) s = r") (auto simp: take_eq_Nil2 intro!: diff_less)
qed simp

function trim_runes :: "string list \<Rightarrow> string \<Rightarrow> string" where
  "trim_runes rs s = (case drop_rune rs s of None \<Rightarrow> s | Some s' \<Rightarrow> trim_runes rs s')"
  by pat_completeness auto
termination
  by (relation "measure (\<lambda>(rs, s). length s)") (auto dest: drop_rune_shorter)

declare trim_runes.simps [simp del]

lemma trim_runes_None [simp]: "drop_rune rs s = None \<Longrightarrow> trim_runes rs s = s"
  by (simp add: trim_runes.simps)

lemma trim_runes_Some [simp]: "drop_rune rs s = Some s' \<Longrightarrow> trim_runes rs s = trim_runes rs s'"
  by (simp add: trim_runes.simps [of rs s])

lemma drop_rune_Nil [simp]: "drop_rune rs [] = None"
  by (induction rs) auto

definition trim_space :: "string \<Rightarrow> string" where
  "trim_space s = rev (trim_runes (map rev space_runes) (rev (trim_runes space_runes s)))"

lemma trim_space_Nil [simp]: "trim_space [] = []"
  by (simp add: trim_space_def)

lemma trim_runes_done: "drop_rune rs (trim_runes rs s) = None"
  by (induction rs s rule: trim_runes.induct) (metis option.exhaust trim_runes_None trim_runes_Some)

lemma trim_runes_suffix: "\<exists>p. s = p @ trim_runes rs s"
proof (induction rs s rule: trim_runes.induct)
  case (1 rs s)
  show ?case
  proof (cases "drop_rune rs s")
    case (Some s')
    have "\<exists>r. s = r @ s'"
      using Some by (induction rs s rule: drop_rune.induct)
        (auto split: if_splits intro: append_take_drop_id [symmetric])
    with 1 [OF Some] Some show ?thesis
      by (metis append.assoc trim_runes_Some)
  qed simp
qed

lemma drop_rune_append: "drop_rune rs s = Some x \<Longrightarrow> \<exists>y. drop_rune rs (s @ t) = Some y"
  by (induction rs s rule: drop_rune.induct) (auto split: if_splits)

lemma trim_space_idem [simp]: "trim_space (trim_space s) = trim_space s"
proof -
  define l where "l = trim_runes space_runes s"
  define r where "r = trim_runes (map rev space_runes) (rev l)"
  obtain p where p: "rev l = p @ r"
    using trim_runes_suffix unfolding r_def by blast
  then have l: "l = rev r @ rev p"
    by (metis rev_append rev_rev_ident)
  have "drop_rune space_runes (rev r) = None"
  proof (rule ccontr)
    assume "drop_rune space_runes (rev r) \<noteq> None"
    then show False
      using drop_rune_append l trim_runes_done [of space_runes s]
      by (metis l_def option.distinct(1) option.exhaust)
  qed
  then show ?thesis
    using trim_runes_done [of "map rev space_runes" "rev l"]
    by (simp add: trim_space_def flip: l_def r_def)
qed

definition lower_char :: "char \<Rightarrow> char" where
  "lower_char c = (let n = of_char c :: nat in if 65 \<le> n \<and> n \<le> 90 then char_of (n + 32) else c)"

definition to_lower :: "string \<Rightarrow> string" where
  "to_lower = map lower_char"

lemma lower_char_idem [simp]: "lower_char (lower_char c) = lower_char c"
  by (auto simp: lower_char_def Let_def)

lemma to_lower_idem [simp]: "to_lower (to_lower s) = to_lower s"
  by (simp add: to_lower_def)

definition has_prefix :: "string \<Rightarrow> string \<Rightarrow> bool" where
  "has_prefix s p \<longleftrightarrow> take (length p) s = p"

definition trim_prefix :: "string \<Rightarrow> string \<Rightarrow> string" where
  "trim_prefix s p = (if has_prefix s p then drop (length p) s else s)"

definition trim_suffix :: "string \<Rightarrow> string \<Rightarrow> string" where
  "trim_suffix s p = rev (trim_prefix (rev s) (rev p))"

lemma has_prefix_append [simp]: "has_prefix (p @ s) p"
  by (simp add: has_prefix_def)

lemma trim_prefix_append [simp]: "trim_prefix (p @ s) p = s"
  by (simp add: trim_prefix_def)

text \<open>Decimal digits (\<open>strconv.FormatInt\<close>, \<open>fmt.Sprint\<close> of an integer).\<close>

definition digit_char :: "nat \<Rightarrow> char" where
  "digit_char d = ''0123456789'' ! d"

fun show_nat :: "nat \<Rightarrow> string" where
  "show_nat n = (if n < 10 then [digit_char n] else show_nat (n div 10) @ [digit_char (n mod 10)])"

declare show_nat.simps [simp del]

definition show_int :: "int \<Rightarrow> string" where
  "show_int i = (if i < 0 then CHR ''-'' # show_nat (nat (- i)) else show_nat (nat i))"

lemma show_nat_nonempty [simp]: "show_nat n \<noteq> []"
  by (subst show_nat.simps) simp

lemma digit_char_inj: "a < 10 \<Longrightarrow> b < 10 \<Longrightarrow> digit_char a = digit_char b \<Longrightarrow> a = b"
  by (simp add: digit_char_def nth_eq_iff_index_eq)

lemma show_nat_inj: "show_nat m = show_nat n \<Longrightarrow> m = n"
proof (induction m arbitrary: n rule: show_nat.induct)
  case (1 m)
  have m: "show_nat m = (if m < 10 then [digit_char m] else show_nat (m div 10) @ [digit_char (m mod 10)])"
    by (rule show_nat.simps)
  have n: "show_nat n = (if n < 10 then [digit_char n] else show_nat (n div 10) @ [digit_char (n mod 10)])"
    by (rule show_nat.simps)
  consider "m < 10" "n < 10" | "m < 10" "\<not> n < 10" | "\<not> m < 10" "n < 10" | "\<not> m < 10" "\<not> n < 10"
    by blast
  then show ?case
  proof cases
    case 1 then show ?thesis using "1.prems" m n by (auto dest: digit_char_inj)
  next
    case 2 then show ?thesis using "1.prems" m n by (simp add: Cons_eq_append_conv)
  next
    case 3 then show ?thesis using "1.prems" m n by (simp add: append_eq_Cons_conv)
  next
    case 4
    then have "show_nat (m div 10) = show_nat (n div 10)" and d: "digit_char (m mod 10) = digit_char (n mod 10)"
      using "1.prems" m n by simp_all
    then have "m div 10 = n div 10" using "1.IH" 4 by blast
    moreover have "m mod 10 = n mod 10" using d by (intro digit_char_inj) simp_all
    ultimately show ?thesis by (metis div_mult_mod_eq)
  qed
qed

lemma digit_char_cases: "d < 10 \<Longrightarrow> digit_char d \<in> set ''0123456789''"
  unfolding digit_char_def by (rule nth_mem) simp

lemma show_nat_digits: "set (show_nat n) \<subseteq> set ''0123456789''"
proof (induction n rule: show_nat.induct)
  case (1 n)
  show ?case
  proof (cases "n < 10")
    case True
    then show ?thesis by (subst show_nat.simps) (use digit_char_cases in simp)
  next
    case False
    have "digit_char (n mod 10) \<in> set ''0123456789''" by (rule digit_char_cases) simp
    with False 1 show ?thesis by (subst show_nat.simps) simp
  qed
qed

lemma show_int_inj: "show_int i = show_int j \<Longrightarrow> i = j"
proof -
  assume eq: "show_int i = show_int j"
  have "CHR ''-'' \<notin> set (show_nat n)" for n using show_nat_digits [of n] by auto
  then have *: "show_nat n \<noteq> CHR ''-'' # xs" for n xs by (metis list.set_intros(1))
  show ?thesis
    using eq by (auto simp: show_int_def * * [symmetric] dest!: show_nat_inj split: if_splits)
qed

lemma show_int_no_colon: "CHR '':'' \<notin> set (show_int i)"
proof -
  have "CHR '':'' \<notin> set (show_nat n)" for n using show_nat_digits [of n] by auto
  then show ?thesis by (simp add: show_int_def)
qed

section \<open>Go maps\<close>

type_synonym ('k, 'v) gomap = "('k \<times> 'v) list"

definition mput :: "'k \<Rightarrow> 'v \<Rightarrow> ('k, 'v) gomap \<Rightarrow> ('k, 'v) gomap" where
  "mput k v m = AList.update k v m"

definition mdel :: "'k \<Rightarrow> ('k, 'v) gomap \<Rightarrow> ('k, 'v) gomap" where
  "mdel k m = filter (\<lambda>e. fst e \<noteq> k) m"

text \<open>\<open>for k, v := range m { m[k] = f(k, v) }\<close>\<close>

definition mapv :: "('k \<Rightarrow> 'v \<Rightarrow> 'w) \<Rightarrow> ('k, 'v) gomap \<Rightarrow> ('k, 'w) gomap" where
  "mapv f m = map (\<lambda>(k, v). (k, f k v)) m"

text \<open>\<open>for k, v := range m { if !p(k, v) { delete(m, k) } }\<close>: the value read is the current one.\<close>

definition keep_if :: "('k \<Rightarrow> 'v \<Rightarrow> bool) \<Rightarrow> ('k, 'v) gomap \<Rightarrow> ('k, 'v) gomap" where
  "keep_if p m = filter (\<lambda>e. p (fst e) (the (map_of m (fst e)))) m"

definition mkeys :: "('k, 'v) gomap \<Rightarrow> 'k list" where
  "mkeys m = map fst m"

definition wf_map :: "('k, 'v) gomap \<Rightarrow> bool" where
  "wf_map m \<longleftrightarrow> distinct (map fst m)"

text \<open>Reading a missing key gives the zero value of the element type.\<close>

definition str_at :: "('k, string) gomap \<Rightarrow> 'k \<Rightarrow> string" where
  "str_at m k = (case map_of m k of None \<Rightarrow> [] | Some v \<Rightarrow> v)"

definition time_at :: "('k, time) gomap \<Rightarrow> 'k \<Rightarrow> time" where
  "time_at m k = (case map_of m k of None \<Rightarrow> 0 | Some v \<Rightarrow> v)"

lemma map_of_mput [simp, gomap_simps]: "map_of (mput k v m) = (map_of m)(k \<mapsto> v)"
  by (simp add: mput_def update_conv')

lemma map_of_mdel [simp, gomap_simps]: "map_of (mdel k m) = (map_of m)(k := None)"
  by (induction m) (auto simp: mdel_def fun_eq_iff)

lemma map_of_mapv [simp, gomap_simps]: "map_of (mapv f m) k = map_option (f k) (map_of m k)"
  by (induction m) (auto simp: mapv_def)

lemma map_of_filter_fst: "map_of (filter (\<lambda>e. p (fst e)) m) k = (if p k then map_of m k else None)"
  by (induction m) auto

lemma map_of_keep_if [simp, gomap_simps]:
  "map_of (keep_if p m) k =
     (case map_of m k of None \<Rightarrow> None | Some v \<Rightarrow> if p k v then Some v else None)"
  unfolding keep_if_def
  by (subst map_of_filter_fst [where p = "\<lambda>k. p k (the (map_of m k))"]) (auto split: option.splits)

lemma set_mput_fst: "fst ` set (mput k v m) = insert k (fst ` set m)"
  by (simp add: mput_def dom_update)

lemma wf_map_Nil [simp]: "wf_map []" by (simp add: wf_map_def)

lemma wf_map_mput [simp, intro]: "wf_map m \<Longrightarrow> wf_map (mput k v m)"
  by (simp add: wf_map_def mput_def distinct_update)

lemma wf_map_mdel [simp, intro]: "wf_map m \<Longrightarrow> wf_map (mdel k m)"
  by (auto simp: wf_map_def mdel_def distinct_map inj_on_def)

lemma wf_map_mapv [simp]: "wf_map (mapv f m) = wf_map m"
  by (simp add: wf_map_def mapv_def case_prod_beta comp_def)

lemma wf_map_keep_if [simp, intro]: "wf_map m \<Longrightarrow> wf_map (keep_if p m)"
  by (auto simp: wf_map_def keep_if_def distinct_map inj_on_def)

lemma map_of_wf: "wf_map m \<Longrightarrow> (k, v) \<in> set m \<longleftrightarrow> map_of m k = Some v"
  by (simp add: wf_map_def)

lemma dom_map_of: "dom (map_of m) = set (mkeys m)"
  by (simp add: mkeys_def dom_map_of_conv_image_fst)

lemma str_at_mput [simp, gomap_simps]: "str_at (mput k v m) k' = (if k' = k then v else str_at m k')"
  by (simp add: str_at_def)

lemma str_at_mdel [simp, gomap_simps]: "str_at (mdel k m) k' = (if k' = k then [] else str_at m k')"
  by (simp add: str_at_def)

lemma str_at_SomeI: "str_at m k \<noteq> [] \<Longrightarrow> map_of m k = Some (str_at m k)"
  by (simp add: str_at_def split: option.splits)

lemma str_at_neq_Nil: "str_at m k \<noteq> [] \<longleftrightarrow> (\<exists>v. map_of m k = Some v \<and> v \<noteq> [])"
  by (auto simp: str_at_def split: option.splits)

section \<open>Loops that stop at the first error\<close>

fun first_error :: "('a \<Rightarrow> 'e option) \<Rightarrow> 'a list \<Rightarrow> 'e option" where
  "first_error f [] = None"
| "first_error f (x # xs) = (case f x of Some e \<Rightarrow> Some e | None \<Rightarrow> first_error f xs)"

lemma first_error_None [simp]: "first_error f xs = None \<longleftrightarrow> (\<forall>x \<in> set xs. f x = None)"
  by (induction xs) (auto split: option.splits)

lemma first_error_Some: "first_error f xs = Some e \<Longrightarrow> \<exists>x \<in> set xs. f x = Some e"
  by (induction xs) (auto split: option.splits)

text \<open>Loops whose body can panic: \<open>None\<close> is the panic, which nothing after it undoes.\<close>

fun fold_opt :: "('a \<Rightarrow> 's \<Rightarrow> 's option) \<Rightarrow> 'a list \<Rightarrow> 's \<Rightarrow> 's option" where
  "fold_opt f [] s = Some s"
| "fold_opt f (x # xs) s = (case f x s of None \<Rightarrow> None | Some s' \<Rightarrow> fold_opt f xs s')"

lemma fold_opt_append: "fold_opt f (xs @ ys) s = (case fold_opt f xs s of None \<Rightarrow> None | Some s' \<Rightarrow> fold_opt f ys s')"
  by (induction xs arbitrary: s) (auto split: option.splits)

lemma fold_opt_inv:
  assumes "fold_opt f xs s = Some s'" and "P s"
    and "\<And>x s s'. x \<in> set xs \<Longrightarrow> P s \<Longrightarrow> f x s = Some s' \<Longrightarrow> P s'"
  shows "P s'"
  using assms
proof (induction xs arbitrary: s)
  case (Cons x xs)
  from Cons.prems(1) obtain t where t: "f x s = Some t" "fold_opt f xs t = Some s'"
    by (auto split: option.splits)
  have "P t" using Cons.prems t(1) by auto
  with Cons.IH [OF t(2)] Cons.prems(3) show ?case by auto
qed simp

lemma fold_opt_total:
  assumes "P s" and "\<And>x s. x \<in> set xs \<Longrightarrow> P s \<Longrightarrow> \<exists>s'. f x s = Some s' \<and> P s'"
  shows "\<exists>s'. fold_opt f xs s = Some s' \<and> P s'"
  using assms
proof (induction xs arbitrary: s)
  case (Cons x xs)
  obtain t where "f x s = Some t" "P t" using Cons.prems by (meson list.set_intros(1))
  with Cons.IH [of t] Cons.prems(2) show ?case by auto
qed simp

lemma fold_inv: "P s \<Longrightarrow> (\<And>x s. x \<in> set xs \<Longrightarrow> P s \<Longrightarrow> P (f x s)) \<Longrightarrow> P (fold f xs s)"
  by (induction xs arbitrary: s) auto

text \<open>Go's \<open>sort.Slice\<close> leaves the order of equal elements open; the model keeps theirs.\<close>

fun insert_by :: "('a \<Rightarrow> 'a \<Rightarrow> bool) \<Rightarrow> 'a \<Rightarrow> 'a list \<Rightarrow> 'a list" where
  "insert_by lt x [] = [x]"
| "insert_by lt x (y # ys) = (if lt y x then y # insert_by lt x ys else x # y # ys)"

fun sort_slice :: "('a \<Rightarrow> 'a \<Rightarrow> bool) \<Rightarrow> 'a list \<Rightarrow> 'a list" where
  "sort_slice lt [] = []"
| "sort_slice lt (x # xs) = insert_by lt x (sort_slice lt xs)"

lemma mset_insert_by [simp]: "mset (insert_by lt x ys) = add_mset x (mset ys)"
  by (induction ys) auto

lemma mset_sort_slice [simp]: "mset (sort_slice lt xs) = mset xs"
  by (induction xs) auto

lemma set_sort_slice [simp]: "set (sort_slice lt xs) = set xs"
  by (metis mset_sort_slice set_mset_mset)

lemma length_sort_slice [simp]: "length (sort_slice lt xs) = length xs"
  by (metis mset_sort_slice size_mset)

lemma set_insert_by [simp]: "set (insert_by lt x ys) = insert x (set ys)"
  by (induction ys) auto

text \<open>A strict weak order sorts: no element is followed by a smaller one.\<close>

definition weak_order_on :: "'a set \<Rightarrow> ('a \<Rightarrow> 'a \<Rightarrow> bool) \<Rightarrow> bool" where
  "weak_order_on A lt \<longleftrightarrow>
     (\<forall>x\<in>A. \<forall>y\<in>A. lt x y \<longrightarrow> \<not> lt y x) \<and>
     (\<forall>x\<in>A. \<forall>y\<in>A. \<forall>z\<in>A. \<not> lt x y \<longrightarrow> \<not> lt y z \<longrightarrow> \<not> lt x z)"

lemma weak_order_subset: "weak_order_on B lt \<Longrightarrow> A \<subseteq> B \<Longrightarrow> weak_order_on A lt"
  unfolding weak_order_on_def by blast

lemma sorted_insert_by:
  assumes "weak_order_on (insert x (set ys)) lt" and "sorted_wrt (\<lambda>a b. \<not> lt b a) ys"
  shows "sorted_wrt (\<lambda>a b. \<not> lt b a) (insert_by lt x ys)"
  using assms
proof (induction ys)
  case (Cons y ys)
  from Cons.prems(1) have wo: "weak_order_on (insert x (set ys)) lt"
    by (rule weak_order_subset) auto
  show ?case
  proof (cases "lt y x")
    case True
    then have "\<not> lt x y" using Cons.prems(1) by (simp add: weak_order_on_def)
    with True Cons wo show ?thesis by auto
  next
    case False
    have "\<not> lt z x" if "z \<in> set ys" for z
    proof -
      from that Cons.prems(2) have "\<not> lt z y" by simp
      moreover have "{x, y, z} \<subseteq> insert x (set (y # ys))" using that by auto
      ultimately show ?thesis using False Cons.prems(1) unfolding weak_order_on_def by blast
    qed
    with False Cons.prems show ?thesis by auto
  qed
qed simp

lemma sorted_sort_slice:
  "weak_order_on (set xs) lt \<Longrightarrow> sorted_wrt (\<lambda>a b. \<not> lt b a) (sort_slice lt xs)"
proof (induction xs)
  case (Cons x xs)
  then have "weak_order_on (set xs) lt" by (auto elim: weak_order_subset)
  with Cons show ?case by (auto intro: sorted_insert_by)
qed simp

lemma weak_order_key [simp, intro]: "weak_order_on A (\<lambda>a b. (f a :: 'k :: linorder) < f b)"
  by (auto simp: weak_order_on_def)

section \<open>Counting\<close>

text \<open>A counter that every hit resets is the number of the last elements that are none.\<close>

lemma foldl_since: "foldl (\<lambda>c x. if P x then 0 else Suc c) 0 xs = length (takeWhile (\<lambda>x. \<not> P x) (rev xs))"
  by (induction xs rule: rev_induct) simp_all

end
