(* ===== verification/Domain_Types.thy ===== *)
theory Domain_Types
  imports Complex_Main Tailpath_Prelude
begin

text \<open>
  The domain types of \<open>internal/domain/types.go\<close> and their validation: identities, paths,
  observer reports, relay sessions, report envelopes, receipts, and the topology values the
  aggregator publishes. String-typed enumerations are datatypes with one constructor per
  constant, one for the empty string and one for any other string. An \<open>error\<close> result is an
  option: \<open>None\<close> is Go's \<open>nil\<close>, each \<open>errors.New\<close> or \<open>fmt.Errorf\<close> is a constructor. Byte rates,
  \<open>float64\<close> in Go, are exact rationals.
\<close>

section \<open>Enumerations\<close>

datatype report_kind =
    ReportObserverHello | ReportInventoryUpdate | ReportTrafficSample
  | ReportObserverHeartbeat | ReportObserverWithdrawal | ReportRelaySessionUpdate
  | OtherReportKind string

datatype path_kind =
    PathDirect | PathDERP | PathPeerRelay | PathUnknown | NoPathKind | OtherPathKind string

datatype path_evidence =
    PathEvidenceObserved | PathEvidenceInferred | PathEvidenceLegacy
  | NoPathEvidence | OtherPathEvidence string

datatype edge_state_kind = EdgeActive | EdgeRecent | NoEdgeState

datatype identity_status =
    IdentityResolved | IdentityPartial | IdentityAnonymous | IdentityConflict | NoIdentityStatus

section \<open>Server capabilities\<close>

definition ProtocolVersion :: int where
  "ProtocolVersion = 1"

definition FeatureMultiObserver :: string where
  "FeatureMultiObserver = ''multi-observer''"
definition FeatureObserverWithdrawal :: string where
  "FeatureObserverWithdrawal = ''observer-withdrawal''"
definition FeatureDirectionalPathEvidence :: string where
  "FeatureDirectionalPathEvidence = ''directional-path-evidence''"
definition FeatureDeviceDirectory :: string where
  "FeatureDeviceDirectory = ''device-directory''"

record server_capabilities =
  cap_observerProtocolVersions :: "int list"
  cap_features :: "string list"

definition CurrentServerCapabilities :: server_capabilities where
  "CurrentServerCapabilities =
     \<lparr>cap_observerProtocolVersions = [ProtocolVersion],
      cap_features = [FeatureMultiObserver, FeatureObserverWithdrawal, FeatureDirectionalPathEvidence]\<rparr>"

definition SupportsProtocol :: "server_capabilities \<Rightarrow> int \<Rightarrow> bool" where
  "SupportsProtocol c version \<longleftrightarrow> version \<in> set (cap_observerProtocolVersions c)"

definition SupportsFeature :: "server_capabilities \<Rightarrow> string \<Rightarrow> bool" where
  "SupportsFeature c feature \<longleftrightarrow> feature \<in> set (cap_features c)"

section \<open>Node identities\<close>

record node_identity =
  ni_stableNodeID :: string
  ni_nodeID :: string
  ni_nodeKey :: string
  ni_discoKey :: string
  ni_hostname :: string
  ni_dnsName :: string
  ni_os :: string
  ni_tailscaleIPs :: "string list"
  ni_publicEndpoints :: "string list"

definition no_identity :: node_identity where
  "no_identity = \<lparr>ni_stableNodeID = [], ni_nodeID = [], ni_nodeKey = [], ni_discoKey = [],
     ni_hostname = [], ni_dnsName = [], ni_os = [], ni_tailscaleIPs = [], ni_publicEndpoints = []\<rparr>"

definition IdentityKey :: "node_identity \<Rightarrow> string" where
  "IdentityKey n =
     (case find (\<lambda>(prefix, value). value \<noteq> [])
         [(''node'', ni_stableNodeID n), (''node-id'', ni_nodeID n),
          (''node-key'', ni_nodeKey n), (''disco'', ni_discoKey n)] of
        Some (prefix, value) \<Rightarrow> prefix @ '':'' @ value
      | None \<Rightarrow>
          (case sort (ni_tailscaleIPs n) of
             ip # _ \<Rightarrow> ''ip:'' @ ip
           | [] \<Rightarrow> ''unknown''))"

definition CanonicalID :: "node_identity \<Rightarrow> string" where
  "CanonicalID n = IdentityKey n"

definition HasIdentity :: "node_identity \<Rightarrow> bool" where
  "HasIdentity n \<longleftrightarrow> IdentityKey n \<noteq> ''unknown''"

definition DisplayName :: "node_identity \<Rightarrow> string" where
  "DisplayName n =
     (if ni_dnsName n \<noteq> [] then
        let name = trim_suffix (ni_dnsName n) ''.''
        in if CHR ''.'' \<in> set name then takeWhile (\<lambda>c. c \<noteq> CHR ''.'') name else name
      else if ni_hostname n \<noteq> [] then ni_hostname n
      else IdentityKey n)"

section \<open>Observations and reports\<close>

record path_observation =
  po_kind :: path_kind
  po_directEndpoint :: string
  po_derpRegion :: string
  po_relayStableID :: string
  po_relayEndpoint :: string
  po_relayResolution :: string
  po_relayVNI :: "int option"

definition no_path :: path_observation where
  "no_path = \<lparr>po_kind = NoPathKind, po_directEndpoint = [], po_derpRegion = [],
     po_relayStableID = [], po_relayEndpoint = [], po_relayResolution = [], po_relayVNI = None\<rparr>"

definition unknown_path :: path_observation where
  "unknown_path = no_path\<lparr>po_kind := PathUnknown\<rparr>"

fun equalOptionalInt64 :: "int option \<Rightarrow> int option \<Rightarrow> bool" where
  "equalOptionalInt64 None None = True"
| "equalOptionalInt64 (Some l) (Some r) = (l = r)"
| "equalOptionalInt64 _ _ = False"

definition PathEqual :: "path_observation \<Rightarrow> path_observation \<Rightarrow> bool" where
  "PathEqual p q \<longleftrightarrow>
     po_kind p = po_kind q \<and> po_directEndpoint p = po_directEndpoint q \<and>
     po_derpRegion p = po_derpRegion q \<and> po_relayStableID p = po_relayStableID q \<and>
     po_relayEndpoint p = po_relayEndpoint q \<and> po_relayResolution p = po_relayResolution q \<and>
     equalOptionalInt64 (po_relayVNI p) (po_relayVNI q)"

record peer_observation =
  pe_peer :: node_identity
  pe_rxBytes :: int
  pe_txBytes :: int
  pe_rxDelta :: int
  pe_txDelta :: int
  pe_sampleDurationMS :: int
  pe_path :: path_observation
  pe_fallbackPath :: "path_observation option"
  pe_pathEvidence :: path_evidence
  pe_inferenceRule :: string
  pe_lastActive :: time

record observer_report =
  or_observer :: node_identity
  or_inventoryGeneration :: string
  or_collectedAt :: "time option"
  or_peers :: "peer_observation list"

definition CollectionTime :: "observer_report \<Rightarrow> time \<Rightarrow> time" where
  "CollectionTime o_r fallback = (case or_collectedAt o_r of None \<Rightarrow> fallback | Some t \<Rightarrow> t)"

record relay_session_client =
  rc_sessionClientID :: string
  rc_identity :: "node_identity option"
  rc_discoShort :: string
  rc_endpoint :: string

definition ClientIdentityStatus :: "relay_session_client \<Rightarrow> identity_status" where
  "ClientIdentityStatus c =
     (if (case rc_identity c of Some i \<Rightarrow> HasIdentity i | None \<Rightarrow> False) then IdentityResolved
      else if rc_discoShort c \<noteq> [] then IdentityPartial
      else IdentityAnonymous)"

definition IdentityOrEmpty :: "relay_session_client \<Rightarrow> node_identity" where
  "IdentityOrEmpty c = (case rc_identity c of None \<Rightarrow> no_identity | Some i \<Rightarrow> i)"

record relay_session_observation =
  rs_relay :: node_identity
  rs_source :: relay_session_client
  rs_target :: relay_session_client
  rs_sessionID :: string
  rs_vni :: int
  rs_sourceToTargetBytes :: int
  rs_targetToSourceBytes :: int
  rs_sourceToTargetDelta :: int
  rs_targetToSourceDelta :: int
  rs_sampleDurationMS :: int
  rs_lastActive :: time

record report_envelope =
  re_version :: int
  re_reportID :: string
  re_reporterInstanceID :: string
  re_sequence :: int
  re_collectedAt :: time
  re_kind :: report_kind
  re_observers :: "observer_report list"
  re_relaySessions :: "relay_session_observation list"

record report_receipt =
  rr_accepted :: bool
  rr_resyncRequired :: bool
  rr_controlStableNodeIDs :: "string list"
  rr_heartbeatIntervalMS :: int

section \<open>Validation\<close>

datatype report_error =
    UnsupportedVersion int | ReportIDsRequired | SequenceMustBePositive | CollectedAtRequired
  | UnknownReportKind string | RelayUpdateHasObservers | RelayUpdateNeedsSession
  | RelaySessionsNeedKind | ObserverRequired | ObserverIdentityRequired | GenerationRequired
  | ObserverCollectedAtZero | WithdrawalHasPeers | PeerIdentityRequired | NegativeCounters
  | NegativeSampleDuration | SampleDurationRequired
  | LegacyEvidenceReserved | UnknownEvidence string | FallbackMustBeDERP | FallbackNeedsPrimary
  | RuleNeedsInferred | InferredNeedsRule
  | RelayStableIDRequired | ClientIDsRequired | ClientsMustDiffer | ClientIdentityInvalid
  | SessionIDRequired | VNIOutOfRange | NegativeRelayCounters | RelayDeltaRequired
  | RelayDurationRequired | RelayLastActiveRequired

definition validatePeerPathEvidence :: "peer_observation \<Rightarrow> report_error option" where
  "validatePeerPathEvidence p =
     (let evidence = (if pe_pathEvidence p = NoPathEvidence then PathEvidenceObserved
                      else pe_pathEvidence p)
      in if evidence = PathEvidenceLegacy then Some LegacyEvidenceReserved
         else if evidence \<noteq> PathEvidenceObserved \<and> evidence \<noteq> PathEvidenceInferred
           then Some (UnknownEvidence (case evidence of OtherPathEvidence s \<Rightarrow> s | _ \<Rightarrow> []))
         else if (case pe_fallbackPath p of Some f \<Rightarrow> po_kind f \<noteq> PathDERP | None \<Rightarrow> False)
           then Some FallbackMustBeDERP
         else if pe_fallbackPath p \<noteq> None \<and> po_kind (pe_path p) \<noteq> PathDirect \<and>
                 po_kind (pe_path p) \<noteq> PathPeerRelay
           then Some FallbackNeedsPrimary
         else if evidence \<noteq> PathEvidenceInferred \<and> pe_inferenceRule p \<noteq> []
           then Some RuleNeedsInferred
         else if evidence = PathEvidenceInferred \<and> trim_space (pe_inferenceRule p) = []
           then Some InferredNeedsRule
         else None)"

definition validateRelayClient :: "relay_session_client \<Rightarrow> report_error option" where
  "validateRelayClient c =
     (case rc_identity c of
        Some i \<Rightarrow> if HasIdentity i then None else Some ClientIdentityInvalid
      | None \<Rightarrow> None)"

definition max_vni :: int where
  "max_vni = 16777215"

definition validateRelaySession :: "relay_session_observation \<Rightarrow> report_error option" where
  "validateRelaySession s =
     (if trim_space (ni_stableNodeID (rs_relay s)) = [] then Some RelayStableIDRequired
      else if trim_space (rc_sessionClientID (rs_source s)) = [] \<or>
              trim_space (rc_sessionClientID (rs_target s)) = [] then Some ClientIDsRequired
      else if rc_sessionClientID (rs_source s) = rc_sessionClientID (rs_target s)
        then Some ClientsMustDiffer
      else case first_error validateRelayClient [rs_source s, rs_target s] of
        Some e \<Rightarrow> Some e
      | None \<Rightarrow>
          if trim_space (rs_sessionID s) = [] then Some SessionIDRequired
          else if rs_vni s < 0 \<or> rs_vni s > max_vni then Some VNIOutOfRange
          else if rs_sourceToTargetBytes s < 0 \<or> rs_targetToSourceBytes s < 0 \<or>
                  rs_sourceToTargetDelta s < 0 \<or> rs_targetToSourceDelta s < 0
            then Some NegativeRelayCounters
          else if rs_sourceToTargetDelta s = 0 \<and> rs_targetToSourceDelta s = 0
            then Some RelayDeltaRequired
          else if rs_sampleDurationMS s < 1 then Some RelayDurationRequired
          else if rs_lastActive s = 0 then Some RelayLastActiveRequired
          else None)"

definition validatePeer :: "report_kind \<Rightarrow> peer_observation \<Rightarrow> report_error option" where
  "validatePeer kind p =
     (if \<not> HasIdentity (pe_peer p) then Some PeerIdentityRequired
      else if pe_rxBytes p < 0 \<or> pe_txBytes p < 0 \<or> pe_rxDelta p < 0 \<or> pe_txDelta p < 0
        then Some NegativeCounters
      else if pe_sampleDurationMS p < 0 then Some NegativeSampleDuration
      else if kind = ReportTrafficSample \<and> pe_sampleDurationMS p < 1
        then Some SampleDurationRequired
      else validatePeerPathEvidence p)"

definition validateObserver :: "report_kind \<Rightarrow> observer_report \<Rightarrow> report_error option" where
  "validateObserver kind ob =
     (if \<not> HasIdentity (or_observer ob) then Some ObserverIdentityRequired
      else if or_inventoryGeneration ob = [] then Some GenerationRequired
      else if or_collectedAt ob = Some 0 then Some ObserverCollectedAtZero
      else if kind = ReportObserverWithdrawal \<and> or_peers ob \<noteq> [] then Some WithdrawalHasPeers
      else first_error (validatePeer kind) (or_peers ob))"

definition ValidateReport :: "report_envelope \<Rightarrow> report_error option" where
  "ValidateReport r =
     (if re_version r \<noteq> ProtocolVersion then Some (UnsupportedVersion (re_version r))
      else if re_reportID r = [] \<or> re_reporterInstanceID r = [] then Some ReportIDsRequired
      else if re_sequence r < 1 then Some SequenceMustBePositive
      else if re_collectedAt r = 0 then Some CollectedAtRequired
      else case re_kind r of
        OtherReportKind k \<Rightarrow> Some (UnknownReportKind k)
      | ReportRelaySessionUpdate \<Rightarrow>
          if re_observers r \<noteq> [] then Some RelayUpdateHasObservers
          else if re_relaySessions r = [] then Some RelayUpdateNeedsSession
          else first_error validateRelaySession (re_relaySessions r)
      | kind \<Rightarrow>
          if re_relaySessions r \<noteq> [] then Some RelaySessionsNeedKind
          else if re_observers r = [] then Some ObserverRequired
          else first_error (validateObserver kind) (re_observers r))"

section \<open>Topology values\<close>

record relay_session_provenance =
  rp_sessionID :: string
  rp_vni :: int
  rp_sourceIdentityStatus :: identity_status
  rp_targetIdentityStatus :: identity_status

record observation_provenance =
  op_observerID :: string
  op_path :: path_observation
  op_fallbackPath :: "path_observation option"
  op_pathEvidence :: path_evidence
  op_inferenceRule :: string
  op_collectedAt :: time
  op_receivedAt :: time
  op_clockSkewed :: bool
  op_relaySession :: "relay_session_provenance option"

record directional_path_state =
  dp_fromNodeID :: string
  dp_toNodeID :: string
  dp_primaryPath :: path_observation
  dp_fallbackPath :: "path_observation option"
  dp_evidence :: path_evidence
  dp_inferenceRule :: string
  dp_observerID :: string
  dp_collectedAt :: time
  dp_receivedAt :: time
  dp_clockSkewed :: bool

record accepted_traffic =
  at_edgeID :: string
  at_sourceID :: string
  at_targetID :: string
  at_observerID :: string
  at_systemTelemetry :: bool
  at_aToBBytes :: int
  at_bToABytes :: int
  at_receivedAt :: time

record path_transition =
  pt_edgeID :: string
  pt_observedAt :: time
  pt_path :: path_observation
  pt_conflicts :: "path_observation list"
  pt_observations :: "observation_provenance list"
  pt_directions :: "directional_path_state list"

record observer_state_view =
  ov_id :: string
  ov_hostname :: string
  ov_online :: bool
  ov_lastSeen :: time
  ov_lastCollectedAt :: time
  ov_clockSkewMS :: int
  ov_clockSkewed :: bool

section \<open>History windows\<close>

datatype history_window =
    History15Minutes | History1Hour | History6Hours | History24Hours | History7Days
  | OtherHistoryWindow string

definition minute :: duration where "minute = 60 * second"
definition hour :: duration where "hour = 60 * minute"

fun WindowDuration :: "history_window \<Rightarrow> duration" where
  "WindowDuration History15Minutes = 15 * minute"
| "WindowDuration History1Hour = hour"
| "WindowDuration History6Hours = 6 * hour"
| "WindowDuration History24Hours = 24 * hour"
| "WindowDuration History7Days = 7 * 24 * hour"
| "WindowDuration (OtherHistoryWindow _) = 0"

fun WindowResolution :: "history_window \<Rightarrow> duration" where
  "WindowResolution History15Minutes = 10 * second"
| "WindowResolution History1Hour = 30 * second"
| "WindowResolution History6Hours = 3 * minute"
| "WindowResolution History24Hours = 12 * minute"
| "WindowResolution History7Days = hour"
| "WindowResolution (OtherHistoryWindow _) = 0"

definition WindowValid :: "history_window \<Rightarrow> bool" where
  "WindowValid w \<longleftrightarrow> WindowDuration w > 0"

section \<open>Edge identifiers\<close>

definition EdgeID :: "string \<Rightarrow> string \<Rightarrow> string \<times> string \<times> string" where
  "EdgeID a b =
     (let (a, b) = (if a > b then (b, a) else (a, b)) in (a @ ''--'' @ b, a, b))"

definition edge_key :: "string \<Rightarrow> string \<Rightarrow> string" where
  "edge_key a b = fst (EdgeID a b)"

section \<open>Lemmas\<close>

lemma equalOptionalInt64_eq [simp]: "equalOptionalInt64 l r \<longleftrightarrow> l = r"
  by (cases "(l, r)" rule: equalOptionalInt64.cases) auto

lemma PathEqual_eq [simp]: "PathEqual p q \<longleftrightarrow> p = q"
  by (auto simp: PathEqual_def)

lemma IdentityKey_unknown:
  "IdentityKey n = ''unknown'' \<longleftrightarrow>
     ni_stableNodeID n = [] \<and> ni_nodeID n = [] \<and> ni_nodeKey n = [] \<and> ni_discoKey n = [] \<and>
     ni_tailscaleIPs n = []"
  by (auto simp: IdentityKey_def split: list.splits)
     (metis list.distinct(1) set_empty set_sort)

lemma HasIdentity_iff:
  "HasIdentity n \<longleftrightarrow>
     ni_stableNodeID n \<noteq> [] \<or> ni_nodeID n \<noteq> [] \<or> ni_nodeKey n \<noteq> [] \<or> ni_discoKey n \<noteq> [] \<or>
     ni_tailscaleIPs n \<noteq> []"
  by (auto simp: HasIdentity_def IdentityKey_unknown)

lemma EdgeID_sym: "EdgeID a b = EdgeID b a"
  by (auto simp: EdgeID_def Let_def)

lemma EdgeID_cases: "EdgeID a b = (edge_key a b, a, b) \<and> a \<le> b \<or> EdgeID a b = (edge_key a b, b, a) \<and> b \<le> a"
  by (auto simp: EdgeID_def edge_key_def Let_def)

lemma edge_key_sym: "edge_key a b = edge_key b a"
  by (simp add: edge_key_def EdgeID_sym)

lemma EdgeID_ordered: "a \<le> b \<Longrightarrow> EdgeID a b = (a @ ''--'' @ b, a, b)"
  by (auto simp: EdgeID_def)

lemma EdgeID_source_le: "EdgeID a b = (i, s, t) \<Longrightarrow> s \<le> t \<and> {s, t} = {a, b} \<and> i = s @ ''--'' @ t"
  by (auto simp: EdgeID_def Let_def split: if_splits)

lemma EdgeID_pair: "EdgeID a b = EdgeID c d \<Longrightarrow> {a, b} = {c, d}"
  by (auto simp: EdgeID_def split: if_splits)

text \<open>Identifiers without a dash, as \<open>randomNodeID\<close> makes them, are read back from an edge id.\<close>

definition dash_free :: "string \<Rightarrow> bool" where
  "dash_free s \<longleftrightarrow> CHR ''-'' \<notin> set s"

lemma append_sep_inj:
  "c \<notin> set a \<Longrightarrow> c \<notin> set a' \<Longrightarrow> a @ c # b = a' @ c # b' \<Longrightarrow> a = a' \<and> b = b'"
proof (induction a arbitrary: a')
  case Nil
  then show ?case by (cases a') auto
next
  case (Cons x a)
  then show ?case by (cases a') auto
qed

lemma EdgeID_inj:
  assumes "dash_free a" "dash_free b" "dash_free c" "dash_free d"
    and "edge_key a b = edge_key c d"
  shows "EdgeID a b = EdgeID c d"
proof -
  obtain i s t where 1: "EdgeID a b = (i, s, t)" by (cases "EdgeID a b") auto
  obtain i' s' t' where 2: "EdgeID c d = (i', s', t')" by (cases "EdgeID c d") auto
  have s: "{s, t} = {a, b}" "i = s @ ''--'' @ t" "{s', t'} = {c, d}" "i' = s' @ ''--'' @ t'"
    using EdgeID_source_le [OF 1] EdgeID_source_le [OF 2] by auto
  have "i = i'" using assms(5) 1 2 by (simp add: edge_key_def)
  moreover have "dash_free s" "dash_free s'" using s assms(1-4) by (auto simp: doubleton_eq_iff)
  ultimately have "s = s' \<and> CHR ''-'' # t = CHR ''-'' # t'"
    using s by (intro append_sep_inj [where c = "CHR ''-''"]) (auto simp: dash_free_def)
  with 1 2 \<open>i = i'\<close> show ?thesis by simp
qed

section \<open>What a valid report is\<close>

text \<open>
  The checks of \<open>Validate\<close> as a conjunction of conditions, without their order and without the
  errors they raise: the form in which the aggregator and the exporter rely on them.
\<close>

definition valid_path_evidence :: "peer_observation \<Rightarrow> bool" where
  "valid_path_evidence p \<longleftrightarrow>
     pe_pathEvidence p \<in> {NoPathEvidence, PathEvidenceObserved, PathEvidenceInferred} \<and>
     (pe_fallbackPath p \<noteq> None \<longrightarrow>
        po_kind (the (pe_fallbackPath p)) = PathDERP \<and> po_kind (pe_path p) \<in> {PathDirect, PathPeerRelay}) \<and>
     (if pe_pathEvidence p = PathEvidenceInferred then trim_space (pe_inferenceRule p) \<noteq> []
      else pe_inferenceRule p = [])"

definition valid_peer :: "report_kind \<Rightarrow> peer_observation \<Rightarrow> bool" where
  "valid_peer kind p \<longleftrightarrow>
     HasIdentity (pe_peer p) \<and> 0 \<le> pe_rxBytes p \<and> 0 \<le> pe_txBytes p \<and> 0 \<le> pe_rxDelta p \<and> 0 \<le> pe_txDelta p \<and>
     (if kind = ReportTrafficSample then 1 else 0) \<le> pe_sampleDurationMS p \<and> valid_path_evidence p"

definition valid_observer :: "report_kind \<Rightarrow> observer_report \<Rightarrow> bool" where
  "valid_observer kind ob \<longleftrightarrow>
     HasIdentity (or_observer ob) \<and> or_inventoryGeneration ob \<noteq> [] \<and> or_collectedAt ob \<noteq> Some 0 \<and>
     (kind = ReportObserverWithdrawal \<longrightarrow> or_peers ob = []) \<and> (\<forall>p \<in> set (or_peers ob). valid_peer kind p)"

definition valid_relay_client :: "relay_session_client \<Rightarrow> bool" where
  "valid_relay_client c \<longleftrightarrow> (\<forall>i. rc_identity c = Some i \<longrightarrow> HasIdentity i)"

definition valid_relay_session :: "relay_session_observation \<Rightarrow> bool" where
  "valid_relay_session s \<longleftrightarrow>
     trim_space (ni_stableNodeID (rs_relay s)) \<noteq> [] \<and> trim_space (rs_sessionID s) \<noteq> [] \<and>
     trim_space (rc_sessionClientID (rs_source s)) \<noteq> [] \<and> trim_space (rc_sessionClientID (rs_target s)) \<noteq> [] \<and>
     rc_sessionClientID (rs_source s) \<noteq> rc_sessionClientID (rs_target s) \<and>
     valid_relay_client (rs_source s) \<and> valid_relay_client (rs_target s) \<and>
     rs_vni s \<in> {0..max_vni} \<and> 0 \<le> rs_sourceToTargetBytes s \<and> 0 \<le> rs_targetToSourceBytes s \<and>
     0 \<le> rs_sourceToTargetDelta s \<and> 0 \<le> rs_targetToSourceDelta s \<and>
     0 < rs_sourceToTargetDelta s + rs_targetToSourceDelta s \<and>
     1 \<le> rs_sampleDurationMS s \<and> rs_lastActive s \<noteq> 0"

definition valid_report :: "report_envelope \<Rightarrow> bool" where
  "valid_report r \<longleftrightarrow>
     re_version r = ProtocolVersion \<and> re_reportID r \<noteq> [] \<and> re_reporterInstanceID r \<noteq> [] \<and>
     1 \<le> re_sequence r \<and> re_collectedAt r \<noteq> 0 \<and>
     (if re_kind r = ReportRelaySessionUpdate
      then re_observers r = [] \<and> re_relaySessions r \<noteq> [] \<and> (\<forall>s \<in> set (re_relaySessions r). valid_relay_session s)
      else (\<forall>k. re_kind r \<noteq> OtherReportKind k) \<and> re_relaySessions r = [] \<and> re_observers r \<noteq> [] \<and>
           (\<forall>ob \<in> set (re_observers r). valid_observer (re_kind r) ob))"

lemma validatePeerPathEvidence_None: "validatePeerPathEvidence p = None \<longleftrightarrow> valid_path_evidence p"
  by (cases "pe_pathEvidence p"; cases "pe_fallbackPath p")
     (auto simp: validatePeerPathEvidence_def valid_path_evidence_def Let_def)

lemma validatePeer_None: "validatePeer kind p = None \<longleftrightarrow> valid_peer kind p"
  by (auto simp: validatePeer_def valid_peer_def validatePeerPathEvidence_None)

lemma validateObserver_None: "validateObserver kind ob = None \<longleftrightarrow> valid_observer kind ob"
  by (auto simp: validateObserver_def valid_observer_def validatePeer_None)

lemma validateRelayClient_None: "validateRelayClient c = None \<longleftrightarrow> valid_relay_client c"
  by (simp add: validateRelayClient_def valid_relay_client_def split: option.splits)

lemma if_Some_None: "((if b then Some e else x) = None) \<longleftrightarrow> \<not> b \<and> x = None"
  by simp

lemma validateRelaySession_None: "validateRelaySession s = None \<longleftrightarrow> valid_relay_session s"
proof -
  have d: "(first_error validateRelayClient [rs_source s, rs_target s] = None) \<longleftrightarrow>
    valid_relay_client (rs_source s) \<and> valid_relay_client (rs_target s)"
    by (simp add: validateRelayClient_None del: first_error.simps)
  have c: "((case x of Some e \<Rightarrow> Some e | None \<Rightarrow> y) = None) \<longleftrightarrow> x = None \<and> y = None"
    for x y :: "report_error option"
    by (cases x) simp_all
  have a: "(\<not> (i < 0 \<or> j < 0 \<or> k < 0 \<or> l < 0) \<and> \<not> (k = 0 \<and> l = 0)) \<longleftrightarrow>
    (0 \<le> i \<and> 0 \<le> j \<and> 0 \<le> k \<and> 0 \<le> l \<and> 0 < k + l)" for i j k l :: int
    by arith
  show ?thesis
    unfolding validateRelaySession_def valid_relay_session_def if_Some_None c d
    using a [of "rs_sourceToTargetBytes s" "rs_targetToSourceBytes s" "rs_sourceToTargetDelta s"
        "rs_targetToSourceDelta s"]
    by (simp only: de_Morgan_disj not_less atLeastAtMost_iff simp_thms) argo
qed

section \<open>Properties\<close>

lemma ValidateReport_None: "ValidateReport r = None \<longleftrightarrow> valid_report r"
  by (cases "re_kind r")
     (auto simp: ValidateReport_def valid_report_def validateObserver_None validateRelaySession_None)

text \<open>\<open>Validate\<close> accepts exactly the reports that satisfy \<open>valid_report\<close>: the version, ids,
  sequence and collection time of the envelope, and per kind either one or more valid relay sessions
  and no observers, or one or more valid observers and no sessions; an unknown kind is never valid.\<close>

theorem ValidateReport_accepts: "ValidateReport r = None \<longleftrightarrow> valid_report r"
  by (rule ValidateReport_None)

text \<open>An edge id names one unordered pair: two pairs of ids without a dash (as
  \<open>randomNodeID\<close> makes them) with the same edge id are the same pair, in the same canonical order.\<close>

theorem edge_id_names_pair:
  "dash_free a \<Longrightarrow> dash_free b \<Longrightarrow> dash_free c \<Longrightarrow> dash_free d \<Longrightarrow>
     fst (EdgeID a b) = fst (EdgeID c d) \<Longrightarrow> EdgeID a b = EdgeID c d \<and> {a, b} = {c, d}"
  using EdgeID_inj [of a b c d] EdgeID_pair [of a b c d] by (simp add: edge_key_def)

theorem edge_id_names_pair_witness:
  "EdgeID ''node_b'' ''node_a'' = EdgeID ''node_a'' ''node_b'' \<and> {''node_b'', ''node_a''} = {''node_a'', ''node_b''}"
  by (rule edge_id_names_pair) (simp_all add: dash_free_def EdgeID_sym)

end
