(* ===== verification/Netip.thy ===== *)
theory Netip
  imports Tailpath_Prelude
begin

text \<open>
  The part of Go's \<open>net/netip\<close> and \<open>strconv\<close> the program uses: parsing and printing of IP
  addresses and of \<open>address:port\<close> pairs (\<open>ParseAddr\<close>, \<open>ParseAddrPort\<close>, \<open>String\<close>,
  \<open>Unmap\<close>, \<open>Compare\<close>) and the decimal \<open>ParseUint\<close>. An IPv6 address is its eight
  16-bit groups and its zone.
\<close>

datatype addr = Addr4 nat nat nat nat | Addr6 "nat list" string

definition is_digit :: "char \<Rightarrow> bool" where
  "is_digit c \<longleftrightarrow> c \<in> set ''0123456789''"

definition digit_val :: "char \<Rightarrow> nat" where
  "digit_val c = (of_char c :: nat) - 48"

fun uint_val :: "nat \<Rightarrow> string \<Rightarrow> nat option" where
  "uint_val n [] = Some n"
| "uint_val n (c # cs) = (if is_digit c then uint_val (n * 10 + digit_val c) cs else None)"

definition parse_uint :: "nat \<Rightarrow> string \<Rightarrow> nat option" where
  "parse_uint bound s =
     (if s = [] then None
      else case uint_val 0 s of None \<Rightarrow> None | Some n \<Rightarrow> if n \<le> bound then Some n else None)"

section \<open>Addresses\<close>

fun ipv4_fields :: "nat \<Rightarrow> nat \<Rightarrow> nat list \<Rightarrow> string \<Rightarrow> nat list option" where
  "ipv4_fields val len acc [] = (if length acc < 3 then None else Some (rev (val # acc)))"
| "ipv4_fields val len acc (c # s) =
     (if is_digit c then
        if len = 1 \<and> val = 0 then None
        else let v = val * 10 + digit_val c in
          if v > 255 then None else ipv4_fields v (Suc len) acc s
      else if c = CHR ''.'' then
        if len = 0 \<or> s = [] then None
        else if length acc = 3 then None
        else ipv4_fields 0 0 (val # acc) s
      else None)"

definition parse_ipv4 :: "string \<Rightarrow> addr option" where
  "parse_ipv4 s = (case ipv4_fields 0 0 [] s of Some [a, b, c, d] \<Rightarrow> Some (Addr4 a b c d) | _ \<Rightarrow> None)"

definition hex_val :: "char \<Rightarrow> nat option" where
  "hex_val c =
     (if is_digit c then Some (digit_val c)
      else if c \<in> set ''abcdef'' then Some (of_char c - 87)
      else if c \<in> set ''ABCDEF'' then Some (of_char c - 55)
      else None)"

fun take_hex :: "nat \<Rightarrow> nat \<Rightarrow> string \<Rightarrow> (nat \<times> nat \<times> string) option" where
  "take_hex off acc [] = Some (off, acc, [])"
| "take_hex off acc (c # s) =
     (case hex_val c of
        None \<Rightarrow> Some (off, acc, c # s)
      | Some d \<Rightarrow> if off > 3 then None else take_hex (Suc off) (acc * 16 + d) s)"

text \<open>The loop of \<open>parseIPv6\<close>: groups read so far (last first), the place of \<open>::\<close>, the rest.\<close>

function ipv6_loop :: "nat list \<Rightarrow> nat option \<Rightarrow> string \<Rightarrow> (nat list \<times> nat option \<times> string) option"
where
  "ipv6_loop gs e s =
     (if length gs \<ge> 8 then Some (gs, e, s)
      else case take_hex 0 0 s of
        None \<Rightarrow> None
      | Some (off, acc, r) \<Rightarrow>
          if off = 0 then None
          else if r \<noteq> [] \<and> hd r = CHR ''.'' then
            if e = None \<and> length gs \<noteq> 6 then None
            else if length gs > 6 then None
            else (case ipv4_fields 0 0 [] s of
                Some [a, b, c, d] \<Rightarrow> Some ((c * 256 + d) # (a * 256 + b) # gs, e, [])
              | _ \<Rightarrow> None)
          else if r = [] then Some (acc # gs, e, [])
          else if hd r \<noteq> CHR '':'' \<or> tl r = [] then None
          else if hd (tl r) = CHR '':'' then
            if e \<noteq> None then None
            else if tl (tl r) = [] then Some (acc # gs, Some (length gs + 1), [])
            else ipv6_loop (acc # gs) (Some (length gs + 1)) (tl (tl r))
          else ipv6_loop (acc # gs) e (tl r))"
  by pat_completeness auto
termination
  by (relation "measure (\<lambda>(gs, e, s). 8 - length gs)") auto

declare ipv6_loop.simps [simp del]

definition finish_ipv6 :: "nat list \<Rightarrow> nat option \<Rightarrow> nat list option" where
  "finish_ipv6 g e =
     (case e of
        None \<Rightarrow> if length g < 8 then None else Some g
      | Some k \<Rightarrow> if length g < 8 then Some (take k g @ replicate (8 - length g) 0 @ drop k g) else None)"

definition parse_ipv6 :: "string \<Rightarrow> addr option" where
  "parse_ipv6 s =
     (let body = takeWhile (\<lambda>c. c \<noteq> CHR ''%'') s;
          rest = dropWhile (\<lambda>c. c \<noteq> CHR ''%'') s;
          zone = tl rest
      in if rest \<noteq> [] \<and> zone = [] then None
         else if body = ''::'' then Some (Addr6 (replicate 8 0) zone)
         else let e = (if has_prefix body ''::'' then Some 0 else None);
                  body = (if has_prefix body ''::'' then drop 2 body else body)
         in case ipv6_loop [] e body of
              Some (gs, e', []) \<Rightarrow> map_option (\<lambda>g. Addr6 g zone) (finish_ipv6 (rev gs) e')
            | _ \<Rightarrow> None)"

definition parse_addr :: "string \<Rightarrow> addr option" where
  "parse_addr s =
     (case find (\<lambda>c. c \<in> set ''.:%'') s of
        Some c \<Rightarrow>
          if c = CHR ''.'' then parse_ipv4 s else if c = CHR '':'' then parse_ipv6 s else None
      | None \<Rightarrow> None)"

fun addr_unmap :: "addr \<Rightarrow> addr" where
  "addr_unmap (Addr4 a b c d) = Addr4 a b c d"
| "addr_unmap (Addr6 g z) =
     (if take 6 g = [0, 0, 0, 0, 0, 65535]
      then Addr4 (g ! 6 div 256) (g ! 6 mod 256) (g ! 7 div 256) (g ! 7 mod 256)
      else Addr6 g z)"

fun show_hex :: "nat \<Rightarrow> string" where
  "show_hex n = (if n < 16 then [''0123456789abcdef'' ! n] else show_hex (n div 16) @ [''0123456789abcdef'' ! (n mod 16)])"

declare show_hex.simps [simp del]

fun join_with :: "string \<Rightarrow> string list \<Rightarrow> string" where
  "join_with sep [] = []"
| "join_with sep [x] = x"
| "join_with sep (x # y # xs) = x @ sep @ join_with sep (y # xs)"

text \<open>The first longest run of at least two zero groups, as \<open>(start, end)\<close>.\<close>

definition zero_run :: "nat list \<Rightarrow> nat \<times> nat" where
  "zero_run g =
     fold (\<lambda>i (zs, ze).
         let j = i + length (takeWhile (\<lambda>x. x = 0) (drop i g))
         in if j - i \<ge> 2 \<and> j - i > ze - zs then (i, j) else (zs, ze))
       [0..<8] (255, 255)"

definition show_ipv6 :: "nat list \<Rightarrow> string" where
  "show_ipv6 g =
     (case zero_run g of (zs, ze) \<Rightarrow>
        if zs \<ge> 8 then join_with '':'' (map show_hex g)
        else join_with '':'' (map show_hex (take zs g)) @ ''::'' @ join_with '':'' (map show_hex (drop ze g)))"

definition show_ipv4 :: "nat \<Rightarrow> nat \<Rightarrow> nat \<Rightarrow> nat \<Rightarrow> string" where
  "show_ipv4 a b c d =
     show_nat a @ ''.'' @ show_nat b @ ''.'' @ show_nat c @ ''.'' @ show_nat d"

fun show_addr :: "addr \<Rightarrow> string" where
  "show_addr (Addr4 a b c d) = show_ipv4 a b c d"
| "show_addr (Addr6 g z) =
     (if take 6 g = [0, 0, 0, 0, 0, 65535]
      then ''::ffff:'' @ show_ipv4 (g ! 6 div 256) (g ! 6 mod 256) (g ! 7 div 256) (g ! 7 mod 256)
      else show_ipv6 g) @ (if z = [] then [] else ''%'' @ z)"

fun addr_less :: "addr \<Rightarrow> addr \<Rightarrow> bool" where
  "addr_less (Addr4 a b c d) (Addr4 a' b' c' d') \<longleftrightarrow> [a, b, c, d] < [a', b', c', d']"
| "addr_less (Addr4 _ _ _ _) (Addr6 _ _) \<longleftrightarrow> True"
| "addr_less (Addr6 _ _) (Addr4 _ _ _ _) \<longleftrightarrow> False"
| "addr_less (Addr6 g z) (Addr6 g' z') \<longleftrightarrow> g < g' \<or> g = g' \<and> z < z'"

fun is_addr4 :: "addr \<Rightarrow> bool" where
  "is_addr4 (Addr4 _ _ _ _) = True"
| "is_addr4 (Addr6 _ _) = False"

section \<open>Addresses with a port\<close>

definition split_last_colon :: "string \<Rightarrow> (string \<times> string) option" where
  "split_last_colon s =
     (if CHR '':'' \<notin> set s then None
      else Some (rev (tl (dropWhile (\<lambda>c. c \<noteq> CHR '':'') (rev s))),
                 rev (takeWhile (\<lambda>c. c \<noteq> CHR '':'') (rev s))))"

definition parse_addr_port :: "string \<Rightarrow> (addr \<times> nat) option" where
  "parse_addr_port s =
     (case split_last_colon s of
        None \<Rightarrow> None
      | Some (ip, port) \<Rightarrow>
          if ip = [] \<or> port = [] then None
          else let v6 = (hd ip = CHR ''['')
          in if v6 \<and> (length ip < 2 \<or> last ip \<noteq> CHR '']'') then None
             else case parse_uint 65535 port of
                None \<Rightarrow> None
              | Some p \<Rightarrow>
                  (case parse_addr (if v6 then butlast (tl ip) else ip) of
                     None \<Rightarrow> None
                   | Some a \<Rightarrow> if v6 = is_addr4 a then None else Some (a, p)))"

definition show_addr_port :: "addr \<times> nat \<Rightarrow> string" where
  "show_addr_port ap =
     (if is_addr4 (fst ap) then show_addr (fst ap) @ '':'' @ show_nat (snd ap)
      else ''['' @ show_addr (fst ap) @ '']:'' @ show_nat (snd ap))"

section \<open>Printing an IPv4 address and parsing it again\<close>

lemma digit_char_is_digit [simp]: "d < 10 \<Longrightarrow> is_digit (digit_char d)"
  using digit_char_cases by (simp add: is_digit_def)

lemma digit_val_char [simp]: "d < 10 \<Longrightarrow> digit_val (digit_char d) = d"
proof -
  assume "d < 10"
  then have "d \<in> set [0..<10]" by simp
  moreover have "\<forall>d \<in> set [0..<10]. digit_val (digit_char d) = d" by code_simp
  ultimately show ?thesis by blast
qed

lemma uint_val_snoc:
  "uint_val n (s @ [c]) =
     (case uint_val n s of None \<Rightarrow> None
      | Some m \<Rightarrow> if is_digit c then Some (m * 10 + digit_val c) else None)"
  by (induction n s rule: uint_val.induct) auto

lemma uint_val_show_nat [simp]: "uint_val 0 (show_nat n) = Some n"
proof (induction n rule: show_nat.induct)
  case (1 n)
  show ?case
  proof (cases "n < 10")
    case True
    then show ?thesis by (subst show_nat.simps) simp
  next
    case False
    with 1 show ?thesis by (subst show_nat.simps) (simp add: uint_val_snoc)
  qed
qed

lemma parse_uint_show_nat: "n \<le> bound \<Longrightarrow> parse_uint bound (show_nat n) = Some n"
  by (simp add: parse_uint_def)

text \<open>Printing a byte and reading it back as one field of a dotted quad.\<close>

lemma byte_field:
  "n < 256 \<Longrightarrow> ipv4_fields 0 0 acc (show_nat n @ t) = ipv4_fields n (length (show_nat n)) acc t"
proof -
  assume n: "n < 256"
  consider "n < 10" | "10 \<le> n" "n < 100" | "100 \<le> n" by linarith
  then show ?thesis
  proof cases
    case 1
    then have "show_nat n = [digit_char n]" by (simp add: show_nat.simps)
    with 1 show ?thesis by simp
  next
    case 2
    then have s: "show_nat n = [digit_char (n div 10), digit_char (n mod 10)]"
      by (simp add: show_nat.simps [of n] show_nat.simps [of "n div 10"])
    from 2 have "n div 10 < 10" "n div 10 > 0" "n mod 10 < 10" by auto
    with 2 show ?thesis by (simp add: s Let_def)
  next
    case 3
    then have "\<not> n < 10" by simp
    moreover have "\<not> n div 10 < 10" using 3 by (simp add: div_less_iff_less_mult)
    moreover have "n div 10 div 10 < 10" using n by auto
    ultimately have s: "show_nat n = [digit_char (n div 10 div 10), digit_char (n div 10 mod 10), digit_char (n mod 10)]"
      by (simp only: show_nat.simps [of n] show_nat.simps [of "n div 10"] show_nat.simps [of "n div 10 div 10"]
          if_False if_True append_Cons append_Nil)
    have "n div 10 div 10 < 10" using n by auto
    moreover have "n div 10 div 10 > 0" using 3 by (simp add: div_mult2_eq [symmetric] div_greater_zero_iff)
    moreover have "n div 10 mod 10 < 10" "n mod 10 < 10" by simp_all
    moreover have "(n div 10 div 10 * 10 + n div 10 mod 10) = n div 10" by simp
    moreover have "(n div 10) * 10 + n mod 10 = n" by simp
    moreover have "n div 10 \<le> 25" "\<not> 255 < n div 10 div 10" using n by auto
    ultimately show ?thesis using n by (simp add: s Let_def)
  qed
qed

lemma not_digit_dot [simp]: "\<not> is_digit CHR ''.''"
  by (simp add: is_digit_def)

lemma parse_show_ipv4:
  assumes "a < 256" "b < 256" "c < 256" "d < 256"
  shows "parse_addr (show_addr (Addr4 a b c d)) = Some (Addr4 a b c d)"
proof -
  define P where "P c \<longleftrightarrow> c \<in> set ''.:%''" for c :: char
  have scan: "find P (show_nat n @ t) = find P t" for n t
  proof -
    have "\<forall>x \<in> set (show_nat n). \<not> P x" using show_nat_digits [of n] by (auto simp: P_def)
    moreover have "find P (xs @ t) = find P t" if "\<forall>x \<in> set xs. \<not> P x" for xs
      using that by (induction xs) auto
    ultimately show ?thesis by blast
  qed
  have dot: "find P (show_ipv4 a b c d) = Some CHR ''.''"
    by (simp add: show_ipv4_def scan) (simp add: P_def)
  have fin: "ipv4_fields 0 0 [c, b, a] (show_nat d) = ipv4_fields d (length (show_nat d)) [c, b, a] []"
    using byte_field [of d "[c, b, a]" "[]"] assms by simp
  have "ipv4_fields 0 0 [] (show_ipv4 a b c d) = Some [a, b, c, d]"
    unfolding show_ipv4_def using assms
    by (simp add: byte_field fin)
  then show ?thesis
    using dot by (simp only: parse_addr_def parse_ipv4_def P_def [abs_def] show_addr.simps) simp
qed

end
