(* ===== verification/Path_Evidence.thy ===== *)
theory Path_Evidence
  imports Domain_Types Netip
begin

text \<open>
  Path evidence: \<open>internal/domain/path_evidence.go\<close> (which of the paths the observers report is
  the edge's primary and which conflict with it), \<open>path_candidates.go\<close> (Peer Relay candidates)
  and \<open>directional_paths.go\<close> (the outbound path each endpoint reports). The list of observations
  is the order in which the caller's map iteration produced them.
\<close>

section \<open>Evidence keys\<close>

definition PathEvidenceKey :: "path_observation \<Rightarrow> string" where
  "PathEvidenceKey p =
     (case po_kind p of
        PathDirect \<Rightarrow> ''direct''
      | PathDERP \<Rightarrow>
          (let region = to_lower (trim_space (po_derpRegion p))
           in ''derp:'' @ (if region = [] then ''unknown'' else region))
      | PathPeerRelay \<Rightarrow>
          (let stableID = trim_space (po_relayStableID p); endpoint = trim_space (po_relayEndpoint p)
           in if stableID \<noteq> [] then ''peer_relay:'' @ stableID
              else if endpoint \<noteq> [] then ''peer_relay:endpoint:'' @ endpoint
              else case po_relayVNI p of
                Some v \<Rightarrow> ''peer_relay:vni:'' @ show_int v
              | None \<Rightarrow> ''peer_relay:unknown'')
      | _ \<Rightarrow> ''unknown'')"

definition observerEvidenceRole :: "string \<Rightarrow> string \<Rightarrow> string \<Rightarrow> nat" where
  "observerEvidenceRole sourceID targetID observerID =
     (if observerID = sourceID then 0 else if observerID = targetID then 1 else 2)"

definition enrichEvidencePath :: "path_observation \<Rightarrow> path_observation \<Rightarrow> path_observation" where
  "enrichEvidencePath path detail =
     (case po_kind path of
        PathDERP \<Rightarrow>
          (if po_derpRegion path = [] then path\<lparr>po_derpRegion := po_derpRegion detail\<rparr> else path)
      | PathPeerRelay \<Rightarrow>
          path\<lparr>po_relayStableID :=
                 (if po_relayStableID path = [] then po_relayStableID detail else po_relayStableID path),
               po_relayVNI :=
                 (if po_relayVNI path = None then po_relayVNI detail else po_relayVNI path),
               po_relayEndpoint :=
                 (if po_relayEndpoint path = [] then po_relayEndpoint detail else po_relayEndpoint path),
               po_relayResolution :=
                 (if po_relayResolution path = [] then po_relayResolution detail
                  else po_relayResolution path)\<rparr>
      | _ \<Rightarrow> path)"

section \<open>Relay identities by endpoint\<close>

definition relay_endpoint_step ::
  "observation_provenance \<Rightarrow> (string, string list) gomap \<Rightarrow> (string, string list) gomap" where
  "relay_endpoint_step ob candidates =
     (let path = op_path ob; endpoint = trim_space (po_relayEndpoint path);
          stableID = trim_space (po_relayStableID path)
      in if po_kind path \<noteq> PathPeerRelay \<or> endpoint = [] \<or> stableID = [] then candidates
         else mput endpoint
           (List.insert stableID (case map_of candidates endpoint of None \<Rightarrow> [] | Some l \<Rightarrow> l))
           candidates)"

definition uniqueRelayStableIDsByEndpoint ::
  "observation_provenance list \<Rightarrow> (string, string) gomap" where
  "uniqueRelayStableIDsByEndpoint observations =
     mapv (\<lambda>endpoint ids. hd ids)
       (keep_if (\<lambda>endpoint ids. length ids = 1) (fold relay_endpoint_step observations []))"

definition enrichDirectionalRelay ::
  "path_observation \<Rightarrow> (string, string) gomap \<Rightarrow> path_observation" where
  "enrichDirectionalRelay path stableIDByEndpoint =
     (if po_kind path \<noteq> PathPeerRelay \<or> po_relayStableID path \<noteq> [] then path
      else let stableID = str_at stableIDByEndpoint (trim_space (po_relayEndpoint path))
        in if stableID \<noteq> [] then
             path\<lparr>po_relayStableID := stableID, po_relayResolution := ''endpoint_match''\<rparr>
           else path)"

section \<open>Reconciliation\<close>

record path_evidence_state =
  pes_path :: path_observation
  pes_conflicts :: "path_observation list"
  pes_directions :: "directional_path_state list"

definition no_evidence_state :: path_evidence_state where
  "no_evidence_state = \<lparr>pes_path = no_path, pes_conflicts = [], pes_directions = []\<rparr>"

record evidence =
  ev_path :: path_observation
  ev_role :: nat
  ev_observerID :: string
  ev_receivedAt :: time

text \<open>The body of the loop over the observations.\<close>

definition reconcile_step ::
  "string \<Rightarrow> string \<Rightarrow> (string, string) gomap \<Rightarrow> observation_provenance \<Rightarrow>
   (string, evidence) gomap \<Rightarrow> (string, evidence) gomap" where
  "reconcile_step sourceID targetID stableIDByEndpoint ob m =
     (let path = enrichDirectionalRelay (op_path ob) stableIDByEndpoint;
          key = PathEvidenceKey path;
          candidate = \<lparr>ev_path = path,
            ev_role = observerEvidenceRole sourceID targetID (op_observerID ob),
            ev_observerID = op_observerID ob, ev_receivedAt = op_receivedAt ob\<rparr>
      in case map_of m key of
           None \<Rightarrow> mput key candidate m
         | Some current \<Rightarrow>
             if ev_role candidate < ev_role current \<or>
                ev_role candidate = ev_role current \<and> ev_observerID candidate < ev_observerID current \<or>
                ev_role candidate = ev_role current \<and> ev_observerID candidate = ev_observerID current \<and>
                ev_receivedAt candidate > ev_receivedAt current
             then mput key candidate m
             else if ev_receivedAt candidate > ev_receivedAt current
             then mput key (current\<lparr>ev_path := enrichEvidencePath (ev_path current) (ev_path candidate),
                                    ev_receivedAt := ev_receivedAt candidate\<rparr>) m
             else m)"

definition evidence_by_key ::
  "string \<Rightarrow> string \<Rightarrow> observation_provenance list \<Rightarrow> (string, evidence) gomap" where
  "evidence_by_key sourceID targetID observations =
     fold (reconcile_step sourceID targetID (uniqueRelayStableIDsByEndpoint observations))
       observations []"

definition evidence_less :: "(string, evidence) gomap \<Rightarrow> string \<Rightarrow> string \<Rightarrow> bool" where
  "evidence_less m i j =
     (let left = the (map_of m i); right = the (map_of m j)
      in if ev_role left \<noteq> ev_role right then ev_role left < ev_role right
         else if ev_observerID left \<noteq> ev_observerID right
           then ev_observerID left < ev_observerID right
         else i < j)"

definition primary_key :: "(string, evidence) gomap \<Rightarrow> path_observation \<Rightarrow> string" where
  "primary_key m previous =
     (let keys = sort_slice (evidence_less m) (mkeys m)
      in if map_of m (PathEvidenceKey previous) = None \<or> po_kind previous = NoPathKind
         then hd keys else PathEvidenceKey previous)"

definition ReconcilePathEvidence ::
  "string \<Rightarrow> string \<Rightarrow> path_observation \<Rightarrow> observation_provenance list \<Rightarrow> path_evidence_state"
where
  "ReconcilePathEvidence sourceID targetID previous observations =
     (if observations = [] then
        \<lparr>pes_path = unknown_path, pes_conflicts = [], pes_directions = []\<rparr>
      else
        let m = evidence_by_key sourceID targetID observations;
            primaryKey = primary_key m previous;
            conflictKeys = sort (filter (\<lambda>k. k \<noteq> primaryKey) (mkeys m))
        in \<lparr>pes_path = ev_path (the (map_of m primaryKey)),
            pes_conflicts = map (\<lambda>k. ev_path (the (map_of m k))) conflictKeys,
            pes_directions = []\<rparr>)"

section \<open>Peer Relay candidates\<close>

datatype path_state = PathStable | PathSwitching

record path_candidate =
  pc_path :: path_observation
  pc_lastObservedAt :: time
  pc_observerCount :: nat

definition sameRelayCandidate :: "path_observation \<Rightarrow> path_observation \<Rightarrow> bool" where
  "sameRelayCandidate left right =
     (if po_kind left \<noteq> PathPeerRelay \<or> po_kind right \<noteq> PathPeerRelay then False
      else if po_relayStableID left \<noteq> [] \<and> po_relayStableID right \<noteq> []
        then po_relayStableID left = po_relayStableID right
      else if po_relayEndpoint left \<noteq> [] \<and> po_relayEndpoint right \<noteq> []
        then po_relayEndpoint left = po_relayEndpoint right
      else PathEvidenceKey left = PathEvidenceKey right)"

definition path_candidate_of ::
  "observation_provenance list \<Rightarrow> path_observation \<Rightarrow> path_candidate" where
  "path_candidate_of observations path =
     (let matching = filter (\<lambda>ob. sameRelayCandidate path (op_path ob)) observations
      in \<lparr>pc_path = path,
          pc_lastObservedAt = fold (\<lambda>ob t. if op_receivedAt ob > t then op_receivedAt ob else t) matching 0,
          pc_observerCount = length (remdups (map op_observerID matching))\<rparr>)"

definition PathCandidates ::
  "path_observation \<Rightarrow> path_observation list \<Rightarrow> observation_provenance list \<Rightarrow>
   path_state \<times> path_candidate list" where
  "PathCandidates path conflicts observations =
     (let candidates = map (path_candidate_of observations)
            (filter (\<lambda>p. po_kind p = PathPeerRelay) (path # conflicts))
      in (if length candidates > 1 then PathSwitching else PathStable, candidates))"

section \<open>Directional paths\<close>

definition direction_of ::
  "string \<Rightarrow> string \<Rightarrow> (string, string) gomap \<Rightarrow> observation_provenance \<Rightarrow>
   directional_path_state option" where
  "direction_of sourceID targetID stableIDByEndpoint ob =
     (if op_observerID ob \<noteq> sourceID \<and> op_observerID ob \<noteq> targetID then None
      else Some
        \<lparr>dp_fromNodeID = op_observerID ob,
         dp_toNodeID = (if op_observerID ob = sourceID then targetID else sourceID),
         dp_primaryPath = enrichDirectionalRelay (op_path ob) stableIDByEndpoint,
         dp_fallbackPath =
           map_option (\<lambda>f. enrichDirectionalRelay f stableIDByEndpoint) (op_fallbackPath ob),
         dp_evidence =
           (if op_pathEvidence ob = NoPathEvidence then PathEvidenceObserved else op_pathEvidence ob),
         dp_inferenceRule = op_inferenceRule ob, dp_observerID = op_observerID ob,
         dp_collectedAt = op_collectedAt ob, dp_receivedAt = op_receivedAt ob,
         dp_clockSkewed = op_clockSkewed ob\<rparr>)"

definition direction_less ::
  "string \<Rightarrow> directional_path_state \<Rightarrow> directional_path_state \<Rightarrow> bool" where
  "direction_less sourceID i j =
     (if dp_fromNodeID i = sourceID then dp_fromNodeID j \<noteq> sourceID
      else if dp_fromNodeID j = sourceID then False
      else dp_fromNodeID i < dp_fromNodeID j)"

definition DirectionalPaths ::
  "string \<Rightarrow> string \<Rightarrow> observation_provenance list \<Rightarrow> directional_path_state list" where
  "DirectionalPaths sourceID targetID observations =
     sort_slice (direction_less sourceID)
       (List.map_filter (direction_of sourceID targetID (uniqueRelayStableIDsByEndpoint observations))
          observations)"

definition LegacyDirectionalPaths ::
  "string \<Rightarrow> string \<Rightarrow> observation_provenance list \<Rightarrow> directional_path_state list" where
  "LegacyDirectionalPaths sourceID targetID observations =
     map (\<lambda>d. d\<lparr>dp_evidence := PathEvidenceLegacy, dp_inferenceRule := [], dp_fallbackPath := None\<rparr>)
       (DirectionalPaths sourceID targetID observations)"

definition directEndpointAddress :: "string \<Rightarrow> string" where
  "directEndpointAddress endpoint =
     (let trimmed = trim_space endpoint
      in case parse_addr_port trimmed of
           Some (a, _) \<Rightarrow> show_addr a
         | None \<Rightarrow> (case parse_addr trimmed of Some a \<Rightarrow> show_addr a | None \<Rightarrow> trimmed))"

definition sameDirectionalPath :: "path_observation \<Rightarrow> path_observation \<Rightarrow> bool" where
  "sameDirectionalPath left right =
     (if PathEvidenceKey left \<noteq> PathEvidenceKey right then False
      else if po_kind left = PathDirect then
        directEndpointAddress (po_directEndpoint left) = directEndpointAddress (po_directEndpoint right)
      else if po_kind left \<noteq> PathPeerRelay then True
      else trim_space (po_relayEndpoint left) = trim_space (po_relayEndpoint right) \<and>
           po_relayVNI left = po_relayVNI right \<and>
           po_relayResolution left = po_relayResolution right)"

fun sameOptionalDirectionalPath ::
  "path_observation option \<Rightarrow> path_observation option \<Rightarrow> bool" where
  "sameOptionalDirectionalPath (Some l) (Some r) = sameDirectionalPath l r"
| "sameOptionalDirectionalPath l r = (l = None \<and> r = None)"

definition same_direction :: "directional_path_state \<Rightarrow> directional_path_state \<Rightarrow> bool" where
  "same_direction l r \<longleftrightarrow>
     dp_fromNodeID l = dp_fromNodeID r \<and> dp_toNodeID l = dp_toNodeID r \<and>
     dp_observerID l = dp_observerID r \<and> dp_evidence l = dp_evidence r \<and>
     dp_inferenceRule l = dp_inferenceRule r \<and>
     sameDirectionalPath (dp_primaryPath l) (dp_primaryPath r) \<and>
     sameOptionalDirectionalPath (dp_fallbackPath l) (dp_fallbackPath r)"

definition SameDirectionalPaths ::
  "directional_path_state list \<Rightarrow> directional_path_state list \<Rightarrow> bool" where
  "SameDirectionalPaths left right \<longleftrightarrow> list_all2 same_direction left right"

definition SamePathEvidence :: "path_evidence_state \<Rightarrow> path_evidence_state \<Rightarrow> bool" where
  "SamePathEvidence left right \<longleftrightarrow>
     PathEvidenceKey (pes_path left) = PathEvidenceKey (pes_path right) \<and>
     list_all2 (\<lambda>l r. PathEvidenceKey l = PathEvidenceKey r) (pes_conflicts left) (pes_conflicts right) \<and>
     SameDirectionalPaths (pes_directions left) (pes_directions right)"

text \<open>Following redirects stops at a node without one, or when a node comes back.\<close>

function resolve_redirect :: "(string, string) gomap \<Rightarrow> string list \<Rightarrow> string \<Rightarrow> string" where
  "resolve_redirect redirects seen nodeID =
     (if str_at redirects nodeID = [] \<or> nodeID \<in> set seen then nodeID
      else resolve_redirect redirects (nodeID # seen) (str_at redirects nodeID))"
  by pat_completeness auto
termination
proof (relation "measure (\<lambda>(r, seen, n). card (set (mkeys r) - set seen))", goal_cases)
  case (2 redirects seen nodeID)
  then have "nodeID \<in> set (mkeys redirects) - set seen"
    by (auto simp: str_at_def simp flip: dom_map_of split: option.splits)
  then have "set (mkeys redirects) - set (nodeID # seen) \<subset> set (mkeys redirects) - set seen"
    by auto
  then show ?case by (simp add: psubset_card_mono)
qed simp

declare resolve_redirect.simps [simp del]

definition resolveDirectionalNodeID :: "(string, string) gomap \<Rightarrow> string \<Rightarrow> string" where
  "resolveDirectionalNodeID redirects nodeID = resolve_redirect redirects [] nodeID"

definition RemapDirectionalPaths ::
  "directional_path_state list \<Rightarrow> (string, string) gomap \<Rightarrow> directional_path_state list" where
  "RemapDirectionalPaths values redirects =
     sort_slice (\<lambda>i j. dp_fromNodeID i < dp_fromNodeID j)
       (map (\<lambda>d. d\<lparr>dp_fromNodeID := resolveDirectionalNodeID redirects (dp_fromNodeID d),
                   dp_toNodeID := resolveDirectionalNodeID redirects (dp_toNodeID d),
                   dp_observerID := resolveDirectionalNodeID redirects (dp_observerID d)\<rparr>) values)"

section \<open>Lemmas: keys\<close>

lemma enrichEvidencePath_kind [simp]: "po_kind (enrichEvidencePath p d) = po_kind p"
  by (auto simp: enrichEvidencePath_def split: path_kind.splits)

lemma enrichDirectionalRelay_kind [simp]: "po_kind (enrichDirectionalRelay p tab) = po_kind p"
  by (simp add: enrichDirectionalRelay_def Let_def)

lemma key_derp: "po_kind p = PathDERP \<Longrightarrow> PathEvidenceKey p =
   ''derp:'' @ (if to_lower (trim_space (po_derpRegion p)) = [] then ''unknown''
     else to_lower (trim_space (po_derpRegion p)))"
  by (simp add: PathEvidenceKey_def Let_def)

lemma key_is_derp: "PathEvidenceKey d = ''derp:'' @ x \<Longrightarrow> po_kind d = PathDERP"
  by (cases "po_kind d") (auto simp: PathEvidenceKey_def Let_def split: if_splits option.splits)

lemma key_is_relay: "PathEvidenceKey d = ''peer_relay:'' @ x \<Longrightarrow> po_kind d = PathPeerRelay"
  by (cases "po_kind d") (auto simp: PathEvidenceKey_def Let_def split: if_splits option.splits)

lemma key_relay: "po_kind p = PathPeerRelay \<Longrightarrow> PathEvidenceKey p =
   ''peer_relay:'' @
   (if trim_space (po_relayStableID p) \<noteq> [] then trim_space (po_relayStableID p)
    else if trim_space (po_relayEndpoint p) \<noteq> [] then ''endpoint:'' @ trim_space (po_relayEndpoint p)
    else case po_relayVNI p of Some v \<Rightarrow> ''vni:'' @ show_int v | None \<Rightarrow> ''unknown'')"
  by (simp add: PathEvidenceKey_def Let_def split: option.splits)

text \<open>
  Filling in the blanks of a path from one with the same key keeps the key, unless the path's
  relay id is made of spaces only: it is not filled in, being non-empty, and not used either.
\<close>

definition tidy_path :: "path_observation \<Rightarrow> bool" where
  "tidy_path p \<longleftrightarrow> (trim_space (po_relayStableID p) = [] \<longrightarrow> po_relayStableID p = [])"

lemma tidy_enrichEvidencePath: "tidy_path p \<Longrightarrow> tidy_path d \<Longrightarrow> tidy_path (enrichEvidencePath p d)"
  by (auto simp: tidy_path_def enrichEvidencePath_def split: path_kind.splits)

lemma key_enrichEvidencePath:
  assumes "PathEvidenceKey p = PathEvidenceKey d" and "tidy_path p"
  shows "PathEvidenceKey (enrichEvidencePath p d) = PathEvidenceKey p"
proof (cases "po_kind p")
  case PathDERP
  then have "po_kind d = PathDERP" using assms key_derp key_is_derp by metis
  with PathDERP assms show ?thesis
    by (auto simp: key_derp enrichEvidencePath_def)
next
  case PathPeerRelay
  then have d: "po_kind d = PathPeerRelay" using assms key_relay key_is_relay by metis
  show ?thesis
    using assms PathPeerRelay d
    by (auto simp: key_relay enrichEvidencePath_def tidy_path_def split: if_splits option.splits)
qed (simp_all add: enrichEvidencePath_def)

section \<open>Lemmas: relay identities by endpoint\<close>

definition relay_ids :: "path_observation set \<Rightarrow> string \<Rightarrow> string set" where
  "relay_ids paths endpoint =
     {trim_space (po_relayStableID p) | p. p \<in> paths \<and> po_kind p = PathPeerRelay \<and>
        trim_space (po_relayEndpoint p) = endpoint \<and> endpoint \<noteq> [] \<and>
        trim_space (po_relayStableID p) \<noteq> []}"

lemma map_of_relay_endpoint_step:
  "map_of (relay_endpoint_step ob m) e =
     (if po_kind (op_path ob) = PathPeerRelay \<and> trim_space (po_relayEndpoint (op_path ob)) = e \<and>
         e \<noteq> [] \<and> trim_space (po_relayStableID (op_path ob)) \<noteq> []
      then Some (List.insert (trim_space (po_relayStableID (op_path ob)))
        (case map_of m e of None \<Rightarrow> [] | Some l \<Rightarrow> l))
      else map_of m e)"
  by (auto simp: relay_endpoint_step_def Let_def)

lemma fold_relay_endpoint:
  "\<exists>l. map_of (fold relay_endpoint_step obs []) e = (if l = [] then None else Some l) \<and>
       distinct l \<and> set l = relay_ids (op_path ` set obs) e"
proof (induction obs rule: rev_induct)
  case Nil
  then show ?case by (simp add: relay_ids_def)
next
  case (snoc ob obs)
  let ?p = "op_path ob"
  let ?skip = "po_kind ?p \<noteq> PathPeerRelay \<or> trim_space (po_relayEndpoint ?p) = [] \<or>
    trim_space (po_relayStableID ?p) = []"
  have ids: "relay_ids (op_path ` set (obs @ [ob])) e =
    (if \<not> ?skip \<and> trim_space (po_relayEndpoint ?p) = e
     then insert (trim_space (po_relayStableID ?p)) (relay_ids (op_path ` set obs) e)
     else relay_ids (op_path ` set obs) e)"
    by (auto simp: relay_ids_def)
  obtain l where l: "map_of (fold relay_endpoint_step obs []) e = (if l = [] then None else Some l)"
    "distinct l" "set l = relay_ids (op_path ` set obs) e" using snoc by blast
  show ?case
  proof (cases "\<not> ?skip \<and> trim_space (po_relayEndpoint ?p) = e")
    case True
    have "map_of (fold relay_endpoint_step (obs @ [ob]) []) e =
      Some (List.insert (trim_space (po_relayStableID ?p)) l)"
      using True l(1) by (auto simp: map_of_relay_endpoint_step)
    moreover have "List.insert (trim_space (po_relayStableID ?p)) l \<noteq> []"
      by (auto simp: List.insert_def)
    ultimately show ?thesis using True l ids
      by (intro exI [of _ "List.insert (trim_space (po_relayStableID ?p)) l"]) auto
  next
    case False
    with l ids show ?thesis
      by (intro exI [of _ l]) (auto simp: map_of_relay_endpoint_step)
  qed
qed

lemma uniqueRelay_eq:
  "str_at (uniqueRelayStableIDsByEndpoint obs) e =
     (if \<exists>s. relay_ids (op_path ` set obs) e = {s} then the_elem (relay_ids (op_path ` set obs) e) else [])"
proof -
  obtain l where l: "map_of (fold relay_endpoint_step obs []) e = (if l = [] then None else Some l)"
    "distinct l" "set l = relay_ids (op_path ` set obs) e" using fold_relay_endpoint by blast
  have "length l = 1 \<longleftrightarrow> (\<exists>s. set l = {s})"
    using l(2) by (metis One_nat_def card_1_singleton_iff distinct_card)
  moreover have "length l = 1 \<Longrightarrow> hd l = the_elem (set l)"
    by (cases l) auto
  ultimately show ?thesis
    using l(1) by (auto simp: uniqueRelayStableIDsByEndpoint_def str_at_def l(3) [symmetric])
qed

lemma uniqueRelay_trimmed:
  assumes "str_at (uniqueRelayStableIDsByEndpoint obs) e \<noteq> []"
  shows "trim_space (str_at (uniqueRelayStableIDsByEndpoint obs) e) = str_at (uniqueRelayStableIDsByEndpoint obs) e"
proof -
  obtain s where s: "relay_ids (op_path ` set obs) e = {s}"
    using assms by (auto simp: uniqueRelay_eq split: if_splits)
  then have "str_at (uniqueRelayStableIDsByEndpoint obs) e = s" by (simp add: uniqueRelay_eq)
  moreover have "s \<in> relay_ids (op_path ` set obs) e" using s by simp
  then have "trim_space s = s" by (auto simp: relay_ids_def)
  ultimately show ?thesis by simp
qed

lemma tidy_enrichDirectionalRelay:
  "tidy_path p \<Longrightarrow> tidy_path (enrichDirectionalRelay p (uniqueRelayStableIDsByEndpoint obs))"
  using uniqueRelay_trimmed [of obs] by (auto simp: tidy_path_def enrichDirectionalRelay_def Let_def)

lemma uniqueRelay_cong:
  "op_path ` set obs = op_path ` set obs' \<Longrightarrow>
   enrichDirectionalRelay p (uniqueRelayStableIDsByEndpoint obs) =
   enrichDirectionalRelay p (uniqueRelayStableIDsByEndpoint obs')"
  by (simp add: enrichDirectionalRelay_def uniqueRelay_eq)

section \<open>Lemmas: reconciliation\<close>

text \<open>The evidence key of one observation, and the order in which observations are preferred.\<close>

definition observation_key :: "observation_provenance list \<Rightarrow> observation_provenance \<Rightarrow> string" where
  "observation_key obs ob =
     PathEvidenceKey (enrichDirectionalRelay (op_path ob) (uniqueRelayStableIDsByEndpoint obs))"

definition observer_before :: "string \<Rightarrow> string \<Rightarrow> string \<Rightarrow> string \<Rightarrow> bool" where
  "observer_before src tgt a b \<longleftrightarrow>
     observerEvidenceRole src tgt a < observerEvidenceRole src tgt b \<or>
     observerEvidenceRole src tgt a = observerEvidenceRole src tgt b \<and> a < b"

lemma observer_before_irrefl [simp]: "\<not> observer_before src tgt a a"
  by (simp add: observer_before_def)

lemma observer_before_trans:
  "observer_before src tgt a b \<Longrightarrow> observer_before src tgt b c \<Longrightarrow> observer_before src tgt a c"
  unfolding observer_before_def by (auto dest: less_trans)

lemma observer_before_linear:
  "a \<noteq> b \<Longrightarrow> observer_before src tgt a b \<or> observer_before src tgt b a"
  unfolding observer_before_def using less_linear by (metis linorder_neqE_nat)

definition evidence_ok ::
  "string \<Rightarrow> string \<Rightarrow> (observation_provenance \<Rightarrow> string) \<Rightarrow> observation_provenance set \<Rightarrow>
   (string, evidence) gomap \<Rightarrow> bool" where
  "evidence_ok src tgt key obs m \<longleftrightarrow>
     wf_map m \<and> dom (map_of m) = key ` obs \<and>
     (\<forall>k ev. map_of m k = Some ev \<longrightarrow>
        PathEvidenceKey (ev_path ev) = k \<and> tidy_path (ev_path ev) \<and>
        ev_role ev = observerEvidenceRole src tgt (ev_observerID ev) \<and>
        (\<exists>ob \<in> obs. key ob = k \<and> op_observerID ob = ev_observerID ev) \<and>
        (\<forall>ob \<in> obs. key ob = k \<longrightarrow> \<not> observer_before src tgt (op_observerID ob) (ev_observerID ev)))"

lemma reconcile_step_ok:
  assumes ok: "evidence_ok src tgt (observation_key all) obs m" and tidy: "tidy_path (op_path ob)"
  shows "evidence_ok src tgt (observation_key all) (insert ob obs)
    (reconcile_step src tgt (uniqueRelayStableIDsByEndpoint all) ob m)"
proof -
  define path where "path = enrichDirectionalRelay (op_path ob) (uniqueRelayStableIDsByEndpoint all)"
  define c where "c = \<lparr>ev_path = path, ev_role = observerEvidenceRole src tgt (op_observerID ob),
    ev_observerID = op_observerID ob, ev_receivedAt = op_receivedAt ob\<rparr>"
  define k where "k = PathEvidenceKey path"
  have k: "observation_key all ob = k" by (simp add: observation_key_def path_def k_def)
  have tp: "tidy_path path" unfolding path_def using tidy by (rule tidy_enrichDirectionalRelay)
  show ?thesis
  proof (cases "map_of m k")
    case None
    then have "reconcile_step src tgt (uniqueRelayStableIDsByEndpoint all) ob m = mput k c m"
      by (simp add: reconcile_step_def Let_def c_def k_def path_def)
    moreover have "observation_key all o' \<noteq> k" if "o' \<in> obs" for o'
      using that None ok unfolding evidence_ok_def by (metis domIff image_eqI)
    ultimately show ?thesis
      using ok k tp unfolding evidence_ok_def by (auto simp: c_def k_def)
  next
    case (Some cur)
    have tcur: "tidy_path (ev_path cur)" using ok Some unfolding evidence_ok_def by blast
    have cur: "PathEvidenceKey (ev_path cur) = k"
      "ev_role cur = observerEvidenceRole src tgt (ev_observerID cur)"
      "\<exists>ob \<in> obs. observation_key all ob = k \<and> op_observerID ob = ev_observerID cur"
      "\<forall>ob \<in> obs. observation_key all ob = k \<longrightarrow> \<not> observer_before src tgt (op_observerID ob) (ev_observerID cur)"
      using ok Some unfolding evidence_ok_def by blast+
    have kdom: "k \<in> observation_key all ` obs"
      using ok Some unfolding evidence_ok_def by (metis domI)
    define new where "new =
      (if observer_before src tgt (op_observerID ob) (ev_observerID cur) \<or>
          op_observerID ob = ev_observerID cur \<and> op_receivedAt ob > ev_receivedAt cur then c
       else if op_receivedAt ob > ev_receivedAt cur
         then cur\<lparr>ev_path := enrichEvidencePath (ev_path cur) path, ev_receivedAt := op_receivedAt ob\<rparr>
       else cur)"
    have m': "map_of (reconcile_step src tgt (uniqueRelayStableIDsByEndpoint all) ob m) = (map_of m)(k \<mapsto> new)"
      using Some cur(2)
      by (auto simp: reconcile_step_def Let_def new_def observer_before_def c_def
          map_upd_triv simp flip: path_def k_def)
    have wf: "wf_map (reconcile_step src tgt (uniqueRelayStableIDsByEndpoint all) ob m)"
      using ok by (auto simp: reconcile_step_def Let_def evidence_ok_def split: option.splits)
    have new: "PathEvidenceKey (ev_path new) = k" "tidy_path (ev_path new)"
      "ev_role new = observerEvidenceRole src tgt (ev_observerID new)"
      using cur tp tcur key_enrichEvidencePath [of "ev_path cur" path]
        tidy_enrichEvidencePath [of "ev_path cur" path]
      by (simp_all add: new_def c_def k_def)
    have who: "ev_observerID new = (if observer_before src tgt (op_observerID ob) (ev_observerID cur)
        then op_observerID ob else ev_observerID cur)"
      by (auto simp: new_def c_def)
    have least: "\<not> observer_before src tgt (op_observerID o') (ev_observerID new)"
      if "o' \<in> insert ob obs" "observation_key all o' = k" for o'
      using that cur(4) who observer_before_trans [of src tgt "op_observerID o'" "op_observerID ob" "ev_observerID cur"]
      by (auto split: if_splits)
    have mem: "\<exists>o' \<in> insert ob obs. observation_key all o' = k \<and> op_observerID o' = ev_observerID new"
      using cur(3) who k by auto
    show ?thesis
      unfolding evidence_ok_def m' using wf ok new least mem kdom k
      unfolding evidence_ok_def by (auto split: if_splits)
  qed
qed

lemma evidence_ok_at:
  assumes "evidence_ok src tgt key obs m" "map_of m k = Some ev"
  shows "PathEvidenceKey (ev_path ev) = k" "tidy_path (ev_path ev)"
    "ev_role ev = observerEvidenceRole src tgt (ev_observerID ev)"
    "\<exists>ob \<in> obs. key ob = k \<and> op_observerID ob = ev_observerID ev"
    "\<And>ob. ob \<in> obs \<Longrightarrow> key ob = k \<Longrightarrow> \<not> observer_before src tgt (op_observerID ob) (ev_observerID ev)"
  using assms unfolding evidence_ok_def by simp_all

lemma evidence_by_key_ok:
  "\<forall>ob \<in> set obs. tidy_path (op_path ob) \<Longrightarrow> evidence_ok src tgt (observation_key obs) (set obs) (evidence_by_key src tgt obs)"
proof -
  assume tidy: "\<forall>ob \<in> set obs. tidy_path (op_path ob)"
  have "evidence_ok src tgt (observation_key obs) (set os)
      (fold (reconcile_step src tgt (uniqueRelayStableIDsByEndpoint obs)) os [])"
    if "\<forall>ob \<in> set os. tidy_path (op_path ob)" for os
    using that
  proof (induction os rule: rev_induct)
    case Nil
    show ?case by (simp add: evidence_ok_def)
  next
    case (snoc ob os)
    then have "evidence_ok src tgt (observation_key obs) (set os)
      (fold (reconcile_step src tgt (uniqueRelayStableIDsByEndpoint obs)) os [])" by simp
    from reconcile_step_ok [OF this, of ob] snoc.prems show ?case by (simp add: insert_commute)
  qed
  from this [OF tidy] show ?thesis by (simp add: evidence_by_key_def)
qed

lemma evidence_less_order: "weak_order_on A (evidence_less m)"
  unfolding weak_order_on_def evidence_less_def Let_def
  by (auto split: if_splits dest: order.strict_trans less_trans)

lemma evidence_less_total: "i \<noteq> j \<Longrightarrow> evidence_less m i j \<or> evidence_less m j i"
  unfolding evidence_less_def Let_def by (auto simp: neq_iff)

text \<open>The observation order that chooses the primary: role, then observer id, then key.\<close>

definition observation_before ::
  "string \<Rightarrow> string \<Rightarrow> observation_provenance list \<Rightarrow> observation_provenance \<Rightarrow>
   observation_provenance \<Rightarrow> bool" where
  "observation_before src tgt obs a b \<longleftrightarrow>
     observer_before src tgt (op_observerID a) (op_observerID b) \<or>
     op_observerID a = op_observerID b \<and> observation_key obs a < observation_key obs b"

lemma hd_sort_slice:
  assumes "xs \<noteq> []" "weak_order_on (set xs) lt"
  shows "hd (sort_slice lt xs) \<in> set xs" "\<forall>x \<in> set xs. \<not> lt x (hd (sort_slice lt xs))"
proof -
  obtain y ys where y: "sort_slice lt xs = y # ys"
    using assms(1) by (metis length_0_conv length_sort_slice neq_Nil_conv)
  then have "set xs = insert y (set ys)" by (metis list.simps(15) set_sort_slice)
  moreover have "\<forall>x \<in> set ys. \<not> lt x y"
    using sorted_sort_slice [OF assms(2)] y by simp
  moreover have "\<not> lt y y"
    using assms(2) calculation(1) unfolding weak_order_on_def by blast
  ultimately show "hd (sort_slice lt xs) \<in> set xs" "\<forall>x \<in> set xs. \<not> lt x (hd (sort_slice lt xs))"
    using y by auto
qed

lemma evidence_least:
  assumes ok: "evidence_ok src tgt (observation_key obs) (set obs) m" and ne: "obs \<noteq> []"
    and k: "k = hd (sort_slice (evidence_less m) (mkeys m))"
  shows "\<exists>ob \<in> set obs. observation_key obs ob = k \<and>
    (\<forall>ob' \<in> set obs. \<not> observation_before src tgt obs ob' ob)"
proof -
  have d: "dom (map_of m) = observation_key obs ` set obs"
    using ok unfolding evidence_ok_def by blast
  have dom: "set (mkeys m) = observation_key obs ` set obs"
    using d by (simp add: dom_map_of)
  have nonempty: "mkeys m \<noteq> []" using dom ne by (metis image_is_empty set_empty)
  have "k \<in> dom (map_of m)"
    unfolding dom_map_of k by (rule hd_sort_slice(1) [OF nonempty evidence_less_order])
  then obtain ev where ev: "map_of m k = Some ev" by (blast dest: domD)
  obtain ob where ob: "ob \<in> set obs" "observation_key obs ob = k" "op_observerID ob = ev_observerID ev"
    using evidence_ok_at(4) [OF ok ev] by blast
  have "\<not> observation_before src tgt obs ob' ob" if o': "ob' \<in> set obs" for ob'
  proof
    assume b: "observation_before src tgt obs ob' ob"
    let ?k' = "observation_key obs ob'"
    have "?k' \<in> set (mkeys m)" using o' dom by auto
    then have nl: "\<not> evidence_less m ?k' k"
      unfolding k using hd_sort_slice(2) [OF nonempty evidence_less_order] by blast
    obtain ev' where ev': "map_of m ?k' = Some ev'"
      using o' d by (metis domD image_eqI)
    have role: "ev_role ev = observerEvidenceRole src tgt (ev_observerID ev)"
      "ev_role ev' = observerEvidenceRole src tgt (ev_observerID ev')"
      using evidence_ok_at(3) [OF ok ev] evidence_ok_at(3) [OF ok ev'] by simp_all
    have min: "\<not> observer_before src tgt (op_observerID ob') (ev_observerID ev')"
      using evidence_ok_at(5) [OF ok ev' o'] by simp
    have "\<not> observer_before src tgt (ev_observerID ev') (ev_observerID ev)"
      using nl ev ev' role by (auto simp: evidence_less_def Let_def observer_before_def split: if_splits)
    then have le: "ev_observerID ev = ev_observerID ev' \<or> observer_before src tgt (ev_observerID ev) (ev_observerID ev')"
      using observer_before_linear by blast
    show False
    proof (cases "ev_observerID ev = ev_observerID ev'")
      case True
      then have "\<not> ?k' < k" using nl ev ev' role by (simp add: evidence_less_def)
      moreover have "?k' < k \<or> observer_before src tgt (op_observerID ob') (ev_observerID ev')"
        using b ob True by (auto simp: observation_before_def)
      ultimately show False using min by blast
    next
      case False
      with le have "observer_before src tgt (ev_observerID ev) (ev_observerID ev')" by blast
      then show False
        using b ob min observer_before_trans unfolding observation_before_def by metis
    qed
  qed
  with ob show ?thesis by blast
qed

text \<open>Evidence keys of a result, and the specification of the whole function at key level.\<close>

lemma reconcile_keys:
  fixes src tgt :: string and prev :: path_observation and obs :: "observation_provenance list"
  assumes ne: "obs \<noteq> []" and tidy: "\<forall>ob \<in> set obs. tidy_path (op_path ob)"
  defines "K \<equiv> observation_key obs ` set obs"
  defines "r \<equiv> ReconcilePathEvidence src tgt prev obs"
  shows "PathEvidenceKey (pes_path r) \<in> K"
    and "map PathEvidenceKey (pes_conflicts r) = sorted_list_of_set (K - {PathEvidenceKey (pes_path r)})"
    and "po_kind prev \<noteq> NoPathKind \<Longrightarrow> PathEvidenceKey prev \<in> K \<Longrightarrow>
           PathEvidenceKey (pes_path r) = PathEvidenceKey prev"
    and "po_kind prev = NoPathKind \<or> PathEvidenceKey prev \<notin> K \<Longrightarrow>
           \<exists>ob \<in> set obs. observation_key obs ob = PathEvidenceKey (pes_path r) \<and>
             (\<forall>ob' \<in> set obs. \<not> observation_before src tgt obs ob' ob)"
proof -
  define m where "m = evidence_by_key src tgt obs"
  have ok: "evidence_ok src tgt (observation_key obs) (set obs) m"
    unfolding m_def using tidy by (rule evidence_by_key_ok)
  define p where "p = primary_key m prev"
  have dom: "set (mkeys m) = K" "distinct (mkeys m)"
    using ok unfolding evidence_ok_def K_def by (simp_all add: dom_map_of wf_map_def mkeys_def)
  have key: "PathEvidenceKey (ev_path (the (map_of m k))) = k" if "k \<in> K" for k
    using that ok unfolding evidence_ok_def K_def by (metis domD option.sel)
  have least: "\<exists>ob \<in> set obs. observation_key obs ob = hd (sort_slice (evidence_less m) (mkeys m)) \<and>
      (\<forall>ob' \<in> set obs. \<not> observation_before src tgt obs ob' ob)"
    by (rule evidence_least [OF ok ne refl])
  have inK: "map_of m k = None \<longleftrightarrow> k \<notin> K" for k
    using dom(1) by (metis dom_map_of domIff)
  have p1: "p = (if PathEvidenceKey prev \<notin> K \<or> po_kind prev = NoPathKind
      then hd (sort_slice (evidence_less m) (mkeys m)) else PathEvidenceKey prev)"
    by (simp add: p_def primary_key_def Let_def inK)
  then have pK: "p \<in> K" using least unfolding K_def by (auto split: if_splits) (metis image_eqI)+
  have path: "pes_path r = ev_path (the (map_of m p))"
    and conf: "pes_conflicts r = map (\<lambda>k. ev_path (the (map_of m k))) (sort (filter (\<lambda>k. k \<noteq> p) (mkeys m)))"
    using ne by (simp_all add: r_def ReconcilePathEvidence_def Let_def m_def p_def)
  have pk: "PathEvidenceKey (pes_path r) = p" using path key pK by simp
  then show "PathEvidenceKey (pes_path r) \<in> K" using pK by simp
  show "map PathEvidenceKey (pes_conflicts r) = sorted_list_of_set (K - {PathEvidenceKey (pes_path r)})"
  proof -
    have "map PathEvidenceKey (pes_conflicts r) = sort (filter (\<lambda>k. k \<noteq> p) (mkeys m))"
      unfolding conf map_map by (rule map_idI) (use dom key in simp)
    moreover have "sort (filter (\<lambda>k. k \<noteq> p) (mkeys m)) = sorted_list_of_set (K - {p})"
      using dom by (intro sorted_distinct_set_unique) auto
    ultimately show ?thesis using pk by simp
  qed
  show "PathEvidenceKey (pes_path r) = PathEvidenceKey prev"
    if "po_kind prev \<noteq> NoPathKind" "PathEvidenceKey prev \<in> K"
    using that p1 pk by simp
  show "\<exists>ob \<in> set obs. observation_key obs ob = PathEvidenceKey (pes_path r) \<and>
      (\<forall>ob' \<in> set obs. \<not> observation_before src tgt obs ob' ob)"
    if "po_kind prev = NoPathKind \<or> PathEvidenceKey prev \<notin> K"
    using that least p1 pk by auto
qed

text \<open>The choice depends on who reports which path only, not on order or receipt times.\<close>

lemma least_observation_key_unique:
  assumes "a \<in> set obs" "\<forall>o' \<in> set obs. \<not> observation_before src tgt obs o' a"
    and "b \<in> set obs" "\<forall>o' \<in> set obs. \<not> observation_before src tgt obs o' b"
  shows "observation_key obs a = observation_key obs b"
proof -
  have "\<not> observation_before src tgt obs a b" "\<not> observation_before src tgt obs b a"
    using assms by blast+
  then show ?thesis
    using observer_before_linear [of "op_observerID a" "op_observerID b" src tgt]
    unfolding observation_before_def by (metis linorder_neqE)
qed

lemma reconcile_keys_cong:
  fixes src tgt :: string and prev :: path_observation and obs obs' :: "observation_provenance list"
  assumes same: "(\<lambda>ob. (op_observerID ob, op_path ob)) ` set obs = (\<lambda>ob. (op_observerID ob, op_path ob)) ` set obs'"
    and tidy: "\<forall>ob \<in> set obs. tidy_path (op_path ob)"
  defines "r \<equiv> ReconcilePathEvidence src tgt prev obs"
    and "r' \<equiv> ReconcilePathEvidence src tgt prev obs'"
  shows "PathEvidenceKey (pes_path r) = PathEvidenceKey (pes_path r') \<and>
         map PathEvidenceKey (pes_conflicts r) = map PathEvidenceKey (pes_conflicts r')"
proof (cases "obs = []")
  case True
  then have "obs' = []" using same by simp
  with True show ?thesis by (simp add: r_def r'_def)
next
  case False
  then have ne': "obs' \<noteq> []" using same by auto
  note keys = reconcile_keys [OF False tidy]
  have "op_path ` set obs = snd ` (\<lambda>ob. (op_observerID ob, op_path ob)) ` set obs" by force
  also have "\<dots> = op_path ` set obs'" unfolding same by force
  finally have key: "observation_key obs = observation_key obs'"
    by (auto simp: observation_key_def fun_eq_iff intro: arg_cong [OF uniqueRelay_cong])
  have K: "observation_key obs ` set obs = observation_key obs' ` set obs'"
  proof -
    have eq: "observation_key os ` set os =
      (\<lambda>(i, p). PathEvidenceKey (enrichDirectionalRelay p (uniqueRelayStableIDsByEndpoint os))) `
        (\<lambda>ob. (op_observerID ob, op_path ob)) ` set os" for os
      by (force simp: observation_key_def)
    show ?thesis unfolding eq [of obs'] same [symmetric] using key
      by (force simp: observation_key_def fun_eq_iff)
  qed
  have tidy': "\<forall>ob \<in> set obs'. tidy_path (op_path ob)"
  proof
    fix b assume "b \<in> set obs'"
    then obtain a where "a \<in> set obs" "op_path a = op_path b"
      using same by (metis (mono_tags, lifting) Pair_inject imageE image_eqI)
    with tidy show "tidy_path (op_path b)" by metis
  qed
  note keys' = reconcile_keys [OF ne' tidy']
  have twin: "\<exists>b \<in> set obs'. op_observerID a = op_observerID b \<and> op_path a = op_path b"
    if "a \<in> set obs" for a
    using that same by (metis (mono_tags, lifting) Pair_inject imageE image_eqI)
  have twin': "\<exists>a \<in> set obs. op_observerID a = op_observerID b \<and> op_path a = op_path b"
    if "b \<in> set obs'" for b
    using that same by (metis (mono_tags, lifting) Pair_inject imageE image_eqI)
  have bef: "observation_before src tgt obs x y = observation_before src tgt obs' x' y'"
    if "op_observerID x = op_observerID x'" "op_path x = op_path x'"
      "op_observerID y = op_observerID y'" "op_path y = op_path y'" for x y x' y'
    using that key by (simp add: observation_before_def) (simp add: observation_key_def)
  have p: "PathEvidenceKey (pes_path r) = PathEvidenceKey (pes_path r')"
  proof (cases "po_kind prev = NoPathKind \<or> PathEvidenceKey prev \<notin> observation_key obs ` set obs")
    case True
    obtain a where a: "a \<in> set obs" "observation_key obs a = PathEvidenceKey (pes_path r)"
      "\<forall>o' \<in> set obs. \<not> observation_before src tgt obs o' a"
      using keys(4) [OF True] unfolding r_def by blast
    obtain b where b: "b \<in> set obs'" "observation_key obs' b = PathEvidenceKey (pes_path r')"
      "\<forall>o' \<in> set obs'. \<not> observation_before src tgt obs' o' b"
      using keys'(4) True K unfolding r'_def by metis
    obtain a' where a': "a' \<in> set obs'" "op_observerID a = op_observerID a'" "op_path a = op_path a'"
      using twin [OF a(1)] by blast
    have "\<forall>o' \<in> set obs'. \<not> observation_before src tgt obs' o' a'"
      using a(3) bef a' twin' by metis
    from least_observation_key_unique [OF a'(1) this b(1,3)]
    have "observation_key obs' a' = observation_key obs' b" .
    moreover have "observation_key obs' a' = observation_key obs a"
      using a' key by (simp add: observation_key_def)
    ultimately show ?thesis using a b by simp
  next
    case False2: False
    then show ?thesis
      using keys(3) keys'(3) K unfolding r_def r'_def by metis
  qed
  then show ?thesis
    using keys(2) keys'(2) K unfolding r_def r'_def by metis
qed

section \<open>Lemmas: directional paths\<close>

lemma direction_of_endpoint:
  "direction_of s t tab ob = Some d \<Longrightarrow>
     dp_fromNodeID d = op_observerID ob \<and> dp_observerID d = op_observerID ob \<and>
     dp_fromNodeID d \<in> {s, t} \<and> dp_toNodeID d \<in> {s, t}"
  by (auto simp: direction_of_def split: if_splits)

lemma direction_of_iff: "direction_of s t tab ob \<noteq> None \<longleftrightarrow> op_observerID ob \<in> {s, t}"
  by (simp add: direction_of_def)

lemma map_filter_conv: "List.map_filter f xs = map (\<lambda>x. the (f x)) (filter (\<lambda>x. f x \<noteq> None) xs)"
  by (induction xs) (auto simp: List.map_filter_simps split: option.splits)

lemma DirectionalPaths_mset:
  "mset (DirectionalPaths s t obs) =
     image_mset (\<lambda>ob. the (direction_of s t (uniqueRelayStableIDsByEndpoint obs) ob))
       (filter_mset (\<lambda>ob. op_observerID ob \<in> {s, t}) (mset obs))"
  by (simp add: DirectionalPaths_def map_filter_conv direction_of_iff del: not_None_eq)

lemma map_insert_by:
  "(\<And>x y. lt x y = lt' (f x) (f y)) \<Longrightarrow> map f (insert_by lt x xs) = insert_by lt' (f x) (map f xs)"
  by (induction xs) auto

lemma map_sort_slice:
  "(\<And>x y. lt x y = lt' (f x) (f y)) \<Longrightarrow> map f (sort_slice lt xs) = sort_slice lt' (map f xs)"
  by (induction xs) (simp_all add: map_insert_by [of lt lt' f])

text \<open>What a relay identity learnt from another observation may change: the relay it names.\<close>

definition forget_relay :: "path_observation \<Rightarrow> path_observation" where
  "forget_relay p = p\<lparr>po_relayStableID := [], po_relayResolution := []\<rparr>"

definition forget_relays :: "directional_path_state \<Rightarrow> directional_path_state" where
  "forget_relays d = d\<lparr>dp_primaryPath := forget_relay (dp_primaryPath d),
     dp_fallbackPath := map_option forget_relay (dp_fallbackPath d)\<rparr>"

lemma forget_enrich [simp]: "forget_relay (enrichDirectionalRelay p tab) = forget_relay p"
  by (simp add: forget_relay_def enrichDirectionalRelay_def Let_def)

lemma direction_of_forget:
  "map_option forget_relays (direction_of s t tab ob) = map_option forget_relays (direction_of s t tab' ob)"
  by (simp add: direction_of_def forget_relays_def option.map_comp comp_def)

lemma forget_relays_from [simp]: "dp_fromNodeID (forget_relays d) = dp_fromNodeID d"
  by (simp add: forget_relays_def)

lemma DirectionalPaths_forget:
  "map forget_relays (DirectionalPaths s t obs) =
   map forget_relays (DirectionalPaths s t (filter (\<lambda>ob. op_observerID ob \<in> {s, t}) obs))"
proof -
  have less: "direction_less s x y = direction_less s (forget_relays x) (forget_relays y)" for x y
    by (simp add: direction_less_def)
  have "map forget_relays (List.map_filter (direction_of s t tab) xs) =
    map forget_relays (List.map_filter (direction_of s t tab') (filter (\<lambda>ob. op_observerID ob \<in> {s, t}) xs))"
    for tab tab' xs
  proof (induction xs)
    case (Cons x xs)
    then show ?case
      using direction_of_forget [of s t tab x tab'] direction_of_iff [of s t tab x]
        direction_of_iff [of s t tab' x]
      by (auto simp: List.map_filter_simps split: option.splits)
  qed (simp add: List.map_filter_simps)
  then show ?thesis
    unfolding DirectionalPaths_def map_sort_slice [of _ "direction_less s" forget_relays, OF less] by metis
qed

lemma sameDirectionalPath_refl [simp]: "sameDirectionalPath p p"
  by (simp add: sameDirectionalPath_def)

lemma PathEvidenceKey_relay_cong:
  "PathEvidenceKey p = PathEvidenceKey q \<Longrightarrow> po_kind p = PathPeerRelay \<longleftrightarrow> po_kind q = PathPeerRelay"
  using key_relay key_is_relay by metis

lemma key_direct: "PathEvidenceKey p = ''direct'' \<longleftrightarrow> po_kind p = PathDirect"
  by (cases "po_kind p") (auto simp: PathEvidenceKey_def Let_def split: option.splits)

lemma sameDirectionalPath_sym: "sameDirectionalPath p q \<Longrightarrow> sameDirectionalPath q p"
  using PathEvidenceKey_relay_cong [of p q] key_direct [of p] key_direct [of q]
  by (auto simp: sameDirectionalPath_def split: if_splits)

lemma sameDirectionalPath_trans:
  "sameDirectionalPath p q \<Longrightarrow> sameDirectionalPath q r \<Longrightarrow> sameDirectionalPath p r"
  using PathEvidenceKey_relay_cong [of p q] key_direct [of p] key_direct [of q]
  by (auto simp: sameDirectionalPath_def split: if_splits)

lemma same_direction_equiv: "equivp same_direction"
proof (rule equivpI)
  have opt: "sameOptionalDirectionalPath = rel_option sameDirectionalPath"
    by (intro ext, case_tac x; case_tac xa) auto
  show "reflp same_direction"
    by (auto intro!: reflpI simp: same_direction_def opt option.rel_refl)
  show "symp same_direction"
    unfolding same_direction_def opt
    by (auto intro!: sympI dest: sameDirectionalPath_sym simp: option.rel_sel)
  show "transp same_direction"
    unfolding same_direction_def opt
    by (auto intro!: transpI dest: sameDirectionalPath_trans simp: option.rel_sel)
qed

lemma SameDirectionalPaths_equiv: "equivp SameDirectionalPaths"
  using same_direction_equiv unfolding SameDirectionalPaths_def [abs_def] equivp_reflp_symp_transp
  by (auto intro: list.rel_reflp list.rel_symp list.rel_transp)

section \<open>Properties\<close>


definition example_observation :: "string \<Rightarrow> path_observation \<Rightarrow> time \<Rightarrow> observation_provenance" where
  "example_observation observer path received =
     \<lparr>op_observerID = observer, op_path = path, op_fallbackPath = None, op_pathEvidence = PathEvidenceObserved,
      op_inferenceRule = [], op_collectedAt = received, op_receivedAt = received, op_clockSkewed = False,
      op_relaySession = None\<rparr>"

definition example_direct :: path_observation where
  "example_direct = no_path\<lparr>po_kind := PathDirect, po_directEndpoint := ''10.0.0.1:1''\<rparr>"

definition example_derp :: "string \<Rightarrow> path_observation" where
  "example_derp region = no_path\<lparr>po_kind := PathDERP, po_derpRegion := region\<rparr>"




text \<open>Third parties never choose a direction. \<open>DirectionalPaths\<close> gives, up to the relay
  identity it may learn from other observations, what it gives on the observations of the two
  endpoints alone; every direction starts at the endpoint that observed it, goes to the other one,
  and the source's direction comes first.\<close>

theorem DirectionalPaths_endpoints:
  "map forget_relays (DirectionalPaths s t obs) =
     map forget_relays (DirectionalPaths s t (filter (\<lambda>ob. op_observerID ob \<in> {s, t}) obs)) \<and>
   list_all (\<lambda>d. dp_fromNodeID d = dp_observerID d \<and>
       (dp_fromNodeID d, dp_toNodeID d) \<in> {(s, t), (t, s)}) (DirectionalPaths s t obs) \<and>
   sorted_wrt (\<lambda>d d'. \<not> direction_less s d' d) (DirectionalPaths s t obs)"
proof (intro conjI)
  let ?tab = "uniqueRelayStableIDsByEndpoint obs"
  have ends: "dp_fromNodeID d = dp_observerID d \<and> (dp_fromNodeID d, dp_toNodeID d) \<in> {(s, t), (t, s)}"
    if "d \<in> set (DirectionalPaths s t obs)" for d
  proof -
    from that obtain ob where "direction_of s t ?tab ob = Some d"
      by (auto simp: DirectionalPaths_def map_filter_conv)
    then show ?thesis by (auto simp: direction_of_def split: if_splits)
  qed
  then show "list_all (\<lambda>d. dp_fromNodeID d = dp_observerID d \<and>
      (dp_fromNodeID d, dp_toNodeID d) \<in> {(s, t), (t, s)}) (DirectionalPaths s t obs)"
    unfolding list_all_iff by blast
  have "weak_order_on UNIV (direction_less s)"
    unfolding weak_order_on_def direction_less_def by (auto split: if_splits)
  then show "sorted_wrt (\<lambda>d d'. \<not> direction_less s d' d) (DirectionalPaths s t obs)"
    unfolding DirectionalPaths_def by (intro sorted_sort_slice) (auto elim: weak_order_subset)
qed (rule DirectionalPaths_forget)

text \<open>The details of the path, unlike its key, do depend on the iteration order of the caller's
  map: of two third-party observations with the key \<open>derp:unknown\<close>, one without a region and a newer
  one that spells it, the primary has the region or not by the order in which they come.\<close>

theorem ReconcilePathEvidence_details_by_order:
  "\<exists>x y. pes_path (ReconcilePathEvidence ''a'' ''b'' no_path [x, y]) \<noteq>
         pes_path (ReconcilePathEvidence ''a'' ''b'' no_path [y, x])"
proof -
  let ?x = "example_observation ''m'' (example_derp []) 1"
  let ?y = "example_observation ''n'' (example_derp ''unknown'') 2"
  have u: "uniqueRelayStableIDsByEndpoint [?x, ?y] = []" "uniqueRelayStableIDsByEndpoint [?y, ?x] = []"
    by (simp_all add: uniqueRelayStableIDsByEndpoint_def relay_endpoint_step_def Let_def example_observation_def
        example_derp_def no_path_def mapv_def keep_if_def)
  have t: "trim_space ''unknown'' = ''unknown''" by code_simp
  have l: "to_lower ''unknown'' = ''unknown''" by code_simp
  have e: "trim_space [] = []" "to_lower [] = []" by code_simp+
  have xy: "po_derpRegion (pes_path (ReconcilePathEvidence ''a'' ''b'' no_path [?x, ?y])) = ''unknown''"
    by (simp add: ReconcilePathEvidence_def evidence_by_key_def u reconcile_step_def enrichDirectionalRelay_def
        Let_def example_observation_def example_derp_def no_path_def PathEvidenceKey_def t l e
        observerEvidenceRole_def enrichEvidencePath_def primary_key_def mkeys_def mput_def)
  have yx: "po_derpRegion (pes_path (ReconcilePathEvidence ''a'' ''b'' no_path [?y, ?x])) = []"
    by (simp add: ReconcilePathEvidence_def evidence_by_key_def u reconcile_step_def enrichDirectionalRelay_def
        Let_def example_observation_def example_derp_def no_path_def PathEvidenceKey_def t l e
        observerEvidenceRole_def enrichEvidencePath_def primary_key_def mkeys_def mput_def)
  have "pes_path (ReconcilePathEvidence ''a'' ''b'' no_path [?x, ?y]) \<noteq>
      pes_path (ReconcilePathEvidence ''a'' ''b'' no_path [?y, ?x])"
  proof
    assume "pes_path (ReconcilePathEvidence ''a'' ''b'' no_path [?x, ?y]) =
      pes_path (ReconcilePathEvidence ''a'' ''b'' no_path [?y, ?x])"
    from this [THEN arg_cong, of po_derpRegion] show False unfolding xy yx by simp
  qed
  then show ?thesis by blast
qed

end
