(* ===== verification/Device_Directory.thy ===== *)
theory Device_Directory
  imports Domain_Types Netip
begin

text \<open>
  The device directory: \<open>internal/domain/directory.go\<close>. A snapshot of the control plane's devices
  is normalised (trimmed, addresses parsed and sorted, devices sorted by name) before the aggregator
  keeps it; \<open>DirectorySyncState\<close> says how fresh it is, and metadata that the directory and the
  running nodes disagree on is shown as conflicts.
\<close>

section \<open>Synchronisation state\<close>

datatype directory_sync_status =
    DirectorySyncDisabled | DirectorySyncSyncing | DirectorySyncHealthy | DirectorySyncStale
  | OtherSyncStatus string

datatype directory_error_code =
    NoDirectoryError | DirectoryErrorUnauthorized | DirectoryErrorForbidden | DirectoryErrorRateLimited
  | DirectoryErrorUnavailable | DirectoryErrorTimeout | DirectoryErrorInvalidResponse
  | OtherDirectoryError string

record directory_sync_state =
  ds_status :: directory_sync_status
  ds_lastAttemptAt :: "time option"
  ds_lastSuccessAt :: "time option"
  ds_nextRetryAt :: "time option"
  ds_errorCode :: directory_error_code
  ds_invalidAddressCount :: int

fun validDirectoryErrorCode :: "directory_error_code \<Rightarrow> bool" where
  "validDirectoryErrorCode NoDirectoryError = False"
| "validDirectoryErrorCode (OtherDirectoryError _) = False"
| "validDirectoryErrorCode _ = True"

datatype directory_error =
    SyncTimestampZero | InvalidAddressCountNegative | DisabledHasErrorOrRetry | SyncingHasErrorOrRetry
  | HealthyNeedsSuccess | HealthyHasErrorOrRetry | StaleNeedsAttemptErrorRetry | StaleUnknownCode
  | UnknownSyncStatus | SuccessAfterAttempt | RetryNotAfterAttempt
  | DirectoryCollectedAtRequired | DirectoryStableIDRequired | DirectoryStableIDNotUnique
  | SnapshotNeedsHealthySync | HealthyNeedsSnapshot

definition ValidateSyncState :: "directory_sync_state \<Rightarrow> directory_error option" where
  "ValidateSyncState s =
     (let quiet = ds_errorCode s = NoDirectoryError \<and> ds_nextRetryAt s = None
      in if Some 0 \<in> {ds_lastAttemptAt s, ds_lastSuccessAt s, ds_nextRetryAt s}
           then Some SyncTimestampZero
         else if ds_invalidAddressCount s < 0 then Some InvalidAddressCountNegative
         else
           (let status_error =
             (case ds_status s of
                DirectorySyncDisabled \<Rightarrow> if quiet then None else Some DisabledHasErrorOrRetry
              | DirectorySyncSyncing \<Rightarrow> if quiet then None else Some SyncingHasErrorOrRetry
              | DirectorySyncHealthy \<Rightarrow>
                  if ds_lastSuccessAt s = None then Some HealthyNeedsSuccess
                  else if quiet then None else Some HealthyHasErrorOrRetry
              | DirectorySyncStale \<Rightarrow>
                  if ds_lastAttemptAt s = None \<or> ds_errorCode s = NoDirectoryError \<or>
                     ds_nextRetryAt s = None then Some StaleNeedsAttemptErrorRetry
                  else if validDirectoryErrorCode (ds_errorCode s) then None else Some StaleUnknownCode
              | OtherSyncStatus _ \<Rightarrow> Some UnknownSyncStatus)
            in case status_error of
                 Some e \<Rightarrow> Some e
               | None \<Rightarrow>
                   (case (ds_lastAttemptAt s, ds_lastSuccessAt s) of
                      (Some attempt, Some success) \<Rightarrow>
                        if success > attempt then Some SuccessAfterAttempt
                        else (case ds_nextRetryAt s of
                                Some retry \<Rightarrow> if \<not> retry > attempt then Some RetryNotAfterAttempt else None
                              | None \<Rightarrow> None)
                    | (Some attempt, None) \<Rightarrow>
                        (case ds_nextRetryAt s of
                           Some retry \<Rightarrow> if \<not> retry > attempt then Some RetryNotAfterAttempt else None
                         | None \<Rightarrow> None)
                    | _ \<Rightarrow> None)))"

section \<open>Devices and snapshots\<close>

record directory_device =
  dd_stableNodeID :: string
  dd_nodeKey :: string
  dd_dnsName :: string
  dd_hostname :: string
  dd_os :: string
  dd_tailscaleIPs :: "string list"
  dd_tags :: "string list"
  dd_connected :: bool
  dd_lastSeen :: "time option"

record directory_snapshot =
  sn_collectedAt :: time
  sn_devices :: "directory_device list"

definition DeviceDisplayName :: "directory_device \<Rightarrow> string" where
  "DeviceDisplayName d = DisplayName (no_identity\<lparr>ni_dnsName := dd_dnsName d, ni_hostname := dd_hostname d\<rparr>)"

definition normalizeDirectoryOS :: "string \<Rightarrow> string" where
  "normalizeDirectoryOS value =
     (let trimmed = trim_space value; low = to_lower trimmed
      in if low = ''linux'' then ''linux''
         else if low = ''darwin'' \<or> low = ''macos'' then ''macos''
         else if low = ''windows'' then ''windows''
         else if low = ''ios'' then ''ios''
         else if low = ''android'' then ''android''
         else trimmed)"

text \<open>The first occurrence of each value, in order (\<open>seen\<close> maps); \<open>remdups\<close> keeps the last.\<close>

definition first_occurrences :: "'a list \<Rightarrow> 'a list" where
  "first_occurrences xs = rev (remdups (rev xs))"

definition normalizedStrings :: "string list \<Rightarrow> string list" where
  "normalizedStrings values =
     sort (first_occurrences (filter (\<lambda>v. v \<noteq> []) (map trim_space values)))"

definition normalizedAddresses :: "string list \<Rightarrow> string list \<times> int" where
  "normalizedAddresses values =
     (let parsed = map (\<lambda>v. parse_addr (trim_space v)) values;
          addresses = first_occurrences (map addr_unmap (List.map_filter (\<lambda>p. p) parsed))
      in (map show_addr (sort_slice addr_less addresses), int (length (filter (\<lambda>p. p = None) parsed))))"

definition normalizeDirectoryDevice :: "directory_device \<Rightarrow> directory_device \<times> int" where
  "normalizeDirectoryDevice device =
     (let (addresses, invalid) = normalizedAddresses (dd_tailscaleIPs device)
      in (\<lparr>dd_stableNodeID = trim_space (dd_stableNodeID device),
           dd_nodeKey = trim_space (dd_nodeKey device),
           dd_dnsName = trim_space (dd_dnsName device),
           dd_hostname = trim_space (dd_hostname device),
           dd_os = normalizeDirectoryOS (dd_os device),
           dd_tailscaleIPs = addresses,
           dd_tags = normalizedStrings (dd_tags device),
           dd_connected = dd_connected device,
           dd_lastSeen = (if \<not> dd_connected device \<and> dd_lastSeen device \<noteq> Some 0
                          then dd_lastSeen device else None)\<rparr>, invalid))"

definition device_less :: "directory_device \<Rightarrow> directory_device \<Rightarrow> bool" where
  "device_less i j =
     (let left = to_lower (DeviceDisplayName i); right = to_lower (DeviceDisplayName j)
      in if left \<noteq> right then left < right else dd_stableNodeID i < dd_stableNodeID j)"

text \<open>The loop over the devices: normalised devices in input order and the invalid addresses.\<close>

fun normalize_devices ::
  "string set \<Rightarrow> directory_device list \<Rightarrow> directory_error + directory_device list \<times> int" where
  "normalize_devices stableIDs [] = Inr ([], 0)"
| "normalize_devices stableIDs (input # rest) =
     (let (device, invalid) = normalizeDirectoryDevice input
      in if dd_stableNodeID device = [] then Inl DirectoryStableIDRequired
         else if dd_stableNodeID device \<in> stableIDs then Inl DirectoryStableIDNotUnique
         else case normalize_devices (insert (dd_stableNodeID device) stableIDs) rest of
           Inl e \<Rightarrow> Inl e
         | Inr (devices, n) \<Rightarrow> Inr (device # devices, invalid + n))"

definition NormalizeDirectorySnapshot ::
  "directory_snapshot \<Rightarrow> directory_error + directory_snapshot \<times> int" where
  "NormalizeDirectorySnapshot snapshot =
     (if sn_collectedAt snapshot = 0 then Inl DirectoryCollectedAtRequired
      else case normalize_devices {} (sn_devices snapshot) of
        Inl e \<Rightarrow> Inl e
      | Inr (devices, invalid) \<Rightarrow>
          Inr (\<lparr>sn_collectedAt = sn_collectedAt snapshot, sn_devices = sort_slice device_less devices\<rparr>,
               invalid))"

definition node_key_owners :: "directory_device list \<Rightarrow> (string, string list) gomap" where
  "node_key_owners devices =
     fold (\<lambda>d owners. if dd_nodeKey d = [] then owners
           else mput (dd_nodeKey d)
             ((case map_of owners (dd_nodeKey d) of None \<Rightarrow> [] | Some l \<Rightarrow> l) @ [dd_stableNodeID d]) owners)
       devices []"

definition ConflictingNodeKeys :: "directory_snapshot \<Rightarrow> (string, string list) gomap" where
  "ConflictingNodeKeys snapshot =
     mapv (\<lambda>_ ids. normalizedStrings ids)
       (keep_if (\<lambda>_ ids. length (normalizedStrings ids) \<ge> 2) (node_key_owners (sn_devices snapshot)))"

section \<open>Metadata conflicts\<close>

datatype metadata_field = MetadataDNSName | MetadataHostname | MetadataOS | MetadataTailscaleIPs

record metadata_conflict =
  mc_field :: metadata_field
  mc_directoryValues :: "string list"
  mc_runtimeValues :: "string list"
  mc_directoryCollectedAt :: time
  mc_runtimeCollectedAt :: time

record directory_enrichment =
  de_stableNodeID :: string
  de_dnsName :: string
  de_hostname :: string
  de_os :: string
  de_tailscaleIPs :: "string list"
  de_tags :: "string list"
  de_connected :: bool
  de_lastSeen :: "time option"
  de_collectedAt :: time
  de_conflicts :: "metadata_conflict list"

record directory_runtime_evidence =
  dr_identity :: node_identity
  dr_observable :: bool
  dr_online :: bool
  dr_lastEvidenceAt :: time
  dr_collectedAt :: time

record directory_node =
  dn_id :: string
  dn_device :: directory_device
  dn_collectedAt :: time
  dn_runtime :: "directory_runtime_evidence option"
  dn_identityStatus :: identity_status
  dn_conflicts :: "metadata_conflict list"

record device_directory =
  dv_sync :: directory_sync_state
  dv_devices :: "directory_node list"

definition nonEmptyTrimmed :: "string list \<Rightarrow> string list" where
  "nonEmptyTrimmed values = filter (\<lambda>v. v \<noteq> []) (map trim_space values)"

definition normalizeNameValues :: "string list \<Rightarrow> string list" where
  "normalizeNameValues values =
     sort (filter (\<lambda>v. v \<noteq> []) (map (\<lambda>v. trim_suffix (to_lower (trim_space v)) ''.'') values))"

definition normalizeOSValues :: "string list \<Rightarrow> string list" where
  "normalizeOSValues values =
     sort (map (\<lambda>v. to_lower (normalizeDirectoryOS v)) (nonEmptyTrimmed values))"

definition normalizeAddressValues :: "string list \<Rightarrow> string list" where
  "normalizeAddressValues values = fst (normalizedAddresses values)"

definition appendMetadataConflict ::
  "metadata_conflict list \<Rightarrow> metadata_field \<Rightarrow> string list \<Rightarrow> string list \<Rightarrow> time \<Rightarrow> time \<Rightarrow>
   (string list \<Rightarrow> string list) \<Rightarrow> metadata_conflict list" where
  "appendMetadataConflict conflicts field directoryValues runtimeValues directoryAt runtimeAt normalizer =
     (let d = normalizer directoryValues; r = normalizer runtimeValues
      in if d = [] \<or> r = [] \<or> d = r then conflicts
         else conflicts @ [\<lparr>mc_field = field, mc_directoryValues = nonEmptyTrimmed directoryValues,
                mc_runtimeValues = nonEmptyTrimmed runtimeValues,
                mc_directoryCollectedAt = directoryAt, mc_runtimeCollectedAt = runtimeAt\<rparr>])"

definition DirectoryMetadataConflicts ::
  "directory_device \<Rightarrow> node_identity \<Rightarrow> time \<Rightarrow> time \<Rightarrow> metadata_conflict list" where
  "DirectoryMetadataConflicts directory runtime directoryAt runtimeAt =
     (let c1 = appendMetadataConflict [] MetadataDNSName [dd_dnsName directory] [ni_dnsName runtime]
                 directoryAt runtimeAt normalizeNameValues;
          c2 = appendMetadataConflict c1 MetadataHostname [dd_hostname directory] [ni_hostname runtime]
                 directoryAt runtimeAt normalizeNameValues;
          c3 = appendMetadataConflict c2 MetadataOS [dd_os directory] [ni_os runtime]
                 directoryAt runtimeAt normalizeOSValues
      in appendMetadataConflict c3 MetadataTailscaleIPs (dd_tailscaleIPs directory)
           (ni_tailscaleIPs runtime) directoryAt runtimeAt normalizeAddressValues)"

section \<open>Lemmas\<close>

lemma set_first_occurrences [simp]: "set (first_occurrences xs) = set xs"
  by (simp add: first_occurrences_def)

lemma distinct_first_occurrences [simp]: "distinct (first_occurrences xs)"
  by (simp add: first_occurrences_def)

lemma normalizedStrings_set: "set (normalizedStrings values) = trim_space ` set values - {[]}"
  by (auto simp: normalizedStrings_def)

lemma normalizedStrings_sorted: "sorted (normalizedStrings values) \<and> distinct (normalizedStrings values)"
  by (simp add: normalizedStrings_def)

lemma normalizedStrings_by_set:
  "normalizedStrings values = sorted_list_of_set (trim_space ` set values - {[]})"
  using normalizedStrings_sorted [of "values"] normalizedStrings_set [of "values"]
  by (metis sorted_list_of_set.idem_if_sorted_distinct)

lemma normalizedStrings_idem: "normalizedStrings (normalizedStrings values) = normalizedStrings values"
proof -
  have "trim_space ` (trim_space ` set values - {[]}) - {[]} = trim_space ` set values - {[]}"
    by (auto simp: image_iff) (metis DiffI imageI singletonD trim_space_idem)
  then show ?thesis
    unfolding normalizedStrings_by_set [of "normalizedStrings values"] normalizedStrings_set
    by (simp add: normalizedStrings_by_set)
qed

text \<open>A consistent synchronisation state, as a conjunction.\<close>

definition valid_sync_state :: "directory_sync_state \<Rightarrow> bool" where
  "valid_sync_state s \<longleftrightarrow>
     ds_lastAttemptAt s \<noteq> Some 0 \<and> ds_lastSuccessAt s \<noteq> Some 0 \<and> ds_nextRetryAt s \<noteq> Some 0 \<and>
     0 \<le> ds_invalidAddressCount s \<and>
     ds_status s \<in> {DirectorySyncDisabled, DirectorySyncSyncing, DirectorySyncHealthy, DirectorySyncStale} \<and>
     (if ds_status s = DirectorySyncStale
      then ds_lastAttemptAt s \<noteq> None \<and> validDirectoryErrorCode (ds_errorCode s) \<and> ds_nextRetryAt s \<noteq> None
      else ds_errorCode s = NoDirectoryError \<and> ds_nextRetryAt s = None) \<and>
     (ds_status s = DirectorySyncHealthy \<longrightarrow> ds_lastSuccessAt s \<noteq> None) \<and>
     (\<forall>attempt. ds_lastAttemptAt s = Some attempt \<longrightarrow>
        (\<forall>success. ds_lastSuccessAt s = Some success \<longrightarrow> success \<le> attempt) \<and>
        (\<forall>retry. ds_nextRetryAt s = Some retry \<longrightarrow> attempt < retry))"

lemma ValidateSyncState_accepts_valid: "ValidateSyncState s = None \<longleftrightarrow> valid_sync_state s"
  by (cases "ds_status s"; cases "ds_lastAttemptAt s"; cases "ds_lastSuccessAt s"; cases "ds_nextRetryAt s")
     (auto simp: ValidateSyncState_def valid_sync_state_def Let_def)

lemma normalize_devices_ok:
  "normalize_devices seen inputs = Inr (devices, n) \<Longrightarrow>
     devices = map (fst \<circ> normalizeDirectoryDevice) inputs \<and>
     n = (\<Sum>d \<leftarrow> inputs. snd (normalizeDirectoryDevice d)) \<and>
     distinct (map dd_stableNodeID devices) \<and>
     (\<forall>d \<in> set devices. dd_stableNodeID d \<noteq> [] \<and> dd_stableNodeID d \<notin> seen)"
proof (induction seen inputs arbitrary: devices n rule: normalize_devices.induct)
  case (2 seen input rest)
  obtain d i where d: "normalizeDirectoryDevice input = (d, i)" by (cases "normalizeDirectoryDevice input") auto
  from "2.prems" d obtain ds m where
    step: "dd_stableNodeID d \<noteq> []" "dd_stableNodeID d \<notin> seen"
      "normalize_devices (insert (dd_stableNodeID d) seen) rest = Inr (ds, m)"
      "devices = d # ds" "n = i + m"
    by (auto split: if_splits sum.splits prod.splits)
  from "2.IH" [OF d [symmetric] refl step(1,2,3)] d step show ?case by auto
qed simp

lemma normalize_devices_total:
  "distinct (map (\<lambda>d. trim_space (dd_stableNodeID d)) inputs) \<Longrightarrow>
   \<forall>d \<in> set inputs. trim_space (dd_stableNodeID d) \<noteq> [] \<and> trim_space (dd_stableNodeID d) \<notin> seen \<Longrightarrow>
   \<exists>devices n. normalize_devices seen inputs = Inr (devices, n)"
proof (induction inputs arbitrary: seen)
  case (Cons input rest)
  have id: "dd_stableNodeID (fst (normalizeDirectoryDevice input)) = trim_space (dd_stableNodeID input)"
    by (simp add: normalizeDirectoryDevice_def split: prod.splits)
  have "\<exists>devices n. normalize_devices (insert (trim_space (dd_stableNodeID input)) seen) rest = Inr (devices, n)"
    using Cons.prems 
    by (intro Cons.IH) (auto, metis image_eqI)
  then show ?case using Cons.prems id by (auto split: prod.splits)
qed simp

lemma device_less_order: "weak_order_on A device_less"
  unfolding weak_order_on_def device_less_def Let_def by (auto split: if_splits)

lemma node_key_owners_snoc:
  "node_key_owners (ds @ [d]) =
     (if dd_nodeKey d = [] then node_key_owners ds
      else mput (dd_nodeKey d)
        ((case map_of (node_key_owners ds) (dd_nodeKey d) of None \<Rightarrow> [] | Some l \<Rightarrow> l) @ [dd_stableNodeID d])
        (node_key_owners ds))"
  by (simp add: node_key_owners_def)

lemma node_key_owners_at:
  "map_of (node_key_owners ds) k =
     (let ids = map dd_stableNodeID (filter (\<lambda>d. dd_nodeKey d = k) ds)
      in if k = [] \<or> ids = [] then None else Some ids)"
proof (induction ds rule: rev_induct)
  case Nil
  then show ?case by (simp add: node_key_owners_def)
next
  case (snoc d ds)
  then show ?case unfolding node_key_owners_snoc by (auto simp: Let_def)
qed

lemma length_normalizedStrings: "length (normalizedStrings values) = card (trim_space ` set values - {[]})"
  by (simp add: normalizedStrings_by_set)

text \<open>The stable ids of the devices with one node key.\<close>

definition key_owners :: "directory_snapshot \<Rightarrow> string \<Rightarrow> string set" where
  "key_owners s k = dd_stableNodeID ` {d \<in> set (sn_devices s). dd_nodeKey d = k}"

lemma key_owners_filter:
  "key_owners s k = dd_stableNodeID ` set (filter (\<lambda>d. dd_nodeKey d = k) (sn_devices s))"
  by (simp add: key_owners_def)

lemma ConflictingNodeKeys_at:
  assumes "\<forall>d \<in> set (sn_devices s). dd_stableNodeID d \<noteq> [] \<and> trim_space (dd_stableNodeID d) = dd_stableNodeID d"
  shows "map_of (ConflictingNodeKeys s) k =
    (if k \<noteq> [] \<and> 2 \<le> card (key_owners s k) then Some (sorted_list_of_set (key_owners s k)) else None)"
proof -
  let ?ids = "map dd_stableNodeID (filter (\<lambda>d. dd_nodeKey d = k) (sn_devices s))"
  have "trim_space ` set ?ids - {[]} = key_owners s k"
    using assms by (auto simp: key_owners_def image_iff)
  then have "normalizedStrings ?ids = sorted_list_of_set (key_owners s k)"
    by (simp only: normalizedStrings_by_set)
  moreover have "length (sorted_list_of_set (key_owners s k)) = card (key_owners s k)"
    by simp
  moreover have "?ids = [] \<longrightarrow> key_owners s k = {}" by (auto simp: key_owners_def filter_empty_conv)
  ultimately show ?thesis
    by (auto simp: ConflictingNodeKeys_def node_key_owners_at Let_def)
qed

section \<open>Properties\<close>

text \<open>\<open>DirectorySyncState.Validate\<close> accepts exactly the consistent states: known status, no
  zero timestamps, an error code and a retry if and only if stale (with an attempt), a success time
  when healthy, and success \<open>\<le>\<close> attempt \<open><\<close> retry where those are given.\<close>

theorem ValidateSyncState_accepts: "ValidateSyncState s = None \<longleftrightarrow> valid_sync_state s"
  by (rule ValidateSyncState_accepts_valid)

text \<open>A normalised directory snapshot keeps the collection time, holds every input device,
  normalised, exactly once, sorted by lower-case display name and then stable id, and its stable ids
  are nonempty and distinct; normalisation succeeds exactly when the collection time is set and the
  trimmed stable ids are nonempty and distinct.\<close>

theorem NormalizeDirectorySnapshot_ok:
  "(case NormalizeDirectorySnapshot s of
      Inl e \<Rightarrow> sn_collectedAt s = 0 \<or> [] \<in> trim_space ` dd_stableNodeID ` set (sn_devices s) \<or>
               \<not> distinct (map (\<lambda>d. trim_space (dd_stableNodeID d)) (sn_devices s))
    | Inr (t, invalid) \<Rightarrow>
        sn_collectedAt t = sn_collectedAt s \<and> sn_collectedAt s \<noteq> 0 \<and>
        mset (sn_devices t) = image_mset (fst \<circ> normalizeDirectoryDevice) (mset (sn_devices s)) \<and>
        sorted_wrt (\<lambda>a b. \<not> device_less b a) (sn_devices t) \<and>
        distinct (map dd_stableNodeID (sn_devices t)) \<and> [] \<notin> dd_stableNodeID ` set (sn_devices t) \<and>
        invalid = (\<Sum>d \<leftarrow> sn_devices s. snd (normalizeDirectoryDevice d)))"
proof (cases "normalize_devices {} (sn_devices s)")
  case (Inl e)
  then have "\<not> (distinct (map (\<lambda>d. trim_space (dd_stableNodeID d)) (sn_devices s)) \<and>
      (\<forall>d \<in> set (sn_devices s). trim_space (dd_stableNodeID d) \<noteq> [] \<and> trim_space (dd_stableNodeID d) \<notin> {}))"
    using normalize_devices_total [of "sn_devices s" "{}"] by auto
  then have "\<not> distinct (map (\<lambda>d. trim_space (dd_stableNodeID d)) (sn_devices s)) \<or>
      [] \<in> trim_space ` dd_stableNodeID ` set (sn_devices s)"
    unfolding image_image by force
  with Inl show ?thesis by (auto simp: NormalizeDirectorySnapshot_def)
next
  case (Inr p)
  obtain ds n where p: "p = (ds, n)" by (cases p)
  note ok = normalize_devices_ok [OF Inr [unfolded p]]
  have "distinct (map dd_stableNodeID (sort_slice device_less ds))"
    using ok by (metis distinct_map mset_eq_imp_distinct_iff mset_sort_slice set_sort_slice)
  then show ?thesis
    using Inr p ok sorted_sort_slice [OF device_less_order, of ds]
    by (auto simp: NormalizeDirectorySnapshot_def) metis
qed

text \<open>\<open>ConflictingNodeKeys\<close> lists a node key exactly when two or more devices of the snapshot
  have it, with the stable ids of all its devices, sorted.\<close>

theorem ConflictingNodeKeys_lists:
  assumes "\<forall>d \<in> set (sn_devices s). dd_stableNodeID d \<noteq> [] \<and> trim_space (dd_stableNodeID d) = dd_stableNodeID d"
  shows "map_of (ConflictingNodeKeys s) k =
    (if k \<noteq> [] \<and> 2 \<le> card (key_owners s k) then Some (sorted_list_of_set (key_owners s k)) else None)"
  using assms by (rule ConflictingNodeKeys_at)

definition example_device :: "string \<Rightarrow> string \<Rightarrow> directory_device" where
  "example_device stableID key =
     \<lparr>dd_stableNodeID = stableID, dd_nodeKey = key, dd_dnsName = [], dd_hostname = [], dd_os = [],
      dd_tailscaleIPs = [], dd_tags = [], dd_connected = False, dd_lastSeen = None\<rparr>"

lemma ConflictingNodeKeys_lists_witness:
  "map_of (ConflictingNodeKeys \<lparr>sn_collectedAt = 1, sn_devices = [example_device ''s2'' ''k'', example_device ''s1'' ''k'']\<rparr>)
     ''k'' = Some [''s1'', ''s2'']"
proof -
  let ?s = "\<lparr>sn_collectedAt = 1, sn_devices = [example_device ''s2'' ''k'', example_device ''s1'' ''k'']\<rparr>"
  have t: "trim_space ''s1'' = ''s1''" "trim_space ''s2'' = ''s2''" by code_simp+
  have o: "key_owners ?s ''k'' = {''s1'', ''s2''}"
    by (simp add: key_owners_filter example_device_def insert_commute)
  have "sorted_list_of_set {''s1'', ''s2''} = [''s1'', ''s2'']"
    by (rule sorted_list_of_set_unique [THEN iffD1]) (auto simp: less_list_code)
  then show ?thesis
    using t ConflictingNodeKeys_lists [of ?s "''k''"] unfolding o by (simp add: example_device_def)
qed

theorem NormalizeDirectorySnapshot_ok_witness:
  "\<exists>t n. NormalizeDirectorySnapshot \<lparr>sn_collectedAt = 1, sn_devices = [example_device ''s2'' ''k'', example_device ''s1'' ''k'']\<rparr> = Inr (t, n) \<and>
     distinct (map dd_stableNodeID (sn_devices t)) \<and> sorted_wrt (\<lambda>a b. \<not> device_less b a) (sn_devices t)"
proof -
  let ?s = "\<lparr>sn_collectedAt = 1, sn_devices = [example_device ''s2'' ''k'', example_device ''s1'' ''k'']\<rparr>"
  have t: "trim_space ''s1'' = ''s1''" "trim_space ''s2'' = ''s2''" by code_simp+
  show ?thesis
    using NormalizeDirectorySnapshot_ok [of ?s] t
    by (cases "NormalizeDirectorySnapshot ?s") (auto simp: example_device_def)
qed

end
