(* ===== verification/Agg_State.thy ===== *)
theory Agg_State
  imports Path_Evidence Device_Directory
begin

text \<open>
  The aggregator's runtime state (\<open>internal/aggregate/aggregator.go\<close>): reporters, observers, nodes,
  aliases with the time an address was last seen, redirects of merged nodes, edges with one
  observation per observer, relay scopes with their sessions, and the device directory.

  Observers, relay scopes and relay sessions are objects that the code keeps pointers to while it
  resolves identities, which can merge nodes and move or drop those objects. They live in cells: the
  Go maps hold cell numbers, the cells hold the objects, and a pointer is a cell number. Nodes, edges
  and reporters are read anew wherever the code uses them, so their maps hold the values.
\<close>

section \<open>Records\<close>

record reporter_state =
  rt_lastSequence :: int
  rt_lastAcceptedAt :: time
  rt_reportIDs :: "string set"
  rt_observerIDs :: "string set"

record observer_state =
  ob_owner :: string
  ob_generation :: string
  ob_membership :: "string set"
  ob_withdrawnAt :: time

record node_state =
  nd_identity :: node_identity
  nd_status :: identity_status
  nd_observable :: bool
  nd_lastEvidence :: time
  nd_lastReport :: time
  nd_lastCollected :: time
  nd_identityCollectedAt :: time
  nd_clockSkewMS :: int
  nd_clockSkewed :: bool

record relay_session_state =
  se_clients :: "(string, string) gomap"
  se_sourceClientID :: string
  se_targetClientID :: string
  se_sourceNodeID :: string
  se_targetNodeID :: string
  se_sourceStatus :: identity_status
  se_targetStatus :: identity_status
  se_lastSeen :: time

record relay_scope_state =
  sc_relayID :: string
  sc_vni :: int
  sc_pairSourceID :: string
  sc_pairTargetID :: string
  sc_pairObservedAt :: time
  sc_conflictObservedAt :: time
  sc_lastSeen :: time
  sc_sessions :: "(string, nat) gomap"

text \<open>Rates are rationals: the code's \<open>float64\<close> rounds them, and nothing compares them.\<close>

record edge_observation =
  eo_observerID :: string
  eo_path :: path_observation
  eo_fallbackPath :: "path_observation option"
  eo_pathEvidence :: path_evidence
  eo_inferenceRule :: string
  eo_collectedAt :: time
  eo_receivedAt :: time
  eo_withdrawnAt :: time
  eo_clockSkewed :: bool
  eo_relaySession :: "relay_session_provenance option"
  eo_sourceEndpoint :: string
  eo_targetEndpoint :: string
  eo_txRate :: rat
  eo_rxRate :: rat
  eo_aToBRate :: rat
  eo_bToARate :: rat

record edge_state =
  ed_id :: string
  ed_source :: string
  ed_target :: string
  ed_systemTelemetry :: bool
  ed_lastActive :: time
  ed_lastKnownPath :: path_observation
  ed_lastKnownConflicts :: "path_observation list"
  ed_lastKnownDirections :: "directional_path_state list"
  ed_observations :: "(string, edge_observation) gomap"

record directory_state =
  dy_snapshot :: "directory_snapshot option"
  dy_sync :: directory_sync_state
  dy_canonicalIDs :: "(string, string) gomap"
  dy_identityConflicts :: "(string, string list) gomap"

record agg_state =
  ag_reporters :: "(string, reporter_state) gomap"
  ag_observers :: "(string, nat) gomap"
  ag_nodes :: "(string, node_state) gomap"
  ag_aliases :: "(string, string) gomap"
  ag_aliasLastSeen :: "(string, time) gomap"
  ag_redirects :: "(string, string) gomap"
  ag_edges :: "(string, edge_state) gomap"
  ag_scopes :: "(string, nat) gomap"
  ag_directory :: "directory_state option"
  ag_observerCells :: "nat \<Rightarrow> observer_state"
  ag_scopeCells :: "nat \<Rightarrow> relay_scope_state"
  ag_sessionCells :: "nat \<Rightarrow> relay_session_state"
  ag_nextCell :: nat
  ag_usedIDs :: nat

text \<open>
  \<open>Options\<close>: the heartbeat interval, the control node ids and the source of new node ids, of which
  \<open>cf_newNodeID n\<close> is the one its \<open>n\<close>-th call returns.
\<close>

record agg_config =
  cf_heartbeat :: duration
  cf_controlIDs :: "string list"
  cf_newNodeID :: "nat \<Rightarrow> string"

definition activeWindow :: duration where "activeWindow = 10 * second"
definition reportIDWindowSize :: nat where "reportIDWindowSize = 32"
definition evidenceWindow :: "agg_config \<Rightarrow> duration" where "evidenceWindow cfg = 2 * cf_heartbeat cfg"
definition nodeWindow :: "agg_config \<Rightarrow> duration" where "nodeWindow cfg = 4 * cf_heartbeat cfg"

text \<open>\<open>New\<close> without options takes a heartbeat of one minute.\<close>

definition new_config :: "duration \<Rightarrow> string list \<Rightarrow> (nat \<Rightarrow> string) \<Rightarrow> agg_config" where
  "new_config heartbeat controlIDs newNodeID =
     \<lparr>cf_heartbeat = (if heartbeat = 0 then minute else heartbeat), cf_controlIDs = controlIDs,
      cf_newNodeID = newNodeID\<rparr>"

definition no_observer :: observer_state where
  "no_observer = \<lparr>ob_owner = [], ob_generation = [], ob_membership = {}, ob_withdrawnAt = 0\<rparr>"

definition no_session :: relay_session_state where
  "no_session = \<lparr>se_clients = [], se_sourceClientID = [], se_targetClientID = [], se_sourceNodeID = [],
     se_targetNodeID = [], se_sourceStatus = NoIdentityStatus, se_targetStatus = NoIdentityStatus, se_lastSeen = 0\<rparr>"

definition no_scope :: relay_scope_state where
  "no_scope = \<lparr>sc_relayID = [], sc_vni = 0, sc_pairSourceID = [], sc_pairTargetID = [],
     sc_pairObservedAt = 0, sc_conflictObservedAt = 0, sc_lastSeen = 0, sc_sessions = []\<rparr>"

definition newRuntimeState :: agg_state where
  "newRuntimeState =
     \<lparr>ag_reporters = [], ag_observers = [], ag_nodes = [], ag_aliases = [], ag_aliasLastSeen = [],
      ag_redirects = [], ag_edges = [], ag_scopes = [], ag_directory = None,
      ag_observerCells = (\<lambda>_. no_observer), ag_scopeCells = (\<lambda>_. no_scope),
      ag_sessionCells = (\<lambda>_. no_session), ag_nextCell = 0, ag_usedIDs = 0\<rparr>"

definition new_reporter :: reporter_state where
  "new_reporter = \<lparr>rt_lastSequence = 0, rt_lastAcceptedAt = 0, rt_reportIDs = {}, rt_observerIDs = {}\<rparr>"

definition new_node :: "node_identity \<Rightarrow> identity_status \<Rightarrow> time \<Rightarrow> node_state" where
  "new_node identity status seenAt =
     \<lparr>nd_identity = identity, nd_status = status, nd_observable = False, nd_lastEvidence = seenAt,
      nd_lastReport = 0, nd_lastCollected = 0, nd_identityCollectedAt = 0, nd_clockSkewMS = 0,
      nd_clockSkewed = False\<rparr>"

definition new_edge :: "string \<Rightarrow> string \<Rightarrow> string \<Rightarrow> edge_state" where
  "new_edge edgeID source target =
     \<lparr>ed_id = edgeID, ed_source = source, ed_target = target, ed_systemTelemetry = False,
      ed_lastActive = 0, ed_lastKnownPath = no_path, ed_lastKnownConflicts = [],
      ed_lastKnownDirections = [], ed_observations = []\<rparr>"

section \<open>Access\<close>

definition observer_at :: "agg_state \<Rightarrow> string \<Rightarrow> observer_state option" where
  "observer_at s observerID = map_option (ag_observerCells s) (map_of (ag_observers s) observerID)"

definition put_observer :: "nat \<Rightarrow> observer_state \<Rightarrow> agg_state \<Rightarrow> agg_state" where
  "put_observer c ob s = s\<lparr>ag_observerCells := (ag_observerCells s)(c := ob)\<rparr>"

definition put_scope :: "nat \<Rightarrow> relay_scope_state \<Rightarrow> agg_state \<Rightarrow> agg_state" where
  "put_scope c sc s = s\<lparr>ag_scopeCells := (ag_scopeCells s)(c := sc)\<rparr>"

definition put_session :: "nat \<Rightarrow> relay_session_state \<Rightarrow> agg_state \<Rightarrow> agg_state" where
  "put_session c se s = s\<lparr>ag_sessionCells := (ag_sessionCells s)(c := se)\<rparr>"

definition put_node :: "string \<Rightarrow> node_state \<Rightarrow> agg_state \<Rightarrow> agg_state" where
  "put_node nodeID n s = s\<lparr>ag_nodes := mput nodeID n (ag_nodes s)\<rparr>"

definition update_node :: "string \<Rightarrow> (node_state \<Rightarrow> node_state) \<Rightarrow> agg_state \<Rightarrow> agg_state" where
  "update_node nodeID f s =
     (case map_of (ag_nodes s) nodeID of None \<Rightarrow> s | Some n \<Rightarrow> put_node nodeID (f n) s)"

text \<open>A field of a node the code dereferences without a check: \<open>None\<close> is the panic.\<close>

definition deref_node :: "string \<Rightarrow> (node_state \<Rightarrow> node_state) \<Rightarrow> agg_state \<Rightarrow> agg_state option" where
  "deref_node nodeID f s =
     (case map_of (ag_nodes s) nodeID of None \<Rightarrow> None | Some n \<Rightarrow> Some (put_node nodeID (f n) s))"

definition alias_of :: "agg_state \<Rightarrow> string \<Rightarrow> string" where
  "alias_of s alias = str_at (ag_aliases s) alias"

end
