(* ===== verification/Agg_Identity.thy ===== *)
theory Agg_Identity
  imports Agg_State
begin

text \<open>
  Identities and nodes: how a reported identity finds its node through aliases, when two nodes turn
  out to be one and are merged, and how expired aliases are dropped (\<open>resolveIdentityLocked\<close>,
  \<open>mergeNodesLocked\<close>, \<open>pruneIndexesLocked\<close> and what they call in
  \<open>internal/aggregate/aggregator.go\<close>).
\<close>

section \<open>Aliases\<close>

definition strong_aliases :: "node_identity \<Rightarrow> string list" where
  "strong_aliases identity =
     List.map_filter
       (\<lambda>(prefix, v). let value = trim_space v
          in if value \<noteq> [] \<and> value \<noteq> ''0'' then Some (prefix @ value) else None)
       [(''stable:'', ni_stableNodeID identity), (''node-id:'', ni_nodeID identity),
        (''node-key:'', ni_nodeKey identity), (''disco:'', ni_discoKey identity)]"

definition address_aliases :: "node_identity \<Rightarrow> string list" where
  "address_aliases identity =
     map (\<lambda>a. ''ip:'' @ a) (filter (\<lambda>a. a \<noteq> []) (map trim_space (ni_tailscaleIPs identity)))"

definition identityAliases :: "node_identity \<Rightarrow> string list \<times> string list" where
  "identityAliases identity = (strong_aliases identity, address_aliases identity)"

definition identityStatus :: "node_identity \<Rightarrow> identity_status" where
  "identityStatus identity =
     (if strong_aliases identity \<noteq> [] then IdentityResolved
      else if HasIdentity identity then IdentityPartial else IdentityAnonymous)"

definition conflictingStableAlias :: "string \<Rightarrow> string \<Rightarrow> agg_state \<Rightarrow> string" where
  "conflictingStableAlias stableID alias s =
     (let nodeID = alias_of s alias
      in if nodeID = [] then []
         else case map_of (ag_nodes s) nodeID of
           None \<Rightarrow> []
         | Some node \<Rightarrow>
             (let existing = trim_space (ni_stableNodeID (nd_identity node))
              in if existing \<noteq> [] \<and> existing \<noteq> trim_space stableID then nodeID else []))"

definition withoutConflictingStableAliases :: "node_identity \<Rightarrow> agg_state \<Rightarrow> node_identity" where
  "withoutConflictingStableAliases identity s =
     (let stableID = trim_space (ni_stableNodeID identity); nodeKey = trim_space (ni_nodeKey identity)
      in if stableID = [] \<or> nodeKey = [] then identity
         else if conflictingStableAlias stableID (''node-key:'' @ nodeKey) s \<noteq> []
         then identity\<lparr>ni_nodeKey := []\<rparr> else identity)"

definition alias_last_seen :: "string \<Rightarrow> string \<Rightarrow> agg_state \<Rightarrow> time" where
  "alias_last_seen alias nodeID s =
     (let lastSeen = time_at (ag_aliasLastSeen s) alias
      in if lastSeen = 0
         then (case map_of (ag_nodes s) nodeID of Some n \<Rightarrow> nd_lastEvidence n | None \<Rightarrow> 0)
         else lastSeen)"

definition canUseAddressMatch ::
  "agg_config \<Rightarrow> node_identity \<Rightarrow> string \<Rightarrow> string \<Rightarrow> time \<Rightarrow> agg_state \<Rightarrow> bool" where
  "canUseAddressMatch cfg identity alias nodeID seenAt s =
     (let lastSeen = alias_last_seen alias nodeID s
      in if lastSeen = 0 \<or> time_sub seenAt lastSeen > nodeWindow cfg then False
         else case map_of (ag_nodes s) nodeID of
           None \<Rightarrow> True
         | Some existing \<Rightarrow>
             ni_stableNodeID identity = [] \<or> ni_stableNodeID (nd_identity existing) = [] \<or>
             ni_stableNodeID identity = ni_stableNodeID (nd_identity existing))"

definition lookupIdentity :: "agg_config \<Rightarrow> node_identity \<Rightarrow> time \<Rightarrow> agg_state \<Rightarrow> string option" where
  "lookupIdentity cfg identity seenAt s =
     (case find (\<lambda>alias. alias_of s alias \<noteq> []) (strong_aliases identity) of
        Some alias \<Rightarrow> Some (alias_of s alias)
      | None \<Rightarrow>
          map_option (alias_of s)
            (find (\<lambda>alias. alias_of s alias \<noteq> [] \<and>
               canUseAddressMatch cfg identity alias (alias_of s alias) seenAt s)
             (address_aliases identity)))"

section \<open>Merging identities and nodes\<close>

definition mergeIdentity :: "node_identity \<Rightarrow> node_identity \<Rightarrow> node_identity" where
  "mergeIdentity current update =
     current\<lparr>
       ni_stableNodeID := (if ni_stableNodeID update \<noteq> [] then ni_stableNodeID update else ni_stableNodeID current),
       ni_nodeID := (if ni_nodeID update \<noteq> [] \<and> ni_nodeID update \<noteq> ''0'' then ni_nodeID update else ni_nodeID current),
       ni_nodeKey := (if ni_nodeKey update \<noteq> [] then ni_nodeKey update else ni_nodeKey current),
       ni_discoKey := (if ni_discoKey update \<noteq> [] then ni_discoKey update else ni_discoKey current),
       ni_hostname := (if ni_hostname update \<noteq> [] then ni_hostname update else ni_hostname current),
       ni_dnsName := (if ni_dnsName update \<noteq> [] then ni_dnsName update else ni_dnsName current),
       ni_os := (if ni_os update \<noteq> [] then ni_os update else ni_os current),
       ni_tailscaleIPs := (if ni_tailscaleIPs update \<noteq> [] then sort (ni_tailscaleIPs update) else ni_tailscaleIPs current),
       ni_publicEndpoints := (if ni_publicEndpoints update \<noteq> [] then sort (ni_publicEndpoints update) else ni_publicEndpoints current)\<rparr>"

fun status_priority :: "identity_status \<Rightarrow> nat" where
  "status_priority IdentityAnonymous = 1"
| "status_priority IdentityPartial = 2"
| "status_priority IdentityConflict = 3"
| "status_priority IdentityResolved = 4"
| "status_priority _ = 0"

definition mergeIdentityStatus :: "identity_status \<Rightarrow> identity_status \<Rightarrow> identity_status" where
  "mergeIdentityStatus left right = (if status_priority right > status_priority left then right else left)"

definition merge_node_records :: "node_state \<Rightarrow> node_state \<Rightarrow> node_state" where
  "merge_node_records keep remove =
     (let k1 = keep\<lparr>nd_identity := mergeIdentity (nd_identity remove) (nd_identity keep),
                    nd_status := mergeIdentityStatus (nd_status keep) (nd_status remove),
                    nd_observable := nd_observable keep \<or> nd_observable remove,
                    nd_lastEvidence := (if nd_lastEvidence remove > nd_lastEvidence keep
                                        then nd_lastEvidence remove else nd_lastEvidence keep)\<rparr>
      in if nd_lastReport remove > nd_lastReport keep
         then k1\<lparr>nd_lastReport := nd_lastReport remove, nd_lastCollected := nd_lastCollected remove,
                 nd_clockSkewMS := nd_clockSkewMS remove, nd_clockSkewed := nd_clockSkewed remove\<rparr>
         else k1)"

text \<open>\<open>mergeObserverRuntimeStatesLocked\<close>: first the surviving observer object.\<close>

definition merge_observer_cells :: "string \<Rightarrow> string \<Rightarrow> bool \<Rightarrow> agg_state \<Rightarrow> agg_state" where
  "merge_observer_cells keepID removeID removeIsNewer s =
     (case (map_of (ag_observers s) keepID, map_of (ag_observers s) removeID) of
        (None, Some r) \<Rightarrow> s\<lparr>ag_observers := mdel removeID (mput keepID r (ag_observers s))\<rparr>
      | (Some k, Some r) \<Rightarrow>
          (let keep = ag_observerCells s k; remove = ag_observerCells s r;
               joined = keep\<lparr>ob_membership := ob_membership keep \<union> ob_membership remove\<rparr>;
               merged = (if removeIsNewer \<or> ob_owner keep = []
                         then joined\<lparr>ob_owner := ob_owner remove, ob_generation := ob_generation remove,
                                     ob_withdrawnAt := ob_withdrawnAt remove\<rparr>
                         else joined)
           in (put_observer k merged s)\<lparr>ag_observers := mdel removeID (ag_observers s)\<rparr>)
      | _ \<Rightarrow> s\<lparr>ag_observers := mdel removeID (ag_observers s)\<rparr>)"

definition rename_in_set :: "string \<Rightarrow> string \<Rightarrow> string set \<Rightarrow> string set" where
  "rename_in_set keepID removeID m = (if removeID \<in> m then insert keepID (m - {removeID}) else m)"

definition rename_members :: "string \<Rightarrow> string \<Rightarrow> agg_state \<Rightarrow> agg_state" where
  "rename_members keepID removeID s =
     s\<lparr>ag_observerCells := (\<lambda>c. if c \<in> snd ` set (ag_observers s)
         then (ag_observerCells s c)\<lparr>ob_membership := rename_in_set keepID removeID (ob_membership (ag_observerCells s c))\<rparr>
         else ag_observerCells s c)\<rparr>"

definition rewrite_reporters :: "string \<Rightarrow> string \<Rightarrow> agg_state \<Rightarrow> agg_state" where
  "rewrite_reporters keepID removeID s =
     (let cleared = mapv (\<lambda>_ r. r\<lparr>rt_observerIDs := rt_observerIDs r - {keepID, removeID}\<rparr>) (ag_reporters s)
      in s\<lparr>ag_reporters :=
           (case observer_at s keepID of
              Some keep \<Rightarrow>
                if ob_owner keep \<noteq> [] then
                  (case map_of cleared (ob_owner keep) of
                     Some r \<Rightarrow> mput (ob_owner keep) (r\<lparr>rt_observerIDs := insert keepID (rt_observerIDs r)\<rparr>) cleared
                   | None \<Rightarrow> cleared)
                else cleared
            | None \<Rightarrow> cleared)\<rparr>)"

definition mergeObserverRuntimeStates :: "string \<Rightarrow> string \<Rightarrow> bool \<Rightarrow> agg_state \<Rightarrow> agg_state" where
  "mergeObserverRuntimeStates keepID removeID removeIsNewer s =
     rewrite_reporters keepID removeID
       (rename_members keepID removeID (merge_observer_cells keepID removeID removeIsNewer s))"

text \<open>\<open>rebuildEdgesLocked\<close>: each edge moves to the key of its renamed endpoints.\<close>

definition rename_id :: "string \<Rightarrow> string \<Rightarrow> string \<Rightarrow> string" where
  "rename_id keepID removeID nodeID = (if nodeID = removeID then keepID else nodeID)"

definition rename_direction :: "string \<Rightarrow> string \<Rightarrow> directional_path_state \<Rightarrow> directional_path_state" where
  "rename_direction keepID removeID d =
     d\<lparr>dp_fromNodeID := rename_id keepID removeID (dp_fromNodeID d),
       dp_toNodeID := rename_id keepID removeID (dp_toNodeID d),
       dp_observerID := rename_id keepID removeID (dp_observerID d)\<rparr>"

definition rebuild_observation ::
  "string \<Rightarrow> string \<Rightarrow> string \<times> edge_observation \<Rightarrow> (string, edge_observation) gomap \<Rightarrow>
   (string, edge_observation) gomap" where
  "rebuild_observation keepID removeID entry m =
     (let (observerID, observation) = entry;
          observation = (if observerID = removeID then observation\<lparr>eo_observerID := keepID\<rparr> else observation);
          observerID = rename_id keepID removeID observerID
      in case map_of m observerID of
           None \<Rightarrow> mput observerID observation m
         | Some previous \<Rightarrow>
             if eo_receivedAt observation > eo_receivedAt previous then mput observerID observation m else m)"

definition absorb_edge :: "string \<Rightarrow> string \<Rightarrow> edge_state \<Rightarrow> edge_state \<Rightarrow> edge_state" where
  "absorb_edge keepID removeID edge current =
     (let c1 = current\<lparr>ed_systemTelemetry := ed_systemTelemetry current \<or> ed_systemTelemetry edge\<rparr>;
          c2 = (if ed_lastActive edge > ed_lastActive current
                then c1\<lparr>ed_lastActive := ed_lastActive edge, ed_lastKnownPath := ed_lastKnownPath edge,
                        ed_lastKnownConflicts := ed_lastKnownConflicts edge,
                        ed_lastKnownDirections :=
                          map (rename_direction keepID removeID) (ed_lastKnownDirections edge)\<rparr>
                else c1)
      in c2\<lparr>ed_observations :=
           fold (rebuild_observation keepID removeID) (ed_observations edge) (ed_observations current)\<rparr>)"

definition rebuild_edge ::
  "string \<Rightarrow> string \<Rightarrow> edge_state \<Rightarrow> (string, edge_state) gomap \<Rightarrow> (string, edge_state) gomap" where
  "rebuild_edge keepID removeID edge rebuilt =
     (let source = rename_id keepID removeID (ed_source edge);
          target = rename_id keepID removeID (ed_target edge)
      in if source = target then rebuilt
         else let (edgeID, source, target) = EdgeID source target;
                  current = (case map_of rebuilt edgeID of None \<Rightarrow> new_edge edgeID source target | Some e \<Rightarrow> e)
           in mput edgeID (absorb_edge keepID removeID edge current) rebuilt)"

definition rebuildEdges :: "string \<Rightarrow> string \<Rightarrow> agg_state \<Rightarrow> agg_state" where
  "rebuildEdges keepID removeID s =
     s\<lparr>ag_edges := fold (rebuild_edge keepID removeID) (map snd (ag_edges s)) []\<rparr>"

text \<open>\<open>replaceRelayNodeReferencesLocked\<close>.\<close>

definition relayScopeKey :: "string \<Rightarrow> int \<Rightarrow> string" where
  "relayScopeKey relayID vni = relayID @ '':'' @ show_int vni"

definition rename_session :: "string \<Rightarrow> string \<Rightarrow> relay_session_state \<Rightarrow> relay_session_state" where
  "rename_session keepID removeID se =
     se\<lparr>se_sourceNodeID := rename_id keepID removeID (se_sourceNodeID se),
        se_targetNodeID := rename_id keepID removeID (se_targetNodeID se),
        se_clients := mapv (\<lambda>_. rename_id keepID removeID) (se_clients se)\<rparr>"

definition rename_scope :: "string \<Rightarrow> string \<Rightarrow> relay_scope_state \<Rightarrow> relay_scope_state" where
  "rename_scope keepID removeID sc =
     (let a = rename_id keepID removeID (sc_pairSourceID sc);
          b = rename_id keepID removeID (sc_pairTargetID sc);
          (a', b') = (if a \<noteq> [] \<and> b \<noteq> [] then snd (EdgeID a b) else (a, b))
      in sc\<lparr>sc_relayID := rename_id keepID removeID (sc_relayID sc),
            sc_pairSourceID := a', sc_pairTargetID := b'\<rparr>)"

definition rename_scope_cell :: "string \<Rightarrow> string \<Rightarrow> nat \<Rightarrow> agg_state \<Rightarrow> agg_state" where
  "rename_scope_cell keepID removeID c s =
     (let sc = ag_scopeCells s c
      in (put_scope c (rename_scope keepID removeID sc) s)\<lparr>ag_sessionCells :=
           (\<lambda>i. if i \<in> snd ` set (sc_sessions sc) then rename_session keepID removeID (ag_sessionCells s i)
                else ag_sessionCells s i)\<rparr>)"

definition merge_session_entry ::
  "(nat \<Rightarrow> relay_session_state) \<Rightarrow> string \<times> nat \<Rightarrow> (string, nat) gomap \<Rightarrow> (string, nat) gomap" where
  "merge_session_entry cells entry sessions =
     (case map_of sessions (fst entry) of
        None \<Rightarrow> mput (fst entry) (snd entry) sessions
      | Some current \<Rightarrow>
          if se_lastSeen (cells (snd entry)) > se_lastSeen (cells current)
          then mput (fst entry) (snd entry) sessions else sessions)"

definition mergeRelayScopes ::
  "(nat \<Rightarrow> relay_session_state) \<Rightarrow> relay_scope_state \<Rightarrow> relay_scope_state \<Rightarrow> relay_scope_state" where
  "mergeRelayScopes cells keep update =
     (let k1 = keep\<lparr>sc_lastSeen := max (sc_lastSeen keep) (sc_lastSeen update),
                    sc_conflictObservedAt := max (sc_conflictObservedAt keep) (sc_conflictObservedAt update)\<rparr>;
          k2 = (if sc_pairObservedAt update > sc_pairObservedAt keep
                then k1\<lparr>sc_pairSourceID := sc_pairSourceID update, sc_pairTargetID := sc_pairTargetID update,
                        sc_pairObservedAt := sc_pairObservedAt update\<rparr> else k1)
      in k2\<lparr>sc_sessions := fold (merge_session_entry cells) (sc_sessions update) (sc_sessions keep)\<rparr>)"

definition replace_scope_step ::
  "string \<Rightarrow> string \<Rightarrow> nat \<Rightarrow> agg_state \<times> (string, nat) gomap \<Rightarrow> agg_state \<times> (string, nat) gomap" where
  "replace_scope_step keepID removeID c acc =
     (let s = rename_scope_cell keepID removeID c (fst acc); rebuilt = snd acc;
          scope = ag_scopeCells s c; key = relayScopeKey (sc_relayID scope) (sc_vni scope)
      in case map_of rebuilt key of
           Some k \<Rightarrow> (put_scope k (mergeRelayScopes (ag_sessionCells s) (ag_scopeCells s k) scope) s, rebuilt)
         | None \<Rightarrow> (s, mput key c rebuilt))"

definition replaceRelayNodeReferences :: "string \<Rightarrow> string \<Rightarrow> agg_state \<Rightarrow> agg_state" where
  "replaceRelayNodeReferences keepID removeID s =
     (let (s', rebuilt) = fold (replace_scope_step keepID removeID) (map snd (ag_scopes s)) (s, [])
      in s'\<lparr>ag_scopes := rebuilt\<rparr>)"

definition appendUniqueSorted :: "string list \<Rightarrow> string \<Rightarrow> string list" where
  "appendUniqueSorted values v =
     (if v = [] \<or> v \<in> set values then values else sort (values @ [v]))"

definition strings_at :: "(string, string list) gomap \<Rightarrow> string \<Rightarrow> string list" where
  "strings_at m k = (case map_of m k of None \<Rightarrow> [] | Some l \<Rightarrow> l)"

definition add_conflict ::
  "string \<Rightarrow> string \<Rightarrow> (string, string list) gomap \<Rightarrow> (string, string list) gomap" where
  "add_conflict nodeID stableID m = mput nodeID (appendUniqueSorted (strings_at m nodeID) stableID) m"

definition replaceDirectoryNodeReferences :: "string \<Rightarrow> string \<Rightarrow> agg_state \<Rightarrow> agg_state" where
  "replaceDirectoryNodeReferences keepID removeID s =
     (case ag_directory s of
        None \<Rightarrow> s
      | Some d \<Rightarrow>
          (let conflicts = strings_at (dy_identityConflicts d) removeID
           in s\<lparr>ag_directory := Some (d\<lparr>
                dy_canonicalIDs := mapv (\<lambda>_. rename_id keepID removeID) (dy_canonicalIDs d),
                dy_identityConflicts :=
                  (if conflicts = [] then dy_identityConflicts d
                   else mdel removeID (fold (add_conflict keepID) conflicts (dy_identityConflicts d)))\<rparr>)\<rparr>))"

definition mergeNodes :: "string \<Rightarrow> string \<Rightarrow> agg_state \<Rightarrow> agg_state" where
  "mergeNodes keepID removeID s =
     (case (map_of (ag_nodes s) keepID, map_of (ag_nodes s) removeID) of
        (Some keep, Some remove) \<Rightarrow>
          if keepID = removeID then s
          else
            let s1 = s\<lparr>ag_nodes := mdel removeID (mput keepID (merge_node_records keep remove) (ag_nodes s)),
                       ag_redirects := mput removeID keepID (mapv (\<lambda>_. rename_id keepID removeID) (ag_redirects s)),
                       ag_aliases := mapv (\<lambda>_. rename_id keepID removeID) (ag_aliases s)\<rparr>;
                s2 = mergeObserverRuntimeStates keepID removeID (nd_lastReport remove > nd_lastReport keep) s1;
                s3 = rebuildEdges keepID removeID s2;
                s4 = replaceRelayNodeReferences keepID removeID s3
            in replaceDirectoryNodeReferences keepID removeID s4
      | _ \<Rightarrow> s)"

section \<open>Resolving an identity\<close>

definition identity_matches :: "agg_config \<Rightarrow> node_identity \<Rightarrow> time \<Rightarrow> agg_state \<Rightarrow> string list" where
  "identity_matches cfg identity seenAt s =
     sort (remdups
       (filter (\<lambda>nodeID. nodeID \<noteq> []) (map (alias_of s) (strong_aliases identity)) @
        map (alias_of s)
          (filter (\<lambda>alias. alias_of s alias \<noteq> [] \<and>
             canUseAddressMatch cfg identity alias (alias_of s alias) seenAt s) (address_aliases identity))))"

definition claim_aliases :: "node_identity \<Rightarrow> string \<Rightarrow> time \<Rightarrow> agg_state \<Rightarrow> agg_state" where
  "claim_aliases identity nodeID seenAt s =
     s\<lparr>ag_aliases := fold (\<lambda>alias. mput alias nodeID) (strong_aliases identity @ address_aliases identity) (ag_aliases s),
       ag_aliasLastSeen := fold (\<lambda>alias. mput alias seenAt) (address_aliases identity) (ag_aliasLastSeen s)\<rparr>"

definition create_node :: "agg_config \<Rightarrow> node_identity \<Rightarrow> identity_status \<Rightarrow> time \<Rightarrow> agg_state \<Rightarrow> string \<times> agg_state" where
  "create_node cfg identity status seenAt s =
     (let nodeID = cf_newNodeID cfg (ag_usedIDs s)
      in (nodeID, (put_node nodeID (new_node identity status seenAt) s)\<lparr>ag_usedIDs := Suc (ag_usedIDs s)\<rparr>))"

text \<open>The result is the node, whether it is new, whether the canonical state changed, and the state.\<close>

definition resolveIdentity ::
  "agg_config \<Rightarrow> node_identity \<Rightarrow> time \<Rightarrow> agg_state \<Rightarrow> (string \<times> bool \<times> bool \<times> agg_state) option" where
  "resolveIdentity cfg reported seenAt s =
     (let identity = withoutConflictingStableAliases reported s; ids = identity_matches cfg identity seenAt s
      in if ids = [] then
           let (nodeID, s1) = create_node cfg identity (identityStatus identity) seenAt s
           in Some (nodeID, True, True, claim_aliases identity nodeID seenAt s1)
         else
           let stableID = alias_of s (''stable:'' @ ni_stableNodeID identity);
               nodeID = (if ni_stableNodeID identity \<noteq> [] \<and> stableID \<noteq> [] then stableID else hd ids);
               others = filter (\<lambda>i. i \<noteq> nodeID) ids;
               s1 = fold (\<lambda>i s. mergeNodes nodeID i s) others s
           in do {
                s2 \<leftarrow> deref_node nodeID
                  (\<lambda>n. n\<lparr>nd_identity := mergeIdentity (nd_identity n) identity,
                         nd_status := (if identityStatus identity = IdentityResolved then IdentityResolved
                                       else nd_status n)\<rparr>) s1;
                Some (nodeID, False, others \<noteq> [], claim_aliases identity nodeID seenAt s2)
              })"

section \<open>Pruning\<close>

definition remove_address :: "string \<Rightarrow> node_state \<Rightarrow> node_state" where
  "remove_address expired n =
     n\<lparr>nd_identity := (nd_identity n)\<lparr>ni_tailscaleIPs :=
         filter (\<lambda>a. trim_space a \<noteq> expired) (ni_tailscaleIPs (nd_identity n))\<rparr>\<rparr>"

definition prune_alias :: "agg_config \<Rightarrow> time \<Rightarrow> string \<times> string \<Rightarrow> agg_state \<Rightarrow> agg_state" where
  "prune_alias cfg now entry s =
     (let (alias, nodeID) = entry; lastSeen = alias_last_seen alias nodeID s
      in if \<not> has_prefix alias ''ip:'' then s
         else if lastSeen = 0 \<or> time_sub now lastSeen > nodeWindow cfg
         then update_node nodeID (remove_address (trim_prefix alias ''ip:''))
                (s\<lparr>ag_aliases := mdel alias (ag_aliases s), ag_aliasLastSeen := mdel alias (ag_aliasLastSeen s)\<rparr>)
         else s)"

definition prune_scope :: "agg_config \<Rightarrow> time \<Rightarrow> string \<times> nat \<Rightarrow> agg_state \<Rightarrow> agg_state" where
  "prune_scope cfg now entry s =
     (let (key, c) = entry; sc = ag_scopeCells s c
      in if sc_lastSeen sc = 0 \<or> time_sub now (sc_lastSeen sc) > nodeWindow cfg
         then s\<lparr>ag_scopes := mdel key (ag_scopes s)\<rparr>
         else put_scope c (sc\<lparr>
                sc_conflictObservedAt :=
                  (if sc_conflictObservedAt sc \<noteq> 0 \<and> time_sub now (sc_conflictObservedAt sc) > evidenceWindow cfg
                   then 0 else sc_conflictObservedAt sc),
                sc_sessions :=
                  filter (\<lambda>(_, i). \<not> (se_lastSeen (ag_sessionCells s i) = 0 \<or>
                     time_sub now (se_lastSeen (ag_sessionCells s i)) > nodeWindow cfg)) (sc_sessions sc)\<rparr>) s)"

definition prune_reporters :: "agg_config \<Rightarrow> time \<Rightarrow> agg_state \<Rightarrow> agg_state" where
  "prune_reporters cfg now s =
     s\<lparr>ag_reporters := keep_if (\<lambda>_ r. rt_observerIDs r \<noteq> {} \<or>
         \<not> (rt_lastAcceptedAt r = 0 \<or> time_sub now (rt_lastAcceptedAt r) > evidenceWindow cfg)) (ag_reporters s)\<rparr>"

definition pruneIndexes :: "agg_config \<Rightarrow> time \<Rightarrow> agg_state \<Rightarrow> agg_state" where
  "pruneIndexes cfg now s =
     (let s1 = prune_reporters cfg now s;
          s2 = fold (prune_alias cfg now) (ag_aliases s1) s1
      in fold (prune_scope cfg now) (ag_scopes s2) s2)"

end
