(* ===== verification/Agg_Edges.thy ===== *)
theory Agg_Edges
  imports Agg_Identity
begin

text \<open>
  Edges: how a peer observation or a relay session is written to its edge, when an inventory drops
  observations, and how an edge is shown (\<open>applyPeerLocked\<close>, \<open>applyRelaySessionLocked\<close>,
  \<open>replaceInventoryLocked\<close>, \<open>snapshotEdgeLocked\<close> in \<open>internal/aggregate/aggregator.go\<close>).
\<close>

section \<open>Shown edges, nodes and topology\<close>

record topology_edge =
  te_id :: string
  te_source :: string
  te_target :: string
  te_systemTelemetry :: bool
  te_path :: path_observation
  te_state :: edge_state_kind
  te_aToBRate :: rat
  te_bToARate :: rat
  te_lastActive :: time
  te_observations :: "observation_provenance list"
  te_conflicts :: "path_observation list"
  te_pathState :: path_state
  te_pathCandidates :: "path_candidate list"
  te_directions :: "directional_path_state list"

definition isControlNode :: "agg_config \<Rightarrow> string \<Rightarrow> agg_state \<Rightarrow> bool" where
  "isControlNode cfg nodeID s =
     (case map_of (ag_nodes s) nodeID of
        None \<Rightarrow> False
      | Some node \<Rightarrow>
          \<exists>controlID \<in> set (cf_controlIDs cfg).
            ni_stableNodeID (nd_identity node) = controlID \<or> alias_of s (''stable:'' @ controlID) = nodeID)"

definition isClockSkewed :: "agg_config \<Rightarrow> time \<Rightarrow> time \<Rightarrow> bool" where
  "isClockSkewed cfg collectedAt receivedAt =
     (let skew = time_sub collectedAt receivedAt;
          skew = (if skew < 0 then (if skew = min_duration then min_duration else - skew) else skew)
      in skew > trunc_div (cf_heartbeat cfg) 2)"

definition live_observation :: "agg_config \<Rightarrow> time \<Rightarrow> edge_observation \<Rightarrow> bool" where
  "live_observation cfg now ob \<longleftrightarrow>
     \<not> time_sub now (eo_receivedAt ob) > evidenceWindow cfg \<and>
     \<not> (eo_withdrawnAt ob \<noteq> 0 \<and> \<not> eo_withdrawnAt ob < eo_receivedAt ob)"

definition provenance_of :: "edge_observation \<Rightarrow> observation_provenance" where
  "provenance_of ob =
     \<lparr>op_observerID = eo_observerID ob, op_path = eo_path ob, op_fallbackPath = eo_fallbackPath ob,
      op_pathEvidence = eo_pathEvidence ob, op_inferenceRule = eo_inferenceRule ob,
      op_collectedAt = eo_collectedAt ob, op_receivedAt = eo_receivedAt ob,
      op_clockSkewed = eo_clockSkewed ob, op_relaySession = eo_relaySession ob\<rparr>"

text \<open>The last observation of the iteration with a property; the first newest relay observation.\<close>

definition last_observation :: "(edge_observation \<Rightarrow> bool) \<Rightarrow> edge_observation list \<Rightarrow> edge_observation option" where
  "last_observation p obs = find p (rev obs)"

definition relay_observation ::
  "string \<Rightarrow> string \<Rightarrow> edge_observation list \<Rightarrow> edge_observation option" where
  "relay_observation source target obs =
     fold (\<lambda>ob best.
         if eo_observerID ob \<noteq> source \<and> eo_observerID ob \<noteq> target \<and> po_kind (eo_path ob) = PathPeerRelay \<and>
            (case best of None \<Rightarrow> True | Some b \<Rightarrow> eo_receivedAt ob > eo_receivedAt b)
         then Some ob else best) obs None"

definition current_observation :: "time \<Rightarrow> edge_observation option \<Rightarrow> edge_observation option" where
  "current_observation now ob =
     (case ob of Some x \<Rightarrow> if time_sub now (eo_receivedAt x) \<le> activeWindow then Some x else None | None \<Rightarrow> None)"

definition shown_rates ::
  "edge_observation option \<Rightarrow> edge_observation option \<Rightarrow> edge_observation option \<Rightarrow> rat \<times> rat" where
  "shown_rates src tgt relay =
     (case (src, tgt) of
        (Some s, Some t) \<Rightarrow> (eo_txRate s, eo_txRate t)
      | (Some s, None) \<Rightarrow> (eo_txRate s, eo_rxRate s)
      | (None, Some t) \<Rightarrow> (eo_rxRate t, eo_txRate t)
      | (None, None) \<Rightarrow> (case relay of Some r \<Rightarrow> (eo_aToBRate r, eo_bToARate r) | None \<Rightarrow> (0, 0)))"

definition snapshotEdge :: "agg_config \<Rightarrow> time \<Rightarrow> edge_state \<Rightarrow> agg_state \<Rightarrow> topology_edge" where
  "snapshotEdge cfg now edge s =
     (let live = filter (live_observation cfg now) (map snd (ed_observations edge));
          observations = map provenance_of live;
          source = ed_source edge; target = ed_target edge;
          rates = shown_rates
            (current_observation now (last_observation (\<lambda>ob. eo_observerID ob = source) live))
            (current_observation now (last_observation (\<lambda>ob. eo_observerID ob = target) live))
            (current_observation now (relay_observation source target live));
          reconciled = ReconcilePathEvidence source target (ed_lastKnownPath edge) observations;
          path = (if observations = [] then
                    (if po_kind (ed_lastKnownPath edge) = NoPathKind
                     then (ed_lastKnownPath edge)\<lparr>po_kind := PathUnknown\<rparr> else ed_lastKnownPath edge)
                  else pes_path reconciled);
          candidates = PathCandidates path (pes_conflicts reconciled) observations
      in \<lparr>te_id = ed_id edge, te_source = source, te_target = target,
          te_systemTelemetry = (ed_systemTelemetry edge \<or> isControlNode cfg source s \<or> isControlNode cfg target s),
          te_path = path, te_state = NoEdgeState, te_aToBRate = fst rates, te_bToARate = snd rates,
          te_lastActive = ed_lastActive edge,
          te_observations = sort_slice (\<lambda>a b. op_observerID a < op_observerID b) observations,
          te_conflicts = pes_conflicts reconciled, te_pathState = fst candidates,
          te_pathCandidates = snd candidates,
          te_directions = DirectionalPaths source target observations\<rparr>)"

definition edgeHasActiveObservation :: "time \<Rightarrow> edge_state \<Rightarrow> bool" where
  "edgeHasActiveObservation now edge \<longleftrightarrow>
     (\<exists>ob \<in> set (map snd (ed_observations edge)).
        \<not> time_sub now (eo_receivedAt ob) > activeWindow \<and>
        (eo_withdrawnAt ob = 0 \<or> eo_withdrawnAt ob < eo_receivedAt ob))"

fun equivalentPath :: "path_observation \<Rightarrow> path_observation \<Rightarrow> bool" where
  "equivalentPath left right =
     (if po_kind left \<noteq> po_kind right then False
      else case po_kind left of
        PathDirect \<Rightarrow> True
      | PathUnknown \<Rightarrow> True
      | PathDERP \<Rightarrow> po_derpRegion left = [] \<or> po_derpRegion right = [] \<or> po_derpRegion left = po_derpRegion right
      | PathPeerRelay \<Rightarrow> po_relayStableID left = [] \<or> po_relayStableID right = [] \<or>
                         po_relayStableID left = po_relayStableID right
      | _ \<Rightarrow> False)"

definition pathSpecificity :: "path_observation \<Rightarrow> nat" where
  "pathSpecificity p =
     (case po_kind p of
        PathDirect \<Rightarrow> if po_directEndpoint p \<noteq> [] then 1 else 0
      | PathDERP \<Rightarrow> if po_derpRegion p \<noteq> [] then 1 else 0
      | PathPeerRelay \<Rightarrow> if po_relayStableID p \<noteq> [] then 1 else 0
      | _ \<Rightarrow> 0)"

definition containsPath :: "path_observation list \<Rightarrow> path_observation \<Rightarrow> bool" where
  "containsPath paths candidate \<longleftrightarrow> (\<exists>p \<in> set paths. PathEqual p candidate)"

section \<open>Writing observations\<close>

definition edge_or_new :: "string \<Rightarrow> string \<Rightarrow> agg_state \<Rightarrow> edge_state" where
  "edge_or_new a b s =
     (let (edgeID, source, target) = EdgeID a b
      in case map_of (ag_edges s) edgeID of None \<Rightarrow> new_edge edgeID source target | Some e \<Rightarrow> e)"

definition put_edge :: "string \<Rightarrow> edge_state \<Rightarrow> agg_state \<Rightarrow> agg_state" where
  "put_edge edgeID e s = s\<lparr>ag_edges := mput edgeID e (ag_edges s)\<rparr>"

definition record_observation :: "time \<Rightarrow> edge_observation \<Rightarrow> edge_state \<Rightarrow> edge_state" where
  "record_observation receivedAt ob e =
     e\<lparr>ed_observations := mput (eo_observerID ob) ob (ed_observations e),
       ed_lastActive := (if receivedAt > ed_lastActive e then receivedAt else ed_lastActive e)\<rparr>"

text \<open>Bytes per second over a sample of some milliseconds.\<close>

definition rate :: "int \<Rightarrow> int \<Rightarrow> rat" where
  "rate bytes ms = of_int bytes / (of_int ms / 1000)"

definition peer_edge_observation ::
  "agg_config \<Rightarrow> time \<Rightarrow> time \<Rightarrow> string \<Rightarrow> peer_observation \<Rightarrow> edge_observation" where
  "peer_edge_observation cfg collectedAt receivedAt observerID peer =
     \<lparr>eo_observerID = observerID, eo_path = pe_path peer, eo_fallbackPath = pe_fallbackPath peer,
      eo_pathEvidence = pe_pathEvidence peer, eo_inferenceRule = pe_inferenceRule peer,
      eo_collectedAt = collectedAt, eo_receivedAt = receivedAt, eo_withdrawnAt = 0,
      eo_clockSkewed = isClockSkewed cfg collectedAt receivedAt, eo_relaySession = None,
      eo_sourceEndpoint = [], eo_targetEndpoint = [],
      eo_txRate = rate (pe_txDelta peer) (pe_sampleDurationMS peer),
      eo_rxRate = rate (pe_rxDelta peer) (pe_sampleDurationMS peer), eo_aToBRate = 0, eo_bToARate = 0\<rparr>"

definition applyPeer ::
  "agg_config \<Rightarrow> time \<Rightarrow> time \<Rightarrow> string \<Rightarrow> string \<Rightarrow> peer_observation \<Rightarrow> agg_state \<Rightarrow> agg_state" where
  "applyPeer cfg collectedAt receivedAt observerID peerID peer s =
     put_edge (edge_key observerID peerID)
       (record_observation receivedAt (peer_edge_observation cfg collectedAt receivedAt observerID peer)
         (edge_or_new observerID peerID s)) s"

definition relay_edge_observation ::
  "agg_config \<Rightarrow> time \<Rightarrow> time \<Rightarrow> string \<Rightarrow> relay_session_observation \<Rightarrow> identity_status \<Rightarrow> identity_status \<Rightarrow>
   int \<Rightarrow> int \<Rightarrow> edge_observation" where
  "relay_edge_observation cfg collectedAt receivedAt relayID session sourceStatus targetStatus aToB bToA =
     \<lparr>eo_observerID = relayID,
      eo_path = no_path\<lparr>po_kind := PathPeerRelay, po_relayStableID := ni_stableNodeID (rs_relay session),
        po_relayResolution := ''relay_session'', po_relayVNI := Some (rs_vni session)\<rparr>,
      eo_fallbackPath = None, eo_pathEvidence = NoPathEvidence, eo_inferenceRule = [],
      eo_collectedAt = collectedAt, eo_receivedAt = receivedAt, eo_withdrawnAt = 0,
      eo_clockSkewed = isClockSkewed cfg collectedAt receivedAt,
      eo_relaySession = Some \<lparr>rp_sessionID = rs_sessionID session, rp_vni = rs_vni session,
        rp_sourceIdentityStatus = sourceStatus, rp_targetIdentityStatus = targetStatus\<rparr>,
      eo_sourceEndpoint = rc_endpoint (rs_source session), eo_targetEndpoint = rc_endpoint (rs_target session),
      eo_txRate = 0, eo_rxRate = 0,
      eo_aToBRate = rate aToB (rs_sampleDurationMS session), eo_bToARate = rate bToA (rs_sampleDurationMS session)\<rparr>"

text \<open>Two sessions of one relay between the same nodes in one report add their rates.\<close>

definition add_same_batch :: "(string, edge_observation) gomap \<Rightarrow> edge_observation \<Rightarrow> edge_observation" where
  "add_same_batch observations ob =
     (case map_of observations (eo_observerID ob) of
        Some current \<Rightarrow>
          if eo_receivedAt current = eo_receivedAt ob \<and> equivalentPath (eo_path current) (eo_path ob)
          then ob\<lparr>eo_aToBRate := eo_aToBRate ob + eo_aToBRate current,
                  eo_bToARate := eo_bToARate ob + eo_bToARate current\<rparr> else ob
      | None \<Rightarrow> ob)"

definition applyRelaySession ::
  "agg_config \<Rightarrow> time \<Rightarrow> time \<Rightarrow> string \<Rightarrow> string \<Rightarrow> string \<Rightarrow> relay_session_observation \<Rightarrow>
   identity_status \<Rightarrow> identity_status \<Rightarrow> int \<Rightarrow> int \<Rightarrow> agg_state \<Rightarrow> agg_state" where
  "applyRelaySession cfg collectedAt receivedAt relayID sourceID targetID session sourceStatus targetStatus aToB bToA s =
     (let e = edge_or_new sourceID targetID s;
          ob = add_same_batch (ed_observations e)
            (relay_edge_observation cfg collectedAt receivedAt relayID session sourceStatus targetStatus aToB bToA)
      in put_edge (edge_key sourceID targetID) (record_observation receivedAt ob e) s)"

definition markSystemTelemetry :: "agg_config \<Rightarrow> string \<Rightarrow> string \<Rightarrow> string \<Rightarrow> agg_state \<Rightarrow> agg_state" where
  "markSystemTelemetry cfg edgeID sourceID targetID s =
     (case map_of (ag_edges s) edgeID of
        Some e \<Rightarrow>
          if isControlNode cfg sourceID s \<or> isControlNode cfg targetID s
          then put_edge edgeID (e\<lparr>ed_systemTelemetry := True\<rparr>) s else s
      | None \<Rightarrow> s)"

text \<open>\<open>c\<close> is the observer object the caller holds.\<close>

definition replaceInventory :: "nat \<Rightarrow> string \<Rightarrow> string \<Rightarrow> string set \<Rightarrow> agg_state \<Rightarrow> agg_state" where
  "replaceInventory c observerID generation members s =
     (let observer = ag_observerCells s c;
          gone = edge_key observerID ` (ob_membership observer - members);
          s1 = s\<lparr>ag_edges := mapv (\<lambda>edgeID e. if edgeID \<in> gone
                 then e\<lparr>ed_observations := mdel observerID (ed_observations e)\<rparr> else e) (ag_edges s)\<rparr>
      in put_observer c (observer\<lparr>ob_generation := generation, ob_membership := members\<rparr>) s1)"

section \<open>Touched edges\<close>

text \<open>The evidence an edge showed before the report, by edge.\<close>

type_synonym touched_edges = "(string, path_evidence_state) gomap"

definition last_known :: "edge_state \<Rightarrow> path_evidence_state" where
  "last_known e = \<lparr>pes_path = ed_lastKnownPath e, pes_conflicts = ed_lastKnownConflicts e,
     pes_directions = ed_lastKnownDirections e\<rparr>"

definition markObserverEdgesTouched :: "string \<Rightarrow> agg_state \<Rightarrow> touched_edges \<Rightarrow> touched_edges" where
  "markObserverEdgesTouched observerID s touched =
     fold (\<lambda>(edgeID, e) t.
         if map_of (ed_observations e) observerID = None \<or> map_of t edgeID \<noteq> None then t
         else mput edgeID (last_known e) t) (ag_edges s) touched"

definition touch_edge :: "string \<Rightarrow> agg_state \<Rightarrow> touched_edges \<Rightarrow> touched_edges" where
  "touch_edge edgeID s touched =
     (if map_of touched edgeID \<noteq> None then touched
      else mput edgeID (case map_of (ag_edges s) edgeID of Some e \<Rightarrow> last_known e | None \<Rightarrow> no_evidence_state) touched)"

end
