(* ===== verification/Agg_Relay.thy ===== *)
theory Agg_Relay
  imports Agg_Identity
begin

text \<open>
  Peer Relay sessions: a relay reports sessions between two clients it may know only by a session
  client id. A scope (relay and VNI) remembers the pair of resolved nodes last seen on it; a session
  with one end in the pair infers the other end, unless two pairs conflict (\<open>relayScopeLocked\<close> to
  \<open>relayClientStatusLocked\<close> in \<open>internal/aggregate/aggregator.go\<close>).
\<close>

text \<open>The cell of the scope, whether it is new, and the state.\<close>

definition relayScope :: "string \<Rightarrow> int \<Rightarrow> time \<Rightarrow> agg_state \<Rightarrow> nat \<times> bool \<times> agg_state" where
  "relayScope relayID vni seenAt s =
     (let key = relayScopeKey relayID vni
      in case map_of (ag_scopes s) key of
           Some c \<Rightarrow> (c, False, put_scope c ((ag_scopeCells s c)\<lparr>sc_lastSeen := seenAt\<rparr>) s)
         | None \<Rightarrow>
             (let c = ag_nextCell s
              in (c, True,
                  (put_scope c (no_scope\<lparr>sc_relayID := relayID, sc_vni := vni, sc_lastSeen := seenAt\<rparr>) s)
                    \<lparr>ag_scopes := mput key c (ag_scopes s), ag_nextCell := Suc c\<rparr>)))"

definition nodeCanBeInferred :: "string \<Rightarrow> agg_state \<Rightarrow> bool" where
  "nodeCanBeInferred nodeID s =
     (case map_of (ag_nodes s) nodeID of None \<Rightarrow> False | Some n \<Rightarrow> nd_status n \<noteq> IdentityResolved)"

definition conflict_active :: "agg_config \<Rightarrow> time \<Rightarrow> relay_scope_state \<Rightarrow> bool" where
  "conflict_active cfg now sc \<longleftrightarrow>
     sc_conflictObservedAt sc \<noteq> 0 \<and> time_sub now (sc_conflictObservedAt sc) \<le> evidenceWindow cfg"

definition relayClientStatus ::
  "agg_config \<Rightarrow> nat \<Rightarrow> string \<Rightarrow> identity_status \<Rightarrow> time \<Rightarrow> agg_state \<Rightarrow> identity_status" where
  "relayClientStatus cfg c nodeID fallback seenAt s =
     (let resolved = (case map_of (ag_nodes s) nodeID of None \<Rightarrow> False | Some n \<Rightarrow> nd_status n = IdentityResolved)
      in if conflict_active cfg seenAt (ag_scopeCells s c) \<and> \<not> resolved then IdentityConflict
         else if resolved then IdentityResolved else fallback)"

section \<open>Inference from the pair of a scope\<close>

definition other_of_pair :: "relay_scope_state \<Rightarrow> string \<Rightarrow> string" where
  "other_of_pair sc nodeID = (if nodeID = sc_pairSourceID sc then sc_pairTargetID sc else sc_pairSourceID sc)"

text \<open>One session of the scope \<open>c\<close>: which end, if any, is merged into the pair.\<close>

definition reconcile_session :: "agg_config \<Rightarrow> nat \<Rightarrow> time \<Rightarrow> nat \<Rightarrow> bool \<times> agg_state \<Rightarrow> bool \<times> agg_state" where
  "reconcile_session cfg c seenAt i acc =
     (let (changed, s) = acc; sc = ag_scopeCells s c; se = ag_sessionCells s i;
          inPair = (\<lambda>n. n = sc_pairSourceID sc \<or> n = sc_pairTargetID sc);
          sourceInPair = inPair (se_sourceNodeID se); targetInPair = inPair (se_targetNodeID se)
      in if time_sub seenAt (se_lastSeen se) > evidenceWindow cfg then (changed, s)
         else if sourceInPair \<and> \<not> targetInPair \<and> nodeCanBeInferred (se_targetNodeID se) s then
           let complement = other_of_pair sc (se_sourceNodeID se);
               s1 = mergeNodes complement (se_targetNodeID se) s
           in (True, put_session i ((ag_sessionCells s1 i)\<lparr>se_targetNodeID := complement,
                 se_targetStatus := IdentityResolved\<rparr>) s1)
         else if targetInPair \<and> \<not> sourceInPair \<and> nodeCanBeInferred (se_sourceNodeID se) s then
           let complement = other_of_pair sc (se_targetNodeID se);
               s1 = mergeNodes complement (se_sourceNodeID se) s
           in (True, put_session i ((ag_sessionCells s1 i)\<lparr>se_sourceNodeID := complement,
                 se_sourceStatus := IdentityResolved\<rparr>) s1)
         else (changed, s))"

definition reconcileRelayScope :: "agg_config \<Rightarrow> nat \<Rightarrow> time \<Rightarrow> agg_state \<Rightarrow> bool \<times> agg_state" where
  "reconcileRelayScope cfg c seenAt s =
     (let sc = ag_scopeCells s c
      in if sc_pairSourceID sc = [] \<or> sc_pairTargetID sc = [] \<or>
            time_sub seenAt (sc_pairObservedAt sc) > evidenceWindow cfg \<or> conflict_active cfg seenAt sc
         then (False, s)
         else fold (reconcile_session cfg c seenAt) (map snd (sc_sessions sc)) (False, s))"

definition record_pair :: "agg_config \<Rightarrow> string \<Rightarrow> string \<Rightarrow> time \<Rightarrow> relay_scope_state \<Rightarrow> relay_scope_state" where
  "record_pair cfg sourceID targetID seenAt sc =
     (if sc_pairObservedAt sc = 0 \<or> time_sub seenAt (sc_pairObservedAt sc) > evidenceWindow cfg
      then sc\<lparr>sc_pairSourceID := sourceID, sc_pairTargetID := targetID, sc_pairObservedAt := seenAt,
              sc_conflictObservedAt := 0\<rparr>
      else if sc_pairSourceID sc = sourceID \<and> sc_pairTargetID sc = targetID
      then sc\<lparr>sc_pairObservedAt := seenAt\<rparr>
      else sc\<lparr>sc_conflictObservedAt := seenAt\<rparr>)"

definition recordRelayPair ::
  "agg_config \<Rightarrow> string \<Rightarrow> int \<Rightarrow> string \<Rightarrow> string \<Rightarrow> time \<Rightarrow> agg_state \<Rightarrow> bool \<times> agg_state" where
  "recordRelayPair cfg relayID vni leftID rightID seenAt s =
     (if leftID = [] \<or> rightID = [] \<or> leftID = rightID then (False, s)
      else
        let (c, created, s1) = relayScope relayID vni seenAt s;
            (_, sourceID, targetID) = EdgeID leftID rightID;
            (changed, s2) = reconcileRelayScope cfg c seenAt
              (put_scope c (record_pair cfg sourceID targetID seenAt (ag_scopeCells s1 c)) s1)
        in (changed \<or> created, s2))"

section \<open>Sessions\<close>

text \<open>\<open>i\<close> is the cell of the session: the client's node, its status, whether the state changed.\<close>

definition set_client :: "nat \<Rightarrow> string \<Rightarrow> string \<Rightarrow> agg_state \<Rightarrow> agg_state" where
  "set_client i clientID nodeID s =
     (let se = ag_sessionCells s i in put_session i (se\<lparr>se_clients := mput clientID nodeID (se_clients se)\<rparr>) s)"

definition resolveRelayClient ::
  "agg_config \<Rightarrow> nat \<Rightarrow> relay_session_client \<Rightarrow> time \<Rightarrow> agg_state \<Rightarrow>
   (string \<times> identity_status \<times> bool \<times> agg_state) option" where
  "resolveRelayClient cfg i client seenAt s =
     (let existingID = str_at (se_clients (ag_sessionCells s i)) (rc_sessionClientID client);
          status = ClientIdentityStatus client
      in if rc_identity client \<noteq> None \<and> identityStatus (IdentityOrEmpty client) = IdentityResolved then do {
           (nodeID, _, canonicalChanged, s1) \<leftarrow> resolveIdentity cfg (IdentityOrEmpty client) seenAt s;
           let differs = (existingID \<noteq> [] \<and> existingID \<noteq> nodeID);
           let s2 = (if differs then mergeNodes nodeID existingID s1 else s1);
           Some (nodeID, IdentityResolved, canonicalChanged \<or> differs \<or> existingID = [],
                 set_client i (rc_sessionClientID client) nodeID s2)
         }
         else if existingID \<noteq> [] then
           Some (existingID, status, False,
             update_node existingID
               (\<lambda>n. if nd_status n \<noteq> IdentityResolved then n\<lparr>nd_status := status\<rparr> else n) s)
         else
           let (nodeID, s1) = create_node cfg no_identity status seenAt s
           in Some (nodeID, status, True, set_client i (rc_sessionClientID client) nodeID s1))"

definition session_cell :: "nat \<Rightarrow> string \<Rightarrow> agg_state \<Rightarrow> nat \<times> bool \<times> agg_state" where
  "session_cell c sessionID s =
     (let sc = ag_scopeCells s c
      in case map_of (sc_sessions sc) sessionID of
           Some i \<Rightarrow> (i, False, s)
         | None \<Rightarrow>
             (let i = ag_nextCell s
              in (i, True, (put_session i no_session (put_scope c (sc\<lparr>sc_sessions := mput sessionID i (sc_sessions sc)\<rparr>) s))
                    \<lparr>ag_nextCell := Suc i\<rparr>)))"

definition resolveRelaySession ::
  "agg_config \<Rightarrow> string \<Rightarrow> relay_session_observation \<Rightarrow> time \<Rightarrow> agg_state \<Rightarrow>
   (string \<times> string \<times> identity_status \<times> identity_status \<times> bool \<times> agg_state) option" where
  "resolveRelaySession cfg relayID ob seenAt s =
     (let (c, scopeCreated, s1) = relayScope relayID (rs_vni ob) seenAt s;
          (i, sessionCreated, s2) = session_cell c (rs_sessionID ob) s1;
          s3 = put_session i ((ag_sessionCells s2 i)\<lparr>se_lastSeen := seenAt\<rparr>) s2
      in do {
           (sourceID, sourceStatus, sourceChanged, s4) \<leftarrow> resolveRelayClient cfg i (rs_source ob) seenAt s3;
           (targetID, targetStatus, targetChanged, s5) \<leftarrow> resolveRelayClient cfg i (rs_target ob) seenAt s4;
           let s6 = put_session i ((ag_sessionCells s5 i)\<lparr>
               se_sourceClientID := rc_sessionClientID (rs_source ob),
               se_targetClientID := rc_sessionClientID (rs_target ob),
               se_sourceNodeID := sourceID, se_targetNodeID := targetID,
               se_sourceStatus := sourceStatus, se_targetStatus := targetStatus\<rparr>) s5;
           let (inferred, s7) =
             (if sourceID = targetID then (False, s6)
              else if sourceStatus = IdentityResolved \<and> targetStatus = IdentityResolved
              then recordRelayPair cfg relayID (rs_vni ob) sourceID targetID seenAt s6
              else reconcileRelayScope cfg c seenAt s6);
           let se = ag_sessionCells s7 i;
           Some (se_sourceNodeID se, se_targetNodeID se,
             relayClientStatus cfg c (se_sourceNodeID se) (se_sourceStatus se) seenAt s7,
             relayClientStatus cfg c (se_targetNodeID se) (se_targetStatus se) seenAt s7,
             scopeCreated \<or> sessionCreated \<or> sourceChanged \<or> targetChanged \<or> inferred, s7)
         })"

end
