(* ===== verification/Agg_Apply.thy ===== *)
theory Agg_Apply
  imports Agg_Edges Agg_Relay
begin

text \<open>
  Applying a report (\<open>ApplyAt\<close> and \<open>applyLocked\<close> in \<open>internal/aggregate/aggregator.go\<close>): the
  sequence discipline of a reporter, who owns which observer, and what each kind of report does.
  A result of \<open>None\<close> is a panic (a nil pointer read), \<open>Some (Inl e)\<close> a report that validation
  refuses, \<open>Some (Inr (r, s))\<close> the result with the state after it.
\<close>

section \<open>Observers and reporters\<close>

definition touchObserver :: "agg_config \<Rightarrow> string \<Rightarrow> time \<Rightarrow> time \<Rightarrow> agg_state \<Rightarrow> agg_state option" where
  "touchObserver cfg nodeID collectedAt receivedAt =
     deref_node nodeID
       (\<lambda>n. n\<lparr>nd_observable := True, nd_lastEvidence := receivedAt, nd_lastReport := receivedAt,
              nd_lastCollected := collectedAt,
              nd_clockSkewMS := milliseconds (time_sub collectedAt receivedAt),
              nd_clockSkewed := isClockSkewed cfg collectedAt receivedAt\<rparr>)"

definition touchPeer :: "string \<Rightarrow> time \<Rightarrow> agg_state \<Rightarrow> agg_state" where
  "touchPeer nodeID receivedAt = update_node nodeID (\<lambda>n. n\<lparr>nd_lastEvidence := receivedAt\<rparr>)"

definition touchIdentityCollected :: "string \<Rightarrow> time \<Rightarrow> agg_state \<Rightarrow> agg_state" where
  "touchIdentityCollected nodeID collectedAt =
     update_node nodeID
       (\<lambda>n. if collectedAt > nd_identityCollectedAt n then n\<lparr>nd_identityCollectedAt := collectedAt\<rparr> else n)"

definition reporterOwnsObservers ::
  "agg_config \<Rightarrow> string \<Rightarrow> observer_report list \<Rightarrow> time \<Rightarrow> agg_state \<Rightarrow> bool" where
  "reporterOwnsObservers cfg reporterID observations seenAt s \<longleftrightarrow>
     list_all (\<lambda>ob.
       case lookupIdentity cfg (or_observer ob) seenAt s of
         None \<Rightarrow> False
       | Some observerID \<Rightarrow>
           (case observer_at s observerID of None \<Rightarrow> False | Some x \<Rightarrow> ob_owner x = reporterID)) observations"

definition update_reporter :: "string \<Rightarrow> (reporter_state \<Rightarrow> reporter_state) \<Rightarrow> agg_state \<Rightarrow> agg_state" where
  "update_reporter reporterID f s =
     (case map_of (ag_reporters s) reporterID of
        None \<Rightarrow> s | Some r \<Rightarrow> s\<lparr>ag_reporters := mput reporterID (f r) (ag_reporters s)\<rparr>)"

text \<open>The previous owner loses the observer, and is forgotten when it has no other.\<close>

definition release_previous :: "string \<Rightarrow> string \<Rightarrow> string \<Rightarrow> agg_state \<Rightarrow> agg_state" where
  "release_previous previous reporterID observerID s =
     (if previous = [] \<or> previous = reporterID then s
      else case map_of (ag_reporters s) previous of
        None \<Rightarrow> s
      | Some r \<Rightarrow>
          (let rest = rt_observerIDs r - {observerID}
           in s\<lparr>ag_reporters := (if rest = {} then mdel previous (ag_reporters s)
                 else mput previous (r\<lparr>rt_observerIDs := rest\<rparr>) (ag_reporters s))\<rparr>))"

definition observer_cell :: "string \<Rightarrow> agg_state \<Rightarrow> nat \<times> agg_state" where
  "observer_cell observerID s =
     (case map_of (ag_observers s) observerID of
        Some c \<Rightarrow> (c, s)
      | None \<Rightarrow>
          (let c = ag_nextCell s
           in (c, (put_observer c no_observer s)
                 \<lparr>ag_observers := mput observerID c (ag_observers s), ag_nextCell := Suc c\<rparr>)))"

definition claimReporterObserver :: "string \<Rightarrow> string \<Rightarrow> agg_state \<Rightarrow> agg_state" where
  "claimReporterObserver reporterID observerID s =
     (let (c, s1) = observer_cell observerID s;
          s2 = release_previous (ob_owner (ag_observerCells s1 c)) reporterID observerID s1;
          s3 = put_observer c ((ag_observerCells s2 c)\<lparr>ob_owner := reporterID, ob_withdrawnAt := 0\<rparr>) s2
      in update_reporter reporterID (\<lambda>r. r\<lparr>rt_observerIDs := insert observerID (rt_observerIDs r)\<rparr>) s3)"

definition withdrawObserver :: "string \<Rightarrow> string \<Rightarrow> time \<Rightarrow> agg_state \<Rightarrow> agg_state" where
  "withdrawObserver reporterID observerID receivedAt s =
     (case map_of (ag_observers s) observerID of
        None \<Rightarrow> s
      | Some c \<Rightarrow>
          if ob_owner (ag_observerCells s c) \<noteq> reporterID then s
          else
            let s1 = put_observer c ((ag_observerCells s c)\<lparr>ob_owner := [], ob_withdrawnAt := receivedAt\<rparr>) s;
                s2 = update_reporter reporterID (\<lambda>r. r\<lparr>rt_observerIDs := rt_observerIDs r - {observerID}\<rparr>) s1
            in s2\<lparr>ag_edges := mapv (\<lambda>_ e.
                 case map_of (ed_observations e) observerID of
                   None \<Rightarrow> e
                 | Some ob \<Rightarrow> e\<lparr>ed_observations :=
                     mput observerID (ob\<lparr>eo_withdrawnAt := receivedAt\<rparr>) (ed_observations e)\<rparr>) (ag_edges s2)\<rparr>)"

section \<open>The steps of a report\<close>

text \<open>What the loops of \<open>applyLocked\<close> carry: the state, the touched edges and the result so far.\<close>

record apply_ctx =
  ax_state :: agg_state
  ax_touched :: touched_edges
  ax_traffic :: "accepted_traffic list"
  ax_resync :: bool
  ax_canonical :: bool
  ax_checkpoint :: bool

definition ctx_resolve ::
  "agg_config \<Rightarrow> node_identity \<Rightarrow> time \<Rightarrow> apply_ctx \<Rightarrow> (string \<times> bool \<times> apply_ctx) option" where
  "ctx_resolve cfg identity receivedAt ctx = do {
     (nodeID, created, changed, s) \<leftarrow> resolveIdentity cfg identity receivedAt (ax_state ctx);
     Some (nodeID, created, ctx\<lparr>ax_state := s, ax_canonical := ax_canonical ctx \<or> changed\<rparr>)
   }"

definition withdraw_step ::
  "agg_config \<Rightarrow> report_envelope \<Rightarrow> time \<Rightarrow> observer_report \<Rightarrow> apply_ctx \<Rightarrow> apply_ctx option" where
  "withdraw_step cfg report receivedAt ob ctx =
     (let s = ax_state ctx; collectedAt = CollectionTime ob (re_collectedAt report)
      in case lookupIdentity cfg (or_observer ob) receivedAt s of
           None \<Rightarrow> Some ctx
         | Some observerID \<Rightarrow>
             (case observer_at s observerID of
                None \<Rightarrow> Some ctx
              | Some x \<Rightarrow>
                  if ob_owner x \<noteq> re_reporterInstanceID report then Some ctx
                  else do {
                    s1 \<leftarrow> touchObserver cfg observerID collectedAt receivedAt s;
                    Some (ctx\<lparr>ax_touched := markObserverEdgesTouched observerID s1 (ax_touched ctx),
                              ax_state := withdrawObserver (re_reporterInstanceID report) observerID receivedAt s1,
                              ax_checkpoint := True\<rparr>)
                  }))"

text \<open>A peer of an inventory; the accumulated ids are its members.\<close>

definition member_step ::
  "agg_config \<Rightarrow> time \<Rightarrow> time \<Rightarrow> peer_observation \<Rightarrow> string set \<times> apply_ctx \<Rightarrow> (string set \<times> apply_ctx) option" where
  "member_step cfg collectedAt receivedAt peer acc = do {
     (peerID, created, ctx) \<leftarrow> ctx_resolve cfg (pe_peer peer) receivedAt (snd acc);
     let s1 = touchIdentityCollected peerID collectedAt (ax_state ctx);
     s2 \<leftarrow> (if created then deref_node peerID (\<lambda>n. n\<lparr>nd_lastEvidence := receivedAt\<rparr>) s1 else Some s1);
     Some (insert peerID (fst acc), ctx\<lparr>ax_state := s2\<rparr>)
   }"

definition inventory_step ::
  "agg_config \<Rightarrow> time \<Rightarrow> time \<Rightarrow> string \<Rightarrow> nat option \<Rightarrow> observer_report \<Rightarrow> apply_ctx \<Rightarrow> apply_ctx option" where
  "inventory_step cfg collectedAt receivedAt observerID cell ob ctx = do {
     (members, ctx1) \<leftarrow> fold_opt (member_step cfg collectedAt receivedAt) (or_peers ob) ({}, ctx);
     c \<leftarrow> cell;
     Some (ctx1\<lparr>ax_touched := markObserverEdgesTouched observerID (ax_state ctx1) (ax_touched ctx1),
                ax_state := replaceInventory c observerID (or_inventoryGeneration ob) members (ax_state ctx1)\<rparr>)
   }"

definition record_peer_relay ::
  "agg_config \<Rightarrow> time \<Rightarrow> time \<Rightarrow> string \<Rightarrow> string \<Rightarrow> peer_observation \<Rightarrow> apply_ctx \<Rightarrow> apply_ctx option" where
  "record_peer_relay cfg collectedAt receivedAt observerID peerID peer ctx =
     (case (po_kind (pe_path peer), po_relayVNI (pe_path peer)) of
        (PathPeerRelay, Some vni) \<Rightarrow>
          if trim_space (po_relayStableID (pe_path peer)) = [] then Some ctx
          else do {
            (relayID, _, ctx1) \<leftarrow>
              ctx_resolve cfg (no_identity\<lparr>ni_stableNodeID := po_relayStableID (pe_path peer)\<rparr>) receivedAt ctx;
            let (changed, s) = recordRelayPair cfg relayID vni observerID peerID receivedAt
              (touchIdentityCollected relayID collectedAt (ax_state ctx1));
            Some (ctx1\<lparr>ax_state := s, ax_canonical := ax_canonical ctx1 \<or> changed\<rparr>)
          }
      | _ \<Rightarrow> Some ctx)"

text \<open>The traffic entry; the edge is read without a check.\<close>

definition accept_traffic ::
  "string \<Rightarrow> string \<Rightarrow> string \<Rightarrow> int \<Rightarrow> int \<Rightarrow> time \<Rightarrow> apply_ctx \<Rightarrow> apply_ctx option" where
  "accept_traffic fromID toID observerID fromToBytes toFromBytes receivedAt ctx = do {
     let (edgeID, source, target) = EdgeID fromID toID;
     e \<leftarrow> map_of (ag_edges (ax_state ctx)) edgeID;
     Some (ctx\<lparr>ax_traffic := ax_traffic ctx @
       [\<lparr>at_edgeID = edgeID, at_sourceID = source, at_targetID = target, at_observerID = observerID,
         at_systemTelemetry = ed_systemTelemetry e,
         at_aToBBytes = (if fromID \<noteq> source then toFromBytes else fromToBytes),
         at_bToABytes = (if fromID \<noteq> source then fromToBytes else toFromBytes),
         at_receivedAt = receivedAt\<rparr>]\<rparr>)
   }"

definition traffic_step ::
  "agg_config \<Rightarrow> time \<Rightarrow> time \<Rightarrow> string \<Rightarrow> peer_observation \<Rightarrow> apply_ctx \<Rightarrow> apply_ctx option" where
  "traffic_step cfg collectedAt receivedAt observerID peer ctx =
     (if pe_rxDelta peer = 0 \<and> pe_txDelta peer = 0 then Some ctx
      else do {
        (peerID, _, ctx1) \<leftarrow> ctx_resolve cfg (pe_peer peer) receivedAt ctx;
        let s1 = touchPeer peerID receivedAt (touchIdentityCollected peerID collectedAt (ax_state ctx1));
        let edgeID = edge_key observerID peerID;
        ctx2 \<leftarrow> record_peer_relay cfg collectedAt receivedAt observerID peerID peer
          (ctx1\<lparr>ax_state := s1, ax_touched := touch_edge edgeID s1 (ax_touched ctx1)\<rparr>);
        let s2 = markSystemTelemetry cfg edgeID observerID peerID
          (applyPeer cfg collectedAt receivedAt observerID peerID peer (ax_state ctx2));
        accept_traffic observerID peerID observerID (pe_txDelta peer) (pe_rxDelta peer) receivedAt
          (ctx2\<lparr>ax_state := s2\<rparr>)
      })"

text \<open>An observer of any report but a withdrawal. A hello claims it; the observer object is read before
  the peers are resolved.\<close>

definition generation_differs :: "agg_state \<Rightarrow> nat \<Rightarrow> observer_report \<Rightarrow> bool" where
  "generation_differs s c ob \<longleftrightarrow> ob_generation (ag_observerCells s c) \<noteq> or_inventoryGeneration ob"

definition observer_step ::
  "agg_config \<Rightarrow> report_envelope \<Rightarrow> time \<Rightarrow> observer_report \<Rightarrow> apply_ctx \<Rightarrow> apply_ctx option" where
  "observer_step cfg report receivedAt ob ctx = do {
     (observerID, _, ctx1) \<leftarrow> ctx_resolve cfg (or_observer ob) receivedAt ctx;
     let collectedAt = CollectionTime ob (re_collectedAt report);
     let s1 = touchIdentityCollected observerID collectedAt (ax_state ctx1);
     let s2 = (if re_kind report = ReportObserverHello
               then claimReporterObserver (re_reporterInstanceID report) observerID s1 else s1);
     s3 \<leftarrow> touchObserver cfg observerID collectedAt receivedAt s2;
     let cell = map_of (ag_observers s3) observerID;
     let ctx2 = ctx1\<lparr>ax_state := s3\<rparr>;
     (case re_kind report of
        ReportObserverHello \<Rightarrow> inventory_step cfg collectedAt receivedAt observerID cell ob ctx2
      | ReportInventoryUpdate \<Rightarrow> inventory_step cfg collectedAt receivedAt observerID cell ob ctx2
      | ReportTrafficSample \<Rightarrow> do {
          c \<leftarrow> cell;
          fold_opt (traffic_step cfg collectedAt receivedAt observerID) (or_peers ob)
            (ctx2\<lparr>ax_resync := ax_resync ctx2 \<or> generation_differs s3 c ob\<rparr>)
        }
      | ReportObserverHeartbeat \<Rightarrow> do {
          c \<leftarrow> cell;
          Some (ctx2\<lparr>ax_resync := ax_resync ctx2 \<or> generation_differs s3 c ob\<rparr>)
        }
      | _ \<Rightarrow> Some ctx2)
   }"

definition session_step ::
  "agg_config \<Rightarrow> report_envelope \<Rightarrow> time \<Rightarrow> relay_session_observation \<Rightarrow> apply_ctx \<Rightarrow> apply_ctx option" where
  "session_step cfg report receivedAt session ctx = do {
     (relayID, _, ctx1) \<leftarrow> ctx_resolve cfg (rs_relay session) receivedAt ctx;
     s1 \<leftarrow> touchObserver cfg relayID (re_collectedAt report) receivedAt
       (touchIdentityCollected relayID (re_collectedAt report) (ax_state ctx1));
     (sourceID, targetID, sourceStatus, targetStatus, changed, s2) \<leftarrow>
       resolveRelaySession cfg relayID session receivedAt
         (claimReporterObserver (re_reporterInstanceID report) relayID s1);
     let s3 = touchIdentityCollected targetID (re_collectedAt report)
       (touchIdentityCollected sourceID (re_collectedAt report) s2);
     let ctx2 = ctx1\<lparr>ax_state := s3, ax_canonical := ax_canonical ctx1 \<or> changed\<rparr>;
     if sourceID = targetID then Some ctx2
     else do {
       let s4 = touchPeer targetID receivedAt (touchPeer sourceID receivedAt s3);
       let (edgeID, source, target) = EdgeID sourceID targetID;
       let flip = (sourceID \<noteq> source);
       let aToB = (if flip then rs_targetToSourceDelta session else rs_sourceToTargetDelta session);
       let bToA = (if flip then rs_sourceToTargetDelta session else rs_targetToSourceDelta session);
       let s5 = applyRelaySession cfg (re_collectedAt report) receivedAt relayID source target session
         (if flip then targetStatus else sourceStatus) (if flip then sourceStatus else targetStatus) aToB bToA s4;
       let s6 = markSystemTelemetry cfg edgeID sourceID targetID s5;
       accept_traffic source target relayID aToB bToA receivedAt
         (ctx2\<lparr>ax_state := s6, ax_touched := touch_edge edgeID s4 (ax_touched ctx2)\<rparr>)
     }
   }"

section \<open>The transitions of the touched edges\<close>

definition shown_evidence :: "topology_edge \<Rightarrow> path_evidence_state" where
  "shown_evidence e = \<lparr>pes_path = te_path e, pes_conflicts = te_conflicts e, pes_directions = te_directions e\<rparr>"

definition current_edge :: "agg_config \<Rightarrow> time \<Rightarrow> edge_state \<Rightarrow> agg_state \<Rightarrow> topology_edge" where
  "current_edge cfg now e s =
     (let shown = snapshotEdge cfg now e s
      in if po_kind (te_path shown) = NoPathKind
         then shown\<lparr>te_path := (te_path shown)\<lparr>po_kind := PathUnknown\<rparr>\<rparr> else shown)"

definition transition_step ::
  "agg_config \<Rightarrow> time \<Rightarrow> string \<times> path_evidence_state \<Rightarrow> path_transition list \<times> agg_state \<Rightarrow>
   (path_transition list \<times> agg_state) option" where
  "transition_step cfg receivedAt entry acc = do {
     let (edgeID, previous) = entry;
     let s = snd acc;
     e \<leftarrow> map_of (ag_edges s) edgeID;
     let current = current_edge cfg receivedAt e s;
     let moved = (po_kind (pes_path previous) = NoPathKind \<or> \<not> SamePathEvidence previous (shown_evidence current));
     let e' = e\<lparr>ed_lastKnownPath := te_path current, ed_lastKnownConflicts := te_conflicts current,
                ed_lastKnownDirections := te_directions current\<rparr>;
     Some (if moved then fst acc @
             [\<lparr>pt_edgeID = edgeID, pt_observedAt = receivedAt, pt_path = te_path current,
               pt_conflicts = te_conflicts current, pt_observations = te_observations current,
               pt_directions = te_directions current\<rparr>] else fst acc,
           put_edge edgeID e' s)
   }"

section \<open>Applying a report\<close>

record apply_result =
  ar_receipt :: report_receipt
  ar_traffic :: "accepted_traffic list"
  ar_transitions :: "path_transition list"
  ar_changed :: bool
  ar_canonicalStateChanged :: bool
  ar_checkpointRequired :: bool

definition receipt :: "agg_config \<Rightarrow> bool \<Rightarrow> bool \<Rightarrow> report_receipt" where
  "receipt cfg accepted resync =
     \<lparr>rr_accepted = accepted, rr_resyncRequired = resync, rr_controlStableNodeIDs = cf_controlIDs cfg,
      rr_heartbeatIntervalMS = milliseconds (cf_heartbeat cfg)\<rparr>"

definition unchanged_result :: "agg_config \<Rightarrow> bool \<Rightarrow> bool \<Rightarrow> apply_result" where
  "unchanged_result cfg accepted resync =
     \<lparr>ar_receipt = receipt cfg accepted resync, ar_traffic = [], ar_transitions = [], ar_changed = False,
      ar_canonicalStateChanged = False, ar_checkpointRequired = False\<rparr>"

definition close_report :: "report_envelope \<Rightarrow> time \<Rightarrow> reporter_state \<Rightarrow> reporter_state" where
  "close_report report receivedAt r =
     (let ids = insert (re_reportID report) (rt_reportIDs r)
      in r\<lparr>rt_lastSequence := re_sequence report, rt_lastAcceptedAt := receivedAt,
           rt_reportIDs := (if card ids > reportIDWindowSize then {re_reportID report} else ids)\<rparr>)"

definition run_report ::
  "agg_config \<Rightarrow> report_envelope \<Rightarrow> time \<Rightarrow> apply_ctx \<Rightarrow> apply_ctx option" where
  "run_report cfg report receivedAt ctx =
     (case re_kind report of
        ReportObserverWithdrawal \<Rightarrow> fold_opt (withdraw_step cfg report receivedAt) (re_observers report) ctx
      | ReportRelaySessionUpdate \<Rightarrow> do {
          ctx1 \<leftarrow> fold_opt (observer_step cfg report receivedAt) (re_observers report) ctx;
          fold_opt (session_step cfg report receivedAt) (re_relaySessions report) ctx1
        }
      | _ \<Rightarrow> fold_opt (observer_step cfg report receivedAt) (re_observers report) ctx)"

definition ensure_reporter :: "string \<Rightarrow> agg_state \<Rightarrow> agg_state" where
  "ensure_reporter reporterID s =
     (case map_of (ag_reporters s) reporterID of
        Some _ \<Rightarrow> s | None \<Rightarrow> s\<lparr>ag_reporters := mput reporterID new_reporter (ag_reporters s)\<rparr>)"

definition needs_owner :: "report_kind \<Rightarrow> bool" where
  "needs_owner kind \<longleftrightarrow>
     kind \<noteq> ReportObserverHello \<and> kind \<noteq> ReportObserverWithdrawal \<and> kind \<noteq> ReportRelaySessionUpdate"

definition applyLocked ::
  "agg_config \<Rightarrow> report_envelope \<Rightarrow> time \<Rightarrow> agg_state \<Rightarrow> (apply_result \<times> agg_state) option" where
  "applyLocked cfg report receivedAt s0 =
     (let pruned = pruneIndexes cfg receivedAt s0; reporterID = re_reporterInstanceID report;
          s = ensure_reporter reporterID pruned;
          reporter = the (map_of (ag_reporters s) reporterID);
          gap = (rt_lastSequence reporter > 0 \<and> re_sequence report \<noteq> rt_lastSequence reporter + 1)
      in if re_reportID report \<in> rt_reportIDs reporter then Some (unchanged_result cfg True False, s)
         else if re_sequence report \<le> rt_lastSequence reporter then Some (unchanged_result cfg False False, s)
         else if needs_owner (re_kind report) \<and>
                 \<not> reporterOwnsObservers cfg reporterID (re_observers report) receivedAt s
         then Some (unchanged_result cfg False True,
                if map_of (ag_reporters pruned) reporterID = None
                then s\<lparr>ag_reporters := mdel reporterID (ag_reporters s)\<rparr> else s)
         else do {
           ctx \<leftarrow> run_report cfg report receivedAt
             \<lparr>ax_state = s, ax_touched = [], ax_traffic = [], ax_resync = gap, ax_canonical = False,
              ax_checkpoint = False\<rparr>;
           (transitions, s1) \<leftarrow> fold_opt (transition_step cfg receivedAt) (ax_touched ctx) ([], ax_state ctx);
           Some (\<lparr>ar_receipt = receipt cfg True (ax_resync ctx), ar_traffic = ax_traffic ctx,
                  ar_transitions = transitions, ar_changed = True,
                  ar_canonicalStateChanged = ax_canonical ctx, ar_checkpointRequired = ax_checkpoint ctx\<rparr>,
                 update_reporter reporterID (close_report report receivedAt) s1)
         })"

definition ApplyAt ::
  "agg_config \<Rightarrow> report_envelope \<Rightarrow> time \<Rightarrow> time \<Rightarrow> agg_state \<Rightarrow>
   (report_error + apply_result \<times> agg_state) option" where
  "ApplyAt cfg report receivedAt now s =
     (case ValidateReport report of
        Some e \<Rightarrow> Some (Inl e)
      | None \<Rightarrow> map_option Inr (applyLocked cfg report (if receivedAt = 0 then now else receivedAt) s))"

end
