(* ===== verification/Agg_Snapshot.thy ===== *)
theory Agg_Snapshot
  imports Agg_Edges Agg_Relay
begin

text \<open>
  What the aggregator shows: \<open>snapshotLocked\<close> with the time of its next change, the statuses and the
  directory's values of nodes, \<open>DeviceDirectory\<close> and \<open>HistoryMetadata\<close>
  (\<open>internal/aggregate/aggregator.go\<close>).
\<close>

record topology_node =
  tn_identity :: node_identity
  tn_id :: string
  tn_observable :: bool
  tn_online :: bool
  tn_lastEvidenceAt :: time
  tn_clockSkewed :: bool
  tn_identityStatus :: identity_status
  tn_directory :: "directory_enrichment option"

record topology =
  tp_generatedAt :: time
  tp_nextChangeAt :: "time option"
  tp_nodes :: "topology_node list"
  tp_edges :: "topology_edge list"
  tp_observers :: "observer_state_view list"

record history_metadata =
  hm_nodes :: "topology_node list"
  hm_redirects :: "(string, string) gomap"
  hm_controlNodeIDs :: "string list"

section \<open>Nodes\<close>

definition observerOnline :: "agg_config \<Rightarrow> string \<Rightarrow> node_state \<Rightarrow> time \<Rightarrow> agg_state \<Rightarrow> bool" where
  "observerOnline cfg observerID node now s \<longleftrightarrow>
     nd_observable node \<and> \<not> time_sub now (nd_lastReport node) > evidenceWindow cfg \<and>
     (case observer_at s observerID of
        None \<Rightarrow> False | Some x \<Rightarrow> ob_owner x \<noteq> [] \<and> ob_withdrawnAt x = 0)"

definition in_scope :: "string \<Rightarrow> relay_scope_state \<Rightarrow> agg_state \<Rightarrow> bool" where
  "in_scope nodeID sc s \<longleftrightarrow>
     (\<exists>i \<in> snd ` set (sc_sessions sc).
        se_sourceNodeID (ag_sessionCells s i) = nodeID \<or> se_targetNodeID (ag_sessionCells s i) = nodeID)"

definition nodeIdentityStatus :: "agg_config \<Rightarrow> string \<Rightarrow> node_state \<Rightarrow> time \<Rightarrow> agg_state \<Rightarrow> identity_status" where
  "nodeIdentityStatus cfg nodeID node now s =
     (if (case ag_directory s of Some d \<Rightarrow> strings_at (dy_identityConflicts d) nodeID \<noteq> [] | None \<Rightarrow> False)
      then IdentityConflict
      else if nd_status node = IdentityResolved then IdentityResolved
      else if \<exists>c \<in> snd ` set (ag_scopes s). conflict_active cfg now (ag_scopeCells s c) \<and>
                in_scope nodeID (ag_scopeCells s c) s then IdentityConflict
      else nd_status node)"

definition directoryDeviceForNode :: "string \<Rightarrow> agg_state \<Rightarrow> (directory_device \<times> time) option" where
  "directoryDeviceForNode nodeID s =
     (case ag_directory s of
        None \<Rightarrow> None
      | Some d \<Rightarrow>
          (case dy_snapshot d of
             None \<Rightarrow> None
           | Some snapshot \<Rightarrow>
               map_option (\<lambda>device. (device, sn_collectedAt snapshot))
                 (find (\<lambda>device. str_at (dy_canonicalIDs d) (dd_stableNodeID device) = nodeID)
                   (sn_devices snapshot))))"

definition runtime_at :: "node_state \<Rightarrow> time" where
  "runtime_at node = (if nd_identityCollectedAt node = 0 then nd_lastEvidence node else nd_identityCollectedAt node)"

definition effectiveNodeIdentity ::
  "string \<Rightarrow> node_state \<Rightarrow> agg_state \<Rightarrow> node_identity \<times> directory_enrichment option" where
  "effectiveNodeIdentity nodeID node s =
     (case directoryDeviceForNode nodeID s of
        None \<Rightarrow> (nd_identity node, None)
      | Some (device, collectedAt) \<Rightarrow>
          ((nd_identity node)\<lparr>ni_dnsName := dd_dnsName device, ni_hostname := dd_hostname device,
             ni_os := dd_os device, ni_tailscaleIPs := dd_tailscaleIPs device\<rparr>,
           Some \<lparr>de_stableNodeID = dd_stableNodeID device, de_dnsName = dd_dnsName device,
             de_hostname = dd_hostname device, de_os = dd_os device,
             de_tailscaleIPs = dd_tailscaleIPs device, de_tags = dd_tags device,
             de_connected = dd_connected device, de_lastSeen = dd_lastSeen device,
             de_collectedAt = collectedAt,
             de_conflicts = DirectoryMetadataConflicts device (nd_identity node) collectedAt (runtime_at node)\<rparr>))"

section \<open>The topology\<close>

definition edge_shown :: "agg_config \<Rightarrow> time \<Rightarrow> edge_state \<Rightarrow> bool" where
  "edge_shown cfg now e \<longleftrightarrow> \<not> time_sub now (ed_lastActive e) > evidenceWindow cfg"

definition edge_active :: "time \<Rightarrow> edge_state \<Rightarrow> bool" where
  "edge_active now e \<longleftrightarrow> time_sub now (ed_lastActive e) \<le> activeWindow \<and> edgeHasActiveObservation now e"

definition edge_view :: "agg_config \<Rightarrow> time \<Rightarrow> agg_state \<Rightarrow> edge_state \<Rightarrow> topology_edge" where
  "edge_view cfg now s e =
     (snapshotEdge cfg now e s)\<lparr>te_state := (if edge_active now e then EdgeActive else EdgeRecent)\<rparr>"

definition edge_deadlines :: "agg_config \<Rightarrow> time \<Rightarrow> edge_state \<Rightarrow> time list" where
  "edge_deadlines cfg now e =
     (if edge_active now e then [ed_lastActive e + activeWindow] else []) @
     [ed_lastActive e + evidenceWindow cfg] @
     concat (map (\<lambda>ob. [eo_receivedAt ob + activeWindow, eo_receivedAt ob + evidenceWindow cfg])
       (map snd (ed_observations e)))"

text \<open>\<open>markPeerRelayNodesVisibleLocked\<close>: the nodes a path makes visible.\<close>

definition peer_relay_nodes :: "agg_state \<Rightarrow> path_observation \<Rightarrow> string set" where
  "peer_relay_nodes s path =
     (let stableID = trim_space (po_relayStableID path); nodeID = alias_of s (''stable:'' @ stableID)
      in if po_kind path \<noteq> PathPeerRelay \<or> stableID = [] \<or> nodeID = [] then {} else {nodeID})"

definition edge_nodes :: "agg_config \<Rightarrow> time \<Rightarrow> agg_state \<Rightarrow> edge_state \<Rightarrow> string set" where
  "edge_nodes cfg now s e =
     (let shown = snapshotEdge cfg now e s
      in {ed_source e, ed_target e} \<union> peer_relay_nodes s (te_path shown) \<union>
         (\<Union>ob \<in> set (te_observations shown). peer_relay_nodes s (op_path ob)))"

definition shown_edges :: "agg_config \<Rightarrow> time \<Rightarrow> agg_state \<Rightarrow> edge_state list" where
  "shown_edges cfg now s = filter (edge_shown cfg now) (map snd (ag_edges s))"

definition visibleNodes :: "agg_config \<Rightarrow> time \<Rightarrow> agg_state \<Rightarrow> string set" where
  "visibleNodes cfg now s = (\<Union>e \<in> set (shown_edges cfg now s). edge_nodes cfg now s e)"

definition node_shown :: "agg_config \<Rightarrow> time \<Rightarrow> agg_state \<Rightarrow> string \<times> node_state \<Rightarrow> bool" where
  "node_shown cfg now s entry \<longleftrightarrow>
     fst entry \<in> visibleNodes cfg now s \<or>
     \<not> (nd_lastEvidence (snd entry) = 0 \<or> time_sub now (nd_lastEvidence (snd entry)) > nodeWindow cfg)"

definition shown_nodes :: "agg_config \<Rightarrow> time \<Rightarrow> agg_state \<Rightarrow> (string \<times> node_state) list" where
  "shown_nodes cfg now s = filter (node_shown cfg now s) (ag_nodes s)"

definition node_view :: "agg_config \<Rightarrow> time \<Rightarrow> agg_state \<Rightarrow> string \<times> node_state \<Rightarrow> topology_node" where
  "node_view cfg now s entry =
     (let (nodeID, node) = entry; (identity, directory) = effectiveNodeIdentity nodeID node s
      in \<lparr>tn_identity = identity, tn_id = nodeID, tn_observable = nd_observable node,
          tn_online = observerOnline cfg nodeID node now s, tn_lastEvidenceAt = nd_lastEvidence node,
          tn_clockSkewed = nd_clockSkewed node,
          tn_identityStatus = nodeIdentityStatus cfg nodeID node now s, tn_directory = directory\<rparr>)"

definition observable_nodes :: "agg_state \<Rightarrow> (string \<times> node_state) list" where
  "observable_nodes s = filter (\<lambda>entry. nd_observable (snd entry)) (ag_nodes s)"

definition observer_view :: "agg_config \<Rightarrow> time \<Rightarrow> agg_state \<Rightarrow> string \<times> node_state \<Rightarrow> observer_state_view" where
  "observer_view cfg now s entry =
     (let (nodeID, node) = entry
      in \<lparr>ov_id = nodeID, ov_hostname = DisplayName (fst (effectiveNodeIdentity nodeID node s)),
          ov_online = observerOnline cfg nodeID node now s, ov_lastSeen = nd_lastReport node,
          ov_lastCollectedAt = nd_lastCollected node, ov_clockSkewMS = nd_clockSkewMS node,
          ov_clockSkewed = nd_clockSkewed node\<rparr>)"

definition snapshot_deadlines :: "agg_config \<Rightarrow> time \<Rightarrow> agg_state \<Rightarrow> time list" where
  "snapshot_deadlines cfg now s =
     concat (map (edge_deadlines cfg now) (shown_edges cfg now s)) @
     map (\<lambda>entry. nd_lastEvidence (snd entry) + nodeWindow cfg) (shown_nodes cfg now s) @
     map (\<lambda>entry. nd_lastReport (snd entry) + evidenceWindow cfg)
       (filter (\<lambda>entry. observerOnline cfg (fst entry) (snd entry) now s) (observable_nodes s))"

text \<open>\<open>consider\<close>: 0 stands for the unset \<open>next\<close>.\<close>

definition consider_deadline :: "time \<Rightarrow> time \<Rightarrow> time \<Rightarrow> time" where
  "consider_deadline now deadline soonest =
     (if deadline > now \<and> (soonest = 0 \<or> deadline < soonest) then deadline else soonest)"

definition snapshot :: "agg_config \<Rightarrow> time \<Rightarrow> agg_state \<Rightarrow> topology" where
  "snapshot cfg now s =
     (let soonest = fold (consider_deadline now) (snapshot_deadlines cfg now s) 0
      in \<lparr>tp_generatedAt = now, tp_nextChangeAt = (if soonest = 0 then None else Some soonest),
          tp_nodes = sort_slice (\<lambda>a b. tn_id a < tn_id b) (map (node_view cfg now s) (shown_nodes cfg now s)),
          tp_edges = sort_slice (\<lambda>a b. te_id a < te_id b) (map (edge_view cfg now s) (shown_edges cfg now s)),
          tp_observers = sort_slice (\<lambda>a b. ov_id a < ov_id b) (map (observer_view cfg now s) (observable_nodes s))\<rparr>)"

section \<open>The device directory\<close>

definition disabled_sync :: directory_sync_state where
  "disabled_sync = \<lparr>ds_status = DirectorySyncDisabled, ds_lastAttemptAt = None, ds_lastSuccessAt = None,
     ds_nextRetryAt = None, ds_errorCode = NoDirectoryError, ds_invalidAddressCount = 0\<rparr>"

definition directory_runtime ::
  "agg_config \<Rightarrow> string \<Rightarrow> node_state \<Rightarrow> time \<Rightarrow> agg_state \<Rightarrow> directory_runtime_evidence option" where
  "directory_runtime cfg nodeID node now s =
     (if nd_lastEvidence node \<noteq> 0 \<or> nd_identityCollectedAt node \<noteq> 0 \<or> nd_observable node
      then Some \<lparr>dr_identity = nd_identity node, dr_observable = nd_observable node,
             dr_online = observerOnline cfg nodeID node now s,
             dr_lastEvidenceAt = (if nd_lastEvidence node = 0 then runtime_at node else nd_lastEvidence node),
             dr_collectedAt = runtime_at node\<rparr>
      else None)"

definition directory_entry ::
  "agg_config \<Rightarrow> time \<Rightarrow> directory_snapshot \<Rightarrow> (string, string) gomap \<Rightarrow> agg_state \<Rightarrow> directory_device \<Rightarrow>
   directory_node option" where
  "directory_entry cfg now snap canonicalIDs s device =
     (let nodeID = str_at canonicalIDs (dd_stableNodeID device)
      in case map_of (ag_nodes s) nodeID of
           None \<Rightarrow> None
         | Some node \<Rightarrow> Some
             \<lparr>dn_id = nodeID, dn_device = device, dn_collectedAt = sn_collectedAt snap,
              dn_runtime = directory_runtime cfg nodeID node now s,
              dn_identityStatus = nodeIdentityStatus cfg nodeID node now s,
              dn_conflicts = DirectoryMetadataConflicts device (nd_identity node) (sn_collectedAt snap) (runtime_at node)\<rparr>)"

definition DeviceDirectory :: "agg_config \<Rightarrow> time \<Rightarrow> agg_state \<Rightarrow> device_directory" where
  "DeviceDirectory cfg now s =
     (case ag_directory s of
        None \<Rightarrow> \<lparr>dv_sync = disabled_sync, dv_devices = []\<rparr>
      | Some d \<Rightarrow>
          \<lparr>dv_sync = dy_sync d,
           dv_devices =
             (case dy_snapshot d of
                None \<Rightarrow> []
              | Some snap \<Rightarrow>
                  List.map_filter (directory_entry cfg now snap (dy_canonicalIDs d) s) (sn_devices snap))\<rparr>)"

definition metadata_node :: "agg_config \<Rightarrow> time \<Rightarrow> agg_state \<Rightarrow> string \<times> node_state \<Rightarrow> topology_node" where
  "metadata_node cfg now s entry =
     (let (nodeID, node) = entry; (identity, directory) = effectiveNodeIdentity nodeID node s
      in \<lparr>tn_identity = identity, tn_id = nodeID, tn_observable = nd_observable node, tn_online = False,
          tn_lastEvidenceAt = nd_lastEvidence node, tn_clockSkewed = False,
          tn_identityStatus = nodeIdentityStatus cfg nodeID node now s, tn_directory = directory\<rparr>)"

definition HistoryMetadata :: "agg_config \<Rightarrow> time \<Rightarrow> agg_state \<Rightarrow> history_metadata" where
  "HistoryMetadata cfg now s =
     \<lparr>hm_nodes = sort_slice (\<lambda>a b. tn_id a < tn_id b) (map (metadata_node cfg now s) (ag_nodes s)),
      hm_redirects = ag_redirects s,
      hm_controlNodeIDs = sort (filter (\<lambda>nodeID. isControlNode cfg nodeID s) (mkeys (ag_nodes s)))\<rparr>"

end
