(* ===== verification/Agg_Directory.thy ===== *)
theory Agg_Directory
  imports Agg_Snapshot
begin

text \<open>
  The directory in the aggregator: applying a snapshot of the control plane, updating its
  synchronisation state and clearing it (\<open>ApplyDirectorySnapshot\<close>, \<open>UpdateDirectorySyncState\<close>,
  \<open>ClearDirectory\<close> in \<open>internal/aggregate/aggregator.go\<close>), and restoring a checkpoint
  (\<open>normalizeState\<close>, \<open>normalizeDirectoryState\<close>).
\<close>

section \<open>Applying a snapshot\<close>

text \<open>The node of a device, the node it conflicts with, whether it is new, whether nodes changed.\<close>

definition resolveDirectoryDevice ::
  "agg_config \<Rightarrow> directory_device \<Rightarrow> time \<Rightarrow> bool \<Rightarrow> agg_state \<Rightarrow>
   (string \<times> string \<times> bool \<times> bool \<times> agg_state) option" where
  "resolveDirectoryDevice cfg device seenAt nodeKeyConflicted s =
     (let stableAlias = ''stable:'' @ dd_stableNodeID device;
          nodeKeyAlias = ''node-key:'' @ dd_nodeKey device;
          nodeID = alias_of s stableAlias; nodeKeyID = alias_of s nodeKeyAlias;
          useKey = (dd_nodeKey device \<noteq> [] \<and> \<not> nodeKeyConflicted \<and> nodeKeyID \<noteq> []);
          conflicting = (if useKey then conflictingStableAlias (dd_stableNodeID device) nodeKeyAlias s else []);
          device_identity = no_identity\<lparr>ni_stableNodeID := dd_stableNodeID device\<rparr>
      in if useKey \<and> conflicting = [] \<and> nodeID = [] then do {
           s1 \<leftarrow> deref_node nodeKeyID
             (\<lambda>n. n\<lparr>nd_identity := mergeIdentity (nd_identity n) device_identity, nd_status := IdentityResolved\<rparr>) s;
           Some (nodeKeyID, conflicting, False, True, s1\<lparr>ag_aliases := mput stableAlias nodeKeyID (ag_aliases s1)\<rparr>)
         }
         else if nodeID = [] then do {
           (resolved, created, changed, s1) \<leftarrow> resolveIdentity cfg device_identity seenAt s;
           Some (resolved, conflicting, created, changed, s1)
         }
         else if useKey \<and> conflicting = [] \<and> nodeKeyID \<noteq> nodeID
         then Some (nodeID, conflicting, False, True, mergeNodes nodeID nodeKeyID s)
         else Some (nodeID, conflicting, False, False, s))"

text \<open>What the loop over the devices carries.\<close>

record directory_ctx =
  dx_state :: agg_state
  dx_canonicalIDs :: "(string, string) gomap"
  dx_conflicts :: "(string, string list) gomap"
  dx_canonicalChanged :: bool

definition device_step ::
  "agg_config \<Rightarrow> directory_snapshot \<Rightarrow> directory_device \<Rightarrow> directory_ctx \<Rightarrow> directory_ctx option" where
  "device_step cfg snap device ctx = do {
     let conflicted = (map_of (ConflictingNodeKeys snap) (dd_nodeKey device) \<noteq> None);
     (nodeID, conflicting, created, changed, s1) \<leftarrow>
       resolveDirectoryDevice cfg device (sn_collectedAt snap) conflicted (dx_state ctx);
     s2 \<leftarrow> (if created
            then deref_node nodeID (\<lambda>n. n\<lparr>nd_lastEvidence := 0, nd_identityCollectedAt := 0\<rparr>) s1 else Some s1);
     conflicts \<leftarrow>
       (if conflicting \<noteq> [] \<and> conflicting \<noteq> nodeID then do {
          other \<leftarrow> map_of (ag_nodes s2) conflicting;
          Some (add_conflict conflicting (dd_stableNodeID device)
            (add_conflict nodeID (ni_stableNodeID (nd_identity other)) (dx_conflicts ctx)))
        } else Some (dx_conflicts ctx));
     Some \<lparr>dx_state = s2, dx_canonicalIDs = mput (dd_stableNodeID device) nodeID (dx_canonicalIDs ctx),
           dx_conflicts = conflicts, dx_canonicalChanged = dx_canonicalChanged ctx \<or> changed\<rparr>
   }"

definition key_conflicts ::
  "(string, string) gomap \<Rightarrow> string list \<Rightarrow> (string, string list) gomap \<Rightarrow> (string, string list) gomap" where
  "key_conflicts canonicalIDs stableIDs =
     fold (\<lambda>stableID. fold (\<lambda>other. if stableID = other then id
         else add_conflict (str_at canonicalIDs stableID) other) stableIDs) stableIDs"

definition applyDirectorySnapshotLocked ::
  "agg_config \<Rightarrow> directory_snapshot \<Rightarrow> directory_sync_state \<Rightarrow> agg_state \<Rightarrow> (bool \<times> agg_state) option" where
  "applyDirectorySnapshotLocked cfg snap sync s = do {
     ctx \<leftarrow> fold_opt (device_step cfg snap) (sn_devices snap)
       \<lparr>dx_state = s, dx_canonicalIDs = [], dx_conflicts = [], dx_canonicalChanged = False\<rparr>;
     let conflicts = fold (\<lambda>(_, stableIDs). key_conflicts (dx_canonicalIDs ctx) stableIDs)
       (ConflictingNodeKeys snap) (dx_conflicts ctx);
     Some (dx_canonicalChanged ctx,
       (dx_state ctx)\<lparr>ag_directory := Some \<lparr>dy_snapshot = Some snap, dy_sync = sync,
          dy_canonicalIDs = dx_canonicalIDs ctx, dy_identityConflicts = conflicts\<rparr>\<rparr>)
   }"

text \<open>The result: whether the canonical state changed, the invalid addresses, the state.\<close>

definition ApplyDirectorySnapshot ::
  "agg_config \<Rightarrow> directory_snapshot \<Rightarrow> directory_sync_state \<Rightarrow> agg_state \<Rightarrow>
   (directory_error + bool \<times> int \<times> agg_state) option" where
  "ApplyDirectorySnapshot cfg snap sync s =
     (case NormalizeDirectorySnapshot snap of
        Inl e \<Rightarrow> Some (Inl e)
      | Inr (normalized, invalid) \<Rightarrow>
          (let sync' = sync\<lparr>ds_invalidAddressCount := invalid\<rparr>
           in case ValidateSyncState sync' of
                Some e \<Rightarrow> Some (Inl e)
              | None \<Rightarrow>
                  if ds_status sync' \<noteq> DirectorySyncHealthy then Some (Inl SnapshotNeedsHealthySync)
                  else map_option (\<lambda>(changed, s'). Inr (changed, invalid, s'))
                         (applyDirectorySnapshotLocked cfg normalized sync' s)))"

definition UpdateDirectorySyncState ::
  "directory_sync_state \<Rightarrow> agg_state \<Rightarrow> directory_error + agg_state" where
  "UpdateDirectorySyncState sync s =
     (case ValidateSyncState sync of
        Some e \<Rightarrow> Inl e
      | None \<Rightarrow>
          if ds_status sync = DirectorySyncHealthy then Inl HealthyNeedsSnapshot
          else Inr (s\<lparr>ag_directory := Some
            (case ag_directory s of
               Some d \<Rightarrow> d\<lparr>dy_sync := sync\<rparr>
             | None \<Rightarrow> \<lparr>dy_snapshot = None, dy_sync = sync, dy_canonicalIDs = [], dy_identityConflicts = []\<rparr>)\<rparr>))"

definition ClearDirectory :: "agg_state \<Rightarrow> bool \<times> agg_state" where
  "ClearDirectory s = (if ag_directory s = None then (False, s) else (True, s\<lparr>ag_directory := None\<rparr>))"

section \<open>Restoring a checkpoint\<close>

text \<open>A decoded reporter: the fields of older checkpoints beside the current ones.\<close>

record decoded_reporter =
  dc_reporter :: reporter_state
  dc_legacyInventories :: "(string, string) gomap"
  dc_legacyMemberships :: "(string, string list) gomap"

text \<open>Observer ids of a reporter, in the order the map iteration gives them.\<close>

definition adopt_observer :: "string \<Rightarrow> decoded_reporter \<Rightarrow> string \<Rightarrow> agg_state \<Rightarrow> agg_state" where
  "adopt_observer reporterID dc observerID s =
     (let (c, s1) =
            (case map_of (ag_observers s) observerID of
               Some c \<Rightarrow> (c, s)
             | None \<Rightarrow> (ag_nextCell s,
                 (put_observer (ag_nextCell s) no_observer s)
                   \<lparr>ag_observers := mput observerID (ag_nextCell s) (ag_observers s), ag_nextCell := Suc (ag_nextCell s)\<rparr>));
          ob = ag_observerCells s1 c;
          ob = (if ob_owner ob = [] then ob\<lparr>ob_owner := reporterID\<rparr> else ob)
      in if ob_owner ob \<noteq> reporterID then put_observer c ob s1
         else put_observer c
           (ob\<lparr>ob_generation := (if ob_generation ob = [] then str_at (dc_legacyInventories dc) observerID else ob_generation ob),
               ob_membership := ob_membership ob \<union> set (strings_at (dc_legacyMemberships dc) observerID)\<rparr>) s1)"

definition adopt_reporter :: "(string, decoded_reporter) gomap \<Rightarrow> string \<Rightarrow> agg_state \<Rightarrow> agg_state" where
  "adopt_reporter decoded reporterID s =
     (case map_of decoded reporterID of
        None \<Rightarrow> s
      | Some dc \<Rightarrow>
          (let ids = remdups (sorted_list_of_set (rt_observerIDs (dc_reporter dc)) @
                 mkeys (dc_legacyInventories dc) @ mkeys (dc_legacyMemberships dc));
               s1 = fold (adopt_observer reporterID dc) ids s
           in s1\<lparr>ag_reporters := mput reporterID ((dc_reporter dc)\<lparr>rt_observerIDs := {}\<rparr>) (ag_reporters s1)\<rparr>))"

definition own_observer :: "string \<Rightarrow> agg_state \<Rightarrow> agg_state" where
  "own_observer observerID s =
     (case observer_at s observerID of
        None \<Rightarrow> s
      | Some ob \<Rightarrow>
          if ob_owner ob = [] then s
          else let r = (case map_of (ag_reporters s) (ob_owner ob) of Some r \<Rightarrow> r | None \<Rightarrow> new_reporter)
               in s\<lparr>ag_reporters := mput (ob_owner ob) (r\<lparr>rt_observerIDs := insert observerID (rt_observerIDs r)\<rparr>) (ag_reporters s)\<rparr>)"

text \<open>\<open>s\<close> is the decoded state without its reporters; missing maps decode to empty ones.\<close>

definition normalizeState :: "(string, decoded_reporter) gomap \<Rightarrow> agg_state \<Rightarrow> agg_state" where
  "normalizeState decoded s =
     (let s1 = fold (adopt_reporter decoded) (sort (mkeys decoded)) (s\<lparr>ag_reporters := []\<rparr>)
      in fold own_observer (mkeys (ag_observers s1)) s1)"

datatype restore_error = RestoreDirectory directory_error | HealthyCheckpointNeedsSnapshot | UnknownCanonicalNode

definition normalizedStringsForState :: "string list \<Rightarrow> string list" where
  "normalizedStringsForState values = fold (\<lambda>v acc. appendUniqueSorted acc (trim_space v)) values []"

text \<open>The canonical ids of the devices, completed from the aliases.\<close>

fun complete_canonical ::
  "agg_state \<Rightarrow> directory_device list \<Rightarrow> (string, string) gomap \<Rightarrow> restore_error + (string, string) gomap" where
  "complete_canonical s [] ids = Inr ids"
| "complete_canonical s (device # rest) ids =
     (let known = str_at ids (dd_stableNodeID device);
          nodeID = (if known = [] then alias_of s (''stable:'' @ dd_stableNodeID device) else known);
          ids' = (if known = [] then mput (dd_stableNodeID device) nodeID ids else ids)
      in if nodeID = [] \<or> map_of (ag_nodes s) nodeID = None then Inl UnknownCanonicalNode
         else complete_canonical s rest ids')"

definition normalizeDirectoryState :: "agg_state \<Rightarrow> restore_error + agg_state" where
  "normalizeDirectoryState s =
     (case ag_directory s of
        None \<Rightarrow> Inr s
      | Some d \<Rightarrow>
          (case ValidateSyncState (dy_sync d) of
             Some e \<Rightarrow> Inl (RestoreDirectory e)
           | None \<Rightarrow>
               (case dy_snapshot d of
                  None \<Rightarrow> if ds_status (dy_sync d) = DirectorySyncHealthy then Inl HealthyCheckpointNeedsSnapshot else Inr s
                | Some snap \<Rightarrow>
                    (case NormalizeDirectorySnapshot snap of
                       Inl e \<Rightarrow> Inl (RestoreDirectory e)
                     | Inr (normalized, _) \<Rightarrow>
                         (case complete_canonical s (sn_devices normalized) (dy_canonicalIDs d) of
                            Inl e \<Rightarrow> Inl e
                          | Inr ids \<Rightarrow>
                              Inr (s\<lparr>ag_directory := Some (d\<lparr>dy_snapshot := Some normalized, dy_canonicalIDs := ids,
                                dy_identityConflicts :=
                                  mapv (\<lambda>_. normalizedStringsForState)
                                    (keep_if (\<lambda>nodeID _. map_of (ag_nodes s) nodeID \<noteq> None) (dy_identityConflicts d))\<rparr>)\<rparr>))))))"

definition RestoreState :: "(string, decoded_reporter) gomap \<Rightarrow> agg_state \<Rightarrow> restore_error + agg_state" where
  "RestoreState decoded s = normalizeDirectoryState (normalizeState decoded s)"

end
