(* ===== verification/Agg_Invariants.thy ===== *)
theory Agg_Invariants
  imports Agg_Apply Agg_Directory
begin

text \<open>
  The invariant of the aggregator's state and that its operations keep it: aliases point to live
  nodes, redirects go from dead nodes straight to live ones, observers are live nodes with objects of
  their own, an edge stands under the id of its endpoints, and a reporter's list of observers is the
  list of the observers it owns.
\<close>

section \<open>The invariant\<close>

named_theorems agg_frame \<open>what an operation leaves alone\<close>

definition node_ids :: "agg_state \<Rightarrow> string set" where
  "node_ids s = dom (map_of (ag_nodes s))"

definition aliases_ok :: "agg_state \<Rightarrow> bool" where
  "aliases_ok s \<longleftrightarrow> (\<forall>a n. map_of (ag_aliases s) a = Some n \<longrightarrow> n \<in> node_ids s)"

definition redirects_ok :: "agg_state \<Rightarrow> bool" where
  "redirects_ok s \<longleftrightarrow>
     (\<forall>n t. map_of (ag_redirects s) n = Some t \<longrightarrow> n \<notin> node_ids s \<and> t \<in> node_ids s)"

definition distinct_cells :: "agg_state \<Rightarrow> bool" where
  "distinct_cells s \<longleftrightarrow> wf_map (ag_observers s) \<and>
     (\<forall>i j c. map_of (ag_observers s) i = Some c \<longrightarrow> map_of (ag_observers s) j = Some c \<longrightarrow> i = j)"

definition observers_ok :: "agg_state \<Rightarrow> bool" where
  "observers_ok s \<longleftrightarrow> distinct_cells s \<and>
     (\<forall>i c. map_of (ag_observers s) i = Some c \<longrightarrow> i \<in> node_ids s \<and> c < ag_nextCell s)"

definition edge_ok :: "string \<Rightarrow> edge_state \<Rightarrow> bool" where
  "edge_ok k e \<longleftrightarrow>
     EdgeID (ed_source e) (ed_target e) = (k, ed_source e, ed_target e) \<and> ed_id e = k \<and>
     wf_map (ed_observations e) \<and>
     (\<forall>i ob. map_of (ed_observations e) i = Some ob \<longrightarrow> eo_observerID ob = i)"

definition edges_ok :: "agg_state \<Rightarrow> bool" where
  "edges_ok s \<longleftrightarrow> wf_map (ag_edges s) \<and> (\<forall>k e. map_of (ag_edges s) k = Some e \<longrightarrow> edge_ok k e)"

definition owners_ok :: "agg_state \<Rightarrow> bool" where
  "owners_ok s \<longleftrightarrow>
     map_of (ag_reporters s) [] = None \<and>
     (\<forall>r rep i. map_of (ag_reporters s) r = Some rep \<longrightarrow>
        (i \<in> rt_observerIDs rep \<longleftrightarrow> (\<exists>ob. observer_at s i = Some ob \<and> ob_owner ob = r))) \<and>
     (\<forall>i ob. observer_at s i = Some ob \<longrightarrow> ob_owner ob \<noteq> [] \<longrightarrow> map_of (ag_reporters s) (ob_owner ob) \<noteq> None)"

text \<open>Node ids the source still has to hand out are new; no node has the empty id.\<close>

definition ids_ok :: "agg_config \<Rightarrow> agg_state \<Rightarrow> bool" where
  "ids_ok cfg s \<longleftrightarrow> [] \<notin> node_ids s \<and> wf_map (ag_nodes s) \<and>
     (\<forall>n \<ge> ag_usedIDs s. cf_newNodeID cfg n \<notin> node_ids s \<union> dom (map_of (ag_redirects s)))"

text \<open>The source of node ids: never empty, never the same twice.\<close>

definition good_source :: "agg_config \<Rightarrow> bool" where
  "good_source cfg \<longleftrightarrow> inj (cf_newNodeID cfg) \<and> (\<forall>n. cf_newNodeID cfg n \<noteq> [])"

definition agg_inv :: "agg_config \<Rightarrow> agg_state \<Rightarrow> bool" where
  "agg_inv cfg s \<longleftrightarrow> aliases_ok s \<and> redirects_ok s \<and> observers_ok s \<and> edges_ok s \<and> owners_ok s \<and> ids_ok cfg s"

lemmas agg_inv_parts = aliases_ok_def redirects_ok_def observers_ok_def distinct_cells_def edges_ok_def owners_ok_def ids_ok_def

text \<open>Ids that are or were a node's.\<close>

definition known_ids :: "agg_state \<Rightarrow> string set" where
  "known_ids s = node_ids s \<union> dom (map_of (ag_redirects s))"

lemma agg_inv_empty: "good_source cfg \<Longrightarrow> agg_inv cfg newRuntimeState"
  by (simp add: agg_inv_def agg_inv_parts node_ids_def newRuntimeState_def observer_at_def)

text \<open>The invariant reads these fields only; cells may be allocated for other objects.\<close>

lemma agg_inv_frame:
  assumes "agg_inv cfg s"
    and "ag_reporters s' = ag_reporters s" "ag_observers s' = ag_observers s" "ag_nodes s' = ag_nodes s"
      "ag_aliases s' = ag_aliases s" "ag_redirects s' = ag_redirects s" "ag_edges s' = ag_edges s"
      "ag_observerCells s' = ag_observerCells s" "ag_usedIDs s' = ag_usedIDs s" "ag_nextCell s \<le> ag_nextCell s'"
  shows "agg_inv cfg s'"
  using assms unfolding agg_inv_def agg_inv_parts node_ids_def observer_at_def
  by auto (metis less_le_trans)

section \<open>Aliases\<close>

lemma alias_of_live: "agg_inv cfg s \<Longrightarrow> alias_of s a \<noteq> [] \<Longrightarrow> alias_of s a \<in> node_ids s"
  by (auto simp: agg_inv_def aliases_ok_def alias_of_def str_at_def split: option.splits)

lemma no_empty_node: "agg_inv cfg s \<Longrightarrow> [] \<notin> node_ids s"
  by (simp add: agg_inv_def ids_ok_def)

lemma live_node: "n \<in> node_ids s \<Longrightarrow> \<exists>x. map_of (ag_nodes s) n = Some x"
  by (auto simp: node_ids_def)

section \<open>Updating a node\<close>

lemma put_node_fields [simp]:
  "ag_reporters (put_node n x s) = ag_reporters s" "ag_observers (put_node n x s) = ag_observers s"
  "ag_aliases (put_node n x s) = ag_aliases s" "ag_redirects (put_node n x s) = ag_redirects s"
  "ag_edges (put_node n x s) = ag_edges s" "ag_observerCells (put_node n x s) = ag_observerCells s"
  "ag_usedIDs (put_node n x s) = ag_usedIDs s" "ag_nextCell (put_node n x s) = ag_nextCell s"
  "ag_scopes (put_node n x s) = ag_scopes s" "ag_directory (put_node n x s) = ag_directory s"
  "ag_nodes (put_node n x s) = mput n x (ag_nodes s)"
  by (simp_all add: put_node_def)

lemma node_ids_put_node [simp]: "node_ids (put_node n x s) = insert n (node_ids s)"
  by (auto simp: node_ids_def)

lemma put_node_inv: "agg_inv cfg s \<Longrightarrow> n \<in> node_ids s \<Longrightarrow> agg_inv cfg (put_node n x s)"
  unfolding agg_inv_def agg_inv_parts by (auto simp: insert_absorb observer_at_def)

lemma update_node_inv: "agg_inv cfg s \<Longrightarrow> agg_inv cfg (update_node n f s)"
  by (auto simp: update_node_def node_ids_def intro!: put_node_inv split: option.splits)

lemma update_node_frame [simp]:
  "node_ids (update_node n f s) = node_ids s" "ag_redirects (update_node n f s) = ag_redirects s"
  "ag_aliases (update_node n f s) = ag_aliases s" "ag_observers (update_node n f s) = ag_observers s"
  "ag_edges (update_node n f s) = ag_edges s" "ag_observerCells (update_node n f s) = ag_observerCells s"
  "ag_reporters (update_node n f s) = ag_reporters s" "ag_usedIDs (update_node n f s) = ag_usedIDs s"
  "ag_nextCell (update_node n f s) = ag_nextCell s"
  by (auto simp: update_node_def node_ids_def split: option.splits)

lemma deref_node_Some:
  "deref_node n f s = Some s' \<Longrightarrow> n \<in> node_ids s \<and> s' = update_node n f s"
  by (auto simp: deref_node_def update_node_def node_ids_def split: option.splits)

lemma deref_node_live: "n \<in> node_ids s \<Longrightarrow> deref_node n f s = Some (update_node n f s)"
  by (auto simp: deref_node_def update_node_def node_ids_def)
section \<open>Merging two nodes\<close>

lemma rename_members_frame [simp]:
  "ag_reporters (rename_members k r s) = ag_reporters s" "ag_observers (rename_members k r s) = ag_observers s"
  "ag_nodes (rename_members k r s) = ag_nodes s" "ag_aliases (rename_members k r s) = ag_aliases s"
  "ag_redirects (rename_members k r s) = ag_redirects s" "ag_edges (rename_members k r s) = ag_edges s"
  "ag_usedIDs (rename_members k r s) = ag_usedIDs s" "ag_nextCell (rename_members k r s) = ag_nextCell s"
  by (simp_all add: rename_members_def)

lemma merge_observer_cells_frame [simp]:
  "ag_reporters (merge_observer_cells k r b s) = ag_reporters s" "ag_nodes (merge_observer_cells k r b s) = ag_nodes s"
  "ag_aliases (merge_observer_cells k r b s) = ag_aliases s" "ag_redirects (merge_observer_cells k r b s) = ag_redirects s"
  "ag_edges (merge_observer_cells k r b s) = ag_edges s" "ag_usedIDs (merge_observer_cells k r b s) = ag_usedIDs s"
  "ag_nextCell (merge_observer_cells k r b s) = ag_nextCell s"
  by (simp_all add: merge_observer_cells_def put_observer_def Let_def split: option.splits)

lemma rewrite_reporters_frame [simp]:
  "ag_observers (rewrite_reporters k r s) = ag_observers s" "ag_nodes (rewrite_reporters k r s) = ag_nodes s"
  "ag_aliases (rewrite_reporters k r s) = ag_aliases s" "ag_redirects (rewrite_reporters k r s) = ag_redirects s"
  "ag_edges (rewrite_reporters k r s) = ag_edges s" "ag_usedIDs (rewrite_reporters k r s) = ag_usedIDs s"
  "ag_nextCell (rewrite_reporters k r s) = ag_nextCell s"
  "ag_observerCells (rewrite_reporters k r s) = ag_observerCells s"
  by (simp_all add: rewrite_reporters_def Let_def)

lemma rename_members_observer:
  "observer_at (rename_members k r s) i =
     map_option (\<lambda>ob. ob\<lparr>ob_membership := rename_in_set k r (ob_membership ob)\<rparr>) (observer_at s i)"
proof (cases "map_of (ag_observers s) i")
  case (Some c)
  then have "c \<in> snd ` set (ag_observers s)" by (metis image_eqI map_of_SomeD snd_conv)
  with Some show ?thesis by (simp add: observer_at_def rename_members_def)
qed (simp add: observer_at_def)

text \<open>The observer that survives the merge of \<open>r\<close> into \<open>k\<close>.\<close>

definition merged_observer :: "bool \<Rightarrow> observer_state option \<Rightarrow> observer_state option \<Rightarrow> observer_state option" where
  "merged_observer removeIsNewer keep remove =
     (case (keep, remove) of
        (Some k, Some r) \<Rightarrow>
          let joined = k\<lparr>ob_membership := ob_membership k \<union> ob_membership r\<rparr>
          in Some (if removeIsNewer \<or> ob_owner k = []
                   then joined\<lparr>ob_owner := ob_owner r, ob_generation := ob_generation r, ob_withdrawnAt := ob_withdrawnAt r\<rparr>
                   else joined)
      | (Some k, None) \<Rightarrow> Some k
      | (None, r) \<Rightarrow> r)"

lemma merge_observer_cells_at:
  assumes "distinct_cells s" "k \<noteq> r"
  shows "observer_at (merge_observer_cells k r b s) i =
    (if i = r then None
     else if i = k then merged_observer b (observer_at s k) (observer_at s r) else observer_at s i)"
proof -
  have inj: "map_of (ag_observers s) i = Some c \<Longrightarrow> map_of (ag_observers s) k = Some c \<Longrightarrow> i = k" for c
    using assms(1) unfolding distinct_cells_def by blast
  show ?thesis
    using assms(2) inj
    by (cases "map_of (ag_observers s) k"; cases "map_of (ag_observers s) r"; cases "map_of (ag_observers s) i")
       (auto simp: merge_observer_cells_def observer_at_def put_observer_def Let_def merged_observer_def)
qed

lemma merge_observer_cells_observers:
  "ag_observers (merge_observer_cells k r b s) =
    (if map_of (ag_observers s) k = None \<and> map_of (ag_observers s) r \<noteq> None
     then mdel r (mput k (the (map_of (ag_observers s) r)) (ag_observers s)) else mdel r (ag_observers s))"
  by (auto simp: merge_observer_cells_def put_observer_def Let_def split: option.splits)

lemma merge_observer_cells_distinct:
  "distinct_cells s \<Longrightarrow> distinct_cells (merge_observer_cells k r b s)"
  unfolding distinct_cells_def merge_observer_cells_observers by (auto split: if_splits)

lemma merge_observer_cells_live:
  assumes "k \<noteq> r" "map_of (ag_observers (merge_observer_cells k r b s)) i = Some c"
  shows "i \<noteq> r \<and> (i = k \<or> map_of (ag_observers s) i \<noteq> None) \<and> (\<exists>j. map_of (ag_observers s) j = Some c)"
  using assms unfolding merge_observer_cells_observers by (auto split: if_splits)

lemma merged_owner:
  "merged_observer b x y = Some ob \<Longrightarrow>
     (\<exists>x'. x = Some x' \<and> ob_owner ob = ob_owner x') \<or> (\<exists>y'. y = Some y' \<and> ob_owner ob = ob_owner y')"
  by (auto simp: merged_observer_def Let_def split: option.splits if_splits)

lemma rewrite_reporters_at:
  "map_of (ag_reporters (rewrite_reporters k r s)) q =
     map_option (\<lambda>rep. rep\<lparr>rt_observerIDs := rt_observerIDs rep - {k, r} \<union>
        (if q \<noteq> [] \<and> (\<exists>ob. observer_at s k = Some ob \<and> ob_owner ob = q) then {k} else {})\<rparr>) (map_of (ag_reporters s) q)"
  by (cases "map_of (ag_reporters s) q"; cases "observer_at s k")
     (auto simp: rewrite_reporters_def Let_def split: option.splits)

lemma mergeObserver_owners:
  assumes "distinct_cells s" "owners_ok s" "k \<noteq> r"
  shows "owners_ok (mergeObserverRuntimeStates k r b s)"
proof -
  define s1 where "s1 = rename_members k r (merge_observer_cells k r b s)"
  have at: "observer_at s1 i = map_option (\<lambda>ob. ob\<lparr>ob_membership := rename_in_set k r (ob_membership ob)\<rparr>)
      (if i = r then None else if i = k then merged_observer b (observer_at s k) (observer_at s r)
       else observer_at s i)" for i
    unfolding s1_def rename_members_observer merge_observer_cells_at [OF assms(1,3)] ..
  have at': "observer_at (rewrite_reporters k r s1) i = observer_at s1 i" for i
    by (simp add: observer_at_def)
  have rep: "ag_reporters s1 = ag_reporters s" by (simp add: s1_def)
  have nil: "map_of (ag_reporters s) [] = None"
    and own: "\<And>q rep i. map_of (ag_reporters s) q = Some rep \<Longrightarrow>
        (i \<in> rt_observerIDs rep) = (\<exists>ob. observer_at s i = Some ob \<and> ob_owner ob = q)"
    and known: "\<And>i ob. observer_at s i = Some ob \<Longrightarrow> ob_owner ob \<noteq> [] \<Longrightarrow> map_of (ag_reporters s) (ob_owner ob) \<noteq> None"
    using assms(2) unfolding owners_ok_def by blast+
  have known1: "map_of (ag_reporters s) (ob_owner ob) \<noteq> None"
    if o: "observer_at s1 i = Some ob" and n: "ob_owner ob \<noteq> []" for i ob
  proof -
    obtain ob0 where ob0: "ob_owner ob0 = ob_owner ob"
      "(if i = r then None else if i = k then merged_observer b (observer_at s k) (observer_at s r)
        else observer_at s i) = Some ob0"
      using o unfolding at by (auto split: if_splits)
    then have "\<exists>j x. observer_at s j = Some x \<and> ob_owner x = ob_owner ob"
      using merged_owner [of b "observer_at s k" "observer_at s r" ob0] by (auto split: if_splits) blast+
    then show ?thesis using known n by metis
  qed
  have "map_of (ag_reporters (rewrite_reporters k r s1)) [] = None"
    by (simp add: rewrite_reporters_at rep nil)
  moreover have "(i \<in> rt_observerIDs rp) = (\<exists>ob. observer_at (rewrite_reporters k r s1) i = Some ob \<and> ob_owner ob = q)"
    if look: "map_of (ag_reporters (rewrite_reporters k r s1)) q = Some rp" for q rp i
  proof -
    obtain rep0 where r0: "map_of (ag_reporters s) q = Some rep0"
      "rp = rep0\<lparr>rt_observerIDs := rt_observerIDs rep0 - {k, r} \<union>
        (if q \<noteq> [] \<and> (\<exists>ob. observer_at s1 k = Some ob \<and> ob_owner ob = q) then {k} else {})\<rparr>"
      using look unfolding rewrite_reporters_at rep by auto
    have "q \<noteq> []" using r0(1) nil by auto
    consider "i = r" | "i = k" "i \<noteq> r" | "i \<noteq> k" "i \<noteq> r" by blast
    then show ?thesis
    proof cases
      case 1
      then show ?thesis using r0 assms(3) unfolding at' by (simp add: at)
    next
      case 2
      then show ?thesis using r0 \<open>q \<noteq> []\<close> unfolding at' by simp
    next
      case 3
      then show ?thesis using r0 own [OF r0(1)] unfolding at' by (auto simp: at)
    qed
  qed
  moreover have "map_of (ag_reporters (rewrite_reporters k r s1)) (ob_owner ob) \<noteq> None"
    if "observer_at (rewrite_reporters k r s1) i = Some ob" "ob_owner ob \<noteq> []" for i ob
    using known1 that unfolding at' rewrite_reporters_at rep by simp
  ultimately show ?thesis
    unfolding owners_ok_def mergeObserverRuntimeStates_def s1_def [symmetric] by blast
qed

lemma mergeObserver_frame [simp]:
  "ag_nodes (mergeObserverRuntimeStates k r b s) = ag_nodes s" "ag_aliases (mergeObserverRuntimeStates k r b s) = ag_aliases s"
  "ag_redirects (mergeObserverRuntimeStates k r b s) = ag_redirects s" "ag_edges (mergeObserverRuntimeStates k r b s) = ag_edges s"
  "ag_usedIDs (mergeObserverRuntimeStates k r b s) = ag_usedIDs s" "ag_nextCell (mergeObserverRuntimeStates k r b s) = ag_nextCell s"
  by (simp_all add: mergeObserverRuntimeStates_def)

lemma rename_id_other [simp]: "n \<noteq> r \<Longrightarrow> rename_id k r n = n" "rename_id k r r = k"
  by (simp_all add: rename_id_def)

lemma EdgeID_canonical: "EdgeID a b = (i, s, t) \<Longrightarrow> EdgeID s t = (i, s, t)"
  by (auto simp: EdgeID_def split: if_splits)

lemma wf_fold_rebuild_observation:
  "wf_map m \<Longrightarrow> wf_map (fold (rebuild_observation k r) es m)"
  by (rule fold_inv) (auto simp: rebuild_observation_def Let_def split: option.splits prod.splits)

lemma rebuild_observation_keyed:
  assumes "\<forall>i ob. map_of m i = Some ob \<longrightarrow> eo_observerID ob = i"
    and "\<forall>(i, ob) \<in> set es. eo_observerID ob = i"
  shows "\<forall>i ob. map_of (fold (rebuild_observation k r) es m) i = Some ob \<longrightarrow> eo_observerID ob = i"
  by (rule fold_inv [where P = "\<lambda>m. \<forall>i ob. map_of m i = Some ob \<longrightarrow> eo_observerID ob = i"])
     (use assms in \<open>auto simp: rebuild_observation_def rename_id_def Let_def split: option.splits prod.splits if_splits\<close>)

lemma edge_ok_new: "EdgeID a b = (i, s, t) \<Longrightarrow> edge_ok i (new_edge i s t)"
  by (auto simp: edge_ok_def new_edge_def dest: EdgeID_canonical)

lemma edge_ok_absorb:
  assumes c: "edge_ok i current" and e: "edge_ok j edge"
  shows "edge_ok i (absorb_edge k r edge current)"
proof -
  define obs where "obs = fold (rebuild_observation k r) (ed_observations edge) (ed_observations current)"
  have keyed: "\<forall>(i, ob) \<in> set (ed_observations edge). eo_observerID ob = i"
    using e unfolding edge_ok_def by (auto simp: map_of_wf)
  have "wf_map obs"
    using c unfolding obs_def edge_ok_def by (intro wf_fold_rebuild_observation) blast
  moreover have "\<forall>i ob. map_of obs i = Some ob \<longrightarrow> eo_observerID ob = i"
    using c keyed unfolding obs_def edge_ok_def by (intro rebuild_observation_keyed) blast+
  moreover have "ed_id (absorb_edge k r edge current) = ed_id current"
    "ed_source (absorb_edge k r edge current) = ed_source current"
    "ed_target (absorb_edge k r edge current) = ed_target current"
    "ed_observations (absorb_edge k r edge current) = obs"
    by (simp_all add: absorb_edge_def Let_def obs_def)
  ultimately show ?thesis using c unfolding edge_ok_def by simp
qed

lemma rebuildEdges_ok:
  assumes "edges_ok s"
  shows "edges_ok (rebuildEdges k r s)"
proof -
  have old: "\<exists>j. edge_ok j e" if "e \<in> set (map snd (ag_edges s))" for e
    using that assms unfolding edges_ok_def by (auto simp: map_of_wf) blast
  have "wf_map (fold (rebuild_edge k r) (map snd (ag_edges s)) []) \<and>
    (\<forall>i e. map_of (fold (rebuild_edge k r) (map snd (ag_edges s)) []) i = Some e \<longrightarrow> edge_ok i e)"
  proof (rule fold_inv [where P = "\<lambda>m. wf_map m \<and> (\<forall>i e. map_of m i = Some e \<longrightarrow> edge_ok i e)"], goal_cases)
    case (2 e m)
    obtain j where j: "edge_ok j e" using old [OF 2(1)] by blast
    show ?case
      using 2 by (auto simp: rebuild_edge_def Let_def split: prod.splits option.splits
          intro!: edge_ok_absorb [OF _ j] dest: edge_ok_new)
  qed simp
  then show ?thesis by (simp add: edges_ok_def rebuildEdges_def)
qed

lemma rebuildEdges_frame [simp]:
  "ag_reporters (rebuildEdges k r s) = ag_reporters s" "ag_observers (rebuildEdges k r s) = ag_observers s"
  "ag_nodes (rebuildEdges k r s) = ag_nodes s" "ag_aliases (rebuildEdges k r s) = ag_aliases s"
  "ag_redirects (rebuildEdges k r s) = ag_redirects s" "ag_observerCells (rebuildEdges k r s) = ag_observerCells s"
  "ag_usedIDs (rebuildEdges k r s) = ag_usedIDs s" "ag_nextCell (rebuildEdges k r s) = ag_nextCell s"
  by (simp_all add: rebuildEdges_def)

text \<open>Relay references and the directory are outside the invariant.\<close>

definition same_core :: "agg_state \<Rightarrow> agg_state \<Rightarrow> bool" where
  "same_core s s' \<longleftrightarrow>
     ag_reporters s' = ag_reporters s \<and> ag_observers s' = ag_observers s \<and> ag_nodes s' = ag_nodes s \<and>
     ag_aliases s' = ag_aliases s \<and> ag_redirects s' = ag_redirects s \<and> ag_edges s' = ag_edges s \<and>
     ag_observerCells s' = ag_observerCells s \<and> ag_usedIDs s' = ag_usedIDs s \<and> ag_nextCell s \<le> ag_nextCell s'"

lemma same_core_refl [simp]: "same_core s s"
  by (simp add: same_core_def)

lemma same_core_trans: "same_core s t \<Longrightarrow> same_core t u \<Longrightarrow> same_core s u"
  by (auto simp: same_core_def)

lemma same_core_inv: "same_core s s' \<Longrightarrow> agg_inv cfg s \<Longrightarrow> agg_inv cfg s'"
  by (auto simp: same_core_def intro: agg_inv_frame)

lemma same_core_ids: "same_core s s' \<Longrightarrow> node_ids s' = node_ids s \<and> known_ids s' = known_ids s"
  by (simp add: same_core_def node_ids_def known_ids_def)

lemma put_scope_core [simp]: "same_core s (put_scope c sc s)"
  by (simp add: same_core_def put_scope_def)

lemma put_session_core [simp]: "same_core s (put_session c se s)"
  by (simp add: same_core_def put_session_def)

lemma rename_scope_cell_core [simp]: "same_core s (rename_scope_cell k r c s)"
  by (simp add: same_core_def rename_scope_cell_def Let_def put_scope_def)

lemma replaceRelay_core [simp]: "same_core s (replaceRelayNodeReferences k r s)"
proof -
  have "same_core s (fst (fold (replace_scope_step k r) (map snd (ag_scopes s)) (s, [])))"
  proof (rule fold_inv [where P = "\<lambda>acc. same_core s (fst acc)"], goal_cases)
    case (2 c acc)
    then show ?case
      by (auto simp: replace_scope_step_def Let_def split: option.splits
          intro: same_core_trans [OF same_core_trans, OF _ rename_scope_cell_core put_scope_core]
            same_core_trans [OF _ rename_scope_cell_core])
  qed simp
  then show ?thesis
    by (auto simp: replaceRelayNodeReferences_def same_core_def split: prod.splits)
qed

lemma replaceDirectory_core [simp]: "same_core s (replaceDirectoryNodeReferences k r s)"
  by (auto simp: replaceDirectoryNodeReferences_def same_core_def Let_def split: option.splits)

definition mergeable :: "string \<Rightarrow> string \<Rightarrow> agg_state \<Rightarrow> bool" where
  "mergeable k r s \<longleftrightarrow> k \<in> node_ids s \<and> r \<in> node_ids s \<and> k \<noteq> r"

lemma mergeNodes_skip: "\<not> mergeable k r s \<Longrightarrow> mergeNodes k r s = s"
  by (auto simp: mergeNodes_def mergeable_def node_ids_def split: option.splits)

text \<open>The core of a merge: the fields of the invariant after it.\<close>

lemma mergeNodes_core:
  assumes "mergeable k r s"
  obtains n b where "same_core
    (rebuildEdges k r (mergeObserverRuntimeStates k r b
      (s\<lparr>ag_nodes := mdel r (mput k n (ag_nodes s)),
         ag_redirects := mput r k (mapv (\<lambda>_. rename_id k r) (ag_redirects s)),
         ag_aliases := mapv (\<lambda>_. rename_id k r) (ag_aliases s)\<rparr>)))
    (mergeNodes k r s)"
proof -
  from assms obtain x y where xy: "map_of (ag_nodes s) k = Some x" "map_of (ag_nodes s) r = Some y" "k \<noteq> r"
    by (auto simp: mergeable_def node_ids_def)
  show thesis
    by (rule that [of "nd_lastReport x < nd_lastReport y" "merge_node_records x y"])
       (simp add: mergeNodes_def xy Let_def same_core_trans [OF replaceRelay_core replaceDirectory_core])
qed

lemma mergeNodes_ids:
  assumes "mergeable k r s"
  shows "node_ids (mergeNodes k r s) = node_ids s - {r}"
    and "known_ids (mergeNodes k r s) = known_ids s"
    and "ag_usedIDs (mergeNodes k r s) = ag_usedIDs s"
    and "map_of (ag_redirects (mergeNodes k r s)) =
           (\<lambda>n. map_option (rename_id k r) (map_of (ag_redirects s) n))(r \<mapsto> k)"
    and "map_of (ag_aliases (mergeNodes k r s)) = (\<lambda>a. map_option (rename_id k r) (map_of (ag_aliases s) a))"
proof -
  obtain n b where core: "same_core
    (rebuildEdges k r (mergeObserverRuntimeStates k r b
      (s\<lparr>ag_nodes := mdel r (mput k n (ag_nodes s)),
         ag_redirects := mput r k (mapv (\<lambda>_. rename_id k r) (ag_redirects s)),
         ag_aliases := mapv (\<lambda>_. rename_id k r) (ag_aliases s)\<rparr>)))
    (mergeNodes k r s)"
    using assms by (rule mergeNodes_core)
  then have f: "ag_nodes (mergeNodes k r s) = mdel r (mput k n (ag_nodes s))"
    "ag_redirects (mergeNodes k r s) = mput r k (mapv (\<lambda>_. rename_id k r) (ag_redirects s))"
    "ag_aliases (mergeNodes k r s) = mapv (\<lambda>_. rename_id k r) (ag_aliases s)"
    "ag_usedIDs (mergeNodes k r s) = ag_usedIDs s"
    by (simp_all add: same_core_def)
  show ids: "node_ids (mergeNodes k r s) = node_ids s - {r}"
    using assms f(1) by (auto simp: node_ids_def mergeable_def)
  show "known_ids (mergeNodes k r s) = known_ids s"
    using assms f(1,2) by (auto simp: known_ids_def node_ids_def mergeable_def dom_def)
  show "ag_usedIDs (mergeNodes k r s) = ag_usedIDs s" by (rule f(4))
  show "map_of (ag_redirects (mergeNodes k r s)) =
      (\<lambda>n. map_option (rename_id k r) (map_of (ag_redirects s) n))(r \<mapsto> k)"
    using f(2) by (auto simp: fun_eq_iff)
  show "map_of (ag_aliases (mergeNodes k r s)) = (\<lambda>a. map_option (rename_id k r) (map_of (ag_aliases s) a))"
    using f(3) by (auto simp: fun_eq_iff)
qed

lemma mergeNodes_inv:
  assumes inv: "agg_inv cfg s"
  shows "agg_inv cfg (mergeNodes k r s)"
proof (cases "mergeable k r s")
  case True
  then obtain n b where core: "same_core
    (rebuildEdges k r (mergeObserverRuntimeStates k r b
      (s\<lparr>ag_nodes := mdel r (mput k n (ag_nodes s)),
         ag_redirects := mput r k (mapv (\<lambda>_. rename_id k r) (ag_redirects s)),
         ag_aliases := mapv (\<lambda>_. rename_id k r) (ag_aliases s)\<rparr>)))
    (mergeNodes k r s)" (is "same_core (rebuildEdges k r (mergeObserverRuntimeStates k r b ?s1)) _")
    by (rule mergeNodes_core)
  let ?s2 = "mergeObserverRuntimeStates k r b ?s1"
  have live: "k \<in> node_ids s" "r \<in> node_ids s" "k \<noteq> r" using True by (simp_all add: mergeable_def)
  have ids: "node_ids ?s2 = node_ids s - {r}" using live by (auto simp: node_ids_def)
  have parts: "distinct_cells s" "owners_ok s" "edges_ok s" "ids_ok cfg s" "aliases_ok s" "redirects_ok s"
    "\<And>i c. map_of (ag_observers s) i = Some c \<Longrightarrow> i \<in> node_ids s \<and> c < ag_nextCell s"
    using inv unfolding agg_inv_def observers_ok_def by blast+
  have d1: "distinct_cells ?s1" and w1: "owners_ok ?s1"
    using parts(1,2) by (simp_all add: distinct_cells_def owners_ok_def observer_at_def)
  have obs2: "ag_observers ?s2 = ag_observers (merge_observer_cells k r b ?s1)"
    by (simp add: mergeObserverRuntimeStates_def)
  have obs1: "ag_observers ?s1 = ag_observers s" "ag_nextCell ?s2 = ag_nextCell s" by simp_all
  have "distinct_cells ?s2"
    using merge_observer_cells_distinct [OF d1, of k r b] unfolding distinct_cells_def obs2 .
  moreover have "i \<in> node_ids ?s2 \<and> c < ag_nextCell ?s2" if "map_of (ag_observers ?s2) i = Some c" for i c
    using merge_observer_cells_live [OF live(3) that [unfolded obs2]] live parts(7)
    unfolding ids obs1 by blast
  ultimately have "observers_ok ?s2" unfolding observers_ok_def by blast
  moreover have "owners_ok ?s2" by (rule mergeObserver_owners [OF d1 w1 live(3)])
  moreover have "edges_ok (rebuildEdges k r ?s2)"
    using parts(3) by (intro rebuildEdges_ok) (simp add: edges_ok_def)
  moreover have "aliases_ok ?s2" "redirects_ok ?s2"
    using parts(5,6) live unfolding aliases_ok_def redirects_ok_def ids by (auto simp: rename_id_def)
  moreover have "ids_ok cfg ?s2"
    using parts(4) live unfolding ids_ok_def ids by (auto simp: node_ids_def dom_def)
  ultimately have "agg_inv cfg (rebuildEdges k r ?s2)"
    unfolding agg_inv_def aliases_ok_def redirects_ok_def observers_ok_def distinct_cells_def owners_ok_def
      ids_ok_def node_ids_def observer_at_def rebuildEdges_frame by blast
  then show ?thesis by (rule same_core_inv [OF core])
qed (simp add: mergeNodes_skip inv)

section \<open>Resolving an identity\<close>

lemma map_of_fold_mput:
  "map_of (fold (\<lambda>a. mput a v) xs m) = (\<lambda>x. if x \<in> set xs then Some v else map_of m x)"
  by (induction xs arbitrary: m) (auto simp: fun_eq_iff)

lemma claim_aliases_fields [simp]:
  "ag_reporters (claim_aliases i n t s) = ag_reporters s" "ag_observers (claim_aliases i n t s) = ag_observers s"
  "ag_nodes (claim_aliases i n t s) = ag_nodes s" "ag_redirects (claim_aliases i n t s) = ag_redirects s"
  "ag_edges (claim_aliases i n t s) = ag_edges s" "ag_observerCells (claim_aliases i n t s) = ag_observerCells s"
  "ag_usedIDs (claim_aliases i n t s) = ag_usedIDs s" "ag_nextCell (claim_aliases i n t s) = ag_nextCell s"
  "ag_directory (claim_aliases i n t s) = ag_directory s"
  "map_of (ag_aliases (claim_aliases i n t s)) =
     (\<lambda>a. if a \<in> set (strong_aliases i @ address_aliases i) then Some n else map_of (ag_aliases s) a)"
  "node_ids (claim_aliases i n t s) = node_ids s" "known_ids (claim_aliases i n t s) = known_ids s"
  by (simp_all add: claim_aliases_def node_ids_def known_ids_def map_of_fold_mput fun_eq_iff)

lemma claim_aliases_inv:
  assumes "agg_inv cfg s" "n \<in> node_ids s"
  shows "agg_inv cfg (claim_aliases i n t s)"
  using assms unfolding agg_inv_def aliases_ok_def redirects_ok_def observers_ok_def distinct_cells_def
    edges_ok_def owners_ok_def ids_ok_def observer_at_def claim_aliases_fields by simp

lemma create_node_inv:
  assumes inv: "agg_inv cfg s" and src: "good_source cfg" and "create_node cfg i st t s = (n, s')"
  shows "agg_inv cfg s'" "n \<notin> known_ids s" "node_ids s' = insert n (node_ids s)" "known_ids s' = insert n (known_ids s)"
    "n \<noteq> []" "n = cf_newNodeID cfg (ag_usedIDs s)" "ag_usedIDs s' = Suc (ag_usedIDs s)"
    "ag_redirects s' = ag_redirects s" "ag_edges s' = ag_edges s" "ag_observers s' = ag_observers s"
    "ag_aliases s' = ag_aliases s"
proof -
  let ?id = "cf_newNodeID cfg (ag_usedIDs s)"
  have n: "n = ?id" and s': "s' = (put_node n (new_node i st t) s)\<lparr>ag_usedIDs := Suc (ag_usedIDs s)\<rparr>"
    using assms(3) by (auto simp: create_node_def Let_def)
  have fresh: "n \<notin> node_ids s" "n \<notin> dom (map_of (ag_redirects s))"
    using inv unfolding agg_inv_def ids_ok_def n by auto
  have ne: "n \<noteq> []" using src unfolding good_source_def n by blast
  show ids: "node_ids s' = insert n (node_ids s)" by (auto simp: s' node_ids_def)
  show "n \<notin> known_ids s" using fresh by (simp add: known_ids_def)
  show "known_ids s' = insert n (known_ids s)" unfolding known_ids_def ids by (simp add: s')
  show "n \<noteq> []" by (rule ne)
  show "n = ?id" by (rule n)
  show "ag_usedIDs s' = Suc (ag_usedIDs s)" "ag_redirects s' = ag_redirects s" "ag_edges s' = ag_edges s"
    "ag_observers s' = ag_observers s" "ag_aliases s' = ag_aliases s"
    by (simp_all add: s')
  have later: "cf_newNodeID cfg m \<noteq> n" if "m \<ge> Suc (ag_usedIDs s)" for m
    using that src unfolding good_source_def n by (auto dest: injD)
  have "aliases_ok s'" "redirects_ok s'" "observers_ok s'" "edges_ok s'" "owners_ok s'"
    using inv fresh unfolding agg_inv_def aliases_ok_def redirects_ok_def observers_ok_def distinct_cells_def
      edges_ok_def owners_ok_def ids observer_at_def by (auto simp: s')
  moreover have "ids_ok cfg s'"
    using inv ne later fresh unfolding agg_inv_def ids_ok_def ids by (auto simp: s')
  ultimately show "agg_inv cfg s'" by (simp add: agg_inv_def)
qed

lemma fold_merge:
  assumes "agg_inv cfg s" "n \<in> node_ids s" "n \<notin> set xs"
  shows "agg_inv cfg (fold (mergeNodes n) xs s) \<and> n \<in> node_ids (fold (mergeNodes n) xs s) \<and>
    known_ids (fold (mergeNodes n) xs s) = known_ids s \<and> ag_usedIDs (fold (mergeNodes n) xs s) = ag_usedIDs s \<and>
    node_ids (fold (mergeNodes n) xs s) \<subseteq> node_ids s"
  using assms
proof (induction xs arbitrary: s)
  case (Cons x xs)
  have "agg_inv cfg (mergeNodes n x s)" by (rule mergeNodes_inv [OF Cons.prems(1)])
  moreover have "n \<in> node_ids (mergeNodes n x s) \<and> known_ids (mergeNodes n x s) = known_ids s \<and>
      ag_usedIDs (mergeNodes n x s) = ag_usedIDs s \<and> node_ids (mergeNodes n x s) \<subseteq> node_ids s"
    using Cons.prems mergeNodes_ids [of n x s] mergeNodes_skip [of n x s] by (cases "mergeable n x s") auto
  ultimately show ?case using Cons.IH [of "mergeNodes n x s"] Cons.prems(3) by auto
qed simp

lemma identity_matches_live:
  "agg_inv cfg s \<Longrightarrow> i \<in> set (identity_matches c ident t s) \<Longrightarrow> i \<in> node_ids s"
  by (auto simp: identity_matches_def intro: alias_of_live)

text \<open>What resolving an identity guarantees.\<close>

definition resolved_from :: "agg_config \<Rightarrow> agg_state \<Rightarrow> string \<times> bool \<times> bool \<times> agg_state \<Rightarrow> bool" where
  "resolved_from cfg s r \<longleftrightarrow>
     (let (n, created, changed, s') = r
      in agg_inv cfg s' \<and> n \<in> node_ids s' \<and> known_ids s \<subseteq> known_ids s' \<and>
         (created \<longrightarrow> changed \<and> n \<notin> known_ids s \<and> node_ids s' = insert n (node_ids s)) \<and>
         (\<not> created \<longrightarrow> n \<in> node_ids s \<and> known_ids s' = known_ids s \<and> node_ids s' \<subseteq> node_ids s \<and>
            ag_usedIDs s' = ag_usedIDs s) \<and>
         (\<not> changed \<longrightarrow> node_ids s' = node_ids s \<and> ag_redirects s' = ag_redirects s \<and> ag_edges s' = ag_edges s))"

lemma resolveIdentity_total:
  assumes inv: "agg_inv cfg s" and src: "good_source cfg"
  shows "\<exists>r. resolveIdentity cfg ident t s = Some r \<and> resolved_from cfg s r"
proof -
  define i where "i = withoutConflictingStableAliases ident s"
  define ids where "ids = identity_matches cfg i t s"
  show ?thesis
  proof (cases "ids = []")
    case True
    obtain n s1 where c: "create_node cfg i (identityStatus i) t s = (n, s1)"
      by (cases "create_node cfg i (identityStatus i) t s") auto
    have "resolveIdentity cfg ident t s = Some (n, True, True, claim_aliases i n t s1)"
      using True by (simp add: resolveIdentity_def Let_def c flip: i_def ids_def)
    then show ?thesis
      using create_node_inv [OF inv src c] by (auto simp: resolved_from_def intro: claim_aliases_inv)
  next
    case False
    define n where "n = (if ni_stableNodeID i \<noteq> [] \<and> alias_of s (''stable:'' @ ni_stableNodeID i) \<noteq> []
      then alias_of s (''stable:'' @ ni_stableNodeID i) else hd ids)"
    define others where "others = filter (\<lambda>j. j \<noteq> n) ids"
    define s1 where "s1 = fold (mergeNodes n) others s"
    define f where "f = (\<lambda>x :: node_state. x\<lparr>nd_identity := mergeIdentity (nd_identity x) i,
      nd_status := (if identityStatus i = IdentityResolved then IdentityResolved else nd_status x)\<rparr>)"
    have "hd ids \<in> set ids" using False by simp
    then have live: "n \<in> node_ids s"
      using identity_matches_live [OF inv] alias_of_live [OF inv] unfolding n_def ids_def by (auto split: if_splits)
    note m = fold_merge [OF inv live, of others, folded s1_def]
    have m1: "agg_inv cfg s1" "n \<in> node_ids s1" "known_ids s1 = known_ids s" "ag_usedIDs s1 = ag_usedIDs s"
      "node_ids s1 \<subseteq> node_ids s"
      using m by (auto simp: others_def)
    have "resolveIdentity cfg ident t s =
      Some (n, False, others \<noteq> [], claim_aliases i n t (update_node n f s1))"
      unfolding resolveIdentity_def Let_def i_def [symmetric] ids_def [symmetric] n_def [symmetric]
        others_def [symmetric] s1_def [symmetric] f_def [symmetric]
      using False deref_node_live [OF m1(2), of f] by simp
    moreover have "resolved_from cfg s (n, False, others \<noteq> [], claim_aliases i n t (update_node n f s1))"
      using m1 live update_node_inv [OF m1(1), of n f]
      by (auto simp: resolved_from_def known_ids_def s1_def intro!: claim_aliases_inv)
    ultimately show ?thesis by blast
  qed
qed

lemma resolveIdentity_Some:
  "agg_inv cfg s \<Longrightarrow> good_source cfg \<Longrightarrow> resolveIdentity cfg ident t s = Some r \<Longrightarrow> resolved_from cfg s r"
  using resolveIdentity_total [of cfg s ident t] by auto

text \<open>The node found has the identity's aliases.\<close>

lemma resolveIdentity_aliases:
  assumes "resolveIdentity cfg ident t s = Some (n, created, changed, s')"
    and "a \<in> set (strong_aliases (withoutConflictingStableAliases ident s)) \<union>
           set (address_aliases (withoutConflictingStableAliases ident s))"
  shows "map_of (ag_aliases s') a = Some n"
  using assms by (auto simp: resolveIdentity_def Let_def bind_eq_Some_conv split: if_splits prod.splits)

section \<open>The invariant of a running report\<close>

text \<open>
  Besides the invariant, the reporter of the report stays known and so do the ids of earlier nodes.
\<close>

definition run_inv :: "agg_config \<Rightarrow> string \<Rightarrow> string set \<Rightarrow> agg_state \<Rightarrow> bool" where
  "run_inv cfg rid K s \<longleftrightarrow>
     agg_inv cfg s \<and> good_source cfg \<and> rid \<noteq> [] \<and> map_of (ag_reporters s) rid \<noteq> None \<and> K \<subseteq> known_ids s"

lemma run_inv_core: "run_inv cfg rid K s \<Longrightarrow> same_core s s' \<Longrightarrow> run_inv cfg rid K s'"
  unfolding run_inv_def using same_core_inv [of s s' cfg] same_core_ids [of s s']
  by (auto simp: same_core_def)

lemma run_inv_update_node: "run_inv cfg rid K s \<Longrightarrow> run_inv cfg rid K (update_node n f s)"
  unfolding run_inv_def by (auto intro: update_node_inv simp: known_ids_def)

lemma run_inv_deref_node: "run_inv cfg rid K s \<Longrightarrow> deref_node n f s = Some s' \<Longrightarrow> run_inv cfg rid K s'"
  using run_inv_update_node deref_node_Some by blast

lemma touch_inv:
  "run_inv cfg rid K s \<Longrightarrow> run_inv cfg rid K (touchPeer n t s)"
  "run_inv cfg rid K s \<Longrightarrow> run_inv cfg rid K (touchIdentityCollected n t s)"
  "run_inv cfg rid K s \<Longrightarrow> touchObserver cfg n c t s = Some s' \<Longrightarrow> run_inv cfg rid K s'"
  unfolding touchPeer_def touchIdentityCollected_def touchObserver_def
  by (auto intro: run_inv_update_node run_inv_deref_node)

lemma touch_ids [simp]:
  "node_ids (touchPeer n t s) = node_ids s" "node_ids (touchIdentityCollected n t s) = node_ids s"
  "known_ids (touchPeer n t s) = known_ids s" "known_ids (touchIdentityCollected n t s) = known_ids s"
  by (simp_all add: touchPeer_def touchIdentityCollected_def known_ids_def)

lemma reporters_mergeNodes:
  "map_of (ag_reporters (mergeNodes k r s)) q = None \<longleftrightarrow> map_of (ag_reporters s) q = None"
proof (cases "mergeable k r s")
  case True
  then obtain n b where "same_core
    (rebuildEdges k r (mergeObserverRuntimeStates k r b
      (s\<lparr>ag_nodes := mdel r (mput k n (ag_nodes s)),
         ag_redirects := mput r k (mapv (\<lambda>_. rename_id k r) (ag_redirects s)),
         ag_aliases := mapv (\<lambda>_. rename_id k r) (ag_aliases s)\<rparr>)))
    (mergeNodes k r s)" by (rule mergeNodes_core)
  then have "ag_reporters (mergeNodes k r s) = ag_reporters (rewrite_reporters k r
      (rename_members k r (merge_observer_cells k r b
      (s\<lparr>ag_nodes := mdel r (mput k n (ag_nodes s)),
         ag_redirects := mput r k (mapv (\<lambda>_. rename_id k r) (ag_redirects s)),
         ag_aliases := mapv (\<lambda>_. rename_id k r) (ag_aliases s)\<rparr>))))"
    by (simp add: same_core_def mergeObserverRuntimeStates_def)
  then show ?thesis by (simp add: rewrite_reporters_at)
qed (simp add: mergeNodes_skip)

lemma run_inv_mergeNodes: "run_inv cfg rid K s \<Longrightarrow> run_inv cfg rid K (mergeNodes k r s)"
  unfolding run_inv_def
  using mergeNodes_inv mergeNodes_ids(2) [of k r s] mergeNodes_skip [of k r s] reporters_mergeNodes [of k r s rid]
  by (cases "mergeable k r s") auto

lemma reporters_fold_merge:
  "map_of (ag_reporters (fold (mergeNodes n) xs s)) q = None \<longleftrightarrow> map_of (ag_reporters s) q = None"
  by (induction xs arbitrary: s) (auto simp: reporters_mergeNodes)

lemma reporters_resolveIdentity:
  "resolveIdentity cfg i t s = Some (n, created, changed, s') \<Longrightarrow>
     map_of (ag_reporters s') q = None \<longleftrightarrow> map_of (ag_reporters s) q = None"
  by (auto simp: resolveIdentity_def Let_def create_node_def bind_eq_Some_conv reporters_fold_merge
      dest!: deref_node_Some split: if_splits prod.splits)

lemma run_inv_resolve:
  assumes "run_inv cfg rid K s" "resolveIdentity cfg i t s = Some (n, created, changed, s')"
  shows "run_inv cfg rid K s'" "n \<in> node_ids s'"
proof -
  have "resolved_from cfg s (n, created, changed, s')"
    using assms unfolding run_inv_def by (auto intro: resolveIdentity_Some)
  then show "run_inv cfg rid K s'" "n \<in> node_ids s'"
    using assms reporters_resolveIdentity [OF assms(2)] unfolding run_inv_def resolved_from_def by auto
qed

section \<open>Reporters and observers\<close>

lemma prune_reporters_inv: "agg_inv cfg s \<Longrightarrow> agg_inv cfg (prune_reporters c now s)"
proof -
  assume inv: "agg_inv cfg s"
  let ?s = "prune_reporters c now s"
  have at: "observer_at ?s = observer_at s" by (simp add: prune_reporters_def observer_at_def fun_eq_iff)
  have own: "owners_ok s" using inv by (simp add: agg_inv_def)
  have "map_of (ag_reporters ?s) q = Some rep \<Longrightarrow> map_of (ag_reporters s) q = Some rep" for q rep
    by (auto simp: prune_reporters_def split: option.splits if_splits)
  moreover have "map_of (ag_reporters ?s) (ob_owner ob) \<noteq> None"
    if "observer_at s i = Some ob" "ob_owner ob \<noteq> []" for i ob
  proof -
    obtain rep where "map_of (ag_reporters s) (ob_owner ob) = Some rep"
      using own \<open>observer_at s i = Some ob\<close> \<open>ob_owner ob \<noteq> []\<close> unfolding owners_ok_def by blast
    moreover from this have "rt_observerIDs rep \<noteq> {}"
      using own that unfolding owners_ok_def by blast
    ultimately show ?thesis by (simp add: prune_reporters_def)
  qed
  ultimately have "owners_ok ?s"
    using own unfolding owners_ok_def at by (metis option.distinct(1) option.exhaust)
  then show ?thesis
    using inv unfolding agg_inv_def aliases_ok_def redirects_ok_def observers_ok_def distinct_cells_def
      edges_ok_def ids_ok_def node_ids_def by (simp add: prune_reporters_def)
qed

lemma prune_alias_inv: "agg_inv cfg s \<Longrightarrow> agg_inv cfg (prune_alias c now e s)"
proof -
  assume inv: "agg_inv cfg s"
  have "agg_inv cfg (s\<lparr>ag_aliases := mdel a (ag_aliases s), ag_aliasLastSeen := l\<rparr>)" for a l
    using inv unfolding agg_inv_def aliases_ok_def redirects_ok_def observers_ok_def distinct_cells_def
      edges_ok_def owners_ok_def ids_ok_def node_ids_def observer_at_def by simp
  then show ?thesis
    using inv by (auto simp: prune_alias_def Let_def split: prod.splits intro!: update_node_inv)
qed

lemma prune_scope_core [simp]: "same_core s (prune_scope c now e s)"
  by (auto simp: prune_scope_def Let_def same_core_def put_scope_def split: prod.splits)

lemma pruneIndexes_inv: "agg_inv cfg s \<Longrightarrow> agg_inv cfg (pruneIndexes c now s)"
  unfolding pruneIndexes_def Let_def
  by (intro fold_inv [where P = "agg_inv cfg"] prune_reporters_inv prune_alias_inv same_core_inv [OF prune_scope_core])

lemma prune_alias_known [simp]: "known_ids (prune_alias c now e s) = known_ids s"
  by (auto simp: prune_alias_def Let_def known_ids_def node_ids_def update_node_def split: prod.splits option.splits)

lemma pruneIndexes_known: "known_ids (pruneIndexes c now s) = known_ids s"
proof -
  have k: "known_ids (prune_reporters c now s) = known_ids s"
    by (simp add: prune_reporters_def known_ids_def node_ids_def)
  show ?thesis
    unfolding pruneIndexes_def Let_def
    by (intro fold_inv [where P = "\<lambda>x. known_ids x = known_ids s"])
       (auto simp: k same_core_ids [OF prune_scope_core] intro: fold_inv [where P = "\<lambda>x. known_ids x = known_ids s"])
qed

text \<open>Ownership in terms of the owner alone.\<close>

definition owner_at :: "agg_state \<Rightarrow> string \<Rightarrow> string option" where
  "owner_at s i = map_option ob_owner (observer_at s i)"

lemma owners_alt:
  "owners_ok s \<longleftrightarrow> map_of (ag_reporters s) [] = None \<and>
     (\<forall>r rep i. map_of (ag_reporters s) r = Some rep \<longrightarrow> (i \<in> rt_observerIDs rep \<longleftrightarrow> owner_at s i = Some r)) \<and>
     (\<forall>i q. owner_at s i = Some q \<longrightarrow> q \<noteq> [] \<longrightarrow> map_of (ag_reporters s) q \<noteq> None)"
  unfolding owners_ok_def owner_at_def by (auto simp: map_option_eq_Some) blast

lemma owners_cong:
  "ag_reporters s' = ag_reporters s \<Longrightarrow> owner_at s' = owner_at s \<Longrightarrow> owners_ok s' = owners_ok s"
  unfolding owners_alt by simp

lemma ensure_reporter_inv: "agg_inv cfg s \<Longrightarrow> rid \<noteq> [] \<Longrightarrow> agg_inv cfg (ensure_reporter rid s)"
proof (cases "map_of (ag_reporters s) rid")
  case None
  assume inv: "agg_inv cfg s" and "rid \<noteq> []"
  let ?s = "s\<lparr>ag_reporters := mput rid new_reporter (ag_reporters s)\<rparr>"
  have at: "owner_at ?s = owner_at s" by (simp add: owner_at_def observer_at_def fun_eq_iff)
  have own: "owners_ok s" using inv by (simp add: agg_inv_def)
  then have "owner_at s j \<noteq> Some rid" for j
    using None \<open>rid \<noteq> []\<close> unfolding owners_alt by blast
  then have "owners_ok ?s"
    using own \<open>rid \<noteq> []\<close> unfolding owners_alt at by (simp add: new_reporter_def)
  then have "agg_inv cfg ?s"
    using inv unfolding agg_inv_def aliases_ok_def redirects_ok_def observers_ok_def distinct_cells_def
      edges_ok_def ids_ok_def node_ids_def by simp
  with None show ?thesis by (simp add: ensure_reporter_def)
qed (simp add: ensure_reporter_def)

text \<open>An observer object changes without its owner, or with it and the reporters' lists.\<close>

lemma owner_at_put_observer:
  "owner_at (put_observer c ob s) i =
     (if map_of (ag_observers s) i = Some c then Some (ob_owner ob) else owner_at s i)"
  by (cases "map_of (ag_observers s) i") (auto simp: owner_at_def observer_at_def put_observer_def)

lemma put_observer_same_owner:
  assumes inv: "agg_inv cfg s" and o': "ob_owner ob = ob_owner (ag_observerCells s c)"
  shows "agg_inv cfg (put_observer c ob s)"
proof -
  have "owner_at (put_observer c ob s) = owner_at s"
    using o' by (auto simp: fun_eq_iff owner_at_put_observer) (simp add: owner_at_def observer_at_def)
  then have "owners_ok (put_observer c ob s)"
    using inv owners_cong [of "put_observer c ob s" s] by (simp add: agg_inv_def put_observer_def)
  then show ?thesis
    using inv unfolding agg_inv_def aliases_ok_def redirects_ok_def observers_ok_def distinct_cells_def
      edges_ok_def ids_ok_def node_ids_def by (simp add: put_observer_def)
qed

lemma observer_cell_inv:
  assumes inv: "agg_inv cfg s" and live: "i \<in> node_ids s" and c: "observer_cell i s = (c, s')"
  shows "agg_inv cfg s'" "map_of (ag_observers s') i = Some c" "known_ids s' = known_ids s"
    "node_ids s' = node_ids s" "ag_reporters s' = ag_reporters s" "ag_edges s' = ag_edges s"
proof -
  show "map_of (ag_observers s') i = Some c" "known_ids s' = known_ids s"
    "node_ids s' = node_ids s" "ag_reporters s' = ag_reporters s" "ag_edges s' = ag_edges s"
    using c by (auto simp: observer_cell_def Let_def known_ids_def node_ids_def put_observer_def split: option.splits)
  show "agg_inv cfg s'"
  proof (cases "map_of (ag_observers s) i")
    case (Some d)
    then show ?thesis using c inv by (simp add: observer_cell_def)
  next
    case None
    let ?c = "ag_nextCell s"
    have s': "s' = (put_observer ?c no_observer s)\<lparr>ag_observers := mput i ?c (ag_observers s), ag_nextCell := Suc ?c\<rparr>"
      using c None by (auto simp: observer_cell_def Let_def)
    have below: "map_of (ag_observers s) j = Some d \<Longrightarrow> d < ?c" for j d
      using inv unfolding agg_inv_def observers_ok_def by blast
    have own: "owner_at s' j = (if j = i then Some [] else owner_at s j)" for j
      using below [of j] by (cases "map_of (ag_observers s) j")
        (auto simp: s' owner_at_def observer_at_def put_observer_def no_observer_def)
    have was: "owner_at s i = None" using None by (simp add: owner_at_def observer_at_def)
    have "owners_ok s" using inv by (simp add: agg_inv_def)
    then have "owners_ok s'"
      using was unfolding owners_alt own by (simp add: s' put_observer_def) (metis option.distinct(1) option.sel)
    moreover have "observers_ok s'"
      using inv live below unfolding agg_inv_def observers_ok_def distinct_cells_def
      by (auto simp: s' put_observer_def node_ids_def dest: less_SucI)
    ultimately show ?thesis
      using inv unfolding agg_inv_def aliases_ok_def redirects_ok_def
        edges_ok_def ids_ok_def node_ids_def by (simp add: s' put_observer_def)
  qed
qed

text \<open>A claim: the observer's owner becomes the reporter.\<close>

lemma claimReporterObserver_inv:
  assumes inv: "agg_inv cfg s" and live: "i \<in> node_ids s" and rid: "map_of (ag_reporters s) rid \<noteq> None"
  shows "agg_inv cfg (claimReporterObserver rid i s)"
    and "map_of (ag_reporters (claimReporterObserver rid i s)) rid \<noteq> None"
    and "known_ids (claimReporterObserver rid i s) = known_ids s"
    and "node_ids (claimReporterObserver rid i s) = node_ids s"
    and "owner_at (claimReporterObserver rid i s) i = Some rid"
    and "ag_edges (claimReporterObserver rid i s) = ag_edges s"
proof -
  obtain c s1 where c: "observer_cell i s = (c, s1)" by (cases "observer_cell i s") auto
  note o1 = observer_cell_inv [OF inv live c]
  define prev where "prev = ob_owner (ag_observerCells s1 c)"
  define s2 where "s2 = release_previous prev rid i s1"
  define ob where "ob = (ag_observerCells s2 c)\<lparr>ob_owner := rid, ob_withdrawnAt := 0\<rparr>"
  define s3 where "s3 = put_observer c ob s2"
  obtain rep where rep: "map_of (ag_reporters s1) rid = Some rep" using rid o1(5) by auto
  have ridne: "rid \<noteq> []" using rep o1(1) unfolding agg_inv_def owners_ok_def by auto
  have r2: "map_of (ag_reporters s2) q = (if q = prev \<and> prev \<noteq> [] \<and> prev \<noteq> rid
      then (case map_of (ag_reporters s1) prev of None \<Rightarrow> None | Some r \<Rightarrow>
        if rt_observerIDs r - {i} = {} then None else Some (r\<lparr>rt_observerIDs := rt_observerIDs r - {i}\<rparr>))
      else map_of (ag_reporters s1) q)" for q
    by (auto simp: s2_def release_previous_def Let_def split: option.splits)
  have f2: "ag_observers s2 = ag_observers s1" "ag_observerCells s2 = ag_observerCells s1"
    "ag_nodes s2 = ag_nodes s1" "ag_aliases s2 = ag_aliases s1" "ag_redirects s2 = ag_redirects s1"
    "ag_edges s2 = ag_edges s1" "ag_usedIDs s2 = ag_usedIDs s1" "ag_nextCell s2 = ag_nextCell s1"
    by (auto simp: s2_def release_previous_def Let_def split: option.splits)
  have s4: "claimReporterObserver rid i s = s3\<lparr>ag_reporters :=
      mput rid (rep\<lparr>rt_observerIDs := insert i (rt_observerIDs rep)\<rparr>) (ag_reporters s2)\<rparr>" (is "_ = ?s4")
  proof -
    have "map_of (ag_reporters s2) rid = Some rep" using rep by (subst r2) auto
    moreover have "ag_reporters s3 = ag_reporters s2" by (simp add: s3_def put_observer_def)
    ultimately show ?thesis
      unfolding claimReporterObserver_def c Let_def prod.case prev_def [symmetric] s2_def [symmetric]
        ob_def [symmetric] s3_def [symmetric] update_reporter_def by simp
  qed
  have own: "owner_at ?s4 j = (if j = i then Some rid else owner_at s1 j)" for j
  proof -
    have "owner_at ?s4 j = owner_at s3 j" by (simp add: owner_at_def observer_at_def)
    also have "\<dots> = (if map_of (ag_observers s1) j = Some c then Some rid else owner_at s1 j)"
      by (simp add: s3_def owner_at_put_observer f2 ob_def) (simp add: owner_at_def observer_at_def f2)
    also have "map_of (ag_observers s1) j = Some c \<longleftrightarrow> j = i"
      using o1(1,2) unfolding agg_inv_def observers_ok_def distinct_cells_def by blast
    finally show ?thesis .
  qed
  have prevo: "owner_at s1 i = Some prev" using o1(2) by (simp add: owner_at_def observer_at_def prev_def)
  have "owners_ok s1" using o1(1) by (simp add: agg_inv_def)
  then have nil: "map_of (ag_reporters s1) [] = None"
    and mem: "\<And>q x j. map_of (ag_reporters s1) q = Some x \<Longrightarrow> (j \<in> rt_observerIDs x) = (owner_at s1 j = Some q)"
    and has: "\<And>j q. owner_at s1 j = Some q \<Longrightarrow> q \<noteq> [] \<Longrightarrow> map_of (ag_reporters s1) q \<noteq> None"
    unfolding owners_alt by blast+
  have R: "map_of (ag_reporters ?s4) q = (if q = rid then Some (rep\<lparr>rt_observerIDs := insert i (rt_observerIDs rep)\<rparr>)
      else map_of (ag_reporters s2) q)" for q by simp
  have "map_of (ag_reporters ?s4) [] = None" using ridne nil unfolding R r2 by auto
  moreover have "(j \<in> rt_observerIDs x) = (owner_at ?s4 j = Some q)"
    if look: "map_of (ag_reporters ?s4) q = Some x" for q x j
  proof (cases "q = rid")
    case True
    then have "rt_observerIDs x = insert i (rt_observerIDs rep)" using look unfolding R by auto
    then show ?thesis using mem [OF rep, of j] True unfolding own by auto
  next
    case False
    then have l2: "map_of (ag_reporters s2) q = Some x" using look unfolding R by simp
    show ?thesis
    proof (cases "q = prev \<and> prev \<noteq> []")
      case True
      then obtain y where y: "map_of (ag_reporters s1) q = Some y" "x = y\<lparr>rt_observerIDs := rt_observerIDs y - {i}\<rparr>"
        using l2 False unfolding r2 by (auto split: option.splits if_splits)
      then show ?thesis using mem [OF y(1), of j] False unfolding own by auto
    next
      case other: False
      then have "map_of (ag_reporters s1) q = Some x" using l2 unfolding r2 by (auto split: if_splits)
      then have "(j \<in> rt_observerIDs x) = (owner_at s1 j = Some q)" and "q \<noteq> []" using mem nil by auto
      then show ?thesis using other prevo False unfolding own by auto
    qed
  qed
  moreover have "map_of (ag_reporters ?s4) q \<noteq> None" if o: "owner_at ?s4 j = Some q" and q: "q \<noteq> []" for j q
  proof (cases "q = rid")
    case False
    then have j: "owner_at s1 j = Some q" "j \<noteq> i" using o unfolding own by (auto split: if_splits)
    obtain y where y: "map_of (ag_reporters s1) q = Some y" using has [OF j(1) q] by auto
    then have "j \<in> rt_observerIDs y - {i}" using mem [OF y, of j] j by simp
    then show ?thesis using False y unfolding R r2 by auto
  qed (simp add: R)
  ultimately have "owners_ok ?s4" unfolding owners_alt by blast
  moreover have "observers_ok ?s4"
    using o1(1) unfolding agg_inv_def observers_ok_def distinct_cells_def
    by (simp add: s3_def put_observer_def f2 node_ids_def)
  ultimately have "agg_inv cfg ?s4"
    using o1(1) unfolding agg_inv_def aliases_ok_def redirects_ok_def
        edges_ok_def ids_ok_def node_ids_def by (simp add: s3_def put_observer_def f2)
  then show "agg_inv cfg (claimReporterObserver rid i s)" unfolding s4 .
  show "map_of (ag_reporters (claimReporterObserver rid i s)) rid \<noteq> None" unfolding s4 by simp
  show "known_ids (claimReporterObserver rid i s) = known_ids s"
    "node_ids (claimReporterObserver rid i s) = node_ids s"
    "ag_edges (claimReporterObserver rid i s) = ag_edges s"
    unfolding s4 using o1(3,4,6) by (simp_all add: known_ids_def node_ids_def s3_def put_observer_def f2)
  show "owner_at (claimReporterObserver rid i s) i = Some rid" unfolding s4 own by simp
qed

lemma update_reporter_frame [simp]:
  "ag_observers (update_reporter q f s) = ag_observers s" "ag_nodes (update_reporter q f s) = ag_nodes s"
  "ag_aliases (update_reporter q f s) = ag_aliases s" "ag_redirects (update_reporter q f s) = ag_redirects s"
  "ag_edges (update_reporter q f s) = ag_edges s" "ag_observerCells (update_reporter q f s) = ag_observerCells s"
  "ag_usedIDs (update_reporter q f s) = ag_usedIDs s" "ag_nextCell (update_reporter q f s) = ag_nextCell s"
  "map_of (ag_reporters (update_reporter q f s)) =
     (\<lambda>x. if x = q then map_option f (map_of (ag_reporters s) q) else map_of (ag_reporters s) x)"
  by (auto simp: update_reporter_def fun_eq_iff split: option.splits)

lemma edge_ok_observation_update:
  assumes "edge_ok k e" "eo_observerID ob = i"
  shows "edge_ok k (e\<lparr>ed_observations := mput i ob (ed_observations e)\<rparr>)"
  using assms unfolding edge_ok_def by auto

lemma edge_ok_observation_drop: "edge_ok k e \<Longrightarrow> edge_ok k (e\<lparr>ed_observations := mdel i (ed_observations e)\<rparr>)"
  unfolding edge_ok_def by auto

lemma edges_mapv_ok:
  assumes "edges_ok s" "\<And>k e. edge_ok k e \<Longrightarrow> edge_ok k (f k e)"
  shows "edges_ok (s\<lparr>ag_edges := mapv f (ag_edges s)\<rparr>)"
  using assms unfolding edges_ok_def by auto

lemma edges_only_inv:
  "agg_inv cfg s \<Longrightarrow> edges_ok (s\<lparr>ag_edges := es\<rparr>) \<Longrightarrow> agg_inv cfg (s\<lparr>ag_edges := es\<rparr>)"
  unfolding agg_inv_def aliases_ok_def redirects_ok_def observers_ok_def distinct_cells_def
    owners_ok_def ids_ok_def node_ids_def observer_at_def by simp

lemma withdrawObserver_inv:
  assumes inv: "agg_inv cfg s" and rid: "rid \<noteq> []"
  shows "agg_inv cfg (withdrawObserver rid i t s)"
proof (cases "map_of (ag_observers s) i")
  case (Some c)
  show ?thesis
  proof (cases "ob_owner (ag_observerCells s c) = rid")
    case True
    define s1 where "s1 = put_observer c ((ag_observerCells s c)\<lparr>ob_owner := [], ob_withdrawnAt := t\<rparr>) s"
    define s2 where "s2 = update_reporter rid (\<lambda>r. r\<lparr>rt_observerIDs := rt_observerIDs r - {i}\<rparr>) s1"
    have only: "map_of (ag_observers s) j = Some c \<longleftrightarrow> j = i" for j
      using inv Some unfolding agg_inv_def observers_ok_def distinct_cells_def by blast
    have own: "owner_at s2 j = (if j = i then Some [] else owner_at s j)" for j
    proof -
      have "owner_at s2 j = owner_at s1 j" by (simp add: s2_def owner_at_def observer_at_def)
      then show ?thesis by (simp add: s1_def owner_at_put_observer only)
    qed
    have was: "owner_at s i = Some rid" using Some True by (simp add: owner_at_def observer_at_def)
    have rep: "ag_reporters s1 = ag_reporters s" by (simp add: s1_def put_observer_def)
    have "owners_ok s" using inv by (simp add: agg_inv_def)
    then have "owners_ok s2"
      using rid was unfolding owners_alt own by (simp add: s2_def rep) (auto split: if_splits)
    then have "agg_inv cfg s2"
      using inv unfolding agg_inv_def aliases_ok_def redirects_ok_def observers_ok_def distinct_cells_def
        edges_ok_def ids_ok_def node_ids_def by (simp add: s2_def s1_def put_observer_def)
    then have "agg_inv cfg (s2\<lparr>ag_edges := mapv (\<lambda>_ e.
                 case map_of (ed_observations e) i of
                   None \<Rightarrow> e
                 | Some ob \<Rightarrow> e\<lparr>ed_observations :=
                     mput i (ob\<lparr>eo_withdrawnAt := t\<rparr>) (ed_observations e)\<rparr>) (ag_edges s2)\<rparr>)"
      by (intro edges_only_inv edges_mapv_ok)
         (auto simp: agg_inv_def edge_ok_def split: option.splits)
    then show ?thesis
      unfolding withdrawObserver_def Some option.case True Let_def s1_def [symmetric] s2_def [symmetric] by simp
  qed (simp add: withdrawObserver_def Some inv)
qed (simp add: withdrawObserver_def inv)

lemma withdrawObserver_frame [simp]:
  "known_ids (withdrawObserver rid i t s) = known_ids s" "node_ids (withdrawObserver rid i t s) = node_ids s"
  "map_of (ag_reporters (withdrawObserver rid i t s)) q = None \<longleftrightarrow> map_of (ag_reporters s) q = None"
  "map_of (ag_edges (withdrawObserver rid i t s)) k = None \<longleftrightarrow> map_of (ag_edges s) k = None"
  by (auto simp: withdrawObserver_def Let_def known_ids_def node_ids_def put_observer_def split: option.splits)

section \<open>Edges\<close>

lemma edge_or_new_ok:
  assumes "agg_inv cfg s"
  shows "edge_ok (edge_key a b) (edge_or_new a b s)"
proof -
  obtain k x y where e: "EdgeID a b = (k, x, y)" by (cases "EdgeID a b") auto
  show ?thesis
    using assms edge_ok_new [OF e] unfolding agg_inv_def edges_ok_def edge_or_new_def edge_key_def e
    by (auto split: option.splits)
qed

lemma edge_ok_telemetry: "edge_ok k e \<Longrightarrow> edge_ok k (e\<lparr>ed_systemTelemetry := b\<rparr>)"
  by (simp add: edge_ok_def)

lemma edge_ok_record: "edge_ok k e \<Longrightarrow> edge_ok k (record_observation t ob e)"
  by (auto simp: edge_ok_def record_observation_def)

lemma put_edge_inv: "agg_inv cfg s \<Longrightarrow> edge_ok k e \<Longrightarrow> agg_inv cfg (put_edge k e s)"
  unfolding put_edge_def by (intro edges_only_inv) (auto simp: agg_inv_def edges_ok_def)

lemma put_edge_frame [simp]:
  "known_ids (put_edge k e s) = known_ids s" "node_ids (put_edge k e s) = node_ids s"
  "ag_reporters (put_edge k e s) = ag_reporters s" "ag_observers (put_edge k e s) = ag_observers s"
  "ag_observerCells (put_edge k e s) = ag_observerCells s"
  "map_of (ag_edges (put_edge k e s)) = (map_of (ag_edges s))(k \<mapsto> e)"
  by (simp_all add: put_edge_def known_ids_def node_ids_def)

lemma run_inv_put_edge: "run_inv cfg rid K s \<Longrightarrow> edge_ok k e \<Longrightarrow> run_inv cfg rid K (put_edge k e s)"
  unfolding run_inv_def by (auto intro: put_edge_inv)

lemma run_inv_edge_ok: "run_inv cfg rid K s \<Longrightarrow> map_of (ag_edges s) k = Some e \<Longrightarrow> edge_ok k e"
  unfolding run_inv_def agg_inv_def edges_ok_def by blast

lemma applyPeer_inv: "run_inv cfg rid K s \<Longrightarrow> run_inv cfg rid K (applyPeer c ct rt i j p s)"
  unfolding applyPeer_def by (intro run_inv_put_edge edge_ok_record edge_or_new_ok) (auto simp: run_inv_def)

lemma add_same_batch_observer [simp]: "eo_observerID (add_same_batch m ob) = eo_observerID ob"
  by (simp add: add_same_batch_def split: option.splits)

lemma applyRelaySession_inv:
  "run_inv cfg rid K s \<Longrightarrow> run_inv cfg rid K (applyRelaySession c ct rt r a b se x y m n s)"
  unfolding applyRelaySession_def Let_def
  by (intro run_inv_put_edge edge_ok_record edge_or_new_ok) (auto simp: run_inv_def)

lemma markSystemTelemetry_inv: "run_inv cfg rid K s \<Longrightarrow> run_inv cfg rid K (markSystemTelemetry c k a b s)"
  unfolding markSystemTelemetry_def
  by (auto split: option.splits intro!: run_inv_put_edge edge_ok_telemetry dest: run_inv_edge_ok)

lemma replaceInventory_inv: "run_inv cfg rid K s \<Longrightarrow> run_inv cfg rid K (replaceInventory c i g m s)"
proof -
  assume r: "run_inv cfg rid K s"
  define s1 where "s1 = s\<lparr>ag_edges := mapv (\<lambda>edgeID e. if edgeID \<in> edge_key i ` (ob_membership (ag_observerCells s c) - m)
    then e\<lparr>ed_observations := mdel i (ed_observations e)\<rparr> else e) (ag_edges s)\<rparr>"
  have "agg_inv cfg s1"
    using r unfolding s1_def run_inv_def
    by (intro edges_only_inv edges_mapv_ok) (auto simp: agg_inv_def intro: edge_ok_observation_drop)
  then have "agg_inv cfg (replaceInventory c i g m s)"
    unfolding replaceInventory_def Let_def s1_def [symmetric]
    by (rule put_observer_same_owner) (simp add: s1_def)
  then show ?thesis
    using r unfolding run_inv_def
    by (simp add: replaceInventory_def Let_def known_ids_def node_ids_def put_observer_def)
qed

lemma replaceInventory_edges [simp]:
  "map_of (ag_edges (replaceInventory c i g m s)) k = None \<longleftrightarrow> map_of (ag_edges s) k = None"
  by (simp add: replaceInventory_def Let_def put_observer_def)

section \<open>Relay sessions\<close>

lemma relayScope_core: "relayScope r v t s = (c, b, s') \<Longrightarrow> same_core s s'"
  by (auto simp: relayScope_def Let_def same_core_def put_scope_def split: option.splits)

lemma session_cell_core: "session_cell c i s = (j, b, s') \<Longrightarrow> same_core s s'"
  by (auto simp: session_cell_def Let_def same_core_def put_scope_def put_session_def split: option.splits)

lemma set_client_core [simp]: "same_core s (set_client i a b s)"
  by (simp add: set_client_def Let_def)

lemma run_inv_put_scope: "run_inv cfg rid K s \<Longrightarrow> run_inv cfg rid K (put_scope c sc s)"
  by (rule run_inv_core [OF _ put_scope_core])

lemma run_inv_put_session: "run_inv cfg rid K s \<Longrightarrow> run_inv cfg rid K (put_session c se s)"
  by (rule run_inv_core [OF _ put_session_core])

lemma reconcileRelayScope_inv:
  "run_inv cfg rid K s \<Longrightarrow> run_inv cfg rid K (snd (reconcileRelayScope c' i t s))"
proof -
  assume r: "run_inv cfg rid K s"
  have "run_inv cfg rid K (snd (fold (reconcile_session c' i t) xs (False, s)))" for xs
    using r by (intro fold_inv [where P = "\<lambda>acc. run_inv cfg rid K (snd acc)"])
      (auto simp: reconcile_session_def Let_def split: prod.splits intro!: run_inv_put_session run_inv_mergeNodes)
  with r show ?thesis by (simp add: reconcileRelayScope_def Let_def)
qed

lemma recordRelayPair_inv:
  assumes "run_inv cfg rid K s"
  shows "run_inv cfg rid K (snd (recordRelayPair c' r v a b t s))"
proof -
  obtain c cr s1 where c: "relayScope r v t s = (c, cr, s1)" by (cases "relayScope r v t s") auto
  obtain k x y where e: "EdgeID a b = (k, x, y)" by (cases "EdgeID a b") auto
  have "run_inv cfg rid K s1" by (rule run_inv_core [OF assms relayScope_core [OF c]])
  then have "run_inv cfg rid K (snd (reconcileRelayScope c' c t (put_scope c sc s1)))" for sc
    by (intro reconcileRelayScope_inv run_inv_put_scope)
  then show ?thesis
    using assms by (auto simp: recordRelayPair_def c e Let_def split: prod.splits)
      (metis snd_conv)
qed

lemma run_inv_create:
  assumes "run_inv cfg rid K s" "create_node cfg i st t s = (n, s')"
  shows "run_inv cfg rid K s'" "n \<in> node_ids s'"
proof -
  have src: "good_source cfg" "agg_inv cfg s" using assms(1) by (simp_all add: run_inv_def)
  note c = create_node_inv [OF src(2,1) assms(2)]
  have "ag_reporters s' = ag_reporters s"
    using assms(2) by (auto simp: create_node_def Let_def)
  then show "run_inv cfg rid K s'" "n \<in> node_ids s'"
    using assms(1) c unfolding run_inv_def by auto
qed

lemma resolveRelayClient_total:
  assumes r: "run_inv cfg rid K s"
  shows "\<exists>n st ch s'. resolveRelayClient cfg i cl t s = Some (n, st, ch, s') \<and> run_inv cfg rid K s'"
proof -
  define existing where "existing = str_at (se_clients (ag_sessionCells s i)) (rc_sessionClientID cl)"
  consider "rc_identity cl \<noteq> None \<and> identityStatus (IdentityOrEmpty cl) = IdentityResolved"
    | "\<not> (rc_identity cl \<noteq> None \<and> identityStatus (IdentityOrEmpty cl) = IdentityResolved)" "existing \<noteq> []"
    | "\<not> (rc_identity cl \<noteq> None \<and> identityStatus (IdentityOrEmpty cl) = IdentityResolved)" "existing = []"
    by blast
  then show ?thesis
  proof cases
    case 1
    obtain n created changed s1 where n: "resolveIdentity cfg (IdentityOrEmpty cl) t s = Some (n, created, changed, s1)"
      using resolveIdentity_total [of cfg s "IdentityOrEmpty cl" t] r by (auto simp: run_inv_def)
    have "run_inv cfg rid K s1" by (rule run_inv_resolve [OF r n])
    then have "run_inv cfg rid K (set_client i k n (if b then mergeNodes n existing s1 else s1))" for k b
      by (auto intro: run_inv_core [OF _ set_client_core] run_inv_mergeNodes)
    then show ?thesis using 1 n by (simp add: resolveRelayClient_def Let_def flip: existing_def)
  next
    case 2
    then have "resolveRelayClient cfg i cl t s = Some (existing, ClientIdentityStatus cl, False,
        update_node existing (\<lambda>n. if nd_status n \<noteq> IdentityResolved
          then n\<lparr>nd_status := ClientIdentityStatus cl\<rparr> else n) s)"
      by (auto simp: resolveRelayClient_def Let_def simp flip: existing_def)
    then show ?thesis using run_inv_update_node [OF r] by blast
  next
    case 3
    obtain n s1 where c: "create_node cfg no_identity (ClientIdentityStatus cl) t s = (n, s1)"
      by (cases "create_node cfg no_identity (ClientIdentityStatus cl) t s") auto
    with 3 have "resolveRelayClient cfg i cl t s = Some (n, ClientIdentityStatus cl, True,
        set_client i (rc_sessionClientID cl) n s1)"
      by (auto simp: resolveRelayClient_def Let_def simp flip: existing_def)
    then show ?thesis using run_inv_core [OF run_inv_create(1) [OF r c] set_client_core] by blast
  qed
qed

lemma resolveRelaySession_total:
  assumes r: "run_inv cfg rid K s"
  shows "\<exists>a b x y ch s'. resolveRelaySession cfg relay ob t s = Some (a, b, x, y, ch, s') \<and> run_inv cfg rid K s'"
proof -
  obtain c sc s1 where c: "relayScope relay (rs_vni ob) t s = (c, sc, s1)" by (cases "relayScope relay (rs_vni ob) t s") auto
  obtain i ic s2 where i: "session_cell c (rs_sessionID ob) s1 = (i, ic, s2)" by (cases "session_cell c (rs_sessionID ob) s1") auto
  define s3 where "s3 = put_session i ((ag_sessionCells s2 i)\<lparr>se_lastSeen := t\<rparr>) s2"
  have r3: "run_inv cfg rid K s3"
    unfolding s3_def
    by (intro run_inv_put_session run_inv_core [OF run_inv_core [OF r relayScope_core [OF c]] session_cell_core [OF i]])
  obtain a x ch1 s4 where 4: "resolveRelayClient cfg i (rs_source ob) t s3 = Some (a, x, ch1, s4)" "run_inv cfg rid K s4"
    using resolveRelayClient_total [OF r3] by blast
  obtain b y ch2 s5 where 5: "resolveRelayClient cfg i (rs_target ob) t s4 = Some (b, y, ch2, s5)" "run_inv cfg rid K s5"
    using resolveRelayClient_total [OF 4(2)] by blast
  define s6 where "s6 = put_session i ((ag_sessionCells s5 i)\<lparr>
               se_sourceClientID := rc_sessionClientID (rs_source ob),
               se_targetClientID := rc_sessionClientID (rs_target ob),
               se_sourceNodeID := a, se_targetNodeID := b,
               se_sourceStatus := x, se_targetStatus := y\<rparr>) s5"
  have r6: "run_inv cfg rid K s6" unfolding s6_def by (rule run_inv_put_session [OF 5(2)])
  define r7 where "r7 = (if a = b then (False, s6)
      else if x = IdentityResolved \<and> y = IdentityResolved
      then recordRelayPair cfg relay (rs_vni ob) a b t s6
      else reconcileRelayScope cfg c t s6)"
  obtain inferred s7 where r7: "r7 = (inferred, s7)" by (cases r7)
  have "run_inv cfg rid K (snd r7)"
    using r6 by (simp add: r7_def recordRelayPair_inv reconcileRelayScope_inv)
  moreover have "\<exists>a b x y ch. resolveRelaySession cfg relay ob t s = Some (a, b, x, y, ch, s7)"
    unfolding resolveRelaySession_def c i Let_def prod.case s3_def [symmetric] 4(1) 5(1) Option.bind.simps
      s6_def [symmetric] r7_def [symmetric] r7 by blast
  ultimately show ?thesis unfolding r7 by fastforce
qed

section \<open>Steps that may panic and keep an invariant\<close>

text \<open>
  The interface of every loop of a report: a step that, when it does not panic, keeps the invariant.
\<close>

locale keeping_step =
  fixes inv :: "'s \<Rightarrow> bool" and step :: "'x \<Rightarrow> 's \<Rightarrow> 's option"
  assumes step_keeps: "inv s \<Longrightarrow> step x s = Some s' \<Longrightarrow> inv s'"
begin

lemma loop_keeps: "fold_opt step xs s = Some s' \<Longrightarrow> inv s \<Longrightarrow> inv s'"
  by (rule fold_opt_inv) (auto dest: step_keeps)

lemma loop_keeps_or_panics: "inv s \<Longrightarrow> pred_option inv (fold_opt step xs s)"
  using loop_keeps by (cases "fold_opt step xs s") auto

end

text \<open>A step that does not panic either.\<close>

locale total_step = keeping_step +
  assumes step_total: "inv s \<Longrightarrow> step x s \<noteq> None"
begin

lemma loop_total: "inv s \<Longrightarrow> \<exists>s'. fold_opt step xs s = Some s' \<and> inv s'"
  using fold_opt_total [of inv s xs step] step_total step_keeps by blast

end

definition ctx_inv :: "agg_config \<Rightarrow> string \<Rightarrow> string set \<Rightarrow> apply_ctx \<Rightarrow> bool" where
  "ctx_inv cfg rid K ctx \<longleftrightarrow> run_inv cfg rid K (ax_state ctx)"

lemma ctx_resolve_total:
  assumes "ctx_inv cfg rid K ctx"
  shows "\<exists>n created ctx'. ctx_resolve cfg i t ctx = Some (n, created, ctx') \<and> ctx_inv cfg rid K ctx' \<and>
    n \<in> node_ids (ax_state ctx') \<and> ax_touched ctx' = ax_touched ctx"
proof -
  have r: "run_inv cfg rid K (ax_state ctx)" using assms by (simp add: ctx_inv_def)
  obtain n created changed s' where n: "resolveIdentity cfg i t (ax_state ctx) = Some (n, created, changed, s')"
    using resolveIdentity_total [of cfg "ax_state ctx" i t] r by (auto simp: run_inv_def)
  show ?thesis
    using run_inv_resolve [OF r n] by (simp add: ctx_resolve_def n ctx_inv_def)
qed

lemma ctx_resolve_keeps:
  "ctx_inv cfg rid K ctx \<Longrightarrow> ctx_resolve cfg i t ctx = Some (n, created, ctx') \<Longrightarrow>
     ctx_inv cfg rid K ctx' \<and> n \<in> node_ids (ax_state ctx') \<and> ax_touched ctx' = ax_touched ctx"
  using ctx_resolve_total [of cfg rid K ctx i t] by auto

lemma member_step_total:
  assumes "ctx_inv cfg rid K (snd acc)"
  shows "\<exists>acc'. member_step cfg ct t p acc = Some acc' \<and> ctx_inv cfg rid K (snd acc') \<and>
    ax_touched (snd acc') = ax_touched (snd acc)"
proof -
  obtain n created ctx' where c: "ctx_resolve cfg (pe_peer p) t (snd acc) = Some (n, created, ctx')"
    "ctx_inv cfg rid K ctx'" "n \<in> node_ids (ax_state ctx')" "ax_touched ctx' = ax_touched (snd acc)"
    using ctx_resolve_total [OF assms] by blast
  have "deref_node n f (touchIdentityCollected n ct (ax_state ctx')) =
      Some (update_node n f (touchIdentityCollected n ct (ax_state ctx')))" for f
    using c(3) by (intro deref_node_live) simp
  then show ?thesis
    using c by (auto simp: member_step_def ctx_inv_def Let_def intro: touch_inv run_inv_update_node)
qed

lemma member_step_keeps:
  "ctx_inv cfg rid K (snd acc) \<Longrightarrow> member_step cfg ct t p acc = Some acc' \<Longrightarrow> ctx_inv cfg rid K (snd acc')"
  using member_step_total [of cfg rid K acc ct t p] by auto

interpretation members: total_step "\<lambda>acc. ctx_inv cfg rid K (snd acc)" "member_step cfg ct t" for cfg rid K ct t
proof
  show "ctx_inv cfg rid K (snd acc')" if "ctx_inv cfg rid K (snd acc)" "member_step cfg ct t p acc = Some acc'"
    for acc p acc' using that by (rule member_step_keeps)
  show "member_step cfg ct t p acc \<noteq> None" if "ctx_inv cfg rid K (snd acc)" for acc p
    using member_step_total [OF that, of ct t p] by auto
qed

lemma withdraw_step_total:
  assumes c: "ctx_inv cfg rid K ctx" and rid: "re_reporterInstanceID report = rid"
  shows "\<exists>ctx'. withdraw_step cfg report t ob ctx = Some ctx' \<and> ctx_inv cfg rid K ctx'"
proof (cases "lookupIdentity cfg (or_observer ob) t (ax_state ctx)")
  case (Some n)
  show ?thesis
  proof (cases "\<exists>x. observer_at (ax_state ctx) n = Some x \<and> ob_owner x = rid")
    case True
    then obtain x where x: "observer_at (ax_state ctx) n = Some x" "ob_owner x = rid" by blast
    have r: "run_inv cfg rid K (ax_state ctx)" using c by (simp add: ctx_inv_def)
    then have live: "n \<in> node_ids (ax_state ctx)"
      using x(1) unfolding run_inv_def agg_inv_def observers_ok_def observer_at_def by blast
    define ct where "ct = CollectionTime ob (re_collectedAt report)"
    obtain s1 where s1: "touchObserver cfg n ct t (ax_state ctx) = Some s1"
      using deref_node_live [OF live] unfolding touchObserver_def by blast
    have "run_inv cfg rid K s1" by (rule touch_inv(3) [OF r s1])
    then have "run_inv cfg rid K (withdrawObserver rid n t s1)"
      using withdrawObserver_inv [of cfg s1 rid n t] unfolding run_inv_def by simp
    then show ?thesis
      using x s1 by (simp add: withdraw_step_def Let_def Some rid ctx_inv_def flip: ct_def)
  next
    case False
    then show ?thesis
      using Some c rid by (auto simp: withdraw_step_def Let_def split: option.splits)
  qed
qed (use c in \<open>auto simp: withdraw_step_def Let_def\<close>)

lemma record_peer_relay_cases:
  assumes "record_peer_relay cfg ct t i j p ctx = Some ctx'"
  obtains "ctx' = ctx"
  | relayID cr ctx1 vni where
      "ctx_resolve cfg (no_identity\<lparr>ni_stableNodeID := po_relayStableID (pe_path p)\<rparr>) t ctx = Some (relayID, cr, ctx1)"
      "ax_state ctx' = snd (recordRelayPair cfg relayID vni i j t (touchIdentityCollected relayID ct (ax_state ctx1)))"
      "ax_touched ctx' = ax_touched ctx1"
proof (cases "po_kind (pe_path p) = PathPeerRelay \<and> po_relayVNI (pe_path p) \<noteq> None \<and>
    trim_space (po_relayStableID (pe_path p)) \<noteq> []")
  case True
  then obtain vni where vni: "po_relayVNI (pe_path p) = Some vni" by blast
  from assms True vni obtain relayID cr ctx1 where
    1: "ctx_resolve cfg (no_identity\<lparr>ni_stableNodeID := po_relayStableID (pe_path p)\<rparr>) t ctx = Some (relayID, cr, ctx1)"
    by (auto simp: record_peer_relay_def bind_eq_Some_conv)
  obtain b s2 where r: "recordRelayPair cfg relayID vni i j t (touchIdentityCollected relayID ct (ax_state ctx1)) = (b, s2)"
    by (cases "recordRelayPair cfg relayID vni i j t (touchIdentityCollected relayID ct (ax_state ctx1))")
  have "ctx' = ctx1\<lparr>ax_state := s2, ax_canonical := ax_canonical ctx1 \<or> b\<rparr>"
    using assms True by (simp add: record_peer_relay_def vni 1 r)
  then show thesis using that(2) [OF 1, of vni] r by simp
next
  case False
  then have "ctx' = ctx"
    using assms by (auto simp: record_peer_relay_def split: path_kind.splits option.splits)
  then show thesis by (rule that(1))
qed

lemma record_peer_relay_keeps:
  assumes "ctx_inv cfg rid K ctx" "record_peer_relay cfg ct t i j p ctx = Some ctx'"
  shows "ctx_inv cfg rid K ctx'"
  using assms(2)
proof (cases rule: record_peer_relay_cases)
  case (2 relayID cr ctx1 vni)
  have "run_inv cfg rid K (ax_state ctx1)" using ctx_resolve_keeps [OF assms(1) 2(1)] by (simp add: ctx_inv_def)
  then show ?thesis using 2(2) by (simp add: ctx_inv_def recordRelayPair_inv touch_inv)
qed (use assms in simp)

lemma accept_traffic_keeps:
  "ctx_inv cfg rid K ctx \<Longrightarrow> accept_traffic a b i m n t ctx = Some ctx' \<Longrightarrow> ctx_inv cfg rid K ctx'"
  by (auto simp: accept_traffic_def bind_eq_Some_conv ctx_inv_def split: prod.splits)

lemma traffic_step_keeps:
  assumes "ctx_inv cfg rid K ctx" "traffic_step cfg ct t i p ctx = Some ctx'"
  shows "ctx_inv cfg rid K ctx'"
proof (cases "pe_rxDelta p = 0 \<and> pe_txDelta p = 0")
  case False
  then obtain j cr c1 c2 where c1: "ctx_resolve cfg (pe_peer p) t ctx = Some (j, cr, c1)"
    and c2: "record_peer_relay cfg ct t i j p (c1\<lparr>ax_state := touchPeer j t (touchIdentityCollected j ct (ax_state c1)),
        ax_touched := touch_edge (edge_key i j) (touchPeer j t (touchIdentityCollected j ct (ax_state c1))) (ax_touched c1)\<rparr>) = Some c2"
    and acc: "accept_traffic i j i (pe_txDelta p) (pe_rxDelta p) t
      (c2\<lparr>ax_state := markSystemTelemetry cfg (edge_key i j) i j (applyPeer cfg ct t i j p (ax_state c2))\<rparr>) = Some ctx'"
    using assms(2) by (auto simp: traffic_step_def Let_def bind_eq_Some_conv)
  have "ctx_inv cfg rid K c1" using ctx_resolve_keeps [OF assms(1) c1] by simp
  then have "ctx_inv cfg rid K c2"
    by (intro record_peer_relay_keeps [OF _ c2]) (simp add: ctx_inv_def touch_inv)
  then show ?thesis
    by (intro accept_traffic_keeps [OF _ acc]) (simp add: ctx_inv_def markSystemTelemetry_inv applyPeer_inv)
qed (use assms in \<open>simp add: traffic_step_def\<close>)

interpretation traffic: keeping_step "ctx_inv cfg rid K" "traffic_step cfg ct t i" for cfg rid K ct t i
  by unfold_locales (rule traffic_step_keeps)

lemma inventory_step_total:
  assumes "ctx_inv cfg rid K ctx"
  shows "\<exists>ctx'. inventory_step cfg ct t i (Some c) ob ctx = Some ctx' \<and> ctx_inv cfg rid K ctx'"
proof -
  obtain acc where acc: "fold_opt (member_step cfg ct t) (or_peers ob) ({}, ctx) = Some acc" "ctx_inv cfg rid K (snd acc)"
    using members.loop_total [where s = "({}, ctx)" and cfg = cfg and rid = rid and K = K and ct = ct and t = t
        and xs = "or_peers ob"] assms by auto
  then show ?thesis
    by (cases acc) (auto simp: inventory_step_def ctx_inv_def replaceInventory_inv)
qed

lemma inventory_step_keeps:
  "ctx_inv cfg rid K ctx \<Longrightarrow> inventory_step cfg ct t i cell ob ctx = Some ctx' \<Longrightarrow> ctx_inv cfg rid K ctx'"
  using inventory_step_total [of cfg rid K ctx ct t i _ ob]
  by (cases cell) (auto simp: inventory_step_def bind_eq_Some_conv)

text \<open>The part of \<open>observer_step\<close> before its kind matters.\<close>

lemma observer_step_prefix:
  assumes c: "ctx_inv cfg rid K ctx" and rid: "re_reporterInstanceID report = rid"
  obtains i c1 s3 where "ctx_inv cfg rid K (c1\<lparr>ax_state := s3\<rparr>)" "i \<in> node_ids s3" "ax_touched c1 = ax_touched ctx"
    "re_kind report = ReportObserverHello \<Longrightarrow> map_of (ag_observers s3) i \<noteq> None"
    "observer_step cfg report t ob ctx =
      (let collectedAt = CollectionTime ob (re_collectedAt report); cell = map_of (ag_observers s3) i; ctx2 = c1\<lparr>ax_state := s3\<rparr>
       in case re_kind report of
        ReportObserverHello \<Rightarrow> inventory_step cfg collectedAt t i cell ob ctx2
      | ReportInventoryUpdate \<Rightarrow> inventory_step cfg collectedAt t i cell ob ctx2
      | ReportTrafficSample \<Rightarrow> Option.bind cell (\<lambda>c.
          fold_opt (traffic_step cfg collectedAt t i) (or_peers ob)
            (ctx2\<lparr>ax_resync := ax_resync ctx2 \<or> generation_differs s3 c ob\<rparr>))
      | ReportObserverHeartbeat \<Rightarrow> Option.bind cell (\<lambda>c.
          Some (ctx2\<lparr>ax_resync := ax_resync ctx2 \<or> generation_differs s3 c ob\<rparr>))
      | _ \<Rightarrow> Some ctx2)"
proof -
  define ct where "ct = CollectionTime ob (re_collectedAt report)"
  obtain i cr c1 where c1: "ctx_resolve cfg (or_observer ob) t ctx = Some (i, cr, c1)" "ctx_inv cfg rid K c1"
    "i \<in> node_ids (ax_state c1)" "ax_touched c1 = ax_touched ctx"
    using ctx_resolve_total [OF c] by blast
  define s1 where "s1 = touchIdentityCollected i ct (ax_state c1)"
  define s2 where "s2 = (if re_kind report = ReportObserverHello then claimReporterObserver rid i s1 else s1)"
  have r1: "run_inv cfg rid K s1" "i \<in> node_ids s1" using c1 by (simp_all add: s1_def ctx_inv_def touch_inv)
  have claim: "run_inv cfg rid K (claimReporterObserver rid i s1)" "i \<in> node_ids (claimReporterObserver rid i s1)"
    "map_of (ag_observers (claimReporterObserver rid i s1)) i \<noteq> None"
    using claimReporterObserver_inv [of cfg s1 i rid] r1 unfolding run_inv_def owner_at_def observer_at_def by auto
  then have r2: "run_inv cfg rid K s2" "i \<in> node_ids s2"
    "re_kind report = ReportObserverHello \<Longrightarrow> map_of (ag_observers s2) i \<noteq> None"
    using r1 by (simp_all add: s2_def)
  define f where "f = (\<lambda>n :: node_state. n\<lparr>nd_observable := True, nd_lastEvidence := t, nd_lastReport := t,
              nd_lastCollected := ct, nd_clockSkewMS := milliseconds (time_sub ct t), nd_clockSkewed := isClockSkewed cfg ct t\<rparr>)"
  define s3 where "s3 = update_node i f s2"
  have s3: "touchObserver cfg i ct t s2 = Some s3"
    using deref_node_live [OF r2(2), of f] by (simp add: touchObserver_def f_def s3_def)
  show thesis
  proof (rule that [where ?c1.0 = c1 and ?s3.0 = s3 and i = i])
    show "ctx_inv cfg rid K (c1\<lparr>ax_state := s3\<rparr>)" using r2(1) by (simp add: ctx_inv_def s3_def run_inv_update_node)
    show "i \<in> node_ids s3" using r2(2) by (simp add: s3_def)
    show "re_kind report = ReportObserverHello \<Longrightarrow> map_of (ag_observers s3) i \<noteq> None" using r2(3) by (simp add: s3_def)
    show "ax_touched c1 = ax_touched ctx" by (rule c1(4))
    show "observer_step cfg report t ob ctx =
      (let collectedAt = CollectionTime ob (re_collectedAt report); cell = map_of (ag_observers s3) i; ctx2 = c1\<lparr>ax_state := s3\<rparr>
       in case re_kind report of
        ReportObserverHello \<Rightarrow> inventory_step cfg collectedAt t i cell ob ctx2
      | ReportInventoryUpdate \<Rightarrow> inventory_step cfg collectedAt t i cell ob ctx2
      | ReportTrafficSample \<Rightarrow> Option.bind cell (\<lambda>c.
          fold_opt (traffic_step cfg collectedAt t i) (or_peers ob)
            (ctx2\<lparr>ax_resync := ax_resync ctx2 \<or> generation_differs s3 c ob\<rparr>))
      | ReportObserverHeartbeat \<Rightarrow> Option.bind cell (\<lambda>c.
          Some (ctx2\<lparr>ax_resync := ax_resync ctx2 \<or> generation_differs s3 c ob\<rparr>))
      | _ \<Rightarrow> Some ctx2)"
      unfolding observer_step_def c1(1) Let_def rid ct_def [symmetric] s1_def [symmetric] s2_def [symmetric] s3
        Option.bind.simps prod.case ..
  qed
qed

lemma observer_step_keeps:
  assumes c: "ctx_inv cfg rid K ctx" and rid: "re_reporterInstanceID report = rid"
    and st: "observer_step cfg report t ob ctx = Some ctx'"
  shows "ctx_inv cfg rid K ctx'"
proof -
  from c rid obtain i c1 s3 where p: "ctx_inv cfg rid K (c1\<lparr>ax_state := s3\<rparr>)"
    "observer_step cfg report t ob ctx =
      (let collectedAt = CollectionTime ob (re_collectedAt report); cell = map_of (ag_observers s3) i; ctx2 = c1\<lparr>ax_state := s3\<rparr>
       in case re_kind report of
        ReportObserverHello \<Rightarrow> inventory_step cfg collectedAt t i cell ob ctx2
      | ReportInventoryUpdate \<Rightarrow> inventory_step cfg collectedAt t i cell ob ctx2
      | ReportTrafficSample \<Rightarrow> Option.bind cell (\<lambda>c.
          fold_opt (traffic_step cfg collectedAt t i) (or_peers ob)
            (ctx2\<lparr>ax_resync := ax_resync ctx2 \<or> generation_differs s3 c ob\<rparr>))
      | ReportObserverHeartbeat \<Rightarrow> Option.bind cell (\<lambda>c.
          Some (ctx2\<lparr>ax_resync := ax_resync ctx2 \<or> generation_differs s3 c ob\<rparr>))
      | _ \<Rightarrow> Some ctx2)"
    by (rule observer_step_prefix)
  have p1: "ctx_inv cfg rid K (c1\<lparr>ax_state := s3, ax_resync := b\<rparr>)" for b using p(1) by (simp add: ctx_inv_def)
  show ?thesis
    using st p(1) p1 unfolding p(2)
    by (auto simp: Let_def bind_eq_Some_conv split: report_kind.splits
        intro: inventory_step_keeps traffic.loop_keeps)
qed

interpretation observers: keeping_step "\<lambda>ctx. ctx_inv cfg (re_reporterInstanceID report) K ctx" "observer_step cfg report t"
  for cfg report K t
  by unfold_locales (rule observer_step_keeps [OF _ refl])

interpretation withdrawals: total_step "\<lambda>ctx. ctx_inv cfg (re_reporterInstanceID report) K ctx" "withdraw_step cfg report t"
  for cfg report K t
proof
  show "ctx_inv cfg (re_reporterInstanceID report) K ctx'"
    if "ctx_inv cfg (re_reporterInstanceID report) K ctx" "withdraw_step cfg report t ob ctx = Some ctx'" for ctx ob ctx'
    using withdraw_step_total [OF that(1) refl, of t ob] that(2) by auto
  show "withdraw_step cfg report t ob ctx \<noteq> None" if "ctx_inv cfg (re_reporterInstanceID report) K ctx" for ctx ob
    using withdraw_step_total [OF that refl, of t ob] by auto
qed

lemma session_step_keeps:
  assumes c: "ctx_inv cfg rid K ctx" and rid: "re_reporterInstanceID report = rid"
    and st: "session_step cfg report t se ctx = Some ctx'"
  shows "ctx_inv cfg rid K ctx'"
proof -
  let ?ct = "re_collectedAt report"
  from st obtain i cr c1 s1 a b x y ch s2 where
    c1: "ctx_resolve cfg (rs_relay se) t ctx = Some (i, cr, c1)"
    and s1: "touchObserver cfg i ?ct t (touchIdentityCollected i ?ct (ax_state c1)) = Some s1"
    and s2: "resolveRelaySession cfg i se t (claimReporterObserver rid i s1) = Some (a, b, x, y, ch, s2)"
    by (auto simp: session_step_def bind_eq_Some_conv rid Let_def)
  define s3 where "s3 = touchIdentityCollected b ?ct (touchIdentityCollected a ?ct s2)"
  have rc1: "run_inv cfg rid K (ax_state c1)" "i \<in> node_ids (ax_state c1)"
    using ctx_resolve_keeps [OF c c1] by (simp_all add: ctx_inv_def)
  have r1: "run_inv cfg rid K s1" by (rule touch_inv(3) [OF touch_inv(2) [OF rc1(1)] s1])
  have live: "i \<in> node_ids s1"
    using s1 rc1(2) unfolding touchObserver_def by (auto dest!: deref_node_Some)
  have "run_inv cfg rid K (claimReporterObserver rid i s1)"
    using claimReporterObserver_inv [of cfg s1 i rid] r1 live unfolding run_inv_def by auto
  from resolveRelaySession_total [OF this, of i se t] s2 have "run_inv cfg rid K s2" by auto
  then have r3: "run_inv cfg rid K s3" by (simp add: s3_def touch_inv)
  obtain k p q where e: "EdgeID a b = (k, p, q)" by (cases "EdgeID a b") auto
  show ?thesis
  proof (cases "a = b")
    case True
    then have "ax_state ctx' = s3"
      using st by (auto simp: session_step_def c1 s1 s2 rid Let_def s3_def)
    then show ?thesis using r3 by (simp add: ctx_inv_def)
  next
    case False
    define s4 where "s4 = touchPeer b t (touchPeer a t s3)"
    have r4: "run_inv cfg rid K s4" unfolding s4_def using r3 by (simp add: touch_inv)
    have r6: "run_inv cfg rid K (markSystemTelemetry cfg k a b (applyRelaySession cfg ct t i p q se u v m n s4))"
      for u v m n ct by (intro markSystemTelemetry_inv applyRelaySession_inv r4)
    obtain m n u v T cc where acc: "accept_traffic p q i m n t (cc\<lparr>ax_state :=
        markSystemTelemetry cfg k a b (applyRelaySession cfg ?ct t i p q se u v m n s4), ax_touched := T\<rparr>) = Some ctx'"
      using st False unfolding session_step_def c1 s1 s2 rid Let_def Option.bind.simps prod.case e
        s3_def [symmetric] s4_def [symmetric] by (simp only: if_False)
    show ?thesis by (rule accept_traffic_keeps [OF _ acc]) (simp add: ctx_inv_def r6)
  qed
qed

interpretation sessions: keeping_step "\<lambda>ctx. ctx_inv cfg (re_reporterInstanceID report) K ctx" "session_step cfg report t"
  for cfg report K t
  by unfold_locales (rule session_step_keeps [OF _ refl])

lemma run_report_keeps:
  assumes "ctx_inv cfg (re_reporterInstanceID report) K ctx" "run_report cfg report t ctx = Some ctx'"
  shows "ctx_inv cfg (re_reporterInstanceID report) K ctx'"
  using assms unfolding run_report_def
  by (auto simp: bind_eq_Some_conv split: report_kind.splits
      intro: observers.loop_keeps withdrawals.loop_keeps sessions.loop_keeps)

section \<open>Transitions\<close>

lemma edge_ok_last_known:
  "edge_ok k e \<Longrightarrow> edge_ok k (e\<lparr>ed_lastKnownPath := p, ed_lastKnownConflicts := c, ed_lastKnownDirections := d\<rparr>)"
  by (simp add: edge_ok_def)

lemma transition_step_keeps:
  assumes "run_inv cfg rid K (snd acc)" "transition_step cfg t e acc = Some acc'"
  shows "run_inv cfg rid K (snd acc')"
proof -
  from assms(2) obtain x p where x: "map_of (ag_edges (snd acc)) (fst e) = Some x"
    "snd acc' = put_edge (fst e) (x\<lparr>ed_lastKnownPath := te_path (current_edge cfg t x (snd acc)),
       ed_lastKnownConflicts := te_conflicts (current_edge cfg t x (snd acc)),
       ed_lastKnownDirections := te_directions (current_edge cfg t x (snd acc))\<rparr>) (snd acc)"
    by (auto simp: transition_step_def Let_def bind_eq_Some_conv split: prod.splits)
  show ?thesis
    unfolding x(2) by (intro run_inv_put_edge edge_ok_last_known assms(1)) (rule run_inv_edge_ok [OF assms(1) x(1)])
qed

interpretation transitions: keeping_step "\<lambda>acc. run_inv cfg rid K (snd acc)" "transition_step cfg t" for cfg rid K t
  by unfold_locales (rule transition_step_keeps)

lemma transition_loop_total:
  assumes "\<forall>k \<in> fst ` set es. map_of (ag_edges (snd acc)) k \<noteq> None"
  shows "\<exists>acc'. fold_opt (transition_step cfg t) es acc = Some acc'"
  using assms
proof (induction es arbitrary: acc)
  case (Cons e es)
  obtain x where x: "map_of (ag_edges (snd acc)) (fst e) = Some x" using Cons.prems by auto
  then obtain acc1 where a1: "transition_step cfg t e acc = Some acc1"
    "\<And>k. map_of (ag_edges (snd acc1)) k = None \<longleftrightarrow> map_of (ag_edges (snd acc)) k = None"
    by (cases e) (auto simp: transition_step_def Let_def)
  then show ?case using Cons.IH [of acc1] Cons.prems by simp
qed simp

section \<open>Applying a report\<close>

lemma close_report_inv:
  assumes "run_inv cfg rid K s"
  shows "agg_inv cfg (update_reporter rid (close_report report t) s)"
    "known_ids (update_reporter rid (close_report report t) s) = known_ids s"
proof -
  have ids: "rt_observerIDs (close_report report t r) = rt_observerIDs r" for r
    by (simp add: close_report_def Let_def)
  have own: "owner_at (update_reporter rid (close_report report t) s) = owner_at s"
    by (simp add: owner_at_def observer_at_def fun_eq_iff)
  have "owners_ok s" using assms by (simp add: run_inv_def agg_inv_def)
  then have "owners_ok (update_reporter rid (close_report report t) s)"
    using assms unfolding owners_alt own run_inv_def by (auto simp: ids)
  then show "agg_inv cfg (update_reporter rid (close_report report t) s)"
    using assms unfolding run_inv_def agg_inv_def aliases_ok_def redirects_ok_def observers_ok_def distinct_cells_def
      edges_ok_def ids_ok_def node_ids_def by simp
  show "known_ids (update_reporter rid (close_report report t) s) = known_ids s"
    by (simp add: known_ids_def node_ids_def)
qed

lemma ensured_run_inv:
  assumes "agg_inv cfg s" "good_source cfg" "rid \<noteq> []"
  shows "run_inv cfg rid (known_ids s) (ensure_reporter rid (pruneIndexes cfg t s))"
proof -
  let ?p = "pruneIndexes cfg t s"
  have "agg_inv cfg (ensure_reporter rid ?p)" by (intro ensure_reporter_inv pruneIndexes_inv assms)
  moreover have "known_ids (ensure_reporter rid ?p) = known_ids s"
    using pruneIndexes_known [of cfg t s]
    by (simp add: ensure_reporter_def known_ids_def node_ids_def split: option.splits)
  moreover have "map_of (ag_reporters (ensure_reporter rid ?p)) rid \<noteq> None"
    by (simp add: ensure_reporter_def split: option.splits)
  ultimately show ?thesis using assms by (simp add: run_inv_def)
qed

lemma forget_new_reporter:
  assumes "agg_inv cfg p" "map_of (ag_reporters p) rid = None"
  shows "agg_inv cfg ((ensure_reporter rid p)\<lparr>ag_reporters := mdel rid (ag_reporters (ensure_reporter rid p))\<rparr>)"
proof -
  let ?s = "(ensure_reporter rid p)\<lparr>ag_reporters := mdel rid (ag_reporters (ensure_reporter rid p))\<rparr>"
  have rep: "map_of (ag_reporters ?s) = map_of (ag_reporters p)"
    using assms(2) by (auto simp: ensure_reporter_def fun_eq_iff)
  have own: "owner_at ?s = owner_at p"
    using assms(2) by (simp add: ensure_reporter_def owner_at_def observer_at_def fun_eq_iff)
  have "owners_ok ?s" using assms(1) unfolding owners_alt rep own agg_inv_def by blast
  then show ?thesis
    using assms unfolding agg_inv_def aliases_ok_def redirects_ok_def observers_ok_def distinct_cells_def
      edges_ok_def ids_ok_def node_ids_def by (simp add: ensure_reporter_def)
qed

definition start_ctx :: "agg_state \<Rightarrow> bool \<Rightarrow> apply_ctx" where
  "start_ctx s gap = \<lparr>ax_state = s, ax_touched = [], ax_traffic = [], ax_resync = gap, ax_canonical = False,
     ax_checkpoint = False\<rparr>"

text \<open>The ways in which \<open>applyLocked\<close> returns.\<close>

lemma applyLocked_cases:
  assumes "applyLocked cfg report t s0 = Some (res, s')"
  obtains (quiet) "\<not> ar_changed res" "s' = ensure_reporter (re_reporterInstanceID report) (pruneIndexes cfg t s0)"
  | (refused) "\<not> ar_changed res" "map_of (ag_reporters (pruneIndexes cfg t s0)) (re_reporterInstanceID report) = None"
      "s' = (ensure_reporter (re_reporterInstanceID report) (pruneIndexes cfg t s0))\<lparr>ag_reporters :=
        mdel (re_reporterInstanceID report)
          (ag_reporters (ensure_reporter (re_reporterInstanceID report) (pruneIndexes cfg t s0)))\<rparr>"
  | (applied) ctx ts s1 gap where "ar_changed res"
      "run_report cfg report t (start_ctx (ensure_reporter (re_reporterInstanceID report) (pruneIndexes cfg t s0)) gap) = Some ctx"
      "fold_opt (transition_step cfg t) (ax_touched ctx) ([], ax_state ctx) = Some (ts, s1)"
      "s' = update_reporter (re_reporterInstanceID report) (close_report report t) s1"
      "ar_transitions res = ts" "ar_traffic res = ax_traffic ctx" "ar_canonicalStateChanged res = ax_canonical ctx"
  using assms unfolding applyLocked_def Let_def start_ctx_def [symmetric]
  by (auto simp: unchanged_result_def bind_eq_Some_conv split: if_splits)

lemma applyLocked_inv:
  assumes inv: "agg_inv cfg s0" and src: "good_source cfg" and rid: "re_reporterInstanceID report \<noteq> []"
    and a: "applyLocked cfg report t s0 = Some (res, s')"
  shows "agg_inv cfg s' \<and> known_ids s0 \<subseteq> known_ids s'"
proof -
  let ?rid = "re_reporterInstanceID report"
  let ?p = "pruneIndexes cfg t s0"
  note r = ensured_run_inv [OF inv src rid, of t]
  from a show ?thesis
  proof (cases rule: applyLocked_cases)
    case quiet
    then show ?thesis using r by (simp add: run_inv_def)
  next
    case refused
    have "known_ids s' = known_ids s0"
      using refused(2,3) pruneIndexes_known [of cfg t s0] by (simp add: known_ids_def node_ids_def ensure_reporter_def)
    then show ?thesis
      unfolding refused(3) using forget_new_reporter [OF pruneIndexes_inv [OF inv] refused(2)] by simp
  next
    case (applied ctx ts s1 gap)
    have "ctx_inv cfg ?rid (known_ids s0) (start_ctx (ensure_reporter ?rid ?p) gap)"
      using r by (simp add: ctx_inv_def start_ctx_def)
    then have "ctx_inv cfg ?rid (known_ids s0) ctx" using applied(2) by (rule run_report_keeps)
    then have "run_inv cfg ?rid (known_ids s0) (snd (ts, s1))"
      using transitions.loop_keeps [OF applied(3)] by (simp add: ctx_inv_def)
    then show ?thesis
      unfolding applied(4) using close_report_inv [of cfg ?rid "known_ids s0" s1] by (simp add: run_inv_def)
  qed
qed

lemma valid_reporter: "ValidateReport report = None \<Longrightarrow> re_reporterInstanceID report \<noteq> []"
  by (auto simp: ValidateReport_def split: if_splits)

lemma ApplyAt_inv:
  assumes "agg_inv cfg s" "good_source cfg" "ApplyAt cfg report t now s = Some (Inr (res, s'))"
  shows "agg_inv cfg s' \<and> known_ids s \<subseteq> known_ids s'"
proof -
  have v: "ValidateReport report = None"
    and a: "applyLocked cfg report (if t = 0 then now else t) s = Some (res, s')"
    using assms(3) by (auto simp: ApplyAt_def split: option.splits)
  show ?thesis by (rule applyLocked_inv [OF assms(1,2) valid_reporter [OF v] a])
qed

end
