(* ===== verification/Agg_Examples.thy ===== *)
theory Agg_Examples
  imports Agg_Invariants
begin

text \<open>
  A small fleet for the concrete cases: an aggregator with the default heartbeat and node ids \<open>n\<close>, \<open>nn\<close>,
  \<open>nnn\<close> and so on, and reports of one observer each, all received at one time.
\<close>

section \<open>Evaluating cells\<close>

text \<open>
  Code equations that keep a cell store an evaluated chain of updates; the definitions would keep the
  whole state under a lambda.
\<close>

definition upd_cell :: "('a \<Rightarrow> 'b) \<Rightarrow> 'a \<Rightarrow> 'b \<Rightarrow> 'a \<Rightarrow> 'b" where
  "upd_cell f c v = f(c := v)"

definition set_observer_cells :: "(nat \<Rightarrow> observer_state) \<Rightarrow> agg_state \<Rightarrow> agg_state" where
  "set_observer_cells f s = s\<lparr>ag_observerCells := f\<rparr>"

definition rename_cells ::
  "string \<Rightarrow> string \<Rightarrow> (string, nat) gomap \<Rightarrow> (nat \<Rightarrow> observer_state) \<Rightarrow> nat \<Rightarrow> observer_state" where
  "rename_cells keepID removeID cells f c =
     (if c \<in> snd ` set cells
      then (f c)\<lparr>ob_membership := rename_in_set keepID removeID (ob_membership (f c))\<rparr> else f c)"

lemma upd_cell_code [code]: "upd_cell f c v x = (if x = c then v else f x)"
  by (simp add: upd_cell_def)

lemma put_observer_code [code]:
  "put_observer c ob s = set_observer_cells (upd_cell (ag_observerCells s) c ob) s"
  by (simp add: put_observer_def set_observer_cells_def upd_cell_def)

lemma rename_members_code [code]:
  "rename_members keepID removeID s =
     set_observer_cells (rename_cells keepID removeID (ag_observers s) (ag_observerCells s)) s"
  by (simp add: rename_members_def set_observer_cells_def rename_cells_def [abs_def])

section \<open>The fleet\<close>

definition ex_source :: "nat \<Rightarrow> string" where
  "ex_source n = replicate (Suc n) (CHR ''n'')"

definition ex_config :: agg_config where
  "ex_config = new_config 0 [] ex_source"

definition ex_time :: time where
  "ex_time = 10"

definition ex_identity :: "string \<Rightarrow> string \<Rightarrow> node_identity" where
  "ex_identity stableID nodeKey = no_identity\<lparr>ni_stableNodeID := stableID, ni_nodeKey := nodeKey\<rparr>"

definition ex_peer :: "node_identity \<Rightarrow> int \<Rightarrow> peer_observation" where
  "ex_peer identity bytes =
     \<lparr>pe_peer = identity, pe_rxBytes = 0, pe_txBytes = bytes, pe_rxDelta = 0, pe_txDelta = bytes,
      pe_sampleDurationMS = 1000, pe_path = no_path\<lparr>po_kind := PathDirect\<rparr>, pe_fallbackPath = None,
      pe_pathEvidence = NoPathEvidence, pe_inferenceRule = [], pe_lastActive = 0\<rparr>"

definition ex_report ::
  "report_kind \<Rightarrow> int \<Rightarrow> node_identity \<Rightarrow> peer_observation list \<Rightarrow> report_envelope" where
  "ex_report kind sq observer peers =
     \<lparr>re_version = ProtocolVersion, re_reportID = show_int sq, re_reporterInstanceID = ''r'', re_sequence = sq,
      re_collectedAt = ex_time, re_kind = kind,
      re_observers =
        [\<lparr>or_observer = observer, or_inventoryGeneration = ''g'', or_collectedAt = None, or_peers = peers\<rparr>],
      re_relaySessions = []\<rparr>"

definition ex_apply :: "report_envelope \<Rightarrow> agg_state \<Rightarrow> (report_error + apply_result \<times> agg_state) option" where
  "ex_apply report = ApplyAt ex_config report ex_time ex_time"

text \<open>The state after reports that all return.\<close>

fun ex_run :: "report_envelope list \<Rightarrow> agg_state \<Rightarrow> agg_state option" where
  "ex_run [] s = Some s"
| "ex_run (report # rest) s = (case ex_apply report s of Some (Inr (_, s')) \<Rightarrow> ex_run rest s' | _ \<Rightarrow> None)"

lemma ex_source_good: "good_source ex_config"
proof -
  have "inj ex_source"
  proof
    fix m n assume "ex_source m = ex_source n"
    then have "length (ex_source m) = length (ex_source n)" by simp
    then show "m = n" by (simp add: ex_source_def)
  qed
  then show ?thesis by (simp add: good_source_def ex_config_def new_config_def ex_source_def)
qed

text \<open>
  An observer with stable id \<open>a\<close> says hello with two peers, \<open>b\<close> known by its stable id and another known
  by its node key \<open>k\<close>. Its next hello says that \<open>k\<close> is \<open>b\<close>'s key.
\<close>

definition ex_hello :: report_envelope where
  "ex_hello = ex_report ReportObserverHello 1 (ex_identity ''a'' [])
     [ex_peer (ex_identity ''b'' []) 0, ex_peer (ex_identity [] ''k'') 0]"

definition ex_again :: report_envelope where
  "ex_again = ex_report ReportObserverHello 2 (ex_identity ''a'' []) [ex_peer (ex_identity ''b'' ''k'') 0]"

definition ex_view :: "agg_state \<Rightarrow> string list \<times> (string, string) gomap" where
  "ex_view s = (mkeys (ag_nodes s), ag_redirects s)"

lemma ex_hello_run: "map_option ex_view (ex_run [ex_hello] newRuntimeState) = Some ([''n'', ''nn'', ''nnn''], [])"
  by code_simp

lemma ex_again_run:
  "map_option ex_view (ex_run [ex_hello, ex_again] newRuntimeState) = Some ([''n'', ''nn''], [(''nnn'', ''nn'')])"
  by code_simp

end
