(* ===== verification/Agg_Theorems.thy ===== *)
theory Agg_Theorems
  imports Agg_Invariants Agg_Examples
begin

text \<open>
  What holds of the aggregator as a whole: reachable states and their invariant, where merged ids
  lead, idempotent reports, and when a report cannot panic.
\<close>

section \<open>The directory keeps the invariant\<close>

lemma strong_aliases_stable:
  "strong_aliases (no_identity\<lparr>ni_stableNodeID := x\<rparr>) =
     (if trim_space x \<noteq> [] \<and> trim_space x \<noteq> ''0'' then [''stable:'' @ trim_space x] else [])"
  by (simp add: strong_aliases_def no_identity_def List.map_filter_simps Let_def)

lemma address_aliases_stable: "address_aliases (no_identity\<lparr>ni_stableNodeID := x\<rparr>) = []"
  by (simp add: address_aliases_def no_identity_def)

text \<open>An identity with only an unknown, trimmed stable id becomes a new node.\<close>

lemma resolve_unknown_stable:
  assumes "alias_of s (''stable:'' @ x) = []" "trim_space x = x"
  defines "i \<equiv> no_identity\<lparr>ni_stableNodeID := x\<rparr>"
  obtains n s1 where "create_node cfg i (identityStatus i) t s = (n, s1)"
    "resolveIdentity cfg i t s = Some (n, True, True, claim_aliases i n t s1)"
proof -
  have "withoutConflictingStableAliases i s = i"
    by (simp add: withoutConflictingStableAliases_def i_def no_identity_def Let_def)
  moreover have "strong_aliases i = [] \<or> strong_aliases i = [''stable:'' @ x]" "address_aliases i = []"
    using assms(2) unfolding i_def by (simp_all only: strong_aliases_stable address_aliases_stable) simp
  then have "identity_matches cfg i t s = []"
    using assms(1) by (elim disjE) (simp_all add: identity_matches_def)
  moreover obtain n s1 where "create_node cfg i (identityStatus i) t s = (n, s1)"
    by (cases "create_node cfg i (identityStatus i) t s") auto
  ultimately show thesis using that by (simp add: resolveIdentity_def)
qed

lemma conflictingStableAlias_live:
  "conflictingStableAlias x a s \<noteq> [] \<Longrightarrow> conflictingStableAlias x a s \<in> node_ids s"
  by (auto simp: conflictingStableAlias_def Let_def node_ids_def split: option.splits if_splits)

lemma stable_alias_inv:
  "agg_inv cfg s \<Longrightarrow> n \<in> node_ids s \<Longrightarrow> agg_inv cfg (s\<lparr>ag_aliases := mput a n (ag_aliases s)\<rparr>)"
  unfolding agg_inv_def aliases_ok_def redirects_ok_def observers_ok_def distinct_cells_def
    edges_ok_def owners_ok_def ids_ok_def node_ids_def observer_at_def by simp

lemma ids_of_alias_update [simp]:
  "node_ids (s\<lparr>ag_aliases := m\<rparr>) = node_ids s" "known_ids (s\<lparr>ag_aliases := m\<rparr>) = known_ids s"
  by (simp_all add: node_ids_def known_ids_def)

lemma resolveDirectoryDevice_total:
  assumes inv: "agg_inv cfg s" and src: "good_source cfg" and trim: "trim_space (dd_stableNodeID d) = dd_stableNodeID d"
  shows "\<exists>n conf created changed s'. resolveDirectoryDevice cfg d t b s = Some (n, conf, created, changed, s') \<and>
    agg_inv cfg s' \<and> n \<in> node_ids s' \<and> known_ids s \<subseteq> known_ids s' \<and> (conf \<noteq> [] \<longrightarrow> conf \<in> node_ids s')"
proof -
  let ?sa = "''stable:'' @ dd_stableNodeID d" and ?ka = "''node-key:'' @ dd_nodeKey d"
  let ?i = "no_identity\<lparr>ni_stableNodeID := dd_stableNodeID d\<rparr>"
  define n where "n = alias_of s ?sa"
  define k where "k = alias_of s ?ka"
  define useKey where "useKey = (dd_nodeKey d \<noteq> [] \<and> \<not> b \<and> k \<noteq> [])"
  define conf where "conf = (if useKey then conflictingStableAlias (dd_stableNodeID d) ?ka s else [])"
  have cl: "conf \<noteq> [] \<longrightarrow> conf \<in> node_ids s"
    by (simp add: conf_def conflictingStableAlias_live)
  have eq: "resolveDirectoryDevice cfg d t b s =
    (if useKey \<and> conf = [] \<and> n = [] then do {
           s1 \<leftarrow> deref_node k
             (\<lambda>n. n\<lparr>nd_identity := mergeIdentity (nd_identity n) ?i, nd_status := IdentityResolved\<rparr>) s;
           Some (k, conf, False, True, s1\<lparr>ag_aliases := mput ?sa k (ag_aliases s1)\<rparr>)
         }
         else if n = [] then do {
           (resolved, created, changed, s1) \<leftarrow> resolveIdentity cfg ?i t s;
           Some (resolved, conf, created, changed, s1)
         }
         else if useKey \<and> conf = [] \<and> k \<noteq> n
         then Some (n, conf, False, True, mergeNodes n k s)
         else Some (n, conf, False, False, s))"
    unfolding resolveDirectoryDevice_def Let_def n_def k_def useKey_def conf_def ..
  consider "useKey \<and> conf = [] \<and> n = []" | "\<not> (useKey \<and> conf = [])" "n = []" | "n \<noteq> []" by blast
  then show ?thesis
  proof cases
    case 1
    then have live: "k \<in> node_ids s" using alias_of_live [OF inv] by (simp add: k_def useKey_def)
    define f where "f = (\<lambda>m :: node_state. m\<lparr>nd_identity := mergeIdentity (nd_identity m) ?i, nd_status := IdentityResolved\<rparr>)"
    define s1 where "s1 = update_node k f s"
    have i1: "agg_inv cfg s1" "node_ids s1 = node_ids s" "known_ids s1 = known_ids s"
      by (simp_all add: s1_def update_node_inv [OF inv] known_ids_def)
    have e: "resolveDirectoryDevice cfg d t b s = Some (k, conf, False, True, s1\<lparr>ag_aliases := mput ?sa k (ag_aliases s1)\<rparr>)"
      unfolding eq f_def [symmetric] using 1 deref_node_live [OF live, of f] by (simp add: s1_def)
    show ?thesis unfolding e using 1 live i1 by (auto simp: stable_alias_inv)
  next
    case 2
    obtain m s1 where m: "create_node cfg ?i (identityStatus ?i) t s = (m, s1)"
      "resolveIdentity cfg ?i t s = Some (m, True, True, claim_aliases ?i m t s1)"
      using resolve_unknown_stable [of s "dd_stableNodeID d" cfg t] 2(2) trim unfolding n_def by blast
    note c = create_node_inv [OF inv src m(1)]
    have e: "resolveDirectoryDevice cfg d t b s = Some (m, conf, True, True, claim_aliases ?i m t s1)"
      unfolding eq using 2 m(2) by auto
    have "agg_inv cfg (claim_aliases ?i m t s1)" using c by (intro claim_aliases_inv) auto
    then show ?thesis unfolding e using c cl by auto
  next
    case 3
    then have live: "n \<in> node_ids s" using alias_of_live [OF inv] by (simp add: n_def)
    show ?thesis
    proof (cases "useKey \<and> conf = [] \<and> k \<noteq> n")
      case True
      have "n \<in> node_ids (mergeNodes n k s)" "known_ids (mergeNodes n k s) = known_ids s"
        using live True mergeNodes_ids [of n k s] mergeNodes_skip [of n k s] by (cases "mergeable n k s"; auto)+
      then show ?thesis unfolding eq using 3 True mergeNodes_inv [OF inv, of n k] by auto
    next
      case False
      then have "resolveDirectoryDevice cfg d t b s = Some (n, conf, False, False, s)"
        unfolding eq using 3 by auto
      then show ?thesis using inv live cl by auto
    qed
  qed
qed

definition dx_inv :: "agg_config \<Rightarrow> string set \<Rightarrow> directory_ctx \<Rightarrow> bool" where
  "dx_inv cfg K ctx \<longleftrightarrow> agg_inv cfg (dx_state ctx) \<and> K \<subseteq> known_ids (dx_state ctx)"

lemma device_step_total:
  assumes dx: "dx_inv cfg K ctx" and src: "good_source cfg" and trim: "trim_space (dd_stableNodeID d) = dd_stableNodeID d"
  shows "\<exists>ctx'. device_step cfg sn d ctx = Some ctx' \<and> dx_inv cfg K ctx'"
proof -
  define b where "b = (map_of (ConflictingNodeKeys sn) (dd_nodeKey d) \<noteq> None)"
  have inv: "agg_inv cfg (dx_state ctx)" using dx by (simp add: dx_inv_def)
  obtain n conf created changed s1 where
    r: "resolveDirectoryDevice cfg d (sn_collectedAt sn) b (dx_state ctx) = Some (n, conf, created, changed, s1)"
    and i1: "agg_inv cfg s1" and live: "n \<in> node_ids s1" "known_ids (dx_state ctx) \<subseteq> known_ids s1"
      "conf \<noteq> [] \<longrightarrow> conf \<in> node_ids s1"
    using resolveDirectoryDevice_total [OF inv src trim, of "sn_collectedAt sn" b] by blast
  define f where "f = (\<lambda>n :: node_state. n\<lparr>nd_lastEvidence := 0, nd_identityCollectedAt := 0\<rparr>)"
  define s2 where "s2 = (if created then update_node n f s1 else s1)"
  have s2: "(if created then deref_node n f s1 else Some s1) = Some s2"
    using deref_node_live [OF live(1), of f] by (simp add: s2_def)
  have i2: "agg_inv cfg s2" "node_ids s2 = node_ids s1" "known_ids s2 = known_ids s1"
    using i1 by (simp_all add: s2_def update_node_inv known_ids_def)
  have K: "K \<subseteq> known_ids s2" using dx live(2) i2(3) by (auto simp: dx_inv_def)
  have eq: "device_step cfg sn d ctx = do {
      conflicts \<leftarrow> (if conf \<noteq> [] \<and> conf \<noteq> n then do {
                      other \<leftarrow> map_of (ag_nodes s2) conf;
                      Some (add_conflict conf (dd_stableNodeID d)
                        (add_conflict n (ni_stableNodeID (nd_identity other)) (dx_conflicts ctx)))
                    }
                    else Some (dx_conflicts ctx));
      Some \<lparr>dx_state = s2,
        dx_canonicalIDs = mput (dd_stableNodeID d) n (dx_canonicalIDs ctx),
        dx_conflicts = conflicts,
        dx_canonicalChanged = dx_canonicalChanged ctx \<or> changed\<rparr>
    }"
    unfolding device_step_def Let_def b_def [symmetric] f_def [symmetric] r Option.bind.simps prod.case s2 ..
  show ?thesis
  proof (cases "conf \<noteq> [] \<and> conf \<noteq> n")
    case True
    then obtain other where "map_of (ag_nodes s2) conf = Some other"
      using live(3) i2(2) live_node [of conf s2] by auto
    then show ?thesis unfolding eq using True i2(1) K by (simp add: dx_inv_def)
  next
    case False
    then show ?thesis unfolding eq using i2(1) K by (auto simp: dx_inv_def)
  qed
qed

lemma normalized_trimmed:
  assumes "NormalizeDirectorySnapshot sn = Inr (t, n)" "d \<in> set (sn_devices t)"
  shows "trim_space (dd_stableNodeID d) = dd_stableNodeID d"
proof -
  obtain ds where ds: "normalize_devices {} (sn_devices sn) = Inr (ds, n)" "d \<in> set ds"
    using assms by (auto simp: NormalizeDirectorySnapshot_def split: if_splits sum.splits prod.splits)
  then obtain x where "d = fst (normalizeDirectoryDevice x)"
    using normalize_devices_ok [OF ds(1)] by auto
  then show ?thesis by (simp add: normalizeDirectoryDevice_def split: prod.splits)
qed

lemma directory_field_inv:
  "agg_inv cfg s \<Longrightarrow> agg_inv cfg (s\<lparr>ag_directory := d\<rparr>)" "known_ids (s\<lparr>ag_directory := d\<rparr>) = known_ids s"
  by (simp_all add: agg_inv_frame known_ids_def node_ids_def)

lemma ApplyDirectorySnapshot_total:
  assumes inv: "agg_inv cfg s" and src: "good_source cfg"
  shows "\<exists>r. ApplyDirectorySnapshot cfg sn sync s = Some r \<and>
    (\<forall>changed n s'. r = Inr (changed, n, s') \<longrightarrow> agg_inv cfg s' \<and> known_ids s \<subseteq> known_ids s')"
proof (cases "NormalizeDirectorySnapshot sn")
  case (Inr p)
  obtain t n where p: "p = (t, n)" by (cases p)
  have "\<exists>ctx. fold_opt (device_step cfg t) (sn_devices t)
      \<lparr>dx_state = s, dx_canonicalIDs = [], dx_conflicts = [], dx_canonicalChanged = False\<rparr> = Some ctx \<and>
    dx_inv cfg (known_ids s) ctx"
    using device_step_total [OF _ src normalized_trimmed [OF Inr [unfolded p]]] inv
    by (intro fold_opt_total [where P = "dx_inv cfg (known_ids s)"]) (simp_all add: dx_inv_def)
  then obtain ctx where ctx: "fold_opt (device_step cfg t) (sn_devices t)
      \<lparr>dx_state = s, dx_canonicalIDs = [], dx_conflicts = [], dx_canonicalChanged = False\<rparr> = Some ctx"
    "dx_inv cfg (known_ids s) ctx" by blast
  then show ?thesis
    by (auto simp: ApplyDirectorySnapshot_def Inr p Let_def applyDirectorySnapshotLocked_def dx_inv_def
        directory_field_inv split: option.splits)
qed (simp add: ApplyDirectorySnapshot_def)

section \<open>Reachable states\<close>

text \<open>The iteration order of a Go map is not fixed: any other order of its entries is the same map.\<close>

definition permuted :: "('k, 'v) gomap \<Rightarrow> ('k, 'v) gomap \<Rightarrow> bool" where
  "permuted m m' \<longleftrightarrow> wf_map m \<and> mset m' = mset m"

lemma permuted_same: "permuted m m' \<Longrightarrow> wf_map m' \<and> map_of m' = map_of m"
proof
  assume p: "permuted m m'"
  then have "mset (map fst m') = mset (map fst m)" by (simp add: permuted_def)
  then show wf: "wf_map m'"
    using p mset_eq_imp_distinct_iff by (fastforce simp: permuted_def wf_map_def)
  show "map_of m' = map_of m"
  proof
    fix k
    have "(k, v) \<in> set m' \<longleftrightarrow> (k, v) \<in> set m" for v using p by (auto simp: permuted_def dest: mset_eq_setD)
    then show "map_of m' k = map_of m k"
      using wf p map_of_wf [of m' k] map_of_wf [of m k] unfolding permuted_def by (metis option.exhaust)
  qed
qed

definition reordered :: "agg_state \<Rightarrow> agg_state \<Rightarrow> bool" where
  "reordered s s' \<longleftrightarrow>
     permuted (ag_reporters s) (ag_reporters s') \<and> permuted (ag_observers s) (ag_observers s') \<and>
     permuted (ag_nodes s) (ag_nodes s') \<and> permuted (ag_aliases s) (ag_aliases s') \<and>
     permuted (ag_redirects s) (ag_redirects s') \<and> permuted (ag_edges s) (ag_edges s') \<and>
     permuted (ag_scopes s) (ag_scopes s') \<and> permuted (ag_aliasLastSeen s) (ag_aliasLastSeen s') \<and>
     ag_observerCells s' = ag_observerCells s \<and> ag_scopeCells s' = ag_scopeCells s \<and>
     ag_sessionCells s' = ag_sessionCells s \<and> ag_directory s' = ag_directory s \<and>
     ag_nextCell s' = ag_nextCell s \<and> ag_usedIDs s' = ag_usedIDs s"

lemma reordered_inv:
  assumes "reordered s s'" "agg_inv cfg s"
  shows "agg_inv cfg s'" "known_ids s' = known_ids s" "node_ids s' = node_ids s"
proof -
  have m: "map_of (ag_reporters s') = map_of (ag_reporters s)" "map_of (ag_observers s') = map_of (ag_observers s)"
    "map_of (ag_nodes s') = map_of (ag_nodes s)" "map_of (ag_aliases s') = map_of (ag_aliases s)"
    "map_of (ag_redirects s') = map_of (ag_redirects s)" "map_of (ag_edges s') = map_of (ag_edges s)"
    and w: "wf_map (ag_observers s')" "wf_map (ag_nodes s')" "wf_map (ag_edges s')"
    and c: "ag_observerCells s' = ag_observerCells s" "ag_nextCell s' = ag_nextCell s" "ag_usedIDs s' = ag_usedIDs s"
    using assms(1) permuted_same unfolding reordered_def by blast+
  have at: "observer_at s' = observer_at s" by (simp add: observer_at_def m c fun_eq_iff)
  show ids: "node_ids s' = node_ids s" by (simp add: node_ids_def m)
  show "known_ids s' = known_ids s" by (simp add: known_ids_def ids m)
  show "agg_inv cfg s'"
    using assms(2) w unfolding agg_inv_def agg_inv_parts ids at by (simp only: m c) blast
qed

text \<open>
  What the process does between two panics: it applies reports and directory snapshots, updates or
  clears the directory, and finds its maps in another order.
\<close>

inductive agg_other_step :: "agg_config \<Rightarrow> agg_state \<Rightarrow> agg_state \<Rightarrow> bool" for cfg where
  step_directory: "ApplyDirectorySnapshot cfg snap sync s = Some (Inr (changed, n, s')) \<Longrightarrow> agg_other_step cfg s s'"
| step_sync: "UpdateDirectorySyncState sync s = Inr s' \<Longrightarrow> agg_other_step cfg s s'"
| step_clear: "ClearDirectory s = (changed, s') \<Longrightarrow> agg_other_step cfg s s'"
| step_order: "reordered s s' \<Longrightarrow> agg_other_step cfg s s'"
| step_observations: "map_of (ag_edges s) k = Some e \<Longrightarrow> permuted (ed_observations e) obs \<Longrightarrow>
    agg_other_step cfg s (put_edge k (e\<lparr>ed_observations := obs\<rparr>) s)"

inductive agg_step :: "agg_config \<Rightarrow> agg_state \<Rightarrow> agg_state \<Rightarrow> bool" for cfg where
  step_report: "ApplyAt cfg report receivedAt now s = Some (Inr (res, s')) \<Longrightarrow> agg_step cfg s s'"
| step_other: "agg_other_step cfg s s' \<Longrightarrow> agg_step cfg s s'"

inductive agg_steps :: "agg_config \<Rightarrow> agg_state \<Rightarrow> agg_state \<Rightarrow> bool" for cfg where
  steps_refl: "agg_steps cfg s s"
| steps_step: "agg_steps cfg s t \<Longrightarrow> agg_step cfg t u \<Longrightarrow> agg_steps cfg s u"

abbreviation agg_reachable :: "agg_config \<Rightarrow> agg_state \<Rightarrow> bool" where
  "agg_reachable cfg s \<equiv> agg_steps cfg newRuntimeState s"

lemma edge_ok_permuted: "edge_ok k e \<Longrightarrow> permuted (ed_observations e) obs \<Longrightarrow> edge_ok k (e\<lparr>ed_observations := obs\<rparr>)"
  by (auto simp: edge_ok_def dest: permuted_same)

lemma agg_other_step_inv:
  assumes "agg_other_step cfg s s'" "good_source cfg" "agg_inv cfg s"
  shows "agg_inv cfg s' \<and> known_ids s \<subseteq> known_ids s'"
  using assms
proof (induction rule: agg_other_step.induct)
  case (step_directory snap sync s changed n s')
  then show ?case using ApplyDirectorySnapshot_total [of cfg s snap sync] by auto
next
  case (step_sync sync s s')
  then show ?case
    by (auto simp: UpdateDirectorySyncState_def directory_field_inv split: option.splits if_splits)
next
  case (step_clear s changed s')
  then show ?case by (auto simp: ClearDirectory_def directory_field_inv split: if_splits)
next
  case (step_order s s')
  then show ?case using reordered_inv [of s s' cfg] by simp
next
  case (step_observations s k e obs)
  then have "edge_ok k e" by (auto simp: agg_inv_def edges_ok_def)
  then show ?case using step_observations by (simp add: put_edge_inv edge_ok_permuted)
qed

lemma agg_step_inv:
  assumes "agg_step cfg s s'" "good_source cfg" "agg_inv cfg s"
  shows "agg_inv cfg s' \<and> known_ids s \<subseteq> known_ids s'"
  using assms
proof (induction rule: agg_step.induct)
  case (step_report report receivedAt now s res s')
  then show ?case by (intro ApplyAt_inv)
qed (rule agg_other_step_inv)

lemma agg_steps_inv:
  assumes "agg_steps cfg s s'" "good_source cfg" "agg_inv cfg s"
  shows "agg_inv cfg s' \<and> known_ids s \<subseteq> known_ids s'"
  using assms by (induction rule: agg_steps.induct) (auto dest: agg_step_inv)

section \<open>Where the ids of merged nodes lead\<close>

text \<open>Redirects that lead from dead ids to live ones, in one hop.\<close>

locale flat_redirects =
  fixes ok :: "'s \<Rightarrow> bool" and redirects :: "'s \<Rightarrow> (string, string) gomap" and live :: "'s \<Rightarrow> string set"
  assumes dead_to_live: "ok s \<Longrightarrow> map_of (redirects s) n = Some t \<Longrightarrow> n \<notin> live s \<and> t \<in> live s"
    and no_empty: "ok s \<Longrightarrow> [] \<notin> live s"
begin

lemma live_stays: "ok s \<Longrightarrow> n \<in> live s \<Longrightarrow> resolveDirectionalNodeID (redirects s) n = n"
  using dead_to_live [of s n]
  by (cases "map_of (redirects s) n") (auto simp: resolveDirectionalNodeID_def resolve_redirect.simps str_at_def)

lemma dead_one_hop:
  assumes "ok s" "map_of (redirects s) n = Some t"
  shows "resolveDirectionalNodeID (redirects s) n = t"
proof -
  have t: "t \<in> live s" "n \<notin> live s" using dead_to_live assms by blast+
  then have "str_at (redirects s) n = t" "str_at (redirects s) t = []" "t \<noteq> []"
    using assms dead_to_live [OF assms(1), of t] no_empty [OF assms(1)]
    by (auto simp: str_at_def split: option.splits)
  then show ?thesis by (simp add: resolveDirectionalNodeID_def resolve_redirect.simps)
qed

lemma leads_to_live:
  "ok s \<Longrightarrow> n \<in> live s \<or> map_of (redirects s) n \<noteq> None \<Longrightarrow> resolveDirectionalNodeID (redirects s) n \<in> live s"
  using live_stays dead_one_hop dead_to_live by (metis option.exhaust)

lemma resolve_twice:
  "ok s \<Longrightarrow> n \<in> live s \<or> map_of (redirects s) n \<noteq> None \<Longrightarrow>
     resolveDirectionalNodeID (redirects s) (resolveDirectionalNodeID (redirects s) n) =
     resolveDirectionalNodeID (redirects s) n"
  using leads_to_live live_stays by blast

end

interpretation aggregator: flat_redirects "agg_inv cfg" ag_redirects node_ids for cfg
  by unfold_locales (auto simp: agg_inv_def redirects_ok_def ids_ok_def)

section \<open>Nothing mentions a merged node\<close>

text \<open>\<open>r\<close> is named by no edge; by no part of the state that names nodes.\<close>

definition edge_avoids :: "string \<Rightarrow> edge_state \<Rightarrow> bool" where
  "edge_avoids r e \<longleftrightarrow>
     ed_source e \<noteq> r \<and> ed_target e \<noteq> r \<and> ed_source e \<noteq> ed_target e \<and> map_of (ed_observations e) r = None"

definition node_gone :: "string \<Rightarrow> agg_state \<Rightarrow> bool" where
  "node_gone r s \<longleftrightarrow>
     r \<notin> node_ids s \<and> (\<forall>a. map_of (ag_aliases s) a \<noteq> Some r) \<and> (\<forall>n. map_of (ag_redirects s) n \<noteq> Some r) \<and>
     map_of (ag_observers s) r = None \<and>
     (\<forall>q rep. map_of (ag_reporters s) q = Some rep \<longrightarrow> r \<notin> rt_observerIDs rep) \<and>
     (\<forall>i ob. observer_at s i = Some ob \<longrightarrow> r \<notin> ob_membership ob) \<and>
     (\<forall>i e. map_of (ag_edges s) i = Some e \<longrightarrow> edge_avoids r e)"

lemma rename_id_avoids [simp]: "k \<noteq> r \<Longrightarrow> rename_id k r n \<noteq> r"
  by (simp add: rename_id_def)

lemma map_option_rename: "k \<noteq> r \<Longrightarrow> map_option (rename_id k r) x \<noteq> Some r"
  by (cases x) auto

lemma rebuild_observation_avoids:
  assumes "k \<noteq> r" "map_of m r = None"
  shows "map_of (fold (rebuild_observation k r) es m) r = None"
proof (rule fold_inv [where P = "\<lambda>m. map_of m r = None"], goal_cases)
  case (2 e m)
  then show ?case
    using assms(1) rename_id_avoids [OF assms(1), of "fst e"]
    by (auto simp: rebuild_observation_def Let_def split: option.splits prod.splits)
qed (use assms in simp)

lemma absorb_edge_avoids: "k \<noteq> r \<Longrightarrow> edge_avoids r current \<Longrightarrow> edge_avoids r (absorb_edge k r edge current)"
  by (simp add: edge_avoids_def absorb_edge_def Let_def rebuild_observation_avoids)

lemma rebuild_edge_avoids:
  assumes "k \<noteq> r" "\<forall>i e. map_of m i = Some e \<longrightarrow> edge_avoids r e"
  shows "\<forall>i e'. map_of (rebuild_edge k r e m) i = Some e' \<longrightarrow> edge_avoids r e'"
proof -
  let ?a = "rename_id k r (ed_source e)" and ?b = "rename_id k r (ed_target e)"
  obtain i s t where id: "EdgeID ?a ?b = (i, s, t)" by (cases "EdgeID ?a ?b")
  have "edge_avoids r (new_edge i s t)" if "?a \<noteq> ?b"
    using that id assms(1) by (auto simp: edge_avoids_def new_edge_def EdgeID_def split: if_splits)
  moreover have "edge_avoids r current" if "map_of m i = Some current" for current using assms(2) that by blast
  ultimately have "edge_avoids r (absorb_edge k r e (case map_of m i of None \<Rightarrow> new_edge i s t | Some e \<Rightarrow> e))"
    if "?a \<noteq> ?b" using that assms(1) by (auto intro: absorb_edge_avoids split: option.splits)
  then show ?thesis using assms(2) id unfolding rebuild_edge_def Let_def by simp
qed

lemma rebuildEdges_avoids:
  assumes "k \<noteq> r"
  shows "\<forall>i e. map_of (ag_edges (rebuildEdges k r s)) i = Some e \<longrightarrow> edge_avoids r e"
proof -
  let ?P = "\<lambda>m. \<forall>i e. map_of m i = Some e \<longrightarrow> edge_avoids r e"
  have "?P (fold (rebuild_edge k r) (map snd (ag_edges s)) [])"
    by (rule fold_inv [where P = ?P]) (use rebuild_edge_avoids [OF assms] in simp_all)
  then show ?thesis by (simp add: rebuildEdges_def)
qed

lemma rename_in_set_avoids: "k \<noteq> r \<Longrightarrow> r \<notin> rename_in_set k r m"
  by (simp add: rename_in_set_def)

lemma mergeObserver_gone:
  assumes "k \<noteq> r" and s'_def: "s' = mergeObserverRuntimeStates k r b s"
  shows "map_of (ag_observers s') r = None"
    and "\<forall>q rep. map_of (ag_reporters s') q = Some rep \<longrightarrow> r \<notin> rt_observerIDs rep"
    and "\<forall>i ob. observer_at s' i = Some ob \<longrightarrow> r \<notin> ob_membership ob"
proof -
  define t where "t = rename_members k r (merge_observer_cells k r b s)"
  have s': "s' = rewrite_reporters k r t" by (simp add: s'_def t_def mergeObserverRuntimeStates_def)
  show "map_of (ag_observers s') r = None"
    using assms(1) by (simp add: s' t_def merge_observer_cells_observers)
  show "\<forall>q rep. map_of (ag_reporters s') q = Some rep \<longrightarrow> r \<notin> rt_observerIDs rep"
    using assms(1) by (auto simp: s' rewrite_reporters_at split: if_splits)
  have "observer_at s' = observer_at t" by (simp add: s' observer_at_def fun_eq_iff)
  then show "\<forall>i ob. observer_at s' i = Some ob \<longrightarrow> r \<notin> ob_membership ob"
    using assms(1) rename_in_set_avoids [of k r] by (auto simp: t_def rename_members_observer)
qed

lemma mergeNodes_gone:
  assumes "mergeable k r s"
  shows "node_gone r (mergeNodes k r s)"
proof -
  have kr: "k \<noteq> r" using assms by (simp add: mergeable_def)
  note ids = mergeNodes_ids [OF assms]
  obtain n b where core: "same_core
    (rebuildEdges k r (mergeObserverRuntimeStates k r b
      (s\<lparr>ag_nodes := mdel r (mput k n (ag_nodes s)),
         ag_redirects := mput r k (mapv (\<lambda>_. rename_id k r) (ag_redirects s)),
         ag_aliases := mapv (\<lambda>_. rename_id k r) (ag_aliases s)\<rparr>)))
    (mergeNodes k r s)" (is "same_core (rebuildEdges k r (mergeObserverRuntimeStates k r b ?s1)) _")
    using assms by (rule mergeNodes_core)
  let ?s2 = "mergeObserverRuntimeStates k r b ?s1"
  have f: "ag_observers (mergeNodes k r s) = ag_observers ?s2" "ag_reporters (mergeNodes k r s) = ag_reporters ?s2"
    "ag_observerCells (mergeNodes k r s) = ag_observerCells ?s2"
    "ag_edges (mergeNodes k r s) = ag_edges (rebuildEdges k r ?s2)"
    using core unfolding same_core_def by simp_all
  have at: "observer_at (mergeNodes k r s) = observer_at ?s2" by (rule ext) (simp only: observer_at_def f)
  show ?thesis
    unfolding node_gone_def at f
    using ids kr mergeObserver_gone [OF kr refl [of ?s2]] rebuildEdges_avoids [OF kr, of ?s2]
    by (auto simp: map_option_rename)
qed

lemma mergeNodes_preserves_gone:
  "x \<in> node_ids s \<Longrightarrow> x \<noteq> r \<Longrightarrow> x \<in> node_ids (mergeNodes k r s)"
  using mergeNodes_ids(1) [of k r s] mergeNodes_skip [of k r s] by (cases "mergeable k r s") auto

text \<open>C3: Merging node \<open>r\<close> into node \<open>k\<close> leaves no trace of \<open>r\<close> but its redirect: no alias, other redirect,
  observer, reporter, inventory member, edge endpoint or edge observation names it any more; no edge
  joins a node to itself; and every other node stays.
\<close>
theorem mergeNodes_forgets:
  assumes "map_of (ag_nodes s) k \<noteq> None" "map_of (ag_nodes s) r \<noteq> None" "k \<noteq> r"
  shows "node_gone r (mergeNodes k r s) \<and> str_at (ag_redirects (mergeNodes k r s)) r = k \<and>
    node_ids (mergeNodes k r s) = node_ids s - {r}"
proof -
  have m: "mergeable k r s" using assms by (auto simp: mergeable_def node_ids_def)
  show ?thesis using mergeNodes_gone [OF m] mergeNodes_ids [OF m] by (simp add: str_at_def)
qed

text \<open>C2: In every state the aggregator can reach, from whatever reports, directory snapshots and map
  orders, every id that was a node's at any earlier moment leads to a node of the present: the redirects
  of merged nodes resolve it, and resolving the result again changes nothing.
\<close>
theorem ids_lead_to_live:
  assumes "good_source cfg" "agg_reachable cfg s" "agg_steps cfg s s'" "n \<in> node_ids s"
  shows "resolveDirectionalNodeID (ag_redirects s') n \<in> node_ids s' \<and>
    resolveDirectionalNodeID (ag_redirects s') (resolveDirectionalNodeID (ag_redirects s') n) =
      resolveDirectionalNodeID (ag_redirects s') n"
proof -
  have inv: "agg_inv cfg s" using agg_steps_inv assms(1,2) agg_inv_empty by blast
  then have inv': "agg_inv cfg s'" and "n \<in> known_ids s'"
    using agg_steps_inv [OF assms(3,1)] assms(4) unfolding known_ids_def by blast+
  then have "n \<in> node_ids s' \<or> map_of (ag_redirects s') n \<noteq> None" by (auto simp: known_ids_def)
  then show ?thesis using aggregator.leads_to_live [OF inv'] aggregator.resolve_twice [OF inv'] by blast
qed

text \<open>C4: Every reachable state is well formed: aliases, redirects and observers lead to nodes, edges are
  stored under the id of their two ends with observations keyed by observer, a reporter lists exactly
  the observers that name it as their owner, and the node ids still to be handed out are unused.
\<close>
theorem reachable_inv:
  assumes "good_source cfg" "agg_reachable cfg s"
  shows "agg_inv cfg s"
  using agg_steps_inv assms agg_inv_empty by blast

text \<open>The object of an observer that is claimed, and what the other objects and the reporters become.\<close>

lemma claim_observers:
  assumes "agg_inv cfg s" "i \<in> node_ids s"
  shows "observer_at (claimReporterObserver rid i s) j =
    (if j = i then Some ((case observer_at s i of None \<Rightarrow> no_observer | Some ob \<Rightarrow> ob)
        \<lparr>ob_owner := rid, ob_withdrawnAt := 0\<rparr>) else observer_at s j)"
proof -
  obtain c s1 where c: "observer_cell i s = (c, s1)" by (cases "observer_cell i s") auto
  note o1 = observer_cell_inv [OF assms c]
  define p where "p = ob_owner (ag_observerCells s1 c)"
  have only: "map_of (ag_observers s1) k = Some c \<longleftrightarrow> k = i" for k
    using o1(1,2) unfolding agg_inv_def observers_ok_def distinct_cells_def by blast
  have f: "ag_observers (release_previous p rid i s1) = ag_observers s1"
    "ag_observerCells (release_previous p rid i s1) = ag_observerCells s1"
    by (auto simp: release_previous_def Let_def split: option.splits)
  have below: "map_of (ag_observers s) k \<noteq> Some (ag_nextCell s)" for k
    using assms(1) unfolding agg_inv_def observers_ok_def by blast
  have s1: "observer_at s1 k = (if k = i then Some (case observer_at s i of None \<Rightarrow> no_observer | Some ob \<Rightarrow> ob)
      else observer_at s k)" for k
    using c below [of k]
    by (cases "map_of (ag_observers s) k") (auto simp: observer_cell_def Let_def observer_at_def put_observer_def split: option.splits)
  have "observer_at (claimReporterObserver rid i s) j =
    (if j = i then Some ((ag_observerCells s1 c)\<lparr>ob_owner := rid, ob_withdrawnAt := 0\<rparr>) else observer_at s1 j)"
    unfolding claimReporterObserver_def c Let_def prod.case p_def [symmetric]
    using only [of j] o1(2) by (cases "map_of (ag_observers s1) j") (auto simp: observer_at_def put_observer_def f)
  then show ?thesis using s1 [of i] s1 [of j] o1(2) by (auto simp: observer_at_def)
qed

lemma claim_reporters:
  assumes "agg_inv cfg s" "i \<in> node_ids s" "map_of (ag_reporters s) rid = Some rep"
  shows "map_of (ag_reporters (claimReporterObserver rid i s)) q =
    (if q = rid then Some (rep\<lparr>rt_observerIDs := insert i (rt_observerIDs rep)\<rparr>)
     else case map_of (ag_reporters s) q of
       None \<Rightarrow> None
     | Some r \<Rightarrow> if i \<notin> rt_observerIDs r then Some r
         else if rt_observerIDs r = {i} then None else Some (r\<lparr>rt_observerIDs := rt_observerIDs r - {i}\<rparr>))"
proof -
  obtain c s1 where c: "observer_cell i s = (c, s1)" by (cases "observer_cell i s") auto
  note o1 = observer_cell_inv [OF assms(1,2) c]
  define p where "p = ob_owner (ag_observerCells s1 c)"
  have "owner_at s1 i = Some p" using o1(2) by (simp add: owner_at_def observer_at_def p_def)
  then have mem: "map_of (ag_reporters s) q = Some x \<Longrightarrow> i \<in> rt_observerIDs x \<longleftrightarrow> p = q"
    and nil: "map_of (ag_reporters s) [] = None" for q x
    using o1(1,5) unfolding agg_inv_def owners_alt by auto
  show ?thesis
    unfolding claimReporterObserver_def c Let_def prod.case p_def [symmetric]
    using mem [of q] mem [of p] nil assms(3)
    by (auto simp: release_previous_def Let_def put_observer_def o1(5) split: option.splits)
qed

text \<open>C9: The claim of an observer, with which a hello and every session of a relay take it over, is exclusive.
  Afterwards the claiming reporter is the observer's owner and lists it beside what it listed before, and the
  observer is not withdrawn. Any other reporter that listed it no longer does, and is forgotten exactly when
  it listed nothing else; every other reporter and every other observer is as before.
\<close>
theorem claim_is_exclusive:
  assumes "agg_inv cfg s" "i \<in> node_ids s" "map_of (ag_reporters s) rid = Some rep"
  defines "s' \<equiv> claimReporterObserver rid i s"
  shows "(\<exists>ob. observer_at s' i = Some ob \<and> ob_owner ob = rid \<and> ob_withdrawnAt ob = 0) \<and>
    map_of (ag_reporters s') rid = Some (rep\<lparr>rt_observerIDs := insert i (rt_observerIDs rep)\<rparr>) \<and>
    map_of (ag_reporters s') q =
      (if q = rid then Some (rep\<lparr>rt_observerIDs := insert i (rt_observerIDs rep)\<rparr>)
       else case map_of (ag_reporters s) q of
         None \<Rightarrow> None
       | Some r \<Rightarrow> if i \<notin> rt_observerIDs r then Some r
           else if rt_observerIDs r = {i} then None else Some (r\<lparr>rt_observerIDs := rt_observerIDs r - {i}\<rparr>)) \<and>
    observer_at s' j = (if j = i then observer_at s' i else observer_at s j)"
  unfolding s'_def claim_reporters [OF assms(1-3)] claim_observers [OF assms(1,2)] by auto

section \<open>The concrete fleet\<close>

lemma agg_steps_trans: "agg_steps cfg t u \<Longrightarrow> agg_steps cfg s t \<Longrightarrow> agg_steps cfg s u"
  by (induction rule: agg_steps.induct) (auto intro: agg_steps.intros)

lemma ex_run_steps: "ex_run reports s = Some s' \<Longrightarrow> agg_steps ex_config s s'"
proof (induction reports arbitrary: s)
  case (Cons report rest)
  then obtain res t where t: "ex_apply report s = Some (Inr (res, t))" "ex_run rest t = Some s'"
    by (auto split: option.splits sum.splits)
  then have "agg_steps ex_config s t"
    by (auto simp: ex_apply_def intro: agg_steps.intros step_report)
  then show ?case using Cons.IH [OF t(2)] by (blast intro: agg_steps_trans)
qed (simp add: steps_refl)

text \<open>The fleet before and after its second hello, which merges node \<open>nnn\<close> into \<open>nn\<close>.\<close>

lemma ex_fleet:
  obtains s s' where "agg_reachable ex_config s" "agg_steps ex_config s s'" "agg_inv ex_config s"
    "mkeys (ag_nodes s) = [''n'', ''nn'', ''nnn'']" "mkeys (ag_nodes s') = [''n'', ''nn'']"
    "ag_redirects s' = [(''nnn'', ''nn'')]"
proof -
  obtain s where s: "ex_run [ex_hello] newRuntimeState = Some s" "mkeys (ag_nodes s) = [''n'', ''nn'', ''nnn'']"
    using ex_hello_run by (auto simp: ex_view_def)
  obtain s' where s': "ex_run [ex_hello, ex_again] newRuntimeState = Some s'" "mkeys (ag_nodes s') = [''n'', ''nn'']"
    "ag_redirects s' = [(''nnn'', ''nn'')]" using ex_again_run by (auto simp: ex_view_def)
  have "ex_run [ex_again] s = Some s'" using s(1) s'(1) by (auto split: option.splits sum.splits)
  then have "agg_steps ex_config s s'" by (rule ex_run_steps)
  moreover have "agg_reachable ex_config s" using s(1) by (rule ex_run_steps)
  moreover from this have "agg_inv ex_config s"
    using agg_steps_inv [OF _ ex_source_good agg_inv_empty [OF ex_source_good]] by blast
  ultimately show thesis using that s s' by blast
qed

lemma node_ids_mkeys: "n \<in> node_ids s \<longleftrightarrow> n \<in> set (mkeys (ag_nodes s))"
  by (simp add: node_ids_def dom_map_of)

theorem ids_lead_to_live_witness:
  "\<exists>s s'. agg_reachable ex_config s \<and> agg_steps ex_config s s' \<and> ''nnn'' \<in> node_ids s \<and> ''nnn'' \<notin> node_ids s' \<and>
     resolveDirectionalNodeID (ag_redirects s') ''nnn'' \<in> node_ids s'"
proof -
  obtain s s' where f: "agg_reachable ex_config s" "agg_steps ex_config s s'"
    "mkeys (ag_nodes s) = [''n'', ''nn'', ''nnn'']" "mkeys (ag_nodes s') = [''n'', ''nn'']"
    by (rule ex_fleet)
  have n: "''nnn'' \<in> node_ids s" "''nnn'' \<notin> node_ids s'" by (simp_all add: node_ids_mkeys f)
  then show ?thesis using ids_lead_to_live [OF ex_source_good f(1,2) n(1)] f by blast
qed

theorem reachable_inv_witness:
  "\<exists>s. agg_reachable ex_config s \<and> agg_inv ex_config s \<and> mkeys (ag_nodes s) = [''n'', ''nn'', ''nnn'']"
proof -
  obtain s s' where f: "agg_reachable ex_config s" "mkeys (ag_nodes s) = [''n'', ''nn'', ''nnn'']"
    by (rule ex_fleet)
  then show ?thesis using reachable_inv [OF ex_source_good f(1)] by blast
qed

theorem mergeNodes_forgets_witness:
  "\<exists>s. agg_reachable ex_config s \<and> node_gone ''nnn'' (mergeNodes ''nn'' ''nnn'' s)"
proof -
  obtain s s' where f: "agg_reachable ex_config s" "mkeys (ag_nodes s) = [''n'', ''nn'', ''nnn'']"
    by (rule ex_fleet)
  have "''nn'' \<in> node_ids s" "''nnn'' \<in> node_ids s" by (simp_all add: node_ids_mkeys f)
  then have "map_of (ag_nodes s) ''nn'' \<noteq> None" "map_of (ag_nodes s) ''nnn'' \<noteq> None"
    by (simp_all only: node_ids_def dom_def mem_Collect_eq not_False_eq_True)
  then show ?thesis using mergeNodes_forgets [of s "''nn''" "''nnn''"] f by auto
qed

theorem claim_is_exclusive_witness:
  "\<exists>s ob. agg_inv ex_config s \<and> observer_at (claimReporterObserver ''q'' ''n'' s) ''n'' = Some ob \<and> ob_owner ob = ''q'' \<and>
     map_of (ag_reporters (claimReporterObserver ''q'' ''n'' s)) ''q'' \<noteq> None"
proof -
  obtain s s' where f: "agg_inv ex_config s" "mkeys (ag_nodes s) = [''n'', ''nn'', ''nnn'']" by (rule ex_fleet)
  let ?s = "ensure_reporter ''q'' s"
  have "agg_inv ex_config ?s" by (rule ensure_reporter_inv [OF f(1)]) simp
  moreover have "''n'' \<in> node_ids ?s"
    by (simp add: node_ids_mkeys ensure_reporter_def f split: option.splits)
  moreover obtain rep where "map_of (ag_reporters ?s) ''q'' = Some rep"
    by (cases "map_of (ag_reporters s) ''q''") (simp_all add: ensure_reporter_def)
  ultimately have *: "agg_inv ex_config ?s" "''n'' \<in> node_ids ?s" "map_of (ag_reporters ?s) ''q'' = Some rep" .
  from claim_is_exclusive [OF *, of "''q''" "''q''"] *(1) show ?thesis by auto
qed

end
