(* ===== verification/Agg_Reporters.thy ===== *)
theory Agg_Reporters
  imports Agg_Theorems
begin

text \<open>
  What a reporter's entry remembers (the last sequence number, the time of the last accepted report,
  the ids of the last reports): only a report of that reporter changes it, however the nodes merge
  and whoever takes observers over. An entry can be dropped, but never comes back with another
  content. On top of it, the runs through which the aggregator knows a reporter.
\<close>

section \<open>What an entry remembers\<close>

definition report_memory :: "reporter_state \<Rightarrow> int \<times> time \<times> string set" where
  "report_memory r = (rt_lastSequence r, rt_lastAcceptedAt r, rt_reportIDs r)"

definition memory_of :: "agg_state \<Rightarrow> string \<Rightarrow> (int \<times> time \<times> string set) option" where
  "memory_of s rid = map_option report_memory (map_of (ag_reporters s) rid)"

definition memory_kept :: "agg_state \<Rightarrow> agg_state \<Rightarrow> bool" where
  "memory_kept s s' \<longleftrightarrow> (\<forall>q. memory_of s' q = None \<or> memory_of s' q = memory_of s q)"

named_theorems kept "operations that keep what the reporters' entries remember"

lemma memory_kept_refl [kept]: "memory_kept s s"
  by (simp add: memory_kept_def)

lemma memory_kept_trans: "memory_kept s t \<Longrightarrow> memory_kept t u \<Longrightarrow> memory_kept s u"
  unfolding memory_kept_def by metis

lemma memory_kept_same: "ag_reporters s' = ag_reporters s \<Longrightarrow> memory_kept s s'"
  by (simp add: memory_kept_def memory_of_def)

lemma memory_kept_after: "memory_kept s t \<Longrightarrow> ag_reporters u = ag_reporters t \<Longrightarrow> memory_kept s u"
  by (simp add: memory_kept_def memory_of_def)

lemma memory_kept_core: "memory_kept s t \<Longrightarrow> same_core t u \<Longrightarrow> memory_kept s u"
  by (rule memory_kept_after) (simp_all add: same_core_def)

lemma memory_kept_known: "memory_kept s s' \<Longrightarrow> memory_of s' q \<noteq> None \<Longrightarrow> memory_of s' q = memory_of s q"
  unfolding memory_kept_def by metis

lemma memory_kept_frame [simp]:
  "memory_kept s (t\<lparr>ag_edges := es\<rparr>) = memory_kept s t" "memory_kept s (update_node n f t) = memory_kept s t"
  "memory_kept s (claim_aliases i n x t) = memory_kept s t" "memory_kept s (t\<lparr>ag_directory := d\<rparr>) = memory_kept s t"
  "memory_kept s (t\<lparr>ag_aliases := al\<rparr>) = memory_kept s t" "memory_kept s (set_client j a b t) = memory_kept s t"
  by (simp_all add: memory_kept_def memory_of_def set_client_def put_session_def Let_def)

lemma memory_kept_fold:
  assumes "\<And>x s. memory_kept s (f x s)"
  shows "memory_kept s (fold f xs s)"
proof (induction xs arbitrary: s)
  case (Cons x xs)
  show ?case using memory_kept_trans [OF assms [of s x] Cons.IH] by simp
qed (simp add: kept)

section \<open>Merging and resolving\<close>

lemma memory_rewrite_reporters [kept]: "memory_kept s (rewrite_reporters k r s)"
  by (simp add: memory_kept_def memory_of_def rewrite_reporters_at report_memory_def [abs_def] option.map_comp comp_def)

lemma memory_mergeNodes [kept]: "memory_kept s (mergeNodes k r s)"
proof (cases "mergeable k r s")
  case True
  then obtain n b where c: "same_core
    (rebuildEdges k r (mergeObserverRuntimeStates k r b
      (s\<lparr>ag_nodes := mdel r (mput k n (ag_nodes s)),
         ag_redirects := mput r k (mapv (\<lambda>_. rename_id k r) (ag_redirects s)),
         ag_aliases := mapv (\<lambda>_. rename_id k r) (ag_aliases s)\<rparr>)))
    (mergeNodes k r s)" by (rule mergeNodes_core)
  let ?s1 = "rename_members k r (merge_observer_cells k r b
      (s\<lparr>ag_nodes := mdel r (mput k n (ag_nodes s)),
         ag_redirects := mput r k (mapv (\<lambda>_. rename_id k r) (ag_redirects s)),
         ag_aliases := mapv (\<lambda>_. rename_id k r) (ag_aliases s)\<rparr>))"
  have "memory_kept s ?s1" by (rule memory_kept_same) simp
  from memory_kept_trans [OF this memory_rewrite_reporters] show ?thesis
    by (rule memory_kept_after) (use c in \<open>simp add: same_core_def mergeObserverRuntimeStates_def\<close>)
qed (simp add: mergeNodes_skip kept)

lemma memory_deref: "deref_node n f s = Some s' \<Longrightarrow> memory_kept s s'"
  by (rule memory_kept_same) (auto dest!: deref_node_Some)

lemma memory_create: "create_node cfg i st t s = (n, s') \<Longrightarrow> memory_kept s s'"
  by (rule memory_kept_same) (auto simp: create_node_def Let_def)

lemma memory_resolve:
  assumes "resolveIdentity cfg i t s = Some (n, created, changed, s')"
  shows "memory_kept s s'"
proof -
  have f: "memory_kept s (fold (mergeNodes k) xs s)" for k xs
    by (rule memory_kept_fold) (rule kept)
  show ?thesis
    using assms f unfolding resolveIdentity_def Let_def
    by (auto simp: bind_eq_Some_conv create_node_def Let_def split: if_splits prod.splits
        dest!: deref_node_Some intro: memory_kept_same)
qed

lemma memory_update_reporter:
  assumes "\<And>r. report_memory (f r) = report_memory r"
  shows "memory_kept s (update_reporter q f s)"
  by (auto simp: memory_kept_def memory_of_def assms option.map_comp comp_def)

lemma memory_claim [kept]: "memory_kept s (claimReporterObserver q i s)"
proof -
  obtain c s1 where c: "observer_cell i s = (c, s1)" by (cases "observer_cell i s") auto
  have "memory_kept s s1"
    by (rule memory_kept_same) (use c in \<open>auto simp: observer_cell_def Let_def put_observer_def split: option.splits\<close>)
  moreover have "memory_kept s1 (release_previous p q i s1)" for p
    by (auto simp: memory_kept_def memory_of_def release_previous_def Let_def report_memory_def split: option.splits)
  ultimately have "memory_kept s (put_observer c ob (release_previous p q i s1))" for ob p
    by (rule memory_kept_after [OF memory_kept_trans]) (simp add: put_observer_def)
  then show ?thesis
    unfolding claimReporterObserver_def c Let_def prod.case
    by (rule memory_kept_trans) (rule memory_update_reporter, simp add: report_memory_def)
qed

lemma memory_withdraw [kept]: "memory_kept s (withdrawObserver q i t s)"
proof (cases "map_of (ag_observers s) i")
  case (Some c)
  have "memory_kept s (put_observer c ob s)" for ob by (rule memory_kept_same) (simp add: put_observer_def)
  then have "memory_kept s (update_reporter q (\<lambda>r. r\<lparr>rt_observerIDs := rt_observerIDs r - {i}\<rparr>) (put_observer c ob s))" for ob
    by (rule memory_kept_trans) (rule memory_update_reporter, simp add: report_memory_def)
  then show ?thesis
    by (auto simp: withdrawObserver_def Some Let_def kept)
qed (simp add: withdrawObserver_def kept)

lemma memory_touchObserver: "touchObserver cfg n c t s = Some s' \<Longrightarrow> memory_kept s s'"
  unfolding touchObserver_def by (rule memory_deref)

lemma memory_kept_steps [simp]:
  "memory_kept s (touchPeer n t u) = memory_kept s u" "memory_kept s (touchIdentityCollected n t u) = memory_kept s u"
  "memory_kept s (applyPeer c ct rt i j p u) = memory_kept s u"
  "memory_kept s (applyRelaySession c ct rt r a b se x y ab ba u) = memory_kept s u"
  "memory_kept s (markSystemTelemetry c k a b u) = memory_kept s u"
  "memory_kept s (replaceInventory cc i g v u) = memory_kept s u"
  "memory_kept s (put_session cc ss u) = memory_kept s u" "memory_kept s (put_scope cc sc u) = memory_kept s u"
  by (auto simp: memory_kept_def memory_of_def touchPeer_def touchIdentityCollected_def replaceInventory_def
      Let_def put_observer_def put_session_def put_scope_def applyPeer_def applyRelaySession_def markSystemTelemetry_def
      split: option.splits)

lemma memory_kept_moves:
  "memory_kept s u \<Longrightarrow> memory_kept s (mergeNodes k r u)"
  "memory_kept s u \<Longrightarrow> memory_kept s (claimReporterObserver q i u)"
  "memory_kept s u \<Longrightarrow> memory_kept s (withdrawObserver q i t u)"
  by (erule memory_kept_trans, rule kept)+

section \<open>Relay sessions\<close>

lemma memory_reconcile [kept]: "memory_kept s (snd (reconcileRelayScope cfg c t s))"
proof -
  have "memory_kept (snd acc) (snd (reconcile_session cfg c t i acc))" for i acc
    by (cases acc) (auto simp: reconcile_session_def Let_def intro: kept memory_kept_moves)
  then have "memory_kept s (snd (fold (reconcile_session cfg c t) xs (False, s)))" for xs
    by (intro fold_inv [where P = "\<lambda>acc. memory_kept s (snd acc)"]) (auto simp: kept intro: memory_kept_trans)
  then show ?thesis by (simp add: reconcileRelayScope_def Let_def kept)
qed

lemma memory_recordRelayPair [kept]: "memory_kept s (snd (recordRelayPair cfg r v a b t s))"
proof -
  obtain c cr s1 where c: "relayScope r v t s = (c, cr, s1)" by (cases "relayScope r v t s") auto
  obtain k x y where e: "EdgeID a b = (k, x, y)" by (cases "EdgeID a b") auto
  have 1: "memory_kept s s1" by (rule memory_kept_core [OF memory_kept_refl relayScope_core [OF c]])
  have "memory_kept s (snd (reconcileRelayScope cfg c t (put_scope c sc s1)))" for sc
    by (rule memory_kept_trans [OF _ memory_reconcile]) (simp add: 1)
  then show ?thesis
    by (auto simp: recordRelayPair_def c e Let_def kept split: prod.splits) (metis snd_conv)
qed

lemma memory_resolveRelayClient:
  assumes "resolveRelayClient cfg i cl t s = Some (n, st, ch, s')"
  shows "memory_kept s s'"
  using assms unfolding resolveRelayClient_def Let_def
  by (auto simp: bind_eq_Some_conv split: if_splits prod.splits
      dest!: memory_resolve memory_create intro: kept memory_kept_moves)

lemma memory_resolveRelaySession:
  assumes "resolveRelaySession cfg relay ob t s = Some (a, b, x, y, ch, s')"
  shows "memory_kept s s'"
proof -
  obtain c sc s1 where c: "relayScope relay (rs_vni ob) t s = (c, sc, s1)" by (cases "relayScope relay (rs_vni ob) t s") auto
  obtain i ic s2 where i: "session_cell c (rs_sessionID ob) s1 = (i, ic, s2)" by (cases "session_cell c (rs_sessionID ob) s1") auto
  define s3 where "s3 = put_session i ((ag_sessionCells s2 i)\<lparr>se_lastSeen := t\<rparr>) s2"
  obtain a' x' ch1 s4 b' y' ch2 s5 where
    4: "resolveRelayClient cfg i (rs_source ob) t s3 = Some (a', x', ch1, s4)" and
    5: "resolveRelayClient cfg i (rs_target ob) t s4 = Some (b', y', ch2, s5)"
    using assms unfolding resolveRelaySession_def c i Let_def prod.case s3_def [symmetric]
    by (auto simp: bind_eq_Some_conv)
  define s6 where "s6 = put_session i ((ag_sessionCells s5 i)\<lparr>
               se_sourceClientID := rc_sessionClientID (rs_source ob),
               se_targetClientID := rc_sessionClientID (rs_target ob),
               se_sourceNodeID := a', se_targetNodeID := b',
               se_sourceStatus := x', se_targetStatus := y'\<rparr>) s5"
  define r7 where "r7 = (if a' = b' then (False, s6)
      else if x' = IdentityResolved \<and> y' = IdentityResolved
      then recordRelayPair cfg relay (rs_vni ob) a' b' t s6
      else reconcileRelayScope cfg c t s6)"
  have s': "s' = snd r7"
    using assms unfolding resolveRelaySession_def c i Let_def prod.case s3_def [symmetric] 4 5
      Option.bind.simps s6_def [symmetric] r7_def [symmetric] by (cases r7) auto
  have "memory_kept s s3"
    unfolding s3_def
    using memory_kept_core [OF memory_kept_core [OF memory_kept_refl relayScope_core [OF c]] session_cell_core [OF i]]
    by simp
  then have "memory_kept s s6"
    unfolding s6_def using memory_resolveRelayClient [OF 4] memory_resolveRelayClient [OF 5]
    by (auto intro: memory_kept_trans)
  moreover have "memory_kept s6 (snd r7)" by (simp add: r7_def kept)
  ultimately show ?thesis unfolding s' by (rule memory_kept_trans)
qed

section \<open>The steps of a report\<close>

abbreviation ctx_kept :: "agg_state \<Rightarrow> apply_ctx \<Rightarrow> bool" where
  "ctx_kept s ctx \<equiv> memory_kept s (ax_state ctx)"

lemma memory_ctx_resolve:
  "ctx_resolve cfg i t ctx = Some (n, created, ctx') \<Longrightarrow> memory_kept (ax_state ctx) (ax_state ctx')"
  by (auto simp: ctx_resolve_def bind_eq_Some_conv split: prod.splits dest: memory_resolve)

lemma memory_member_step:
  assumes "member_step cfg ct t p acc = Some acc'"
  shows "memory_kept (ax_state (snd acc)) (ax_state (snd acc'))"
proof -
  from assms obtain n created ctx s2 where c: "ctx_resolve cfg (pe_peer p) t (snd acc) = Some (n, created, ctx)"
    and d: "(if created then deref_node n (\<lambda>n. n\<lparr>nd_lastEvidence := t\<rparr>) (touchIdentityCollected n ct (ax_state ctx))
       else Some (touchIdentityCollected n ct (ax_state ctx))) = Some s2"
    and a: "ax_state (snd acc') = s2"
    by (auto simp: member_step_def bind_eq_Some_conv Let_def)
  have "memory_kept (ax_state ctx) s2"
    using d by (auto split: if_splits dest!: deref_node_Some simp: kept)
  then show ?thesis unfolding a by (rule memory_kept_trans [OF memory_ctx_resolve [OF c]])
qed

interpretation members_memory: keeping_step "\<lambda>acc. ctx_kept s (snd acc)" "member_step cfg ct t" for s cfg ct t
  by unfold_locales (erule memory_kept_trans, erule memory_member_step)

lemma memory_inventory_step:
  assumes "inventory_step cfg ct t i cell ob ctx = Some ctx'"
  shows "memory_kept (ax_state ctx) (ax_state ctx')"
proof -
  from assms obtain ms c1 c where m: "fold_opt (member_step cfg ct t) (or_peers ob) ({}, ctx) = Some (ms, c1)"
    and a: "ax_state ctx' = replaceInventory c i (or_inventoryGeneration ob) ms (ax_state c1)"
    by (auto simp: inventory_step_def bind_eq_Some_conv)
  have "ctx_kept (ax_state ctx) c1" using members_memory.loop_keeps [OF m, of "ax_state ctx"] by (simp add: kept)
  then show ?thesis unfolding a by simp
qed

lemma memory_record_peer_relay:
  assumes "record_peer_relay cfg ct t i j p ctx = Some ctx'"
  shows "memory_kept (ax_state ctx) (ax_state ctx')"
  using assms
proof (cases rule: record_peer_relay_cases)
  case (2 relayID cr ctx1 vni)
  show ?thesis unfolding 2(2)
    by (rule memory_kept_trans [OF _ memory_recordRelayPair]) (simp add: memory_ctx_resolve [OF 2(1)])
qed (simp add: kept)

lemma memory_accept_traffic: "accept_traffic a b i m n t ctx = Some ctx' \<Longrightarrow> ax_state ctx' = ax_state ctx"
  by (auto simp: accept_traffic_def bind_eq_Some_conv split: prod.splits)

lemma memory_traffic_step:
  assumes "traffic_step cfg ct t i p ctx = Some ctx'"
  shows "memory_kept (ax_state ctx) (ax_state ctx')"
proof (cases "pe_rxDelta p = 0 \<and> pe_txDelta p = 0")
  case False
  then obtain j cr c1 c2 where c1: "ctx_resolve cfg (pe_peer p) t ctx = Some (j, cr, c1)"
    and c2: "record_peer_relay cfg ct t i j p (c1\<lparr>ax_state := touchPeer j t (touchIdentityCollected j ct (ax_state c1)),
        ax_touched := touch_edge (edge_key i j) (touchPeer j t (touchIdentityCollected j ct (ax_state c1))) (ax_touched c1)\<rparr>) = Some c2"
    and acc: "ax_state ctx' = markSystemTelemetry cfg (edge_key i j) i j (applyPeer cfg ct t i j p (ax_state c2))"
    using assms by (auto simp: traffic_step_def Let_def bind_eq_Some_conv dest!: memory_accept_traffic)
  have "memory_kept (ax_state ctx) (touchPeer j t (touchIdentityCollected j ct (ax_state c1)))"
    using memory_ctx_resolve [OF c1] by simp
  from memory_kept_trans [OF this] memory_record_peer_relay [OF c2]
  have "memory_kept (ax_state ctx) (ax_state c2)" by simp
  then show ?thesis unfolding acc by simp
qed (use assms in \<open>simp add: traffic_step_def kept\<close>)

interpretation traffic_memory: keeping_step "ctx_kept s" "traffic_step cfg ct t i" for s cfg ct t i
  by unfold_locales (erule memory_kept_trans, erule memory_traffic_step)

lemma memory_observer_step:
  assumes "observer_step cfg report t ob ctx = Some ctx'"
  shows "memory_kept (ax_state ctx) (ax_state ctx')"
proof -
  define ct where "ct = CollectionTime ob (re_collectedAt report)"
  from assms obtain i cr c1 s3 where c1: "ctx_resolve cfg (or_observer ob) t ctx = Some (i, cr, c1)"
    and s3: "touchObserver cfg i ct t (if re_kind report = ReportObserverHello
      then claimReporterObserver (re_reporterInstanceID report) i (touchIdentityCollected i ct (ax_state c1))
      else touchIdentityCollected i ct (ax_state c1)) = Some s3"
    and st: "(let cell = map_of (ag_observers s3) i; ctx2 = c1\<lparr>ax_state := s3\<rparr> in case re_kind report of
        ReportObserverHello \<Rightarrow> inventory_step cfg ct t i cell ob ctx2
      | ReportInventoryUpdate \<Rightarrow> inventory_step cfg ct t i cell ob ctx2
      | ReportTrafficSample \<Rightarrow> Option.bind cell (\<lambda>c.
          fold_opt (traffic_step cfg ct t i) (or_peers ob)
            (ctx2\<lparr>ax_resync := ax_resync ctx2 \<or> generation_differs s3 c ob\<rparr>))
      | ReportObserverHeartbeat \<Rightarrow> Option.bind cell (\<lambda>c.
          Some (ctx2\<lparr>ax_resync := ax_resync ctx2 \<or> generation_differs s3 c ob\<rparr>))
      | _ \<Rightarrow> Some ctx2) = Some ctx'"
    unfolding observer_step_def Let_def ct_def by (auto simp: bind_eq_Some_conv)
  have 1: "memory_kept (ax_state ctx) (touchIdentityCollected i ct (ax_state c1))"
    using memory_ctx_resolve [OF c1] by simp
  have 3: "memory_kept (ax_state ctx) s3"
    using memory_kept_trans [OF _ memory_touchObserver [OF s3]] 1 by (simp add: memory_kept_moves split: if_splits)
  have inv: "memory_kept s3 (ax_state ctx')" if "inventory_step cfg ct t i cell ob (c1\<lparr>ax_state := s3\<rparr>) = Some ctx'" for cell
    using memory_inventory_step [OF that] by simp
  have tr: "memory_kept s3 (ax_state ctx')"
    if "fold_opt (traffic_step cfg ct t i) xs (c1\<lparr>ax_state := s3, ax_resync := b\<rparr>) = Some ctx'" for xs b
    using traffic_memory.loop_keeps [OF that, of s3] by (simp add: kept)
  have "memory_kept s3 (ax_state ctx')"
    using st by (auto simp: Let_def bind_eq_Some_conv kept split: report_kind.splits intro: inv tr)
  then show ?thesis by (rule memory_kept_trans [OF 3])
qed

interpretation observers_memory: keeping_step "ctx_kept s" "observer_step cfg report t" for s cfg report t
  by unfold_locales (erule memory_kept_trans, erule memory_observer_step)

lemma memory_withdraw_step:
  assumes "withdraw_step cfg report t ob ctx = Some ctx'"
  shows "memory_kept (ax_state ctx) (ax_state ctx')"
  using assms by (auto simp: withdraw_step_def Let_def bind_eq_Some_conv kept split: option.splits if_splits
      dest!: memory_touchObserver intro: memory_kept_moves)

interpretation withdrawals_memory: keeping_step "ctx_kept s" "withdraw_step cfg report t" for s cfg report t
  by unfold_locales (erule memory_kept_trans, erule memory_withdraw_step)

lemma memory_session_step:
  assumes st: "session_step cfg report t se ctx = Some ctx'"
  shows "memory_kept (ax_state ctx) (ax_state ctx')"
proof -
  let ?ct = "re_collectedAt report" and ?rid = "re_reporterInstanceID report"
  from st obtain i cr c1 s1 a b x y ch s2 where
    c1: "ctx_resolve cfg (rs_relay se) t ctx = Some (i, cr, c1)"
    and s1: "touchObserver cfg i ?ct t (touchIdentityCollected i ?ct (ax_state c1)) = Some s1"
    and s2: "resolveRelaySession cfg i se t (claimReporterObserver ?rid i s1) = Some (a, b, x, y, ch, s2)"
    by (auto simp: session_step_def bind_eq_Some_conv Let_def)
  define s3 where "s3 = touchIdentityCollected b ?ct (touchIdentityCollected a ?ct s2)"
  have "memory_kept (ax_state ctx) s1"
    using memory_kept_trans [OF _ memory_touchObserver [OF s1]] memory_ctx_resolve [OF c1] by simp
  from memory_kept_trans [OF memory_kept_moves(2) [OF this] memory_resolveRelaySession [OF s2]]
  have 3: "memory_kept (ax_state ctx) s3" by (simp add: s3_def)
  obtain k p q where e: "EdgeID a b = (k, p, q)" by (cases "EdgeID a b") auto
  show ?thesis
  proof (cases "a = b")
    case True
    then have "ax_state ctx' = s3" using st by (auto simp: session_step_def c1 s1 s2 Let_def s3_def)
    then show ?thesis using 3 by simp
  next
    case False
    define s4 where "s4 = touchPeer b t (touchPeer a t s3)"
    obtain m n u v T cc where acc: "accept_traffic p q i m n t (cc\<lparr>ax_state :=
        markSystemTelemetry cfg k a b (applyRelaySession cfg ?ct t i p q se u v m n s4), ax_touched := T\<rparr>) = Some ctx'"
      using st False unfolding session_step_def c1 s1 s2 Let_def Option.bind.simps prod.case e
        s3_def [symmetric] s4_def [symmetric] by (simp only: if_False)
    show ?thesis using memory_accept_traffic [OF acc] 3 by (simp add: s4_def)
  qed
qed

interpretation sessions_memory: keeping_step "ctx_kept s" "session_step cfg report t" for s cfg report t
  by unfold_locales (erule memory_kept_trans, erule memory_session_step)

lemma memory_run_report:
  assumes "run_report cfg report t ctx = Some ctx'" "ctx_kept s ctx"
  shows "ctx_kept s ctx'"
  using assms unfolding run_report_def
  by (auto simp: bind_eq_Some_conv split: report_kind.splits
      intro: observers_memory.loop_keeps withdrawals_memory.loop_keeps sessions_memory.loop_keeps)

lemma memory_transition_step:
  "memory_kept s (snd acc) \<Longrightarrow> transition_step cfg t e acc = Some acc' \<Longrightarrow> memory_kept s (snd acc')"
  by (auto simp: transition_step_def Let_def bind_eq_Some_conv memory_kept_def memory_of_def split: prod.splits)

interpretation transitions_memory: keeping_step "\<lambda>acc. memory_kept s (snd acc)" "transition_step cfg t" for s cfg t
  by unfold_locales (rule memory_transition_step)

section \<open>A whole report\<close>

text \<open>The memory of a reporter after a report of its own was applied.\<close>

fun closed_memory :: "report_envelope \<Rightarrow> time \<Rightarrow> int \<times> time \<times> string set \<Rightarrow> int \<times> time \<times> string set" where
  "closed_memory report t (sequence, acceptedAt, ids) =
     (re_sequence report, t,
      if card (insert (re_reportID report) ids) > reportIDWindowSize then {re_reportID report}
      else insert (re_reportID report) ids)"

lemma report_memory_close: "report_memory (close_report report t r) = closed_memory report t (report_memory r)"
  by (simp add: report_memory_def close_report_def Let_def)

definition new_memory :: "int \<times> time \<times> string set" where
  "new_memory = (0, 0, {})"

lemma memory_of_ensure:
  "memory_of (ensure_reporter rid s) q =
     (if q = rid \<and> memory_of s rid = None then Some new_memory else memory_of s q)"
  by (auto simp: memory_of_def ensure_reporter_def new_reporter_def new_memory_def report_memory_def split: option.splits)

lemma prune_rest_reporters [simp]:
  "ag_reporters (prune_alias cfg now e s) = ag_reporters s" "ag_reporters (prune_scope cfg now e2 s) = ag_reporters s"
  by (simp_all add: prune_alias_def prune_scope_def Let_def update_node_def put_node_def put_scope_def
      split: prod.splits option.splits)

lemma pruneIndexes_reporters:
  "map_of (ag_reporters (pruneIndexes cfg now s)) q =
     (case map_of (ag_reporters s) q of
        None \<Rightarrow> None
      | Some r \<Rightarrow>
          if rt_observerIDs r \<noteq> {} \<or> \<not> (rt_lastAcceptedAt r = 0 \<or> time_sub now (rt_lastAcceptedAt r) > evidenceWindow cfg)
          then Some r else None)"
proof -
  have f: "ag_reporters (fold (prune_alias cfg now) xs u) = ag_reporters u"
    "ag_reporters (fold (prune_scope cfg now) ys u) = ag_reporters u" for xs ys u
    by (induction xs arbitrary: u; simp) (induction ys arbitrary: u; simp)
  show ?thesis by (simp add: pruneIndexes_def Let_def f) (simp add: prune_reporters_def split: option.splits)
qed

lemma memory_prune: "memory_kept s (pruneIndexes cfg now s)"
  by (auto simp: memory_kept_def memory_of_def pruneIndexes_reporters split: option.splits)

text \<open>What a report does to the memory of a reporter that stays known.\<close>

lemma applyLocked_memory:
  assumes a: "applyLocked cfg report t s = Some (res, s')"
    and p: "memory_of (pruneIndexes cfg t s) rid \<noteq> None" and k: "memory_of s' rid \<noteq> None"
  shows "memory_of s' rid =
    (if re_reporterInstanceID report = rid \<and> ar_changed res then map_option (closed_memory report t) (memory_of s rid)
     else memory_of s rid)"
proof -
  let ?q = "re_reporterInstanceID report" and ?p = "pruneIndexes cfg t s"
  have ps: "memory_of ?p rid = memory_of s rid" using memory_kept_known [OF memory_prune p] .
  have e: "memory_of (ensure_reporter ?q ?p) rid = memory_of s rid"
    using p ps by (auto simp: memory_of_ensure)
  from a show ?thesis
  proof (cases rule: applyLocked_cases)
    case (applied ctx ts s1 gap)
    have "ctx_kept (ensure_reporter ?q ?p) ctx"
      by (rule memory_run_report [OF applied(2)]) (simp add: start_ctx_def kept)
    then have m: "memory_kept (ensure_reporter ?q ?p) s1"
      using transitions_memory.loop_keeps [OF applied(3)] by simp
    have "memory_of s1 rid \<noteq> None" using k by (auto simp: memory_of_def applied(4) split: if_splits)
    then have "memory_of s1 rid = memory_of s rid" using memory_kept_known [OF m] e by simp
    moreover have "memory_of s' q = (if q = ?q then map_option (closed_memory report t) (memory_of s1 q) else memory_of s1 q)" for q
      by (simp add: memory_of_def applied(4) option.map_comp comp_def report_memory_close)
    ultimately show ?thesis using applied(1) by auto
  next
    case quiet
    then show ?thesis using e by simp
  next
    case refused
    then have "rid \<noteq> ?q" using p by (auto simp: memory_of_def)
    then have "memory_of s' rid = memory_of (ensure_reporter ?q ?p) rid" by (simp add: memory_of_def refused(3))
    then show ?thesis using e refused(1) by simp
  qed
qed

section \<open>The steps of the directory\<close>

lemma memory_resolveDirectoryDevice:
  assumes "resolveDirectoryDevice cfg device t b s = Some (n, c, created, changed, s')"
  shows "memory_kept s s'"
  using assms unfolding resolveDirectoryDevice_def Let_def
  by (auto simp: bind_eq_Some_conv kept split: if_splits dest!: memory_resolve deref_node_Some)

lemma memory_device_step:
  assumes "device_step cfg snap device ctx = Some ctx'"
  shows "memory_kept (dx_state ctx) (dx_state ctx')"
  using assms unfolding device_step_def Let_def
  by (auto simp: bind_eq_Some_conv split: if_splits dest!: memory_resolveDirectoryDevice deref_node_Some)

interpretation devices_memory: keeping_step "\<lambda>ctx. memory_kept s (dx_state ctx)" "device_step cfg snap" for s cfg snap
  by unfold_locales (erule memory_kept_trans, erule memory_device_step)

lemma memory_directory_snapshot:
  assumes "ApplyDirectorySnapshot cfg snap sync s = Some (Inr (changed, n, s'))"
  shows "memory_kept s s'"
proof -
  from assms obtain x y where "applyDirectorySnapshotLocked cfg x y s = Some (changed, s')"
    by (auto simp: ApplyDirectorySnapshot_def Let_def split: sum.splits option.splits if_splits)
  then obtain ctx d where "fold_opt (device_step cfg x) (sn_devices x)
       \<lparr>dx_state = s, dx_canonicalIDs = [], dx_conflicts = [], dx_canonicalChanged = False\<rparr> = Some ctx"
    "s' = (dx_state ctx)\<lparr>ag_directory := d\<rparr>"
    by (auto simp: applyDirectorySnapshotLocked_def bind_eq_Some_conv Let_def)
  then show ?thesis using devices_memory.loop_keeps [of cfg x _ _ ctx s] by (simp add: kept)
qed

lemma agg_other_step_memory: "agg_other_step cfg s s' \<Longrightarrow> memory_kept s s'"
proof (induction rule: agg_other_step.induct)
  case (step_directory snap sync s changed n s')
  then show ?case by (rule memory_directory_snapshot)
next
  case (step_sync sync s s')
  then show ?case by (auto simp: UpdateDirectorySyncState_def kept split: option.splits if_splits)
next
  case (step_clear s changed s')
  then show ?case by (auto simp: ClearDirectory_def kept split: if_splits)
next
  case (step_order s s')
  then show ?case by (auto simp: reordered_def memory_kept_def memory_of_def dest: permuted_same)
next
  case (step_observations s k e obs)
  then show ?case by (simp add: memory_kept_def memory_of_def)
qed

section \<open>Runs through which a reporter stays known\<close>

text \<open>
  The reports and other steps of the aggregator from \<open>s\<close> to \<open>s'\<close> through which it never drops the
  entry of the reporter, with the number of that reporter's reports that were applied on the way. An
  entry is dropped by the pruning before a report, when the reporter owns no observer and its last
  report is older than the evidence window, and when another reporter takes its last observer over.
\<close>

inductive known_run :: "agg_config \<Rightarrow> string \<Rightarrow> nat \<Rightarrow> agg_state \<Rightarrow> agg_state \<Rightarrow> bool" for cfg rid where
  known_start: "map_of (ag_reporters s) rid \<noteq> None \<Longrightarrow> known_run cfg rid 0 s s"
| known_report: "known_run cfg rid n s t \<Longrightarrow> ApplyAt cfg report receivedAt now t = Some (Inr (res, u)) \<Longrightarrow>
    map_of (ag_reporters (pruneIndexes cfg (if receivedAt = 0 then now else receivedAt) t)) rid \<noteq> None \<Longrightarrow>
    map_of (ag_reporters u) rid \<noteq> None \<Longrightarrow>
    known_run cfg rid (if re_reporterInstanceID report = rid \<and> ar_changed res then Suc n else n) s u"
| known_other: "known_run cfg rid n s t \<Longrightarrow> agg_other_step cfg t u \<Longrightarrow> map_of (ag_reporters u) rid \<noteq> None \<Longrightarrow>
    known_run cfg rid n s u"

lemma memory_of_None [simp]: "memory_of s rid = None \<longleftrightarrow> map_of (ag_reporters s) rid = None"
  by (simp add: memory_of_def)

lemma applied_sequence:
  assumes "ApplyAt cfg report receivedAt now s = Some (Inr (res, s'))" "ar_changed res"
    and "map_of (ag_reporters (pruneIndexes cfg (if receivedAt = 0 then now else receivedAt) s)) (re_reporterInstanceID report) = Some r"
  shows "rt_lastSequence r < re_sequence report \<and> re_reportID report \<notin> rt_reportIDs r"
  using assms by (auto simp: ApplyAt_def applyLocked_def Let_def ensure_reporter_def unchanged_result_def split: option.splits if_splits)

text \<open>Through such a run the last sequence number only grows, and an id stays remembered while the window has room.\<close>

lemma known_run_memory:
  assumes "known_run cfg rid n s s'" "memory_of s rid = Some (q, a, ids)"
  shows "\<exists>q' a' ids'. memory_of s' rid = Some (q', a', ids') \<and> q \<le> q' \<and> card ids' \<le> card ids + n \<and>
    (n = 0 \<longrightarrow> q' = q \<and> a' = a \<and> ids' = ids) \<and> (card ids + n \<le> reportIDWindowSize \<longrightarrow> ids \<subseteq> ids')"
  using assms
proof (induction rule: known_run.induct)
  case (known_report n s t report receivedAt now res u)
  let ?t = "if receivedAt = 0 then now else receivedAt" and ?own = "re_reporterInstanceID report = rid \<and> ar_changed res"
  obtain q' a' ids' where IH: "memory_of t rid = Some (q', a', ids')" "q \<le> q'" "card ids' \<le> card ids + n"
    "n = 0 \<longrightarrow> q' = q \<and> a' = a \<and> ids' = ids" "card ids + n \<le> reportIDWindowSize \<longrightarrow> ids \<subseteq> ids'"
    using known_report.IH [OF known_report.prems] by blast
  have "applyLocked cfg report ?t t = Some (res, u)"
    using known_report.hyps(2) by (auto simp: ApplyAt_def split: option.splits)
  note m = applyLocked_memory [OF this, of rid]
  show ?case
  proof (cases ?own)
    case True
    obtain r where r: "map_of (ag_reporters (pruneIndexes cfg ?t t)) rid = Some r" using known_report.hyps(3) by blast
    then have "map_of (ag_reporters t) rid = Some r" by (auto simp: pruneIndexes_reporters split: option.splits if_splits)
    then have "rt_lastSequence r = q'" using IH(1) by (simp add: memory_of_def report_memory_def)
    then have "q' < re_sequence report" using applied_sequence [OF known_report.hyps(2)] True r by auto
    moreover have "card (insert (re_reportID report) ids') \<le> Suc (card ids + n)"
      using card_insert_le_m1 [of "Suc (card ids')" ids' "re_reportID report"] IH(3) by simp
    ultimately show ?thesis
      using m known_report.hyps(3,4) True IH by (auto simp: reportIDWindowSize_def)
  next
    case False
    then show ?thesis using m known_report.hyps(3,4) IH by auto
  qed
next
  case (known_other n s t u)
  then show ?case using memory_kept_known [OF agg_other_step_memory [OF known_other.hyps(2)], of rid] by auto
qed simp

end
