(* ===== verification/Agg_Reports.thy ===== *)
theory Agg_Reports
  imports Agg_Reporters
begin

text \<open>
  Reports as a reporter sees them: a report is applied once, stale ones are turned away, a gap asks
  for a resync, which reports always return, and the reports that crash the aggregator.
\<close>

section \<open>A report is applied once\<close>

lemma close_report_remembers:
  "re_reportID report \<in> rt_reportIDs (close_report report t r)" "rt_lastAcceptedAt (close_report report t r) = t"
  "rt_lastSequence (close_report report t r) = re_sequence report"
  by (simp_all add: close_report_def Let_def)

text \<open>What the reporter's entry is after its report was applied.\<close>

lemma applied_entry:
  assumes inv: "agg_inv cfg s" and src: "good_source cfg" and v: "ValidateReport report = None"
    and a: "applyLocked cfg report t s = Some (res, s')" and ch: "ar_changed res"
  obtains r where "map_of (ag_reporters s') (re_reporterInstanceID report) = Some (close_report report t r)"
proof -
  let ?rid = "re_reporterInstanceID report" and ?p = "pruneIndexes cfg t s"
  from a show thesis
  proof (cases rule: applyLocked_cases)
    case (applied ctx ts s1 gap)
    have "run_inv cfg ?rid (known_ids s) (ensure_reporter ?rid ?p)"
      by (rule ensured_run_inv [OF inv src valid_reporter [OF v]])
    then have "ctx_inv cfg ?rid (known_ids s) (start_ctx (ensure_reporter ?rid ?p) gap)"
      by (simp add: ctx_inv_def start_ctx_def)
    then have "ctx_inv cfg ?rid (known_ids s) ctx" using applied(2) by (rule run_report_keeps)
    then have "run_inv cfg ?rid (known_ids s) (snd (ts, s1))"
      using transitions.loop_keeps [OF applied(3)] by (simp add: ctx_inv_def)
    then obtain r where "map_of (ag_reporters s1) ?rid = Some r" by (auto simp: run_inv_def)
    then show thesis using that by (simp add: applied(4))
  qed (use ch in auto)
qed

text \<open>What the aggregator answers to a report that is not newer than the last one it applied.\<close>

lemma old_report_answer:
  assumes "ValidateReport old = None"
    and "map_of (ag_reporters (pruneIndexes cfg (if t = 0 then now else t) s)) (re_reporterInstanceID old) \<noteq> None"
    and "map_of (ag_reporters s) (re_reporterInstanceID old) = Some r" "re_sequence old \<le> rt_lastSequence r"
  shows "ApplyAt cfg old t now s =
    Some (Inr (unchanged_result cfg (re_reportID old \<in> rt_reportIDs r) False, pruneIndexes cfg (if t = 0 then now else t) s))"
proof -
  let ?p = "pruneIndexes cfg (if t = 0 then now else t) s"
  have "map_of (ag_reporters ?p) (re_reporterInstanceID old) = Some r"
    using assms(2) unfolding pruneIndexes_reporters assms(3) by (simp split: if_splits)
  then show ?thesis
    using assms(1,4) by (simp add: ApplyAt_def applyLocked_def Let_def ensure_reporter_def)
qed

text \<open>A reporter's entry at the end of a run that began with a report of it.\<close>

lemma entry_after_run:
  assumes "good_source cfg" "agg_inv cfg s" "ApplyAt cfg report t now s = Some (Inr (res, s'))" "ar_changed res"
    and "known_run cfg (re_reporterInstanceID report) n s' s''"
  obtains r r' where "map_of (ag_reporters s') (re_reporterInstanceID report) = Some r"
    "map_of (ag_reporters s'') (re_reporterInstanceID report) = Some r'"
    "re_reportID report \<in> rt_reportIDs r" "re_sequence report \<le> rt_lastSequence r'"
    "n = 0 \<or> card (rt_reportIDs r) + n \<le> reportIDWindowSize \<longrightarrow> rt_reportIDs r \<subseteq> rt_reportIDs r'"
proof -
  let ?rid = "re_reporterInstanceID report" and ?t = "if t = 0 then now else t"
  have v: "ValidateReport report = None" and a: "applyLocked cfg report ?t s = Some (res, s')"
    using assms(3) by (auto simp: ApplyAt_def split: option.splits)
  obtain r0 where r: "map_of (ag_reporters s') ?rid = Some (close_report report ?t r0)"
    by (rule applied_entry [OF assms(2,1) v a assms(4)])
  let ?r = "close_report report ?t r0"
  have m: "memory_of s' ?rid = Some (re_sequence report, ?t, rt_reportIDs ?r)"
    by (simp add: memory_of_def r report_memory_def close_report_remembers)
  from known_run_memory [OF assms(5) m] obtain q' a' ids' where
    e: "memory_of s'' ?rid = Some (q', a', ids')" "re_sequence report \<le> q'" "n = 0 \<longrightarrow> ids' = rt_reportIDs ?r"
      "card (rt_reportIDs ?r) + n \<le> reportIDWindowSize \<longrightarrow> rt_reportIDs ?r \<subseteq> ids'" by blast
  then obtain r' where r': "map_of (ag_reporters s'') ?rid = Some r'" "rt_lastSequence r' = q'" "rt_reportIDs r' = ids'"
    by (auto simp: memory_of_def report_memory_def)
  show thesis by (rule that [OF r r'(1)]) (use e r' close_report_remembers(1) [of report ?t r0] in auto)
qed

text \<open>C1: Exactly-once delivery. A report that was applied and is sent again, whatever reports of any reporter
  and directory updates came in between, is never applied a second time as long as the aggregator keeps the
  reporter's entry: no traffic is counted, no transition recorded, no resync asked for, and the state is only
  pruned as any report prunes it. It is acknowledged as accepted when no other report of that reporter was
  applied since (a retry whose first answer was lost), and also after \<open>n\<close> others while they fit with the ids
  remembered before into the 32 ids of the window; otherwise it may be turned away as too old instead.
\<close>
theorem report_applied_once:
  assumes "good_source cfg" "agg_inv cfg s" "ApplyAt cfg report t now s = Some (Inr (res, s'))" "ar_changed res"
    and "known_run cfg (re_reporterInstanceID report) n s' s''"
    and "map_of (ag_reporters (pruneIndexes cfg (if t' = 0 then now' else t') s'')) (re_reporterInstanceID report) \<noteq> None"
  shows "\<exists>accepted. ApplyAt cfg report t' now' s'' =
      Some (Inr (unchanged_result cfg accepted False, pruneIndexes cfg (if t' = 0 then now' else t') s'')) \<and>
    (n = 0 \<or> card (rt_reportIDs (the (map_of (ag_reporters s') (re_reporterInstanceID report)))) + n \<le> reportIDWindowSize
      \<longrightarrow> accepted)"
proof -
  from entry_after_run [OF assms(1-5)] obtain r r' where e: "map_of (ag_reporters s') (re_reporterInstanceID report) = Some r"
    "map_of (ag_reporters s'') (re_reporterInstanceID report) = Some r'" "re_reportID report \<in> rt_reportIDs r"
    "re_sequence report \<le> rt_lastSequence r'"
    "n = 0 \<or> card (rt_reportIDs r) + n \<le> reportIDWindowSize \<longrightarrow> rt_reportIDs r \<subseteq> rt_reportIDs r'" .
  have "ValidateReport report = None" using assms(3) by (auto simp: ApplyAt_def split: option.splits)
  from old_report_answer [OF this assms(6) e(2,4)] e(1,3,5) show ?thesis by auto
qed

text \<open>C11: Sequence discipline. After a report was applied, and whatever else was applied since, as long as the
  aggregator keeps the reporter's entry every valid report of that reporter whose sequence number is not higher
  changes nothing beyond the pruning and asks for no resync. It is accepted as a duplicate when its id is
  among the ones remembered for the reporter, even if it is another report than the one remembered, and
  turned away as too old otherwise.
\<close>
theorem stale_report_refused:
  assumes "good_source cfg" "agg_inv cfg s" "ApplyAt cfg report t now s = Some (Inr (res, s'))" "ar_changed res"
    and "known_run cfg (re_reporterInstanceID report) n s' s''"
    and "ValidateReport old = None" "re_reporterInstanceID old = re_reporterInstanceID report"
    and "re_sequence old \<le> re_sequence report"
    and "map_of (ag_reporters (pruneIndexes cfg (if t' = 0 then now' else t') s'')) (re_reporterInstanceID report) \<noteq> None"
    and "map_of (ag_reporters s'') (re_reporterInstanceID report) = Some entry"
  shows "ApplyAt cfg old t' now' s'' =
    Some (Inr (unchanged_result cfg (re_reportID old \<in> rt_reportIDs entry) False,
      pruneIndexes cfg (if t' = 0 then now' else t') s''))"
proof -
  from entry_after_run [OF assms(1-5)] obtain r' where
    "map_of (ag_reporters s'') (re_reporterInstanceID report) = Some r'" "re_sequence report \<le> rt_lastSequence r'" .
  then show ?thesis using assms(6-10) by (intro old_report_answer) auto
qed

section \<open>A gap asks for a resync\<close>

text \<open>Once a step asked for a resync, the later ones keep it.\<close>

lemma ctx_resolve_resync: "ctx_resolve cfg i t ctx = Some (n, created, ctx') \<Longrightarrow> ax_resync ctx' = ax_resync ctx"
  by (auto simp: ctx_resolve_def bind_eq_Some_conv split: prod.splits)

lemma member_step_resync:
  "member_step cfg ct t p acc = Some acc' \<Longrightarrow> ax_resync (snd acc') = ax_resync (snd acc)"
  by (auto simp: member_step_def bind_eq_Some_conv Let_def dest!: ctx_resolve_resync split: prod.splits)

interpretation members_resync: keeping_step "\<lambda>acc. ax_resync (snd acc)" "member_step cfg ct t" for cfg ct t
  by unfold_locales (simp add: member_step_resync)

lemma record_peer_relay_resync:
  "record_peer_relay cfg ct t i j p ctx = Some ctx' \<Longrightarrow> ax_resync ctx' = ax_resync ctx"
  by (auto simp: record_peer_relay_def bind_eq_Some_conv Let_def case_prod_unfold dest!: ctx_resolve_resync
      split: path_kind.splits option.splits if_splits)

lemma accept_traffic_resync: "accept_traffic a b i m n t ctx = Some ctx' \<Longrightarrow> ax_resync ctx' = ax_resync ctx"
  by (auto simp: accept_traffic_def bind_eq_Some_conv split: prod.splits)

lemma traffic_step_resync:
  "traffic_step cfg ct t i p ctx = Some ctx' \<Longrightarrow> ax_resync ctx' = ax_resync ctx"
  by (auto simp: traffic_step_def bind_eq_Some_conv Let_def
      dest!: ctx_resolve_resync record_peer_relay_resync accept_traffic_resync split: if_splits)

interpretation traffic_resync: keeping_step ax_resync "traffic_step cfg ct t i" for cfg ct t i
  by unfold_locales (simp add: traffic_step_resync)

lemma inventory_step_resync:
  "inventory_step cfg ct t i cell ob ctx = Some ctx' \<Longrightarrow> ax_resync ctx \<Longrightarrow> ax_resync ctx'"
  using members_resync.loop_keeps
  by (fastforce simp: inventory_step_def bind_eq_Some_conv)

lemma observer_step_resync:
  "ax_resync ctx \<Longrightarrow> observer_step cfg report t ob ctx = Some ctx' \<Longrightarrow> ax_resync ctx'"
  by (cases "re_kind report")
     (auto simp: observer_step_def bind_eq_Some_conv Let_def
      dest!: ctx_resolve_resync intro: inventory_step_resync traffic_resync.loop_keeps)

interpretation observers_resync: keeping_step ax_resync "observer_step cfg report t" for cfg report t
  by unfold_locales (rule observer_step_resync)

lemma session_step_resync:
  "ax_resync ctx \<Longrightarrow> session_step cfg report t se ctx = Some ctx' \<Longrightarrow> ax_resync ctx'"
  by (auto simp: session_step_def bind_eq_Some_conv Let_def
      dest!: ctx_resolve_resync accept_traffic_resync split: if_splits prod.splits)

interpretation sessions_resync: keeping_step ax_resync "session_step cfg report t" for cfg report t
  by unfold_locales (rule session_step_resync)

lemma withdraw_step_resync:
  "ax_resync ctx \<Longrightarrow> withdraw_step cfg report t ob ctx = Some ctx' \<Longrightarrow> ax_resync ctx'"
  by (auto simp: withdraw_step_def bind_eq_Some_conv Let_def split: option.splits if_splits)

interpretation withdrawals_resync: keeping_step ax_resync "withdraw_step cfg report t" for cfg report t
  by unfold_locales (rule withdraw_step_resync)

lemma run_report_resync: "run_report cfg report t ctx = Some ctx' \<Longrightarrow> ax_resync ctx \<Longrightarrow> ax_resync ctx'"
  by (auto simp: run_report_def bind_eq_Some_conv split: report_kind.splits
      intro: withdrawals_resync.loop_keeps observers_resync.loop_keeps sessions_resync.loop_keeps)

text \<open>C10: A lost report is noticed. When a reporter that the aggregator remembers sends a report whose sequence
  number is not the next one, and the report is applied, its receipt asks the reporter to resend its state.
\<close>
theorem gap_asks_resync:
  assumes "ApplyAt cfg report t now s = Some (Inr (res, s'))" "ar_changed res" "t \<noteq> 0"
    and "map_of (ag_reporters (pruneIndexes cfg t s)) (re_reporterInstanceID report) = Some r"
    and "rt_lastSequence r > 0" "re_sequence report \<noteq> rt_lastSequence r + 1"
  shows "rr_accepted (ar_receipt res) \<and> rr_resyncRequired (ar_receipt res)"
proof -
  have a: "applyLocked cfg report t s = Some (res, s')"
    using assms(1,3) by (auto simp: ApplyAt_def split: option.splits)
  then show ?thesis
    using assms(2,4-6) run_report_resync
    by (fastforce simp: applyLocked_def Let_def ensure_reporter_def unchanged_result_def receipt_def bind_eq_Some_conv
        split: if_splits)
qed

section \<open>Reports that always return\<close>

text \<open>The touched edges exist, so that the final loop does not panic.\<close>

definition touched_ok :: "apply_ctx \<Rightarrow> bool" where
  "touched_ok ctx \<longleftrightarrow> (\<forall>k \<in> fst ` set (ax_touched ctx). map_of (ag_edges (ax_state ctx)) k \<noteq> None)"

lemma markObserver_keys:
  "fst ` set (markObserverEdgesTouched i s touched) \<subseteq> fst ` set touched \<union> fst ` set (ag_edges s)"
  unfolding markObserverEdgesTouched_def
  by (rule fold_inv [where P = "\<lambda>t. fst ` set t \<subseteq> fst ` set touched \<union> fst ` set (ag_edges s)"])
     (auto simp: set_mput_fst rev_image_eqI split: prod.splits)

lemma markObserver_exist:
  assumes "\<forall>k \<in> fst ` set touched. map_of (ag_edges s) k \<noteq> None"
    and "\<And>k. map_of (ag_edges s') k = None \<longleftrightarrow> map_of (ag_edges s) k = None"
  shows "\<forall>k \<in> fst ` set (markObserverEdgesTouched i s touched). map_of (ag_edges s') k \<noteq> None"
proof
  fix k assume "k \<in> fst ` set (markObserverEdgesTouched i s touched)"
  then have "k \<in> fst ` set touched \<or> k \<in> fst ` set (ag_edges s)" using markObserver_keys by blast
  then have "map_of (ag_edges s) k \<noteq> None" using assms(1) by (auto simp: map_of_eq_None_iff)
  then show "map_of (ag_edges s') k \<noteq> None" using assms(2) by simp
qed

lemma withdraw_step_touched:
  assumes "touched_ok ctx" "withdraw_step cfg report t ob ctx = Some ctx'"
  shows "touched_ok ctx'"
proof (cases "ctx' = ctx")
  case False
  then obtain n s1 where s1: "touchObserver cfg n (CollectionTime ob (re_collectedAt report)) t (ax_state ctx) = Some s1"
    "ax_touched ctx' = markObserverEdgesTouched n s1 (ax_touched ctx)"
    "ax_state ctx' = withdrawObserver (re_reporterInstanceID report) n t s1"
    using assms(2) by (auto simp: withdraw_step_def Let_def bind_eq_Some_conv split: option.splits if_splits)
  have "ag_edges s1 = ag_edges (ax_state ctx)"
    using s1(1) by (auto simp: touchObserver_def dest!: deref_node_Some)
  then show ?thesis
    using assms(1) unfolding touched_ok_def s1(2,3) by (intro markObserver_exist) simp_all
qed (use assms in simp)

interpretation withdrawals_touched: keeping_step touched_ok "withdraw_step cfg report t" for cfg report t
  by unfold_locales (rule withdraw_step_touched)

text \<open>A start of \<open>applyLocked\<close> whose report runs with touched edges that exist returns.\<close>

lemma applyLocked_returns:
  assumes "\<And>gap. \<exists>ctx. run_report cfg report t (start_ctx (ensure_reporter (re_reporterInstanceID report) (pruneIndexes cfg t s)) gap) = Some ctx \<and> touched_ok ctx"
  shows "\<exists>res s'. applyLocked cfg report t s = Some (res, s')"
proof -
  let ?s = "ensure_reporter (re_reporterInstanceID report) (pruneIndexes cfg t s)"
  have *: "\<exists>ctx ts. run_report cfg report t (start_ctx ?s gap) = Some ctx \<and>
      fold_opt (transition_step cfg t) (ax_touched ctx) ([], ax_state ctx) = Some ts" for gap
    using assms [of gap] transition_loop_total [of _ "([], _)"] unfolding touched_ok_def by (metis snd_conv)
  show ?thesis
    unfolding applyLocked_def Let_def start_ctx_def [symmetric]
    using * [of "0 < rt_lastSequence (the (map_of (ag_reporters ?s) (re_reporterInstanceID report))) \<and>
        re_sequence report \<noteq> rt_lastSequence (the (map_of (ag_reporters ?s) (re_reporterInstanceID report))) + 1"]
    by (auto split: prod.splits)
qed

lemma withdrawal_runs:
  assumes "ctx_inv cfg (re_reporterInstanceID report) K ctx" "touched_ok ctx" "re_kind report = ReportObserverWithdrawal"
  shows "\<exists>ctx'. run_report cfg report t ctx = Some ctx' \<and> touched_ok ctx'"
proof -
  obtain ctx' where c: "fold_opt (withdraw_step cfg report t) (re_observers report) ctx = Some ctx'"
    using withdrawals.loop_total [OF assms(1)] by blast
  moreover have "touched_ok ctx'" using c assms(2) by (rule withdrawals_touched.loop_keeps)
  ultimately show ?thesis using assms(3) by (simp add: run_report_def)
qed

lemma members_touched:
  "fold_opt (member_step cfg ct t) ps acc = Some acc' \<Longrightarrow> ctx_inv cfg rid K (snd acc) \<Longrightarrow>
     ctx_inv cfg rid K (snd acc') \<and> ax_touched (snd acc') = ax_touched (snd acc)"
proof (induction ps arbitrary: acc)
  case (Cons p ps)
  obtain acc1 where a: "member_step cfg ct t p acc = Some acc1" "ctx_inv cfg rid K (snd acc1)"
    "ax_touched (snd acc1) = ax_touched (snd acc)" using member_step_total [OF Cons.prems(2), of ct t p] by blast
  then show ?case using Cons by simp
qed simp

lemma hello_runs:
  assumes c: "ctx_inv cfg (re_reporterInstanceID report) K ctx" and "ax_touched ctx = []"
    and "re_kind report = ReportObserverHello" "length (re_observers report) \<le> 1"
  shows "\<exists>ctx'. run_report cfg report t ctx = Some ctx' \<and> touched_ok ctx'"
proof (cases "re_observers report")
  case Nil
  then show ?thesis using assms by (simp add: run_report_def touched_ok_def)
next
  case (Cons ob rest)
  then have obs: "re_observers report = [ob]" using assms(4) by simp
  define ct where "ct = CollectionTime ob (re_collectedAt report)"
  obtain i c1 s3 where p: "ctx_inv cfg (re_reporterInstanceID report) K (c1\<lparr>ax_state := s3\<rparr>)"
    "ax_touched c1 = ax_touched ctx" "map_of (ag_observers s3) i \<noteq> None"
    "observer_step cfg report t ob ctx = inventory_step cfg ct t i (map_of (ag_observers s3) i) ob (c1\<lparr>ax_state := s3\<rparr>)"
  proof (rule observer_step_prefix [OF c refl, of t ob], goal_cases)
    case (1 i c1 s3)
    show ?case by (rule 1(1) [OF 1(2,4) 1(5) [OF assms(3)]]) (simp add: 1(6) assms(3) ct_def Let_def)
  qed
  obtain cell where cell: "map_of (ag_observers s3) i = Some cell" using p(3) by blast
  obtain ctx' where ctx': "inventory_step cfg ct t i (Some cell) ob (c1\<lparr>ax_state := s3\<rparr>) = Some ctx'"
    using inventory_step_total [OF p(1)] by blast
  obtain ms c2 where m: "fold_opt (member_step cfg ct t) (or_peers ob) ({}, c1\<lparr>ax_state := s3\<rparr>) = Some (ms, c2)"
    "ax_touched ctx' = markObserverEdgesTouched i (ax_state c2) (ax_touched c2)"
    "ax_state ctx' = replaceInventory cell i (or_inventoryGeneration ob) ms (ax_state c2)"
    using ctx' by (auto simp: inventory_step_def bind_eq_Some_conv)
  have "ax_touched c2 = []" using members_touched [OF m(1)] p(1,2) assms(2) by simp
  then have "touched_ok ctx'" unfolding touched_ok_def m(2,3) by (intro markObserver_exist) simp_all
  then show ?thesis using ctx' p(4) cell assms(3) obs by (simp add: run_report_def)
qed

lemma report_runs_returns:
  assumes "good_source cfg" "agg_inv cfg s"
    and run: "\<And>ctx K. ctx_inv cfg (re_reporterInstanceID report) K ctx \<Longrightarrow> ax_touched ctx = [] \<Longrightarrow>
      \<exists>ctx'. run_report cfg report (if t = 0 then now else t) ctx = Some ctx' \<and> touched_ok ctx'"
  shows "\<exists>r. ApplyAt cfg report t now s = Some r"
proof (cases "ValidateReport report")
  case None
  let ?t = "if t = 0 then now else t" and ?rid = "re_reporterInstanceID report"
  have "run_inv cfg ?rid (known_ids s) (ensure_reporter ?rid (pruneIndexes cfg ?t s))"
    by (rule ensured_run_inv [OF assms(2,1) valid_reporter [OF None]])
  then have c: "ctx_inv cfg ?rid (known_ids s) (start_ctx (ensure_reporter ?rid (pruneIndexes cfg ?t s)) gap)" for gap
    by (simp add: ctx_inv_def start_ctx_def)
  have "\<exists>res s'. applyLocked cfg report ?t s = Some (res, s')"
    by (rule applyLocked_returns, rule run [OF c]) (simp add: start_ctx_def)
  then show ?thesis using None by (auto simp: ApplyAt_def)
qed (simp add: ApplyAt_def)

text \<open>A withdrawal never crashes the aggregator, whatever its observers are and whatever the state.
\<close>
theorem withdrawal_returns:
  assumes "good_source cfg" "agg_inv cfg s" "re_kind report = ReportObserverWithdrawal"
  shows "\<exists>r. ApplyAt cfg report t now s = Some r"
  using assms by (intro report_runs_returns withdrawal_runs) (auto simp: touched_ok_def)

text \<open>C12: A hello with one observer, as an exporter sends it, never crashes the aggregator, whatever its peers
  are and however their identities make nodes merge.
\<close>
theorem hello_returns:
  assumes "good_source cfg" "agg_inv cfg s" "re_kind report = ReportObserverHello"
    and "length (re_observers report) \<le> 1"
  shows "\<exists>r. ApplyAt cfg report t now s = Some r"
  using assms by (intro report_runs_returns hello_runs) auto

text \<open>A directory snapshot never crashes the aggregator; one that is refused changes nothing, one that is
  applied keeps the state well formed and every id that was known.
\<close>
theorem directory_snapshot_returns:
  assumes "good_source cfg" "agg_inv cfg s"
  shows "\<exists>r. ApplyDirectorySnapshot cfg snap sync s = Some r \<and>
    (\<forall>changed n s'. r = Inr (changed, n, s') \<longrightarrow> agg_inv cfg s' \<and> known_ids s \<subseteq> known_ids s')"
  using ApplyDirectorySnapshot_total [OF assms(2,1)] by blast

section \<open>Reports that crash the aggregator\<close>

text \<open>
  A heartbeat that names its observer with another stable id and the same node key, and a sample whose
  second peer shows that the first one is a node known by its stable id.
\<close>

definition ex_beat :: report_envelope where
  "ex_beat = ex_report ReportObserverHeartbeat 2 (ex_identity ''c'' ''k'') []"

definition ex_key_hello :: report_envelope where
  "ex_key_hello = ex_report ReportObserverHello 1 (ex_identity ''a'' ''k'') []"

definition ex_sample :: report_envelope where
  "ex_sample = ex_report ReportTrafficSample 2 (ex_identity ''a'' [])
     [ex_peer (ex_identity [] ''k'') 7, ex_peer (ex_identity ''b'' ''k'') 9]"

definition crashes_after :: "report_envelope \<Rightarrow> report_envelope \<Rightarrow> bool" where
  "crashes_after r1 r2 \<longleftrightarrow>
     (case ex_apply r1 newRuntimeState of Some (Inr (_, s)) \<Rightarrow> Option.is_none (ex_apply r2 s) | _ \<Rightarrow> False)"

lemma crashes_reachable:
  assumes "crashes_after r1 r2"
  shows "\<exists>s. agg_reachable ex_config s \<and> ex_apply r2 s = None"
proof -
  obtain res s where s: "ex_apply r1 newRuntimeState = Some (Inr (res, s))" "Option.is_none (ex_apply r2 s)"
    using assms by (auto simp: crashes_after_def split: option.splits sum.splits)
  have "agg_step ex_config newRuntimeState s"
    using s(1) unfolding ex_apply_def by (rule step_report)
  then have "agg_reachable ex_config s" by (rule steps_step [OF steps_refl])
  moreover have "ex_apply r2 s = None" using s(2) by (simp only: Option.is_none_def)
  ultimately show ?thesis by blast
qed

text \<open>C13: A valid heartbeat from the owner of an observer can crash the aggregator: the ownership check finds
  the observer by its node key, but resolving the identity, whose stable id contradicts the node's, makes a
  new node, which has no observer to read the inventory generation of.
\<close>
theorem heartbeat_crashes:
  "ValidateReport ex_beat = None \<and> (\<exists>s. agg_reachable ex_config s \<and> ApplyAt ex_config ex_beat ex_time ex_time s = None)"
proof -
  have "ValidateReport ex_beat = None" by code_simp
  moreover have "crashes_after ex_key_hello ex_beat" by code_simp
  ultimately show ?thesis using crashes_reachable by (simp add: ex_apply_def)
qed

text \<open>C14: A valid traffic sample can crash the aggregator: its first peer's edge is touched, its second peer
  merges that peer's node into another one and so moves the edge to another id, and the loop over the touched
  edges reads the old id.
\<close>
theorem sample_crashes:
  "ValidateReport ex_sample = None \<and> (\<exists>s. agg_reachable ex_config s \<and> ApplyAt ex_config ex_sample ex_time ex_time s = None)"
proof -
  have "ValidateReport ex_sample = None" by code_simp
  moreover have "crashes_after ex_hello ex_sample" by code_simp
  ultimately show ?thesis using crashes_reachable by (simp add: ex_apply_def)
qed

section \<open>Concrete reports\<close>

definition ex_withdrawal :: report_envelope where
  "ex_withdrawal = ex_report ReportObserverWithdrawal 2 (ex_identity ''a'' []) []"

definition ex_old :: report_envelope where
  "ex_old = ex_hello\<lparr>re_reportID := ''x''\<rparr>"

definition ex_jump :: report_envelope where
  "ex_jump = ex_report ReportObserverHello 5 (ex_identity ''a'' []) []"

theorem withdrawal_returns_witness:
  "\<exists>s r. agg_reachable ex_config s \<and> mkeys (ag_nodes s) = [''n'', ''nn'', ''nnn''] \<and>
     ApplyAt ex_config ex_withdrawal ex_time ex_time s = Some r"
proof -
  obtain s s' where f: "agg_reachable ex_config s" "agg_inv ex_config s" "mkeys (ag_nodes s) = [''n'', ''nn'', ''nnn'']"
    by (rule ex_fleet)
  have "re_kind ex_withdrawal = ReportObserverWithdrawal" by (simp add: ex_withdrawal_def ex_report_def)
  from withdrawal_returns [OF ex_source_good f(2) this] show ?thesis using f by blast
qed

theorem hello_returns_witness:
  "\<exists>s r. agg_reachable ex_config s \<and> mkeys (ag_nodes s) = [''n'', ''nn'', ''nnn''] \<and>
     ApplyAt ex_config ex_again ex_time ex_time s = Some r"
proof -
  obtain s s' where f: "agg_reachable ex_config s" "agg_inv ex_config s" "mkeys (ag_nodes s) = [''n'', ''nn'', ''nnn'']"
    by (rule ex_fleet)
  have "re_kind ex_again = ReportObserverHello" "length (re_observers ex_again) \<le> 1"
    by (simp_all add: ex_again_def ex_report_def)
  from hello_returns [OF ex_source_good f(2) this] show ?thesis using f by blast
qed

theorem directory_snapshot_returns_witness:
  "\<exists>r. ApplyDirectorySnapshot ex_config \<lparr>sn_collectedAt = ex_time, sn_devices = []\<rparr> disabled_sync newRuntimeState = Some r"
  using directory_snapshot_returns [OF ex_source_good agg_inv_empty [OF ex_source_good]] by blast

text \<open>The first hello of the fleet, applied.\<close>

definition ex_entry_ok :: "agg_state \<Rightarrow> bool" where
  "ex_entry_ok s \<longleftrightarrow>
     (case map_of (ag_reporters s) ''r'' of
        Some entry \<Rightarrow> ''x'' \<notin> rt_reportIDs entry \<and> re_reportID ex_hello \<in> rt_reportIDs entry \<and> card (rt_reportIDs entry) \<le> 2
      | None \<Rightarrow> False)"

definition ex_sequence_ok :: "int \<Rightarrow> agg_state \<Rightarrow> bool" where
  "ex_sequence_ok n s \<longleftrightarrow>
     (case map_of (ag_reporters (pruneIndexes ex_config ex_time s)) ''r'' of
        Some r \<Rightarrow> rt_lastSequence r = n | None \<Rightarrow> False)"

definition ex_jump_ok :: "agg_state \<Rightarrow> bool" where
  "ex_jump_ok s \<longleftrightarrow>
     (case ex_apply ex_jump s of
        Some (Inr (res, s')) \<Rightarrow> ar_changed res \<and> ex_entry_ok s' \<and> ex_sequence_ok 5 s' | _ \<Rightarrow> False)"

definition ex_hello_facts :: bool where
  "ex_hello_facts \<longleftrightarrow>
     (case ex_apply ex_hello newRuntimeState of
        Some (Inr (res, s)) \<Rightarrow> ar_changed res \<and> ex_entry_ok s \<and> ex_sequence_ok 1 s \<and> ex_jump_ok s
      | _ \<Rightarrow> False)"

lemma ex_entry_okD:
  "ex_entry_ok s \<Longrightarrow> \<exists>entry. map_of (ag_reporters s) ''r'' = Some entry \<and> ''x'' \<notin> rt_reportIDs entry \<and>
     re_reportID ex_hello \<in> rt_reportIDs entry \<and> card (rt_reportIDs entry) \<le> 2"
  unfolding ex_entry_ok_def by (auto split: option.split_asm)

lemma ex_sequence_okD:
  "ex_sequence_ok n s \<Longrightarrow> \<exists>r. map_of (ag_reporters (pruneIndexes ex_config ex_time s)) ''r'' = Some r \<and> rt_lastSequence r = n"
  unfolding ex_sequence_ok_def by (auto split: option.split_asm)

lemma ex_hello_applied:
  obtains res s entry r res' s'' where "ApplyAt ex_config ex_hello ex_time ex_time newRuntimeState = Some (Inr (res, s))"
    "ar_changed res" "ex_entry_ok s" "ex_sequence_ok 1 s"
    "ApplyAt ex_config ex_jump ex_time ex_time s = Some (Inr (res', s''))" "ar_changed res'"
    "ex_entry_ok s''" "ex_sequence_ok 5 s''"
proof -
  have "ex_hello_facts" by code_simp
  then obtain res s where h: "ex_apply ex_hello newRuntimeState = Some (Inr (res, s))" "ar_changed res"
    "ex_entry_ok s" "ex_sequence_ok 1 s" "ex_jump_ok s"
    unfolding ex_hello_facts_def by (auto split: option.split_asm sum.split_asm)
  moreover from h(5) obtain res' s'' where "ex_apply ex_jump s = Some (Inr (res', s''))" "ar_changed res'"
    "ex_entry_ok s''" "ex_sequence_ok 5 s''"
    unfolding ex_jump_ok_def by (auto split: option.split_asm sum.split_asm)
  ultimately show thesis using that unfolding ex_apply_def by blast
qed

text \<open>The run of the second report, through which the reporter stays known.\<close>

lemma ex_jump_known:
  assumes "ApplyAt ex_config ex_jump ex_time ex_time s = Some (Inr (res', s''))" "ar_changed res'"
    and "ex_entry_ok s" "ex_sequence_ok 1 s" "ex_entry_ok s''"
  shows "known_run ex_config (re_reporterInstanceID ex_hello) 1 s s''"
proof -
  have r: "re_reporterInstanceID ex_hello = ''r''" "re_reporterInstanceID ex_jump = ''r''"
    by (simp_all add: ex_jump_def ex_hello_def ex_report_def)
  have "known_run ex_config ''r'' (if re_reporterInstanceID ex_jump = ''r'' \<and> ar_changed res' then Suc 0 else 0) s s''"
    by (rule known_run.known_report [OF known_run.known_start assms(1)])
      (use ex_entry_okD [OF assms(3)] ex_sequence_okD [OF assms(4)] ex_entry_okD [OF assms(5)] in auto)
  then show ?thesis using assms(2) r by simp
qed

lemma ex_times: "ex_time \<noteq> 0"
  by code_simp

theorem report_applied_once_witness:
  "\<exists>res s res' s''. ApplyAt ex_config ex_hello ex_time ex_time newRuntimeState = Some (Inr (res, s)) \<and> ar_changed res \<and>
     ApplyAt ex_config ex_jump ex_time ex_time s = Some (Inr (res', s'')) \<and> ar_changed res' \<and>
     ApplyAt ex_config ex_hello ex_time 0 s'' =
       Some (Inr (unchanged_result ex_config True False, pruneIndexes ex_config ex_time s''))"
proof (rule ex_hello_applied)
  fix res s res' s''
  assume a: "ApplyAt ex_config ex_hello ex_time ex_time newRuntimeState = Some (Inr (res, s))" "ar_changed res"
    and e: "ex_entry_ok s" "ex_sequence_ok 1 s" "ex_entry_ok s''" "ex_sequence_ok 5 s''"
    and j: "ApplyAt ex_config ex_jump ex_time ex_time s = Some (Inr (res', s''))" "ar_changed res'"
  have r: "re_reporterInstanceID ex_hello = ''r''" by (simp add: ex_hello_def ex_report_def)
  have k: "map_of (ag_reporters (pruneIndexes ex_config (if ex_time = 0 then 0 else ex_time) s''))
      (re_reporterInstanceID ex_hello) \<noteq> None"
    using ex_sequence_okD [OF e(4)] ex_times r by auto
  from report_applied_once [OF ex_source_good agg_inv_empty [OF ex_source_good] a ex_jump_known [OF j e(1-3)] k]
  show ?thesis
    using a j ex_entry_okD [OF e(1)] ex_times r by (fastforce simp: reportIDWindowSize_def)
qed

theorem stale_report_refused_witness:
  "\<exists>res s res' s''. ApplyAt ex_config ex_hello ex_time ex_time newRuntimeState = Some (Inr (res, s)) \<and> ar_changed res \<and>
     ApplyAt ex_config ex_jump ex_time ex_time s = Some (Inr (res', s'')) \<and> ar_changed res' \<and>
     ApplyAt ex_config ex_old ex_time 0 s'' =
       Some (Inr (unchanged_result ex_config False False, pruneIndexes ex_config ex_time s''))"
proof (rule ex_hello_applied)
  fix res s res' s''
  assume a: "ApplyAt ex_config ex_hello ex_time ex_time newRuntimeState = Some (Inr (res, s))" "ar_changed res"
    and e: "ex_entry_ok s" "ex_sequence_ok 1 s" "ex_entry_ok s''" "ex_sequence_ok 5 s''"
    and j: "ApplyAt ex_config ex_jump ex_time ex_time s = Some (Inr (res', s''))" "ar_changed res'"
  have old: "ValidateReport ex_old = None" "re_reporterInstanceID ex_old = re_reporterInstanceID ex_hello"
    "re_sequence ex_old \<le> re_sequence ex_hello" by code_simp+
  have r: "re_reporterInstanceID ex_hello = ''r''" "re_reportID ex_old = ''x''"
    by (simp_all add: ex_old_def ex_hello_def ex_report_def)
  have k: "map_of (ag_reporters (pruneIndexes ex_config (if ex_time = 0 then 0 else ex_time) s''))
      (re_reporterInstanceID ex_hello) \<noteq> None"
    using ex_sequence_okD [OF e(4)] ex_times r by auto
  obtain entry where n: "map_of (ag_reporters s'') (re_reporterInstanceID ex_hello) = Some entry" "''x'' \<notin> rt_reportIDs entry"
    using ex_entry_okD [OF e(3)] r by auto
  from stale_report_refused [OF ex_source_good agg_inv_empty [OF ex_source_good] a ex_jump_known [OF j e(1-3)] old k n(1)]
  show ?thesis using a j n r ex_times by auto
qed

theorem gap_asks_resync_witness:
  "\<exists>s res s'. agg_reachable ex_config s \<and> ApplyAt ex_config ex_jump ex_time ex_time s = Some (Inr (res, s')) \<and>
     rr_accepted (ar_receipt res) \<and> rr_resyncRequired (ar_receipt res)"
proof (rule ex_hello_applied)
  fix res s res' s''
  assume h: "ApplyAt ex_config ex_hello ex_time ex_time newRuntimeState = Some (Inr (res, s))"
    and e: "ex_sequence_ok 1 s"
    and j: "ApplyAt ex_config ex_jump ex_time ex_time s = Some (Inr (res', s''))" "ar_changed res'"
  obtain r where r: "map_of (ag_reporters (pruneIndexes ex_config ex_time s)) ''r'' = Some r" "rt_lastSequence r = 1"
    using ex_sequence_okD [OF e] by blast
  have "agg_reachable ex_config s" by (rule steps_step [OF steps_refl step_report [OF h]])
  moreover have "map_of (ag_reporters (pruneIndexes ex_config ex_time s)) (re_reporterInstanceID ex_jump) = Some r"
    using r by (simp add: ex_jump_def ex_report_def)
  moreover have "rt_lastSequence r > 0" "re_sequence ex_jump \<noteq> rt_lastSequence r + 1"
    using r by (simp_all add: ex_jump_def ex_report_def)
  ultimately show ?thesis using gap_asks_resync [OF j ex_times] j by blast
qed

end
