(* ===== verification/Node_Ids.thy ===== *)
theory Node_Ids
  imports Domain_Types "HOL-Library.Word"
begin

unbundle bit_operations_syntax

text \<open>
  The default source of node ids (\<open>randomNodeID\<close> in \<open>internal/aggregate/aggregator.go\<close>): 16 random
  bytes, of which six bits are fixed, in hexadecimal. The bytes are a parameter.
\<close>

section \<open>Hexadecimal\<close>

definition hex_digit :: "nat \<Rightarrow> char" where
  "hex_digit n = (if n < 10 then char_of (48 + n) else char_of (87 + n))"

text \<open>\<open>hex.EncodeToString\<close>.\<close>

definition hex_byte :: "8 word \<Rightarrow> string" where
  "hex_byte b = [hex_digit (unat b div 16), hex_digit (unat b mod 16)]"

definition hex_string :: "8 word list \<Rightarrow> string" where
  "hex_string bytes = concat (map hex_byte bytes)"

section \<open>Node ids\<close>

definition fix_version :: "8 word list \<Rightarrow> 8 word list" where
  "fix_version value = value[6 := (value ! 6 AND 0x0f) OR 0x40, 8 := (value ! 8 AND 0x3f) OR 0x80]"

definition randomNodeID :: "8 word list \<Rightarrow> string" where
  "randomNodeID value = ''n_'' @ hex_string (fix_version value)"

section \<open>Lemmas\<close>

lemma hex_digit_inj: "m < 16 \<Longrightarrow> n < 16 \<Longrightarrow> hex_digit m = hex_digit n \<Longrightarrow> m = n"
  by (auto simp: hex_digit_def split: if_splits dest!: arg_cong [where f = "of_char :: char \<Rightarrow> nat"])

lemma hex_digit_no_dash: "n < 16 \<Longrightarrow> CHR ''-'' \<noteq> hex_digit n"
  by (auto simp: hex_digit_def dest!: arg_cong [where f = "of_char :: char \<Rightarrow> nat"])

lemma byte_bound: "unat (b :: 8 word) < 256"
  using unsigned_less [of b] by simp

lemma byte_nibbles: "unat (b :: 8 word) div 16 < 16" "unat (b :: 8 word) mod 16 < 16"
  using byte_bound [of b] by auto

lemma hex_byte_inj: "hex_byte b = hex_byte c \<Longrightarrow> b = c"
proof -
  assume "hex_byte b = hex_byte c"
  then have "unat b div 16 = unat c div 16" "unat b mod 16 = unat c mod 16"
    using hex_digit_inj byte_nibbles unfolding hex_byte_def by auto
  then show "b = c" by (metis mult_div_mod_eq word_unat_eq_iff)
qed

lemma hex_string_length [simp]: "length (hex_string bs) = 2 * length bs"
  by (induction bs) (auto simp: hex_string_def hex_byte_def)

lemma hex_string_inj: "hex_string bs = hex_string cs \<Longrightarrow> bs = cs"
proof (induction bs arbitrary: cs)
  case Nil
  then show ?case by (cases cs) (simp_all add: hex_string_def hex_byte_def)
next
  case (Cons b bs)
  then obtain c cs' where "cs = c # cs'" by (cases cs) (auto simp: hex_string_def hex_byte_def)
  then show ?case
    using Cons hex_byte_inj [of b c] by (auto simp: hex_string_def hex_byte_def)
qed

lemma hex_string_no_dash: "CHR ''-'' \<notin> set (hex_string bs)"
  using hex_digit_no_dash [OF byte_nibbles(1)] hex_digit_no_dash [OF byte_nibbles(2)]
  by (auto simp: hex_string_def hex_byte_def)

lemma fix_version_length [simp]: "length (fix_version v) = length v"
  by (simp add: fix_version_def)

text \<open>The bits of a byte that are random.\<close>

definition random_bits :: "nat \<Rightarrow> 8 word" where
  "random_bits i = (if i = 6 then 0x0f else if i = 8 then 0x3f else 0xff)"

definition same_random :: "8 word list \<Rightarrow> 8 word list \<Rightarrow> bool" where
  "same_random v w \<longleftrightarrow> list_all (\<lambda>i. v ! i AND random_bits i = w ! i AND random_bits i) [0..<length v]"

lemma fix_version_nth:
  "i < length v \<Longrightarrow> fix_version v ! i =
     (if i = 8 then (v ! 8 AND 0x3f) OR 0x80 else if i = 6 then (v ! 6 AND 0x0f) OR 0x40 else v ! i)"
  by (simp add: fix_version_def)

lemma or_disjoint_inj:
  fixes a b m :: "8 word"
  assumes c: "m AND c = 0"
  shows "(a AND m) OR c = (b AND m) OR c \<longleftrightarrow> a AND m = b AND m"
proof
  assume "(a AND m) OR c = (b AND m) OR c"
  then have "bit ((a AND m) OR c) n = bit ((b AND m) OR c) n" for n by simp
  moreover have "\<not> (bit m n \<and> bit c n)" for n using c by (metis bit_and_iff bit_0_eq bot_apply bot_bool_def)
  ultimately show "a AND m = b AND m"
    by (intro bit_word_eqI) (auto simp: bit_and_iff bit_or_iff)
qed simp

lemma full_byte: "(a :: 8 word) AND 0xff = a"
  by (rule bit_word_eqI) (auto simp: bit_simps less_Suc_eq numeral_eq_Suc)

lemma fix_version_eq:
  assumes "length v = 16" "length w = 16"
  shows "fix_version v = fix_version w \<longleftrightarrow> same_random v w"
proof -
  have "fix_version v ! i = fix_version w ! i \<longleftrightarrow> v ! i AND random_bits i = w ! i AND random_bits i" if "i < 16" for i
    using that assms or_disjoint_inj [of "0x3f" "0x80"] or_disjoint_inj [of "0x0f" "0x40"]
    by (simp add: fix_version_nth random_bits_def full_byte)
  then show ?thesis
    using assms unfolding list_eq_iff_nth_eq same_random_def by (auto simp: list_all_iff)
qed

text \<open>The default node ids are 34 characters without a dash, and two of them are the same exactly when the
  122 random bits they are made of are the same.
\<close>
theorem randomNodeID_identifies:
  assumes "length v = 16" "length w = 16"
  shows "dash_free (randomNodeID v) \<and> length (randomNodeID v) = 34 \<and>
    (randomNodeID v = randomNodeID w \<longleftrightarrow> same_random v w)"
proof -
  have "randomNodeID v = randomNodeID w \<longleftrightarrow> same_random v w"
    using fix_version_eq [OF assms] hex_string_inj by (auto simp: randomNodeID_def)
  then show ?thesis using assms hex_string_no_dash by (simp add: randomNodeID_def dash_free_def)
qed

theorem randomNodeID_identifies_witness:
  "randomNodeID (replicate 16 0) \<noteq> randomNodeID (replicate 16 1)"
proof -
  have "\<not> same_random (replicate 16 0) (replicate 16 1)" by code_simp
  then show ?thesis using randomNodeID_identifies [of "replicate 16 0" "replicate 16 1"] by simp
qed

end
