(* ===== verification/Sink_Snapshot.thy ===== *)
theory Sink_Snapshot
  imports Domain_Types "HOL-Library.Word"
begin

text \<open>
  The exporter's snapshots (\<open>exporter/types.go\<close>, \<open>exporter/sink.go\<close>, \<open>exporter/sink_relay.go\<close>): their
  validation, the peers and relay sessions whose counters moved between two snapshots, and the
  inventory of a snapshot. The exporter package declares the report types of the wire format again;
  the model uses those of \<open>Domain_Types\<close> for both sides of it.
\<close>

section \<open>Types\<close>

record peer_snapshot =
  ps_identity :: node_identity
  ps_rxBytes :: int
  ps_txBytes :: int
  ps_path :: path_observation
  ps_fallbackPath :: "path_observation option"
  ps_pathEvidence :: path_evidence
  ps_inferenceRule :: string

record sink_snapshot =
  sp_collectedAt :: time
  sp_observer :: node_identity
  sp_peers :: "peer_snapshot list"

datatype relay_capability =
    RelayOff | RelayUnsupported | RelayDisabled | RelayEnabled | RelayTransientFailure
  | OtherRelayCapability string

datatype relay_identity_evidence =
  RelayIdentityAvailable | RelayIdentityDegraded | NoRelayIdentityEvidence | OtherRelayIdentityEvidence string

text \<open>The counters of relay clients are \<open>uint64\<close>.\<close>

record relay_client_snapshot =
  rq_sessionClientID :: string
  rq_identity :: "node_identity option"
  rq_discoShort :: string
  rq_endpoint :: string
  rq_packetsSent :: "64 word"
  rq_bytesSent :: "64 word"

record relay_session_snapshot =
  rz_sessionID :: string
  rz_vni :: int
  rz_source :: relay_client_snapshot
  rz_target :: relay_client_snapshot

record relay_snapshot =
  rn_collectedAt :: time
  rn_capability :: relay_capability
  rn_identityEvidence :: relay_identity_evidence
  rn_sessions :: "relay_session_snapshot list"

definition no_sink_snapshot :: sink_snapshot where
  "no_sink_snapshot = \<lparr>sp_collectedAt = 0, sp_observer = no_identity, sp_peers = []\<rparr>"

definition no_relay_snapshot :: relay_snapshot where
  "no_relay_snapshot = \<lparr>rn_collectedAt = 0, rn_capability = OtherRelayCapability [],
     rn_identityEvidence = NoRelayIdentityEvidence, rn_sessions = []\<rparr>"

section \<open>Validating a snapshot\<close>

datatype snapshot_error =
    SnapshotObserverRequired | SnapshotPeerRequired nat | SnapshotCountersNegative nat
  | SnapshotPeerDuplicated string | SnapshotPathInvalid nat path_kind | SnapshotVNIInvalid nat
  | SnapshotLegacyEvidence nat | SnapshotEvidenceInvalid nat path_evidence | SnapshotFallbackNotDERP nat
  | SnapshotFallbackNeedsPrimary nat | SnapshotRuleNeedsInferred nat | SnapshotInferredNeedsRule nat
  | SourceFailed string

text \<open>The checks of one peer from its path on, after the defaults were filled in.\<close>

definition fill_peer :: "peer_snapshot \<Rightarrow> peer_snapshot" where
  "fill_peer p =
     (let p1 = (if po_kind (ps_path p) = NoPathKind then p\<lparr>ps_path := (ps_path p)\<lparr>po_kind := PathUnknown\<rparr>\<rparr> else p)
      in if ps_pathEvidence p = NoPathEvidence then p1\<lparr>ps_pathEvidence := PathEvidenceObserved\<rparr> else p1)"

definition check_filled_peer :: "nat \<Rightarrow> peer_snapshot \<Rightarrow> snapshot_error option" where
  "check_filled_peer index p =
     (if po_kind (ps_path p) \<notin> {PathDirect, PathDERP, PathPeerRelay, PathUnknown}
      then Some (SnapshotPathInvalid index (po_kind (ps_path p)))
      else if (case po_relayVNI (ps_path p) of Some v \<Rightarrow> v < 0 \<or> v > max_vni | None \<Rightarrow> False)
      then Some (SnapshotVNIInvalid index)
      else if ps_pathEvidence p = PathEvidenceLegacy then Some (SnapshotLegacyEvidence index)
      else if ps_pathEvidence p \<noteq> PathEvidenceObserved \<and> ps_pathEvidence p \<noteq> PathEvidenceInferred
      then Some (SnapshotEvidenceInvalid index (ps_pathEvidence p))
      else if (case ps_fallbackPath p of Some f \<Rightarrow> po_kind f \<noteq> PathDERP | None \<Rightarrow> False)
      then Some (SnapshotFallbackNotDERP index)
      else if ps_fallbackPath p \<noteq> None \<and> po_kind (ps_path p) \<noteq> PathDirect \<and> po_kind (ps_path p) \<noteq> PathPeerRelay
      then Some (SnapshotFallbackNeedsPrimary index)
      else if ps_pathEvidence p \<noteq> PathEvidenceInferred \<and> ps_inferenceRule p \<noteq> []
      then Some (SnapshotRuleNeedsInferred index)
      else if ps_pathEvidence p = PathEvidenceInferred \<and> trim_space (ps_inferenceRule p) = []
      then Some (SnapshotInferredNeedsRule index)
      else None)"

fun validate_peers :: "nat \<Rightarrow> string set \<Rightarrow> peer_snapshot list \<Rightarrow> snapshot_error + peer_snapshot list" where
  "validate_peers index seen [] = Inr []"
| "validate_peers index seen (p # ps) =
     (let key = IdentityKey (ps_identity p)
      in if \<not> HasIdentity (ps_identity p) then Inl (SnapshotPeerRequired index)
         else if ps_rxBytes p < 0 \<or> ps_txBytes p < 0 then Inl (SnapshotCountersNegative index)
         else if key \<in> seen then Inl (SnapshotPeerDuplicated key)
         else case check_filled_peer index (fill_peer p) of
           Some e \<Rightarrow> Inl e
         | None \<Rightarrow> map_sum id (\<lambda>rest. fill_peer p # rest) (validate_peers (Suc index) (insert key seen) ps))"

definition validateSnapshot :: "sink_snapshot \<Rightarrow> time \<Rightarrow> snapshot_error + sink_snapshot" where
  "validateSnapshot snap fallback =
     (let s = (if sp_collectedAt snap = 0 then snap\<lparr>sp_collectedAt := fallback\<rparr> else snap)
      in if \<not> HasIdentity (sp_observer s) then Inl SnapshotObserverRequired
         else map_sum id (\<lambda>ps. s\<lparr>sp_peers := ps\<rparr>) (validate_peers 0 {} (sp_peers s)))"

section \<open>Peers of a report\<close>

definition baselineSnapshotPeers :: "sink_snapshot \<Rightarrow> peer_observation list" where
  "baselineSnapshotPeers snap =
     map (\<lambda>p. \<lparr>pe_peer = ps_identity p, pe_rxBytes = ps_rxBytes p, pe_txBytes = ps_txBytes p, pe_rxDelta = 0,
              pe_txDelta = 0, pe_sampleDurationMS = 0, pe_path = ps_path p, pe_fallbackPath = ps_fallbackPath p,
              pe_pathEvidence = ps_pathEvidence p, pe_inferenceRule = ps_inferenceRule p,
              pe_lastActive = sp_collectedAt snap\<rparr>) (sp_peers snap)"

definition snapshotCounterDelta :: "int \<Rightarrow> int \<Rightarrow> int" where
  "snapshotCounterDelta previous current = (if current < previous then 0 else current - previous)"

definition sample_duration :: "time \<Rightarrow> time \<Rightarrow> duration \<Rightarrow> int" where
  "sample_duration previous current fallback =
     (let d = time_sub current previous in max (milliseconds (if d \<le> 0 then fallback else d)) 1)"

definition old_peers :: "sink_snapshot \<Rightarrow> (string, peer_snapshot) gomap" where
  "old_peers snap = fold (\<lambda>p. mput (IdentityKey (ps_identity p)) p) (sp_peers snap) []"

text \<open>A peer of the current snapshot whose counters moved.\<close>

definition changed_peer ::
  "sink_snapshot \<Rightarrow> sink_snapshot \<Rightarrow> string set \<Rightarrow> duration \<Rightarrow> peer_snapshot \<Rightarrow> peer_observation option" where
  "changed_peer previous current controlIDs fallback p =
     (if ni_stableNodeID (ps_identity p) \<in> controlIDs then None
      else case map_of (old_peers previous) (IdentityKey (ps_identity p)) of
        None \<Rightarrow> None
      | Some old \<Rightarrow>
          (let rxDelta = snapshotCounterDelta (ps_rxBytes old) (ps_rxBytes p);
               txDelta = snapshotCounterDelta (ps_txBytes old) (ps_txBytes p)
           in if rxDelta = 0 \<and> txDelta = 0 then None
              else Some
                \<lparr>pe_peer = ps_identity p, pe_rxBytes = ps_rxBytes p, pe_txBytes = ps_txBytes p, pe_rxDelta = rxDelta,
                 pe_txDelta = txDelta,
                 pe_sampleDurationMS = sample_duration (sp_collectedAt previous) (sp_collectedAt current) fallback,
                 pe_path = ps_path p, pe_fallbackPath = ps_fallbackPath p, pe_pathEvidence = ps_pathEvidence p,
                 pe_inferenceRule = ps_inferenceRule p, pe_lastActive = sp_collectedAt current\<rparr>))"

definition changedSnapshotPeers ::
  "sink_snapshot \<Rightarrow> sink_snapshot \<Rightarrow> string set \<Rightarrow> duration \<Rightarrow> peer_observation list" where
  "changedSnapshotPeers previous current controlIDs fallback =
     List.map_filter (changed_peer previous current controlIDs fallback) (sp_peers current)"

text \<open>
  The identities of a snapshot, each with sorted addresses, in the order of their keys. The code
  hashes their JSON with SHA-256; \<open>digest\<close> stands for that.
\<close>

definition inventory_identities :: "sink_snapshot \<Rightarrow> node_identity list" where
  "inventory_identities snap =
     sort_slice (\<lambda>a b. IdentityKey a < IdentityKey b)
       (map (\<lambda>i. i\<lparr>ni_tailscaleIPs := sort (ni_tailscaleIPs i), ni_publicEndpoints := sort (ni_publicEndpoints i)\<rparr>)
         (sp_observer snap # map ps_identity (sp_peers snap)))"

definition snapshotInventoryHash :: "(node_identity list \<Rightarrow> string) \<Rightarrow> sink_snapshot \<Rightarrow> string" where
  "snapshotInventoryHash digest snap = digest (inventory_identities snap)"

section \<open>Relay sessions\<close>

definition relaySessionKey :: "relay_session_snapshot \<Rightarrow> string" where
  "relaySessionKey s = show_int (rz_vni s) @ '':'' @ rz_sessionID s"

datatype relay_error =
    RelayCapabilityInvalid relay_capability | RelayEvidenceInvalid relay_identity_evidence
  | RelaySessionsNeedEnabled | RelaySessionIDMissing nat | RelaySessionVNIInvalid nat
  | RelaySessionDuplicated nat | RelayClientIDMissing nat nat | RelayClientIdentityInvalid nat nat
  | RelayCounterOutOfRange | RelaySourceFailed string

definition check_relay_client :: "nat \<Rightarrow> nat \<Rightarrow> relay_client_snapshot \<Rightarrow> relay_error option" where
  "check_relay_client index clientIndex c =
     (if trim_space (rq_sessionClientID c) = [] then Some (RelayClientIDMissing index clientIndex)
      else case rq_identity c of
        Some i \<Rightarrow> if HasIdentity i then None else Some (RelayClientIdentityInvalid index clientIndex)
      | None \<Rightarrow> None)"

fun check_relay_sessions :: "nat \<Rightarrow> string set \<Rightarrow> relay_session_snapshot list \<Rightarrow> relay_error option" where
  "check_relay_sessions index seen [] = None"
| "check_relay_sessions index seen (s # ss) =
     (if trim_space (rz_sessionID s) = [] then Some (RelaySessionIDMissing index)
      else if rz_vni s < 0 \<or> rz_vni s > max_vni then Some (RelaySessionVNIInvalid index)
      else if relaySessionKey s \<in> seen then Some (RelaySessionDuplicated index)
      else case check_relay_client index 0 (rz_source s) of
        Some e \<Rightarrow> Some e
      | None \<Rightarrow>
          (case check_relay_client index 1 (rz_target s) of
             Some e \<Rightarrow> Some e
           | None \<Rightarrow> check_relay_sessions (Suc index) (insert (relaySessionKey s) seen) ss))"

definition validateRelaySnapshot :: "relay_snapshot \<Rightarrow> time \<Rightarrow> relay_error + relay_snapshot" where
  "validateRelaySnapshot snap fallback =
     (let s = (if rn_collectedAt snap = 0 then snap\<lparr>rn_collectedAt := fallback\<rparr> else snap)
      in if (case rn_capability s of OtherRelayCapability _ \<Rightarrow> True | _ \<Rightarrow> False)
         then Inl (RelayCapabilityInvalid (rn_capability s))
         else if (case rn_identityEvidence s of OtherRelayIdentityEvidence _ \<Rightarrow> True | _ \<Rightarrow> False)
         then Inl (RelayEvidenceInvalid (rn_identityEvidence s))
         else if rn_capability s \<noteq> RelayEnabled \<and> rn_sessions s \<noteq> [] then Inl RelaySessionsNeedEnabled
         else case check_relay_sessions 0 {} (rn_sessions s) of Some e \<Rightarrow> Inl e | None \<Rightarrow> Inr s)"

text \<open>A \<open>uint64\<close> counter as the \<open>int64\<close> of the protocol.\<close>

definition relayCounterValue :: "64 word \<Rightarrow> relay_error + int" where
  "relayCounterValue value =
     (if uint value > 9223372036854775807 then Inl RelayCounterOutOfRange else Inr (uint value))"

definition relayObservationClient :: "relay_client_snapshot \<Rightarrow> relay_session_client" where
  "relayObservationClient c =
     \<lparr>rc_sessionClientID = rq_sessionClientID c, rc_identity = rq_identity c, rc_discoShort = rq_discoShort c,
      rc_endpoint = rq_endpoint c\<rparr>"

definition old_sessions :: "relay_snapshot \<Rightarrow> (string, relay_session_snapshot) gomap" where
  "old_sessions snap = fold (\<lambda>s. mput (relaySessionKey s) s) (rn_sessions snap) []"

text \<open>A session of the current snapshot: \<open>Inr None\<close> when it is not reported.\<close>

definition changed_session ::
  "relay_snapshot \<Rightarrow> relay_snapshot \<Rightarrow> duration \<Rightarrow> relay_session_snapshot \<Rightarrow>
   relay_error + relay_session_observation option" where
  "changed_session previous current fallback s =
     (case map_of (old_sessions previous) (relaySessionKey s) of
        None \<Rightarrow> Inr None
      | Some old \<Rightarrow>
          (let sent = rq_bytesSent (rz_source s); back = rq_bytesSent (rz_target s);
               sourceDelta = sent - rq_bytesSent (rz_source old); targetDelta = back - rq_bytesSent (rz_target old)
           in if rq_sessionClientID (rz_source old) \<noteq> rq_sessionClientID (rz_source s) \<or>
                 rq_sessionClientID (rz_target old) \<noteq> rq_sessionClientID (rz_target s) then Inr None
              else if sent < rq_bytesSent (rz_source old) \<or> back < rq_bytesSent (rz_target old) then Inr None
              else if sourceDelta = 0 \<and> targetDelta = 0 then Inr None
              else case (relayCounterValue sent, relayCounterValue back,
                         relayCounterValue sourceDelta, relayCounterValue targetDelta) of
                (Inr sourceBytes, Inr targetBytes, Inr sourceDeltaValue, Inr targetDeltaValue) \<Rightarrow>
                  Inr (Some \<lparr>rs_relay = no_identity, rs_source = relayObservationClient (rz_source s),
                    rs_target = relayObservationClient (rz_target s), rs_sessionID = rz_sessionID s,
                    rs_vni = rz_vni s, rs_sourceToTargetBytes = sourceBytes, rs_targetToSourceBytes = targetBytes,
                    rs_sourceToTargetDelta = sourceDeltaValue, rs_targetToSourceDelta = targetDeltaValue,
                    rs_sampleDurationMS = sample_duration (rn_collectedAt previous) (rn_collectedAt current) fallback,
                    rs_lastActive = rn_collectedAt current\<rparr>)
              | _ \<Rightarrow> Inl RelayCounterOutOfRange))"

fun changed_sessions ::
  "(relay_session_snapshot \<Rightarrow> relay_error + relay_session_observation option) \<Rightarrow> relay_session_snapshot list \<Rightarrow>
   relay_error + relay_session_observation list" where
  "changed_sessions f [] = Inr []"
| "changed_sessions f (s # ss) =
     (case f s of
        Inl e \<Rightarrow> Inl e
      | Inr None \<Rightarrow> changed_sessions f ss
      | Inr (Some ob) \<Rightarrow> map_sum id (\<lambda>obs. ob # obs) (changed_sessions f ss))"

definition changedRelaySessions ::
  "relay_snapshot \<Rightarrow> relay_snapshot \<Rightarrow> duration \<Rightarrow> relay_error + relay_session_observation list" where
  "changedRelaySessions previous current fallback =
     changed_sessions (changed_session previous current fallback) (rn_sessions current)"

end
