(* ===== verification/Sink_State.thy ===== *)
theory Sink_State
  imports Sink_Snapshot
begin

text \<open>
  The state of the snapshot sink and its handling of events (\<open>exporter/sink.go\<close>): what a source last
  showed, what the server was told, and which observers have still to be withdrawn. The states of the
  sources are a map; an operation of the code that keeps a pointer to one keeps its key here. Logging
  and the cancelling of samplers are left out.
\<close>

section \<open>Configuration\<close>

definition defaultSampleInterval :: duration where "defaultSampleInterval = 2 * second"
definition defaultBatchWindow :: duration where "defaultBatchWindow = 100 * 1000000"
definition defaultSnapshotTimeout :: duration where "defaultSnapshotTimeout = 15 * second"
definition defaultHeartbeatInterval :: duration where "defaultHeartbeatInterval = minute"
definition defaultRetryMin :: duration where "defaultRetryMin = 2 * second"
definition defaultRetryMax :: duration where "defaultRetryMax = 60 * second"
definition defaultMaxBatchObservers :: int where "defaultMaxBatchObservers = 64"
definition defaultMaxRequestBytes :: int where "defaultMaxRequestBytes = 1048576"

text \<open>
  \<open>kc_digest\<close> stands for the SHA-256 of the JSON of an inventory, \<open>kc_payload\<close> for the size of a
  report's JSON (\<open>None\<close>: it cannot be encoded), \<open>kc_reportID n\<close> for the random id of the report with
  sequence number \<open>n\<close>.
\<close>

record sink_config =
  kc_sampleInterval :: duration
  kc_snapshotTimeout :: duration
  kc_batchWindow :: duration
  kc_heartbeatInterval :: duration
  kc_retryMin :: duration
  kc_retryMax :: duration
  kc_maxBatchObservers :: int
  kc_maxRequestBytes :: int
  kc_reporterInstanceID :: string
  kc_digest :: "node_identity list \<Rightarrow> string"
  kc_payload :: "report_envelope \<Rightarrow> int option"
  kc_reportID :: "int \<Rightarrow> string"

text \<open>\<open>newSnapshotSink\<close>: \<open>uuid\<close> is the instance id it makes up when none is given.\<close>

definition normalize_config :: "string \<Rightarrow> sink_config \<Rightarrow> sink_config" where
  "normalize_config uuid c =
     (let retryMin = (if kc_retryMin c \<le> 0 then defaultRetryMin else kc_retryMin c);
          retryMax = (if kc_retryMax c \<le> 0 then defaultRetryMax else kc_retryMax c)
      in c\<lparr>kc_sampleInterval := (if kc_sampleInterval c \<le> 0 then defaultSampleInterval else kc_sampleInterval c),
           kc_batchWindow := (if kc_batchWindow c \<le> 0 then defaultBatchWindow else kc_batchWindow c),
           kc_snapshotTimeout := (if kc_snapshotTimeout c \<le> 0 then defaultSnapshotTimeout else kc_snapshotTimeout c),
           kc_heartbeatInterval :=
             (if kc_heartbeatInterval c \<le> 0 then defaultHeartbeatInterval else kc_heartbeatInterval c),
           kc_retryMin := retryMin, kc_retryMax := (if retryMax < retryMin then retryMin else retryMax),
           kc_maxBatchObservers :=
             (if kc_maxBatchObservers c \<le> 0 \<or> kc_maxBatchObservers c > defaultMaxBatchObservers
              then defaultMaxBatchObservers else kc_maxBatchObservers c),
           kc_maxRequestBytes :=
             (if kc_maxRequestBytes c \<le> 0 \<or> kc_maxRequestBytes c > defaultMaxRequestBytes
              then defaultMaxRequestBytes else kc_maxRequestBytes c),
           kc_reporterInstanceID := (if kc_reporterInstanceID c = [] then uuid else kc_reporterInstanceID c)\<rparr>)"

section \<open>States\<close>

record observer_reference =
  rf_identity :: node_identity
  rf_generation :: string

datatype withdraw_error =
    WithdrawalOversized | WithdrawalRejected int | SinkStopped

record source_state =
  ss_registration :: nat
  ss_latest :: sink_snapshot
  ss_baseline :: sink_snapshot
  ss_hasLatest :: bool
  ss_hasBaseline :: bool
  ss_healthy :: bool
  ss_dirty :: bool
  ss_needsHello :: bool
  ss_serverRef :: "observer_reference option"
  ss_uncertainRefs :: "observer_reference list"
  ss_withdrawals :: "observer_reference list"
  ss_withdrawing :: bool
  ss_lastReportAt :: time
  ss_sourceFailed :: bool
  ss_oversized :: bool
  ss_withdrawErr :: "withdraw_error option"
  ss_relayLatest :: relay_snapshot
  ss_relayBaseline :: relay_snapshot
  ss_relayHasLatest :: bool
  ss_relayHasBaseline :: bool
  ss_relayHealthy :: bool
  ss_relayDirty :: bool
  ss_relaySourceFailed :: bool
  ss_relayCapability :: relay_capability
  ss_relayIdentityEvidence :: relay_identity_evidence

definition new_source :: "nat \<Rightarrow> bool \<Rightarrow> source_state" where
  "new_source registration needsHello =
     \<lparr>ss_registration = registration, ss_latest = no_sink_snapshot, ss_baseline = no_sink_snapshot,
      ss_hasLatest = False, ss_hasBaseline = False, ss_healthy = False, ss_dirty = False,
      ss_needsHello = needsHello, ss_serverRef = None, ss_uncertainRefs = [], ss_withdrawals = [],
      ss_withdrawing = False, ss_lastReportAt = 0, ss_sourceFailed = False, ss_oversized = False,
      ss_withdrawErr = None, ss_relayLatest = no_relay_snapshot, ss_relayBaseline = no_relay_snapshot,
      ss_relayHasLatest = False, ss_relayHasBaseline = False, ss_relayHealthy = False,
      ss_relayDirty = False, ss_relaySourceFailed = False, ss_relayCapability = OtherRelayCapability [],
      ss_relayIdentityEvidence = NoRelayIdentityEvidence\<rparr>"

record transport_state =
  tr_capabilitiesReady :: bool
  tr_directionalPathEvidence :: bool
  tr_failures :: nat
  tr_nextAttempt :: time
  tr_degraded :: bool

definition new_transport :: transport_state where
  "new_transport = \<lparr>tr_capabilitiesReady = False, tr_directionalPathEvidence = False, tr_failures = 0,
     tr_nextAttempt = 0, tr_degraded = False\<rparr>"

text \<open>Events name the registration object they are from: its key and the object's number.\<close>

datatype sink_event =
    SourceResult string nat "snapshot_error + sink_snapshot"
  | RelayResult string nat "relay_error + relay_snapshot"
  | WithdrawRequest string nat

text \<open>
  The sink with the local variables of \<open>Run\<close>: registration objects by key, the results of the
  finished ones, the queued events, and what \<open>Run\<close> knows of the server.
\<close>

record sink_state =
  sk_registrations :: "(string, nat) gomap"
  sk_results :: "(nat, withdraw_error option) gomap"
  sk_nextRegistration :: nat
  sk_started :: bool
  sk_running :: bool
  sk_events :: "sink_event list"
  sk_states :: "(string, source_state) gomap"
  sk_transport :: transport_state
  sk_controlIDs :: "string set"
  sk_heartbeat :: duration
  sk_sequence :: int

definition new_sink :: "sink_config \<Rightarrow> sink_state" where
  "new_sink cfg =
     \<lparr>sk_registrations = [], sk_results = [], sk_nextRegistration = 0, sk_started = False, sk_running = False,
      sk_events = [], sk_states = [], sk_transport = new_transport, sk_controlIDs = {},
      sk_heartbeat = kc_heartbeatInterval cfg, sk_sequence = 0\<rparr>"

definition put_source :: "string \<Rightarrow> source_state \<Rightarrow> sink_state \<Rightarrow> sink_state" where
  "put_source key x s = s\<lparr>sk_states := mput key x (sk_states s)\<rparr>"

definition update_source :: "string \<Rightarrow> (source_state \<Rightarrow> source_state) \<Rightarrow> sink_state \<Rightarrow> sink_state" where
  "update_source key f s =
     (case map_of (sk_states s) key of None \<Rightarrow> s | Some x \<Rightarrow> put_source key (f x) s)"

section \<open>Registrations\<close>

datatype register_error = RegistrationKeyRequired | DuplicateRegistration string | RegisterSinkStopped

text \<open>The number of the new registration object; the source itself is never absent here.\<close>

definition Register :: "string \<Rightarrow> sink_state \<Rightarrow> register_error + nat \<times> sink_state" where
  "Register rawKey s =
     (let key = trim_space rawKey
      in if key = [] then Inl RegistrationKeyRequired
         else if map_of (sk_registrations s) key \<noteq> None then Inl (DuplicateRegistration key)
         else if sk_started s \<and> \<not> sk_running s then Inl RegisterSinkStopped
         else Inr (sk_nextRegistration s,
                s\<lparr>sk_registrations := mput key (sk_nextRegistration s) (sk_registrations s),
                  sk_nextRegistration := Suc (sk_nextRegistration s)\<rparr>))"

text \<open>\<open>finish\<close>: only the first result of a registration counts.\<close>

definition finish :: "nat \<Rightarrow> withdraw_error option \<Rightarrow> sink_state \<Rightarrow> sink_state" where
  "finish registration err s =
     (if map_of (sk_results s) registration \<noteq> None then s
      else s\<lparr>sk_results := mput registration err (sk_results s)\<rparr>)"

definition requestWithdrawal :: "string \<Rightarrow> nat \<Rightarrow> sink_state \<Rightarrow> sink_state" where
  "requestWithdrawal key registration s =
     (if \<not> sk_started s then
        finish registration None (s\<lparr>sk_registrations := mdel key (sk_registrations s)\<rparr>)
      else if \<not> sk_running s then finish registration (Some SinkStopped) s
      else s\<lparr>sk_events := sk_events s @ [WithdrawRequest key registration]\<rparr>)"

section \<open>References to observers the server may know\<close>

definition reference_key :: "observer_reference \<Rightarrow> string" where
  "reference_key r = IdentityKey (rf_identity r)"

definition appendObserverReference :: "observer_reference list \<Rightarrow> observer_reference \<Rightarrow> observer_reference list" where
  "appendObserverReference values candidate =
     (if list_ex (\<lambda>v. reference_key v = reference_key candidate) values then values else values @ [candidate])"

definition removeObserverReference :: "observer_reference list \<Rightarrow> observer_reference \<Rightarrow> observer_reference list" where
  "removeObserverReference values candidate =
     filter (\<lambda>v. reference_key v \<noteq> reference_key candidate) values"

text \<open>The retained references and the withdrawals.\<close>

definition retireObserverReferences ::
  "observer_reference list \<Rightarrow> observer_reference list \<Rightarrow> string \<Rightarrow> observer_reference list \<times> observer_reference list" where
  "retireObserverReferences values withdrawals currentKey =
     (filter (\<lambda>r. reference_key r = currentKey) values,
      fold (\<lambda>r ws. appendObserverReference ws r)
        (filter (\<lambda>r. reference_key r \<noteq> currentKey) values) withdrawals)"

definition queueAllObserverReferencesForWithdrawal :: "source_state \<Rightarrow> source_state" where
  "queueAllObserverReferencesForWithdrawal x =
     (let ws = (case ss_serverRef x of Some r \<Rightarrow> appendObserverReference (ss_withdrawals x) r | None \<Rightarrow> ss_withdrawals x)
      in x\<lparr>ss_serverRef := None,
           ss_withdrawals := fold (\<lambda>r ws. appendObserverReference ws r) (ss_uncertainRefs x) ws,
           ss_uncertainRefs := []\<rparr>)"

section \<open>Events\<close>

definition source_or_new :: "string \<Rightarrow> nat \<Rightarrow> bool \<Rightarrow> sink_state \<Rightarrow> source_state" where
  "source_or_new key registration needsHello s =
     (case map_of (sk_states s) key of Some x \<Rightarrow> x | None \<Rightarrow> new_source registration needsHello)"

definition source_failed :: "source_state \<Rightarrow> source_state" where
  "source_failed x = x\<lparr>ss_sourceFailed := True, ss_healthy := False, ss_hasBaseline := False, ss_dirty := False,
     ss_needsHello := True\<rparr>"

definition source_sampled :: "sink_snapshot \<Rightarrow> source_state \<Rightarrow> source_state" where
  "source_sampled snap x =
     (let x1 = x\<lparr>ss_sourceFailed := False, ss_healthy := True, ss_latest := snap, ss_hasLatest := True,
                 ss_dirty := True\<rparr>;
          x2 = (if ss_hasBaseline x1 then x1
                else x1\<lparr>ss_baseline := snap, ss_hasBaseline := True, ss_needsHello := True\<rparr>);
          key = IdentityKey (sp_observer snap);
          x3 = (case ss_serverRef x2 of
                  Some r \<Rightarrow>
                    if reference_key r \<noteq> key
                    then x2\<lparr>ss_withdrawals := appendObserverReference (ss_withdrawals x2) r, ss_serverRef := None\<rparr>
                    else x2
                | None \<Rightarrow> x2);
          (uncertain, ws) = retireObserverReferences (ss_uncertainRefs x3) (ss_withdrawals x3) key;
          x4 = x3\<lparr>ss_uncertainRefs := uncertain, ss_withdrawals := ws\<rparr>
      in if ws \<noteq> [] then x4\<lparr>ss_needsHello := True, ss_relayHasBaseline := False, ss_relayDirty := False\<rparr> else x4)"

definition relay_failed :: "source_state \<Rightarrow> source_state" where
  "relay_failed x = x\<lparr>ss_relaySourceFailed := True, ss_relayHealthy := False, ss_relayHasBaseline := False,
     ss_relayDirty := False\<rparr>"

definition relay_sampled :: "relay_snapshot \<Rightarrow> source_state \<Rightarrow> source_state" where
  "relay_sampled snap x =
     (let x1 = x\<lparr>ss_relaySourceFailed := False, ss_relayCapability := rn_capability snap,
                 ss_relayIdentityEvidence := rn_identityEvidence snap\<rparr>
      in if rn_capability snap \<noteq> RelayEnabled
         then x1\<lparr>ss_relayHealthy := False, ss_relayHasLatest := False, ss_relayHasBaseline := False,
                 ss_relayDirty := False\<rparr>
         else
           let x2 = x1\<lparr>ss_relayHealthy := True, ss_relayLatest := snap, ss_relayHasLatest := True\<rparr>
           in if \<not> ss_relayHasBaseline x2
              then x2\<lparr>ss_relayBaseline := snap, ss_relayHasBaseline := True, ss_relayDirty := False\<rparr>
              else x2\<lparr>ss_relayDirty := True\<rparr>)"

definition source_withdrawing :: "source_state \<Rightarrow> source_state" where
  "source_withdrawing x =
     queueAllObserverReferencesForWithdrawal
       (x\<lparr>ss_withdrawing := True, ss_healthy := False, ss_dirty := False, ss_relayDirty := False\<rparr>)"

text \<open>A result of a sampler: dropped when the registration is not the current one of its key.\<close>

definition sampled ::
  "string \<Rightarrow> nat \<Rightarrow> (source_state \<Rightarrow> source_state) \<Rightarrow> sink_state \<Rightarrow> sink_state" where
  "sampled key registration f s =
     (if map_of (sk_registrations s) key \<noteq> Some registration then s
      else let x = source_or_new key registration True s
           in put_source key (if ss_withdrawing x then x else f x) s)"

fun handleEvent :: "sink_event \<Rightarrow> sink_state \<Rightarrow> sink_state" where
  "handleEvent (SourceResult key registration (Inl e)) s = sampled key registration source_failed s"
| "handleEvent (SourceResult key registration (Inr snap)) s = sampled key registration (source_sampled snap) s"
| "handleEvent (RelayResult key registration (Inl e)) s = sampled key registration relay_failed s"
| "handleEvent (RelayResult key registration (Inr snap)) s = sampled key registration (relay_sampled snap) s"
| "handleEvent (WithdrawRequest key registration) s =
     put_source key (source_withdrawing (source_or_new key registration False s)) s"

definition drainPendingEvents :: "sink_state \<Rightarrow> sink_state" where
  "drainPendingEvents s = fold handleEvent (sk_events s) (s\<lparr>sk_events := []\<rparr>)"

section \<open>Operations\<close>

text \<open>What is to be reported of a source.\<close>

record observer_operation =
  oo_key :: string
  oo_kind :: report_kind
  oo_collectedAt :: time
  oo_reference :: observer_reference
  oo_observer :: observer_report
  oo_snapshot :: sink_snapshot

definition snapshotOperation ::
  "string \<Rightarrow> source_state \<Rightarrow> report_kind \<Rightarrow> string \<Rightarrow> peer_observation list \<Rightarrow> observer_operation" where
  "snapshotOperation key x kind generation peers =
     (let latest = ss_latest x
      in \<lparr>oo_key = key, oo_kind = kind, oo_collectedAt = sp_collectedAt latest,
          oo_reference = \<lparr>rf_identity = sp_observer latest, rf_generation = generation\<rparr>,
          oo_observer = \<lparr>or_observer = sp_observer latest, or_inventoryGeneration = generation,
            or_collectedAt = Some (sp_collectedAt latest), or_peers = peers\<rparr>,
          oo_snapshot = latest\<rparr>)"

definition withdrawalOperation :: "string \<Rightarrow> observer_reference \<Rightarrow> time \<Rightarrow> observer_operation" where
  "withdrawalOperation key r now =
     \<lparr>oo_key = key, oo_kind = ReportObserverWithdrawal, oo_collectedAt = now, oo_reference = r,
      oo_observer = \<lparr>or_observer = rf_identity r, or_inventoryGeneration = rf_generation r,
        or_collectedAt = Some now, or_peers = []\<rparr>,
      oo_snapshot = no_sink_snapshot\<rparr>"

text \<open>A source that can report its latest snapshot: \<open>needsHello\<close> apart.\<close>

definition reportable :: "source_state \<Rightarrow> bool" where
  "reportable x \<longleftrightarrow> \<not> ss_withdrawing x \<and> ss_withdrawals x = [] \<and> ss_healthy x \<and> ss_hasLatest x"

text \<open>The operation of one source, and the source after it was looked at.\<close>

definition operation_for ::
  "sink_config \<Rightarrow> report_kind \<Rightarrow> string set \<Rightarrow> duration \<Rightarrow> time \<Rightarrow> string \<Rightarrow> source_state \<Rightarrow>
   observer_operation option \<times> source_state" where
  "operation_for cfg kind controlIDs heartbeat now key x =
     (let generation = snapshotInventoryHash (kc_digest cfg) (ss_latest x)
      in case kind of
        ReportObserverWithdrawal \<Rightarrow>
          (case ss_withdrawals x of [] \<Rightarrow> (None, x) | r # _ \<Rightarrow> (Some (withdrawalOperation key r now), x))
      | ReportObserverHello \<Rightarrow>
          if \<not> reportable x \<or> \<not> ss_needsHello x then (None, x)
          else (Some (snapshotOperation key x kind generation (baselineSnapshotPeers (ss_latest x))), x)
      | ReportInventoryUpdate \<Rightarrow>
          (case ss_serverRef x of
             None \<Rightarrow> (None, x)
           | Some ref \<Rightarrow>
               if \<not> reportable x \<or> ss_needsHello x \<or> \<not> ss_dirty x then (None, x)
               else if generation \<noteq> rf_generation ref
               then (Some (snapshotOperation key x kind generation (baselineSnapshotPeers (ss_latest x))), x)
               else (None, x))
      | ReportTrafficSample \<Rightarrow>
          (case ss_serverRef x of
             None \<Rightarrow> (None, x)
           | Some ref \<Rightarrow>
               if \<not> reportable x \<or> ss_needsHello x \<or> \<not> ss_dirty x then (None, x)
               else if generation \<noteq> rf_generation ref then (None, x)
               else
                 let peers = changedSnapshotPeers (ss_baseline x) (ss_latest x) controlIDs (kc_sampleInterval cfg)
                 in if peers = []
                    then (None, x\<lparr>ss_baseline := ss_latest x, ss_hasBaseline := True, ss_dirty := False\<rparr>)
                    else (Some (snapshotOperation key x kind generation peers), x))
      | ReportObserverHeartbeat \<Rightarrow>
          (case ss_serverRef x of
             None \<Rightarrow> (None, x)
           | Some ref \<Rightarrow>
               if \<not> reportable x \<or> ss_needsHello x \<or> ss_dirty x then (None, x)
               else
                 let elapsed = time_sub now (ss_lastReportAt x)
                 in if elapsed \<ge> 0 \<and> elapsed < heartbeat then (None, x)
                    else (Some (snapshotOperation key x kind (rf_generation ref) []), x))
      | _ \<Rightarrow> (None, x))"

definition collect_operation ::
  "sink_config \<Rightarrow> report_kind \<Rightarrow> time \<Rightarrow> string \<Rightarrow> observer_operation list \<times> sink_state \<Rightarrow>
   observer_operation list \<times> sink_state" where
  "collect_operation cfg kind now key acc =
     (let (ops, s) = acc
      in case map_of (sk_states s) key of
           None \<Rightarrow> (ops, s)
         | Some x \<Rightarrow>
             (case operation_for cfg kind (sk_controlIDs s) (sk_heartbeat s) now key x of
                (None, x') \<Rightarrow> (ops, put_source key x' s)
              | (Some op, x') \<Rightarrow> (ops @ [op], put_source key x' s)))"

definition operationsForKind ::
  "sink_config \<Rightarrow> report_kind \<Rightarrow> time \<Rightarrow> sink_state \<Rightarrow> observer_operation list \<times> sink_state" where
  "operationsForKind cfg kind now s =
     fold (collect_operation cfg kind now) (sort (mkeys (sk_states s))) ([], s)"

end
