(* ===== verification/Sink_Flush.thy ===== *)
theory Sink_Flush
  imports Sink_State
begin

text \<open>
  Sending what the sources have to report (\<open>flush\<close> and what it calls in \<open>exporter/sink.go\<close> and
  \<open>exporter/sink_relay.go\<close>), and the life of a sink. The reporter is a parameter that acts on a world
  \<open>'w\<close>: the server and the network. Times come from the caller, events that arrive while the
  capabilities are asked for are an argument.
\<close>

section \<open>The reporter\<close>

datatype send_error = IncompatibleServer string | HTTPStatus int | SendTimeout | SendCanceled | SendFailed string

record 'w reporter =
  rp_capabilities :: "'w \<Rightarrow> (send_error + server_capabilities) \<times> 'w"
  rp_send :: "report_envelope \<Rightarrow> 'w \<Rightarrow> (send_error + report_receipt) \<times> 'w"

section \<open>Reports\<close>

text \<open>A server without directional evidence is not sent any.\<close>

definition strip_direction :: "peer_observation \<Rightarrow> peer_observation" where
  "strip_direction p = p\<lparr>pe_fallbackPath := None, pe_pathEvidence := NoPathEvidence, pe_inferenceRule := []\<rparr>"

definition reported_observer :: "bool \<Rightarrow> observer_report \<Rightarrow> observer_report" where
  "reported_observer directional ob =
     (if directional then ob else ob\<lparr>or_peers := map strip_direction (or_peers ob)\<rparr>)"

definition latest_collection :: "observer_operation list \<Rightarrow> time" where
  "latest_collection ops = fold (\<lambda>op t. if oo_collectedAt op > t then oo_collectedAt op else t) ops 0"

definition reportFor ::
  "sink_config \<Rightarrow> observer_operation list \<Rightarrow> int \<Rightarrow> string \<Rightarrow> bool \<Rightarrow> report_envelope" where
  "reportFor cfg ops sequence reportID directional =
     \<lparr>re_version = ProtocolVersion, re_reportID = reportID, re_reporterInstanceID = kc_reporterInstanceID cfg,
      re_sequence = sequence, re_collectedAt = latest_collection ops, re_kind = oo_kind (hd ops),
      re_observers = map (\<lambda>op. reported_observer directional (oo_observer op)) ops, re_relaySessions = []\<rparr>"

definition fits :: "sink_config \<Rightarrow> report_envelope \<Rightarrow> bool" where
  "fits cfg report \<longleftrightarrow> (case kc_payload cfg report of None \<Rightarrow> False | Some bytes \<Rightarrow> bytes \<le> kc_maxRequestBytes cfg)"

text \<open>The batches grow by one operation while they fit.\<close>

fun count_fitting :: "sink_config \<Rightarrow> observer_operation list \<Rightarrow> int \<Rightarrow> bool \<Rightarrow> nat \<Rightarrow> nat \<Rightarrow> nat" where
  "count_fitting cfg ops sequence directional 0 n = n"
| "count_fitting cfg ops sequence directional (Suc left) n =
     (if fits cfg (reportFor cfg (take (Suc n) ops) sequence ''00000000-0000-4000-8000-000000000000'' directional)
      then count_fitting cfg ops sequence directional left (Suc n) else n)"

definition batchCount :: "sink_config \<Rightarrow> observer_operation list \<Rightarrow> int \<Rightarrow> bool \<Rightarrow> nat" where
  "batchCount cfg ops sequence directional =
     count_fitting cfg ops sequence directional (min (length ops) (nat (kc_maxBatchObservers cfg))) 0"

section \<open>What an answer changes\<close>

definition resetRelayBaseline :: "source_state \<Rightarrow> source_state" where
  "resetRelayBaseline x =
     (if ss_relayHasLatest x \<and> ss_relayHealthy x
      then x\<lparr>ss_relayDirty := False, ss_relayBaseline := ss_relayLatest x, ss_relayHasBaseline := True\<rparr>
      else x\<lparr>ss_relayDirty := False, ss_relayHasBaseline := False\<rparr>)"

definition reported :: "sink_snapshot \<Rightarrow> time \<Rightarrow> source_state \<Rightarrow> source_state" where
  "reported snap now x =
     x\<lparr>ss_baseline := snap, ss_hasBaseline := True, ss_dirty := False, ss_lastReportAt := now, ss_oversized := False\<rparr>"

definition applied_operation :: "observer_operation \<Rightarrow> time \<Rightarrow> source_state \<Rightarrow> source_state" where
  "applied_operation op now x =
     (case oo_kind op of
        ReportObserverWithdrawal \<Rightarrow> x\<lparr>ss_withdrawals := tl (ss_withdrawals x)\<rparr>
      | ReportObserverHello \<Rightarrow>
          resetRelayBaseline (reported (oo_snapshot op) now
            (x\<lparr>ss_serverRef := Some (oo_reference op),
               ss_uncertainRefs := removeObserverReference (ss_uncertainRefs x) (oo_reference op),
               ss_needsHello := False\<rparr>))
      | ReportInventoryUpdate \<Rightarrow>
          reported (oo_snapshot op) now
            (x\<lparr>ss_serverRef :=
                 map_option (\<lambda>r. r\<lparr>rf_generation := rf_generation (oo_reference op)\<rparr>) (ss_serverRef x)\<rparr>)
      | ReportTrafficSample \<Rightarrow> reported (oo_snapshot op) now x
      | ReportObserverHeartbeat \<Rightarrow> x\<lparr>ss_lastReportAt := now\<rparr>
      | _ \<Rightarrow> x)"

definition applyOperation :: "observer_operation \<Rightarrow> time \<Rightarrow> sink_state \<Rightarrow> sink_state" where
  "applyOperation op now = update_source (oo_key op) (applied_operation op now)"

text \<open>An operation given up: its withdrawal is dropped, or its source waits for the next sample.\<close>

definition given_up :: "observer_operation \<Rightarrow> withdraw_error \<Rightarrow> source_state \<Rightarrow> source_state" where
  "given_up op err x =
     (if oo_kind op = ReportObserverWithdrawal
      then x\<lparr>ss_withdrawErr := (if ss_withdrawing x then Some err else ss_withdrawErr x),
             ss_withdrawals := tl (ss_withdrawals x)\<rparr>
      else x\<lparr>ss_healthy := False, ss_baseline := oo_snapshot op, ss_hasBaseline := True, ss_dirty := False\<rparr>)"

definition rejectOversized :: "observer_operation \<Rightarrow> sink_state \<Rightarrow> sink_state" where
  "rejectOversized op = update_source (oo_key op) (\<lambda>x. given_up op WithdrawalOversized (x\<lparr>ss_oversized := True\<rparr>))"

definition rejectOperation :: "observer_operation \<Rightarrow> int \<Rightarrow> sink_state \<Rightarrow> sink_state" where
  "rejectOperation op status = update_source (oo_key op) (given_up op (WithdrawalRejected status))"

text \<open>\<open>int64\<close> arithmetic wraps: a heartbeat of many milliseconds can become any duration.\<close>

definition wrap64 :: "int \<Rightarrow> int" where
  "wrap64 i = (i + 9223372036854775808) mod 18446744073709551616 - 9223372036854775808"

definition acceptReceipt :: "report_receipt \<Rightarrow> sink_state \<Rightarrow> sink_state" where
  "acceptReceipt receipt s =
     (let d = wrap64 (rr_heartbeatIntervalMS receipt * 1000000)
      in s\<lparr>sk_heartbeat := (if d \<ge> 10 * second \<and> d \<le> 10 * minute then d else sk_heartbeat s),
           sk_controlIDs := set (filter (\<lambda>i. i \<noteq> []) (rr_controlStableNodeIDs receipt))\<rparr>)"

definition disconnected :: "source_state \<Rightarrow> source_state" where
  "disconnected x =
     (if ss_withdrawing x then x
      else
        let x1 = x\<lparr>ss_needsHello := True, ss_relayHasBaseline := False, ss_relayDirty := False\<rparr>
        in if ss_hasLatest x1 then x1\<lparr>ss_baseline := ss_latest x1, ss_hasBaseline := True, ss_dirty := True\<rparr> else x1)"

definition markDisconnected :: "sink_state \<Rightarrow> sink_state" where
  "markDisconnected s = s\<lparr>sk_states := mapv (\<lambda>_. disconnected) (sk_states s)\<rparr>"

section \<open>Retries\<close>

text \<open>The base delay after some failures; \<open>left\<close> doublings remain.\<close>

fun grow_delay :: "duration \<Rightarrow> nat \<Rightarrow> duration \<Rightarrow> duration" where
  "grow_delay retryMax 0 base = base"
| "grow_delay retryMax (Suc left) base =
     (if base < retryMax then
        if base > trunc_div retryMax 2 then retryMax else grow_delay retryMax left (base * 2)
      else base)"

definition retry_base :: "sink_config \<Rightarrow> nat \<Rightarrow> duration" where
  "retry_base cfg failures =
     (let base = grow_delay (kc_retryMax cfg) (failures - 1) (kc_retryMin cfg)
      in if base > kc_retryMax cfg then kc_retryMax cfg else base)"

text \<open>\<open>jitter\<close> is in \<open>[0, 1)\<close>; the code's \<open>float64\<close> product is exact here.\<close>

definition retryDelay :: "sink_config \<Rightarrow> nat \<Rightarrow> rat \<Rightarrow> duration" where
  "retryDelay cfg failures jitter = \<lfloor>of_int (retry_base cfg failures) * (4 / 5 + 2 / 5 * jitter)\<rfloor>"

definition transportFailed ::
  "sink_config \<Rightarrow> rat \<Rightarrow> time \<Rightarrow> send_error \<Rightarrow> sink_state \<Rightarrow> send_error option \<times> sink_state" where
  "transportFailed cfg jitter now err s =
     (case err of
        IncompatibleServer _ \<Rightarrow> (Some err, s)
      | _ \<Rightarrow>
          (let failures = Suc (tr_failures (sk_transport s))
           in (None, markDisconnected (s\<lparr>sk_transport :=
                \<lparr>tr_capabilitiesReady = False, tr_directionalPathEvidence = False, tr_failures = failures,
                 tr_nextAttempt = now + retryDelay cfg failures jitter, tr_degraded = True\<rparr>\<rparr>))))"

section \<open>Sending\<close>

definition uncertain_hello :: "observer_operation \<Rightarrow> sink_state \<Rightarrow> sink_state" where
  "uncertain_hello op s =
     (if oo_kind op = ReportObserverHello
      then update_source (oo_key op)
             (\<lambda>x. x\<lparr>ss_uncertainRefs := appendObserverReference (ss_uncertainRefs x) (oo_reference op)\<rparr>) s
      else s)"

definition accepted_batch ::
  "observer_operation list \<Rightarrow> report_receipt \<Rightarrow> time \<Rightarrow> report_envelope \<Rightarrow> sink_state \<Rightarrow> sink_state" where
  "accepted_batch ops receipt reportedAt report s =
     (let s1 = fold (\<lambda>op. applyOperation op reportedAt) ops (acceptReceipt receipt s)
      in if re_kind report = ReportObserverHello
         then s1\<lparr>sk_transport := (sk_transport s1)\<lparr>tr_failures := 0, tr_nextAttempt := 0, tr_degraded := False\<rparr>\<rparr>
         else s1)"

text \<open>A refused batch (400 or 413) is halved until the operation at fault is alone.\<close>

function sendBatch ::
  "sink_config \<Rightarrow> 'w reporter \<Rightarrow> time \<Rightarrow> observer_operation list \<Rightarrow> sink_state \<times> 'w \<Rightarrow>
   (send_error + bool) \<times> sink_state \<times> 'w" where
  "sendBatch cfg env reportedAt ops sw =
     (let (s0, w0) = sw;
          s = s0\<lparr>sk_sequence := sk_sequence s0 + 1\<rparr>;
          report = reportFor cfg ops (sk_sequence s) (kc_reportID cfg (sk_sequence s))
            (tr_directionalPathEvidence (sk_transport s));
          (answer, w) = rp_send env report w0
      in case answer of
           Inl (HTTPStatus status) \<Rightarrow>
             if status = 400 \<or> status = 413 then
               if length ops > 1 then
                 let middle = length ops div 2;
                     (left, sw1) = sendBatch cfg env reportedAt (take middle ops) (s, w)
                 in case left of
                      Inl e \<Rightarrow> (Inl e, sw1)
                    | Inr resync \<Rightarrow>
                        (let (right, sw2) = sendBatch cfg env reportedAt (drop middle ops) sw1
                         in (map_sum id (\<lambda>r. resync \<or> r) right, sw2))
               else (Inr False, rejectOperation (hd ops) status s, w)
             else (Inl (HTTPStatus status), fold uncertain_hello ops s, w)
         | Inl e \<Rightarrow> (Inl e, fold uncertain_hello ops s, w)
         | Inr receipt \<Rightarrow>
             if \<not> rr_accepted receipt then (Inl (SendFailed ''Tailpath server rejected exporter report''), s, w)
             else (Inr (rr_resyncRequired receipt \<and> re_kind report \<noteq> ReportObserverHello),
                   accepted_batch ops receipt reportedAt report s, w))"
  by pat_completeness auto
termination by (relation "measure (\<lambda>(_, _, _, ops, _). length ops)") auto

declare sendBatch.simps [simp del]

function sendOperations ::
  "sink_config \<Rightarrow> 'w reporter \<Rightarrow> time \<Rightarrow> observer_operation list \<Rightarrow> sink_state \<times> 'w \<Rightarrow>
   (send_error + bool) \<times> sink_state \<times> 'w" where
  "sendOperations cfg env reportedAt ops sw =
     (case ops of
        [] \<Rightarrow> (Inr False, sw)
      | op # rest \<Rightarrow>
          (let n = batchCount cfg ops (sk_sequence (fst sw) + 1)
                 (tr_directionalPathEvidence (sk_transport (fst sw)))
           in if n = 0 then sendOperations cfg env reportedAt rest (rejectOversized op (fst sw), snd sw)
              else
                let (answer, sw1) = sendBatch cfg env reportedAt (take n ops) sw
                in case answer of
                     Inl e \<Rightarrow> (Inl e, sw1)
                   | Inr True \<Rightarrow> (Inr True, sw1)
                   | Inr False \<Rightarrow> sendOperations cfg env reportedAt (drop n ops) sw1))"
  by pat_completeness auto
termination by (relation "measure (\<lambda>(_, _, _, ops, _). length ops)") auto

declare sendOperations.simps [simp del]

section \<open>Relay reports\<close>

record relay_operation =
  lo_key :: string
  lo_collectedAt :: time
  lo_snapshot :: relay_snapshot
  lo_sessions :: "relay_session_observation list"

definition relay_reportable :: "source_state \<Rightarrow> bool" where
  "relay_reportable x \<longleftrightarrow>
     \<not> ss_withdrawing x \<and> ss_healthy x \<and> \<not> ss_needsHello x \<and> ss_serverRef x \<noteq> None \<and> ss_relayHealthy x \<and>
     ss_relayHasLatest x \<and> ss_relayHasBaseline x \<and> ss_relayDirty x"

definition relay_reported :: "relay_snapshot \<Rightarrow> source_state \<Rightarrow> source_state" where
  "relay_reported snap x = x\<lparr>ss_relayBaseline := snap, ss_relayDirty := False\<rparr>"

definition relay_operation_for ::
  "sink_config \<Rightarrow> string \<Rightarrow> source_state \<Rightarrow> relay_operation option \<times> source_state" where
  "relay_operation_for cfg key x =
     (if \<not> relay_reportable x then (None, x)
      else case changedRelaySessions (ss_relayBaseline x) (ss_relayLatest x) (kc_sampleInterval cfg) of
        Inl _ \<Rightarrow> (None, relay_reported (ss_relayLatest x) x)
      | Inr [] \<Rightarrow> (None, relay_reported (ss_relayLatest x) x)
      | Inr sessions \<Rightarrow>
          (Some \<lparr>lo_key = key, lo_collectedAt = rn_collectedAt (ss_relayLatest x), lo_snapshot = ss_relayLatest x,
             lo_sessions = map (\<lambda>ob. ob\<lparr>rs_relay := sp_observer (ss_latest x)\<rparr>) sessions\<rparr>, x))"

definition collect_relay_operation ::
  "sink_config \<Rightarrow> string \<Rightarrow> relay_operation list \<times> sink_state \<Rightarrow> relay_operation list \<times> sink_state" where
  "collect_relay_operation cfg key acc =
     (let (ops, s) = acc
      in case map_of (sk_states s) key of
           None \<Rightarrow> (ops, s)
         | Some x \<Rightarrow>
             (case relay_operation_for cfg key x of
                (None, x') \<Rightarrow> (ops, put_source key x' s)
              | (Some op, x') \<Rightarrow> (ops @ [op], put_source key x' s)))"

definition relayOperations :: "sink_config \<Rightarrow> sink_state \<Rightarrow> relay_operation list \<times> sink_state" where
  "relayOperations cfg s = fold (collect_relay_operation cfg) (sort (mkeys (sk_states s))) ([], s)"

definition relayReport :: "sink_config \<Rightarrow> int \<Rightarrow> relay_operation \<Rightarrow> report_envelope" where
  "relayReport cfg sequence op =
     \<lparr>re_version = ProtocolVersion, re_reportID = kc_reportID cfg sequence,
      re_reporterInstanceID = kc_reporterInstanceID cfg, re_sequence = sequence,
      re_collectedAt = lo_collectedAt op, re_kind = ReportRelaySessionUpdate, re_observers = [],
      re_relaySessions = lo_sessions op\<rparr>"

fun sendRelayOperations ::
  "sink_config \<Rightarrow> 'w reporter \<Rightarrow> relay_operation list \<Rightarrow> sink_state \<times> 'w \<Rightarrow> (send_error + bool) \<times> sink_state \<times> 'w" where
  "sendRelayOperations cfg env [] sw = (Inr False, sw)"
| "sendRelayOperations cfg env (op # rest) sw =
     (let s = (fst sw)\<lparr>sk_sequence := sk_sequence (fst sw) + 1\<rparr>;
          report = relayReport cfg (sk_sequence s) op;
          done = update_source (lo_key op) (relay_reported (lo_snapshot op))
      in if \<not> fits cfg report then sendRelayOperations cfg env rest (done s, snd sw)
         else
           let (answer, w) = rp_send env report (snd sw)
           in case answer of
                Inl (HTTPStatus status) \<Rightarrow>
                  if status = 400 \<or> status = 413 then sendRelayOperations cfg env rest (done s, w)
                  else (Inl (HTTPStatus status), s, w)
              | Inl e \<Rightarrow> (Inl e, s, w)
              | Inr receipt \<Rightarrow>
                  if \<not> rr_accepted receipt then (Inl (SendFailed ''Tailpath server rejected relay report''), s, w)
                  else
                    let s1 = update_source (lo_key op) (\<lambda>x. x\<lparr>ss_relayHasBaseline := True\<rparr>)
                      (done (acceptReceipt receipt s))
                    in if rr_resyncRequired receipt then (Inr True, s1, w)
                       else sendRelayOperations cfg env rest (s1, w))"

section \<open>Flushing\<close>

text \<open>A withdrawn source with nothing left to withdraw is finished and forgotten.\<close>

definition finalize_source :: "string \<times> source_state \<Rightarrow> sink_state \<Rightarrow> sink_state" where
  "finalize_source entry s =
     (let (key, x) = entry
      in if \<not> ss_withdrawing x \<or> ss_withdrawals x \<noteq> [] then s
         else (finish (ss_registration x) (ss_withdrawErr x)
                (s\<lparr>sk_registrations := mdel key (sk_registrations s)\<rparr>))\<lparr>sk_states := mdel key (sk_states s)\<rparr>)"

definition finalizeUnreportedWithdrawals :: "sink_state \<Rightarrow> sink_state" where
  "finalizeUnreportedWithdrawals s = fold finalize_source (sk_states s) s"

definition require_capabilities :: "server_capabilities \<Rightarrow> send_error option" where
  "require_capabilities c =
     (if \<not> SupportsProtocol c ProtocolVersion then Some (IncompatibleServer ''protocol'')
      else if \<not> SupportsFeature c FeatureMultiObserver then Some (IncompatibleServer FeatureMultiObserver)
      else if \<not> SupportsFeature c FeatureObserverWithdrawal then Some (IncompatibleServer FeatureObserverWithdrawal)
      else None)"

text \<open>The kinds in the order in which they are sent; the first error or resync ends the flush.\<close>

fun flush_kinds ::
  "sink_config \<Rightarrow> 'w reporter \<Rightarrow> time \<Rightarrow> report_kind list \<Rightarrow> sink_state \<times> 'w \<Rightarrow> (send_error + bool) \<times> sink_state \<times> 'w" where
  "flush_kinds cfg env now [] sw = (Inr False, sw)"
| "flush_kinds cfg env now (kind # kinds) sw =
     (let (ops, s) = operationsForKind cfg kind now (fst sw)
      in if ops = [] then flush_kinds cfg env now kinds (s, snd sw)
         else
           let (answer, sw1) = sendOperations cfg env now ops (s, snd sw)
           in case answer of
                Inl e \<Rightarrow> (Inl e, sw1)
              | Inr True \<Rightarrow> (Inr True, sw1)
              | Inr False \<Rightarrow> flush_kinds cfg env now kinds (finalizeUnreportedWithdrawals (fst sw1), snd sw1))"

definition flush_order :: "report_kind list" where
  "flush_order = [ReportObserverWithdrawal, ReportObserverHello, ReportInventoryUpdate, ReportTrafficSample,
     ReportObserverHeartbeat]"

text \<open>What follows the answer of a sender: a failed transport, or a disconnection for a resync.\<close>

definition settle ::
  "sink_config \<Rightarrow> rat \<Rightarrow> time \<Rightarrow> (send_error + bool) \<times> sink_state \<times> 'w \<Rightarrow> send_error option \<times> sink_state \<times> 'w" where
  "settle cfg jitter now r =
     (let (answer, s, w) = r
      in case answer of
           Inl e \<Rightarrow> (let (err, s1) = transportFailed cfg jitter now e s in (err, s1, w))
         | Inr resync \<Rightarrow> (None, if resync then markDisconnected s else s, w))"

definition flush_connected ::
  "sink_config \<Rightarrow> 'w reporter \<Rightarrow> rat \<Rightarrow> time \<Rightarrow> sink_state \<times> 'w \<Rightarrow> send_error option \<times> sink_state \<times> 'w" where
  "flush_connected cfg env jitter now sw =
     (let (answer, s, w) = flush_kinds cfg env now flush_order sw
      in if answer \<noteq> Inr False then settle cfg jitter now (answer, s, w)
         else
           let (ops, s1) = relayOperations cfg s
           in settle cfg jitter now (sendRelayOperations cfg env ops (s1, w)))"

text \<open>\<open>now\<close> is the time at the start, \<open>later\<close> the time after the capabilities were asked for.\<close>

definition flush ::
  "sink_config \<Rightarrow> 'w reporter \<Rightarrow> rat \<Rightarrow> time \<Rightarrow> time \<Rightarrow> sink_event list \<Rightarrow> sink_state \<times> 'w \<Rightarrow>
   send_error option \<times> sink_state \<times> 'w" where
  "flush cfg env jitter now later arrived sw =
     (let s = finalizeUnreportedWithdrawals (drainPendingEvents (fst sw)); tr = sk_transport s
      in if tr_nextAttempt tr \<noteq> 0 \<and> now < tr_nextAttempt tr then (None, s, snd sw)
         else if tr_capabilitiesReady tr then flush_connected cfg env jitter now (s, snd sw)
         else
           let (answer, w) = rp_capabilities env (snd sw);
               s1 = s\<lparr>sk_events := sk_events s @ arrived\<rparr>
           in case answer of
                Inl e \<Rightarrow> settle cfg jitter now (Inl e, s1, w)
              | Inr c \<Rightarrow>
                  (case require_capabilities c of
                     Some e \<Rightarrow> (Some e, s1, w)
                   | None \<Rightarrow>
                       let s2 = s1\<lparr>sk_transport := tr\<lparr>tr_directionalPathEvidence :=
                              SupportsFeature c FeatureDirectionalPathEvidence,
                              tr_capabilitiesReady := True, tr_nextAttempt := 0\<rparr>\<rparr>
                       in flush_connected cfg env jitter later
                            (finalizeUnreportedWithdrawals (drainPendingEvents s2), w)))"

text \<open>\<open>stop\<close>: the sources that are still being withdrawn are told so.\<close>

definition stop_sink :: "sink_state \<Rightarrow> sink_state" where
  "stop_sink s =
     fold (\<lambda>(_, x) t. if ss_withdrawing x then finish (ss_registration x) (Some SinkStopped) t else t)
       (sk_states s) (s\<lparr>sk_running := False\<rparr>)"

end
