(* ===== verification/Sink_Facts.thy ===== *)
theory Sink_Facts
  imports Sink_Flush
begin

text \<open>
  What the exporter reports: which snapshots it takes, that the deltas of a chain of snapshots add up,
  and that relay deltas are exact.
\<close>

section \<open>Snapshots\<close>

definition valid_peer_snapshot :: "peer_snapshot \<Rightarrow> bool" where
  "valid_peer_snapshot p \<longleftrightarrow>
     HasIdentity (ps_identity p) \<and> 0 \<le> ps_rxBytes p \<and> 0 \<le> ps_txBytes p \<and>
     po_kind (ps_path p) \<in> {PathDirect, PathDERP, PathPeerRelay, PathUnknown} \<and>
     (\<forall>v. po_relayVNI (ps_path p) = Some v \<longrightarrow> v \<in> {0..max_vni}) \<and>
     ps_pathEvidence p \<in> {PathEvidenceObserved, PathEvidenceInferred} \<and>
     (ps_fallbackPath p \<noteq> None \<longrightarrow>
        po_kind (the (ps_fallbackPath p)) = PathDERP \<and> po_kind (ps_path p) \<in> {PathDirect, PathPeerRelay}) \<and>
     (if ps_pathEvidence p = PathEvidenceInferred then trim_space (ps_inferenceRule p) \<noteq> []
      else ps_inferenceRule p = [])"

definition valid_snapshot :: "sink_snapshot \<Rightarrow> bool" where
  "valid_snapshot s \<longleftrightarrow>
     HasIdentity (sp_observer s) \<and> list_all valid_peer_snapshot (sp_peers s) \<and>
     distinct (map (\<lambda>p. IdentityKey (ps_identity p)) (sp_peers s))"

lemma fill_peer_fields [simp]:
  "ps_identity (fill_peer p) = ps_identity p" "ps_rxBytes (fill_peer p) = ps_rxBytes p"
  "ps_txBytes (fill_peer p) = ps_txBytes p"
  by (simp_all add: fill_peer_def Let_def)

lemma check_filled_peer_None:
  "HasIdentity (ps_identity p) \<Longrightarrow> 0 \<le> ps_rxBytes p \<Longrightarrow> 0 \<le> ps_txBytes p \<Longrightarrow>
     check_filled_peer i p = None \<longleftrightarrow> valid_peer_snapshot p"
  by (cases "ps_pathEvidence p"; cases "ps_fallbackPath p"; cases "po_relayVNI (ps_path p)")
     (auto simp: check_filled_peer_def valid_peer_snapshot_def)

lemma map_sum_Inr: "map_sum id f r = Inr y \<longleftrightarrow> (\<exists>x. r = Inr x \<and> y = f x)"
  by (cases r) auto

lemma validate_peers_Inr:
  "(\<exists>qs. validate_peers i seen ps = Inr qs) \<longleftrightarrow>
     list_all (\<lambda>p. valid_peer_snapshot (fill_peer p)) ps \<and>
     distinct (map (\<lambda>p. IdentityKey (ps_identity p)) ps) \<and>
     (\<forall>p \<in> set ps. IdentityKey (ps_identity p) \<notin> seen)"
proof (induction ps arbitrary: i seen)
  case (Cons p ps)
  show ?case
  proof (cases "HasIdentity (ps_identity p) \<and> 0 \<le> ps_rxBytes p \<and> 0 \<le> ps_txBytes p \<and> IdentityKey (ps_identity p) \<notin> seen")
    case True
    then have c: "check_filled_peer i (fill_peer p) = None \<longleftrightarrow> valid_peer_snapshot (fill_peer p)"
      by (simp add: check_filled_peer_None)
    show ?thesis
    proof (cases "check_filled_peer i (fill_peer p)")
      case None
      then show ?thesis
        using True c Cons.IH [of "Suc i" "insert (IdentityKey (ps_identity p)) seen"]
        by (auto simp: Let_def map_sum_Inr image_iff; metis)
    qed (use True c in \<open>auto simp: Let_def\<close>)
  next
    case False
    then show ?thesis by (auto simp: Let_def valid_peer_snapshot_def)
  qed
qed simp

lemma validate_peers_result: "validate_peers i seen ps = Inr qs \<Longrightarrow> qs = map fill_peer ps"
proof (induction ps arbitrary: i seen qs)
  case (Cons p ps)
  then show ?case by (auto simp: Let_def map_sum_Inr split: if_splits option.splits)
qed simp

lemma validateSnapshot_Inr:
  "validateSnapshot s fallback = Inr u \<longleftrightarrow>
     valid_snapshot u \<and>
     u = s\<lparr>sp_collectedAt := (if sp_collectedAt s = 0 then fallback else sp_collectedAt s),
           sp_peers := map fill_peer (sp_peers s)\<rparr>"
proof -
  define s1 where "s1 = (if sp_collectedAt s = 0 then s\<lparr>sp_collectedAt := fallback\<rparr> else s)"
  define t where "t = s\<lparr>sp_collectedAt := (if sp_collectedAt s = 0 then fallback else sp_collectedAt s),
                sp_peers := map fill_peer (sp_peers s)\<rparr>"
  have t: "s1\<lparr>sp_peers := map fill_peer (sp_peers s)\<rparr> = t" "sp_peers s1 = sp_peers s" "sp_observer s1 = sp_observer s"
    by (simp_all add: t_def s1_def)
  have v: "valid_snapshot t \<longleftrightarrow> HasIdentity (sp_observer s) \<and> (\<exists>qs. validate_peers 0 {} (sp_peers s) = Inr qs)"
    unfolding validate_peers_Inr by (simp add: valid_snapshot_def t_def list_all_iff comp_def)
  have "validateSnapshot s fallback = Inr u \<longleftrightarrow> valid_snapshot t \<and> u = t"
    unfolding validateSnapshot_def s1_def [symmetric] Let_def v t(2,3)
    by (cases "validate_peers 0 {} (sp_peers s)") (auto simp: t(1) dest: validate_peers_result)
  then show ?thesis unfolding t_def by auto
qed

lemma valid_snapshot_taken:
  assumes "valid_snapshot s" "sp_collectedAt s \<noteq> 0"
  shows "validateSnapshot s fallback = Inr s"
proof -
  have "fill_peer p = p" if "p \<in> set (sp_peers s)" for p
    using assms(1) that
    by (auto simp: valid_snapshot_def list_all_iff valid_peer_snapshot_def fill_peer_def Let_def)
  then have "map fill_peer (sp_peers s) = sp_peers s" by (intro map_idI) auto
  then show ?thesis using assms by (simp add: validateSnapshot_Inr)
qed

text \<open>A sampled snapshot is taken exactly when, with its defaults filled in, its observer and peers have
  identities, no two peers share one, counters are not negative, and paths, relay numbers, evidence, fallbacks
  and inference rules are consistent; the result is then the sample with those defaults and the fallback time.\<close>

theorem validateSnapshot_accepts:
  "validateSnapshot s fallback = Inr u \<longleftrightarrow>
     valid_snapshot u \<and>
     u = s\<lparr>sp_collectedAt := (if sp_collectedAt s = 0 then fallback else sp_collectedAt s),
           sp_peers := map fill_peer (sp_peers s)\<rparr>"
  by (rule validateSnapshot_Inr)

section \<open>Deltas add up\<close>

lemma find_append: "find P (xs @ ys) = (case find P xs of None \<Rightarrow> find P ys | Some x \<Rightarrow> Some x)"
  by (induction xs) auto

lemma find_SomeD: "find P xs = Some x \<Longrightarrow> x \<in> set xs \<and> P x"
  by (induction xs) (auto split: if_splits)

lemma map_of_fold_keyed:
  "map_of (fold (\<lambda>p. mput (f p) p) ps m) k = (case find (\<lambda>p. f p = k) (rev ps) of Some p \<Rightarrow> Some p | None \<Rightarrow> map_of m k)"
  by (induction ps arbitrary: m) (auto simp: find_append split: option.splits)

lemma find_unique:
  "inj_on f (set ps) \<Longrightarrow> find (\<lambda>p. f p = k) (rev ps) = Some p \<longleftrightarrow> p \<in> set ps \<and> f p = k"
  by (cases "find (\<lambda>p. f p = k) (rev ps)") (auto simp: find_None_iff dest!: find_SomeD dest: inj_onD)

lemma old_peers_at:
  assumes "valid_snapshot s"
  shows "map_of (old_peers s) k = Some p \<longleftrightarrow> p \<in> set (sp_peers s) \<and> IdentityKey (ps_identity p) = k"
proof -
  have "inj_on (\<lambda>p. IdentityKey (ps_identity p)) (set (sp_peers s))"
    using assms by (simp add: valid_snapshot_def distinct_map)
  from find_unique [OF this, of k p] show ?thesis
    by (auto simp: old_peers_def map_of_fold_keyed split: option.splits)
qed

definition peer_total :: "(peer_observation \<Rightarrow> int) \<Rightarrow> string \<Rightarrow> peer_observation list \<Rightarrow> int" where
  "peer_total f k obs = sum_list (map f (filter (\<lambda>ob. IdentityKey (pe_peer ob) = k) obs))"

text \<open>What is reported of a peer over a chain of snapshots, each the baseline of the next one.\<close>

fun reported_total ::
  "(peer_observation \<Rightarrow> int) \<Rightarrow> string \<Rightarrow> string set \<Rightarrow> duration \<Rightarrow> sink_snapshot list \<Rightarrow> int" where
  "reported_total f k controlIDs fallback (s # t # ss) =
     peer_total f k (changedSnapshotPeers s t controlIDs fallback) + reported_total f k controlIDs fallback (t # ss)"
| "reported_total f k controlIDs fallback ss = 0"

definition counter_at :: "(peer_snapshot \<Rightarrow> int) \<Rightarrow> string \<Rightarrow> sink_snapshot \<Rightarrow> int" where
  "counter_at g k s = (case map_of (old_peers s) k of Some p \<Rightarrow> g p | None \<Rightarrow> 0)"

definition shows_peer :: "string \<Rightarrow> string set \<Rightarrow> sink_snapshot \<Rightarrow> bool" where
  "shows_peer k controlIDs s \<longleftrightarrow>
     (\<exists>p \<in> set (sp_peers s). IdentityKey (ps_identity p) = k \<and> ni_stableNodeID (ps_identity p) \<notin> controlIDs)"

definition counters :: "((peer_snapshot \<Rightarrow> int) \<times> (peer_observation \<Rightarrow> int)) set" where
  "counters = {(ps_rxBytes, pe_rxDelta), (ps_txBytes, pe_txDelta)}"

lemma peer_total_map_filter:
  "peer_total f k (List.map_filter h ps) =
     (\<Sum>p\<leftarrow>ps. case h p of None \<Rightarrow> 0 | Some ob \<Rightarrow> if IdentityKey (pe_peer ob) = k then f ob else 0)"
  by (induction ps) (auto simp: peer_total_def map_filter_simps split: option.splits)

lemma sum_list_single:
  assumes "distinct (map key ps)" "q \<in> set ps" "\<And>p. p \<in> set ps \<Longrightarrow> key p \<noteq> key q \<Longrightarrow> c p = (0 :: int)"
  shows "(\<Sum>p\<leftarrow>ps. c p) = c q"
  using assms
proof (induction ps)
  case (Cons a ps)
  show ?case
  proof (cases "a = q")
    case True
    have "(\<Sum>p\<leftarrow>ps. c p) = (\<Sum>p\<leftarrow>ps. 0)"
      using Cons.prems(1) by (intro arg_cong [where f = sum_list] map_cong refl Cons.prems(3)) (use True in \<open>auto simp: image_iff\<close>)
    then show ?thesis using True by simp
  qed (use Cons in force)
qed simp

lemma changed_peer_key: "changed_peer s t ids fb p = Some ob \<Longrightarrow> pe_peer ob = ps_identity p"
  by (auto simp: changed_peer_def Let_def split: if_splits option.splits)

lemma changed_total:
  assumes s: "valid_snapshot s" and t: "valid_snapshot t" and c: "(g, f) \<in> counters"
    and p: "p \<in> set (sp_peers s)" "IdentityKey (ps_identity p) = k"
    and q: "q \<in> set (sp_peers t)" "IdentityKey (ps_identity q) = k" "ni_stableNodeID (ps_identity q) \<notin> controlIDs"
  shows "peer_total f k (changedSnapshotPeers s t controlIDs fallback) = snapshotCounterDelta (g p) (g q)"
proof -
  let ?h = "changed_peer s t controlIDs fallback"
  let ?c = "\<lambda>p. case ?h p of None \<Rightarrow> 0 | Some ob \<Rightarrow> if IdentityKey (pe_peer ob) = k then f ob else 0"
  have "(\<Sum>p\<leftarrow>sp_peers t. ?c p) = ?c q"
    using t q by (intro sum_list_single [where key = "\<lambda>p. IdentityKey (ps_identity p)"])
      (auto simp: valid_snapshot_def split: option.splits dest!: changed_peer_key)
  moreover have "map_of (old_peers s) k = Some p"
    using p by (simp add: old_peers_at [OF s])
  then have "?c q = snapshotCounterDelta (g p) (g q)"
    using q c by (auto simp: changed_peer_def counters_def Let_def)
  ultimately show ?thesis by (simp add: changedSnapshotPeers_def peer_total_map_filter)
qed

lemma changed_counter:
  assumes "valid_snapshot s" "valid_snapshot t" "shows_peer k controlIDs s" "shows_peer k controlIDs t" "(g, f) \<in> counters"
  shows "peer_total f k (changedSnapshotPeers s t controlIDs fallback) =
    snapshotCounterDelta (counter_at g k s) (counter_at g k t)"
proof -
  obtain p q where p: "p \<in> set (sp_peers s)" "IdentityKey (ps_identity p) = k"
    and q: "q \<in> set (sp_peers t)" "IdentityKey (ps_identity q) = k" "ni_stableNodeID (ps_identity q) \<notin> controlIDs"
    using assms(3,4) by (auto simp: shows_peer_def)
  moreover have "map_of (old_peers s) k = Some p" "map_of (old_peers t) k = Some q"
    using p q by (simp_all add: old_peers_at assms(1,2))
  ultimately show ?thesis
    using changed_total [OF assms(1,2,5) p q] by (simp add: counter_at_def)
qed

text \<open>C15: Over a chain of snapshots that all show a peer, which is no control node, and whose counters do not
  fall, the deltas reported of the peer add up to the growth of its counter: none is lost or counted twice.\<close>

theorem deltas_add_up:
  assumes "ss \<noteq> []" "list_all valid_snapshot ss" "list_all (shows_peer k controlIDs) ss" "(g, f) \<in> counters"
    and "sorted (map (counter_at g k) ss)"
  shows "reported_total f k controlIDs fallback ss = counter_at g k (last ss) - counter_at g k (hd ss)"
  using assms
proof (induction f k controlIDs fallback ss rule: reported_total.induct)
  case (1 f k controlIDs fallback s t ss)
  then have "peer_total f k (changedSnapshotPeers s t controlIDs fallback) = counter_at g k t - counter_at g k s"
    by (simp add: changed_counter snapshotCounterDelta_def)
  then show ?case using 1 by simp
qed auto

text \<open>Snapshots of one peer, whose receive counter is given.\<close>

definition sx_snapshot :: "time \<Rightarrow> int \<Rightarrow> sink_snapshot" where
  "sx_snapshot t bytes =
     \<lparr>sp_collectedAt = t, sp_observer = no_identity\<lparr>ni_stableNodeID := ''a''\<rparr>,
      sp_peers = [\<lparr>ps_identity = no_identity\<lparr>ni_stableNodeID := ''b''\<rparr>, ps_rxBytes = bytes, ps_txBytes = 0,
        ps_path = no_path\<lparr>po_kind := PathDirect\<rparr>, ps_fallbackPath = None, ps_pathEvidence = PathEvidenceObserved,
        ps_inferenceRule = []\<rparr>]\<rparr>"

lemma sx_snapshot_ok: "0 \<le> bytes \<Longrightarrow> valid_snapshot (sx_snapshot t bytes) \<and> shows_peer ''node:b'' {} (sx_snapshot t bytes) \<and>
    counter_at ps_rxBytes ''node:b'' (sx_snapshot t bytes) = bytes"
  by (simp add: sx_snapshot_def valid_snapshot_def valid_peer_snapshot_def shows_peer_def counter_at_def old_peers_def
      no_identity_def no_path_def HasIdentity_def IdentityKey_def)

theorem deltas_add_up_witness:
  "reported_total pe_rxDelta ''node:b'' {} 1 [sx_snapshot 1 5, sx_snapshot 2 7, sx_snapshot 3 7, sx_snapshot 4 12] = 7"
  using deltas_add_up [of "[sx_snapshot 1 5, sx_snapshot 2 7, sx_snapshot 3 7, sx_snapshot 4 12]" "''node:b''" "{}"
      ps_rxBytes pe_rxDelta 1]
  by (simp add: sx_snapshot_ok counters_def)

section \<open>Relay deltas\<close>

lemma old_sessions_in: "map_of (old_sessions snap) k = Some s \<Longrightarrow> s \<in> set (rn_sessions snap) \<and> relaySessionKey s = k"
  by (auto simp: old_sessions_def map_of_fold_keyed split: option.splits dest!: find_SomeD)

lemma changed_sessions_in:
  "changed_sessions f ss = Inr obs \<Longrightarrow> ob \<in> set obs \<Longrightarrow> \<exists>s \<in> set ss. f s = Inr (Some ob)"
proof (induction ss arbitrary: obs)
  case (Cons s ss)
  then show ?case by (auto simp: map_sum_Inr split: sum.splits option.splits)
qed simp

lemma relayCounterValue_Inr: "relayCounterValue v = Inr i \<longleftrightarrow> i = uint v \<and> i \<le> 9223372036854775807"
  by (auto simp: relayCounterValue_def)

lemma uint_grown: "b \<le> (a :: 64 word) \<Longrightarrow> uint (a - b) = uint a - uint b"
  by (simp add: uint_minus_simple_alt [THEN iffD1])

lemma changedRelaySessions_exact:
  assumes "changedRelaySessions previous current fallback = Inr obs" "ob \<in> set obs"
  obtains s old where "s \<in> set (rn_sessions current)" "old \<in> set (rn_sessions previous)"
    "relaySessionKey old = relaySessionKey s \<and> rs_vni ob = rz_vni s \<and> rs_sessionID ob = rz_sessionID s \<and>
    rq_sessionClientID (rz_source old) = rq_sessionClientID (rz_source s) \<and>
    rq_sessionClientID (rz_target old) = rq_sessionClientID (rz_target s) \<and>
    rs_source ob = relayObservationClient (rz_source s) \<and> rs_target ob = relayObservationClient (rz_target s) \<and>
    rs_sourceToTargetBytes ob = uint (rq_bytesSent (rz_source s)) \<and>
    rs_targetToSourceBytes ob = uint (rq_bytesSent (rz_target s)) \<and>
    rs_sourceToTargetDelta ob = uint (rq_bytesSent (rz_source s)) - uint (rq_bytesSent (rz_source old)) \<and>
    rs_targetToSourceDelta ob = uint (rq_bytesSent (rz_target s)) - uint (rq_bytesSent (rz_target old)) \<and>
    rs_sourceToTargetBytes ob < 2 ^ 63 \<and> rs_targetToSourceBytes ob < 2 ^ 63 \<and>
    0 \<le> rs_sourceToTargetDelta ob \<and> 0 \<le> rs_targetToSourceDelta ob \<and>
    0 < rs_sourceToTargetDelta ob + rs_targetToSourceDelta ob \<and>
    1 \<le> rs_sampleDurationMS ob \<and> rs_lastActive ob = rn_collectedAt current"
proof -
  obtain s where s: "s \<in> set (rn_sessions current)" "changed_session previous current fallback s = Inr (Some ob)"
    using assms changed_sessions_in by (fastforce simp: changedRelaySessions_def)
  obtain old where old: "map_of (old_sessions previous) (relaySessionKey s) = Some old"
    using s(2) by (auto simp: changed_session_def split: option.splits)
  let ?ns = "rq_bytesSent (rz_source s)" and ?os = "rq_bytesSent (rz_source old)"
  let ?nt = "rq_bytesSent (rz_target s)" and ?ot = "rq_bytesSent (rz_target old)"
  have le: "?os \<le> ?ns" "?ot \<le> ?nt" and moved: "?ns \<noteq> ?os \<or> ?nt \<noteq> ?ot"
    using s(2) old by (auto simp: changed_session_def Let_def not_less split: if_splits)
  have d: "uint (?ns - ?os) = uint ?ns - uint ?os" "uint (?nt - ?ot) = uint ?nt - uint ?ot"
    using le by (simp_all add: uint_grown)
  have g: "uint ?os \<le> uint ?ns" "uint ?ot \<le> uint ?nt" "uint ?os < uint ?ns \<or> uint ?ot < uint ?nt"
    using le moved by (auto simp: word_le_def order_less_le word_uint_eq_iff)
  obtain i j k l where v: "relayCounterValue ?ns = Inr i" "relayCounterValue ?nt = Inr j"
      "relayCounterValue (?ns - ?os) = Inr k" "relayCounterValue (?nt - ?ot) = Inr l"
    and c: "rq_sessionClientID (rz_source old) = rq_sessionClientID (rz_source s)"
      "rq_sessionClientID (rz_target old) = rq_sessionClientID (rz_target s)"
    and ob: "ob = \<lparr>rs_relay = no_identity, rs_source = relayObservationClient (rz_source s),
      rs_target = relayObservationClient (rz_target s), rs_sessionID = rz_sessionID s, rs_vni = rz_vni s,
      rs_sourceToTargetBytes = i, rs_targetToSourceBytes = j, rs_sourceToTargetDelta = k, rs_targetToSourceDelta = l,
      rs_sampleDurationMS = sample_duration (rn_collectedAt previous) (rn_collectedAt current) fallback,
      rs_lastActive = rn_collectedAt current\<rparr>"
    using s(2) old by (auto simp: changed_session_def Let_def split: if_splits sum.splits)
  have "i < 2 ^ 63" "j < 2 ^ 63" "i = uint ?ns" "j = uint ?nt" "k = uint ?ns - uint ?os" "l = uint ?nt - uint ?ot"
    using v d by (auto simp: relayCounterValue_Inr)
  then show thesis
    using s(1) old_sessions_in [OF old] g c
    by (intro that [of s old]) (auto simp: ob sample_duration_def Let_def)
qed

text \<open>C16: A relay session is reported only when the previous snapshot had a session of the same number and id
  between the same clients and a counter grew; the deltas are the exact growth of the 64-bit counters, the counters
  fit the signed numbers of the protocol, and the sample lasted a millisecond at least.\<close>

theorem relay_deltas_exact:
  assumes "changedRelaySessions previous current fallback = Inr obs" "ob \<in> set obs"
  shows "\<exists>s \<in> set (rn_sessions current). \<exists>old \<in> set (rn_sessions previous).
    relaySessionKey old = relaySessionKey s \<and> rs_vni ob = rz_vni s \<and> rs_sessionID ob = rz_sessionID s \<and>
    rq_sessionClientID (rz_source old) = rq_sessionClientID (rz_source s) \<and>
    rq_sessionClientID (rz_target old) = rq_sessionClientID (rz_target s) \<and>
    rs_source ob = relayObservationClient (rz_source s) \<and> rs_target ob = relayObservationClient (rz_target s) \<and>
    rs_sourceToTargetBytes ob = uint (rq_bytesSent (rz_source s)) \<and>
    rs_targetToSourceBytes ob = uint (rq_bytesSent (rz_target s)) \<and>
    rs_sourceToTargetDelta ob = uint (rq_bytesSent (rz_source s)) - uint (rq_bytesSent (rz_source old)) \<and>
    rs_targetToSourceDelta ob = uint (rq_bytesSent (rz_target s)) - uint (rq_bytesSent (rz_target old)) \<and>
    rs_sourceToTargetBytes ob < 2 ^ 63 \<and> rs_targetToSourceBytes ob < 2 ^ 63 \<and>
    0 \<le> rs_sourceToTargetDelta ob \<and> 0 \<le> rs_targetToSourceDelta ob \<and>
    0 < rs_sourceToTargetDelta ob + rs_targetToSourceDelta ob \<and>
    1 \<le> rs_sampleDurationMS ob \<and> rs_lastActive ob = rn_collectedAt current"
  by (rule changedRelaySessions_exact [OF assms]) blast

definition sx_client :: "string \<Rightarrow> 64 word \<Rightarrow> relay_client_snapshot" where
  "sx_client i bytes = \<lparr>rq_sessionClientID = i, rq_identity = None, rq_discoShort = [], rq_endpoint = [],
     rq_packetsSent = 0, rq_bytesSent = bytes\<rparr>"

definition sx_relay :: "time \<Rightarrow> 64 word \<Rightarrow> 64 word \<Rightarrow> relay_snapshot" where
  "sx_relay t sent back = \<lparr>rn_collectedAt = t, rn_capability = RelayEnabled, rn_identityEvidence = RelayIdentityAvailable,
     rn_sessions = [\<lparr>rz_sessionID = ''s'', rz_vni = 3, rz_source = sx_client ''p'' sent, rz_target = sx_client ''q'' back\<rparr>]\<rparr>"

theorem relay_deltas_exact_witness:
  "\<exists>ob. changedRelaySessions (sx_relay 1 5 9) (sx_relay 2 8 9) 1 = Inr [ob] \<and> rs_sourceToTargetDelta ob = 3 \<and>
     rs_targetToSourceDelta ob = 0"
proof -
  obtain ob where ob: "changedRelaySessions (sx_relay 1 5 9) (sx_relay 2 8 9) 1 = Inr [ob]"
    by (simp add: changedRelaySessions_def changed_session_def old_sessions_def sx_relay_def sx_client_def
        relaySessionKey_def relayCounterValue_def Let_def)
  show ?thesis
    using relay_deltas_exact [OF ob, of ob] ob by (auto simp: sx_relay_def sx_client_def)
qed

section \<open>Retries\<close>

lemma grow_delay_closed:
  "0 < base \<Longrightarrow> base \<le> m \<Longrightarrow> grow_delay m n base = min m (base * 2 ^ n)"
proof (induction n arbitrary: base)
  case (Suc n)
  show ?case
  proof (cases "base < m \<and> base \<le> trunc_div m 2")
    case True
    then have "base * 2 \<le> m" using Suc.prems by (simp add: trunc_div_def) presburger
    then show ?thesis using Suc.IH [of "base * 2"] Suc.prems True by (simp add: mult.assoc)
  next
    case False
    have "base * 2 * 1 \<le> base * 2 * 2 ^ n" using Suc.prems by (intro mult_left_mono) auto
    moreover have "m \<le> base * 2" using False Suc.prems by (auto simp: trunc_div_def)
    ultimately have "min m (base * 2 ^ Suc n) = m" by (intro min_absorb1) (simp add: mult.assoc)
    moreover have "grow_delay m (Suc n) base = m" using False Suc.prems by auto
    ultimately show ?thesis by simp
  qed
qed (simp add: min_def)

lemma normalize_retry: "0 < kc_retryMin (normalize_config uuid cfg)"
    "kc_retryMin (normalize_config uuid cfg) \<le> kc_retryMax (normalize_config uuid cfg)"
  by (auto simp: normalize_config_def Let_def defaultRetryMin_def defaultRetryMax_def second_def)

text \<open>After \<open>n\<close> failures in a row the sink waits for the shortest delay doubled \<open>n - 1\<close> times, at most the longest
  delay, give or take a fifth; it never waits for less than four fifths of the shortest delay.\<close>

theorem retryDelay_bounds:
  assumes "0 \<le> jitter" "jitter < 1" "1 \<le> n" and c: "c = normalize_config uuid cfg"
  shows "retry_base c n = min (kc_retryMax c) (kc_retryMin c * 2 ^ (n - 1)) \<and>
    4 * retry_base c n div 5 \<le> retryDelay c n jitter \<and> 5 * retryDelay c n jitter < 6 * retry_base c n \<and>
    4 * kc_retryMin c div 5 \<le> retryDelay c n jitter"
proof (intro conjI)
  let ?b = "retry_base c n" and ?m = "kc_retryMin c"
  have m: "0 < ?m" "?m \<le> kc_retryMax c" by (simp_all add: c normalize_retry)
  show b: "?b = min (kc_retryMax c) (?m * 2 ^ (n - 1))"
    using m by (simp add: retry_base_def grow_delay_closed Let_def)
  have "?m * 1 \<le> ?m * 2 ^ (n - 1)" using m by (intro mult_left_mono) auto
  then have mb: "?m \<le> ?b" using m b by simp
  then have pos: "0 < (of_int ?b :: rat)" using m by simp
  have lo: "of_int ?b * (4 / 5) \<le> of_int ?b * (4 / 5 + 2 / 5 * jitter)"
    using pos assms(1) by (intro mult_left_mono) auto
  have hi: "of_int ?b * (4 / 5 + 2 / 5 * jitter) < of_int ?b * (6 / 5)"
    using pos assms(2) by (intro mult_strict_left_mono) auto
  show l: "4 * ?b div 5 \<le> retryDelay c n jitter"
  proof -
    have "5 * (4 * ?b div 5) \<le> 4 * ?b" by presburger
    then have "of_int (5 * (4 * ?b div 5)) \<le> (of_int (4 * ?b) :: rat)" by (simp only: of_int_le_iff)
    then show ?thesis using lo unfolding retryDelay_def le_floor_iff by simp
  qed
  show "5 * retryDelay c n jitter < 6 * ?b"
  proof -
    have "of_int (retryDelay c n jitter) < of_int ?b * (6 / 5 :: rat)"
      using hi unfolding retryDelay_def by (meson of_int_floor_le order_le_less_trans)
    then have "of_int (5 * retryDelay c n jitter) < (of_int (6 * ?b) :: rat)" by simp
    then show ?thesis by (simp only: of_int_less_iff)
  qed
  show "4 * ?m div 5 \<le> retryDelay c n jitter"
    using mb by (intro order_trans [OF _ l] zdiv_mono1) auto
qed

text \<open>A configuration of a sink, all of it defaults but its instance, digest, payload sizes and report ids.\<close>

definition sx_config :: sink_config where
  "sx_config = normalize_config ''i''
     \<lparr>kc_sampleInterval = 0, kc_snapshotTimeout = 0, kc_batchWindow = 0, kc_heartbeatInterval = 0, kc_retryMin = 0,
      kc_retryMax = 0, kc_maxBatchObservers = 0, kc_maxRequestBytes = 0, kc_reporterInstanceID = [],
      kc_digest = (\<lambda>is. CHR ''g'' # concat (map IdentityKey is)), kc_payload = (\<lambda>r. Some (int (length (re_observers r)))),
      kc_reportID = show_int\<rparr>"

lemma sx_config_retry: "kc_retryMin sx_config = 2 * second" "kc_retryMax sx_config = 60 * second"
  by (simp_all add: sx_config_def normalize_config_def defaultRetryMin_def defaultRetryMax_def second_def Let_def)

theorem retryDelay_bounds_witness:
  "retry_base sx_config 4 = 16 * second \<and> 12800000000 \<le> retryDelay sx_config 4 (1 / 2) \<and>
     retryDelay sx_config 4 (1 / 2) < 19200000000"
proof -
  have "retry_base sx_config 4 = min (60 * second) (2 * second * 2 ^ (4 - 1)) \<and>
    4 * retry_base sx_config 4 div 5 \<le> retryDelay sx_config 4 (1 / 2) \<and>
    5 * retryDelay sx_config 4 (1 / 2) < 6 * retry_base sx_config 4"
    using retryDelay_bounds [OF _ _ _ sx_config_def, of "1 / 2" 4] by (auto simp: sx_config_retry)
  then show ?thesis by (auto simp: second_def)
qed

end
