(* ===== verification/Sink_Laws.thy ===== *)
theory Sink_Laws
  imports Sink_Facts
begin

text \<open>
  How an invariant of the sink and the world is carried through a flush. The invariant has the operations
  that are still to be answered as an argument; the locales ask for one law per kind of answer and per
  part of a flush, and give the invariant for the functions that send.
\<close>

section \<open>Answers to observer reports\<close>

definition next_sequence :: "sink_state \<Rightarrow> sink_state" where
  "next_sequence s = s\<lparr>sk_sequence := sk_sequence s + 1\<rparr>"

definition next_report :: "sink_config \<Rightarrow> observer_operation list \<Rightarrow> sink_state \<Rightarrow> report_envelope" where
  "next_report cfg ops s = reportFor cfg ops (sk_sequence s + 1) (kc_reportID cfg (sk_sequence s + 1))
     (tr_directionalPathEvidence (sk_transport s))"

definition refusal :: "send_error \<Rightarrow> bool" where
  "refusal e \<longleftrightarrow> (\<exists>status. e = HTTPStatus status \<and> (status = 400 \<or> status = 413))"

lemma next_sequence_fields [simp]:
  "sk_sequence (next_sequence s) = sk_sequence s + 1" "sk_states (next_sequence s) = sk_states s"
  "sk_transport (next_sequence s) = sk_transport s" "sk_events (next_sequence s) = sk_events s"
  "sk_registrations (next_sequence s) = sk_registrations s"
  by (simp_all add: next_sequence_def)

lemma count_fitting_ge: "n \<le> count_fitting cfg ops sequence directional left n"
  by (induction left arbitrary: n) (auto intro: Suc_leD)

text \<open>No batch at all: the first operation does not fit alone, or batches are of size zero.\<close>

lemma batchCount_zero:
  assumes "batchCount cfg (op # rest) sequence directional = 0" "0 < kc_maxBatchObservers cfg"
  shows "\<not> fits cfg (reportFor cfg [op] sequence ''00000000-0000-4000-8000-000000000000'' directional)"
proof -
  obtain m where m: "min (length (op # rest)) (nat (kc_maxBatchObservers cfg)) = Suc m"
    using assms(2) by (cases "min (length (op # rest)) (nat (kc_maxBatchObservers cfg))") auto
  show ?thesis
    using assms(1) count_fitting_ge [of "Suc 0" cfg "op # rest" sequence directional m]
    unfolding batchCount_def m by (auto split: if_splits)
qed

locale answered =
  fixes cfg :: sink_config and env :: "'w reporter"
    and I :: "observer_operation list \<Rightarrow> sink_state \<Rightarrow> 'w \<Rightarrow> bool"
  assumes batches: "I ops s w \<Longrightarrow> 0 < kc_maxBatchObservers cfg"
    and forget: "I ops s w \<Longrightarrow> I [] s w"
    and refused: "I (ops @ rest) s w \<Longrightarrow> 1 < length ops \<Longrightarrow> rp_send env (next_report cfg ops s) w = (Inl e, w') \<Longrightarrow>
      refusal e \<Longrightarrow> I (ops @ rest) (next_sequence s) w'"
    and rejected: "I (op # rest) s w \<Longrightarrow> rp_send env (next_report cfg [op] s) w = (Inl (HTTPStatus status), w') \<Longrightarrow>
      refusal (HTTPStatus status) \<Longrightarrow> I rest (rejectOperation op status (next_sequence s)) w'"
    and failed: "I (ops @ rest) s w \<Longrightarrow> ops \<noteq> [] \<Longrightarrow> rp_send env (next_report cfg ops s) w = (Inl e, w') \<Longrightarrow>
      \<not> refusal e \<Longrightarrow> I [] (fold uncertain_hello ops (next_sequence s)) w'"
    and unaccepted: "I (ops @ rest) s w \<Longrightarrow> ops \<noteq> [] \<Longrightarrow> rp_send env (next_report cfg ops s) w = (Inr receipt, w') \<Longrightarrow>
      \<not> rr_accepted receipt \<Longrightarrow> I [] (next_sequence s) w'"
    and accepted: "I (ops @ rest) s w \<Longrightarrow> ops \<noteq> [] \<Longrightarrow> rp_send env (next_report cfg ops s) w = (Inr receipt, w') \<Longrightarrow>
      rr_accepted receipt \<Longrightarrow> I rest (accepted_batch ops receipt reportedAt (next_report cfg ops s) (next_sequence s)) w'"
    and oversized: "I (op # rest) s w \<Longrightarrow> \<not> fits cfg (reportFor cfg [op] (sk_sequence s + 1)
      ''00000000-0000-4000-8000-000000000000'' (tr_directionalPathEvidence (sk_transport s))) \<Longrightarrow>
      I rest (rejectOversized op s) w"
begin

lemma sendBatch_answered:
  "ops \<noteq> [] \<Longrightarrow> I (ops @ rest) s w \<Longrightarrow> sendBatch cfg env reportedAt ops (s, w) = (answer, s', w') \<Longrightarrow>
     I [] s' w' \<and> (\<forall>resync. answer = Inr resync \<longrightarrow> I rest s' w')"
proof (induction "length ops" arbitrary: ops rest s w answer s' w' rule: less_induct)
  case less
  note ops = less.prems(1) and I = less.prems(2)
  obtain a w1 where send: "rp_send env (next_report cfg ops s) w = (a, w1)" by (metis surj_pair)
  show ?case
  proof (cases a)
    case (Inr receipt)
    show ?thesis
    proof (cases "rr_accepted receipt")
      case True
      have "I rest (accepted_batch ops receipt reportedAt (next_report cfg ops s) (next_sequence s)) w1"
        using accepted [OF I ops] send Inr True by blast
      then show ?thesis using less.prems(3) send Inr True forget
        by (subst (asm) sendBatch.simps) (auto simp: Let_def next_sequence_def next_report_def)
    next
      case False
      then have "I [] (next_sequence s) w1" using unaccepted [OF I ops] send Inr by blast
      then show ?thesis using less.prems(3) send Inr False
        by (subst (asm) sendBatch.simps) (auto simp: Let_def next_sequence_def next_report_def)
    qed
  next
    case (Inl e)
    show ?thesis
    proof (cases "refusal e")
      case False
      then have "I [] (fold uncertain_hello ops (next_sequence s)) w1" using failed [OF I ops] send Inl by blast
      then show ?thesis using less.prems(3) send Inl False
        by (subst (asm) sendBatch.simps)
           (auto simp: Let_def next_sequence_def next_report_def refusal_def split: send_error.splits)
    next
      case True
      then obtain status where e: "e = HTTPStatus status" "status = 400 \<or> status = 413" by (auto simp: refusal_def)
      show ?thesis
      proof (cases "length ops > 1")
        case False
        then obtain op where op: "ops = [op]" using ops by (cases ops) auto
        have "I rest (rejectOperation op status (next_sequence s)) w1"
          using rejected [of op rest s w] I send Inl e True op by auto
        then show ?thesis using less.prems(3) send Inl e op forget
          by (subst (asm) sendBatch.simps) (auto simp: Let_def next_sequence_def next_report_def)
      next
        case many: True
        define m where "m = length ops div 2"
        have m: "length (take m ops) < length ops" "take m ops \<noteq> []" "length (drop m ops) < length ops" "drop m ops \<noteq> []"
          using many by (auto simp: m_def)
        obtain l s1 w2 where l: "sendBatch cfg env reportedAt (take m ops) (next_sequence s, w1) = (l, s1, w2)"
          by (metis surj_pair)
        obtain r s2 w3 where r: "sendBatch cfg env reportedAt (drop m ops) (s1, w2) = (r, s2, w3)"
          by (metis surj_pair)
        have "I (ops @ rest) (next_sequence s) w1" using refused [OF I many] send Inl True by blast
        then have "I (take m ops @ (drop m ops @ rest)) (next_sequence s) w1" by (simp only: append_assoc [symmetric] append_take_drop_id)
        then have il: "I [] s1 w2 \<and> (\<forall>resync. l = Inr resync \<longrightarrow> I (drop m ops @ rest) s1 w2)"
          using less.hyps [OF m(1) m(2) _ l] by blast
        show ?thesis
        proof (cases l)
          case (Inl e')
          then show ?thesis using less.prems(3) send \<open>a = Inl e\<close> e many l il
            by (subst (asm) sendBatch.simps) (auto simp: Let_def next_sequence_def next_report_def m_def)
        next
          case (Inr resync)
          then have ir: "I [] s2 w3 \<and> (\<forall>resync. r = Inr resync \<longrightarrow> I rest s2 w3)"
            using il less.hyps [OF m(3) m(4) _ r] by blast
          then show ?thesis using less.prems(3) send \<open>a = Inl e\<close> e many l r Inr
            by (subst (asm) sendBatch.simps, cases r)
               (auto simp: Let_def next_sequence_def next_report_def m_def)
        qed
      qed
    qed
  qed
qed

lemma sendOperations_answered:
  "I ops s w \<Longrightarrow> sendOperations cfg env reportedAt ops (s, w) = (answer, s', w') \<Longrightarrow> I [] s' w'"
proof (induction "length ops" arbitrary: ops s w rule: less_induct)
  case less
  show ?case
  proof (cases ops)
    case Nil
    then show ?thesis using less.prems by (subst (asm) sendOperations.simps) auto
  next
    case (Cons op rest)
    define n where "n = batchCount cfg ops (sk_sequence s + 1) (tr_directionalPathEvidence (sk_transport s))"
    show ?thesis
    proof (cases "n = 0")
      case True
      have "I rest (rejectOversized op s) w"
        using oversized [of op rest s w] less.prems(1) True Cons batches [OF less.prems(1)]
        by (auto simp: n_def dest: batchCount_zero)
      then show ?thesis using less.prems(2) less.hyps [of rest "rejectOversized op s" w] True Cons
        by (subst (asm) sendOperations.simps) (auto simp: n_def)
    next
      case False
      obtain a s1 w1 where b: "sendBatch cfg env reportedAt (take n ops) (s, w) = (a, s1, w1)" by (metis surj_pair)
      have "take n ops \<noteq> []" using False Cons by auto
      then have "I [] s1 w1 \<and> (\<forall>resync. a = Inr resync \<longrightarrow> I (drop n ops) s1 w1)"
        using sendBatch_answered [OF _ _ b, of "drop n ops"] less.prems(1) by simp
      then show ?thesis using less.prems(2) less.hyps [of "drop n ops" s1 w1] False Cons b
        by (subst (asm) sendOperations.simps) (auto simp: n_def split: sum.splits bool.splits)
    qed
  qed
qed

end

section \<open>Relay reports\<close>

definition relay_done :: "relay_operation \<Rightarrow> sink_state \<Rightarrow> sink_state" where
  "relay_done op = update_source (lo_key op) (relay_reported (lo_snapshot op))"

definition relay_accepted :: "relay_operation \<Rightarrow> report_receipt \<Rightarrow> sink_state \<Rightarrow> sink_state" where
  "relay_accepted op receipt s =
     update_source (lo_key op) (\<lambda>x. x\<lparr>ss_relayHasBaseline := True\<rparr>) (relay_done op (acceptReceipt receipt s))"

locale relay_answered =
  fixes cfg :: sink_config and env :: "'w reporter"
    and R :: "relay_operation list \<Rightarrow> sink_state \<Rightarrow> 'w \<Rightarrow> bool" and J :: "sink_state \<Rightarrow> 'w \<Rightarrow> bool"
  assumes relay_forget: "R ops s w \<Longrightarrow> J s w"
    and relay_oversized: "R (op # rest) s w \<Longrightarrow> \<not> fits cfg (relayReport cfg (sk_sequence s + 1) op) \<Longrightarrow>
      R rest (relay_done op (next_sequence s)) w"
    and relay_refused: "R (op # rest) s w \<Longrightarrow> fits cfg (relayReport cfg (sk_sequence s + 1) op) \<Longrightarrow>
      rp_send env (relayReport cfg (sk_sequence s + 1) op) w = (Inl e, w') \<Longrightarrow>
      (if refusal e then R rest (relay_done op (next_sequence s)) w' else J (next_sequence s) w')"
    and relay_answer: "R (op # rest) s w \<Longrightarrow> fits cfg (relayReport cfg (sk_sequence s + 1) op) \<Longrightarrow>
      rp_send env (relayReport cfg (sk_sequence s + 1) op) w = (Inr receipt, w') \<Longrightarrow>
      (if rr_accepted receipt then R rest (relay_accepted op receipt (next_sequence s)) w'
       else J (next_sequence s) w')"
begin

lemma sendRelayOperations_answered:
  "R ops s w \<Longrightarrow> sendRelayOperations cfg env ops (s, w) = (answer, s', w') \<Longrightarrow> J s' w'"
proof (induction ops arbitrary: s w)
  case Nil
  then show ?case using relay_forget by simp
next
  case (Cons op rest)
  let ?r = "relayReport cfg (sk_sequence s + 1) op"
  show ?case
  proof (cases "fits cfg ?r")
    case False
    then show ?thesis
      using Cons.IH [OF relay_oversized [OF Cons.prems(1)]] Cons.prems(2)
      by (simp add: Let_def next_sequence_def relay_done_def)
  next
    case True
    obtain a w1 where a: "rp_send env ?r w = (a, w1)" by (metis surj_pair)
    show ?thesis
    proof (cases a)
      case (Inl e)
      then show ?thesis
        using relay_refused [OF Cons.prems(1) True, of e w1] a Cons.prems(2) True Cons.IH
        by (cases e) (auto simp: refusal_def Let_def next_sequence_def relay_done_def split: if_splits)
    next
      case (Inr receipt)
      then show ?thesis
        using relay_answer [OF Cons.prems(1) True, of receipt w1] a Cons.prems(2) True Cons.IH relay_forget
        by (auto simp: Let_def next_sequence_def relay_done_def relay_accepted_def split: if_splits)
    qed
  qed
qed

end

section \<open>Flushes\<close>

locale flushed = answered cfg env I + relay_answered cfg env R "I []"
  for cfg and env :: "'w reporter" and I and R +
  fixes at_time :: "time \<Rightarrow> bool" and arrives :: "sink_event list \<Rightarrow> bool"
  assumes collected: "I [] s w \<Longrightarrow> at_time now \<Longrightarrow> kind \<in> set flush_order \<Longrightarrow> operationsForKind cfg kind now s = (ops, s') \<Longrightarrow>
      I ops s' w"
    and relay_collected: "I [] s w \<Longrightarrow> relayOperations cfg s = (relays, s') \<Longrightarrow> R relays s' w"
    and finalized: "I [] s w \<Longrightarrow> I [] (finalizeUnreportedWithdrawals s) w"
    and drained: "I [] s w \<Longrightarrow> I [] (drainPendingEvents s) w"
    and arrived: "I [] s w \<Longrightarrow> arrives es \<Longrightarrow> I [] (s\<lparr>sk_events := sk_events s @ es\<rparr>) w"
    and disconnect: "I [] s w \<Longrightarrow> I [] (markDisconnected s) w"
    and transport: "I [] s w \<Longrightarrow> I [] (s\<lparr>sk_transport := tr\<rparr>) w"
    and capabilities: "I [] s w \<Longrightarrow> rp_capabilities env w = (c, w') \<Longrightarrow> I [] s w'"
begin

lemma settle_keeps: "I [] s w \<Longrightarrow> settle cfg jitter now (answer, s, w) = (err, s', w') \<Longrightarrow> I [] s' w'"
  by (cases answer)
     (auto simp: settle_def transportFailed_def Let_def split: if_splits send_error.splits intro: disconnect transport)

lemma flush_kinds_keeps:
  "set kinds \<subseteq> set flush_order \<Longrightarrow> at_time now \<Longrightarrow> I [] s w \<Longrightarrow>
     flush_kinds cfg env now kinds (s, w) = (answer, s', w') \<Longrightarrow> I [] s' w'"
proof (induction kinds arbitrary: s w)
  case (Cons kind kinds)
  obtain ops s1 where o: "operationsForKind cfg kind now s = (ops, s1)" by (metis surj_pair)
  have ops: "I ops s1 w" using collected [OF Cons.prems(3,2) _ o] Cons.prems(1) by simp
  show ?case
  proof (cases "ops = []")
    case True
    then show ?thesis using Cons o ops by simp
  next
    case False
    obtain a s2 w2 where a: "sendOperations cfg env now ops (s1, w) = (a, s2, w2)" by (metis surj_pair)
    have "I [] s2 w2" by (rule sendOperations_answered [OF ops a])
    then show ?thesis
      using Cons o a False finalized by (auto split: sum.splits bool.splits)
  qed
qed simp

lemma flush_connected_keeps:
  assumes "I [] s w" "at_time now" "flush_connected cfg env jitter now (s, w) = (err, s', w')"
  shows "I [] s' w'"
proof -
  obtain a s1 w1 where k: "flush_kinds cfg env now flush_order (s, w) = (a, s1, w1)" by (metis surj_pair)
  have I: "I [] s1 w1" using flush_kinds_keeps [OF _ assms(2,1) k] by simp
  obtain ops s2 where o: "relayOperations cfg s1 = (ops, s2)" by (metis surj_pair)
  obtain b s3 w3 where r: "sendRelayOperations cfg env ops (s2, w1) = (b, s3, w3)" by (metis surj_pair)
  have "I [] s3 w3" by (rule sendRelayOperations_answered [OF relay_collected [OF I o] r])
  then show ?thesis
    using assms(3) I k o r by (auto simp: flush_connected_def split: if_splits intro: settle_keeps)
qed

lemma flush_keeps:
  assumes "I [] s w" "at_time now" "at_time later" "arrives es" "flush cfg env jitter now later es (s, w) = (err, s', w')"
  shows "I [] s' w'"
proof -
  define s0 where "s0 = finalizeUnreportedWithdrawals (drainPendingEvents s)"
  have I0: "I [] s0 w" using assms(1) by (simp add: s0_def finalized drained)
  obtain c w1 where c: "rp_capabilities env w = (c, w1)" by (metis surj_pair)
  have I1: "I [] (s0\<lparr>sk_events := sk_events s0 @ es\<rparr>) w1" by (rule arrived [OF capabilities [OF I0 c] assms(4)])
  then have I2: "I [] (finalizeUnreportedWithdrawals (drainPendingEvents
      (s0\<lparr>sk_events := sk_events s0 @ es, sk_transport := tr\<rparr>))) w1" for tr
    using transport [OF I1] by (simp add: finalized drained)
  show ?thesis
    using assms(2,3,5) I0 I1 I2 unfolding flush_def fst_conv snd_conv s0_def [symmetric] Let_def c
    by (auto split: if_splits sum.splits option.splits intro: settle_keeps flush_connected_keeps)
qed

end

end
