(* ===== verification/Sink_Contract.thy ===== *)
theory Sink_Contract
  imports Sink_Laws
begin

text \<open>
  What the sink sends is what the server accepts: with snapshots that passed the sink's validation, every
  report of a flush passes the server's \<open>Validate\<close>, and the sequence numbers of the reports increase.
  Relay reports need two things more that the sink does not check.
\<close>

section \<open>Sources\<close>

definition snapshot_ok :: "bool \<Rightarrow> sink_snapshot \<Rightarrow> bool" where
  "snapshot_ok relays s \<longleftrightarrow>
     valid_snapshot s \<and> 0 < sp_collectedAt s \<and> (relays \<longrightarrow> trim_space (ni_stableNodeID (sp_observer s)) \<noteq> [])"

definition relay_client_ok :: "relay_client_snapshot \<Rightarrow> bool" where
  "relay_client_ok c \<longleftrightarrow>
     trim_space (rq_sessionClientID c) \<noteq> [] \<and> (\<forall>i. rq_identity c = Some i \<longrightarrow> HasIdentity i)"

definition relay_session_ok :: "relay_session_snapshot \<Rightarrow> bool" where
  "relay_session_ok s \<longleftrightarrow>
     trim_space (rz_sessionID s) \<noteq> [] \<and> rz_vni s \<in> {0..max_vni} \<and> relay_client_ok (rz_source s) \<and>
     relay_client_ok (rz_target s)"

text \<open>A relay snapshot the sink took, of sessions between different clients.\<close>

definition relay_snapshot_ok :: "relay_snapshot \<Rightarrow> bool" where
  "relay_snapshot_ok s \<longleftrightarrow> 0 < rn_collectedAt s \<and>
     (\<forall>z \<in> set (rn_sessions s).
        relay_session_ok z \<and> rq_sessionClientID (rz_source z) \<noteq> rq_sessionClientID (rz_target z))"

definition reference_ok :: "observer_reference \<Rightarrow> bool" where
  "reference_ok r \<longleftrightarrow> HasIdentity (rf_identity r) \<and> rf_generation r \<noteq> []"

definition known_refs :: "source_state \<Rightarrow> observer_reference set" where
  "known_refs x = set_option (ss_serverRef x) \<union> set (ss_uncertainRefs x) \<union> set (ss_withdrawals x)"

definition source_ok :: "bool \<Rightarrow> source_state \<Rightarrow> bool" where
  "source_ok relays x \<longleftrightarrow>
     (ss_hasLatest x \<longrightarrow> snapshot_ok relays (ss_latest x)) \<and>
     (\<forall>r \<in> known_refs x. reference_ok r) \<and>
     (ss_healthy x \<longrightarrow> ss_hasLatest x) \<and>
     (ss_relayHasLatest x \<longrightarrow> relays \<and> relay_snapshot_ok (ss_relayLatest x))"

fun event_ok :: "bool \<Rightarrow> sink_event \<Rightarrow> bool" where
  "event_ok relays (SourceResult key registration (Inr snap)) = snapshot_ok relays snap"
| "event_ok relays (RelayResult key registration (Inr snap)) = (relays \<and> relay_snapshot_ok snap)"
| "event_ok relays e = True"

definition all_sources :: "(source_state \<Rightarrow> bool) \<Rightarrow> sink_state \<Rightarrow> bool" where
  "all_sources P s \<longleftrightarrow> (\<forall>key x. map_of (sk_states s) key = Some x \<longrightarrow> P x)"

definition sink_ok :: "bool \<Rightarrow> sink_state \<Rightarrow> bool" where
  "sink_ok relays s \<longleftrightarrow>
     0 \<le> sk_sequence s \<and> all_sources (source_ok relays) s \<and> list_all (event_ok relays) (sk_events s)"

definition config_ok :: "sink_config \<Rightarrow> bool" where
  "config_ok cfg \<longleftrightarrow>
     (\<forall>is. kc_digest cfg is \<noteq> []) \<and> (\<forall>n. kc_reportID cfg n \<noteq> []) \<and> kc_reporterInstanceID cfg \<noteq> [] \<and>
     0 < kc_maxBatchObservers cfg"

lemma all_sources_put: "all_sources P s \<Longrightarrow> P x \<Longrightarrow> all_sources P (put_source key x s)"
  by (simp add: all_sources_def put_source_def)

lemma all_sources_update:
  "all_sources P s \<Longrightarrow> (\<And>x. map_of (sk_states s) key = Some x \<Longrightarrow> P x \<Longrightarrow> P (f x)) \<Longrightarrow> all_sources P (update_source key f s)"
  by (cases "map_of (sk_states s) key") (auto simp: update_source_def all_sources_put all_sources_def [of P s])

lemma all_sources_cong: "sk_states s = sk_states t \<Longrightarrow> all_sources P s = all_sources P t"
  by (simp add: all_sources_def)

lemma all_sources_at: "all_sources P s \<Longrightarrow> map_of (sk_states s) key = Some x \<Longrightarrow> P x"
  by (simp add: all_sources_def)

section \<open>Events keep the sources in order\<close>

lemma set_appendObserverReference: "set (appendObserverReference rs r) \<subseteq> insert r (set rs)"
  by (auto simp: appendObserverReference_def)

lemma set_removeObserverReference: "set (removeObserverReference rs r) \<subseteq> set rs"
  by (auto simp: removeObserverReference_def)

lemma set_fold_appendObserverReference:
  "set (fold (\<lambda>r ws. appendObserverReference ws r) rs ws) \<subseteq> set rs \<union> set ws"
proof (induction rs arbitrary: ws)
  case (Cons r rs)
  then show ?case using Cons.IH [of "appendObserverReference ws r"] set_appendObserverReference [of ws r] by auto
qed simp

lemma retire_sets:
  "retireObserverReferences us ws k = (us', ws') \<Longrightarrow> set us' \<subseteq> set us \<and> set ws' \<subseteq> set us \<union> set ws"
  using set_fold_appendObserverReference by (fastforce simp: retireObserverReferences_def)

lemma new_source_ok [simp]: "source_ok relays (new_source r b)"
  by (simp add: source_ok_def known_refs_def new_source_def)

lemma source_ok_refs:
  "source_ok relays x \<Longrightarrow> known_refs y \<subseteq> known_refs x \<Longrightarrow> ss_hasLatest y = ss_hasLatest x \<Longrightarrow> ss_latest y = ss_latest x \<Longrightarrow>
     (ss_healthy y \<Longrightarrow> ss_healthy x) \<Longrightarrow> (ss_relayHasLatest y \<Longrightarrow> ss_relayHasLatest x) \<Longrightarrow>
     ss_relayLatest y = ss_relayLatest x \<Longrightarrow> source_ok relays y"
  unfolding source_ok_def by (metis subset_iff)

lemma source_failed_ok: "source_ok relays x \<Longrightarrow> source_ok relays (source_failed x)"
  by (erule source_ok_refs) (simp_all add: known_refs_def source_failed_def)

lemma relay_failed_ok: "source_ok relays x \<Longrightarrow> source_ok relays (relay_failed x)"
  by (erule source_ok_refs) (simp_all add: known_refs_def relay_failed_def)

lemma relay_sampled_ok:
  "source_ok relays x \<Longrightarrow> relays \<and> relay_snapshot_ok snap \<Longrightarrow> source_ok relays (relay_sampled snap x)"
  by (auto simp: source_ok_def known_refs_def relay_sampled_def Let_def)

lemma source_sampled_facts:
  "known_refs (source_sampled snap x) \<subseteq> known_refs x" "ss_hasLatest (source_sampled snap x)"
  "ss_latest (source_sampled snap x) = snap" "ss_relayHasLatest (source_sampled snap x) = ss_relayHasLatest x"
  "ss_relayLatest (source_sampled snap x) = ss_relayLatest x"
proof -
  define k where "k = IdentityKey (sp_observer snap)"
  define ws where "ws = (case ss_serverRef x of
      Some r \<Rightarrow> if reference_key r \<noteq> k then appendObserverReference (ss_withdrawals x) r else ss_withdrawals x
    | None \<Rightarrow> ss_withdrawals x)"
  obtain us' ws' where r: "retireObserverReferences (ss_uncertainRefs x) ws k = (us', ws')" by (metis surj_pair)
  have ws: "set ws \<subseteq> set (ss_withdrawals x) \<union> set_option (ss_serverRef x)"
    by (auto simp: ws_def split: option.splits if_splits dest!: subsetD [OF set_appendObserverReference])
  have sets: "set us' \<subseteq> set (ss_uncertainRefs x)" "set ws' \<subseteq> set (ss_uncertainRefs x) \<union> set ws"
    using retire_sets [OF r] by auto
  have "set_option (ss_serverRef (source_sampled snap x)) \<subseteq> set_option (ss_serverRef x)"
    "ss_uncertainRefs (source_sampled snap x) = us'" "ss_withdrawals (source_sampled snap x) = ws'"
    using r by (auto simp: source_sampled_def Let_def ws_def k_def split: option.splits prod.splits)
  then show "known_refs (source_sampled snap x) \<subseteq> known_refs x" using ws sets by (auto simp: known_refs_def)
qed (auto simp: source_sampled_def Let_def split: option.splits prod.splits)

lemma source_sampled_ok:
  "source_ok relays x \<Longrightarrow> snapshot_ok relays snap \<Longrightarrow> source_ok relays (source_sampled snap x)"
  using source_sampled_facts [of snap x] unfolding source_ok_def by auto

lemma source_withdrawing_refs: "known_refs (source_withdrawing x) \<subseteq> known_refs x"
proof -
  define ws where "ws = (case ss_serverRef x of Some r \<Rightarrow> appendObserverReference (ss_withdrawals x) r | None \<Rightarrow> ss_withdrawals x)"
  have "set ws \<subseteq> set (ss_withdrawals x) \<union> set_option (ss_serverRef x)"
    by (auto simp: ws_def split: option.splits dest!: subsetD [OF set_appendObserverReference])
  moreover have "known_refs (source_withdrawing x) = set (fold (\<lambda>r ws. appendObserverReference ws r) (ss_uncertainRefs x) ws)"
    by (simp add: known_refs_def source_withdrawing_def queueAllObserverReferencesForWithdrawal_def ws_def cong: option.case_cong)
  ultimately show ?thesis
    using set_fold_appendObserverReference [of "ss_uncertainRefs x" ws] by (auto simp: known_refs_def)
qed

lemma source_withdrawing_ok: "source_ok relays x \<Longrightarrow> source_ok relays (source_withdrawing x)"
  by (erule source_ok_refs)
     (simp_all add: source_withdrawing_refs, simp_all add: source_withdrawing_def queueAllObserverReferencesForWithdrawal_def Let_def)

lemma handleEvent_states:
  assumes "all_sources (source_ok relays) s" "event_ok relays e"
  shows "all_sources (source_ok relays) (handleEvent e s)"
proof -
  have new: "source_ok relays (source_or_new key r b s)" for key r b
    using assms(1) by (auto simp: source_or_new_def all_sources_def split: option.splits)
  have sampled: "all_sources (source_ok relays) (sampled key r f s)"
    if "\<And>x. source_ok relays x \<Longrightarrow> source_ok relays (f x)" for key r f
    using assms(1) new that by (auto simp: sampled_def Let_def intro!: all_sources_put)
  show ?thesis
  proof (cases e)
    case (SourceResult key r res)
    then show ?thesis using assms(2) by (cases res) (simp_all add: sampled source_failed_ok source_sampled_ok)
  next
    case (RelayResult key r res)
    show ?thesis
    proof (cases res)
      case (Inl err)
      then show ?thesis by (simp add: RelayResult sampled relay_failed_ok)
    next
      case (Inr snap)
      then have "relays \<and> relay_snapshot_ok snap" using assms(2) RelayResult by simp
      then have "all_sources (source_ok relays) (sampled key r (relay_sampled snap) s)"
        by (intro sampled relay_sampled_ok)
      then show ?thesis by (simp add: RelayResult Inr)
    qed
  next
    case (WithdrawRequest key r)
    then show ?thesis by (simp add: all_sources_put assms(1) source_withdrawing_ok new)
  qed
qed

section \<open>Operations are fit to be sent\<close>

definition operation_ok :: "observer_operation \<Rightarrow> bool" where
  "operation_ok op \<longleftrightarrow>
     valid_observer (oo_kind op) (oo_observer op) \<and> 0 < oo_collectedAt op \<and> oo_kind op \<in> set flush_order \<and>
     reference_ok (oo_reference op)"

lemma sample_duration_pos [simp]: "1 \<le> sample_duration t u fallback" "0 \<le> sample_duration t u fallback"
  by (simp_all add: sample_duration_def Let_def)

lemma baseline_peer_ok:
  assumes "valid_snapshot s" "p \<in> set (baselineSnapshotPeers s)" "kind \<noteq> ReportTrafficSample"
  shows "valid_peer kind p"
  using assms
  by (auto simp: baselineSnapshotPeers_def valid_snapshot_def list_all_iff valid_peer_def valid_path_evidence_def
      valid_peer_snapshot_def)

lemma changed_peer_ok:
  assumes "valid_snapshot t" "p \<in> set (changedSnapshotPeers s t ids fallback)"
  shows "valid_peer kind p"
proof -
  obtain q where q: "q \<in> set (sp_peers t)" "changed_peer s t ids fallback q = Some p"
    using assms(2) by (auto simp: changedSnapshotPeers_def List.map_filter_def split: if_splits)
  then have "valid_peer_snapshot q" using assms(1) by (auto simp: valid_snapshot_def list_all_iff)
  moreover have "pe_peer p = ps_identity q" "pe_rxBytes p = ps_rxBytes q" "pe_txBytes p = ps_txBytes q"
    "pe_path p = ps_path q" "pe_fallbackPath p = ps_fallbackPath q" "pe_pathEvidence p = ps_pathEvidence q"
    "pe_inferenceRule p = ps_inferenceRule q" "0 \<le> pe_rxDelta p" "0 \<le> pe_txDelta p" "1 \<le> pe_sampleDurationMS p"
    using q(2) by (auto simp: changed_peer_def Let_def snapshotCounterDelta_def split: if_splits option.splits)
  ultimately show ?thesis by (auto simp: valid_peer_def valid_path_evidence_def valid_peer_snapshot_def)
qed

lemma snapshot_operation_ok:
  assumes "source_ok relays x" "ss_hasLatest x" "generation \<noteq> []" "kind \<in> set flush_order"
    and "kind \<noteq> ReportObserverWithdrawal" "\<And>p. p \<in> set peers \<Longrightarrow> valid_peer kind p"
  shows "operation_ok (snapshotOperation key x kind generation peers)"
proof -
  have "snapshot_ok relays (ss_latest x)" using assms(1,2) by (simp add: source_ok_def)
  then show ?thesis using assms(3-)
    by (auto simp: operation_ok_def snapshotOperation_def Let_def valid_observer_def snapshot_ok_def valid_snapshot_def
        reference_ok_def)
qed

lemma withdrawal_operation_ok:
  "reference_ok r \<Longrightarrow> 0 < now \<Longrightarrow> operation_ok (withdrawalOperation key r now)"
  by (simp add: operation_ok_def withdrawalOperation_def valid_observer_def reference_ok_def flush_order_def)

lemma operation_for_ok:
  assumes x: "source_ok relays x" and cfg: "config_ok cfg" and now: "0 < now" and kind: "kind \<in> set flush_order"
    and op: "operation_for cfg kind ids heartbeat now key x = (op, x')"
  shows "source_ok relays x' \<and> (\<forall>p. op = Some p \<longrightarrow> operation_ok p \<and> oo_kind p = kind)"
proof -
  have g: "snapshotInventoryHash (kc_digest cfg) s \<noteq> []" for s
    using cfg by (simp add: snapshotInventoryHash_def config_ok_def)
  have refs: "ss_serverRef x = Some r \<Longrightarrow> rf_generation r \<noteq> []" for r
    using x by (auto simp: source_ok_def known_refs_def reference_ok_def)
  have latest: "valid_snapshot (ss_latest x)" if "ss_hasLatest x"
    using x that by (auto simp: source_ok_def snapshot_ok_def)
  have k: "oo_kind (snapshotOperation key x kind generation peers) = kind" for generation peers
    by (simp add: snapshotOperation_def Let_def)
  consider "kind = ReportObserverWithdrawal" | "kind = ReportObserverHello" | "kind = ReportInventoryUpdate"
    | "kind = ReportTrafficSample" | "kind = ReportObserverHeartbeat"
    using kind by (auto simp: flush_order_def)
  then show ?thesis
  proof cases
    case 1
    have "operation_ok (withdrawalOperation key r now)" if "ss_withdrawals x = r # rs" for r rs
      using x now that by (intro withdrawal_operation_ok) (auto simp: source_ok_def known_refs_def)
    then show ?thesis using op x 1 by (auto simp: operation_for_def Let_def withdrawalOperation_def split: list.splits)
  next
    case 2
    have "operation_ok (snapshotOperation key x kind generation (baselineSnapshotPeers (ss_latest x)))"
      if "ss_hasLatest x" "generation \<noteq> []" for generation
      using that 2 by (intro snapshot_operation_ok [OF x]) (auto simp: flush_order_def intro: baseline_peer_ok latest)
    then show ?thesis using op x 2 g k by (auto simp: operation_for_def Let_def reportable_def split: if_splits)
  next
    case 3
    have "operation_ok (snapshotOperation key x kind generation (baselineSnapshotPeers (ss_latest x)))"
      if "ss_hasLatest x" "generation \<noteq> []" for generation
      using that 3 by (intro snapshot_operation_ok [OF x]) (auto simp: flush_order_def intro: baseline_peer_ok latest)
    then show ?thesis using op x 3 g k
      by (auto simp: operation_for_def Let_def reportable_def split: if_splits option.splits)
  next
    case 4
    have "operation_ok (snapshotOperation key x kind generation (changedSnapshotPeers s (ss_latest x) ids fallback))"
      if "ss_hasLatest x" "generation \<noteq> []" for generation s fallback
      using that 4 by (intro snapshot_operation_ok [OF x]) (auto simp: flush_order_def intro: changed_peer_ok latest)
    moreover have "source_ok relays (x\<lparr>ss_baseline := ss_latest x, ss_hasBaseline := True, ss_dirty := False\<rparr>)"
      using x by (auto simp: source_ok_def known_refs_def)
    ultimately show ?thesis using op x 4 refs k
      by (auto simp: operation_for_def Let_def reportable_def split: if_splits option.splits)
  next
    case 5
    have "operation_ok (snapshotOperation key x kind (rf_generation ref) [])"
      if "ss_hasLatest x" "ss_serverRef x = Some ref" for ref
      using that 5 x by (intro snapshot_operation_ok [OF x]) (auto simp: flush_order_def source_ok_def known_refs_def reference_ok_def)
    then show ?thesis using op x 5 k
      by (auto simp: operation_for_def Let_def reportable_def split: if_splits option.splits)
  qed
qed

lemma put_source_fields [simp]:
  "sk_sequence (put_source key x s) = sk_sequence s" "sk_events (put_source key x s) = sk_events s"
  by (simp_all add: put_source_def)

lemma operationsForKind_ok:
  assumes s: "sink_ok relays s" and cfg: "config_ok cfg" "0 < now" "kind \<in> set flush_order"
    and ops: "operationsForKind cfg kind now s = (ops, s')"
  shows "sink_ok relays s' \<and> sk_sequence s' = sk_sequence s \<and> (\<forall>op \<in> set ops. operation_ok op \<and> oo_kind op = kind)"
proof -
  define P where "P acc \<longleftrightarrow> sink_ok relays (snd acc) \<and> sk_sequence (snd acc) = sk_sequence s \<and>
      (\<forall>op \<in> set (fst acc). operation_ok op \<and> oo_kind op = kind)" for acc
  have step: "P (collect_operation cfg kind now key acc)" if acc: "P acc" for key acc
  proof (cases acc)
    case (Pair ops t)
    show ?thesis
    proof (cases "map_of (sk_states t) key")
      case (Some x)
      then have "source_ok relays x" using acc Pair by (auto simp: P_def sink_ok_def all_sources_def)
      obtain op x' where o: "operation_for cfg kind (sk_controlIDs t) (sk_heartbeat t) now key x = (op, x')"
        by (metis surj_pair)
      from operation_for_ok [OF \<open>source_ok relays x\<close> cfg o] acc show ?thesis
        by (auto simp: P_def collect_operation_def Pair Some o sink_ok_def all_sources_put split: option.splits)
    qed (use acc Pair in \<open>simp add: collect_operation_def\<close>)
  qed
  have "P (operationsForKind cfg kind now s)"
    unfolding operationsForKind_def by (rule fold_inv [where P = P]) (simp add: P_def s, erule step)
  then show ?thesis by (simp add: P_def ops)
qed

section \<open>Observer reports are valid\<close>

lemma strip_direction_ok: "valid_peer kind p \<Longrightarrow> valid_peer kind (strip_direction p)"
  by (auto simp: valid_peer_def strip_direction_def valid_path_evidence_def)

lemma reported_observer_ok: "valid_observer kind ob \<Longrightarrow> valid_observer kind (reported_observer directional ob)"
  by (auto simp: valid_observer_def reported_observer_def strip_direction_ok)

lemma latest_collection_pos: 
  assumes "ops \<noteq> []" "\<And>op. op \<in> set ops \<Longrightarrow> 0 < oo_collectedAt op"
  shows "0 < latest_collection ops"
proof -
  have "t \<le> fold (\<lambda>op t. if oo_collectedAt op > t then oo_collectedAt op else t) ops t" for ops t
  proof (induction ops arbitrary: t)
    case (Cons op ops)
    then show ?case using order_trans [OF _ Cons.IH, of t "oo_collectedAt op"] by auto
  qed simp
  then show ?thesis using assms
    by (cases ops) (auto simp: latest_collection_def intro: less_le_trans)
qed

lemma report_valid:
  assumes "ops \<noteq> []" "\<And>op. op \<in> set ops \<Longrightarrow> operation_ok op \<and> oo_kind op = kind" "config_ok cfg" "0 \<le> sk_sequence s"
  shows "valid_report (next_report cfg ops s)"
proof -
  have k: "oo_kind (hd ops) = kind" "kind \<in> set flush_order"
    using assms(2) [of "hd ops"] assms(1) by (auto simp: operation_ok_def)
  have "0 < latest_collection ops" using assms(1,2) by (intro latest_collection_pos) (auto simp: operation_ok_def)
  moreover have "valid_observer kind (oo_observer op)" if "op \<in> set ops" for op
    using assms(2) [OF that] by (auto simp: operation_ok_def)
  ultimately show ?thesis using assms(1,3,4) k
    by (auto simp: valid_report_def next_report_def reportFor_def config_ok_def flush_order_def intro!: reported_observer_ok)
qed

section \<open>Relay reports are valid\<close>

definition relay_operation_ok :: "relay_operation \<Rightarrow> bool" where
  "relay_operation_ok op \<longleftrightarrow>
     0 < lo_collectedAt op \<and> lo_sessions op \<noteq> [] \<and> (\<forall>ob \<in> set (lo_sessions op). valid_relay_session ob)"

lemma relay_observation_ok:
  assumes "changedRelaySessions previous current fallback = Inr obs" "ob \<in> set obs" "relay_snapshot_ok current"
    and "trim_space (ni_stableNodeID relay) \<noteq> []"
  shows "valid_relay_session (ob\<lparr>rs_relay := relay\<rparr>)"
proof -
  obtain s where s: "s \<in> set (rn_sessions current)" "rs_vni ob = rz_vni s" "rs_sessionID ob = rz_sessionID s"
      "rs_source ob = relayObservationClient (rz_source s)" "rs_target ob = relayObservationClient (rz_target s)"
      "rs_sourceToTargetBytes ob = uint (rq_bytesSent (rz_source s))"
      "rs_targetToSourceBytes ob = uint (rq_bytesSent (rz_target s))"
      "0 \<le> rs_sourceToTargetDelta ob" "0 \<le> rs_targetToSourceDelta ob"
      "0 < rs_sourceToTargetDelta ob + rs_targetToSourceDelta ob" "1 \<le> rs_sampleDurationMS ob"
      "rs_lastActive ob = rn_collectedAt current"
    using changedRelaySessions_exact [OF assms(1,2)] by metis
  have "relay_session_ok s" "rq_sessionClientID (rz_source s) \<noteq> rq_sessionClientID (rz_target s)" "0 < rn_collectedAt current"
    using assms(3) s(1) by (auto simp: relay_snapshot_ok_def)
  then show ?thesis using s(2-) assms(4)
    by (auto simp: valid_relay_session_def relay_session_ok_def relay_client_ok_def valid_relay_client_def
        relayObservationClient_def)
qed

lemma relay_reported_ok: "source_ok relays x \<Longrightarrow> source_ok relays (relay_reported snap x)"
  by (simp add: source_ok_def known_refs_def relay_reported_def)

lemma relay_operation_for_ok:
  assumes x: "source_ok relays x" and op: "relay_operation_for cfg key x = (op, x')"
  shows "source_ok relays x' \<and> (\<forall>p. op = Some p \<longrightarrow> relay_operation_ok p)"
proof (cases "relay_reportable x")
  case True
  then have latest: "ss_hasLatest x" "snapshot_ok relays (ss_latest x)" "relays" "relay_snapshot_ok (ss_relayLatest x)"
    using x by (auto simp: relay_reportable_def source_ok_def)
  show ?thesis
  proof (cases "changedRelaySessions (ss_relayBaseline x) (ss_relayLatest x) (kc_sampleInterval cfg)")
    case (Inr obs)
    have "valid_relay_session (ob\<lparr>rs_relay := sp_observer (ss_latest x)\<rparr>)" if "ob \<in> set obs" for ob
      using latest by (intro relay_observation_ok [OF Inr that]) (auto simp: snapshot_ok_def)
    then show ?thesis using x op True Inr latest(4)
      by (cases obs) (auto simp: relay_operation_for_def relay_operation_ok_def relay_snapshot_ok_def relay_reported_ok)
  qed (use x op True in \<open>auto simp: relay_operation_for_def relay_reported_ok\<close>)
qed (use x op in \<open>auto simp: relay_operation_for_def\<close>)

lemma relayOperations_ok:
  assumes s: "sink_ok relays s" and ops: "relayOperations cfg s = (ops, s')"
  shows "sink_ok relays s' \<and> sk_sequence s' = sk_sequence s \<and> (\<forall>op \<in> set ops. relay_operation_ok op)"
proof -
  define P where "P acc \<longleftrightarrow> sink_ok relays (snd acc) \<and> sk_sequence (snd acc) = sk_sequence s \<and>
      (\<forall>op \<in> set (fst acc). relay_operation_ok op)" for acc
  have step: "P (collect_relay_operation cfg key acc)" if acc: "P acc" for key acc
  proof (cases acc)
    case (Pair ops t)
    show ?thesis
    proof (cases "map_of (sk_states t) key")
      case (Some x)
      then have "source_ok relays x" using acc Pair by (auto simp: P_def sink_ok_def all_sources_def)
      obtain op x' where o: "relay_operation_for cfg key x = (op, x')" by (metis surj_pair)
      from relay_operation_for_ok [OF \<open>source_ok relays x\<close> o] acc show ?thesis
        by (auto simp: P_def collect_relay_operation_def Pair Some o sink_ok_def all_sources_put split: option.splits)
    qed (use acc Pair in \<open>simp add: collect_relay_operation_def\<close>)
  qed
  have "P (relayOperations cfg s)"
    unfolding relayOperations_def by (rule fold_inv [where P = P]) (simp add: P_def s, erule step)
  then show ?thesis by (simp add: P_def ops)
qed

lemma relay_report_valid:
  "relay_operation_ok op \<Longrightarrow> config_ok cfg \<Longrightarrow> 1 \<le> sequence \<Longrightarrow> valid_report (relayReport cfg sequence op)"
  by (simp add: relay_operation_ok_def valid_report_def relayReport_def config_ok_def)

section \<open>Answers keep the sources in order\<close>

lemma update_source_fields [simp]:
  "sk_sequence (update_source key f s) = sk_sequence s" "sk_events (update_source key f s) = sk_events s"
  by (simp_all add: update_source_def split: option.splits)

lemma next_sequence_ok [simp]: "sink_ok relays s \<Longrightarrow> sink_ok relays (next_sequence s)"
  by (simp add: sink_ok_def all_sources_def)

lemma update_source_ok:
  "sink_ok relays s \<Longrightarrow> (\<And>x. source_ok relays x \<Longrightarrow> source_ok relays (f x)) \<Longrightarrow> sink_ok relays (update_source key f s)"
  by (auto simp: sink_ok_def intro: all_sources_update)

lemma given_up_ok: "source_ok relays x \<Longrightarrow> source_ok relays (given_up op err x)"
  by (cases "ss_withdrawals x") (auto simp: source_ok_def known_refs_def given_up_def)

lemma oversized_ok: "source_ok relays x \<Longrightarrow> source_ok relays (x\<lparr>ss_oversized := b\<rparr>)"
  by (simp add: source_ok_def known_refs_def)

lemma rejectOversized_ok: "sink_ok relays s \<Longrightarrow> sink_ok relays (rejectOversized op s)"
  unfolding rejectOversized_def by (erule update_source_ok) (intro given_up_ok oversized_ok)

lemma rejectOperation_ok: "sink_ok relays s \<Longrightarrow> sink_ok relays (rejectOperation op status s)"
  unfolding rejectOperation_def by (erule update_source_ok) (intro given_up_ok)

lemma uncertain_hello_ok: "sink_ok relays s \<Longrightarrow> reference_ok (oo_reference op) \<Longrightarrow> sink_ok relays (uncertain_hello op s)"
  by (auto simp: uncertain_hello_def source_ok_def known_refs_def dest!: subsetD [OF set_appendObserverReference]
      intro!: update_source_ok)

lemma uncertain_hello_sequence [simp]: "sk_sequence (uncertain_hello op s) = sk_sequence s"
  by (simp add: uncertain_hello_def)

lemma uncertain_hellos_ok:
  "sink_ok relays s \<Longrightarrow> (\<And>op. op \<in> set ops \<Longrightarrow> reference_ok (oo_reference op)) \<Longrightarrow>
     sink_ok relays (fold uncertain_hello ops s) \<and> sk_sequence (fold uncertain_hello ops s) = sk_sequence s"
  by (induction ops arbitrary: s) (auto simp: uncertain_hello_ok)

lemma reported_ok: "source_ok relays x \<Longrightarrow> source_ok relays (reported snap now x)"
  by (simp add: source_ok_def known_refs_def reported_def)

lemma resetRelayBaseline_ok: "source_ok relays x \<Longrightarrow> source_ok relays (resetRelayBaseline x)"
  by (erule source_ok_refs) (auto simp: known_refs_def resetRelayBaseline_def split: if_splits)

lemma applied_operation_ok:
  assumes x: "source_ok relays x" and op: "operation_ok op"
  shows "source_ok relays (applied_operation op now x)"
proof -
  have r: "reference_ok (oo_reference op)" using op by (simp add: operation_ok_def)
  have hello: "source_ok relays (x\<lparr>ss_serverRef := Some (oo_reference op),
      ss_uncertainRefs := removeObserverReference (ss_uncertainRefs x) (oo_reference op), ss_needsHello := False\<rparr>)"
    using x r by (auto simp: source_ok_def known_refs_def dest!: subsetD [OF set_removeObserverReference])
  have inventory: "source_ok relays (x\<lparr>ss_serverRef := map_option (\<lambda>r. r\<lparr>rf_generation := rf_generation (oo_reference op)\<rparr>) (ss_serverRef x)\<rparr>)"
    using x r by (auto simp: source_ok_def known_refs_def reference_ok_def)
  have withdrawal: "source_ok relays (x\<lparr>ss_withdrawals := tl (ss_withdrawals x)\<rparr>)"
    using x by (cases "ss_withdrawals x") (auto simp: source_ok_def known_refs_def)
  have heartbeat: "source_ok relays (x\<lparr>ss_lastReportAt := now\<rparr>)"
    using x by (simp add: source_ok_def known_refs_def)
  show ?thesis
    by (simp add: applied_operation_def x hello inventory withdrawal heartbeat reported_ok resetRelayBaseline_ok
        split: report_kind.split)
qed

lemma applied_operations_ok:
  "sink_ok relays s \<Longrightarrow> (\<And>op. op \<in> set ops \<Longrightarrow> operation_ok op) \<Longrightarrow>
     sink_ok relays (fold (\<lambda>op. applyOperation op now) ops s) \<and>
     sk_sequence (fold (\<lambda>op. applyOperation op now) ops s) = sk_sequence s"
proof (induction ops arbitrary: s)
  case (Cons op ops)
  have "sink_ok relays (applyOperation op now s)"
    unfolding applyOperation_def using Cons.prems by (auto intro: update_source_ok applied_operation_ok)
  then show ?case using Cons.IH [of "applyOperation op now s"] Cons.prems by (simp add: applyOperation_def)
qed simp

lemma acceptReceipt_ok: "sink_ok relays s \<Longrightarrow> sink_ok relays (acceptReceipt receipt s)"
  "sk_sequence (acceptReceipt receipt s) = sk_sequence s"
  by (simp_all add: acceptReceipt_def sink_ok_def all_sources_def Let_def)

lemma transport_ok [simp]: "sink_ok relays (s\<lparr>sk_transport := tr\<rparr>) = sink_ok relays s"
  by (simp add: sink_ok_def all_sources_def)

lemma accepted_batch_ok:
  assumes "sink_ok relays s" "\<And>op. op \<in> set ops \<Longrightarrow> operation_ok op"
  shows "sink_ok relays (accepted_batch ops receipt now report s) \<and>
    sk_sequence (accepted_batch ops receipt now report s) = sk_sequence s"
  using applied_operations_ok [OF acceptReceipt_ok(1) [OF assms(1), of receipt], of ops now] assms(2)
  by (simp add: accepted_batch_def Let_def acceptReceipt_ok(2))

lemma disconnected_ok: "source_ok relays x \<Longrightarrow> source_ok relays (disconnected x)"
  by (erule source_ok_refs) (auto simp: known_refs_def disconnected_def Let_def split: if_splits)

lemma markDisconnected_ok:
  "sink_ok relays s \<Longrightarrow> sink_ok relays (markDisconnected s) \<and> sk_sequence (markDisconnected s) = sk_sequence s"
  by (auto simp: markDisconnected_def sink_ok_def all_sources_def disconnected_ok)

lemma finish_fields [simp]: "sk_states (finish r e s) = sk_states s" "sk_sequence (finish r e s) = sk_sequence s"
  "sk_events (finish r e s) = sk_events s"
  by (simp_all add: finish_def)

lemma finalized_ok:
  "sink_ok relays s \<Longrightarrow> sink_ok relays (finalizeUnreportedWithdrawals s) \<and>
     sk_sequence (finalizeUnreportedWithdrawals s) = sk_sequence s"
  unfolding finalizeUnreportedWithdrawals_def
  by (rule fold_inv [where P = "\<lambda>t. sink_ok relays t \<and> sk_sequence t = sk_sequence s"])
     (auto simp: finalize_source_def sink_ok_def all_sources_def Let_def split: if_splits)

lemma handleEvent_fields [simp]: "sk_sequence (handleEvent e s) = sk_sequence s" "sk_events (handleEvent e s) = sk_events s"
  by (cases "(e, s)" rule: handleEvent.cases; simp add: sampled_def Let_def)+

lemma drained_ok:
  assumes "sink_ok relays s"
  shows "sink_ok relays (drainPendingEvents s) \<and> sk_sequence (drainPendingEvents s) = sk_sequence s"
proof -
  have "sink_ok relays (fold handleEvent es t) \<and> sk_sequence (fold handleEvent es t) = sk_sequence t"
    if "list_all (event_ok relays) es" "sink_ok relays t" for es t
    using that by (induction es arbitrary: t) (auto simp: sink_ok_def handleEvent_states)
  from this [of "sk_events s" "s\<lparr>sk_events := []\<rparr>"] show ?thesis
    using assms unfolding drainPendingEvents_def by (simp add: sink_ok_def all_sources_def)
qed

section \<open>Flushes against a logged reporter\<close>

type_synonym answer = "send_error + report_receipt"

text \<open>A reporter whose world also keeps every report with its answer.\<close>

definition logged :: "'w reporter \<Rightarrow> ('w \<times> (report_envelope \<times> answer) list) reporter" where
  "logged env =
     \<lparr>rp_capabilities = (\<lambda>(w, trace). let (c, w') = rp_capabilities env w in (c, w', trace)),
      rp_send = (\<lambda>r (w, trace). let (a, w') = rp_send env r w in (a, w', trace @ [(r, a)]))\<rparr>"

definition trace_ok :: "int \<Rightarrow> int \<Rightarrow> (report_envelope \<times> answer) list \<Rightarrow> bool" where
  "trace_ok start latest trace \<longleftrightarrow> start \<le> latest \<and>
     (\<forall>(r, a) \<in> set trace. valid_report r \<and> start < re_sequence r \<and> re_sequence r \<le> latest) \<and>
     sorted_wrt (<) (map (\<lambda>(r, a). re_sequence r) trace)"

definition contract ::
  "bool \<Rightarrow> int \<Rightarrow> sink_config \<Rightarrow> observer_operation list \<Rightarrow> sink_state \<Rightarrow> 'w \<times> (report_envelope \<times> answer) list \<Rightarrow> bool" where
  "contract relays start cfg ops s wl \<longleftrightarrow>
     config_ok cfg \<and> sink_ok relays s \<and> (\<exists>kind. \<forall>op \<in> set ops. operation_ok op \<and> oo_kind op = kind) \<and>
     trace_ok start (sk_sequence s) (snd wl)"

definition relay_contract ::
  "bool \<Rightarrow> int \<Rightarrow> sink_config \<Rightarrow> relay_operation list \<Rightarrow> sink_state \<Rightarrow> 'w \<times> (report_envelope \<times> answer) list \<Rightarrow> bool" where
  "relay_contract relays start cfg ops s wl \<longleftrightarrow>
     config_ok cfg \<and> sink_ok relays s \<and> (\<forall>op \<in> set ops. relay_operation_ok op) \<and> trace_ok start (sk_sequence s) (snd wl)"

lemma trace_ok_grow:
  "trace_ok start latest trace \<Longrightarrow> valid_report r \<Longrightarrow> re_sequence r = latest + 1 \<Longrightarrow>
     trace_ok start (latest + 1) (trace @ [(r, a)])"
  by (fastforce simp: trace_ok_def sorted_wrt_append)

lemma trace_ok_later: "trace_ok start latest trace \<Longrightarrow> latest \<le> latest' \<Longrightarrow> trace_ok start latest' trace"
  by (fastforce simp: trace_ok_def)

lemma next_report_sequence [simp]: "re_sequence (next_report cfg ops s) = sk_sequence s + 1"
  by (simp add: next_report_def reportFor_def)

lemma logged_send:
  "rp_send (logged env) r wl = (a, wl') \<Longrightarrow> snd wl' = snd wl @ [(r, a)]"
  by (auto simp: logged_def split: prod.splits)

lemma logged_capabilities: "rp_capabilities (logged env) wl = (c, wl') \<Longrightarrow> snd wl' = snd wl"
  by (auto simp: logged_def split: prod.splits)

text \<open>A report sent: the sequence number is used and the trace grows by a valid report.\<close>

lemma contract_sent:
  assumes I: "contract relays start cfg (ops @ rest) s wl" and ops: "ops \<noteq> []"
    and send: "rp_send (logged env) (next_report cfg ops s) wl = (a, wl')"
  shows "contract relays start cfg (ops @ rest) (next_sequence s) wl'"
proof -
  have "valid_report (next_report cfg ops s)"
    using I ops by (auto simp: contract_def sink_ok_def intro: report_valid)
  then show ?thesis using I logged_send [OF send] by (auto simp: contract_def intro: trace_ok_grow)
qed

lemma contract_fewer: "contract relays start cfg (ops @ rest) s wl \<Longrightarrow> contract relays start cfg rest s wl"
  "contract relays start cfg ops s wl \<Longrightarrow> contract relays start cfg [] s wl"
  by (auto simp: contract_def)

lemma contract_change:
  "contract relays start cfg ops s wl \<Longrightarrow> sink_ok relays s' \<and> sk_sequence s' = sk_sequence s \<Longrightarrow>
     contract relays start cfg ops s' wl"
  by (simp add: contract_def)

lemma contract_operations: "contract relays start cfg (ops @ rest) s wl \<Longrightarrow> op \<in> set ops \<Longrightarrow> operation_ok op"
  by (auto simp: contract_def)

lemma rejected_fields [simp]:
  "sk_sequence (rejectOversized op s) = sk_sequence s" "sk_sequence (rejectOperation op status s) = sk_sequence s"
  by (simp_all add: rejectOversized_def rejectOperation_def)

lemma contract_sink: "contract relays start cfg ops s wl \<Longrightarrow> sink_ok relays s"
  by (simp add: contract_def)

lemma relay_contract_used:
  "relay_contract relays start cfg (op # rest) s wl \<Longrightarrow> relay_contract relays start cfg rest (next_sequence s) wl"
  by (auto simp: relay_contract_def intro: trace_ok_later)

lemma relay_contract_sent:
  assumes "relay_contract relays start cfg (op # rest) s wl"
    and "rp_send (logged env) (relayReport cfg (sk_sequence s + 1) op) wl = (a, wl')"
  shows "relay_contract relays start cfg rest (next_sequence s) wl'"
proof -
  have "valid_report (relayReport cfg (sk_sequence s + 1) op)"
    using assms(1) by (intro relay_report_valid) (auto simp: relay_contract_def sink_ok_def)
  then show ?thesis using assms(1) logged_send [OF assms(2)]
    by (auto simp: relay_contract_def relayReport_def intro: trace_ok_grow)
qed

lemma relay_done_ok: "sink_ok relays s \<Longrightarrow> sink_ok relays (relay_done op s)"
  unfolding relay_done_def by (erule update_source_ok) (rule relay_reported_ok)

lemma relay_accepted_ok: "sink_ok relays s \<Longrightarrow> sink_ok relays (relay_accepted op receipt s)"
  unfolding relay_accepted_def
  by (intro update_source_ok relay_done_ok acceptReceipt_ok(1)) (auto simp: source_ok_def known_refs_def)

lemma relay_changed_fields [simp]:
  "sk_sequence (relay_done op s) = sk_sequence s" "sk_sequence (relay_accepted op receipt s) = sk_sequence s"
  by (simp_all add: relay_done_def relay_accepted_def acceptReceipt_ok)

lemma relay_contract_change:
  "relay_contract relays start cfg ops s wl \<Longrightarrow> sink_ok relays s' \<Longrightarrow> sk_sequence s' = sk_sequence s \<Longrightarrow>
     relay_contract relays start cfg ops s' wl"
  by (simp add: relay_contract_def)

lemma relay_contract_sink: "relay_contract relays start cfg ops s wl \<Longrightarrow> sink_ok relays s"
  by (simp add: relay_contract_def)

lemma relay_contract_forget: "relay_contract relays start cfg ops s wl \<Longrightarrow> contract relays start cfg [] s wl"
  by (simp add: contract_def relay_contract_def)

interpretation contract: flushed cfg "logged env" "contract relays start cfg" "relay_contract relays start cfg"
    "\<lambda>t. 0 < t" "list_all (event_ok relays)"
  for cfg and env :: "'w reporter" and relays start
proof (unfold_locales, goal_cases)
  case (1 ops s w)
  then show ?case by (simp add: contract_def config_ok_def)
next
  case (2 ops s w)
  then show ?case by (rule contract_fewer(2))
next
  case (3 ops rest s w e w')
  then have "ops \<noteq> []" by auto
  then show ?case using contract_sent 3 by blast
next
  case (4 op rest s w status w')
  from contract_sent [of relays start cfg "[op]" rest s w] 4 have c: "contract relays start cfg ([op] @ rest) (next_sequence s) w'"
    by simp
  show ?case
    using contract_change [OF contract_fewer(1) [OF c]] rejectOperation_ok [OF contract_sink [OF c]] by simp
next
  case (5 ops rest s w e w')
  have c: "contract relays start cfg (ops @ rest) (next_sequence s) w'" by (rule contract_sent [OF 5(1-3)])
  have "reference_ok (oo_reference op)" if "op \<in> set ops" for op
    using contract_operations [OF c that] by (simp add: operation_ok_def)
  then show ?case
    using uncertain_hellos_ok [OF contract_sink [OF c]] by (blast intro: contract_change [OF contract_fewer(2) [OF c]])
next
  case (6 ops rest s w receipt w')
  then show ?case using contract_fewer(2) contract_sent by blast
next
  case (7 ops rest s w receipt w' now)
  have c: "contract relays start cfg (ops @ rest) (next_sequence s) w'" by (rule contract_sent [OF 7(1-3)])
  show ?case
    using accepted_batch_ok [OF contract_sink [OF c] contract_operations [OF c]]
    by (blast intro: contract_change [OF contract_fewer(1) [OF c]])
next
  case (8 op rest s w)
  then have c: "contract relays start cfg rest s w" using contract_fewer(1) [of relays start cfg "[op]" rest s w] by simp
  show ?case using contract_change [OF c] rejectOversized_ok [OF contract_sink [OF c]] by simp
next
  case (9 ops s w)
  then show ?case by (rule relay_contract_forget)
next
  case (10 op rest s w)
  note c = relay_contract_used [OF 10(1)]
  show ?case using relay_contract_change [OF c relay_done_ok [OF relay_contract_sink [OF c]]] by simp
next
  case (11 op rest s w e w')
  note c = relay_contract_sent [OF 11(1,3)]
  show ?case using relay_contract_change [OF c relay_done_ok [OF relay_contract_sink [OF c]]] relay_contract_forget [OF c] by simp
next
  case (12 op rest s w receipt w')
  note c = relay_contract_sent [OF 12(1,3)]
  show ?case using relay_contract_change [OF c relay_accepted_ok [OF relay_contract_sink [OF c]]] relay_contract_forget [OF c] by simp
next
  case (13 s w now kind ops s')
  then have "config_ok cfg" "sink_ok relays s" by (simp_all add: contract_def)
  from operationsForKind_ok [OF this(2,1) 13(2-4)] 13(1) show ?case by (auto simp: contract_def)
next
  case (14 s w ops s')
  from relayOperations_ok [OF contract_sink [OF 14(1)] 14(2)] 14(1) show ?case
    by (auto simp: contract_def relay_contract_def)
next
  case (15 s w)
  from finalized_ok [OF contract_sink [OF 15]] show ?case by (rule contract_change [OF 15])
next
  case (16 s w)
  from drained_ok [OF contract_sink [OF 16]] show ?case by (rule contract_change [OF 16])
next
  case (17 s w es)
  then show ?case by (simp add: contract_def sink_ok_def all_sources_def)
next
  case (18 s w)
  from markDisconnected_ok [OF contract_sink [OF 18]] show ?case by (rule contract_change [OF 18])
next
  case (19 s w tr)
  then show ?case by (simp add: contract_def)
next
  case (20 s w c w')
  then show ?case using logged_capabilities [OF 20(2)] by (simp add: contract_def)
qed

text \<open>C6: With a usable configuration and events that hold validated samples of this era, every report of a flush,
  whatever the reporter answers, is accepted by the server's \<open>Validate\<close>, and its sequence number is larger than that of
  every report before it. For relay samples (\<open>relays\<close>) the observer must have a stable id and a session two different
  clients, which the sink does not check.\<close>

theorem sink_reports_valid:
  assumes "config_ok cfg" "sink_ok relays s" "0 < now" "0 < later" "list_all (event_ok relays) arrived"
    and "flush cfg (logged env) jitter now later arrived (s, w, []) = (err, s', w', trace)"
  shows "sink_ok relays s' \<and> (\<forall>(r, a) \<in> set trace. ValidateReport r = None) \<and>
    sorted_wrt (<) (map (\<lambda>(r, a). re_sequence r) trace) \<and>
    (\<forall>(r, a) \<in> set trace. sk_sequence s < re_sequence r \<and> re_sequence r \<le> sk_sequence s')"
proof -
  have "contract relays (sk_sequence s) cfg [] s (w, [])" using assms by (simp add: contract_def trace_ok_def)
  from contract.flush_keeps [OF this assms(3-6)] show ?thesis
    by (auto simp: contract_def trace_ok_def ValidateReport_None)
qed

text \<open>A reporter that accepts everything, and a sink with one registered source.\<close>

definition sx_reporter :: "nat reporter" where
  "sx_reporter =
     \<lparr>rp_capabilities = (\<lambda>n. (Inr CurrentServerCapabilities, n)),
      rp_send = (\<lambda>r n. (Inr \<lparr>rr_accepted = True, rr_resyncRequired = False, rr_controlStableNodeIDs = [],
        rr_heartbeatIntervalMS = 60000\<rparr>, Suc n))\<rparr>"

definition sx_sink :: sink_state where
  "sx_sink = (new_sink sx_config)\<lparr>sk_registrations := [(''a'', 0)], sk_nextRegistration := 1, sk_started := True, sk_running := True\<rparr>"

definition sx_flush :: "time \<Rightarrow> sink_event list \<Rightarrow> sink_state \<Rightarrow>
    send_error option \<times> sink_state \<times> nat \<times> (report_envelope \<times> answer) list" where
  "sx_flush now arrived s = flush sx_config (logged sx_reporter) (1 / 2) now now arrived (s, 0, [])"

lemma sx_config_ok: "config_ok sx_config"
  by (simp add: config_ok_def show_int_def sx_config_def normalize_config_def defaultMaxBatchObservers_def Let_def)

lemma sx_sink_ok: "sink_ok relays sx_sink"
  by (simp add: sink_ok_def sx_sink_def new_sink_def all_sources_def)

theorem sink_reports_valid_witness:
  "\<exists>s' err r a. sx_flush 10 [SourceResult ''a'' 0 (Inr (sx_snapshot 5 3))] sx_sink = (err, s', 1, [(r, a)]) \<and>
     re_kind r = ReportObserverHello \<and> ValidateReport r = None \<and> re_sequence r = 1"
proof -
  define f where "f = sx_flush 10 [SourceResult ''a'' 0 (Inr (sx_snapshot 5 3))] sx_sink"
  have k: "map (\<lambda>(r, a). (re_kind r, re_sequence r)) (snd (snd (snd f))) = [(ReportObserverHello, 1)]" "fst (snd (snd f)) = 1"
    unfolding f_def by code_simp+
  then obtain err s' r a where f: "f = (err, s', 1, [(r, a)])" "re_kind r = ReportObserverHello" "re_sequence r = 1"
    by (cases f) auto
  have "snapshot_ok False (sx_snapshot 5 3)" using sx_snapshot_ok [of 3 5] by (simp add: snapshot_ok_def sx_snapshot_def)
  then show ?thesis
    using sink_reports_valid [OF sx_config_ok sx_sink_ok, of 10 10 False "[SourceResult ''a'' 0 (Inr (sx_snapshot 5 3))]"
        sx_reporter "1 / 2" 0 err s' 1 "[(r, a)]"] f
    by (auto simp: f_def sx_flush_def)
qed

end
