(* ===== verification/Sink_Tracking.thy ===== *)
theory Sink_Tracking
  imports Sink_Contract
begin

text \<open>
  The sink does not forget observers: one that the server may have been told of is still referenced by
  a source (as its observer, as one of a hello whose answer was lost, or as a withdrawal to be sent), or
  its withdrawal was sent and answered.
\<close>

section \<open>What the server may know\<close>

definition report_keys :: "report_envelope \<Rightarrow> string set" where
  "report_keys r = (\<lambda>ob. IdentityKey (or_observer ob)) ` set (re_observers r)"

text \<open>A hello without a refusal may have arrived; a withdrawal counts once it was accepted or refused for itself.\<close>

definition learns :: "report_envelope \<times> answer \<Rightarrow> string set \<Rightarrow> string set" where
  "learns entry K =
     (let (r, a) = entry
      in if re_kind r = ReportObserverHello \<and> (case a of Inl e \<Rightarrow> \<not> refusal e | Inr receipt \<Rightarrow> rr_accepted receipt)
         then K \<union> report_keys r
         else if re_kind r = ReportObserverWithdrawal \<and>
           (case a of Inl e \<Rightarrow> refusal e \<and> length (re_observers r) = 1 | Inr receipt \<Rightarrow> rr_accepted receipt)
         then K - report_keys r
         else K)"

definition may_know :: "(report_envelope \<times> answer) list \<Rightarrow> string set" where
  "may_know trace = fold learns trace {}"

lemma may_know_snoc [simp]: "may_know (trace @ [entry]) = learns entry (may_know trace)"
  by (simp add: may_know_def)

section \<open>What the sink tracks\<close>

definition tracked_keys :: "source_state \<Rightarrow> string set" where
  "tracked_keys x = reference_key ` known_refs x"

definition tracked :: "sink_state \<Rightarrow> string set" where
  "tracked s = {k. \<exists>key x. map_of (sk_states s) key = Some x \<and> k \<in> tracked_keys x}"

definition latest_key :: "source_state \<Rightarrow> string" where
  "latest_key x = IdentityKey (sp_observer (ss_latest x))"

definition source_tracks :: "source_state \<Rightarrow> bool" where
  "source_tracks x \<longleftrightarrow>
     (ss_withdrawing x \<longrightarrow> ss_serverRef x = None \<and> ss_uncertainRefs x = []) \<and>
     (\<forall>r \<in> set_option (ss_serverRef x) \<union> set (ss_uncertainRefs x). reference_key r = latest_key x)"

definition sink_tracks :: "sink_state \<Rightarrow> bool" where
  "sink_tracks s \<longleftrightarrow> wf_map (sk_states s) \<and> all_sources source_tracks s"

text \<open>An operation still fits the source it was made of.\<close>

definition current :: "observer_operation \<Rightarrow> source_state \<Rightarrow> bool" where
  "current op x \<longleftrightarrow>
     (oo_kind op = ReportObserverWithdrawal \<longrightarrow> (\<exists>ws. ss_withdrawals x = oo_reference op # ws) \<and>
        op = withdrawalOperation (oo_key op) (oo_reference op) (oo_collectedAt op)) \<and>
     (oo_kind op = ReportObserverHello \<longrightarrow> \<not> ss_withdrawing x \<and> reference_key (oo_reference op) = latest_key x)"

definition pending_ok :: "observer_operation list \<Rightarrow> sink_state \<Rightarrow> bool" where
  "pending_ok ops s \<longleftrightarrow>
     distinct (map oo_key ops) \<and> (\<exists>kind. \<forall>op \<in> set ops. oo_kind op = kind) \<and>
     (\<forall>op \<in> set ops. IdentityKey (or_observer (oo_observer op)) = reference_key (oo_reference op) \<and>
        (\<exists>x. map_of (sk_states s) (oo_key op) = Some x \<and> current op x))"

lemma tracked_at: "map_of (sk_states s) key = Some x \<Longrightarrow> tracked_keys x \<subseteq> tracked s"
  by (auto simp: tracked_def)

lemma tracked_cong: "sk_states s = sk_states t \<Longrightarrow> tracked s = tracked t"
  by (simp add: tracked_def)

text \<open>Putting a source in place of another keeps what is tracked but for what the other alone did.\<close>

lemma tracked_put:
  assumes "\<And>y. map_of (sk_states s) key = Some y \<Longrightarrow> tracked_keys y - L \<subseteq> tracked_keys x"
  shows "(tracked s - L) \<union> tracked_keys x \<subseteq> tracked (put_source key x s)"
proof
  fix k assume "k \<in> (tracked s - L) \<union> tracked_keys x"
  then consider "k \<in> tracked_keys x" | key' y where "map_of (sk_states s) key' = Some y" "k \<in> tracked_keys y" "k \<notin> L"
    by (auto simp: tracked_def)
  then show "k \<in> tracked (put_source key x s)"
  proof cases
    case 1
    then show ?thesis by (auto simp: tracked_def put_source_def)
  next
    case 2
    then show ?thesis using assms by (cases "key' = key") (auto simp: tracked_def put_source_def)
  qed
qed

lemma sink_tracks_put: "sink_tracks s \<Longrightarrow> source_tracks x \<Longrightarrow> sink_tracks (put_source key x s)"
  by (simp add: sink_tracks_def all_sources_put) (simp add: put_source_def)

lemma pending_put:
  "pending_ok ops s \<Longrightarrow> key \<notin> set (map oo_key ops) \<Longrightarrow> pending_ok ops (put_source key x s)"
  by (auto simp: pending_ok_def put_source_def)

lemma pending_fewer: "pending_ok (ops @ rest) s \<Longrightarrow> pending_ok rest s" "pending_ok ops s \<Longrightarrow> pending_ok [] s"
  by (auto simp: pending_ok_def)

section \<open>References are kept\<close>

lemma append_keys: "reference_key ` set (appendObserverReference rs r) = insert (reference_key r) (reference_key ` set rs)"
  by (auto simp: appendObserverReference_def list_ex_iff image_iff) metis

lemma fold_append_keys:
  "reference_key ` set (fold (\<lambda>r ws. appendObserverReference ws r) rs ws) = reference_key ` (set rs \<union> set ws)"
  by (induction rs arbitrary: ws) (auto simp: append_keys image_Un)

lemma source_sampled_refs:
  assumes "source_tracks x" "\<not> ss_withdrawing x"
  shows "tracked_keys (source_sampled snap x) = tracked_keys x" "source_tracks (source_sampled snap x)"
proof -
  define k where "k = IdentityKey (sp_observer snap)"
  define ws where "ws = (case ss_serverRef x of
      Some r \<Rightarrow> if reference_key r \<noteq> k then appendObserverReference (ss_withdrawals x) r else ss_withdrawals x
    | None \<Rightarrow> ss_withdrawals x)"
  define ref where "ref = (case ss_serverRef x of
      Some r \<Rightarrow> if reference_key r \<noteq> k then None else Some r | None \<Rightarrow> None)"
  obtain us' ws' where r: "retireObserverReferences (ss_uncertainRefs x) ws k = (us', ws')" by (metis surj_pair)
  have u: "set us' = {r \<in> set (ss_uncertainRefs x). reference_key r = k}"
    using r by (auto simp: retireObserverReferences_def)
  have w: "reference_key ` set ws' =
      reference_key ` ({r \<in> set (ss_uncertainRefs x). reference_key r \<noteq> k} \<union> set ws)"
    using fold_append_keys [of "filter (\<lambda>r. reference_key r \<noteq> k) (ss_uncertainRefs x)" ws] r
    by (simp add: retireObserverReferences_def)
  have ws: "reference_key ` set ws \<union> reference_key ` set_option ref =
      reference_key ` set (ss_withdrawals x) \<union> reference_key ` set_option (ss_serverRef x)"
    by (auto simp: ws_def ref_def append_keys split: option.splits)
  have f: "ss_serverRef (source_sampled snap x) = ref" "ss_uncertainRefs (source_sampled snap x) = us'"
    "ss_withdrawals (source_sampled snap x) = ws'" "ss_withdrawing (source_sampled snap x) = ss_withdrawing x"
    "latest_key (source_sampled snap x) = k"
    using r by (auto simp: source_sampled_def Let_def ws_def k_def ref_def latest_key_def split: option.splits prod.splits)
  have "tracked_keys (source_sampled snap x) =
      reference_key ` set_option ref \<union> reference_key ` set us' \<union> reference_key ` set ws'"
    by (simp add: tracked_keys_def known_refs_def f image_Un)
  also have "\<dots> = tracked_keys x"
    unfolding w u using ws by (auto simp: tracked_keys_def known_refs_def image_Un)
  finally show "tracked_keys (source_sampled snap x) = tracked_keys x" .
  show "source_tracks (source_sampled snap x)"
    using assms u by (auto simp: source_tracks_def f ref_def split: option.splits if_splits)
qed

lemma source_withdrawing_tracks:
  "tracked_keys (source_withdrawing x) = tracked_keys x" "source_tracks (source_withdrawing x)"
  by (auto simp: tracked_keys_def known_refs_def source_withdrawing_def queueAllObserverReferencesForWithdrawal_def
      source_tracks_def Let_def fold_append_keys append_keys image_Un split: option.splits)

section \<open>Events, disconnections and finished sources\<close>

text \<open>A change of a source that touches neither its references nor its observer.\<close>

definition same_refs :: "source_state \<Rightarrow> source_state \<Rightarrow> bool" where
  "same_refs x y \<longleftrightarrow>
     ss_serverRef y = ss_serverRef x \<and> ss_uncertainRefs y = ss_uncertainRefs x \<and> ss_withdrawals y = ss_withdrawals x \<and>
     ss_withdrawing y = ss_withdrawing x \<and> ss_latest y = ss_latest x"

lemma same_refs_keys: "same_refs x y \<Longrightarrow> tracked_keys y = tracked_keys x"
  by (simp add: same_refs_def tracked_keys_def known_refs_def)

lemma same_refs_tracks: "same_refs x y \<Longrightarrow> source_tracks y = source_tracks x"
  by (simp add: same_refs_def source_tracks_def latest_key_def)

lemma same_refs_current: "same_refs x y \<Longrightarrow> current op y = current op x"
  by (simp add: same_refs_def current_def latest_key_def)

lemma same_refs_cases [simp]:
  "same_refs x (source_failed x)" "same_refs x (relay_failed x)" "same_refs x (relay_sampled snap x)"
  "same_refs x (disconnected x)" "same_refs x (relay_reported rsnap x)" "same_refs x (reported s now x)"
  "same_refs x (resetRelayBaseline x)" "same_refs x (x\<lparr>ss_relayHasBaseline := b\<rparr>)" "same_refs x (x\<lparr>ss_lastReportAt := now\<rparr>)"
  "same_refs x x" "same_refs x (x\<lparr>ss_baseline := s, ss_hasBaseline := b, ss_dirty := c\<rparr>)"
  by (simp_all add: same_refs_def source_failed_def relay_failed_def relay_sampled_def disconnected_def relay_reported_def
      reported_def resetRelayBaseline_def Let_def)

lemma new_source_tracks: "source_tracks (new_source r b)" "tracked_keys (new_source r b) = {}"
  by (simp_all add: new_source_def source_tracks_def tracked_keys_def known_refs_def)

lemma source_or_new_tracks:
  assumes "sink_tracks s"
  shows "source_tracks (source_or_new key r b s)"
    and "map_of (sk_states s) key = Some y \<Longrightarrow> tracked_keys y \<subseteq> tracked_keys (source_or_new key r b s)"
  using assms new_source_tracks
  by (auto simp: source_or_new_def sink_tracks_def all_sources_def split: option.splits)

lemma put_tracks:
  assumes "sink_tracks s" "source_tracks x" "tracked_keys (source_or_new key r b s) \<subseteq> tracked_keys x"
  shows "sink_tracks (put_source key x s) \<and> tracked s \<subseteq> tracked (put_source key x s)"
proof -
  have "(tracked s - {}) \<union> tracked_keys x \<subseteq> tracked (put_source key x s)"
    using source_or_new_tracks(2) [OF assms(1)] assms(3) by (intro tracked_put) blast
  then show ?thesis using sink_tracks_put [OF assms(1,2)] by auto
qed

lemma handleEvent_tracks:
  assumes s: "sink_tracks s"
  shows "sink_tracks (handleEvent e s) \<and> tracked s \<subseteq> tracked (handleEvent e s)"
proof -
  have sampled: "sink_tracks (sampled key r f s) \<and> tracked s \<subseteq> tracked (sampled key r f s)"
    if f: "\<And>x. source_tracks x \<Longrightarrow> \<not> ss_withdrawing x \<Longrightarrow> source_tracks (f x) \<and> tracked_keys x \<subseteq> tracked_keys (f x)"
    for key r f
  proof (cases "map_of (sk_registrations s) key = Some r")
    case True
    define x where "x = source_or_new key r True s"
    have "source_tracks x" unfolding x_def by (rule source_or_new_tracks [OF s])
    then show ?thesis using True f [of x] put_tracks [OF s, of "if ss_withdrawing x then x else f x" key r True]
      by (simp add: sampled_def Let_def x_def [symmetric] split: if_splits)
  qed (use s in \<open>simp add: sampled_def\<close>)
  have same: "source_tracks y \<and> tracked_keys x \<subseteq> tracked_keys y" if "same_refs x y" "source_tracks x" for x y
    using same_refs_keys same_refs_tracks that by blast
  show ?thesis
  proof (cases e)
    case (SourceResult key r res)
    show ?thesis
    proof (cases res)
      case (Inl err)
      then show ?thesis by (auto simp: SourceResult intro!: sampled same)
    next
      case (Inr snap)
      then show ?thesis by (simp add: SourceResult sampled source_sampled_refs)
    qed
  next
    case (RelayResult key r res)
    then show ?thesis by (cases res) (auto intro!: sampled same)
  next
    case (WithdrawRequest key r)
    then show ?thesis using put_tracks [OF s, of "source_withdrawing (source_or_new key r False s)" key r False]
      by (simp add: source_withdrawing_tracks)
  qed
qed

lemma drained_tracks:
  assumes "sink_tracks s"
  shows "sink_tracks (drainPendingEvents s) \<and> tracked s \<subseteq> tracked (drainPendingEvents s)"
proof -
  have "sink_tracks (fold handleEvent es t) \<and> tracked t \<subseteq> tracked (fold handleEvent es t)" if "sink_tracks t" for es t
    using that
  proof (induction es arbitrary: t)
    case (Cons e es)
    then show ?case using handleEvent_tracks [OF Cons.prems, of e] Cons.IH [of "handleEvent e t"] by auto
  qed simp
  from this [of "s\<lparr>sk_events := []\<rparr>" "sk_events s"] show ?thesis
    using assms by (simp add: drainPendingEvents_def sink_tracks_def all_sources_def tracked_def)
qed

lemma markDisconnected_tracks:
  assumes "sink_tracks s"
  shows "sink_tracks (markDisconnected s) \<and> tracked s \<subseteq> tracked (markDisconnected s)"
proof -
  have k: "tracked_keys (disconnected x) = tracked_keys x" and t: "source_tracks (disconnected x) = source_tracks x" for x
    by (simp_all add: same_refs_keys same_refs_tracks)
  show ?thesis using assms
    by (auto simp: markDisconnected_def sink_tracks_def all_sources_def t tracked_def; metis k)
qed

lemma finalize_source_tracks:
  assumes "sink_tracks t" "map_of (sk_states t) key = Some x \<or> map_of (sk_states t) key = None"
  shows "sink_tracks (finalize_source (key, x) t) \<and> tracked t \<subseteq> tracked (finalize_source (key, x) t)"
proof (cases "ss_withdrawing x \<and> ss_withdrawals x = []")
  case True
  then have "source_tracks x \<Longrightarrow> tracked_keys x = {}"
    by (auto simp: tracked_keys_def known_refs_def source_tracks_def)
  then have "map_of (sk_states t) key = Some y \<Longrightarrow> tracked_keys y = {}" for y
    using assms by (auto simp: sink_tracks_def all_sources_def)
  then have "tracked t \<subseteq> tracked (t\<lparr>sk_states := mdel key (sk_states t)\<rparr>)"
    by (fastforce simp: tracked_def)
  then show ?thesis using assms(1) True
    by (auto simp: finalize_source_def sink_tracks_def all_sources_def tracked_def)
qed (use assms in \<open>simp add: finalize_source_def\<close>)

lemma finalized_tracks:
  assumes s: "sink_tracks s"
  shows "sink_tracks (finalizeUnreportedWithdrawals s) \<and> tracked s \<subseteq> tracked (finalizeUnreportedWithdrawals s)"
proof -
  define P where "P t \<longleftrightarrow> sink_tracks t \<and> tracked s \<subseteq> tracked t \<and>
      (\<forall>key. map_of (sk_states t) key = map_of (sk_states s) key \<or> map_of (sk_states t) key = None)" for t
  have "P (finalizeUnreportedWithdrawals s)"
    unfolding finalizeUnreportedWithdrawals_def
  proof (rule fold_inv [where P = P])
    show "P s" using s by (simp add: P_def)
    fix entry t assume e: "entry \<in> set (sk_states s)" and P: "P t"
    obtain key x where entry: "entry = (key, x)" by fastforce
    have "map_of (sk_states s) key = Some x"
      using e s by (simp add: entry sink_tracks_def map_of_wf)
    then have "map_of (sk_states t) key = Some x \<or> map_of (sk_states t) key = None" using P by (metis P_def)
    with P finalize_source_tracks [of t key x] have
      "sink_tracks (finalize_source entry t) \<and> tracked s \<subseteq> tracked (finalize_source entry t)"
      by (auto simp: P_def entry)
    moreover have "map_of (sk_states (finalize_source entry t)) k = map_of (sk_states s) k \<or>
        map_of (sk_states (finalize_source entry t)) k = None" for k
      using P by (auto simp: P_def entry finalize_source_def)
    ultimately show "P (finalize_source entry t)" by (simp add: P_def)
  qed
  then show ?thesis by (simp add: P_def)
qed

section \<open>Operations fit their sources\<close>

lemma operation_for_current:
  assumes x: "source_tracks x" and op: "operation_for cfg kind ids heartbeat now key x = (op, x')"
  shows "same_refs x x' \<and> (\<forall>p. op = Some p \<longrightarrow> oo_key p = key \<and> oo_kind p = kind \<and> current p x' \<and>
    IdentityKey (or_observer (oo_observer p)) = reference_key (oo_reference p))"
proof -
  have "same_refs x x'" "\<And>p. op = Some p \<Longrightarrow> x' = x"
    using op by (auto simp: operation_for_def Let_def split: report_kind.splits list.splits if_splits option.splits)
  moreover have "oo_key p = key \<and> oo_kind p = kind \<and> current p x \<and>
      IdentityKey (or_observer (oo_observer p)) = reference_key (oo_reference p)" if "op = Some p" for p
    using op that
    by (auto simp: operation_for_def Let_def snapshotOperation_def withdrawalOperation_def current_def reference_key_def
        latest_key_def reportable_def split: report_kind.splits list.splits if_splits option.splits)
  ultimately show ?thesis by blast
qed

definition pending_kind :: "report_kind \<Rightarrow> observer_operation list \<Rightarrow> sink_state \<Rightarrow> bool" where
  "pending_kind kind ops s \<longleftrightarrow> pending_ok ops s \<and> (\<forall>op \<in> set ops. oo_kind op = kind)"

lemma pending_put_same:
  assumes "pending_ok ops s" "map_of (sk_states s) key = Some x" "same_refs x y"
  shows "pending_ok ops (put_source key y s)"
  using assms same_refs_current [OF assms(3)] by (fastforce simp: pending_ok_def put_source_def)

lemma put_same_tracks:
  assumes "sink_tracks s" "map_of (sk_states s) key = Some x" "same_refs x y"
  shows "sink_tracks (put_source key y s) \<and> tracked (put_source key y s) \<supseteq> tracked s"
  using put_tracks [OF assms(1), of y key 0 True] assms same_refs_keys [OF assms(3)] same_refs_tracks [OF assms(3)]
  by (simp add: source_or_new_def sink_tracks_def all_sources_def)

lemma reported_refs:
  "tracked_keys (reported snap now x) = tracked_keys x" "source_tracks (reported snap now x) = source_tracks x"
  "tracked_keys (x\<lparr>ss_lastReportAt := now\<rparr>) = tracked_keys x" "source_tracks (x\<lparr>ss_lastReportAt := now\<rparr>) = source_tracks x"
  "tracked_keys (resetRelayBaseline x) = tracked_keys x" "source_tracks (resetRelayBaseline x) = source_tracks x"
  by (rule same_refs_keys same_refs_tracks, simp)+

lemma put_source_keys: "map_of (sk_states (put_source key y s)) k \<noteq> None \<longleftrightarrow> k = key \<or> map_of (sk_states s) k \<noteq> None"
  by (simp add: put_source_def)

lemma collected_tracks:
  assumes "distinct keys" "sink_tracks s" "pending_kind kind ops s" "set (map oo_key ops) \<inter> set keys = {}"
    and "fold (collect_operation cfg kind now) keys (ops, s) = (ops', s')"
  shows "sink_tracks s' \<and> tracked s \<subseteq> tracked s' \<and> pending_kind kind ops' s'"
  using assms
proof (induction keys arbitrary: ops s)
  case (Cons key keys)
  show ?case
  proof (cases "map_of (sk_states s) key")
    case None
    then show ?thesis using Cons.IH [of s ops] Cons.prems by (simp add: collect_operation_def)
  next
    case (Some x)
    then have x: "source_tracks x" using Cons.prems(2) by (simp add: sink_tracks_def all_sources_def)
    obtain op y where o: "operation_for cfg kind (sk_controlIDs s) (sk_heartbeat s) now key x = (op, y)" by (metis surj_pair)
    note c = operation_for_current [OF x o]
    have t: "sink_tracks (put_source key y s) \<and> tracked (put_source key y s) \<supseteq> tracked s"
      using put_same_tracks Cons.prems(2) Some c by blast
    have p: "pending_kind kind ops (put_source key y s)"
      using pending_put_same [OF _ Some] Cons.prems(3) c by (simp add: pending_kind_def)
    show ?thesis
    proof (cases op)
      case None
      then show ?thesis using Cons.IH [of "put_source key y s" ops] Cons.prems t p Some o
        by (auto simp: collect_operation_def)
    next
      case op: (Some op')
      have "pending_kind kind (ops @ [op']) (put_source key y s)"
        using p c op Cons.prems(4) by (auto simp: pending_kind_def pending_ok_def put_source_def)
      then show ?thesis using Cons.IH [of "put_source key y s" "ops @ [op']"] Cons.prems t Some o op c
        by (auto simp: collect_operation_def)
    qed
  qed
qed simp

lemma operationsForKind_tracks:
  assumes "sink_tracks s" "operationsForKind cfg kind now s = (ops, s')"
  shows "sink_tracks s' \<and> tracked s \<subseteq> tracked s' \<and> pending_ok ops s'"
proof -
  have "distinct (sort (mkeys (sk_states s)))" using assms(1) by (simp add: sink_tracks_def wf_map_def mkeys_def)
  from collected_tracks [OF this assms(1), of kind "[]"] assms(2) show ?thesis
    by (simp add: operationsForKind_def pending_kind_def pending_ok_def)
qed

lemma relayOperations_tracks:
  assumes s: "sink_tracks s" and ops: "relayOperations cfg s = (ops, s')"
  shows "sink_tracks s' \<and> tracked s \<subseteq> tracked s'"
proof -
  define P where "P acc \<longleftrightarrow> sink_tracks (snd acc) \<and> tracked s \<subseteq> tracked (snd acc)" for acc :: "relay_operation list \<times> sink_state"
  have step: "P (collect_relay_operation cfg key acc)" if acc: "P acc" for key acc
  proof (cases acc)
    case (Pair ops t)
    show ?thesis
    proof (cases "map_of (sk_states t) key")
      case (Some x)
      obtain op y where o: "relay_operation_for cfg key x = (op, y)" by (metis surj_pair)
      then have "same_refs x y" by (auto simp: relay_operation_for_def split: if_splits sum.splits list.splits)
      with put_same_tracks [of t key x y] acc Some have "P (ops', put_source key y t)" for ops'
        by (auto simp: P_def Pair)
      then show ?thesis by (simp add: collect_relay_operation_def Pair Some o split: option.split)
    qed (use acc Pair in \<open>simp add: collect_relay_operation_def\<close>)
  qed
  have "P (relayOperations cfg s)"
    unfolding relayOperations_def by (rule fold_inv [where P = P]) (simp add: P_def s, erule step)
  then show ?thesis by (simp add: P_def ops)
qed

section \<open>Answers\<close>

text \<open>What one operation adds to and removes from the tracked keys.\<close>

definition op_key :: "observer_operation \<Rightarrow> string" where
  "op_key op = reference_key (oo_reference op)"

definition gained :: "observer_operation list \<Rightarrow> string set" where
  "gained ops = op_key ` {op \<in> set ops. oo_kind op = ReportObserverHello}"

definition lost :: "observer_operation list \<Rightarrow> string set" where
  "lost ops = op_key ` {op \<in> set ops. oo_kind op = ReportObserverWithdrawal}"

lemma moved_simps [simp]:
  "gained [] = {}" "lost [] = {}"
  "gained (op # ops) = (if oo_kind op = ReportObserverHello then {op_key op} else {}) \<union> gained ops"
  "lost (op # ops) = (if oo_kind op = ReportObserverWithdrawal then {op_key op} else {}) \<union> lost ops"
  by (auto simp: gained_def lost_def)

definition steps_to :: "string set \<Rightarrow> string set \<Rightarrow> sink_state \<Rightarrow> sink_state \<Rightarrow> bool" where
  "steps_to G L s t \<longleftrightarrow> sink_tracks t \<and> (tracked s - L) \<union> G \<subseteq> tracked t"

lemma steps_to_trans: "steps_to G L s t \<Longrightarrow> steps_to G' {} t u \<Longrightarrow> steps_to (G \<union> G') L s u"
  "steps_to {} L s t \<Longrightarrow> steps_to {} L' t u \<Longrightarrow> steps_to {} (L \<union> L') s u"
  by (auto simp: steps_to_def)

lemma update_steps:
  assumes s: "sink_tracks s" and x: "map_of (sk_states s) key = Some x"
    and f: "source_tracks (f x)" "(tracked_keys x - L) \<union> G \<subseteq> tracked_keys (f x)"
  shows "steps_to G L s (update_source key f s)"
proof -
  have "(tracked s - L) \<union> tracked_keys (f x) \<subseteq> tracked (put_source key (f x) s)"
    using x f(2) by (intro tracked_put) auto
  then show ?thesis using f sink_tracks_put [OF s f(1), of key] x by (auto simp: steps_to_def update_source_def)
qed

lemma pending_update:
  "pending_ok (op # ops) s \<Longrightarrow> pending_ok ops (update_source (oo_key op) f s)"
  using pending_put [of ops s "oo_key op"] pending_fewer(1) [of "[op]" ops s]
  by (auto simp: update_source_def pending_ok_def put_source_def split: option.splits)

lemma tl_keys: "ss_withdrawals x = r # ws \<Longrightarrow> tracked_keys x - {reference_key r} \<subseteq> tracked_keys (x\<lparr>ss_withdrawals := ws\<rparr>)"
  by (auto simp: tracked_keys_def known_refs_def)

lemma applied_tracks:
  assumes x: "source_tracks x" and c: "current op x"
  shows "source_tracks (applied_operation op now x)"
    and "(tracked_keys x - lost [op]) \<union> gained [op] \<subseteq> tracked_keys (applied_operation op now x)"
proof -
  have other: "applied_operation op now x = x" if "oo_kind op \<notin> set flush_order"
    using that by (cases "oo_kind op") (simp_all add: applied_operation_def flush_order_def)
  consider "oo_kind op = ReportObserverWithdrawal" | "oo_kind op = ReportObserverHello" | "oo_kind op = ReportInventoryUpdate"
    | "oo_kind op = ReportTrafficSample" | "oo_kind op = ReportObserverHeartbeat" | "oo_kind op \<notin> set flush_order"
    unfolding flush_order_def list.set by blast
  then have "source_tracks (applied_operation op now x) \<and>
      (tracked_keys x - lost [op]) \<union> gained [op] \<subseteq> tracked_keys (applied_operation op now x)"
  proof cases
    case 1
    then obtain ws where "ss_withdrawals x = oo_reference op # ws" using c by (auto simp: current_def)
    then show ?thesis using 1 x tl_keys [of x "oo_reference op" ws]
      by (auto simp: applied_operation_def op_key_def source_tracks_def latest_key_def)
  next
    case 2
    define y where "y = x\<lparr>ss_serverRef := Some (oo_reference op),
      ss_uncertainRefs := removeObserverReference (ss_uncertainRefs x) (oo_reference op), ss_needsHello := False\<rparr>"
    have k: "reference_key (oo_reference op) = latest_key x" "\<not> ss_withdrawing x" using c 2 by (auto simp: current_def)
    have refs: "r \<in> set_option (ss_serverRef x) \<union> set (ss_uncertainRefs x) \<Longrightarrow> reference_key r = latest_key x" for r
      using x by (auto simp: source_tracks_def)
    have "source_tracks y"
      using k x by (auto simp: y_def source_tracks_def latest_key_def removeObserverReference_def)
    moreover have "tracked_keys x \<union> gained [op] \<subseteq> tracked_keys y"
      using k refs 2 by (auto simp: y_def tracked_keys_def known_refs_def op_key_def)
    moreover have "applied_operation op now x = resetRelayBaseline (reported (oo_snapshot op) now y)"
      using 2 by (simp add: applied_operation_def y_def)
    ultimately show ?thesis using 2 by (simp add: reported_refs)
  next
    case 3
    define y where "y = x\<lparr>ss_serverRef := map_option (\<lambda>r. r\<lparr>rf_generation := rf_generation (oo_reference op)\<rparr>) (ss_serverRef x)\<rparr>"
    have "source_tracks y" "tracked_keys y = tracked_keys x"
      using x by (auto simp: y_def source_tracks_def latest_key_def reference_key_def tracked_keys_def known_refs_def
          image_Un image_image split: option.splits)
    moreover have "applied_operation op now x = reported (oo_snapshot op) now y"
      using 3 by (simp add: applied_operation_def y_def)
    ultimately show ?thesis using 3 by (simp add: reported_refs)
  next
    case 6
    then show ?thesis using x other by (auto simp: flush_order_def)
  qed (use x in \<open>simp_all add: applied_operation_def reported_refs\<close>)
  then show "source_tracks (applied_operation op now x)"
    "(tracked_keys x - lost [op]) \<union> gained [op] \<subseteq> tracked_keys (applied_operation op now x)" by auto
qed

lemma given_up_tracks:
  assumes x: "source_tracks x" and c: "current op x"
  shows "source_tracks (given_up op err x) \<and> tracked_keys x - lost [op] \<subseteq> tracked_keys (given_up op err x)"
proof (cases "oo_kind op = ReportObserverWithdrawal")
  case True
  then obtain ws where w: "ss_withdrawals x = oo_reference op # ws" using c by (auto simp: current_def)
  have "tracked_keys (given_up op err x) = tracked_keys (x\<lparr>ss_withdrawals := ws\<rparr>)"
    using True w by (simp add: given_up_def tracked_keys_def known_refs_def)
  then show ?thesis using True x tl_keys [OF w] by (auto simp: given_up_def op_key_def source_tracks_def latest_key_def)
qed (use x in \<open>auto simp: given_up_def source_tracks_def latest_key_def tracked_keys_def known_refs_def\<close>)

lemma pending_at:
  assumes "pending_ok (op # ops) s"
  obtains x where "map_of (sk_states s) (oo_key op) = Some x" "current op x"
  using assms by (auto simp: pending_ok_def)

lemma rejectOperation_tracks:
  assumes "sink_tracks s" "pending_ok (op # ops) s"
  shows "steps_to {} (lost [op]) s (rejectOperation op status s)" "pending_ok ops (rejectOperation op status s)"
proof -
  obtain x where x: "map_of (sk_states s) (oo_key op) = Some x" "current op x" by (rule pending_at [OF assms(2)])
  then have "source_tracks x" using assms(1) by (simp add: sink_tracks_def all_sources_def)
  note g = given_up_tracks [OF this x(2), of "WithdrawalRejected status"]
  show "steps_to {} (lost [op]) s (rejectOperation op status s)"
    unfolding rejectOperation_def using g by (intro update_steps [OF assms(1) x(1)]) auto
  show "pending_ok ops (rejectOperation op status s)"
    unfolding rejectOperation_def by (rule pending_update [OF assms(2)])
qed

lemma rejectOversized_tracks:
  assumes "sink_tracks s" "pending_ok (op # ops) s"
  shows "steps_to {} (lost [op]) s (rejectOversized op s)" "pending_ok ops (rejectOversized op s)"
proof -
  obtain x where x: "map_of (sk_states s) (oo_key op) = Some x" "current op x" by (rule pending_at [OF assms(2)])
  then have "source_tracks (x\<lparr>ss_oversized := True\<rparr>)" "current op (x\<lparr>ss_oversized := True\<rparr>)"
    "tracked_keys (x\<lparr>ss_oversized := True\<rparr>) = tracked_keys x"
    using assms(1)
    by (auto simp: sink_tracks_def all_sources_def source_tracks_def current_def latest_key_def tracked_keys_def known_refs_def)
  with given_up_tracks [OF this(1,2), of WithdrawalOversized] show "steps_to {} (lost [op]) s (rejectOversized op s)"
    unfolding rejectOversized_def by (intro update_steps [OF assms(1) x(1)]) auto
  show "pending_ok ops (rejectOversized op s)"
    unfolding rejectOversized_def by (rule pending_update [OF assms(2)])
qed

text \<open>A batch of operations, each on its own source.\<close>

lemma fold_steps:
  assumes step: "\<And>op ops s. sink_tracks s \<Longrightarrow> pending_ok (op # ops) s \<Longrightarrow>
      steps_to (G [op]) (L [op]) s (f op s) \<and> pending_ok ops (f op s)"
    and G: "G [] = {}" "\<And>op ops. G (op # ops) = G [op] \<union> G ops"
    and L: "L [] = {}" "\<And>op ops. L (op # ops) = L [op] \<union> L ops"
    and once: "\<And>ops s. pending_ok ops s \<Longrightarrow> G ops = {} \<or> L ops = {}"
  shows "sink_tracks s \<Longrightarrow> pending_ok (ops @ rest) s \<Longrightarrow>
    steps_to (G ops) (L ops) s (fold f ops s) \<and> pending_ok rest (fold f ops s)"
proof (induction ops arbitrary: s)
  case (Cons op ops)
  from step [of s op "ops @ rest"] Cons.prems
  have s: "steps_to (G [op]) (L [op]) s (f op s)" "pending_ok (ops @ rest) (f op s)" by auto
  then have "sink_tracks (f op s)" by (simp add: steps_to_def)
  from Cons.IH [OF this s(2)] have t: "steps_to (G ops) (L ops) (f op s) (fold f ops (f op s))"
    "pending_ok rest (fold f ops (f op s))" by auto
  have "pending_ok (op # ops) s" using Cons.prems(2) by (auto simp: pending_ok_def)
  then have "G (op # ops) = {} \<or> L (op # ops) = {}" by (rule once)
  then have "steps_to (G (op # ops)) (L (op # ops)) s (fold f ops (f op s))"
    using s(1) t(1) unfolding steps_to_def G(2) [of op ops] L(2) [of op ops] by blast
  then show ?case using t(2) by simp
qed (simp add: G L steps_to_def)

lemma moved_once: "pending_ok ops s \<Longrightarrow> gained ops = {} \<or> lost ops = {}"
  by (auto simp: pending_ok_def gained_def lost_def)

lemma applied_batch_tracks:
  "sink_tracks s \<Longrightarrow> pending_ok (ops @ rest) s \<Longrightarrow>
     steps_to (gained ops) (lost ops) s (fold (\<lambda>op. applyOperation op now) ops s) \<and>
     pending_ok rest (fold (\<lambda>op. applyOperation op now) ops s)"
proof (rule fold_steps [where G = gained and L = lost and f = "\<lambda>op. applyOperation op now"])
  fix op ops s assume s: "sink_tracks s" "pending_ok (op # ops) s"
  obtain x where x: "map_of (sk_states s) (oo_key op) = Some x" "current op x" by (rule pending_at [OF s(2)])
  then have "source_tracks x" using s(1) by (simp add: sink_tracks_def all_sources_def)
  note a = applied_tracks [OF this x(2), of now]
  show "steps_to (gained [op]) (lost [op]) s (applyOperation op now s) \<and> pending_ok ops (applyOperation op now s)"
    unfolding applyOperation_def
    using update_steps [OF s(1) x(1), of "applied_operation op now", OF a] pending_update [OF s(2)] by blast
qed (auto simp: moved_once)

lemma uncertain_batch_tracks:
  "sink_tracks s \<Longrightarrow> pending_ok ops s \<Longrightarrow> steps_to (gained ops) {} s (fold uncertain_hello ops s)"
proof -
  have "sink_tracks s \<Longrightarrow> pending_ok (ops @ []) s \<Longrightarrow>
      steps_to (gained ops) ((\<lambda>_. {}) ops) s (fold uncertain_hello ops s) \<and> pending_ok [] (fold uncertain_hello ops s)"
  proof (rule fold_steps)
    fix op ops s assume s: "sink_tracks s" "pending_ok (op # ops) s"
    obtain x where x: "map_of (sk_states s) (oo_key op) = Some x" "current op x" by (rule pending_at [OF s(2)])
    then have t: "source_tracks x" using s(1) by (simp add: sink_tracks_def all_sources_def)
    let ?f = "\<lambda>x. x\<lparr>ss_uncertainRefs := appendObserverReference (ss_uncertainRefs x) (oo_reference op)\<rparr>"
    show "steps_to (gained [op]) {} s (uncertain_hello op s) \<and> pending_ok ops (uncertain_hello op s)"
    proof (cases "oo_kind op = ReportObserverHello")
      case True
      have u: "set (ss_uncertainRefs (?f x)) \<subseteq> insert (oo_reference op) (set (ss_uncertainRefs x))"
        using set_appendObserverReference by simp
      have "source_tracks (?f x)" using t x(2) True u by (auto simp: source_tracks_def current_def latest_key_def)
      moreover have "(tracked_keys x - {}) \<union> gained [op] \<subseteq> tracked_keys (?f x)"
        by (auto simp: tracked_keys_def known_refs_def append_keys op_key_def image_Un)
      ultimately show ?thesis
        using True update_steps [OF s(1) x(1), of ?f] pending_update [OF s(2), of ?f] by (simp add: uncertain_hello_def)
    next
      case False
      then show ?thesis using s pending_fewer(1) [of "[op]" ops s] by (simp add: uncertain_hello_def steps_to_def)
    qed
  qed auto
  then show "sink_tracks s \<Longrightarrow> pending_ok ops s \<Longrightarrow> ?thesis" by simp
qed

section \<open>Flushes\<close>

text \<open>
  Observers whose withdrawal does not fit into a request even alone: the sink gives such a withdrawal up
  without sending it (\<open>rejectOversized\<close>).
\<close>

definition unsendable :: "sink_config \<Rightarrow> string set" where
  "unsendable cfg = {reference_key r | r key now n d.
     \<not> fits cfg (reportFor cfg [withdrawalOperation key r now] n ''00000000-0000-4000-8000-000000000000'' d)}"

definition remembers ::
  "sink_config \<Rightarrow> observer_operation list \<Rightarrow> sink_state \<Rightarrow> 'w \<times> (report_envelope \<times> answer) list \<Rightarrow> bool" where
  "remembers cfg ops s wt \<longleftrightarrow>
     0 < kc_maxBatchObservers cfg \<and> sink_tracks s \<and> pending_ok ops s \<and> may_know (snd wt) \<subseteq> tracked s \<union> unsendable cfg"

lemma unsendable_lost:
  assumes "pending_ok (op # rest) s"
    and "\<not> fits cfg (reportFor cfg [op] n ''00000000-0000-4000-8000-000000000000'' d)"
  shows "lost [op] \<subseteq> unsendable cfg"
proof -
  have "op = withdrawalOperation (oo_key op) (oo_reference op) (oo_collectedAt op)"
    if "oo_kind op = ReportObserverWithdrawal"
    using assms(1) that by (auto simp: pending_ok_def current_def)
  then show ?thesis using assms(2) by (auto simp: unsendable_def op_key_def) metis
qed

lemma next_report_kind: "ops \<noteq> [] \<Longrightarrow> pending_ok (ops @ rest) s \<Longrightarrow> op \<in> set ops \<Longrightarrow> re_kind (next_report cfg ops s) = oo_kind op"
  by (cases ops) (auto simp: next_report_def reportFor_def pending_ok_def)

lemma next_report_keys: "pending_ok (ops @ rest) s \<Longrightarrow> report_keys (next_report cfg ops s) = op_key ` set ops"
  by (auto simp: report_keys_def next_report_def reportFor_def reported_observer_def pending_ok_def op_key_def image_iff)

lemma next_report_length [simp]: "length (re_observers (next_report cfg ops s)) = length ops"
  by (simp add: next_report_def reportFor_def)

text \<open>What the server may have learned from the answer to a batch.\<close>

lemma learns_batch:
  assumes "ops \<noteq> []" "pending_ok (ops @ rest) s"
  shows "learns (next_report cfg ops s, Inl e) K =
      (if \<not> refusal e then K \<union> gained ops else if length ops = 1 then K - lost ops else K)"
    and "learns (next_report cfg ops s, Inr receipt) K = (if rr_accepted receipt then (K - lost ops) \<union> gained ops else K)"
proof -
  have k: "re_kind (next_report cfg ops s) = ReportObserverHello \<Longrightarrow> gained ops = op_key ` set ops \<and> lost ops = {}"
    "re_kind (next_report cfg ops s) = ReportObserverWithdrawal \<Longrightarrow> lost ops = op_key ` set ops \<and> gained ops = {}"
    "re_kind (next_report cfg ops s) \<noteq> ReportObserverHello \<Longrightarrow> gained ops = {}"
    "re_kind (next_report cfg ops s) \<noteq> ReportObserverWithdrawal \<Longrightarrow> lost ops = {}"
    using next_report_kind [OF assms, of _ cfg] by (auto simp: gained_def lost_def)
  show "learns (next_report cfg ops s, Inl e) K =
      (if \<not> refusal e then K \<union> gained ops else if length ops = 1 then K - lost ops else K)"
    using k next_report_keys [OF assms(2), of cfg] by (auto simp: learns_def Let_def)
  show "learns (next_report cfg ops s, Inr receipt) K = (if rr_accepted receipt then (K - lost ops) \<union> gained ops else K)"
    using k next_report_keys [OF assms(2), of cfg] by (auto simp: learns_def Let_def)
qed

lemma learns_relay: "learns (relayReport cfg n op, a) K = K"
  by (simp add: learns_def relayReport_def)

lemma remembers_change:
  "remembers cfg ops s wt \<Longrightarrow> sink_tracks s' \<and> tracked s \<subseteq> tracked s' \<Longrightarrow> pending_ok ops' s' \<Longrightarrow> snd wt' = snd wt \<Longrightarrow>
     remembers cfg ops' s' wt'"
  by (auto simp: remembers_def)

lemma next_sequence_tracks [simp]: "tracked (next_sequence s) = tracked s" "sink_tracks (next_sequence s) = sink_tracks s"
  "pending_ok ops (next_sequence s) = pending_ok ops s"
  by (simp_all add: tracked_def sink_tracks_def all_sources_def pending_ok_def)

lemma pending_Nil [simp]: "pending_ok [] s"
  by (simp add: pending_ok_def)

lemma remembers_steps:
  assumes "remembers cfg ops s wt" "steps_to G L (next_sequence s) s'" "pending_ok ops' s'"
    and "snd wt' = snd wt @ [entry]" "learns entry (may_know (snd wt)) \<subseteq> (may_know (snd wt) - L) \<union> G"
  shows "remembers cfg ops' s' wt'"
  using assms by (auto simp: remembers_def steps_to_def)

lemma update_same_tracks:
  assumes s: "sink_tracks s" and f: "\<And>x. same_refs x (f x)"
  shows "sink_tracks (update_source key f s) \<and> tracked s \<subseteq> tracked (update_source key f s)"
  using put_same_tracks [OF s, of key] f s by (auto simp: update_source_def split: option.split)

lemma acceptReceipt_states [simp]: "sk_states (acceptReceipt receipt s) = sk_states s"
  by (simp add: acceptReceipt_def Let_def)

lemma accepted_batch_tracks:
  assumes "sink_tracks s" "pending_ok (ops @ rest) s"
  shows "steps_to (gained ops) (lost ops) s (accepted_batch ops receipt now report s) \<and>
    pending_ok rest (accepted_batch ops receipt now report s)"
proof -
  let ?t = "acceptReceipt receipt s"
  have "sink_tracks ?t" "pending_ok (ops @ rest) ?t" "tracked ?t = tracked s"
    using assms by (simp_all add: sink_tracks_def all_sources_def pending_ok_def tracked_def)
  with applied_batch_tracks [OF this(1,2), of now] show ?thesis
    by (simp add: accepted_batch_def Let_def steps_to_def sink_tracks_def all_sources_def pending_ok_def tracked_def)
qed

lemma relay_done_tracks:
  "sink_tracks s \<Longrightarrow> sink_tracks (relay_done op s) \<and> tracked s \<subseteq> tracked (relay_done op s)"
  unfolding relay_done_def by (rule update_same_tracks) simp_all

lemma relay_accepted_tracks:
  assumes "sink_tracks s"
  shows "sink_tracks (relay_accepted op receipt s) \<and> tracked s \<subseteq> tracked (relay_accepted op receipt s)"
proof -
  have "sink_tracks (acceptReceipt receipt s)" "tracked (acceptReceipt receipt s) = tracked s"
    using assms by (simp_all add: sink_tracks_def all_sources_def tracked_def)
  with relay_done_tracks [OF this(1), of op]
    update_same_tracks [of "relay_done op (acceptReceipt receipt s)" "\<lambda>x. x\<lparr>ss_relayHasBaseline := True\<rparr>" "lo_key op"]
  show ?thesis by (auto simp: relay_accepted_def)
qed

definition relay_remembers ::
  "sink_config \<Rightarrow> relay_operation list \<Rightarrow> sink_state \<Rightarrow> 'w \<times> (report_envelope \<times> answer) list \<Rightarrow> bool" where
  "relay_remembers cfg ops s wt \<longleftrightarrow> remembers cfg [] s wt"

lemma relay_sent_remembers:
  assumes "relay_remembers cfg ops s wt" "rp_send (logged env) (relayReport cfg n op) wt = (a, wt')"
    and "sink_tracks s' \<and> tracked s \<subseteq> tracked s'"
  shows "remembers cfg [] s' wt'"
  using assms logged_send [OF assms(2)] by (auto simp: relay_remembers_def remembers_def learns_relay)

interpretation remembering: flushed cfg "logged env" "remembers cfg" "relay_remembers cfg" "\<lambda>t. True" "\<lambda>es. True"
  for cfg and env :: "'w reporter"
proof (unfold_locales, goal_cases)
  case (1 ops s w)
  then show ?case by (simp add: remembers_def)
next
  case (2 ops s w)
  then show ?case by (simp add: remembers_def)
next
  case (3 ops rest s w e w')
  then have p: "ops \<noteq> []" "pending_ok (ops @ rest) s" "sink_tracks s" by (auto simp: remembers_def)
  show ?case
    using learns_batch(1) [OF p(1,2), of cfg e "may_know (snd w)"] 3(2,4) p
    by (intro remembers_steps [OF 3(1), of "{}" "{}", OF _ _ logged_send [OF 3(3)]]) (auto simp: steps_to_def)
next
  case (4 op rest s w status w')
  then have p: "pending_ok ([op] @ rest) s" "sink_tracks s" by (auto simp: remembers_def)
  have r: "steps_to {} (lost [op]) (next_sequence s) (rejectOperation op status (next_sequence s))"
    "pending_ok rest (rejectOperation op status (next_sequence s))"
    using rejectOperation_tracks [of "next_sequence s" op rest status] p by simp_all
  show ?case
    using learns_batch(1) [OF _ p(1), of cfg "HTTPStatus status" "may_know (snd w)"] 4(3)
    by (intro remembers_steps [OF 4(1) r logged_send [OF 4(2)]]) auto
next
  case (5 ops rest s w e w')
  then have p: "pending_ok (ops @ rest) s" "sink_tracks s" by (auto simp: remembers_def)
  have "steps_to (gained ops) {} (next_sequence s) (fold uncertain_hello ops (next_sequence s))"
    using uncertain_batch_tracks [of "next_sequence s" ops] p by (auto simp: pending_ok_def)
  then show ?case
    using learns_batch(1) [OF 5(2) p(1), of cfg e "may_know (snd w)"] 5(4)
    by (intro remembers_steps [OF 5(1) _ _ logged_send [OF 5(3)]]) auto
next
  case (6 ops rest s w receipt w')
  then have p: "pending_ok (ops @ rest) s" "sink_tracks s" by (auto simp: remembers_def)
  show ?case
    using learns_batch(2) [OF 6(2) p(1), of cfg receipt "may_know (snd w)"] 6(4) p
    by (intro remembers_steps [OF 6(1), of "{}" "{}", OF _ _ logged_send [OF 6(3)]]) (auto simp: steps_to_def)
next
  case (7 ops rest s w receipt w' now)
  then have p: "pending_ok (ops @ rest) s" "sink_tracks s" by (auto simp: remembers_def)
  have "steps_to (gained ops) (lost ops) (next_sequence s) (accepted_batch ops receipt now (next_report cfg ops s) (next_sequence s))"
    "pending_ok rest (accepted_batch ops receipt now (next_report cfg ops s) (next_sequence s))"
    using accepted_batch_tracks [of "next_sequence s" ops rest receipt now "next_report cfg ops s"] p by simp_all
  then show ?case
    using learns_batch(2) [OF 7(2) p(1), of cfg receipt "may_know (snd w)"] 7(4)
    by (intro remembers_steps [OF 7(1) _ _ logged_send [OF 7(3)]]) auto
next
  case (8 op rest s w)
  then have p: "sink_tracks s" "pending_ok (op # rest) s" by (auto simp: remembers_def)
  from 8 rejectOversized_tracks [OF p] unsendable_lost [OF p(2) 8(2)] show ?case
    by (auto simp: remembers_def steps_to_def)
next
  case (9 ops s w)
  then show ?case by (simp add: relay_remembers_def)
next
  case (10 op rest s w)
  then show ?case using relay_done_tracks [of "next_sequence s" op] by (auto simp: relay_remembers_def remembers_def)
next
  case (11 op rest s w e w')
  then have "sink_tracks (next_sequence s)" by (simp add: relay_remembers_def remembers_def)
  with relay_done_tracks [OF this, of op] relay_sent_remembers [OF 11(1,3)] show ?case
    by (simp add: relay_remembers_def)
next
  case (12 op rest s w receipt w')
  then have "sink_tracks (next_sequence s)" by (simp add: relay_remembers_def remembers_def)
  with relay_accepted_tracks [OF this, of op receipt] relay_sent_remembers [OF 12(1,3)] show ?case
    by (simp add: relay_remembers_def)
next
  case (13 s w now kind ops s')
  then have "sink_tracks s" by (simp add: remembers_def)
  from operationsForKind_tracks [OF this 13(4)] show ?case by (auto intro: remembers_change [OF 13(1)])
next
  case (14 s w ops s')
  then have "sink_tracks s" by (simp add: remembers_def)
  from relayOperations_tracks [OF this 14(2)] show ?case
    unfolding relay_remembers_def by (auto intro: remembers_change [OF 14(1)])
next
  case (15 s w)
  then have "sink_tracks s" by (simp add: remembers_def)
  from finalized_tracks [OF this] show ?case by (rule remembers_change [OF 15]) simp_all
next
  case (16 s w)
  then have "sink_tracks s" by (simp add: remembers_def)
  from drained_tracks [OF this] show ?case by (rule remembers_change [OF 16]) simp_all
next
  case (17 s w es)
  then show ?case by (simp add: remembers_def sink_tracks_def all_sources_def tracked_def)
next
  case (18 s w)
  then have "sink_tracks s" by (simp add: remembers_def)
  from markDisconnected_tracks [OF this] show ?case by (rule remembers_change [OF 18]) simp_all
next
  case (19 s w tr)
  then show ?case by (simp add: remembers_def sink_tracks_def all_sources_def tracked_def)
next
  case (20 s w c w')
  then show ?case using logged_capabilities [OF 20(2)] by (simp add: remembers_def)
qed

section \<open>Runs\<close>

text \<open>
  What can happen to a sink: sources are registered and withdrawn, \<open>Run\<close> starts, samplers post events,
  and the loop of \<open>Run\<close> takes an event or flushes. The world and the answers are the reporter's.
\<close>

inductive sink_run ::
  "sink_config \<Rightarrow> 'w reporter \<Rightarrow> sink_state \<Rightarrow> 'w \<times> (report_envelope \<times> answer) list \<Rightarrow> bool" for cfg env where
  created: "sink_run cfg env (new_sink cfg) (w, [])"
| registered: "sink_run cfg env s wt \<Longrightarrow> Register key s = Inr (n, s') \<Longrightarrow> sink_run cfg env s' wt"
| started: "sink_run cfg env s wt \<Longrightarrow> \<not> sk_started s \<Longrightarrow> sink_run cfg env (s\<lparr>sk_started := True, sk_running := True\<rparr>) wt"
| withdrawn: "sink_run cfg env s wt \<Longrightarrow> sink_run cfg env (requestWithdrawal key n s) wt"
| posted: "sink_run cfg env s wt \<Longrightarrow> sk_running s \<Longrightarrow> sink_run cfg env (s\<lparr>sk_events := sk_events s @ [e]\<rparr>) wt"
| taken: "sink_run cfg env s wt \<Longrightarrow> sk_running s \<Longrightarrow> sk_events s = e # es \<Longrightarrow>
    sink_run cfg env (handleEvent e (s\<lparr>sk_events := es\<rparr>)) wt"
| flushed: "sink_run cfg env s wt \<Longrightarrow> sk_running s \<Longrightarrow>
    flush cfg (logged env) jitter now later arrived (s, wt) = (err, s', wt') \<Longrightarrow> sink_run cfg env s' wt'"
| stopped: "sink_run cfg env s wt \<Longrightarrow> sk_running s \<Longrightarrow> sink_run cfg env (stop_sink s) wt"

inductive_cases sink_runE: "sink_run cfg env s wt"

lemma stop_sink_states [simp]: "sk_states (stop_sink s) = sk_states s"
proof -
  have "sk_states (fold (\<lambda>(_, x) t. if ss_withdrawing x then finish (ss_registration x) (Some SinkStopped) t else t) xs t) =
      sk_states t" for xs :: "(string \<times> source_state) list" and t
    by (induction xs arbitrary: t) auto
  then show ?thesis by (simp add: stop_sink_def)
qed

lemma remembers_same_states:
  "remembers cfg [] s wt \<Longrightarrow> sk_states s' = sk_states s \<Longrightarrow> remembers cfg [] s' wt"
  by (simp add: remembers_def sink_tracks_def all_sources_def tracked_def)

lemma run_remembers:
  assumes "sink_run cfg env s wt" "0 < kc_maxBatchObservers cfg"
  shows "remembers cfg [] s wt"
  using assms
proof induction
  case (created w)
  then show ?case by (simp add: remembers_def may_know_def sink_tracks_def all_sources_def new_sink_def)
next
  case (registered s wt key n s')
  then have "sk_states s' = sk_states s" by (auto simp: Register_def Let_def split: if_splits)
  with registered show ?case by (auto intro: remembers_same_states)
next
  case (withdrawn s wt key n)
  have "sk_states (requestWithdrawal key n s) = sk_states s" by (simp add: requestWithdrawal_def)
  with withdrawn show ?case by (auto intro: remembers_same_states)
next
  case (taken s wt e es)
  then have "remembers cfg [] (s\<lparr>sk_events := es\<rparr>) wt" by (auto intro: remembers_same_states)
  then show ?case using handleEvent_tracks [of "s\<lparr>sk_events := es\<rparr>" e] by (auto simp: remembers_def)
next
  case (flushed s wt jitter now later arrived err s' wt')
  then have "remembers cfg [] s wt" by simp
  from remembering.flush_keeps [OF this TrueI TrueI TrueI, of env jitter now later arrived] flushed(3) show ?case
    by (cases wt; cases wt') auto
qed (auto intro: remembers_same_states)

lemma normalized_batches: "0 < kc_maxBatchObservers (normalize_config uuid c)"
  by (simp add: normalize_config_def Let_def defaultMaxBatchObservers_def)

lemma unsendable_none:
  "(\<And>r key now n i d. fits cfg (reportFor cfg [withdrawalOperation key r now] n i d)) \<Longrightarrow> unsendable cfg = {}"
  by (simp add: unsendable_def)


lemma refusal_code [code]:
  "refusal e = (case e of HTTPStatus status \<Rightarrow> status = 400 \<or> status = 413 | _ \<Rightarrow> False)"
  by (auto simp: refusal_def split: send_error.splits)

lemma sx_sink_run: "sink_run sx_config sx_reporter sx_sink (0, [])"
proof -
  have "Register ''a'' (new_sink sx_config) =
      Inr (0, (new_sink sx_config)\<lparr>sk_registrations := [(''a'', 0)], sk_nextRegistration := 1\<rparr>)"
    by (simp add: Register_def new_sink_def trim_space_def mput_def Let_def trim_runes.simps drop_rune.simps space_runes_def)
  from started [OF registered [OF created [of sx_config sx_reporter 0] this]] show ?thesis
    by (simp add: sx_sink_def new_sink_def)
qed


end
