(* ===== verification/Store_Time.thy ===== *)
theory Store_Time
  imports Domain_Types
begin

text \<open>
  The time stamps of the history store (\<open>formatTime\<close> and \<open>formatPathEventTime\<close> of
  \<open>internal/store/sqlite.go\<close>): an instant is written in UTC as RFC 3339 text, once with the
  zeros at the end of its fraction removed and once with nine digits. SQLite keeps these texts
  in TEXT columns and compares them byte by byte, so the order of the texts is the order the
  store's queries work with.

  Day 0 is the first of January of year 1, the day of Go's zero time. \<open>days_before\<close> counts
  the days before the year with index \<open>k\<close> (year \<open>k + 1\<close>) in the Gregorian calendar.
\<close>

section \<open>The calendar\<close>

definition day_length :: duration where
  "day_length = 24 * hour"

definition days_before :: "int \<Rightarrow> int" where
  "days_before k = 365 * k + k div 4 - k div 100 + k div 400"

definition year_index :: "int \<Rightarrow> int" where
  "year_index n = (let k = 400 * n div 146097 in if days_before (k + 1) \<le> n then k + 1 else k)"

definition leap_year :: "int \<Rightarrow> bool" where
  "leap_year y \<longleftrightarrow> y mod 4 = 0 \<and> (y mod 100 \<noteq> 0 \<or> y mod 400 = 0)"

definition month_starts :: "bool \<Rightarrow> int list" where
  "month_starts leap =
     (let l = (if leap then 1 else 0)
      in [0, 31, 59 + l, 90 + l, 120 + l, 151 + l, 181 + l, 212 + l, 243 + l, 273 + l, 304 + l, 334 + l])"

text \<open>The number of the month (from 1) that holds day \<open>d\<close> (from 0) of the year.\<close>

definition month_of :: "bool \<Rightarrow> int \<Rightarrow> nat" where
  "month_of leap d = length (filter (\<lambda>s. s \<le> d) (month_starts leap))"

definition day_of :: "bool \<Rightarrow> int \<Rightarrow> int" where
  "day_of leap d = d - month_starts leap ! (month_of leap d - 1) + 1"

section \<open>The texts\<close>

definition pad :: "nat \<Rightarrow> int \<Rightarrow> string" where
  "pad w n = (let s = show_nat (nat n) in replicate (w - length s) CHR ''0'' @ s)"

definition year_text :: "int \<Rightarrow> string" where
  "year_text y = (if y < 0 then CHR ''-'' # pad 4 (- y) else pad 4 y)"

definition date_text :: "int \<Rightarrow> string" where
  "date_text n =
     (let k = year_index n; leap = leap_year (k + 1); d = n - days_before k
      in year_text (k + 1) @ ''-'' @ pad 2 (int (month_of leap d)) @ ''-'' @ pad 2 (day_of leap d))"

definition clock_text :: "int \<Rightarrow> string" where
  "clock_text s = pad 2 (s div 3600) @ '':'' @ pad 2 (s div 60 mod 60) @ '':'' @ pad 2 (s mod 60)"

definition seconds_text :: "time \<Rightarrow> string" where
  "seconds_text t = date_text (t div day_length) @ ''T'' @ clock_text (t mod day_length div second)"

definition trim_zeros :: "string \<Rightarrow> string" where
  "trim_zeros s = rev (dropWhile (\<lambda>c. c = CHR ''0'') (rev s))"

definition fraction_text :: "int \<Rightarrow> string" where
  "fraction_text f = (if f = 0 then [] else CHR ''.'' # trim_zeros (pad 9 f))"

definition formatTime :: "time \<Rightarrow> string" where
  "formatTime t = seconds_text t @ fraction_text (t mod second) @ ''Z''"

definition formatPathEventTime :: "time \<Rightarrow> string" where
  "formatPathEventTime t = seconds_text t @ ''.'' @ pad 9 (t mod second) @ ''Z''"

text \<open>\<open>Time.Truncate\<close> rounds down to a multiple of the duration since the zero time.\<close>

definition truncate_to :: "duration \<Rightarrow> time \<Rightarrow> time" where
  "truncate_to d t = (if d \<le> 0 then t else t - t mod d)"

text \<open>The instants of the years 1 to 9999.\<close>

definition datable :: "time \<Rightarrow> bool" where
  "datable t \<longleftrightarrow> 0 \<le> t \<and> t < 3652059 * day_length"

section \<open>Reading the texts back\<close>

text \<open>
  \<open>time.Parse(time.RFC3339Nano, s)\<close> on texts in UTC, the only ones the store writes: the
  shape, the ranges of the fields, and a fraction of any length, read to nine digits. A text
  with a zone offset is outside the model.
\<close>

definition digit_value :: "char \<Rightarrow> int" where
  "digit_value c = int (of_char c) - 48"

definition is_digit :: "char \<Rightarrow> bool" where
  "is_digit c \<longleftrightarrow> c \<in> set ''0123456789''"

definition number :: "string \<Rightarrow> int option" where
  "number s = (if list_all is_digit s then Some (foldl (\<lambda>a c. 10 * a + digit_value c) 0 s) else None)"

definition read_fraction :: "string \<Rightarrow> int option" where
  "read_fraction s =
     (case s of
        [] \<Rightarrow> Some 0
      | c # ds \<Rightarrow>
          if c = CHR ''.'' \<and> ds \<noteq> [] \<and> list_all is_digit ds
          then number (take 9 (ds @ replicate 9 CHR ''0'')) else None)"

definition days_in :: "bool \<Rightarrow> int \<Rightarrow> int" where
  "days_in leap m =
     (if m = 12 then 31 else month_starts leap ! nat m - month_starts leap ! (nat m - 1))"

definition parseTime :: "string \<Rightarrow> time option" where
  "parseTime s =
     (if length s < 20 \<or> s ! 4 \<noteq> CHR ''-'' \<or> s ! 7 \<noteq> CHR ''-'' \<or> s ! 10 \<noteq> CHR ''T'' \<or>
         s ! 13 \<noteq> CHR '':'' \<or> s ! 16 \<noteq> CHR '':'' \<or> List.last s \<noteq> CHR ''Z'' then None
      else do {
        y \<leftarrow> number (take 4 s);
        mo \<leftarrow> number (take 2 (drop 5 s));
        d \<leftarrow> number (take 2 (drop 8 s));
        h \<leftarrow> number (take 2 (drop 11 s));
        mi \<leftarrow> number (take 2 (drop 14 s));
        se \<leftarrow> number (take 2 (drop 17 s));
        f \<leftarrow> read_fraction (butlast (drop 19 s));
        if mo < 1 \<or> 12 < mo \<or> d < 1 \<or> days_in (leap_year y) mo < d \<or> 23 < h \<or> 59 < mi \<or> 59 < se
        then None
        else Some ((days_before (y - 1) + month_starts (leap_year y) ! (nat mo - 1) + d - 1) * day_length +
                   (h * 3600 + mi * 60 + se) * second + f)
      })"

text \<open>
  \<open>time.Parse(time.RFC3339Nano, s)\<close> with a zone: \<open>Z\<close> or an offset \<open>+hh:mm\<close>, \<open>-hh:mm\<close>.
\<close>

definition parse_zoned :: "string \<Rightarrow> time option" where
  "parse_zoned s =
     (let n = length s; zone = drop (n - 6) s; body = take (n - 6) s
      in if n \<ge> 6 \<and> (zone ! 0 = CHR ''+'' \<or> zone ! 0 = CHR ''-'') \<and> zone ! 3 = CHR '':'' then
           (case (number (take 2 (drop 1 zone)), number (drop 4 zone), parseTime (body @ ''Z'')) of
              (Some h, Some mi, Some t) \<Rightarrow>
                if h > 24 \<or> mi > 60 then None
                else Some (if zone ! 0 = CHR ''+'' then t - (h * 3600 + mi * 60) * second
                           else t + (h * 3600 + mi * 60) * second)
            | _ \<Rightarrow> None)
         else parseTime s)"

section \<open>Fixed-width decimals\<close>

fun digits :: "nat \<Rightarrow> nat \<Rightarrow> string" where
  "digits 0 n = []"
| "digits (Suc w) n = digits w (n div 10) @ [digit_char (n mod 10)]"

lemma length_digits [simp]: "length (digits w n) = w"
  by (induction w arbitrary: n) auto

lemma digits_zero [simp]: "digits w 0 = replicate w CHR ''0''"
  by (induction w) (auto simp: digit_char_def replicate_append_same)

lemma pad_digits:
  assumes "n < 10 ^ w" and "0 < w"
  shows "pad w (int n) = digits w n"
proof -
  have "n < 10 ^ w \<Longrightarrow> 0 < w \<Longrightarrow>
      length (show_nat n) \<le> w \<and> replicate (w - length (show_nat n)) CHR ''0'' @ show_nat n = digits w n" for w n
  proof (induction w arbitrary: n)
    case (Suc w)
    show ?case
    proof (cases "n < 10")
      case True
      then show ?thesis by (subst (1 2 3) show_nat.simps) simp
    next
      case False
      then have "0 < w" using Suc.prems by (cases w) auto
      moreover have "n div 10 < 10 ^ w" using Suc.prems by (simp add: less_mult_imp_div_less mult.commute)
      ultimately show ?thesis
        using Suc.IH [of "n div 10"] False by (subst (1 2 3) show_nat.simps) (simp flip: append_assoc)
    qed
  qed simp
  from this [OF assms] show ?thesis by (simp add: pad_def Let_def)
qed

lemma digit_char_less: "a < 10 \<Longrightarrow> b < 10 \<Longrightarrow> digit_char a < digit_char b \<longleftrightarrow> a < b"
proof -
  have "\<forall>a < 10. \<forall>b < 10. digit_char a < digit_char b \<longleftrightarrow> a < b"
    by code_simp
  then show "a < 10 \<Longrightarrow> b < 10 \<Longrightarrow> digit_char a < digit_char b \<longleftrightarrow> a < b" by blast
qed

lemma less_append_same_length:
  fixes xs ys :: "'a :: order list"
  shows "length xs = length ys \<Longrightarrow> xs @ us < ys @ vs \<longleftrightarrow> xs < ys \<or> xs = ys \<and> us < vs"
  by (induction xs ys rule: list_induct2) auto

lemma div_mod_order:
  fixes m n :: nat
  shows "m div 10 < n div 10 \<or> m div 10 = n div 10 \<and> m mod 10 < n mod 10 \<longleftrightarrow> m < n"
proof -
  have "m = 10 * (m div 10) + m mod 10" "n = 10 * (n div 10) + n mod 10" "m mod 10 < 10" "n mod 10 < 10"
    by simp_all
  then show ?thesis by linarith
qed

lemma digits_order:
  "m < 10 ^ w \<Longrightarrow> n < 10 ^ w \<Longrightarrow>
   (digits w m < digits w n \<longleftrightarrow> m < n) \<and> (digits w m = digits w n \<longleftrightarrow> m = n)"
proof (induction w arbitrary: m n)
  case (Suc w)
  have *: "m div 10 < 10 ^ w" "n div 10 < 10 ^ w"
    using Suc.prems by (simp_all add: less_mult_imp_div_less mult.commute)
  have eq: "digit_char (m mod 10) = digit_char (n mod 10) \<longleftrightarrow> m mod 10 = n mod 10"
    by (auto intro: digit_char_inj)
  have "digits (Suc w) m < digits (Suc w) n \<longleftrightarrow>
      m div 10 < n div 10 \<or> m div 10 = n div 10 \<and> m mod 10 < n mod 10"
    using Suc.IH [OF *] by (simp add: less_append_same_length digit_char_less)
  also have "\<dots> \<longleftrightarrow> m < n" by (rule div_mod_order)
  finally have less: "digits (Suc w) m < digits (Suc w) n \<longleftrightarrow> m < n" .
  have "digits (Suc w) m = digits (Suc w) n \<longleftrightarrow> m div 10 = n div 10 \<and> m mod 10 = n mod 10"
    using Suc.IH [OF *] eq by simp
  also have "\<dots> \<longleftrightarrow> m = n" by (metis div_mult_mod_eq)
  finally show ?case using less by blast
qed simp

lemma pad_less:
  assumes "0 \<le> m" "m < 10 ^ w" "0 \<le> n" "n < 10 ^ w" "0 < w"
  shows "pad w m < pad w n \<longleftrightarrow> m < n" and "pad w m = pad w n \<longleftrightarrow> m = n" and "length (pad w m) = w"
proof -
  have nat: "nat m < 10 ^ w" "nat n < 10 ^ w" using assms by (simp_all add: nat_less_iff)
  have "pad w m = digits w (nat m)" "pad w n = digits w (nat n)"
    using pad_digits [OF nat(1) assms(5)] pad_digits [OF nat(2) assms(5)] assms by simp_all
  with nat assms show "pad w m < pad w n \<longleftrightarrow> m < n" "pad w m = pad w n \<longleftrightarrow> m = n" "length (pad w m) = w"
    by (simp_all add: digits_order nat_less_eq_zless eq_nat_nat_iff) linarith?
qed

section \<open>The calendar's order\<close>

lemma days_before_bounds:
  "400 * days_before k \<le> 146097 * k + 396" "146097 * k - 699 \<le> 400 * days_before k"
proof -
  define a b c where abc: "a = k div 4" "b = k div 100" "c = k div 400"
  have "4 * a \<le> k" "k - 3 \<le> 4 * a" "100 * b \<le> k" "k - 99 \<le> 100 * b" "400 * c \<le> k" "k - 399 \<le> 400 * c"
    unfolding abc by linarith+
  note * = this
  show "400 * days_before k \<le> 146097 * k + 396"
    using * unfolding days_before_def abc [symmetric] by (simp add: algebra_simps)
  show "146097 * k - 699 \<le> 400 * days_before k"
    using * unfolding days_before_def abc [symmetric] by (simp add: algebra_simps)
qed

lemma int_div_step:
  fixes k b :: int
  assumes "0 < b"
  shows "(k + 1) div b = k div b + (if (k + 1) mod b = 0 then 1 else 0)"
proof -
  define q r where qr: "q = k div b" "r = k mod b"
  have k: "k = b * q + r" "0 \<le> r" "r < b" using assms by (simp_all add: qr)
  show ?thesis
  proof (cases "r + 1 = b")
    case True
    then have "k + 1 = b * (q + 1)" using k(1) by (simp add: algebra_simps)
    then show ?thesis using assms by (simp add: qr(1) [symmetric])
  next
    case False
    have "(k + 1) div b = q"
      by (rule int_div_pos_eq [where r = "r + 1"]) (use k False in linarith)+
    moreover have "(k + 1) mod b = r + 1"
      by (rule int_mod_pos_eq [where q = q]) (use k False in linarith)+
    ultimately show ?thesis using k(2) by (simp add: qr(1))
  qed
qed

lemma leap_rule:
  "(b \<Longrightarrow> a) \<Longrightarrow> (c \<Longrightarrow> b) \<Longrightarrow>
   (if a then 1 else 0) - (if b then 1 else 0) + (if c then 1 else 0) =
   (if a \<and> (\<not> b \<or> c) then 1 else (0 :: int))"
  by (cases a; cases b; cases c; simp)

lemma days_before_step:
  "days_before (k + 1) = days_before k + 365 + (if leap_year (k + 1) then 1 else 0)"
proof -
  have d: "(100 :: int) dvd 400" "(4 :: int) dvd 100" by simp_all
  have m: "m mod 400 = 0 \<Longrightarrow> m mod 100 = 0" "m mod 100 = 0 \<Longrightarrow> m mod 4 = 0" for m :: int
    using d dvd_trans unfolding dvd_eq_mod_eq_0 [symmetric] by blast+
  define f :: "int \<Rightarrow> int" where "f b = (if (k + 1) mod b = 0 then 1 else 0)" for b
  have steps: "(k + 1) div 4 = k div 4 + f 4" "(k + 1) div 100 = k div 100 + f 100"
    "(k + 1) div 400 = k div 400 + f 400"
    unfolding f_def by (rule int_div_step; simp)+
  have "f 4 - f 100 + f 400 = (if leap_year (k + 1) then 1 else 0)"
    unfolding f_def leap_year_def by (rule leap_rule) (fact m)+
  then show ?thesis unfolding days_before_def steps by simp
qed

lemma days_before_mono: "k \<le> l \<Longrightarrow> days_before k \<le> days_before l"
proof (induction l rule: int_ge_induct)
  case (step l)
  then show ?case using days_before_step [of l] by (simp split: if_splits)
qed simp

lemma year_index_holds: "days_before (year_index n) \<le> n" "n < days_before (year_index n + 1)"
proof -
  define k where "k = 400 * n div 146097"
  have k: "146097 * k \<le> 400 * n" "400 * n < 146097 * k + 146097"
    unfolding k_def by linarith+
  have "400 * days_before k \<le> 400 * n + 396" using days_before_bounds(1) [of k] k by simp
  then have 1: "days_before k \<le> n" by simp
  have "400 * n < 400 * days_before (k + 2)" using days_before_bounds(2) [of "k + 2"] k by simp
  then have 2: "n < days_before (k + 1 + 1)" by (simp add: add.assoc)
  show "days_before (year_index n) \<le> n" "n < days_before (year_index n + 1)"
    using 1 2 by (auto simp: year_index_def Let_def simp flip: k_def)
qed

lemma year_index_bounds:
  assumes "0 \<le> n" "n < 3652059"
  shows "0 \<le> year_index n" "year_index n \<le> 9998"
proof -
  have "days_before 0 = 0" "days_before 9999 = 3652059" by (simp_all add: days_before_def)
  note db = this
  show "0 \<le> year_index n"
    using db year_index_holds [of n] assms days_before_mono [of "year_index n + 1" 0] by linarith
  show "year_index n \<le> 9998"
    using db year_index_holds [of n] assms days_before_mono [of 9999 "year_index n"] by linarith
qed

lemma year_index_mono: "n \<le> m \<Longrightarrow> year_index n \<le> year_index m"
  using year_index_holds(1) [of n] year_index_holds(2) [of m] days_before_mono [of "year_index m + 1" "year_index n"]
  by linarith

lemma sorted_filter_le: "sorted xs \<Longrightarrow> filter (\<lambda>s. s \<le> d) xs = takeWhile (\<lambda>s. s \<le> d) xs"
proof (induction xs)
  case (Cons x xs)
  show ?case
  proof (cases "x \<le> d")
    case False
    then have "\<forall>y \<in> set xs. \<not> y \<le> d" using Cons.prems by auto
    then show ?thesis using False by simp
  qed (use Cons in simp)
qed simp

lemma month_of_holds:
  assumes "0 \<le> d"
  shows "1 \<le> month_of l d" "month_of l d \<le> 12" "month_starts l ! (month_of l d - 1) \<le> d"
    "month_of l d < 12 \<Longrightarrow> d < month_starts l ! month_of l d"
proof -
  let ?xs = "month_starts l" and ?tw = "takeWhile (\<lambda>s. s \<le> d) (month_starts l)"
  have "sorted ?xs" by (simp add: month_starts_def)
  then have "filter (\<lambda>s. s \<le> d) ?xs = ?tw" by (rule sorted_filter_le)
  then have m: "month_of l d = length ?tw" by (simp add: month_of_def)
  have len: "length ?xs = 12" by (simp add: month_starts_def)
  have "?tw \<noteq> []" using assms by (simp add: month_starts_def)
  then show "1 \<le> month_of l d" unfolding m by (cases ?tw) auto
  show "month_of l d \<le> 12" unfolding m using len length_takeWhile_le by metis
  have "?tw ! (length ?tw - 1) \<in> set ?tw" using \<open>?tw \<noteq> []\<close> by simp
  then show "month_starts l ! (month_of l d - 1) \<le> d"
    unfolding m using \<open>?tw \<noteq> []\<close> by (metis diff_less length_greater_0_conv less_one set_takeWhileD takeWhile_nth)
  show "d < month_starts l ! month_of l d" if "month_of l d < 12"
    using that nth_length_takeWhile [of "\<lambda>s. s \<le> d" ?xs] len unfolding m by simp
qed

lemma days_in_table:
  "m \<in> set [1..<13] \<Longrightarrow> days_in l (int m) \<le> 31 \<and>
   (if m < 12 then month_starts l ! m = month_starts l ! (m - 1) + days_in l (int m)
    else month_starts l ! (m - 1) + 31 = (if l then 366 else 365))"
  by (cases l) (auto simp: upt_rec days_in_def month_starts_def)

lemma month_of_bounds:
  assumes "0 \<le> d" "d < 366"
  shows "1 \<le> month_of l d" "month_of l d \<le> 12" "1 \<le> day_of l d" "day_of l d < 100"
    "d < 365 \<or> l \<Longrightarrow> day_of l d \<le> days_in l (int (month_of l d))"
proof -
  note m = month_of_holds [OF assms(1), of l]
  have t: "month_of l d \<in> set [1..<13]" using m(1,2) by simp
  show "1 \<le> month_of l d" "month_of l d \<le> 12" by (fact m)+
  show "1 \<le> day_of l d" using m(3) by (simp add: day_of_def)
  show "day_of l d < 100"
    using m(2,3,4) days_in_table [OF t, of l] assms(2)
    by (cases "month_of l d = 12"; cases l) (simp_all add: day_of_def)
  show "d < 365 \<or> l \<Longrightarrow> day_of l d \<le> days_in l (int (month_of l d))"
    using m(2,3,4) days_in_table [OF t, of l] assms(2)
    by (cases "month_of l d = 12"; cases l) (simp_all add: day_of_def days_in_def)
qed

lemma month_of_mono: "d \<le> d' \<Longrightarrow> month_of l d \<le> month_of l d'"
proof -
  have "length (filter (\<lambda>s. s \<le> d) xs) \<le> length (filter (\<lambda>s. s \<le> d') xs)" if "d \<le> d'" for xs :: "int list"
    using that by (induction xs) auto
  then show "d \<le> d' \<Longrightarrow> month_of l d \<le> month_of l d'" by (simp add: month_of_def)
qed

lemma day_in_year:
  "0 \<le> n - days_before (year_index n)" "n - days_before (year_index n) < 366"
  "n - days_before (year_index n) < 365 \<or> leap_year (year_index n + 1)"
  using year_index_holds [of n] days_before_step [of "year_index n"] by (simp_all split: if_splits)

lemma less_three:
  fixes a b c :: string
  assumes "length a = length a'" "length b = length b'" "a < a' \<or> a = a' \<and> (b < b' \<or> b = b' \<and> c < c')"
  shows "a @ x @ b @ x @ c < a' @ x @ b' @ x @ c'"
  using assms by (auto simp: less_append_same_length)

lemma date_text_less:
  assumes "0 \<le> n" "n < m" "m < 3652059"
  shows "date_text n < date_text m"
proof -
  define d where "d n = n - days_before (year_index n)" for n
  define l where "l n = leap_year (year_index n + 1)" for n
  have shape: "date_text n = pad 4 (year_index n + 1) @ ''-'' @ pad 2 (int (month_of (l n) (d n))) @ ''-'' @
      pad 2 (day_of (l n) (d n))" if "0 \<le> n" "n < 3652059" for n
    using year_index_bounds [OF that] by (simp add: date_text_def year_text_def Let_def d_def l_def)
  have b: "0 \<le> d n" "d n < 366" for n using day_in_year [of n] by (simp_all add: d_def)
  have mb: "1 \<le> month_of (l n) (d n)" "month_of (l n) (d n) \<le> 12" "1 \<le> day_of (l n) (d n)" "day_of (l n) (d n) < 100" for n
    using month_of_bounds [OF b [of n], of "l n"] by blast+
  have yb: "0 \<le> year_index n + 1" "year_index n + 1 < 10 ^ 4" "0 \<le> year_index m + 1" "year_index m + 1 < 10 ^ 4"
    using assms year_index_bounds [of n] year_index_bounds [of m] by simp_all
  have lens: "length (pad 4 (year_index n + 1)) = length (pad 4 (year_index m + 1))"
    using pad_less(3) [of _ 4 _] yb by (metis zero_less_numeral)
  have pads: "0 \<le> int (month_of (l n) (d n))" "int (month_of (l n) (d n)) < 10 ^ 2"
    "0 \<le> day_of (l n) (d n)" "day_of (l n) (d n) < 10 ^ 2" for n
    using mb [of n] by simp_all
  have two: "length (pad 2 x) = length (pad 2 y)" if "0 \<le> x" "x < 10 ^ 2" "0 \<le> y" "y < 10 ^ 2" for x y
    using pad_less(3) [OF that] pad_less(3) [of y 2 x] that by simp
  have "year_index n < year_index m \<or> year_index n = year_index m \<and>
      (month_of (l n) (d n) < month_of (l m) (d m) \<or>
       month_of (l n) (d n) = month_of (l m) (d m) \<and> day_of (l n) (d n) < day_of (l m) (d m))"
    using year_index_mono [of n m] month_of_mono [of "d n" "d m" "l n"] assms
    by (auto simp: l_def d_def day_of_def)
  then show ?thesis
    unfolding shape [OF assms(1) less_trans [OF assms(2,3)]] shape [OF less_imp_le [OF le_less_trans [OF assms(1,2)]] assms(3)]
    using pad_less(1,2) [OF yb] pad_less(1,2) [OF pads(1,2) [of n] pads(1,2) [of m]]
      pad_less(1) [OF pads(3,4) [of n] pads(3,4) [of m]]
    by (intro less_three lens two [OF pads(1,2) [of n] pads(1,2) [of m]]) auto
qed

lemma length_pad: "0 \<le> n \<Longrightarrow> n < 10 ^ w \<Longrightarrow> 0 < w \<Longrightarrow> length (pad w n) = w"
  by (rule pad_less(3))

lemma length_date_text:
  assumes "0 \<le> n" "n < 3652059"
  shows "length (date_text n) = 10"
  using year_index_bounds [OF assms] month_of_bounds [OF day_in_year(1,2) [of n], of "leap_year (year_index n + 1)"]
  by (simp add: date_text_def year_text_def Let_def length_pad)

lemma clock_split: "(s :: int) = s div 3600 * 3600 + s div 60 mod 60 * 60 + s mod 60"
proof -
  have "s div 3600 = s div 60 div 60" by (simp flip: zdiv_zmult2_eq)
  then show ?thesis using div_mult_mod_eq [of "s div 60" 60] div_mult_mod_eq [of s 60] by linarith
qed

lemma hms_order:
  fixes h m e h' m' e' :: int
  assumes "h * 3600 + m * 60 + e < h' * 3600 + m' * 60 + e'" "0 \<le> m" "m < 60" "0 \<le> e" "e < 60"
    "0 \<le> m'" "m' < 60" "0 \<le> e'" "e' < 60"
  shows "h < h' \<or> h = h' \<and> (m < m' \<or> m = m' \<and> e < e')"
proof (cases "h = h'")
  case True
  show ?thesis
  proof (cases "m = m'")
    case False
    then show ?thesis using True assms by linarith
  qed (use True assms in linarith)
next
  case False
  then show ?thesis using assms by linarith
qed

lemma clock_text_less:
  assumes "0 \<le> s" "s < s'" "s' < 86400"
  shows "clock_text s < clock_text s'"
proof -
  have b: "0 \<le> s div 3600" "s div 3600 < 10 ^ 2" "0 \<le> s' div 3600" "s' div 3600 < 10 ^ 2"
    "0 \<le> s div 60 mod 60" "s div 60 mod 60 < 10 ^ 2" "0 \<le> s' div 60 mod 60" "s' div 60 mod 60 < 10 ^ 2"
    "0 \<le> s mod 60" "s mod 60 < 10 ^ 2" "0 \<le> s' mod 60" "s' mod 60 < 10 ^ 2"
    using assms by simp_all
  define h m e where hme: "h = s div 3600" "m = s div 60 mod 60" "e = s mod 60"
  define h' m' e' where hme': "h' = s' div 3600" "m' = s' div 60 mod 60" "e' = s' mod 60"
  have "s = h * 3600 + m * 60 + e" "s' = h' * 3600 + m' * 60 + e'"
    unfolding hme hme' by (rule clock_split)+
  then have "h < h' \<or> h = h' \<and> (m < m' \<or> m = m' \<and> e < e')"
    using assms(2) hms_order [of h m e h' m' e'] hme hme' by (simp only: zero_less_numeral pos_mod_bound pos_mod_sign simp_thms)
  then show ?thesis
    unfolding clock_text_def
    using pad_less(1,2) [OF b(1-4)] pad_less(1,2) [OF b(5-8)] pad_less(1) [OF b(9-12)]
    by (intro less_three) (simp_all only: length_pad [OF b(1,2)] length_pad [OF b(3,4)] length_pad [OF b(5,6)]
        length_pad [OF b(7,8)] hme hme' zero_less_numeral simp_thms)
qed

lemma length_clock_text:
  assumes "0 \<le> s" "s < 86400"
  shows "length (clock_text s) = 8"
  using assms by (simp add: clock_text_def length_pad)

lemma lex_append_less:
  fixes a b :: string
  assumes "length a = length a'" "a < a' \<or> a = a' \<and> b < b'"
  shows "a @ x @ b < a' @ x @ b'"
  using assms by (auto simp: less_append_same_length)

lemma int_div_less:
  fixes t n b :: int
  assumes "0 < b" "t < n * b"
  shows "t div b < n"
proof (rule ccontr)
  assume "\<not> t div b < n"
  then have "n * b \<le> t div b * b" using assms(1) by (intro mult_right_mono) simp_all
  also have "\<dots> \<le> t" using assms(1) by (metis div_mult_mod_eq le_add_same_cancel1 pos_mod_sign)
  finally show False using assms(2) by simp
qed

lemma datable_parts:
  assumes "datable t"
  shows "0 \<le> t div day_length" "t div day_length < 3652059"
    "0 \<le> t mod day_length div second" "t mod day_length div second < 86400"
    "t div second = 86400 * (t div day_length) + t mod day_length div second"
    "0 \<le> t mod second" "t mod second < 10 ^ 9"
proof -
  have d: "day_length = 86400 * second" "0 < second" "0 < day_length"
    by (simp_all add: day_length_def hour_def minute_def second_def)
  show "0 \<le> t div day_length" using assms d by (simp add: datable_def pos_imp_zdiv_nonneg_iff)
  show "t div day_length < 3652059" using assms d(3) unfolding datable_def by (simp add: int_div_less)
  have r: "0 \<le> t mod day_length" "t mod day_length < 86400 * second" using d by simp_all
  show "0 \<le> t mod day_length div second" using r d by (simp add: pos_imp_zdiv_nonneg_iff)
  show "t mod day_length div second < 86400" using r d by (simp add: int_div_less)
  have "t = second * (86400 * (t div day_length)) + t mod day_length"
    using mult_div_mod_eq [of day_length t] unfolding d(1) by (simp only: ac_simps)
  then have "t div second = (t mod day_length + second * (86400 * (t div day_length))) div second"
    by (simp add: add.commute)
  also have "\<dots> = 86400 * (t div day_length) + t mod day_length div second" using d(2) by simp
  finally show "t div second = 86400 * (t div day_length) + t mod day_length div second" .
  show "0 \<le> t mod second" "t mod second < 10 ^ 9" using d(2) by (simp_all add: second_def)
qed

lemma length_seconds_text: "datable t \<Longrightarrow> length (seconds_text t) = 19"
  using length_date_text datable_parts length_clock_text by (simp add: seconds_text_def)

lemma seconds_text_less:
  assumes "datable t" "datable u" "t div second < u div second"
  shows "seconds_text t < seconds_text u"
proof -
  note t = datable_parts [OF assms(1)] and u = datable_parts [OF assms(2)]
  have "t div day_length < u div day_length \<or> t div day_length = u div day_length \<and>
      t mod day_length div second < u mod day_length div second"
    using assms(3) t(3,4) u(3,4) unfolding t(5) u(5) by linarith
  then have "date_text (t div day_length) < date_text (u div day_length) \<or>
      date_text (t div day_length) = date_text (u div day_length) \<and>
      clock_text (t mod day_length div second) < clock_text (u mod day_length div second)"
    using date_text_less [OF t(1) _ u(2)] clock_text_less [OF t(3) _ u(4)] by auto
  then show ?thesis
    unfolding seconds_text_def by (intro lex_append_less) (simp_all only: length_date_text [OF t(1,2)] length_date_text [OF u(1,2)])
qed

lemma seconds_text_eq:
  assumes "t div second = u div second"
  shows "seconds_text t = seconds_text u"
proof -
  have d: "day_length = second * 86400" "0 < second"
    by (simp_all add: day_length_def hour_def minute_def second_def)
  have "t div day_length = t div second div 86400" "t mod day_length div second = t div second mod 86400" for t
    unfolding d(1) using d(2) by (simp_all add: zdiv_zmult2_eq zmod_zmult2_eq)
  then show ?thesis using assms by (simp add: seconds_text_def)
qed

text \<open>Within a second the nine-digit form keeps the order; over seconds both forms do.\<close>

lemma formatTime_seconds:
  assumes "datable t" "datable u" "t div second < u div second"
  shows "formatTime t < formatTime u" "formatPathEventTime t < formatPathEventTime u"
  using seconds_text_less [OF assms] length_seconds_text assms(1,2)
  by (simp_all add: formatTime_def formatPathEventTime_def less_append_same_length)

lemma formatPathEventTime_less:
  assumes "datable t" "datable u" "t < u"
  shows "formatPathEventTime t < formatPathEventTime u"
proof (cases "t div second = u div second")
  case True
  note t = datable_parts(6,7) [OF assms(1)] and u = datable_parts(6,7) [OF assms(2)]
  have "t mod second < u mod second"
    using assms(3) True by (metis add_less_cancel_left div_mult_mod_eq)
  then have "pad 9 (t mod second) < pad 9 (u mod second)" using pad_less(1) [OF t u] by simp
  then show ?thesis
    using seconds_text_eq [OF True] length_pad [OF t] length_pad [OF u]
    by (simp add: formatPathEventTime_def less_append_same_length)
next
  case False
  moreover have "t div second \<le> u div second"
    using assms(3) by (intro zdiv_mono1) (simp_all add: second_def)
  ultimately show ?thesis using formatTime_seconds(2) [OF assms(1,2)] by simp
qed

section \<open>Reading back what was written\<close>

lemma digit_value_char: "d < 10 \<Longrightarrow> digit_value (digit_char d) = int d \<and> is_digit (digit_char d)"
proof -
  have "\<forall>d < 10. digit_value (digit_char d) = int d \<and> is_digit (digit_char d)" by code_simp
  then show "d < 10 \<Longrightarrow> digit_value (digit_char d) = int d \<and> is_digit (digit_char d)" by blast
qed

lemma number_digits: "n < 10 ^ w \<Longrightarrow> number (digits w n) = Some (int n)"
proof (induction w arbitrary: n)
  case 0
  then show ?case by (simp add: number_def)
next
  case (Suc w)
  have "n div 10 < 10 ^ w" using Suc.prems by (simp add: less_mult_imp_div_less mult.commute)
  from Suc.IH [OF this]
  have "list_all is_digit (digits w (n div 10))"
    "foldl (\<lambda>a c. 10 * a + digit_value c) 0 (digits w (n div 10)) = int (n div 10)"
    by (auto simp: number_def split: if_splits)
  moreover have "10 * int (n div 10) + int (n mod 10) = int n"
    by (metis mult_div_mod_eq of_nat_add of_nat_mult of_nat_numeral)
  ultimately show ?case
    using digit_value_char [of "n mod 10"] by (simp add: number_def)
qed

lemma pad_is_digits:
  assumes "0 \<le> n" "n < 10 ^ w" "0 < w"
  shows "pad w n = digits w (nat n)"
  using pad_digits [of "nat n" w] assms by (simp add: nat_less_iff)

lemma number_pad: "0 \<le> n \<Longrightarrow> n < 10 ^ w \<Longrightarrow> 0 < w \<Longrightarrow> number (pad w n) = Some n"
  using number_digits [of "nat n" w] by (simp add: pad_is_digits nat_less_iff)

lemma takeWhile_zeros:
  "replicate (length (takeWhile (\<lambda>c. c = z) s)) z @ dropWhile (\<lambda>c. c = z) s = s"
  by (induction s) auto

lemma trim_zeros_restore: "\<exists>k. s = trim_zeros s @ replicate k CHR ''0''"
proof -
  have "rev s = replicate (length (takeWhile (\<lambda>c. c = CHR ''0'') (rev s))) CHR ''0'' @ rev (trim_zeros s)"
    by (simp add: trim_zeros_def takeWhile_zeros)
  then have "s = trim_zeros s @ replicate (length (takeWhile (\<lambda>c. c = CHR ''0'') (rev s))) CHR ''0''"
    by (metis rev_append rev_replicate rev_rev_ident)
  then show ?thesis by blast
qed

lemma read_fraction_text:
  assumes "0 \<le> f" "f < 10 ^ 9"
  shows "read_fraction (fraction_text f) = Some f"
proof (cases "f = 0")
  case False
  let ?s = "pad 9 f"
  obtain k where k: "?s = trim_zeros ?s @ replicate k CHR ''0''" using trim_zeros_restore by blast
  have len: "length ?s = 9" using length_pad [OF assms] by simp
  have num: "number ?s = Some f" using number_pad [OF assms] by simp
  then have all: "list_all is_digit ?s" by (simp add: number_def split: if_splits)
  then have "list_all is_digit (trim_zeros ?s)" by (metis k list_all_append)
  moreover have "trim_zeros ?s \<noteq> []"
  proof
    assume "trim_zeros ?s = []"
    then have "?s = digits 9 0" using k len by simp
    then have "digits 9 (nat f) = digits 9 0" using pad_is_digits [OF assms] by simp
    moreover have "nat f < 10 ^ 9" using assms by (simp add: nat_less_iff)
    ultimately have "nat f = 0" using digits_order [of "nat f" 9 0] by simp
    then show False using assms False by simp
  qed
  moreover have "take 9 (trim_zeros ?s @ replicate 9 CHR ''0'') = ?s"
  proof -
    have k9: "k \<le> 9" "length (trim_zeros ?s) + k = 9"
      using arg_cong [OF k, of length] len by simp_all
    then have "replicate 9 CHR ''0'' = replicate k CHR ''0'' @ replicate (9 - k) CHR ''0''"
      by (simp flip: replicate_add)
    then have "trim_zeros ?s @ replicate 9 CHR ''0'' = ?s @ replicate (9 - k) CHR ''0''"
      using k by (metis append.assoc)
    then show ?thesis using len by simp
  qed
  ultimately show ?thesis using num False by (simp add: read_fraction_def fraction_text_def)
qed (simp add: read_fraction_def fraction_text_def)

lemma parse_shape:
  assumes len: "length y = 4" "length mo = 2" "length d = 2" "length h = 2" "length mi = 2" "length se = 2"
    and num: "number y = Some ny" "number mo = Some nmo" "number d = Some nd" "number h = Some nh"
      "number mi = Some nmi" "number se = Some nse" "read_fraction f = Some nf"
    and ok: "1 \<le> nmo" "nmo \<le> 12" "1 \<le> nd" "nd \<le> days_in (leap_year ny) nmo" "nh \<le> 23" "nmi \<le> 59" "nse \<le> 59"
  shows "parseTime (((y @ ''-'' @ mo @ ''-'' @ d) @ ''T'' @ h @ '':'' @ mi @ '':'' @ se) @ f @ ''Z'') =
    Some ((days_before (ny - 1) + month_starts (leap_year ny) ! (nat nmo - 1) + nd - 1) * day_length +
      (nh * 3600 + nmi * 60 + nse) * second + nf)"
proof -
  let ?s = "((y @ ''-'' @ mo @ ''-'' @ d) @ ''T'' @ h @ '':'' @ mi @ '':'' @ se) @ f @ ''Z''"
  have "take 4 ?s = y" "take 2 (drop 5 ?s) = mo" "take 2 (drop 8 ?s) = d" "take 2 (drop 11 ?s) = h"
    "take 2 (drop 14 ?s) = mi" "take 2 (drop 17 ?s) = se" "butlast (drop 19 ?s) = f"
    "?s ! 4 = CHR ''-''" "?s ! 7 = CHR ''-''" "?s ! 10 = CHR ''T''" "?s ! 13 = CHR '':''" "?s ! 16 = CHR '':''"
    "List.last ?s = CHR ''Z''" "\<not> length ?s < 20"
    using len by (simp_all add: nth_append butlast_append)
  note parts = this
  show ?thesis
    unfolding parseTime_def using parts(8-14) ok
    by (simp only: parts num simp_thms if_False if_True option.simps bind.simps not_less Let_def) auto
qed

lemma read_fraction_full:
  assumes "0 \<le> f" "f < 10 ^ 9"
  shows "read_fraction (''.'' @ pad 9 f) = Some f"
proof -
  have "number (pad 9 f) = Some f" "length (pad 9 f) = 9" using number_pad [OF assms] length_pad [OF assms] by simp_all
  moreover from this have "list_all is_digit (pad 9 f)" by (simp add: number_def split: if_splits)
  moreover have "pad 9 f \<noteq> []" using \<open>length (pad 9 f) = 9\<close> by auto
  ultimately show ?thesis by (simp add: read_fraction_def)
qed

lemma seconds_text_parts:
  assumes "datable t"
  shows "\<exists>y mo d h mi se ny nmo nd nh nmi nse.
     seconds_text t = (y @ ''-'' @ mo @ ''-'' @ d) @ ''T'' @ h @ '':'' @ mi @ '':'' @ se \<and>
     length y = 4 \<and> length mo = 2 \<and> length d = 2 \<and> length h = 2 \<and> length mi = 2 \<and> length se = 2 \<and>
     number y = Some ny \<and> number mo = Some nmo \<and> number d = Some nd \<and> number h = Some nh \<and>
     number mi = Some nmi \<and> number se = Some nse \<and>
     1 \<le> nmo \<and> nmo \<le> 12 \<and> 1 \<le> nd \<and> nd \<le> days_in (leap_year ny) nmo \<and> nh \<le> 23 \<and> nmi \<le> 59 \<and> nse \<le> 59 \<and>
     (days_before (ny - 1) + month_starts (leap_year ny) ! (nat nmo - 1) + nd - 1) * day_length +
       (nh * 3600 + nmi * 60 + nse) * second + t mod second = t"
proof -
  define n s where "n = t div day_length" and "s = t mod day_length div second"
  define k l d where "k = year_index n" and "l = leap_year (k + 1)" and "d = n - days_before k"
  note t = datable_parts [OF assms, folded n_def s_def]
  have k: "0 \<le> k" "k \<le> 9998" using year_index_bounds [OF t(1,2)] by (simp_all add: k_def)
  note m = month_of_bounds [OF day_in_year(1,2) [of n], of l, folded k_def, folded d_def]
  have leap: "d < 365 \<or> l" using day_in_year(3) [of n] by (simp add: d_def k_def l_def)
  have hs: "0 \<le> s div 3600" "s div 3600 < 24" using t(3,4) by (simp_all add: int_div_less)
  have shape: "seconds_text t =
     (pad 4 (k + 1) @ ''-'' @ pad 2 (int (month_of l d)) @ ''-'' @ pad 2 (day_of l d)) @ ''T'' @
     pad 2 (s div 3600) @ '':'' @ pad 2 (s div 60 mod 60) @ '':'' @ pad 2 (s mod 60)"
    using k by (simp add: seconds_text_def date_text_def clock_text_def year_text_def Let_def n_def s_def k_def l_def d_def)
  have sum: "s div 3600 * 3600 + s div 60 mod 60 * 60 + s mod 60 = s" using clock_split [of s] by simp
  have day: "days_before k + month_starts l ! (month_of l d - 1) + day_of l d - 1 = n"
    by (simp add: day_of_def d_def)
  have whole: "n * day_length + s * second + t mod second = t"
  proof -
    have "t div second * second + t mod second = t" by simp
    moreover have "t div second * second = n * day_length + s * second"
      unfolding t(5) by (simp add: day_length_def hour_def minute_def algebra_simps)
    ultimately show ?thesis by simp
  qed
  show ?thesis
  proof (intro exI conjI)
    show "seconds_text t =
     (pad 4 (k + 1) @ ''-'' @ pad 2 (int (month_of l d)) @ ''-'' @ pad 2 (day_of l d)) @ ''T'' @
     pad 2 (s div 3600) @ '':'' @ pad 2 (s div 60 mod 60) @ '':'' @ pad 2 (s mod 60)" by (rule shape)
    show "number (pad 4 (k + 1)) = Some (k + 1)" "length (pad 4 (k + 1)) = 4"
      using k by (simp_all add: number_pad length_pad)
    show "number (pad 2 (int (month_of l d))) = Some (int (month_of l d))" "length (pad 2 (int (month_of l d))) = 2"
      "number (pad 2 (day_of l d)) = Some (day_of l d)" "length (pad 2 (day_of l d)) = 2"
      using m(1-4) by (simp_all add: number_pad length_pad)
    show "number (pad 2 (s div 3600)) = Some (s div 3600)" "length (pad 2 (s div 3600)) = 2"
      using hs by (simp_all add: number_pad length_pad)
    show "number (pad 2 (s div 60 mod 60)) = Some (s div 60 mod 60)" "length (pad 2 (s div 60 mod 60)) = 2"
      "number (pad 2 (s mod 60)) = Some (s mod 60)" "length (pad 2 (s mod 60)) = 2"
      by (simp_all add: number_pad length_pad less_trans [OF pos_mod_bound])
    show "1 \<le> int (month_of l d)" "int (month_of l d) \<le> 12" "1 \<le> day_of l d" using m(1-3) by simp_all
    show "day_of l d \<le> days_in (leap_year (k + 1)) (int (month_of l d))" using m(5) leap by (simp add: l_def)
    show "s div 3600 \<le> 23" "s div 60 mod 60 \<le> 59" "s mod 60 \<le> 59" using hs by simp_all
    show "(days_before (k + 1 - 1) + month_starts (leap_year (k + 1)) ! (nat (int (month_of l d)) - 1) + day_of l d - 1) *
        day_length + (s div 3600 * 3600 + s div 60 mod 60 * 60 + s mod 60) * second + t mod second = t"
      using day whole unfolding sum by (simp add: l_def)
  qed
qed

lemma parse_seconds:
  assumes "datable t" "read_fraction f = Some (t mod second)"
  shows "parseTime (seconds_text t @ f @ ''Z'') = Some t"
proof -
  from seconds_text_parts [OF assms(1)]
  obtain y mo d h mi se ny nmo nd nh nmi nse where
    shape: "seconds_text t = (y @ ''-'' @ mo @ ''-'' @ d) @ ''T'' @ h @ '':'' @ mi @ '':'' @ se"
    and len: "length y = 4" "length mo = 2" "length d = 2" "length h = 2" "length mi = 2" "length se = 2"
    and num: "number y = Some ny" "number mo = Some nmo" "number d = Some nd" "number h = Some nh"
      "number mi = Some nmi" "number se = Some nse"
    and ok: "1 \<le> nmo" "nmo \<le> 12" "1 \<le> nd" "nd \<le> days_in (leap_year ny) nmo" "nh \<le> 23" "nmi \<le> 59" "nse \<le> 59"
    and sum: "(days_before (ny - 1) + month_starts (leap_year ny) ! (nat nmo - 1) + nd - 1) * day_length +
       (nh * 3600 + nmi * 60 + nse) * second + t mod second = t"
    by (elim exE conjE) blast
  show ?thesis unfolding shape by (subst parse_shape [OF len num assms(2) ok]) (simp only: sum)
qed

lemma parse_formatTime: "datable t \<Longrightarrow> parseTime (formatTime t) = Some t"
  using parse_seconds read_fraction_text datable_parts(6,7) by (simp add: formatTime_def)

lemma parse_formatPathEventTime: "datable t \<Longrightarrow> parseTime (formatPathEventTime t) = Some t"
  using parse_seconds [of t "''.'' @ pad 9 (t mod second)"] read_fraction_full datable_parts(6,7)
  by (simp add: formatPathEventTime_def)

section \<open>Properties\<close>

text \<open>C21: Both kinds of time stamp the store writes (\<open>formatTime\<close>, with the fraction trimmed,
  and \<open>formatPathEventTime\<close>, with nine digits) are read back by \<open>time.Parse(time.RFC3339Nano)\<close>
  as the instant that was written, for every instant of the years 1 to 9999.\<close>

theorem stored_times_read_back:
  assumes "datable t"
  shows "parseTime (formatTime t) = Some t \<and> parseTime (formatPathEventTime t) = Some t"
  using parse_formatTime [OF assms] parse_formatPathEventTime [OF assms] by blast

theorem stored_times_read_back_witness:
  "parseTime (formatTime 63000000000500000000) = Some 63000000000500000000 \<and>
   parseTime (formatPathEventTime 63000000000500000000) = Some 63000000000500000000"
  by (rule stored_times_read_back) code_simp

lemma formatPathEventTime_iff:
  assumes "datable t" "datable u"
  shows "formatPathEventTime t < formatPathEventTime u \<longleftrightarrow> t < u"
  using formatPathEventTime_less [OF assms] formatPathEventTime_less [OF assms(2,1)]
  by (metis less_asym linorder_less_linear)

lemma formatTime_iff:
  assumes "datable t" "datable u" "t div second \<noteq> u div second"
  shows "formatTime t < formatTime u \<longleftrightarrow> t < u"
proof -
  have mono: "t div second < u div second \<Longrightarrow> t < u" for t u :: time
    using zdiv_mono1 [of u t second] by (force simp: second_def)
  show ?thesis
    using formatTime_seconds(1) [OF assms(1,2)] formatTime_seconds(1) [OF assms(2,1)] mono [of t u] mono [of u t] assms(3)
    by (metis less_asym linorder_less_linear)
qed

text \<open>The order of the stored texts. The nine-digit texts of path events are ordered, byte
  by byte, as their instants are, and so are the trimmed texts of instants in different seconds:
  of all bucket starts, cursors and cut-offs the queries compare.\<close>

theorem time_texts_ordered:
  assumes "datable t" "datable u"
  shows "(formatPathEventTime t < formatPathEventTime u \<longleftrightarrow> t < u) \<and>
    (t div second \<noteq> u div second \<longrightarrow> (formatTime t < formatTime u \<longleftrightarrow> t < u))"
  using formatPathEventTime_iff [OF assms] formatTime_iff [OF assms] by blast

theorem time_texts_ordered_witness:
  "formatPathEventTime 63000000000500000000 < formatPathEventTime 63000000001000000000 \<and>
   formatTime 63000000000500000000 < formatTime 63000000001000000000"
proof -
  have d: "datable 63000000000500000000" "datable 63000000001000000000" by code_simp+
  have "(63000000000500000000 :: time) div second \<noteq> 63000000001000000000 div second" by code_simp
  with time_texts_ordered [OF d] show ?thesis by simp
qed

lemma fraction_before_whole:
  assumes "datable t" "second dvd t" "0 < f" "f < second"
  shows "formatTime (t + f) < formatTime t"
proof -
  have q: "(t + f) div second = t div second" "(t + f) mod second = f" "t mod second = 0"
    using assms(2-4) by (auto elim!: dvdE simp: div_add1_eq mod_add_left_eq)
  have "formatTime (t + f) = seconds_text t @ ''.'' @ trim_zeros (pad 9 f) @ ''Z''"
    using seconds_text_eq [of "t + f" t] q assms(3) by (simp add: formatTime_def fraction_text_def)
  moreover have "formatTime t = seconds_text t @ ''Z''"
    using q by (simp add: formatTime_def fraction_text_def)
  ultimately show ?thesis by (simp add: less_append_same_length)
qed

text \<open>Inside a second the trimmed texts are not ordered: the text of a whole second is
  greater than the text of every later instant of that second, so the \<open>MIN\<close> and \<open>MAX\<close> SQLite
  takes of \<open>history_edges.first_traffic_at\<close>, \<open>last_traffic_at\<close> and \<open>nodes.last_seen\<close> (all written by
  \<open>formatTime\<close>) keep the wrong one of two such instants.\<close>

theorem whole_second_sorts_last:
  assumes "datable t" "second dvd t" "0 < f" "f < second"
  shows "formatTime (t + f) < formatTime t"
  by (rule fraction_before_whole [OF assms])

theorem whole_second_sorts_last_witness:
  "formatTime (63000000000000000000 + 500000000) < formatTime 63000000000000000000"
  by (rule whole_second_sorts_last) code_simp+

end
