(* ===== verification/Store_Tables.thy ===== *)
theory Store_Tables
  imports Store_Time Agg_Snapshot
begin

text \<open>
  The tables of the history store and the transactions that write them
  (\<open>internal/store/sqlite.go\<close>, \<open>history_edge_map.go\<close> and \<open>resolveNodeID\<close> of
  \<open>history_query.go\<close>).

  A table is the list of its rows, in the order of their insertion. A column that holds the text
  of a time holds the time here (Store_Time shows that it is read back unchanged), and what SQL
  computes by comparing such texts compares the texts. A transaction either commits all its
  statements or none: the argument \<open>disk\<close> of the operations says whether the database works, and
  when it does not the tables stay as they were. A JSON document is the value \<open>json\<close>; the
  encoding of the aggregator's state is a parameter of what uses it.
\<close>

section \<open>JSON documents\<close>

datatype json = JNull | JBool bool | JNumber rat | JString string | JArray "json list" | JObject "(string \<times> json) list"

fun removeRelayDiscoHints :: "json \<Rightarrow> json" where
  "removeRelayDiscoHints (JObject members) =
     JObject (map (\<lambda>(key, child). (key, removeRelayDiscoHints child)) (filter (\<lambda>f. fst f \<noteq> ''discoShort'') members))"
| "removeRelayDiscoHints (JArray items) = JArray (map removeRelayDiscoHints items)"
| "removeRelayDiscoHints v = v"

definition checkpointWithoutRelayDiscoHints :: "json \<Rightarrow> json" where
  "checkpointWithoutRelayDiscoHints payload = removeRelayDiscoHints payload"

section \<open>Rows\<close>

record stored_report =
  sr_rowid :: int
  sr_report :: report_envelope
  sr_receivedAt :: time

record runtime_checkpoint =
  ck_payload :: json
  ck_lastReportRowID :: int
  ck_updatedAt :: time

record traffic_bucket =
  tb_edgeID :: string
  tb_bucketStart :: time
  tb_sourceID :: string
  tb_targetID :: string
  tb_observerID :: string
  tb_aToBBytes :: int
  tb_bToABytes :: int

record history_edge =
  he_edgeID :: string
  he_sourceID :: string
  he_targetID :: string
  he_firstTrafficAt :: time
  he_lastTrafficAt :: time
  he_systemTelemetry :: bool

record edge_mapping =
  em_physicalID :: string
  em_logicalID :: string
  em_logicalSourceID :: string
  em_logicalTargetID :: string
  em_reversed :: bool
  em_updatedAt :: time

record stored_node =
  sn_nodeID :: string
  sn_identity :: "node_identity \<times> identity_status"
  sn_observable :: bool
  sn_lastSeen :: time

record stored_redirect =
  sd_fromID :: string
  sd_toID :: string
  sd_updatedAt :: time

record path_event =
  pv_id :: int
  pv_edgeID :: string
  pv_observedAt :: time
  pv_path :: path_observation
  pv_conflicts :: "path_observation list"
  pv_observations :: "observation_provenance list"
  pv_directions :: "directional_path_state list"
  pv_directionsTracked :: bool

record rollup_row =
  ru_edgeID :: string
  ru_bucketStart :: time
  ru_sourceID :: string
  ru_targetID :: string
  ru_aToBBytes :: int
  ru_bToABytes :: int

text \<open>\<open>db_eventSeq\<close> is the largest id \<open>path_events\<close> ever had: its ids are AUTOINCREMENT.\<close>

record database =
  db_reports :: "stored_report list"
  db_runtimeState :: "runtime_checkpoint option"
  db_nodes :: "stored_node list"
  db_redirects :: "stored_redirect list"
  db_buckets :: "traffic_bucket list"
  db_edges :: "history_edge list"
  db_edgeMap :: "edge_mapping list"
  db_events :: "path_event list"
  db_eventSeq :: int
  db_minutes :: "rollup_row list"
  db_hours :: "rollup_row list"
  db_maintenance :: "(string, time) gomap"

text \<open>What \<open>migrateDraftSchema\<close> and the later migrations create in an empty file.\<close>

definition new_database :: database where
  "new_database =
     \<lparr>db_reports = [], db_runtimeState = None, db_nodes = [], db_redirects = [], db_buckets = [],
      db_edges = [], db_edgeMap = [], db_events = [], db_eventSeq = 0, db_minutes = [], db_hours = [],
      db_maintenance = []\<rparr>"

section \<open>SQL\<close>

text \<open>\<open>INSERT ... ON CONFLICT(key) DO UPDATE\<close>: \<open>merge old new\<close> is the row the update leaves.\<close>

definition upsert :: "('r \<Rightarrow> 'k) \<Rightarrow> ('r \<Rightarrow> 'r \<Rightarrow> 'r) \<Rightarrow> 'r \<Rightarrow> 'r list \<Rightarrow> 'r list" where
  "upsert key merge row rows =
     (if key row \<in> key ` set rows then map (\<lambda>r. if key r = key row then merge r row else r) rows
      else rows @ [row])"

definition find_row :: "('r \<Rightarrow> 'k) \<Rightarrow> 'k \<Rightarrow> 'r list \<Rightarrow> 'r option" where
  "find_row key k rows = find (\<lambda>r. key r = k) rows"

text \<open>\<open>MIN\<close> and \<open>MAX\<close> of two time columns compare their texts.\<close>

definition text_min :: "time \<Rightarrow> time \<Rightarrow> time" where
  "text_min t u = (if formatTime u < formatTime t then u else t)"

definition text_max :: "time \<Rightarrow> time \<Rightarrow> time" where
  "text_max t u = (if formatTime t < formatTime u then u else t)"

text \<open>A new row of a rowid table gets one more than the largest rowid, 1 in an empty table.\<close>

definition max_rowid :: "database \<Rightarrow> int" where
  "max_rowid db = fold max (map sr_rowid (db_reports db)) 0"

section \<open>Redirects\<close>

text \<open>\<open>smallest\<close> is the least element of a list the loop has filled.\<close>

fun smallest :: "string \<Rightarrow> string list \<Rightarrow> string" where
  "smallest m [] = m"
| "smallest m (x # xs) = smallest (if x < m then x else m) xs"

function resolve_node :: "(string, string) gomap \<Rightarrow> string list \<Rightarrow> string \<Rightarrow> string" where
  "resolve_node redirects visited nodeID =
     (if str_at redirects nodeID = [] then nodeID
      else if nodeID \<in> set visited then smallest nodeID visited
      else resolve_node redirects (nodeID # visited) (str_at redirects nodeID))"
  by pat_completeness auto
termination
proof (relation "measure (\<lambda>(r, seen, n). card (set (mkeys r) - set seen))", goal_cases)
  case (2 redirects seen nodeID)
  then have "nodeID \<in> set (mkeys redirects) - set seen"
    by (auto simp: str_at_def simp flip: dom_map_of split: option.splits)
  then have "set (mkeys redirects) - set (nodeID # seen) \<subset> set (mkeys redirects) - set seen"
    by auto
  then show ?case by (simp add: psubset_card_mono)
qed simp

declare resolve_node.simps [simp del]

definition resolveNodeID :: "(string, string) gomap \<Rightarrow> string \<Rightarrow> string" where
  "resolveNodeID redirects nodeID = (if nodeID = [] then [] else resolve_node redirects [] nodeID)"

definition loadCanonicalRedirects :: "database \<Rightarrow> (string, string) gomap" where
  "loadCanonicalRedirects db = map (\<lambda>r. (sd_fromID r, sd_toID r)) (db_redirects db)"

section \<open>The map from physical to logical edges\<close>

record physical_edge =
  pg_physicalID :: string
  pg_sourceID :: string
  pg_targetID :: string
  pg_updatedAt :: time

definition writeHistoryEdgeMapping ::
  "(string, string) gomap \<Rightarrow> physical_edge \<Rightarrow> edge_mapping list \<Rightarrow> edge_mapping list" where
  "writeHistoryEdgeMapping redirects edge rows =
     (let sourceID = resolveNodeID redirects (pg_sourceID edge);
          targetID = resolveNodeID redirects (pg_targetID edge)
      in if sourceID = targetID then filter (\<lambda>r. em_physicalID r \<noteq> pg_physicalID edge) rows
         else
           (let (logicalID, logicalSourceID, logicalTargetID) = EdgeID sourceID targetID
            in upsert em_physicalID (\<lambda>_ new. new)
                 \<lparr>em_physicalID = pg_physicalID edge, em_logicalID = logicalID,
                  em_logicalSourceID = logicalSourceID, em_logicalTargetID = logicalTargetID,
                  em_reversed = (sourceID \<noteq> logicalSourceID), em_updatedAt = pg_updatedAt edge\<rparr> rows))"

definition upsertHistoryEdgeMapping :: "string \<Rightarrow> string \<Rightarrow> string \<Rightarrow> time \<Rightarrow> database \<Rightarrow> database" where
  "upsertHistoryEdgeMapping physicalID sourceID targetID updatedAt db =
     db\<lparr>db_edgeMap := writeHistoryEdgeMapping (loadCanonicalRedirects db)
          \<lparr>pg_physicalID = physicalID, pg_sourceID = sourceID, pg_targetID = targetID, pg_updatedAt = updatedAt\<rparr>
          (db_edgeMap db)\<rparr>"

definition physical_of :: "time \<Rightarrow> history_edge \<Rightarrow> physical_edge" where
  "physical_of updatedAt e =
     \<lparr>pg_physicalID = he_edgeID e, pg_sourceID = he_sourceID e, pg_targetID = he_targetID e,
      pg_updatedAt = (if updatedAt > he_lastTrafficAt e then updatedAt else he_lastTrafficAt e)\<rparr>"

definition rebuildHistoryEdgeMap :: "time \<Rightarrow> database \<Rightarrow> database" where
  "rebuildHistoryEdgeMap updatedAt db =
     db\<lparr>db_edgeMap :=
          fold (writeHistoryEdgeMapping (loadCanonicalRedirects db))
            (map (physical_of updatedAt) (sort_slice (\<lambda>a b. he_edgeID a < he_edgeID b) (db_edges db))) []\<rparr>"

section \<open>Traffic\<close>

definition bucket_width :: duration where
  "bucket_width = 10 * second"

definition bucket_key :: "traffic_bucket \<Rightarrow> string \<times> time \<times> string" where
  "bucket_key b = (tb_edgeID b, tb_bucketStart b, tb_observerID b)"

definition traffic_row :: "accepted_traffic \<Rightarrow> traffic_bucket" where
  "traffic_row r =
     \<lparr>tb_edgeID = at_edgeID r, tb_bucketStart = truncate_to bucket_width (at_receivedAt r),
      tb_sourceID = at_sourceID r, tb_targetID = at_targetID r, tb_observerID = at_observerID r,
      tb_aToBBytes = at_aToBBytes r, tb_bToABytes = at_bToABytes r\<rparr>"

definition add_bytes :: "traffic_bucket \<Rightarrow> traffic_bucket \<Rightarrow> traffic_bucket" where
  "add_bytes old new =
     old\<lparr>tb_aToBBytes := tb_aToBBytes old + tb_aToBBytes new, tb_bToABytes := tb_bToABytes old + tb_bToABytes new\<rparr>"

definition edge_row :: "accepted_traffic \<Rightarrow> history_edge" where
  "edge_row r =
     \<lparr>he_edgeID = at_edgeID r, he_sourceID = at_sourceID r, he_targetID = at_targetID r,
      he_firstTrafficAt = at_receivedAt r, he_lastTrafficAt = at_receivedAt r,
      he_systemTelemetry = at_systemTelemetry r\<rparr>"

definition merge_edge :: "history_edge \<Rightarrow> history_edge \<Rightarrow> history_edge" where
  "merge_edge old new =
     old\<lparr>he_firstTrafficAt := text_min (he_firstTrafficAt old) (he_firstTrafficAt new),
         he_lastTrafficAt := text_max (he_lastTrafficAt old) (he_lastTrafficAt new),
         he_systemTelemetry := he_systemTelemetry old \<or> he_systemTelemetry new\<rparr>"

definition recordTraffic :: "accepted_traffic \<Rightarrow> database \<Rightarrow> database" where
  "recordTraffic r db =
     upsertHistoryEdgeMapping (at_edgeID r) (at_sourceID r) (at_targetID r) (at_receivedAt r)
       (db\<lparr>db_buckets := upsert bucket_key add_bytes (traffic_row r) (db_buckets db),
           db_edges := upsert he_edgeID merge_edge (edge_row r) (db_edges db)\<rparr>)"

section \<open>Path events\<close>

definition recordPathTransition :: "path_transition \<Rightarrow> database \<Rightarrow> database" where
  "recordPathTransition t db =
     (let eventID = db_eventSeq db + 1
      in db\<lparr>db_events := db_events db @
              [\<lparr>pv_id = eventID, pv_edgeID = pt_edgeID t, pv_observedAt = pt_observedAt t, pv_path = pt_path t,
                pv_conflicts = pt_conflicts t, pv_observations = pt_observations t,
                pv_directions = pt_directions t, pv_directionsTracked = True\<rparr>],
            db_eventSeq := eventID\<rparr>)"

section \<open>History metadata\<close>

definition node_row :: "topology_node \<Rightarrow> stored_node" where
  "node_row n =
     \<lparr>sn_nodeID = tn_id n, sn_identity = (tn_identity n, tn_identityStatus n), sn_observable = tn_observable n,
      sn_lastSeen = tn_lastEvidenceAt n\<rparr>"

definition merge_node :: "stored_node \<Rightarrow> stored_node \<Rightarrow> stored_node" where
  "merge_node old new = new\<lparr>sn_lastSeen := text_max (sn_lastSeen old) (sn_lastSeen new)\<rparr>"

definition redirect_step ::
  "time \<Rightarrow> string \<times> string \<Rightarrow> stored_redirect list \<times> bool \<Rightarrow> stored_redirect list \<times> bool" where
  "redirect_step updatedAt entry acc =
     (let (fromID, toID) = entry; (rows, changed) = acc
      in if fromID = [] \<or> toID = [] \<or> fromID = toID then acc
         else (upsert sd_fromID (\<lambda>_ new. new) \<lparr>sd_fromID = fromID, sd_toID = toID, sd_updatedAt = updatedAt\<rparr> rows,
               changed \<or> map_option sd_toID (find_row sd_fromID fromID rows) \<noteq> Some toID))"

definition control_step :: "(string, string) gomap \<Rightarrow> string \<Rightarrow> string set \<Rightarrow> string set" where
  "control_step redirects fromID control =
     (if resolveNodeID redirects fromID \<in> control then insert fromID control else control)"

definition control_nodes :: "history_metadata \<Rightarrow> string set" where
  "control_nodes m = fold (control_step (hm_redirects m)) (mkeys (hm_redirects m)) (set (hm_controlNodeIDs m))"

definition mark_control :: "string set \<Rightarrow> history_edge \<Rightarrow> history_edge" where
  "mark_control control e =
     (if he_sourceID e \<in> control \<or> he_targetID e \<in> control then e\<lparr>he_systemTelemetry := True\<rparr> else e)"

definition recordHistoryMetadata :: "history_metadata \<Rightarrow> time \<Rightarrow> database \<Rightarrow> database" where
  "recordHistoryMetadata m updatedAt db =
     (let (redirects, changed) = fold (redirect_step updatedAt) (hm_redirects m) (db_redirects db, False);
          db1 = db\<lparr>db_nodes := fold (upsert sn_nodeID merge_node \<circ> node_row) (hm_nodes m) (db_nodes db),
                   db_redirects := redirects,
                   db_edges := map (mark_control (control_nodes m)) (db_edges db)\<rparr>
      in if changed then rebuildHistoryEdgeMap updatedAt db1 else db1)"

section \<open>Reports and checkpoints\<close>

definition relayHintPresence :: "string \<Rightarrow> string" where
  "relayHintPresence v = (if v = [] then [] else ''present'')"

definition redact_session :: "relay_session_observation \<Rightarrow> relay_session_observation" where
  "redact_session s =
     s\<lparr>rs_source := (rs_source s)\<lparr>rc_discoShort := relayHintPresence (rc_discoShort (rs_source s))\<rparr>,
       rs_target := (rs_target s)\<lparr>rc_discoShort := relayHintPresence (rc_discoShort (rs_target s))\<rparr>\<rparr>"

definition reportWithRedactedRelayHints :: "report_envelope \<Rightarrow> report_envelope" where
  "reportWithRedactedRelayHints r = r\<lparr>re_relaySessions := map redact_session (re_relaySessions r)\<rparr>"

datatype store_error = DatabaseFailed

definition write_checkpoint :: "json \<Rightarrow> int \<Rightarrow> time \<Rightarrow> database \<Rightarrow> database" where
  "write_checkpoint payload lastRow updatedAt db =
     db\<lparr>db_runtimeState := Some \<lparr>ck_payload = payload, ck_lastReportRowID = lastRow, ck_updatedAt = updatedAt\<rparr>\<rparr>"

definition RecordWithMetadata ::
  "bool \<Rightarrow> report_envelope \<Rightarrow> time \<Rightarrow> json option \<Rightarrow> accepted_traffic list \<Rightarrow> path_transition list \<Rightarrow>
   history_metadata option \<Rightarrow> database \<Rightarrow> (store_error + bool) \<times> database" where
  "RecordWithMetadata disk report receivedAt runtimeState traffic transitions metadata db =
     (if \<not> disk then (Inl DatabaseFailed, db)
      else if re_reportID report \<in> (re_reportID \<circ> sr_report) ` set (db_reports db) then (Inr False, db)
      else
        (let rowID = max_rowid db + 1;
             db1 = db\<lparr>db_reports := db_reports db @
               [\<lparr>sr_rowid = rowID, sr_report = reportWithRedactedRelayHints report, sr_receivedAt = receivedAt\<rparr>]\<rparr>;
             db2 = (case runtimeState of
                      None \<Rightarrow> db1
                    | Some payload \<Rightarrow> write_checkpoint (checkpointWithoutRelayDiscoHints payload) rowID receivedAt db1);
             db3 = fold recordTraffic traffic db2;
             db4 = fold recordPathTransition transitions db3;
             db5 = (case metadata of None \<Rightarrow> db4 | Some m \<Rightarrow> recordHistoryMetadata m receivedAt db4)
         in (Inr True, db5)))"

definition SaveHistoryMetadata ::
  "bool \<Rightarrow> history_metadata \<Rightarrow> time \<Rightarrow> database \<Rightarrow> (store_error + unit) \<times> database" where
  "SaveHistoryMetadata disk metadata updatedAt db =
     (if disk then (Inr (), recordHistoryMetadata metadata updatedAt db) else (Inl DatabaseFailed, db))"

definition SaveCheckpoint ::
  "bool \<Rightarrow> json \<Rightarrow> int \<Rightarrow> time \<Rightarrow> database \<Rightarrow> (store_error + unit) \<times> database" where
  "SaveCheckpoint disk payload lastRow updatedAt db =
     (if disk then (Inr (), write_checkpoint (checkpointWithoutRelayDiscoHints payload) lastRow updatedAt db)
      else (Inl DatabaseFailed, db))"

definition SaveState :: "bool \<Rightarrow> json \<Rightarrow> time \<Rightarrow> database \<Rightarrow> (store_error + unit) \<times> database" where
  "SaveState disk payload updatedAt db = SaveCheckpoint disk payload (max_rowid db) updatedAt db"

definition SaveCheckpointWithMetadata ::
  "bool \<Rightarrow> json \<Rightarrow> history_metadata \<Rightarrow> time \<Rightarrow> database \<Rightarrow> (store_error + unit) \<times> database" where
  "SaveCheckpointWithMetadata disk payload metadata updatedAt db =
     (if disk then
        (Inr (), recordHistoryMetadata metadata updatedAt
           (write_checkpoint (checkpointWithoutRelayDiscoHints payload) (max_rowid db) updatedAt db))
      else (Inl DatabaseFailed, db))"

text \<open>Without a checkpoint the code returns the zero value: no payload, rowid 0, the zero time.\<close>

definition RestoreCheckpoint :: "database \<Rightarrow> json option \<times> int \<times> time" where
  "RestoreCheckpoint db =
     (case db_runtimeState db of
        None \<Rightarrow> (None, 0, 0)
      | Some c \<Rightarrow> (Some (ck_payload c), ck_lastReportRowID c, ck_updatedAt c))"

definition RestoreReportsAfter :: "int \<Rightarrow> database \<Rightarrow> stored_report list" where
  "RestoreReportsAfter lastRow db =
     sort_slice (\<lambda>a b. sr_rowid a < sr_rowid b) (filter (\<lambda>r. sr_rowid r > lastRow) (db_reports db))"

definition RestoreReports :: "database \<Rightarrow> stored_report list" where
  "RestoreReports db = RestoreReportsAfter 0 db"

end
