(* ===== verification/Store_Rollup.thy ===== *)
theory Store_Rollup
  imports Store_Tables
begin

text \<open>
  The maintenance of the history (\<open>internal/store/history_rollup.go\<close> and \<open>Maintain\<close> of
  \<open>sqlite.go\<close>): traffic buckets are rolled up into minutes and minutes into hours, each layer up
  to a cursor; what a coarser layer covers and a retention time has passed is deleted, and so are
  path events before the history window, but for the last one of every edge still in use.

  The aggregates of the SQL are functions on the lists of rows: \<open>SUM\<close>, \<open>MIN\<close> and \<open>MAX\<close> of no rows
  are NULL, here \<open>None\<close>. Where SQL leaves open the row a plain column of a group is taken from, the
  model takes the first.
\<close>

definition rawTrafficRetention :: duration where "rawTrafficRetention = hour"
definition minuteTrafficRetention :: duration where "minuteTrafficRetention = 48 * hour"
definition hourTrafficRetention :: duration where "hourTrafficRetention = 7 * 24 * hour"
definition minuteRollupGrace :: duration where "minuteRollupGrace = 2 * minute"

datatype rollup_error = MinuteCursorMissing | HourCursorMissing | HistoryEdgeMissing

record logical_traffic =
  lt_edgeID :: string
  lt_sourceID :: string
  lt_targetID :: string
  lt_aToBBytes :: int
  lt_bToABytes :: int

section \<open>SQL aggregates\<close>

definition sum_of :: "int list \<Rightarrow> int option" where
  "sum_of xs = (if xs = [] then None else Some (sum_list xs))"

definition max_of :: "int list \<Rightarrow> int option" where
  "max_of xs = (case xs of [] \<Rightarrow> None | x # rest \<Rightarrow> Some (fold max rest x))"

definition min_text :: "string list \<Rightarrow> string" where
  "min_text xs = (case xs of [] \<Rightarrow> [] | x # rest \<Rightarrow> fold min rest x)"

fun coalesce :: "int option list \<Rightarrow> int" where
  "coalesce [] = 0"
| "coalesce (Some v # _) = v"
| "coalesce (None # rest) = coalesce rest"

text \<open>\<open>WHERE bucket_start >= ? AND bucket_start < ?\<close>\<close>

definition text_in :: "time \<Rightarrow> time \<Rightarrow> time \<Rightarrow> bool" where
  "text_in start stop t \<longleftrightarrow> \<not> formatTime t < formatTime start \<and> formatTime t < formatTime stop"

section \<open>Traffic of several observers\<close>

text \<open>
  The bytes of one edge in one bucket, once for each end and once for each observer between them:
  the sender's count, or else the receiver's, or else the largest of the others.
\<close>

definition observed_aToB :: "traffic_bucket list \<Rightarrow> int" where
  "observed_aToB rows =
     coalesce
       [sum_of (map tb_aToBBytes (filter (\<lambda>r. tb_observerID r = tb_sourceID r) rows)),
        sum_of (map tb_aToBBytes (filter (\<lambda>r. tb_observerID r = tb_targetID r) rows)),
        max_of (map tb_aToBBytes (filter (\<lambda>r. tb_observerID r \<noteq> tb_sourceID r \<and> tb_observerID r \<noteq> tb_targetID r) rows))]"

definition observed_bToA :: "traffic_bucket list \<Rightarrow> int" where
  "observed_bToA rows =
     coalesce
       [sum_of (map tb_bToABytes (filter (\<lambda>r. tb_observerID r = tb_targetID r) rows)),
        sum_of (map tb_bToABytes (filter (\<lambda>r. tb_observerID r = tb_sourceID r) rows)),
        max_of (map tb_bToABytes (filter (\<lambda>r. tb_observerID r \<noteq> tb_sourceID r \<and> tb_observerID r \<noteq> tb_targetID r) rows))]"

definition edges_of :: "('r \<Rightarrow> string) \<Rightarrow> 'r list \<Rightarrow> string list" where
  "edges_of key rows = sort (remdups (map key rows))"

definition starts_of :: "('r \<Rightarrow> time) \<Rightarrow> 'r list \<Rightarrow> time list" where
  "starts_of start rows = sort_slice (\<lambda>t u. formatTime t < formatTime u) (remdups (map start rows))"

definition bucket_rows :: "time \<Rightarrow> traffic_bucket list \<Rightarrow> traffic_bucket list" where
  "bucket_rows t rows = filter (\<lambda>r. tb_bucketStart r = t) rows"

definition raw_edge_traffic :: "traffic_bucket list \<Rightarrow> string \<Rightarrow> logical_traffic" where
  "raw_edge_traffic rows edgeID =
     (let mine = filter (\<lambda>r. tb_edgeID r = edgeID) rows; starts = starts_of tb_bucketStart mine;
          first = bucket_rows (hd starts) mine
      in \<lparr>lt_edgeID = edgeID, lt_sourceID = min_text (map tb_sourceID first),
          lt_targetID = min_text (map tb_targetID first),
          lt_aToBBytes = sum_list (map (\<lambda>t. observed_aToB (bucket_rows t mine)) starts),
          lt_bToABytes = sum_list (map (\<lambda>t. observed_bToA (bucket_rows t mine)) starts)\<rparr>)"

definition logicalRawTraffic :: "time \<Rightarrow> time \<Rightarrow> database \<Rightarrow> logical_traffic list" where
  "logicalRawTraffic start stop db =
     (let rows = filter (\<lambda>r. text_in start stop (tb_bucketStart r)) (db_buckets db)
      in map (raw_edge_traffic rows) (edges_of tb_edgeID rows))"

section \<open>Traffic of logical edges\<close>

definition oriented :: "edge_mapping \<Rightarrow> rollup_row \<Rightarrow> int \<times> int" where
  "oriented m r = (if em_reversed m then (ru_bToABytes r, ru_aToBBytes r) else (ru_aToBBytes r, ru_bToABytes r))"

definition joined :: "edge_mapping list \<Rightarrow> rollup_row list \<Rightarrow> (rollup_row \<times> edge_mapping) list" where
  "joined mappings rows =
     concat (map (\<lambda>r. map (Pair r) (filter (\<lambda>m. em_physicalID m = ru_edgeID r) mappings)) rows)"

definition minute_group :: "time \<Rightarrow> (rollup_row \<times> edge_mapping) list \<Rightarrow> (rollup_row \<times> edge_mapping) list" where
  "minute_group t rows = filter (\<lambda>p. ru_bucketStart (fst p) = t) rows"

definition minute_edge_traffic :: "(rollup_row \<times> edge_mapping) list \<Rightarrow> string \<Rightarrow> logical_traffic" where
  "minute_edge_traffic rows edgeID =
     (let mine = filter (\<lambda>p. em_logicalID (snd p) = edgeID) rows; starts = starts_of (ru_bucketStart \<circ> fst) mine;
          value = (\<lambda>f t. coalesce [max_of (map (\<lambda>(r, m). f (oriented m r)) (minute_group t mine))])
      in \<lparr>lt_edgeID = edgeID,
          lt_sourceID = min_text (map (\<lambda>t. em_logicalSourceID (snd (hd (minute_group t mine)))) starts),
          lt_targetID = min_text (map (\<lambda>t. em_logicalTargetID (snd (hd (minute_group t mine)))) starts),
          lt_aToBBytes = sum_list (map (value fst) starts), lt_bToABytes = sum_list (map (value snd) starts)\<rparr>)"

definition logicalMinuteTraffic :: "time \<Rightarrow> time \<Rightarrow> database \<Rightarrow> logical_traffic list" where
  "logicalMinuteTraffic start stop db =
     (let rows = joined (db_edgeMap db) (filter (\<lambda>r. text_in start stop (ru_bucketStart r)) (db_minutes db))
      in map (minute_edge_traffic rows) (edges_of (em_logicalID \<circ> snd) rows))"

definition persistLogicalHourEdge :: "logical_traffic \<Rightarrow> time \<Rightarrow> database \<Rightarrow> rollup_error + database" where
  "persistLogicalHourEdge r updatedAt db =
     (case filter (\<lambda>e. \<exists>m \<in> set (db_edgeMap db). em_physicalID m = he_edgeID e \<and> em_logicalID m = lt_edgeID r)
             (db_edges db) of
        [] \<Rightarrow> Inl HistoryEdgeMissing
      | e # rest \<Rightarrow>
          Inr (db\<lparr>db_edges := upsert he_edgeID
                    (\<lambda>old new. (merge_edge old new)\<lparr>he_sourceID := he_sourceID new, he_targetID := he_targetID new\<rparr>)
                    \<lparr>he_edgeID = lt_edgeID r, he_sourceID = lt_sourceID r, he_targetID = lt_targetID r,
                     he_firstTrafficAt = fold (\<lambda>x t. text_min t (he_firstTrafficAt x)) rest (he_firstTrafficAt e),
                     he_lastTrafficAt = fold (\<lambda>x t. text_max t (he_lastTrafficAt x)) rest (he_lastTrafficAt e),
                     he_systemTelemetry = (\<exists>x \<in> set (e # rest). he_systemTelemetry x)\<rparr> (db_edges db),
                  db_edgeMap := upsert em_physicalID (\<lambda>_ new. new)
                    \<lparr>em_physicalID = lt_edgeID r, em_logicalID = lt_edgeID r, em_logicalSourceID = lt_sourceID r,
                     em_logicalTargetID = lt_targetID r, em_reversed = False, em_updatedAt = updatedAt\<rparr> (db_edgeMap db)\<rparr>))"

section \<open>The two layers\<close>

datatype layer = MinuteLayer | HourLayer

fun layer_name :: "layer \<Rightarrow> string" where
  "layer_name MinuteLayer = ''minute''"
| "layer_name HourLayer = ''hour''"

fun layer_interval :: "layer \<Rightarrow> duration" where
  "layer_interval MinuteLayer = minute"
| "layer_interval HourLayer = hour"

fun source_starts :: "layer \<Rightarrow> database \<Rightarrow> time list" where
  "source_starts MinuteLayer db = map tb_bucketStart (db_buckets db)"
| "source_starts HourLayer db = map ru_bucketStart (db_minutes db)"

fun layer_records :: "layer \<Rightarrow> time \<Rightarrow> time \<Rightarrow> database \<Rightarrow> logical_traffic list" where
  "layer_records MinuteLayer start stop db = logicalRawTraffic start stop db"
| "layer_records HourLayer start stop db = logicalMinuteTraffic start stop db"

definition rollup_row_of :: "time \<Rightarrow> logical_traffic \<Rightarrow> rollup_row" where
  "rollup_row_of start r =
     \<lparr>ru_edgeID = lt_edgeID r, ru_bucketStart = start, ru_sourceID = lt_sourceID r, ru_targetID = lt_targetID r,
      ru_aToBBytes = lt_aToBBytes r, ru_bToABytes = lt_bToABytes r\<rparr>"

definition rollup_key :: "rollup_row \<Rightarrow> string \<times> time" where
  "rollup_key r = (ru_edgeID r, ru_bucketStart r)"

fun layer_write :: "layer \<Rightarrow> time \<Rightarrow> time \<Rightarrow> logical_traffic \<Rightarrow> database \<Rightarrow> rollup_error + database" where
  "layer_write MinuteLayer start next_start r db =
     Inr (db\<lparr>db_minutes := upsert rollup_key (\<lambda>_ new. new) (rollup_row_of start r) (db_minutes db)\<rparr>)"
| "layer_write HourLayer start next_start r db =
     (case persistLogicalHourEdge r next_start db of
        Inl e \<Rightarrow> Inl e
      | Inr db1 \<Rightarrow> Inr (db1\<lparr>db_hours := upsert rollup_key (\<lambda>_ new. new) (rollup_row_of start r) (db_hours db1)\<rparr>))"

fun write_records ::
  "layer \<Rightarrow> time \<Rightarrow> time \<Rightarrow> logical_traffic list \<Rightarrow> database \<Rightarrow> rollup_error + database" where
  "write_records l start next_start [] db = Inr db"
| "write_records l start next_start (r # rest) db =
     (case layer_write l start next_start r db of
        Inl e \<Rightarrow> Inl e | Inr db1 \<Rightarrow> write_records l start next_start rest db1)"

definition maintenanceCursor :: "string \<Rightarrow> database \<Rightarrow> time option" where
  "maintenanceCursor name db = map_of (db_maintenance db) name"

definition saveMaintenanceCursor :: "string \<Rightarrow> time \<Rightarrow> database \<Rightarrow> database" where
  "saveMaintenanceCursor name t db = db\<lparr>db_maintenance := mput name t (db_maintenance db)\<rparr>"

function roll_up :: "layer \<Rightarrow> time \<Rightarrow> time \<Rightarrow> database \<Rightarrow> rollup_error + database" where
  "roll_up l start stop db =
     (if \<not> start < stop then Inr db
      else
        (let next_start = start + layer_interval l
         in case write_records l start next_start (layer_records l start next_start db) db of
              Inl e \<Rightarrow> Inl e
            | Inr db1 \<Rightarrow> roll_up l next_start stop (saveMaintenanceCursor (layer_name l) next_start db1)))"
  by pat_completeness auto
termination
proof (relation "measure (\<lambda>(l, start, stop, db). nat (stop - start))", goal_cases)
  case (2 l start stop db)
  have "0 < layer_interval l" by (cases l) (simp_all add: minute_def hour_def second_def)
  with 2 show ?case by simp
qed simp

declare roll_up.simps [simp del]

text \<open>\<open>SELECT MIN(bucket_start)\<close> takes the least text.\<close>

definition first_start :: "layer \<Rightarrow> database \<Rightarrow> time option" where
  "first_start l db = (case source_starts l db of [] \<Rightarrow> None | t # rest \<Rightarrow> Some (fold (\<lambda>u m. text_min m u) rest t))"

definition rollupIntervals :: "layer \<Rightarrow> time \<Rightarrow> database \<Rightarrow> rollup_error + database" where
  "rollupIntervals l stop db =
     (case maintenanceCursor (layer_name l) db of
        Some start \<Rightarrow> roll_up l start stop db
      | None \<Rightarrow>
          (case first_start l db of
             None \<Rightarrow> Inr (saveMaintenanceCursor (layer_name l) stop db)
           | Some t \<Rightarrow>
               let start = truncate_to (layer_interval l) t
               in if \<not> start < stop then Inr (saveMaintenanceCursor (layer_name l) stop db)
                  else roll_up l start stop db))"

section \<open>Deletion\<close>

definition earlierTime :: "time \<Rightarrow> time \<Rightarrow> time" where
  "earlierTime left right = (if left < right then left else right)"

definition keep_from :: "time \<Rightarrow> ('r \<Rightarrow> time) \<Rightarrow> 'r list \<Rightarrow> 'r list" where
  "keep_from cutoff start rows = filter (\<lambda>r. \<not> formatTime (start r) < formatTime cutoff) rows"

definition deleteCoveredTraffic :: "time \<Rightarrow> time \<Rightarrow> time \<Rightarrow> database \<Rightarrow> database" where
  "deleteCoveredTraffic now minuteCoverage hourCoverage db =
     db\<lparr>db_buckets := keep_from (earlierTime (now - rawTrafficRetention) minuteCoverage) tb_bucketStart (db_buckets db),
        db_minutes := keep_from (earlierTime (now - minuteTrafficRetention) hourCoverage) ru_bucketStart (db_minutes db),
        db_hours := keep_from (now - hourTrafficRetention) ru_bucketStart (db_hours db)\<rparr>"

definition event_less :: "path_event \<Rightarrow> path_event \<Rightarrow> bool" where
  "event_less a b \<longleftrightarrow>
     formatPathEventTime (pv_observedAt a) < formatPathEventTime (pv_observedAt b) \<or>
     \<not> formatPathEventTime (pv_observedAt b) < formatPathEventTime (pv_observedAt a) \<and> pv_id a < pv_id b"

definition event_before :: "time \<Rightarrow> path_event \<Rightarrow> bool" where
  "event_before cutoff e \<longleftrightarrow> formatPathEventTime (pv_observedAt e) < formatPathEventTime cutoff"

definition logical_ids :: "edge_mapping list \<Rightarrow> string \<Rightarrow> string list" where
  "logical_ids mappings physicalID = map em_logicalID (filter (\<lambda>m. em_physicalID m = physicalID) mappings)"

definition edge_in_use :: "time \<Rightarrow> database \<Rightarrow> string \<Rightarrow> bool" where
  "edge_in_use cutoff db logicalID \<longleftrightarrow>
     (\<exists>e \<in> set (db_edges db). logicalID \<in> set (logical_ids (db_edgeMap db) (he_edgeID e)) \<and>
        \<not> formatTime (he_lastTrafficAt e) < formatTime cutoff)"

text \<open>\<open>ORDER BY observed_at DESC, id DESC LIMIT 1\<close>\<close>

definition last_event :: "path_event list \<Rightarrow> path_event option" where
  "last_event events =
     (case events of [] \<Rightarrow> None | e # rest \<Rightarrow> Some (fold (\<lambda>x m. if event_less m x then x else m) rest e))"

definition anchor_of :: "time \<Rightarrow> database \<Rightarrow> string \<Rightarrow> path_event option" where
  "anchor_of cutoff db logicalID =
     last_event (filter (\<lambda>e. logicalID \<in> set (logical_ids (db_edgeMap db) (pv_edgeID e)) \<and> event_before cutoff e) (db_events db))"

definition is_anchor :: "time \<Rightarrow> database \<Rightarrow> path_event \<Rightarrow> bool" where
  "is_anchor cutoff db e \<longleftrightarrow>
     (\<exists>logicalID \<in> set (logical_ids (db_edgeMap db) (pv_edgeID e)).
        edge_in_use cutoff db logicalID \<and> map_option pv_id (anchor_of cutoff db logicalID) = Some (pv_id e))"

definition maintainPathAnchors :: "time \<Rightarrow> database \<Rightarrow> database" where
  "maintainPathAnchors cutoff db =
     db\<lparr>db_events := filter (\<lambda>e. \<not> event_before cutoff e \<or>
          (\<exists>a \<in> set (db_events db). pv_id a = pv_id e \<and> is_anchor cutoff db a)) (db_events db)\<rparr>"

section \<open>Maintenance\<close>

definition rollupHistory :: "time \<Rightarrow> database \<Rightarrow> rollup_error + database" where
  "rollupHistory now db =
     (case rollupIntervals MinuteLayer (truncate_to minute (now - minuteRollupGrace)) db of
        Inl e \<Rightarrow> Inl e
      | Inr db1 \<Rightarrow>
          (case maintenanceCursor ''minute'' db1 of
             None \<Rightarrow> Inl MinuteCursorMissing
           | Some minuteCoverage \<Rightarrow>
               (case rollupIntervals HourLayer (earlierTime (truncate_to hour now) (truncate_to hour minuteCoverage)) db1 of
                  Inl e \<Rightarrow> Inl e
                | Inr db2 \<Rightarrow>
                    (case maintenanceCursor ''hour'' db2 of
                       None \<Rightarrow> Inl HourCursorMissing
                     | Some hourCoverage \<Rightarrow>
                         Inr (maintainPathAnchors (now - hourTrafficRetention)
                                (deleteCoveredTraffic now minuteCoverage hourCoverage db2))))))"

datatype maintain_error = MaintainDatabase store_error | MaintainRollup rollup_error

definition drop_reports :: "database \<Rightarrow> database" where
  "drop_reports db =
     (case db_runtimeState db of
        Some c \<Rightarrow> if ck_lastReportRowID c > 0
                  then db\<lparr>db_reports := filter (\<lambda>r. \<not> sr_rowid r \<le> ck_lastReportRowID c) (db_reports db)\<rparr> else db
      | None \<Rightarrow> db)"

definition Maintain :: "bool \<Rightarrow> time \<Rightarrow> database \<Rightarrow> (maintain_error + unit) \<times> database" where
  "Maintain disk now db =
     (if \<not> disk then (Inl (MaintainDatabase DatabaseFailed), db)
      else case rollupHistory now (drop_reports db) of
        Inl e \<Rightarrow> (Inl (MaintainRollup e), db)
      | Inr db1 \<Rightarrow> (Inr (), db1))"

end
