(* ===== verification/Store_Facts.thy ===== *)
theory Store_Facts
  imports Store_Rollup
begin

text \<open>
  The invariants of the history store: rows are unique by their keys, the map from physical to
  logical edges is the one the redirects give, and maintenance never fails.
\<close>

section \<open>Redirects\<close>

lemma smallest_in: "smallest m xs \<in> insert m (set xs)"
  by (induction xs arbitrary: m) (auto split: if_splits)

lemma smallest_le: "smallest m xs \<le> m \<and> (\<forall>x \<in> set xs. smallest m xs \<le> x)"
proof (induction xs arbitrary: m)
  case (Cons x xs)
  from Cons.IH [of "if x < m then x else m"] show ?case by (auto split: if_splits intro: order_trans)
qed simp

text \<open>A set of nodes that redirects lead around in.\<close>

definition closed_under :: "(string, string) gomap \<Rightarrow> string set \<Rightarrow> bool" where
  "closed_under redirects S \<longleftrightarrow> (\<forall>x \<in> S. str_at redirects x \<noteq> [] \<and> str_at redirects x \<in> S)"

lemma resolve_in_cycle:
  "closed_under r S \<Longrightarrow> x \<in> S \<Longrightarrow> set visited \<subseteq> S \<Longrightarrow> m \<in> insert x (set visited) \<Longrightarrow> m \<in> S \<Longrightarrow> \<forall>y \<in> S. m \<le> y \<Longrightarrow>
   resolve_node r visited x = m"
proof (induction r visited x rule: resolve_node.induct)
  case (1 r visited x)
  have next_in: "str_at r x \<noteq> []" "str_at r x \<in> S" using 1(2,3) by (auto simp: closed_under_def)
  show ?case
  proof (cases "x \<in> set visited")
    case True
    have "smallest x visited \<in> S" using smallest_in [of x visited] 1(3,4) by auto
    then have "m \<le> smallest x visited" using 1(7) by blast
    moreover have "smallest x visited \<le> m" using smallest_le [of x visited] 1(5) by auto
    ultimately show ?thesis using True next_in by (subst resolve_node.simps) simp
  next
    case False
    have "resolve_node r (x # visited) (str_at r x) = m"
      using 1(1) [OF next_in(1) False 1(2) next_in(2)] 1(3-7) by auto
    then show ?thesis using False next_in by (subst resolve_node.simps) simp
  qed
qed

lemma resolve_node_end:
  "(\<forall>v \<in> set visited. str_at r v \<noteq> [] \<and> str_at r v \<in> insert x (set visited)) \<Longrightarrow>
   str_at r (resolve_node r visited x) = [] \<or>
   (\<exists>S. closed_under r S \<and> resolve_node r visited x \<in> S \<and> (\<forall>y \<in> S. resolve_node r visited x \<le> y))"
proof (induction r visited x rule: resolve_node.induct)
  case (1 r visited x)
  consider (stop) "str_at r x = []" | (cycle) "str_at r x \<noteq> []" "x \<in> set visited"
    | (go) "str_at r x \<noteq> []" "x \<notin> set visited" by blast
  then show ?case
  proof cases
    case stop
    then show ?thesis by (subst resolve_node.simps) simp
  next
    case cycle
    have "closed_under r (set visited)" using 1(2) cycle(2) by (auto simp: closed_under_def)
    moreover have "resolve_node r visited x = smallest x visited" using cycle by (subst resolve_node.simps) simp
    moreover have "smallest x visited \<in> set visited" using smallest_in [of x visited] cycle(2) by auto
    ultimately show ?thesis using smallest_le [of x visited] by auto
  next
    case go
    have "resolve_node r visited x = resolve_node r (x # visited) (str_at r x)"
      using go by (subst resolve_node.simps) simp
    moreover have "\<forall>v \<in> set (x # visited). str_at r v \<noteq> [] \<and> str_at r v \<in> insert (str_at r x) (set (x # visited))"
      using 1(2) go by auto
    ultimately show ?thesis using 1(1) [OF go] by simp
  qed
qed

lemma resolveNodeID_idem: "resolveNodeID r (resolveNodeID r x) = resolveNodeID r x"
proof -
  define y where "y = resolve_node r [] x"
  have fixed: "resolve_node r [] y = y"
  proof -
    have "str_at r y = [] \<or> (\<exists>S. closed_under r S \<and> y \<in> S \<and> (\<forall>z \<in> S. y \<le> z))"
      using resolve_node_end [of "[]" r x] unfolding y_def by simp
    then show ?thesis
  proof
    assume "str_at r y = []"
    then show ?thesis by (subst resolve_node.simps) simp
  next
    assume "\<exists>S. closed_under r S \<and> y \<in> S \<and> (\<forall>z \<in> S. y \<le> z)"
    then show ?thesis using resolve_in_cycle [of r _ y "[]" y] by auto
  qed
  qed
  then show ?thesis by (simp add: resolveNodeID_def flip: y_def)
qed

lemma resolve_node_property:
  "P x \<Longrightarrow> (\<forall>v \<in> set visited. P v) \<Longrightarrow> (\<forall>a b. (a, b) \<in> set r \<longrightarrow> P b) \<Longrightarrow> P (resolve_node r visited x)"
proof (induction r visited x rule: resolve_node.induct)
  case (1 r visited x)
  have "P (str_at r x)" if "str_at r x \<noteq> []"
    using that 1(4) by (auto simp: str_at_def split: option.splits dest: map_of_SomeD)
  moreover have "P (smallest x visited)" using smallest_in [of x visited] 1(2,3) by auto
  ultimately show ?case using 1 by (subst resolve_node.simps) auto
qed

section \<open>Tables\<close>

text \<open>An update keeps the key of the row it changes.\<close>

definition keeps_key :: "('r \<Rightarrow> 'k) \<Rightarrow> ('r \<Rightarrow> 'r \<Rightarrow> 'r) \<Rightarrow> 'r \<Rightarrow> bool" where
  "keeps_key key merge row \<longleftrightarrow> (\<forall>r. key r = key row \<longrightarrow> key (merge r row) = key row)"

lemma updated_keys:
  assumes "keeps_key key merge row"
  shows "map key (map (\<lambda>r. if key r = key row then merge r row else r) rows) = map key rows"
  using assms by (simp add: keeps_key_def)

lemma upsert_map_key:
  assumes "keeps_key key merge row"
  shows "map key (upsert key merge row rows) =
    (if key row \<in> key ` set rows then map key rows else map key rows @ [key row])"
  using updated_keys [OF assms, of rows] by (simp add: upsert_def)

lemma upsert_keys:
  assumes "keeps_key key merge row"
  shows "key ` set (upsert key merge row rows) = insert (key row) (key ` set rows)"
  using arg_cong [OF upsert_map_key [OF assms, of rows], of set] by auto

lemma upsert_distinct:
  assumes "keeps_key key merge row" "distinct (map key rows)"
  shows "distinct (map key (upsert key merge row rows))"
  using assms by (simp add: upsert_map_key)

lemma upsert_set:
  assumes "r \<in> set (upsert key merge row rows)"
  obtains (other) "r \<in> set rows" "key r \<noteq> key row" | (new) "r = row" "key row \<notin> key ` set rows"
  | (merged) old where "old \<in> set rows" "key old = key row" "r = merge old row"
proof (cases "key row \<in> key ` set rows")
  case True
  then show ?thesis using assms that by (auto simp: upsert_def split: if_splits)
next
  case False
  then have "r \<in> set rows \<Longrightarrow> key r \<noteq> key row" by (metis image_eqI)
  then show ?thesis using False assms that by (auto simp: upsert_def)
qed

lemma find_row_append: "find_row key k (xs @ ys) = (case find_row key k xs of None \<Rightarrow> find_row key k ys | Some r \<Rightarrow> Some r)"
  by (induction xs) (auto simp: find_row_def)

lemma find_row_None: "find_row key k rows = None \<longleftrightarrow> k \<notin> key ` set rows"
  by (auto simp: find_row_def find_None_iff)

lemma find_row_update:
  assumes "keeps_key key merge row"
  shows "find_row key k (map (\<lambda>r. if key r = key row then merge r row else r) rows) =
    (if k = key row then map_option (\<lambda>old. merge old row) (find_row key k rows) else find_row key k rows)"
proof (induction rows)
  case (Cons r rows)
  have "key r = key row \<Longrightarrow> key (merge r row) = key row" using assms by (simp add: keeps_key_def)
  with Cons show ?case by (auto simp: find_row_def)
qed (simp add: find_row_def)

lemma find_row_upsert:
  assumes "keeps_key key merge row"
  shows "find_row key k (upsert key merge row rows) =
    (if k = key row then Some (case find_row key k rows of None \<Rightarrow> row | Some old \<Rightarrow> merge old row)
     else find_row key k rows)"
proof (cases "key row \<in> key ` set rows")
  case True
  then obtain old where "find_row key (key row) rows = Some old"
    using find_row_None [of key "key row" rows] by fastforce
  then show ?thesis using True find_row_update [OF assms, of k rows] by (simp add: upsert_def)
next
  case False
  then have "find_row key (key row) rows = None" by (simp add: find_row_None)
  moreover have "find_row key k [row] = (if k = key row then Some row else None)" for k by (simp add: find_row_def)
  ultimately show ?thesis using False by (simp add: upsert_def find_row_append split: option.splits)
qed

lemma find_row_filter:
  "find_row key k (filter (\<lambda>r. key r \<noteq> k') rows) = (if k = k' then None else find_row key k rows)"
  by (induction rows) (auto simp: find_row_def)

lemma find_row_in: "find_row key k rows = Some r \<Longrightarrow> r \<in> set rows \<and> key r = k"
  by (auto simp: find_row_def find_Some_iff)

lemma find_row_distinct:
  "distinct (map key rows) \<Longrightarrow> r \<in> set rows \<Longrightarrow> find_row key (key r) rows = Some r"
  by (induction rows) (auto simp: find_row_def)

section \<open>The invariant\<close>

definition edge_entry :: "(string, string) gomap \<Rightarrow> string \<Rightarrow> string \<Rightarrow> (string \<times> string \<times> string \<times> bool) option" where
  "edge_entry redirects sourceID targetID =
     (let a = resolveNodeID redirects sourceID; b = resolveNodeID redirects targetID;
          (l, s, t) = EdgeID a b
      in if a = b then None else Some (l, s, t, a \<noteq> s))"

definition mapping_entry :: "edge_mapping \<Rightarrow> string \<times> string \<times> string \<times> bool" where
  "mapping_entry m = (em_logicalID m, em_logicalSourceID m, em_logicalTargetID m, em_reversed m)"

definition map_entry :: "edge_mapping list \<Rightarrow> string \<Rightarrow> (string \<times> string \<times> string \<times> bool) option" where
  "map_entry rows edgeID = map_option mapping_entry (find_row em_physicalID edgeID rows)"

text \<open>Edges are named by their ends, and node ids have no dash.\<close>

definition named :: "string \<Rightarrow> string \<Rightarrow> string \<Rightarrow> bool" where
  "named edgeID a b \<longleftrightarrow> EdgeID a b = (edgeID, a, b) \<and> dash_free a \<and> dash_free b"

definition named_edge :: "history_edge \<Rightarrow> bool" where
  "named_edge e \<longleftrightarrow> named (he_edgeID e) (he_sourceID e) (he_targetID e)"

definition map_in_sync :: "database \<Rightarrow> bool" where
  "map_in_sync db \<longleftrightarrow> (\<forall>e \<in> set (db_edges db).
     map_entry (db_edgeMap db) (he_edgeID e) = edge_entry (loadCanonicalRedirects db) (he_sourceID e) (he_targetID e))"

definition mapped_edges :: "database \<Rightarrow> bool" where
  "mapped_edges db \<longleftrightarrow> em_physicalID ` set (db_edgeMap db) \<subseteq> he_edgeID ` set (db_edges db)"

definition edges_ok :: "database \<Rightarrow> bool" where
  "edges_ok db \<longleftrightarrow> distinct (map he_edgeID (db_edges db)) \<and> distinct (map em_physicalID (db_edgeMap db)) \<and>
     distinct (map sd_fromID (db_redirects db)) \<and>
     (\<forall>e \<in> set (db_edges db). named_edge e) \<and> (\<forall>r \<in> set (db_redirects db). dash_free (sd_toID r)) \<and>
     mapped_edges db \<and> map_in_sync db"

lemma named_unique: "named e a b \<Longrightarrow> named e c d \<Longrightarrow> a = c \<and> b = d"
  using EdgeID_inj [of a b c d] by (auto simp: named_def edge_key_def)

lemma named_EdgeID:
  assumes "dash_free a" "dash_free b" "EdgeID a b = (l, s, t)"
  shows "named l s t"
proof -
  have "{s, t} = {a, b}" "s \<le> t" "l = s @ ''--'' @ t" using EdgeID_source_le [OF assms(3)] by auto
  then have "EdgeID s t = (l, s, t)" "dash_free s" "dash_free t"
    using EdgeID_ordered [of s t] assms(1,2) by (auto simp: doubleton_eq_iff)
  then show ?thesis by (simp add: named_def)
qed

lemma write_mapping_entry:
  "map_entry (writeHistoryEdgeMapping redirects e rows) k =
    (if k = pg_physicalID e then edge_entry redirects (pg_sourceID e) (pg_targetID e) else map_entry rows k)"
proof (cases "EdgeID (resolveNodeID redirects (pg_sourceID e)) (resolveNodeID redirects (pg_targetID e))")
  case (fields l s t)
  show ?thesis
    by (simp add: writeHistoryEdgeMapping_def map_entry_def edge_entry_def find_row_filter fields
        find_row_upsert keeps_key_def mapping_entry_def Let_def split: option.splits)
qed

lemma write_mapping_keys:
  "em_physicalID ` set (writeHistoryEdgeMapping redirects e rows) \<subseteq> insert (pg_physicalID e) (em_physicalID ` set rows)"
  "distinct (map em_physicalID rows) \<Longrightarrow> distinct (map em_physicalID (writeHistoryEdgeMapping redirects e rows))"
proof -
  obtain l a b where f: "EdgeID (resolveNodeID redirects (pg_sourceID e)) (resolveNodeID redirects (pg_targetID e)) = (l, a, b)"
    by (cases "EdgeID (resolveNodeID redirects (pg_sourceID e)) (resolveNodeID redirects (pg_targetID e))")
  have "em_physicalID ` set (filter P rows) \<subseteq> em_physicalID ` set rows" for P by auto
  then show "em_physicalID ` set (writeHistoryEdgeMapping redirects e rows) \<subseteq> insert (pg_physicalID e) (em_physicalID ` set rows)"
    by (simp add: writeHistoryEdgeMapping_def Let_def f upsert_keys keeps_key_def subset_insertI2)
  show "distinct (map em_physicalID rows) \<Longrightarrow> distinct (map em_physicalID (writeHistoryEdgeMapping redirects e rows))"
    by (simp add: writeHistoryEdgeMapping_def Let_def f upsert_distinct keeps_key_def distinct_map_filter)
qed

section \<open>Traffic\<close>

definition named_traffic :: "accepted_traffic \<Rightarrow> bool" where
  "named_traffic r \<longleftrightarrow> named (at_edgeID r) (at_sourceID r) (at_targetID r)"

lemma merge_edge_keeps [simp]:
  "he_edgeID (merge_edge a b) = he_edgeID a" "he_sourceID (merge_edge a b) = he_sourceID a"
  "he_targetID (merge_edge a b) = he_targetID a"
  by (simp_all add: merge_edge_def)

lemma recordTraffic_edges_ok:
  assumes "edges_ok db" "named_traffic r"
  shows "edges_ok (recordTraffic r db)"
proof -
  let ?edges = "upsert he_edgeID merge_edge (edge_row r) (db_edges db)"
  have kk: "keeps_key he_edgeID merge_edge (edge_row r)" by (simp add: keeps_key_def)
  have row: "he_edgeID (edge_row r) = at_edgeID r" "he_sourceID (edge_row r) = at_sourceID r"
    "he_targetID (edge_row r) = at_targetID r" by (simp_all add: edge_row_def)
  have ends: "named_edge e \<and> (he_edgeID e = at_edgeID r \<longrightarrow> he_sourceID e = at_sourceID r \<and> he_targetID e = at_targetID r) \<and>
      (he_edgeID e \<noteq> at_edgeID r \<longrightarrow> e \<in> set (db_edges db))" if "e \<in> set ?edges" for e
    using that
  proof (cases rule: upsert_set)
    case other
    then show ?thesis using assms(1) row by (simp add: edges_ok_def)
  next
    case new
    then show ?thesis using assms(2) row by (simp add: named_edge_def named_traffic_def)
  next
    case (merged old)
    then have "named_edge old" using assms(1) by (simp add: edges_ok_def)
    then show ?thesis
      using merged row named_unique assms(2) by (auto simp: named_edge_def named_traffic_def)
  qed
  have db': "db_edges (recordTraffic r db) = ?edges" "db_redirects (recordTraffic r db) = db_redirects db"
    "loadCanonicalRedirects (recordTraffic r db) = loadCanonicalRedirects db"
    by (simp_all add: recordTraffic_def upsertHistoryEdgeMapping_def loadCanonicalRedirects_def)
  have map': "db_edgeMap (recordTraffic r db) = writeHistoryEdgeMapping (loadCanonicalRedirects db)
      \<lparr>pg_physicalID = at_edgeID r, pg_sourceID = at_sourceID r, pg_targetID = at_targetID r, pg_updatedAt = at_receivedAt r\<rparr>
      (db_edgeMap db)"
    by (simp add: recordTraffic_def upsertHistoryEdgeMapping_def loadCanonicalRedirects_def)
  have "distinct (map he_edgeID ?edges)" using assms(1) upsert_distinct [OF kk] by (simp add: edges_ok_def)
  moreover have "mapped_edges (recordTraffic r db)"
    using assms(1) write_mapping_keys(1) [of "loadCanonicalRedirects db" "\<lparr>pg_physicalID = at_edgeID r, pg_sourceID = at_sourceID r,
        pg_targetID = at_targetID r, pg_updatedAt = at_receivedAt r\<rparr>" "db_edgeMap db"]
    unfolding mapped_edges_def edges_ok_def db' map' upsert_keys [OF kk] row
    by simp (meson insert_mono order_trans)
  moreover have "map_in_sync (recordTraffic r db)"
    using ends assms(1) by (auto simp: map_in_sync_def db' map' write_mapping_entry edges_ok_def)
  ultimately show ?thesis
    using assms(1) ends write_mapping_keys(2) by (simp add: edges_ok_def db' map')
qed

section \<open>Metadata\<close>

definition plain_metadata :: "history_metadata \<Rightarrow> bool" where
  "plain_metadata m \<longleftrightarrow> (\<forall>(a, b) \<in> set (hm_redirects m). dash_free b)"

definition redirect_pairs :: "stored_redirect list \<Rightarrow> (string, string) gomap" where
  "redirect_pairs rows = map (\<lambda>r. (sd_fromID r, sd_toID r)) rows"

lemma redirect_upsert_same:
  assumes "distinct (map sd_fromID rows)" "map_option sd_toID (find_row sd_fromID a rows) = Some b"
  shows "redirect_pairs (upsert sd_fromID (\<lambda>_ new. new) \<lparr>sd_fromID = a, sd_toID = b, sd_updatedAt = t\<rparr> rows) = redirect_pairs rows"
proof -
  obtain r where r: "find_row sd_fromID a rows = Some r" "sd_toID r = b" using assms(2) by auto
  then have in_rows: "r \<in> set rows" "sd_fromID r = a" using find_row_in by fastforce+
  have "sd_toID x = b" if "x \<in> set rows" "sd_fromID x = a" for x
    using find_row_distinct [OF assms(1) that(1)] that(2) r by simp
  then show ?thesis using in_rows by (force simp: redirect_pairs_def upsert_def)
qed

lemma redirect_fold:
  assumes "fold (redirect_step t) entries (rows, ch) = (rows', ch')" "distinct (map sd_fromID rows)"
    "\<forall>r \<in> set rows. dash_free (sd_toID r)" "\<forall>(a, b) \<in> set entries. dash_free b"
  shows "distinct (map sd_fromID rows') \<and> (\<forall>r \<in> set rows'. dash_free (sd_toID r)) \<and>
    (\<not> ch' \<longrightarrow> \<not> ch \<and> redirect_pairs rows' = redirect_pairs rows)"
  using assms
proof (induction entries arbitrary: rows ch)
  case (Cons entry entries)
  obtain a b where entry: "entry = (a, b)" by (cases entry)
  obtain rows1 ch1 where step: "redirect_step t entry (rows, ch) = (rows1, ch1)" by (cases "redirect_step t entry (rows, ch)")
  let ?new = "\<lparr>sd_fromID = a, sd_toID = b, sd_updatedAt = t\<rparr>"
  have cases: "rows1 = rows \<and> ch1 = ch \<or> rows1 = upsert sd_fromID (\<lambda>_ new. new) ?new rows \<and>
      (ch1 \<longleftrightarrow> ch \<or> map_option sd_toID (find_row sd_fromID a rows) \<noteq> Some b)"
    using step by (auto simp: redirect_step_def entry split: if_splits)
  have free: "dash_free (sd_toID r)" if "r \<in> set (upsert sd_fromID (\<lambda>_ new. new) ?new rows)" for r
    using that Cons.prems(3,4) by (cases rule: upsert_set) (auto simp: entry)
  have 1: "distinct (map sd_fromID rows1)" "\<forall>r \<in> set rows1. dash_free (sd_toID r)"
    using cases Cons.prems(2,3) free by (auto simp: upsert_distinct keeps_key_def)
  have 2: "\<not> ch1 \<Longrightarrow> \<not> ch \<and> redirect_pairs rows1 = redirect_pairs rows"
    using cases redirect_upsert_same [OF Cons.prems(2)] by auto
  have "fold (redirect_step t) entries (rows1, ch1) = (rows', ch')" using Cons.prems(1) step by simp
  from Cons.IH [OF this 1] Cons.prems(4) 2 show ?case by auto
qed simp

lemma write_fold_entry:
  "distinct (map pg_physicalID es) \<Longrightarrow>
   map_entry (fold (writeHistoryEdgeMapping rd) es rows) k =
     (case find_row pg_physicalID k es of Some e \<Rightarrow> edge_entry rd (pg_sourceID e) (pg_targetID e) | None \<Rightarrow> map_entry rows k)"
proof (induction es arbitrary: rows)
  case (Cons e es)
  have "k = pg_physicalID e \<Longrightarrow> find_row pg_physicalID k es = None"
    using Cons.prems by (simp add: find_row_None)
  then show ?case
    using Cons.IH [of "writeHistoryEdgeMapping rd e rows"] Cons.prems
    by (auto simp: write_mapping_entry find_row_def split: option.splits)
qed (simp add: find_row_def)

lemma write_fold_keys:
  "em_physicalID ` set (fold (writeHistoryEdgeMapping rd) es rows) \<subseteq> pg_physicalID ` set es \<union> em_physicalID ` set rows"
  "distinct (map em_physicalID rows) \<Longrightarrow> distinct (map em_physicalID (fold (writeHistoryEdgeMapping rd) es rows))"
proof (induction es arbitrary: rows)
  case (Cons e es)
  {
    case 1
    have "em_physicalID ` set (fold (writeHistoryEdgeMapping rd) es (writeHistoryEdgeMapping rd e rows)) \<subseteq>
        pg_physicalID ` set es \<union> em_physicalID ` set (writeHistoryEdgeMapping rd e rows)" by (rule Cons.IH)
    then show ?case using write_mapping_keys(1) [of rd e rows] by simp blast
  next
    case 2
    then show ?case using Cons.IH(2) write_mapping_keys(2) by simp
  }
qed simp_all

lemma rebuild_entry:
  assumes "distinct (map he_edgeID (db_edges db))" "e \<in> set (db_edges db)"
  shows "map_entry (db_edgeMap (rebuildHistoryEdgeMap t db)) (he_edgeID e) =
    edge_entry (loadCanonicalRedirects db) (he_sourceID e) (he_targetID e)"
proof -
  let ?es = "map (physical_of t) (sort_slice (\<lambda>a b. he_edgeID a < he_edgeID b) (db_edges db))"
  have ids: "pg_physicalID \<circ> physical_of t = he_edgeID" by (auto simp: physical_of_def)
  have d: "distinct (map pg_physicalID ?es)"
    using assms(1) unfolding map_map ids by (metis distinct_map mset_eq_imp_distinct_iff mset_sort_slice set_sort_slice)
  have "physical_of t e \<in> set ?es" using assms(2) by simp
  from find_row_distinct [OF d this] have "find_row pg_physicalID (he_edgeID e) ?es = Some (physical_of t e)"
    by (simp add: physical_of_def)
  then show ?thesis
    using write_fold_entry [OF d, where rd = "loadCanonicalRedirects db" and rows = "[]" and k = "he_edgeID e"]
    by (simp add: rebuildHistoryEdgeMap_def physical_of_def)
qed

lemma rebuild_keys:
  "em_physicalID ` set (db_edgeMap (rebuildHistoryEdgeMap t db)) \<subseteq> he_edgeID ` set (db_edges db)"
  "distinct (map em_physicalID (db_edgeMap (rebuildHistoryEdgeMap t db)))"
  using write_fold_keys [where rd = "loadCanonicalRedirects db" and rows = "[]" and
      es = "map (physical_of t) (sort_slice (\<lambda>a b. he_edgeID a < he_edgeID b) (db_edges db))"]
  by (auto simp: rebuildHistoryEdgeMap_def physical_of_def image_image)

lemma recordHistoryMetadata_edges_ok:
  assumes ok: "edges_ok db" and plain: "plain_metadata m"
  shows "edges_ok (recordHistoryMetadata m t db)"
proof -
  obtain rows ch where f: "fold (redirect_step t) (hm_redirects m) (db_redirects db, False) = (rows, ch)"
    by (cases "fold (redirect_step t) (hm_redirects m) (db_redirects db, False)")
  define db1 where "db1 = db\<lparr>db_nodes := fold (upsert sn_nodeID merge_node \<circ> node_row) (hm_nodes m) (db_nodes db),
      db_redirects := rows, db_edges := map (mark_control (control_nodes m)) (db_edges db)\<rparr>"
  have meta: "recordHistoryMetadata m t db = (if ch then rebuildHistoryEdgeMap t db1 else db1)"
    by (simp add: recordHistoryMetadata_def f db1_def Let_def)
  have r: "distinct (map sd_fromID rows)" "\<forall>r \<in> set rows. dash_free (sd_toID r)"
    "\<not> ch \<Longrightarrow> redirect_pairs rows = redirect_pairs (db_redirects db)"
    using redirect_fold [OF f] ok plain by (auto simp: edges_ok_def plain_metadata_def)
  have mark: "he_edgeID (mark_control c e) = he_edgeID e" "he_sourceID (mark_control c e) = he_sourceID e"
    "he_targetID (mark_control c e) = he_targetID e" for c e by (simp_all add: mark_control_def)
  have mark_ids: "he_edgeID \<circ> mark_control c = he_edgeID" for c using mark by auto
  have e1: "distinct (map he_edgeID (db_edges db1))" "\<forall>e \<in> set (db_edges db1). named_edge e"
    "he_edgeID ` set (db_edges db1) = he_edgeID ` set (db_edges db)"
    using ok by (auto simp: db1_def edges_ok_def mark_ids named_edge_def mark image_image)
  show ?thesis
  proof (cases ch)
    case True
    have "db_edges (rebuildHistoryEdgeMap t db1) = db_edges db1" "db_redirects (rebuildHistoryEdgeMap t db1) = rows"
      "loadCanonicalRedirects (rebuildHistoryEdgeMap t db1) = loadCanonicalRedirects db1"
      by (simp_all add: rebuildHistoryEdgeMap_def db1_def loadCanonicalRedirects_def)
    then show ?thesis
      using True r e1 rebuild_keys [of t db1] rebuild_entry [OF e1(1)]
      by (simp add: meta edges_ok_def mapped_edges_def map_in_sync_def)
  next
    case False
    have "loadCanonicalRedirects db1 = loadCanonicalRedirects db"
      using r(3) [OF False] by (simp add: loadCanonicalRedirects_def db1_def redirect_pairs_def)
    then show ?thesis
      using False r e1 ok
      by (auto simp: meta edges_ok_def mapped_edges_def map_in_sync_def db1_def mark)
  qed
qed

section \<open>Maintenance\<close>

lemma edges_ok_tables:
  "db_edges db' = db_edges db \<Longrightarrow> db_edgeMap db' = db_edgeMap db \<Longrightarrow> db_redirects db' = db_redirects db \<Longrightarrow>
   edges_ok db' = edges_ok db"
  by (simp add: edges_ok_def mapped_edges_def map_in_sync_def loadCanonicalRedirects_def)

lemma map_entry_row:
  assumes "edges_ok db" "m \<in> set (db_edgeMap db)"
  shows "map_entry (db_edgeMap db) (em_physicalID m) = Some (mapping_entry m)"
  using find_row_distinct [of em_physicalID "db_edgeMap db" m] assms by (simp add: map_entry_def edges_ok_def)

text \<open>The edge behind an entry of the map, and what the entry then says.\<close>

lemma map_entry_edge:
  assumes "edges_ok db" "map_entry (db_edgeMap db) k = Some (l, s, t, rv)"
  shows "\<exists>e \<in> set (db_edges db). he_edgeID e = k" and "named l s t"
    and "edge_entry (loadCanonicalRedirects db) s t = Some (l, s, t, False)"
proof -
  let ?rd = "loadCanonicalRedirects db"
  have "k \<in> em_physicalID ` set (db_edgeMap db)"
    using assms(2) find_row_None [of em_physicalID k "db_edgeMap db"] by (force simp: map_entry_def)
  then obtain e where e: "e \<in> set (db_edges db)" "he_edgeID e = k"
    using assms(1) by (auto simp: edges_ok_def mapped_edges_def)
  then show "\<exists>e \<in> set (db_edges db). he_edgeID e = k" by blast
  define a b where "a = resolveNodeID ?rd (he_sourceID e)" and "b = resolveNodeID ?rd (he_targetID e)"
  have entry: "edge_entry ?rd (he_sourceID e) (he_targetID e) = Some (l, s, t, rv)"
    using assms e by (auto simp: edges_ok_def map_in_sync_def)
  then have ab: "EdgeID a b = (l, s, t)" "a \<noteq> b"
    by (auto simp: edge_entry_def Let_def a_def b_def split: prod.splits if_splits)
  have plain: "dash_free (resolveNodeID ?rd x)" if "dash_free x" for x
  proof -
    have "\<forall>a b. (a, b) \<in> set ?rd \<longrightarrow> dash_free b" using assms(1) by (auto simp: loadCanonicalRedirects_def edges_ok_def)
    with that show ?thesis
      using resolve_node_property [of dash_free x "[]" ?rd] by (simp add: resolveNodeID_def dash_free_def)
  qed
  have "named_edge e" using assms(1) e by (simp add: edges_ok_def)
  then have "dash_free a" "dash_free b" using plain by (simp_all add: named_edge_def named_def a_def b_def)
  then show named: "named l s t" using named_EdgeID ab(1) by blast
  have st: "{s, t} = {a, b}" using EdgeID_source_le [OF ab(1)] by simp
  have "resolveNodeID ?rd a = a" "resolveNodeID ?rd b = b" by (simp_all add: a_def b_def resolveNodeID_idem)
  then have "resolveNodeID ?rd s = s" "resolveNodeID ?rd t = t" "s \<noteq> t" using st ab(2) by (auto simp: doubleton_eq_iff)
  then show "edge_entry ?rd s t = Some (l, s, t, False)"
    using named by (simp add: edge_entry_def named_def)
qed

definition logical_named :: "database \<Rightarrow> logical_traffic \<Rightarrow> bool" where
  "logical_named db r \<longleftrightarrow>
     (\<exists>k rv. map_entry (db_edgeMap db) k = Some (lt_edgeID r, lt_sourceID r, lt_targetID r, rv))"

lemma min_text_const: "xs \<noteq> [] \<Longrightarrow> (\<forall>x \<in> set xs. x = c) \<Longrightarrow> min_text xs = c"
proof -
  have "fold min xs c = c" if "\<forall>x \<in> set xs. x = c" for xs using that by (induction xs) auto
  then show "xs \<noteq> [] \<Longrightarrow> (\<forall>x \<in> set xs. x = c) \<Longrightarrow> min_text xs = c" by (cases xs) (auto simp: min_text_def)
qed

lemma set_starts_of [simp]: "set (starts_of f rows) = f ` set rows"
  by (simp add: starts_of_def)

lemma joined_mapping: "p \<in> set (joined mappings rows) \<Longrightarrow> snd p \<in> set mappings \<and> fst p \<in> set rows \<and> em_physicalID (snd p) = ru_edgeID (fst p)"
  by (auto simp: joined_def)

lemma minute_records_named:
  assumes ok: "edges_ok db" and r: "r \<in> set (logicalMinuteTraffic a b db)"
  shows "logical_named db r"
proof -
  define rows where "rows = joined (db_edgeMap db) (filter (\<lambda>r. text_in a b (ru_bucketStart r)) (db_minutes db))"
  obtain p where p: "p \<in> set rows" "r = minute_edge_traffic rows (em_logicalID (snd p))"
    using r by (auto simp: logicalMinuteTraffic_def edges_of_def Let_def simp flip: rows_def)
  let ?l = "em_logicalID (snd p)" and ?m = "snd p"
  let ?mine = "filter (\<lambda>p. em_logicalID (snd p) = ?l) rows"
  have m: "?m \<in> set (db_edgeMap db)" using joined_mapping p(1) by (simp add: rows_def)
  have entry: "map_entry (db_edgeMap db) (em_physicalID ?m) = Some (mapping_entry ?m)" using map_entry_row [OF ok m] .
  have named: "named ?l (em_logicalSourceID ?m) (em_logicalTargetID ?m)"
    using map_entry_edge(2) [OF ok] entry by (simp add: mapping_entry_def)
  have same: "em_logicalSourceID (snd q) = em_logicalSourceID ?m \<and> em_logicalTargetID (snd q) = em_logicalTargetID ?m"
    if "q \<in> set ?mine" for q
  proof -
    have "q \<in> set rows" and l: "em_logicalID (snd q) = ?l" using that by simp_all
    then have q: "snd q \<in> set (db_edgeMap db)" using joined_mapping unfolding rows_def by blast
    have "named ?l (em_logicalSourceID (snd q)) (em_logicalTargetID (snd q))"
      using map_entry_edge(2) [OF ok] map_entry_row [OF ok q] l by (simp add: mapping_entry_def)
    with named named_unique show ?thesis by blast
  qed
  let ?starts = "starts_of (ru_bucketStart \<circ> fst) ?mine"
  have hd_in: "hd (minute_group t ?mine) \<in> set ?mine" if "t \<in> set ?starts" for t
  proof -
    have "minute_group t ?mine \<noteq> []" using that by (auto simp: minute_group_def filter_empty_conv)
    then have "hd (minute_group t ?mine) \<in> set (minute_group t ?mine)" by (rule hd_in_set)
    then show ?thesis by (auto simp: minute_group_def)
  qed
  have "ru_bucketStart (fst p) \<in> set ?starts" using p(1) by simp
  then have ne: "?starts \<noteq> []" by (metis empty_iff list.set(1))
  have const: "min_text (map (\<lambda>t. f (snd (hd (minute_group t ?mine)))) ?starts) = f ?m"
    if "\<And>q. q \<in> set ?mine \<Longrightarrow> f (snd q) = f ?m" for f
  proof (rule min_text_const)
    show "map (\<lambda>t. f (snd (hd (minute_group t ?mine)))) ?starts \<noteq> []" using ne by (metis map_is_Nil_conv)
    show "\<forall>x \<in> set (map (\<lambda>t. f (snd (hd (minute_group t ?mine)))) ?starts). x = f ?m"
      unfolding set_map using hd_in that by blast
  qed
  have "lt_sourceID r = em_logicalSourceID ?m" "lt_targetID r = em_logicalTargetID ?m" "lt_edgeID r = ?l"
    unfolding p(2) minute_edge_traffic_def Let_def logical_traffic.simps using same by (blast intro: const refl)+
  with entry show ?thesis unfolding logical_named_def mapping_entry_def by metis
qed

lemma persist_ok:
  assumes ok: "edges_ok db" and r: "logical_named db r"
  shows "\<exists>db'. persistLogicalHourEdge r t db = Inr db' \<and> edges_ok db' \<and>
    (\<forall>q. logical_named db q \<longrightarrow> logical_named db' q)"
proof -
  let ?l = "lt_edgeID r" and ?s = "lt_sourceID r" and ?t = "lt_targetID r" and ?rd = "loadCanonicalRedirects db"
  obtain k rv where k: "map_entry (db_edgeMap db) k = Some (?l, ?s, ?t, rv)" using r by (auto simp: logical_named_def)
  note facts = map_entry_edge [OF ok k]
  obtain m where m: "find_row em_physicalID k (db_edgeMap db) = Some m" "mapping_entry m = (?l, ?s, ?t, rv)"
    using k by (auto simp: map_entry_def)
  then have "m \<in> set (db_edgeMap db)" "em_physicalID m = k" "em_logicalID m = ?l"
    using find_row_in by (fastforce simp: mapping_entry_def)+
  then have "filter (\<lambda>e. \<exists>m \<in> set (db_edgeMap db). em_physicalID m = he_edgeID e \<and> em_logicalID m = ?l) (db_edges db) \<noteq> []"
    using facts(1) unfolding filter_empty_conv by metis
  then obtain e rest where edges:
    "filter (\<lambda>e. \<exists>m \<in> set (db_edgeMap db). em_physicalID m = he_edgeID e \<and> em_logicalID m = ?l) (db_edges db) = e # rest"
    by (meson list.exhaust)
  define mrg where "mrg old new = (merge_edge old new)\<lparr>he_sourceID := he_sourceID new, he_targetID := he_targetID new\<rparr>" for old new
  define row where "row = \<lparr>he_edgeID = ?l, he_sourceID = ?s, he_targetID = ?t,
     he_firstTrafficAt = fold (\<lambda>x t. text_min t (he_firstTrafficAt x)) rest (he_firstTrafficAt e),
     he_lastTrafficAt = fold (\<lambda>x t. text_max t (he_lastTrafficAt x)) rest (he_lastTrafficAt e),
     he_systemTelemetry = (\<exists>x \<in> set (e # rest). he_systemTelemetry x)\<rparr>"
  define mrow where "mrow = \<lparr>em_physicalID = ?l, em_logicalID = ?l, em_logicalSourceID = ?s,
     em_logicalTargetID = ?t, em_reversed = False, em_updatedAt = t\<rparr>"
  define db' where "db' = db\<lparr>db_edges := upsert he_edgeID mrg row (db_edges db),
     db_edgeMap := upsert em_physicalID (\<lambda>_ new. new) mrow (db_edgeMap db)\<rparr>"
  have run: "persistLogicalHourEdge r t db = Inr db'"
    by (simp add: persistLogicalHourEdge_def edges db'_def mrg_def [abs_def] row_def mrow_def)
  have kk: "keeps_key he_edgeID mrg row" "keeps_key em_physicalID (\<lambda>_ new. new) mrow"
    by (simp_all add: keeps_key_def mrg_def row_def mrow_def)
  have entry': "map_entry (db_edgeMap db') x = (if x = ?l then Some (?l, ?s, ?t, False) else map_entry (db_edgeMap db) x)" for x
    using find_row_upsert [OF kk(2), of x "db_edgeMap db"]
    by (simp add: db'_def map_entry_def mapping_entry_def mrow_def split: option.splits)
  have ends: "named_edge x \<and> (he_edgeID x = ?l \<longrightarrow> he_sourceID x = ?s \<and> he_targetID x = ?t) \<and>
      (he_edgeID x \<noteq> ?l \<longrightarrow> x \<in> set (db_edges db))" if "x \<in> set (db_edges db')" for x
  proof -
    have "x \<in> set (upsert he_edgeID mrg row (db_edges db))" using that by (simp add: db'_def)
    then show ?thesis
    proof (cases rule: upsert_set)
      case other
      then show ?thesis using ok by (simp add: edges_ok_def row_def)
    next
      case new
      then show ?thesis using facts(2) by (simp add: row_def named_edge_def)
    next
      case (merged old)
      then show ?thesis using facts(2) by (simp add: row_def named_edge_def mrg_def)
    qed
  qed
  have rd: "loadCanonicalRedirects db' = ?rd" "db_redirects db' = db_redirects db"
    by (simp_all add: db'_def loadCanonicalRedirects_def)
  have sync: "map_in_sync db'"
    unfolding map_in_sync_def rd
  proof
    fix x assume x: "x \<in> set (db_edges db')"
    show "map_entry (db_edgeMap db') (he_edgeID x) = edge_entry ?rd (he_sourceID x) (he_targetID x)"
      using ends [OF x] facts(3) ok by (cases "he_edgeID x = ?l") (simp_all add: entry' edges_ok_def map_in_sync_def)
  qed
  have "em_physicalID ` set (db_edgeMap db') = insert ?l (em_physicalID ` set (db_edgeMap db))"
    "he_edgeID ` set (db_edges db') = insert ?l (he_edgeID ` set (db_edges db))"
    using upsert_keys [OF kk(2), of "db_edgeMap db"] upsert_keys [OF kk(1), of "db_edges db"]
    by (simp_all add: db'_def mrow_def row_def)
  then have "mapped_edges db'" using ok by (simp add: mapped_edges_def edges_ok_def subset_insertI2)
  moreover have "distinct (map he_edgeID (db_edges db'))" "distinct (map em_physicalID (db_edgeMap db'))"
    using ok upsert_distinct [OF kk(1)] upsert_distinct [OF kk(2)] by (simp_all add: db'_def edges_ok_def)
  ultimately have ok': "edges_ok db'" using ok sync ends rd by (simp add: edges_ok_def)
  have "logical_named db' q" if q: "logical_named db q" for q
  proof -
    obtain x w where x: "map_entry (db_edgeMap db) x = Some (lt_edgeID q, lt_sourceID q, lt_targetID q, w)"
      using q by (auto simp: logical_named_def)
    show ?thesis
    proof (cases "x = ?l")
      case True
      \<comment> \<open>the logical edge was stored before, mapped to itself\<close>
      obtain y where y: "y \<in> set (db_edges db)" "he_edgeID y = ?l" using map_entry_edge(1) [OF ok x] True by blast
      then have "he_sourceID y = ?s" "he_targetID y = ?t"
        using ok facts(2) named_unique by (auto simp: edges_ok_def named_edge_def)
      then have "map_entry (db_edgeMap db) ?l = Some (?l, ?s, ?t, False)"
        using ok y facts(3) by (auto simp: edges_ok_def map_in_sync_def)
      with x True entry' show ?thesis unfolding logical_named_def by (metis option.inject prod.inject)
    next
      case False
      then show ?thesis using x entry' unfolding logical_named_def by metis
    qed
  qed
  with run ok' show ?thesis by blast
qed

lemma hour_records_ok:
  "edges_ok db \<Longrightarrow> (\<forall>r \<in> set rs. logical_named db r) \<Longrightarrow> \<exists>db'. write_records HourLayer a b rs db = Inr db' \<and> edges_ok db'"
proof (induction rs arbitrary: db)
  case (Cons r rs)
  from persist_ok [OF Cons.prems(1), of r b] Cons.prems(2) obtain db1 where
    p: "persistLogicalHourEdge r b db = Inr db1" "edges_ok db1" "\<forall>q. logical_named db q \<longrightarrow> logical_named db1 q" by auto
  let ?db = "db1\<lparr>db_hours := upsert rollup_key (\<lambda>_ new. new) (rollup_row_of a r) (db_hours db1)\<rparr>"
  have "edges_ok ?db" "\<forall>q \<in> set rs. logical_named ?db q"
    using p Cons.prems(2) edges_ok_tables [of ?db db1] by (simp_all add: logical_named_def)
  from Cons.IH [OF this] p(1) show ?case by simp
qed simp

lemma minute_records_ok: "\<exists>db'. write_records MinuteLayer a b rs db = Inr db' \<and> (edges_ok db \<longrightarrow> edges_ok db')"
proof (induction rs arbitrary: db)
  case (Cons r rs)
  let ?db = "db\<lparr>db_minutes := upsert rollup_key (\<lambda>_ new. new) (rollup_row_of a r) (db_minutes db)\<rparr>"
  from Cons.IH [of ?db] edges_ok_tables [of ?db db] show ?case by simp
qed simp

lemma roll_up_ok:
  "edges_ok db \<Longrightarrow> \<exists>db'. roll_up l a b db = Inr db' \<and> edges_ok db' \<and>
     (a < b \<or> maintenanceCursor (layer_name l) db \<noteq> None \<longrightarrow> maintenanceCursor (layer_name l) db' \<noteq> None)"
proof (induction l a b db rule: roll_up.induct)
  case (1 l a b db)
  show ?case
  proof (cases "a < b")
    case False
    then show ?thesis using 1(2) by (subst (1) roll_up.simps) auto
  next
    case True
    let ?n = "a + layer_interval l"
    obtain db1 where w: "write_records l a ?n (layer_records l a ?n db) db = Inr db1" "edges_ok db1"
    proof (cases l)
      case MinuteLayer
      then show ?thesis using minute_records_ok [of a ?n] 1(2) that by (metis layer_records.simps(1))
    next
      case HourLayer
      then show ?thesis
        using hour_records_ok [OF 1(2), of "logicalMinuteTraffic a ?n db" a ?n] minute_records_named [OF 1(2)] that by auto
    qed
    let ?db = "saveMaintenanceCursor (layer_name l) ?n db1"
    have "edges_ok ?db" using w(2) edges_ok_tables [of ?db db1] by (simp add: saveMaintenanceCursor_def)
    moreover have "maintenanceCursor (layer_name l) ?db \<noteq> None"
      by (simp add: maintenanceCursor_def saveMaintenanceCursor_def)
    ultimately obtain db' where "roll_up l ?n b ?db = Inr db'" "edges_ok db'" "maintenanceCursor (layer_name l) db' \<noteq> None"
      using 1(1) [OF _ refl w(1)] True by auto
    then show ?thesis using True w(1) by (subst (1) roll_up.simps) (simp add: Let_def)
  qed
qed

lemma rollupIntervals_ok:
  assumes "edges_ok db"
  shows "\<exists>db'. rollupIntervals l t db = Inr db' \<and> edges_ok db' \<and> maintenanceCursor (layer_name l) db' \<noteq> None"
proof -
  have save: "edges_ok (saveMaintenanceCursor (layer_name l) t db)"
    "maintenanceCursor (layer_name l) (saveMaintenanceCursor (layer_name l) t db) \<noteq> None"
    using assms edges_ok_tables [of "saveMaintenanceCursor (layer_name l) t db" db]
    by (simp_all add: saveMaintenanceCursor_def maintenanceCursor_def)
  show ?thesis
    using save roll_up_ok [OF assms, of l _ t]
    by (auto simp: rollupIntervals_def Let_def split: option.splits) metis+
qed

lemma rollupHistory_ok:
  assumes "edges_ok db"
  shows "\<exists>db'. rollupHistory now db = Inr db' \<and> edges_ok db'"
proof -
  obtain db1 c where 1: "rollupIntervals MinuteLayer (truncate_to minute (now - minuteRollupGrace)) db = Inr db1" "edges_ok db1"
    "maintenanceCursor ''minute'' db1 = Some c"
    using rollupIntervals_ok [OF assms, of MinuteLayer] by fastforce
  obtain db2 d where 2: "rollupIntervals HourLayer (earlierTime (truncate_to hour now) (truncate_to hour c)) db1 = Inr db2"
    "edges_ok db2" "maintenanceCursor ''hour'' db2 = Some d"
    using rollupIntervals_ok [OF 1(2), of HourLayer] by fastforce
  have "edges_ok (maintainPathAnchors u (deleteCoveredTraffic now c d db2))" for u
    using 2(2) edges_ok_tables [of "maintainPathAnchors u (deleteCoveredTraffic now c d db2)" db2]
    by (simp add: maintainPathAnchors_def deleteCoveredTraffic_def)
  with 1 2 show ?thesis by (simp add: rollupHistory_def)
qed

lemma Maintain_ok:
  assumes "edges_ok db"
  shows "fst (Maintain True now db) = Inr ()" "edges_ok (snd (Maintain disk now db))"
proof -
  have "edges_ok (drop_reports db)"
    using assms edges_ok_tables [of "drop_reports db" db] by (simp add: drop_reports_def split: option.splits)
  from rollupHistory_ok [OF this, of now] assms
  show "fst (Maintain True now db) = Inr ()" "edges_ok (snd (Maintain disk now db))"
    by (auto simp: Maintain_def)
qed

section \<open>Every database the store writes\<close>

text \<open>
  The operations of the store, from the new database on, with any arguments: the traffic is of
  edges named by their ends, and no redirect leads to a node id with a dash.
\<close>

definition plain_option :: "history_metadata option \<Rightarrow> bool" where
  "plain_option m = pred_option plain_metadata m"

inductive store_run :: "database \<Rightarrow> bool" where
  new: "store_run new_database"
| recorded: "store_run db \<Longrightarrow> list_all named_traffic traffic \<Longrightarrow> plain_option metadata \<Longrightarrow>
    RecordWithMetadata disk report t payload traffic transitions metadata db = (inserted, db') \<Longrightarrow> store_run db'"
| metadata: "store_run db \<Longrightarrow> plain_metadata m \<Longrightarrow> SaveHistoryMetadata disk m t db = (saved, db') \<Longrightarrow> store_run db'"
| checkpoint: "store_run db \<Longrightarrow> SaveCheckpoint disk payload lastRow t db = (saved, db') \<Longrightarrow> store_run db'"
| saved_state: "store_run db \<Longrightarrow> SaveState disk payload t db = (saved, db') \<Longrightarrow> store_run db'"
| directory: "store_run db \<Longrightarrow> plain_metadata m \<Longrightarrow>
    SaveCheckpointWithMetadata disk payload m t db = (saved, db') \<Longrightarrow> store_run db'"
| maintain: "store_run db \<Longrightarrow> Maintain disk now db = (maintained, db') \<Longrightarrow> store_run db'"

lemma write_checkpoint_edges_ok [simp]: "edges_ok (write_checkpoint p n t db) = edges_ok db"
  by (rule edges_ok_tables) (simp_all add: write_checkpoint_def)

lemma recordPathTransition_edges_ok [simp]: "edges_ok (recordPathTransition t db) = edges_ok db"
  by (rule edges_ok_tables) (simp_all add: recordPathTransition_def Let_def)

lemma RecordWithMetadata_edges_ok:
  assumes ok: "edges_ok db" and t: "list_all named_traffic traffic" and m: "plain_option metadata"
    and run: "RecordWithMetadata disk report t payload traffic transitions metadata db = (inserted, db')"
  shows "edges_ok db'"
proof -
  define db1 where "db1 = db\<lparr>db_reports := db_reports db @
    [\<lparr>sr_rowid = max_rowid db + 1, sr_report = reportWithRedactedRelayHints report, sr_receivedAt = t\<rparr>]\<rparr>"
  define db2 where "db2 = (case payload of None \<Rightarrow> db1
    | Some p \<Rightarrow> write_checkpoint (checkpointWithoutRelayDiscoHints p) (max_rowid db + 1) t db1)"
  have "edges_ok db1" using ok edges_ok_tables [of db1 db] by (simp add: db1_def)
  then have 2: "edges_ok db2" by (simp add: db2_def split: option.splits)
  have 3: "edges_ok (fold recordTraffic traffic db2)"
    using t by (intro fold_inv [where P = edges_ok] 2 recordTraffic_edges_ok) (auto simp: list_all_iff)
  have 4: "edges_ok (fold recordPathTransition transitions (fold recordTraffic traffic db2))"
    by (rule fold_inv [where P = edges_ok]) (simp_all add: 3)
  have "db' = db \<or> db' = (case metadata of None \<Rightarrow> fold recordPathTransition transitions (fold recordTraffic traffic db2)
      | Some m \<Rightarrow> recordHistoryMetadata m t (fold recordPathTransition transitions (fold recordTraffic traffic db2)))"
    using run unfolding RecordWithMetadata_def Let_def db1_def [symmetric] db2_def [symmetric]
    by (auto split: if_splits)
  then show ?thesis
    using ok 4 m recordHistoryMetadata_edges_ok by (auto simp: plain_option_def split: option.splits)
qed

lemma store_run_edges_ok: "store_run db \<Longrightarrow> edges_ok db"
proof (induction rule: store_run.induct)
  case new
  show ?case by (simp add: edges_ok_def new_database_def mapped_edges_def map_in_sync_def)
next
  case (recorded db traffic metadata disk report t payload transitions inserted db')
  then show ?case by (blast intro: RecordWithMetadata_edges_ok)
next
  case (metadata db m disk t saved db')
  then show ?case
    using recordHistoryMetadata_edges_ok by (auto simp: SaveHistoryMetadata_def split: if_splits)
next
  case (directory db m disk payload t saved db')
  then show ?case
    using recordHistoryMetadata_edges_ok [of "write_checkpoint p n t db" m t for p n]
    by (auto simp: SaveCheckpointWithMetadata_def split: if_splits)
next
  case (maintain db disk now maintained db')
  then show ?case using Maintain_ok(2) [of db disk now] by simp
qed (auto simp: SaveCheckpoint_def SaveState_def split: if_splits)

section \<open>Properties\<close>

text \<open>Maintenance never fails when the database works: in every database the store's own
  operations write, whatever the reports, redirects and times, no stored edge of the hour
  roll-up and no cursor is missing, so \<open>Maintain\<close> commits.\<close>

theorem maintenance_never_fails:
  assumes "store_run db"
  shows "fst (Maintain True now db) = Inr ()"
  by (rule Maintain_ok(1) [OF store_run_edges_ok [OF assms]])

theorem maintenance_never_fails_witness: "fst (Maintain True 63000000000000000000 new_database) = Inr ()"
  by (rule maintenance_never_fails [OF store_run.new])

lemma map_is_rebuilt:
  assumes "edges_ok db"
  shows "map_entry (db_edgeMap db) k = map_entry (db_edgeMap (rebuildHistoryEdgeMap t db)) k"
proof (cases "k \<in> he_edgeID ` set (db_edges db)")
  case True
  then obtain e where "e \<in> set (db_edges db)" "k = he_edgeID e" by blast
  then show ?thesis
    using assms rebuild_entry [of db e t] by (simp add: edges_ok_def map_in_sync_def)
next
  case False
  have "k \<notin> em_physicalID ` set (db_edgeMap db)" using assms False by (auto simp: edges_ok_def mapped_edges_def)
  moreover have "k \<notin> em_physicalID ` set (db_edgeMap (rebuildHistoryEdgeMap t db))" using rebuild_keys(1) [of t db] False by blast
  ultimately show ?thesis by (simp add: map_entry_def flip: find_row_None)
qed

text \<open>C20: The map from physical to logical edges, which traffic, redirects and the hour roll-up
  update row by row, is in every database the store writes the map \<open>rebuildHistoryEdgeMap\<close> makes
  from the redirects and edges: the same logical edge, ends and direction for every edge id.\<close>

theorem edge_map_is_rebuilt_map:
  assumes "store_run db"
  shows "map_entry (db_edgeMap db) k = map_entry (db_edgeMap (rebuildHistoryEdgeMap t db)) k"
  by (rule map_is_rebuilt [OF store_run_edges_ok [OF assms]])

definition ex_traffic :: "string \<Rightarrow> string \<Rightarrow> string \<Rightarrow> int \<Rightarrow> int \<Rightarrow> time \<Rightarrow> accepted_traffic" where
  "ex_traffic a b observer aToB bToA t =
     \<lparr>at_edgeID = a @ ''--'' @ b, at_sourceID = a, at_targetID = b, at_observerID = observer,
      at_systemTelemetry = False, at_aToBBytes = aToB, at_bToABytes = bToA, at_receivedAt = t\<rparr>"

definition ex_stored_report :: "string \<Rightarrow> report_envelope" where
  "ex_stored_report reportID =
     \<lparr>re_version = 1, re_reportID = reportID, re_reporterInstanceID = ''r'', re_sequence = 1, re_collectedAt = 1,
      re_kind = ReportTrafficSample, re_observers = [], re_relaySessions = []\<rparr>"

definition ex_merged :: history_metadata where
  "ex_merged = \<lparr>hm_nodes = [], hm_redirects = [(''c'', ''b'')], hm_controlNodeIDs = []\<rparr>"

definition ex_database :: database where
  "ex_database = snd (RecordWithMetadata True (ex_stored_report ''1'') 20 None
     [ex_traffic ''a'' ''b'' ''a'' 5 7 20, ex_traffic ''a'' ''c'' ''a'' 3 4 20] [] (Some ex_merged) new_database)"

lemma ex_database_run: "store_run ex_database"
proof (rule store_run.recorded [OF store_run.new])
  show "list_all named_traffic [ex_traffic ''a'' ''b'' ''a'' 5 7 20, ex_traffic ''a'' ''c'' ''a'' 3 4 20]" by code_simp
  show "plain_option (Some ex_merged)" by (simp add: plain_option_def ex_merged_def plain_metadata_def dash_free_def)
  show "RecordWithMetadata True (ex_stored_report ''1'') 20 None
     [ex_traffic ''a'' ''b'' ''a'' 5 7 20, ex_traffic ''a'' ''c'' ''a'' 3 4 20] [] (Some ex_merged) new_database =
     (Inr True, ex_database)"
    unfolding ex_database_def by (simp add: RecordWithMetadata_def new_database_def Let_def)
qed

theorem edge_map_is_rebuilt_map_witness:
  "map_entry (db_edgeMap ex_database) ''a--c'' = map_entry (db_edgeMap (rebuildHistoryEdgeMap 30 ex_database)) ''a--c'' \<and>
   map_entry (db_edgeMap ex_database) ''a--c'' = Some (''a--b'', ''a'', ''b'', False)"
  by (rule conjI, rule edge_map_is_rebuilt_map [OF ex_database_run]) code_simp

text \<open>Following redirects ends at one node, which resolves to itself: a node without a
  redirect, or, where redirects lead around, the least node of a set they do not leave.\<close>

theorem resolved_nodes_are_final:
  "resolveNodeID redirects (resolveNodeID redirects x) = resolveNodeID redirects x \<and>
   (str_at redirects (resolveNodeID redirects x) = [] \<or> x = [] \<or>
    (\<exists>S. closed_under redirects S \<and> resolveNodeID redirects x \<in> S \<and> (\<forall>y \<in> S. resolveNodeID redirects x \<le> y)))"
  using resolveNodeID_idem [of redirects x] resolve_node_end [of "[]" redirects x] by (simp add: resolveNodeID_def)

theorem resolved_nodes_are_final_witness:
  "resolveNodeID [(''t'', ''a''), (''a'', ''b''), (''b'', ''a'')] (resolveNodeID [(''t'', ''a''), (''a'', ''b''), (''b'', ''a'')] ''t'') = ''a''"
proof -
  have "resolveNodeID [(''t'', ''a''), (''a'', ''b''), (''b'', ''a'')] ''t'' = ''a''" by code_simp
  with resolved_nodes_are_final [of "[(''t'', ''a''), (''a'', ''b''), (''b'', ''a'')]" "''t''"] show ?thesis by simp
qed

end
