(* ===== verification/Store_Traffic.thy ===== *)
theory Store_Traffic
  imports Store_Facts
begin

text \<open>
  What maintenance keeps of the traffic: a minute it rolls up is stored with exactly the bytes of
  its buckets, each bucket counted once for every edge, and a bucket is deleted only after that.
\<close>

section \<open>Whole seconds\<close>

definition whole :: "time \<Rightarrow> bool" where
  "whole t \<longleftrightarrow> datable t \<and> second dvd t"

lemma whole_less:
  assumes "whole t" "whole u"
  shows "formatTime t < formatTime u \<longleftrightarrow> t < u"
proof (cases "t div second = u div second")
  case True
  then have "t = u" using assms unfolding whole_def by (metis dvd_div_mult_self)
  then show ?thesis by simp
next
  case False
  then show ?thesis using formatTime_iff [of t u] assms by (simp add: whole_def)
qed

lemma text_in_iff: "whole a \<Longrightarrow> whole b \<Longrightarrow> whole t \<Longrightarrow> text_in a b t \<longleftrightarrow> a \<le> t \<and> t < b"
  by (simp add: text_in_def whole_less not_less)

text \<open>A whole second is never before a cut-off that is not after it.\<close>

lemma whole_not_before:
  assumes "whole t" "datable cutoff" "cutoff \<le> t"
  shows "\<not> formatTime t < formatTime cutoff"
proof (cases "t div second = cutoff div second")
  case True
  have "t = t div second * second" using assms(1) by (simp add: whole_def)
  also have "\<dots> \<le> cutoff"
    unfolding True by (metis add_increasing2 div_mult_mod_eq order_refl pos_mod_sign second_def zero_less_numeral)
  finally show ?thesis using assms(3) by simp
next
  case False
  then show ?thesis using formatTime_iff [of t cutoff] assms by (simp add: whole_def)
qed

lemma whole_add: "whole t \<Longrightarrow> 0 \<le> d \<Longrightarrow> second dvd d \<Longrightarrow> t + d < 3652059 * day_length \<Longrightarrow> whole (t + d)"
  by (simp add: whole_def datable_def)

lemma whole_minute: "second dvd minute" "second dvd hour" "0 < minute" "0 < hour"
  by (simp_all add: minute_def hour_def second_def)

section \<open>One minute\<close>

lemma sorted_distinct_edges: "distinct (edges_of key rows)" "set (edges_of key rows) = key ` set rows"
  by (simp_all add: edges_of_def)

lemma raw_records:
  "distinct (map lt_edgeID (logicalRawTraffic a b db))"
  "find (\<lambda>r. lt_edgeID r = e) (logicalRawTraffic a b db) =
     (let rows = filter (\<lambda>r. text_in a b (tb_bucketStart r)) (db_buckets db)
      in if e \<in> tb_edgeID ` set rows then Some (raw_edge_traffic rows e) else None)"
proof -
  define rows where "rows = filter (\<lambda>r. text_in a b (tb_bucketStart r)) (db_buckets db)"
  have id: "lt_edgeID (raw_edge_traffic rows x) = x" for x by (simp add: raw_edge_traffic_def Let_def)
  then have comp: "lt_edgeID \<circ> raw_edge_traffic rows = id" by auto
  show "distinct (map lt_edgeID (logicalRawTraffic a b db))"
    by (simp add: logicalRawTraffic_def Let_def comp sorted_distinct_edges flip: rows_def)
  have "find (\<lambda>r. lt_edgeID r = e) (map (raw_edge_traffic rows) xs) = (if e \<in> set xs then Some (raw_edge_traffic rows e) else None)" for xs
    by (induction xs) (auto simp: id)
  then show "find (\<lambda>r. lt_edgeID r = e) (logicalRawTraffic a b db) =
     (let rows = filter (\<lambda>r. text_in a b (tb_bucketStart r)) (db_buckets db)
      in if e \<in> tb_edgeID ` set rows then Some (raw_edge_traffic rows e) else None)"
    unfolding logicalRawTraffic_def Let_def rows_def [symmetric] by (simp add: sorted_distinct_edges)
qed

lemma write_minutes:
  assumes "write_records MinuteLayer a n rs db = Inr db'" "distinct (map lt_edgeID rs)"
  shows "find_row rollup_key (e, m) (db_minutes db') =
      (if m = a then (case find (\<lambda>r. lt_edgeID r = e) rs of Some r \<Rightarrow> Some (rollup_row_of a r)
                      | None \<Rightarrow> find_row rollup_key (e, m) (db_minutes db))
       else find_row rollup_key (e, m) (db_minutes db))"
    and "db_buckets db' = db_buckets db \<and> db_maintenance db' = db_maintenance db"
proof -
  have "find_row rollup_key (e, m) (db_minutes db') =
      (if m = a then (case find (\<lambda>r. lt_edgeID r = e) rs of Some r \<Rightarrow> Some (rollup_row_of a r)
                      | None \<Rightarrow> find_row rollup_key (e, m) (db_minutes db))
       else find_row rollup_key (e, m) (db_minutes db)) \<and>
      db_buckets db' = db_buckets db \<and> db_maintenance db' = db_maintenance db"
    using assms
  proof (induction rs arbitrary: db)
    case (Cons r rs)
    have kk: "keeps_key rollup_key (\<lambda>_ new. new) (rollup_row_of a r)" by (simp add: keeps_key_def)
    have key: "rollup_key (rollup_row_of a r) = (lt_edgeID r, a)" by (simp add: rollup_key_def rollup_row_of_def)
    have later: "lt_edgeID r = e \<Longrightarrow> find (\<lambda>r. lt_edgeID r = e) rs = None"
      using Cons.prems(2) by (auto simp: find_None_iff) (metis image_eqI)
    from Cons.IH [of "db\<lparr>db_minutes := upsert rollup_key (\<lambda>_ new. new) (rollup_row_of a r) (db_minutes db)\<rparr>"] Cons.prems
    show ?case
      using later find_row_upsert [OF kk, of "(e, m)" "db_minutes db"] by (auto simp: key split: option.splits)
  qed simp
  then show "find_row rollup_key (e, m) (db_minutes db') =
      (if m = a then (case find (\<lambda>r. lt_edgeID r = e) rs of Some r \<Rightarrow> Some (rollup_row_of a r)
                      | None \<Rightarrow> find_row rollup_key (e, m) (db_minutes db))
       else find_row rollup_key (e, m) (db_minutes db))"
    "db_buckets db' = db_buckets db \<and> db_maintenance db' = db_maintenance db" by blast+
qed

text \<open>The rows of the raw layer in the minute that starts at \<open>m\<close>, and what that minute amounts to.\<close>

definition minute_rows :: "database \<Rightarrow> time \<Rightarrow> traffic_bucket list" where
  "minute_rows db m = filter (\<lambda>r. m \<le> tb_bucketStart r \<and> tb_bucketStart r < m + minute) (db_buckets db)"

definition buckets_whole :: "database \<Rightarrow> bool" where
  "buckets_whole db \<longleftrightarrow> (\<forall>r \<in> set (db_buckets db). whole (tb_bucketStart r))"

lemma minute_step:
  assumes "buckets_whole db" "whole a" "whole (a + minute)"
    and w: "write_records MinuteLayer a (a + minute) (logicalRawTraffic a (a + minute) db) db = Inr db'"
  shows "find_row rollup_key (e, m) (db_minutes db') =
    (if m = a \<and> e \<in> tb_edgeID ` set (minute_rows db a) then Some (rollup_row_of a (raw_edge_traffic (minute_rows db a) e))
     else find_row rollup_key (e, m) (db_minutes db))"
proof -
  have "filter (\<lambda>r. text_in a (a + minute) (tb_bucketStart r)) (db_buckets db) = minute_rows db a"
    unfolding minute_rows_def using assms(1) text_in_iff [OF assms(2,3)] by (intro filter_cong) (auto simp: buckets_whole_def)
  then show ?thesis
    using write_minutes(1) [OF w raw_records(1), of e m] raw_records(2) [of e a "a + minute" db]
    by (auto simp: Let_def split: option.splits)
qed

section \<open>All minutes\<close>

lemma roll_up_minutes:
  assumes "roll_up MinuteLayer c stop db = Inr db'" "buckets_whole db" "whole c"
    "stop + minute < 3652059 * day_length" "minute dvd m - c" "c \<le> m" "m < stop"
    "e \<in> tb_edgeID ` set (minute_rows db m)"
  shows "find_row rollup_key (e, m) (db_minutes db') = Some (rollup_row_of m (raw_edge_traffic (minute_rows db m) e))"
proof -
  have main: "roll_up l c stop db = Inr db' \<Longrightarrow> l = MinuteLayer \<Longrightarrow> buckets_whole db \<Longrightarrow> whole c \<Longrightarrow>
      stop + minute < 3652059 * day_length \<Longrightarrow> minute dvd m - c \<Longrightarrow>
      (m < c \<longrightarrow> find_row rollup_key (e, m) (db_minutes db') = find_row rollup_key (e, m) (db_minutes db)) \<and>
      (c \<le> m \<longrightarrow> m < stop \<longrightarrow> e \<in> tb_edgeID ` set (minute_rows db m) \<longrightarrow>
        find_row rollup_key (e, m) (db_minutes db') = Some (rollup_row_of m (raw_edge_traffic (minute_rows db m) e)))" for l
  proof (induction l c stop db rule: roll_up.induct)
    case (1 l c stop db)
    show ?case
    proof (cases "c < stop")
      case False
      then have "db' = db" using 1(2) by (subst (asm) roll_up.simps) simp
      then show ?thesis using False by auto
    next
      case True
      let ?n = "c + minute"
      obtain db1 where w': "write_records l c (c + layer_interval l) (layer_records l c (c + layer_interval l) db) db = Inr db1"
        and r': "roll_up l (c + layer_interval l) stop (saveMaintenanceCursor (layer_name l) (c + layer_interval l) db1) = Inr db'"
        using 1(2) True by (subst (asm) roll_up.simps) (auto simp: Let_def split: sum.splits)
      have w: "write_records MinuteLayer c ?n (logicalRawTraffic c ?n db) db = Inr db1" using w' 1(3) by simp
      define db2 where "db2 = saveMaintenanceCursor ''minute'' ?n db1"
      have same: "db_buckets db2 = db_buckets db" "db_minutes db2 = db_minutes db1"
        using write_minutes(2) [OF w raw_records(1)] by (simp_all add: db2_def saveMaintenanceCursor_def)
      then have rows: "minute_rows db2 = minute_rows db" "buckets_whole db2 = buckets_whole db"
        by (simp_all add: fun_eq_iff minute_rows_def buckets_whole_def)
      have n: "whole ?n" using 1(5,6) True whole_minute by (intro whole_add) simp_all
      have n': "c + layer_interval l = ?n" and db2': "saveMaintenanceCursor (layer_name l) ?n db1 = db2"
        using 1(3) by (simp_all add: db2_def)
      have "minute dvd m - ?n" using 1(7) by (metis dvd_diff_right_iff dvd_refl diff_diff_eq)
      with 1(1) [OF _ refl w' r' 1(3), unfolded n' db2'] True rows n 1(4,6)
      have ih: "(m < ?n \<longrightarrow> find_row rollup_key (e, m) (db_minutes db') = find_row rollup_key (e, m) (db_minutes db2)) \<and>
          (?n \<le> m \<longrightarrow> m < stop \<longrightarrow> e \<in> tb_edgeID ` set (minute_rows db m) \<longrightarrow>
            find_row rollup_key (e, m) (db_minutes db') = Some (rollup_row_of m (raw_edge_traffic (minute_rows db m) e)))"
        by simp
      show ?thesis
      proof (intro conjI impI)
        assume "m < c"
        then show "find_row rollup_key (e, m) (db_minutes db') = find_row rollup_key (e, m) (db_minutes db)"
          using ih minute_step [OF 1(4,5) n w, of e m] same(2) whole_minute(3) by simp
      next
        assume m: "c \<le> m" "m < stop" "e \<in> tb_edgeID ` set (minute_rows db m)"
        show "find_row rollup_key (e, m) (db_minutes db') = Some (rollup_row_of m (raw_edge_traffic (minute_rows db m) e))"
        proof (cases "m < ?n")
          case True
          have "m - c < minute" "0 \<le> m - c" using True m(1) by simp_all
          then have "m = c" using 1(7) by (auto dest: zdvd_imp_le)
          then show ?thesis using ih minute_step [OF 1(4,5) n w, of e m] same(2) m(3) whole_minute(3) by simp
        next
          case False
          then show ?thesis using ih m rows by simp
        qed
      qed
    qed
  qed
  from main [OF assms(1) refl assms(2-5)] assms(6-8) show ?thesis by blast
qed

section \<open>Maintenance\<close>

lemma hour_layer_keeps:
  assumes "rollupIntervals HourLayer t db = Inr db'"
  shows "db_minutes db' = db_minutes db \<and> db_buckets db' = db_buckets db \<and>
    maintenanceCursor ''minute'' db' = maintenanceCursor ''minute'' db"
proof -
  let ?P = "\<lambda>db'. db_minutes db' = db_minutes db \<and> db_buckets db' = db_buckets db \<and>
    maintenanceCursor ''minute'' db' = maintenanceCursor ''minute'' db"
  have save: "db_minutes (saveMaintenanceCursor ''hour'' u d) = db_minutes d \<and> db_buckets (saveMaintenanceCursor ''hour'' u d) = db_buckets d \<and>
      maintenanceCursor ''minute'' (saveMaintenanceCursor ''hour'' u d) = maintenanceCursor ''minute'' d" for u d
    by (simp add: saveMaintenanceCursor_def maintenanceCursor_def)
  have persist: "persistLogicalHourEdge r u d = Inr d' \<Longrightarrow> db_minutes d' = db_minutes d \<and> db_buckets d' = db_buckets d \<and>
      db_maintenance d' = db_maintenance d" for r u d d'
    by (auto simp: persistLogicalHourEdge_def split: list.splits)
  have written: "write_records HourLayer a b rs d = Inr d' \<Longrightarrow> db_minutes d' = db_minutes d \<and> db_buckets d' = db_buckets d \<and>
      db_maintenance d' = db_maintenance d" for a b rs d d'
    by (induction rs arbitrary: d) (auto split: sum.splits dest!: persist)
  have roll: "roll_up l a b d = Inr d' \<Longrightarrow> l = HourLayer \<Longrightarrow> db_minutes d' = db_minutes d \<and> db_buckets d' = db_buckets d \<and>
      maintenanceCursor ''minute'' d' = maintenanceCursor ''minute'' d" for l a b d d'
  proof (induction l a b d rule: roll_up.induct)
    case (1 l a b d)
    show ?case
    proof (cases "a < b")
      case True
      obtain d1 where w: "write_records l a (a + layer_interval l) (layer_records l a (a + layer_interval l) d) d = Inr d1"
        and r: "roll_up l (a + layer_interval l) b (saveMaintenanceCursor (layer_name l) (a + layer_interval l) d1) = Inr d'"
        using 1(2) True by (subst (asm) roll_up.simps) (auto simp: Let_def split: sum.splits)
      have d1: "db_minutes d1 = db_minutes d \<and> db_buckets d1 = db_buckets d \<and> db_maintenance d1 = db_maintenance d"
        using written w 1(3) by simp
      then have "maintenanceCursor ''minute'' d1 = maintenanceCursor ''minute'' d" by (simp add: maintenanceCursor_def)
      moreover have "db_minutes d' = db_minutes (saveMaintenanceCursor ''hour'' (a + layer_interval l) d1) \<and>
          db_buckets d' = db_buckets (saveMaintenanceCursor ''hour'' (a + layer_interval l) d1) \<and>
          maintenanceCursor ''minute'' d' = maintenanceCursor ''minute'' (saveMaintenanceCursor ''hour'' (a + layer_interval l) d1)"
        using 1(1) [OF _ refl w r 1(3)] True 1(3) by simp
      ultimately show ?thesis using d1 save by metis
    next
      case False
      then have "d' = d" using 1(2) by (subst (asm) roll_up.simps) simp
      then show ?thesis by simp
    qed
  qed
  show ?thesis
    using assms roll save by (auto simp: rollupIntervals_def Let_def split: option.splits if_splits)
qed

lemma minute_write_keeps:
  "write_records MinuteLayer a n (logicalRawTraffic a b d) d = Inr d' \<Longrightarrow> db_buckets d' = db_buckets d \<and> db_maintenance d' = db_maintenance d"
  by (rule write_minutes(2) [OF _ raw_records(1)])

lemma roll_up_buckets: "roll_up l c stop db = Inr db' \<Longrightarrow> l = MinuteLayer \<Longrightarrow>
   db_buckets db' = db_buckets db \<and> maintenanceCursor ''hour'' db' = maintenanceCursor ''hour'' db"
proof (induction l c stop db rule: roll_up.induct)
  case (1 l c stop db)
  show ?case
  proof (cases "c < stop")
    case True
    obtain db1 where w: "write_records l c (c + layer_interval l) (layer_records l c (c + layer_interval l) db) db = Inr db1"
      and r: "roll_up l (c + layer_interval l) stop (saveMaintenanceCursor (layer_name l) (c + layer_interval l) db1) = Inr db'"
      using 1(2) True by (subst (asm) roll_up.simps) (auto simp: Let_def split: sum.splits)
    have "db_buckets db1 = db_buckets db \<and> db_maintenance db1 = db_maintenance db"
      using minute_write_keeps w 1(3) by simp
    then show ?thesis
      using 1(1) [OF _ refl w r 1(3)] True 1(3) by (simp add: saveMaintenanceCursor_def maintenanceCursor_def)
  next
    case False
    then have "db' = db" using 1(2) by (subst (asm) roll_up.simps) simp
    then show ?thesis by simp
  qed
qed

lemma cursor_after:
  "roll_up l c stop db = Inr db' \<Longrightarrow> maintenanceCursor (layer_name l) db = Some c \<Longrightarrow>
   \<exists>d. maintenanceCursor (layer_name l) db' = Some d \<and>
     (if c < stop then stop \<le> d \<and> d < stop + layer_interval l else d = c) \<and> layer_interval l dvd d - c"
proof (induction l c stop db rule: roll_up.induct)
  case (1 l c stop db)
  show ?case
  proof (cases "c < stop")
    case False
    then have "db' = db" using 1(2) by (subst (asm) roll_up.simps) simp
    then show ?thesis using False 1(3) by simp
  next
    case True
    let ?n = "c + layer_interval l"
    obtain db1 where w: "write_records l c ?n (layer_records l c ?n db) db = Inr db1"
      and r: "roll_up l ?n stop (saveMaintenanceCursor (layer_name l) ?n db1) = Inr db'"
      using 1(2) True by (subst (asm) roll_up.simps) (auto simp: Let_def split: sum.splits)
    have "maintenanceCursor (layer_name l) (saveMaintenanceCursor (layer_name l) ?n db1) = Some ?n"
      by (simp add: saveMaintenanceCursor_def maintenanceCursor_def)
    from 1(1) [OF _ refl w r this] True obtain d where d: "maintenanceCursor (layer_name l) db' = Some d"
      "if ?n < stop then stop \<le> d \<and> d < stop + layer_interval l else d = ?n" "layer_interval l dvd d - ?n" by auto
    have "d - c = (d - ?n) + layer_interval l" by simp
    then have "layer_interval l dvd d - c" using d(3) by (metis dvd_add dvd_refl)
    moreover have "0 < layer_interval l" by (cases l) (simp_all add: whole_minute)
    ultimately show ?thesis using d True by (auto split: if_splits)
  qed
qed

text \<open>Where a roll-up of the minutes starts, and how far the cursors are afterwards.\<close>

lemma cursor_reaches:
  assumes "roll_up l c stop db = Inr db'" "c < stop"
  shows "\<exists>d. maintenanceCursor (layer_name l) db' = Some d \<and> stop \<le> d"
proof -
  let ?n = "c + layer_interval l"
  obtain db1 where r: "roll_up l ?n stop (saveMaintenanceCursor (layer_name l) ?n db1) = Inr db'"
    using assms by (subst (asm) roll_up.simps) (auto simp: Let_def split: sum.splits)
  have "maintenanceCursor (layer_name l) (saveMaintenanceCursor (layer_name l) ?n db1) = Some ?n"
    by (simp add: saveMaintenanceCursor_def maintenanceCursor_def)
  from cursor_after [OF r this] show ?thesis by (auto split: if_splits)
qed

lemma interval_cursor:
  assumes "rollupIntervals l stop db = Inr db'"
  shows "\<exists>d. maintenanceCursor (layer_name l) db' = Some d \<and>
    (case maintenanceCursor (layer_name l) db of Some c \<Rightarrow> c \<le> d | None \<Rightarrow> stop \<le> d)"
proof (cases "maintenanceCursor (layer_name l) db")
  case (Some c)
  then show ?thesis using assms cursor_after [of l c stop db db'] by (auto simp: rollupIntervals_def split: if_splits)
next
  case None
  have "maintenanceCursor n (saveMaintenanceCursor n u d) = Some u" for n u d
    by (simp add: saveMaintenanceCursor_def maintenanceCursor_def)
  then show ?thesis
    using assms None cursor_reaches by (auto simp: rollupIntervals_def Let_def split: option.splits if_splits)
qed

lemma truncate_to_bounds:
  assumes "0 < d"
  shows "d dvd truncate_to d t" "truncate_to d t \<le> t" "t < truncate_to d t + d"
  using assms pos_mod_sign [of d t] pos_mod_bound [of d t] by (simp_all add: truncate_to_def dvd_minus_mod)

lemma truncate_to_pos: "0 < d \<Longrightarrow> 0 \<le> t \<Longrightarrow> 0 \<le> truncate_to d t"
  by (simp add: truncate_to_def minus_mod_eq_mult_div pos_imp_zdiv_nonneg_iff)

lemma first_start_least:
  assumes "first_start MinuteLayer db = Some t" "buckets_whole db"
  shows "whole t \<and> (\<forall>r \<in> set (db_buckets db). t \<le> tb_bucketStart r)"
proof -
  have step: "whole (fold (\<lambda>u m. text_min m u) us m) \<and> (\<forall>u \<in> insert m (set us). fold (\<lambda>u m. text_min m u) us m \<le> u)"
    if "whole m" "\<forall>u \<in> set us. whole u" for us m
    using that
  proof (induction us arbitrary: m)
    case (Cons u us)
    have w: "whole (text_min m u)" "text_min m u \<le> m" "text_min m u \<le> u"
      using Cons.prems whole_less [of u m] by (auto simp: text_min_def)
    from Cons.IH [OF w(1)] Cons.prems(2) w(2,3) show ?case by force
  qed simp
  obtain x xs where x: "map tb_bucketStart (db_buckets db) = x # xs" "t = fold (\<lambda>u m. text_min m u) xs x"
    using assms(1) by (auto simp: first_start_def split: list.splits)
  have s: "tb_bucketStart ` set (db_buckets db) = insert x (set xs)"
    using arg_cong [OF x(1), of set] by simp
  then have "\<forall>u \<in> insert x (set xs). whole u" using assms(2) by (auto simp: buckets_whole_def simp flip: s)
  with step [of x xs] x(2) s show ?thesis by auto
qed

text \<open>The minute cursor, where it is set, is the start of a minute not after \<open>m\<close>.\<close>

definition minute_cursor_ok :: "time \<Rightarrow> database \<Rightarrow> bool" where
  "minute_cursor_ok m db \<longleftrightarrow>
     (case maintenanceCursor ''minute'' db of None \<Rightarrow> True | Some c \<Rightarrow> whole c \<and> minute dvd c \<and> c \<le> m)"

definition hour_cursor_ok :: "database \<Rightarrow> bool" where
  "hour_cursor_ok db \<longleftrightarrow> (case maintenanceCursor ''hour'' db of None \<Rightarrow> True | Some h \<Rightarrow> whole h)"

lemma minute_rollup_start:
  assumes run: "rollupIntervals MinuteLayer stop db = Inr db'" and ok: "minute_cursor_ok m db" "buckets_whole db"
    and m: "minute dvd m" "m < stop" "minute_rows db m \<noteq> []"
  obtains c where "whole c" "minute dvd c" "c \<le> m" "roll_up MinuteLayer c stop db = Inr db'"
proof (cases "maintenanceCursor ''minute'' db")
  case (Some c)
  then show ?thesis using that [of c] run ok(1) by (simp add: minute_cursor_ok_def rollupIntervals_def)
next
  case None
  obtain r where r: "r \<in> set (db_buckets db)" "m \<le> tb_bucketStart r" "tb_bucketStart r < m + minute"
    using m(3) by (auto simp: minute_rows_def filter_empty_conv)
  obtain t where t: "first_start MinuteLayer db = Some t"
    using r(1) by (cases "db_buckets db") (auto simp: first_start_def)
  let ?c = "truncate_to minute t"
  note l = first_start_least [OF t ok(2)] and b = truncate_to_bounds [OF whole_minute(3), of t]
  have "?c < m + minute" using l b(2) r by force
  then have "?c - m < minute" by simp
  moreover have d: "minute dvd ?c - m" using b(1) m(1) by (rule dvd_diff)
  ultimately have cm: "?c \<le> m" by (meson zdvd_not_zless not_le diff_gt_0_iff_gt)
  have w: "whole ?c"
    using l b whole_minute truncate_to_pos [OF whole_minute(3), of t] by (auto simp: whole_def datable_def intro: dvd_trans)
  have "roll_up MinuteLayer ?c stop db = Inr db'"
    using run None t cm m(2) by (simp add: rollupIntervals_def Let_def)
  then show ?thesis using that [OF w b(1) cm] by blast
qed

lemma Maintain_inside:
  assumes "Maintain True now db = (Inr (), db')"
  obtains db1 db2 mc hc where
    "rollupIntervals MinuteLayer (truncate_to minute (now - minuteRollupGrace)) (drop_reports db) = Inr db1"
    "maintenanceCursor ''minute'' db1 = Some mc"
    "rollupIntervals HourLayer (earlierTime (truncate_to hour now) (truncate_to hour mc)) db1 = Inr db2"
    "maintenanceCursor ''hour'' db2 = Some hc"
    "db' = maintainPathAnchors (now - hourTrafficRetention) (deleteCoveredTraffic now mc hc db2)"
  using assms by (auto simp: Maintain_def rollupHistory_def split: sum.splits option.splits)

section \<open>Properties\<close>

lemma deleted_is_before:
  assumes "whole t" "datable cutoff" "formatTime t < formatTime cutoff"
  shows "t < cutoff"
  using whole_not_before [OF assms(1,2)] assms(3) by (meson not_le)

lemma find_row_keep:
  assumes "find_row key k rows = Some r" "P r"
  shows "find_row key k (filter P rows) = Some r"
proof -
  have "find f xs = Some r \<Longrightarrow> P r \<Longrightarrow> find f (filter P xs) = Some r" for f xs
    by (induction xs) (auto split: if_splits)
  with assms show ?thesis unfolding find_row_def by blast
qed

lemma maintained_traffic:
  assumes run: "Maintain True now db = (Inr (), db')"
    and cursors: "minute_cursor_ok m db" "hour_cursor_ok db"
    and buckets: "buckets_whole db" and now: "48 * hour \<le> now" "now < 3652059 * day_length"
    and m: "minute dvd m" "m + minute \<le> now - minuteRollupGrace"
    and e: "e \<in> tb_edgeID ` set (minute_rows db m)"
  shows "find_row rollup_key (e, m) (db_minutes db') = Some (rollup_row_of m (raw_edge_traffic (minute_rows db m) e)) \<or>
      m < now - minuteTrafficRetention \<and> (\<exists>d. maintenanceCursor ''hour'' db' = Some d \<and> m < d)"
    and "r \<in> set (db_buckets db) \<Longrightarrow> r \<notin> set (db_buckets db') \<Longrightarrow>
      tb_bucketStart r < now - rawTrafficRetention \<and> (\<exists>d. maintenanceCursor ''minute'' db' = Some d \<and> tb_bucketStart r < d)"
proof -
  obtain db1 db2 mc hc where
    i: "rollupIntervals MinuteLayer (truncate_to minute (now - minuteRollupGrace)) (drop_reports db) = Inr db1"
    "maintenanceCursor ''minute'' db1 = Some mc"
    "rollupIntervals HourLayer (earlierTime (truncate_to hour now) (truncate_to hour mc)) db1 = Inr db2"
    "maintenanceCursor ''hour'' db2 = Some hc"
    "db' = maintainPathAnchors (now - hourTrafficRetention) (deleteCoveredTraffic now mc hc db2)"
    by (rule Maintain_inside [OF run])
  let ?stop = "truncate_to minute (now - minuteRollupGrace)"
  note pos = whole_minute
  have drop: "db_buckets (drop_reports db) = db_buckets db" "maintenanceCursor n (drop_reports db) = maintenanceCursor n db" for n
    by (simp_all add: drop_reports_def maintenanceCursor_def split: option.splits)
  have bw: "buckets_whole (drop_reports db)" using buckets by (simp add: buckets_whole_def drop)
  have rows: "minute_rows (drop_reports db) = minute_rows db" by (simp add: fun_eq_iff minute_rows_def drop)
  note stop = truncate_to_bounds [OF pos(3), of "now - minuteRollupGrace"]
  have "m < ?stop" using m(2) stop(3) by linarith
  have ne: "minute_rows (drop_reports db) m \<noteq> []" using e rows by auto
  obtain c where c: "whole c" "minute dvd c" "c \<le> m" "roll_up MinuteLayer c ?stop (drop_reports db) = Inr db1"
    by (rule minute_rollup_start [OF i(1) _ bw m(1) \<open>m < ?stop\<close> ne]) (use cursors(1) drop in \<open>simp add: minute_cursor_ok_def\<close>)
  have md: "minute dvd m - c" using m(1) c(2) by (rule dvd_diff)
  have grace: "minute \<le> minuteRollupGrace" by (simp add: minuteRollupGrace_def minute_def second_def)
  have "?stop + minute < 3652059 * day_length" using stop(2) grace now(2) by linarith
  from roll_up_minutes [OF c(4) bw c(1) this md c(3) \<open>m < ?stop\<close>] e
  have 1: "find_row rollup_key (e, m) (db_minutes db1) = Some (rollup_row_of m (raw_edge_traffic (minute_rows db m) e))"
    by (simp add: rows)
  have 2: "db_minutes db2 = db_minutes db1" "db_buckets db2 = db_buckets db"
    "maintenanceCursor ''minute'' db2 = Some mc" "maintenanceCursor ''hour'' db1 = maintenanceCursor ''hour'' db"
    using hour_layer_keeps [OF i(3)] roll_up_buckets [OF c(4) refl] i(2) by (simp_all add: drop)
  have mc: "0 \<le> mc"
    using cursor_reaches [OF c(4)] i(2) c(1,3) \<open>m < ?stop\<close> by (auto simp: whole_def datable_def)
  have now0: "0 \<le> now" using now(1) pos(4) by simp
  have "0 \<le> earlierTime (truncate_to hour now) (truncate_to hour mc)"
    using truncate_to_pos [OF pos(4) now0] truncate_to_pos [OF pos(4) mc] by (simp add: earlierTime_def)
  then have hc: "0 \<le> hc"
    using interval_cursor [OF i(3)] i(4) 2(4) cursors(2)
    by (auto simp: hour_cursor_ok_def whole_def datable_def split: option.splits)
  have retention: "minuteTrafficRetention = 48 * hour" "rawTrafficRetention = hour"
    by (simp_all add: minuteTrafficRetention_def rawTrafficRetention_def)
  let ?cut = "earlierTime (now - minuteTrafficRetention) hc"
  have wm: "whole m" using c(1,3) m pos(1,3) now grace by (auto simp: whole_def datable_def intro: dvd_trans)
  have cut: "datable ?cut" using hc now pos(4) by (auto simp: earlierTime_def datable_def retention)
  have h': "maintenanceCursor ''hour'' db' = Some hc"
    using i(4) by (simp add: i(5) maintainPathAnchors_def deleteCoveredTraffic_def maintenanceCursor_def)
  show "find_row rollup_key (e, m) (db_minutes db') = Some (rollup_row_of m (raw_edge_traffic (minute_rows db m) e)) \<or>
      m < now - minuteTrafficRetention \<and> (\<exists>d. maintenanceCursor ''hour'' db' = Some d \<and> m < d)"
  proof (cases "formatTime m < formatTime ?cut")
    case True
    then have "m < ?cut" by (intro deleted_is_before [OF wm cut])
    then show ?thesis using h' by (simp add: earlierTime_def split: if_splits)
  next
    case False
    then show ?thesis
      using find_row_keep [OF 1, of "\<lambda>r. \<not> formatTime (ru_bucketStart r) < formatTime ?cut"]
      by (simp add: i(5) maintainPathAnchors_def deleteCoveredTraffic_def keep_from_def 2 rollup_row_of_def)
  qed
  assume r: "r \<in> set (db_buckets db)" "r \<notin> set (db_buckets db')"
  let ?raw = "earlierTime (now - rawTrafficRetention) mc"
  have "formatTime (tb_bucketStart r) < formatTime ?raw"
    using r by (simp add: i(5) maintainPathAnchors_def deleteCoveredTraffic_def keep_from_def 2)
  moreover have "whole (tb_bucketStart r)" using buckets r(1) by (simp add: buckets_whole_def)
  moreover have "datable ?raw" using mc now pos(4) by (auto simp: earlierTime_def datable_def retention)
  ultimately have "tb_bucketStart r < ?raw" by (intro deleted_is_before)
  moreover have "maintenanceCursor ''minute'' db' = Some mc"
    using 2(3) by (simp add: i(5) maintainPathAnchors_def deleteCoveredTraffic_def maintenanceCursor_def)
  ultimately show "tb_bucketStart r < now - rawTrafficRetention \<and>
      (\<exists>d. maintenanceCursor ''minute'' db' = Some d \<and> tb_bucketStart r < d)"
    by (auto simp: earlierTime_def split: if_splits)
qed

section \<open>What a bucket amounts to\<close>

text \<open>
  The rule for the rows of one edge in one bucket, stated on its own: the bytes in one direction are
  the sender's count where the sender reported, else the receiver's, else the largest of the others.
\<close>

definition counted ::
  "(traffic_bucket \<Rightarrow> string) \<Rightarrow> (traffic_bucket \<Rightarrow> string) \<Rightarrow> (traffic_bucket \<Rightarrow> int) \<Rightarrow> traffic_bucket list \<Rightarrow> int" where
  "counted sender receiver bytes rows =
     (let by_sender = filter (\<lambda>r. tb_observerID r = sender r) rows;
          by_receiver = filter (\<lambda>r. tb_observerID r = receiver r) rows
      in if by_sender \<noteq> [] then sum_list (map bytes by_sender)
         else if by_receiver \<noteq> [] then sum_list (map bytes by_receiver) else Max (bytes ` set rows))"

lemma max_of_Max: "xs \<noteq> [] \<Longrightarrow> max_of xs = Some (Max (set xs))"
  by (cases xs) (simp, simp only: max_of_def list.case Max.set_eq_fold)

lemma observed_counted:
  assumes "rows \<noteq> []"
  shows "observed_aToB rows = counted tb_sourceID tb_targetID tb_aToBBytes rows"
    and "observed_bToA rows = counted tb_targetID tb_sourceID tb_bToABytes rows"
proof -
  have other: "filter (\<lambda>r. tb_observerID r \<noteq> tb_sourceID r \<and> tb_observerID r \<noteq> tb_targetID r) rows = rows"
    if "filter (\<lambda>r. tb_observerID r = tb_sourceID r) rows = []" "filter (\<lambda>r. tb_observerID r = tb_targetID r) rows = []"
    using that by (simp add: filter_id_conv filter_empty_conv)
  show "observed_aToB rows = counted tb_sourceID tb_targetID tb_aToBBytes rows"
    "observed_bToA rows = counted tb_targetID tb_sourceID tb_bToABytes rows"
    using other assms by (auto simp: observed_aToB_def observed_bToA_def counted_def sum_of_def Let_def max_of_Max)
qed

definition edge_bucket :: "string \<Rightarrow> time \<Rightarrow> traffic_bucket list \<Rightarrow> traffic_bucket list" where
  "edge_bucket e t rows = filter (\<lambda>r. tb_edgeID r = e \<and> tb_bucketStart r = t) rows"

lemma raw_edge_counted:
  "lt_edgeID (raw_edge_traffic rows e) = e"
  "lt_aToBBytes (raw_edge_traffic rows e) =
     (\<Sum>t \<in> tb_bucketStart ` {r \<in> set rows. tb_edgeID r = e}. counted tb_sourceID tb_targetID tb_aToBBytes (edge_bucket e t rows))"
  "lt_bToABytes (raw_edge_traffic rows e) =
     (\<Sum>t \<in> tb_bucketStart ` {r \<in> set rows. tb_edgeID r = e}. counted tb_targetID tb_sourceID tb_bToABytes (edge_bucket e t rows))"
proof -
  let ?mine = "filter (\<lambda>r. tb_edgeID r = e) rows"
  let ?ts = "starts_of tb_bucketStart ?mine"
  have ts: "distinct ?ts" "set ?ts = tb_bucketStart ` {r \<in> set rows. tb_edgeID r = e}"
    using mset_eq_imp_distinct_iff [OF mset_sort_slice] by (auto simp: starts_of_def)
  have b: "bucket_rows t ?mine = edge_bucket e t rows" for t
    by (simp add: bucket_rows_def edge_bucket_def conj_commute)
  have ne: "t \<in> set ?ts \<Longrightarrow> edge_bucket e t rows \<noteq> []" for t
    unfolding ts(2) by (auto simp: edge_bucket_def filter_empty_conv)
  have sum: "sum_list (map f ?ts) = (\<Sum>t \<in> set ?ts. f t)" for f :: "time \<Rightarrow> int"
    using ts(1) by (simp add: sum_list_distinct_conv_sum_set)
  show "lt_edgeID (raw_edge_traffic rows e) = e" by (simp add: raw_edge_traffic_def Let_def)
  show "lt_aToBBytes (raw_edge_traffic rows e) =
     (\<Sum>t \<in> tb_bucketStart ` {r \<in> set rows. tb_edgeID r = e}. counted tb_sourceID tb_targetID tb_aToBBytes (edge_bucket e t rows))"
    "lt_bToABytes (raw_edge_traffic rows e) =
     (\<Sum>t \<in> tb_bucketStart ` {r \<in> set rows. tb_edgeID r = e}. counted tb_targetID tb_sourceID tb_bToABytes (edge_bucket e t rows))"
    using ne unfolding ts(2) [symmetric] by (simp_all add: raw_edge_traffic_def Let_def b sum observed_counted)
qed

text \<open>C19: Rolling up keeps the traffic of every edge. Maintenance that succeeds stores each minute that lies
  behind the two minutes of grace and that no earlier roll-up has covered (whether or not there was one)
  for every edge with a bucket in it: the bytes in each direction are the sum over the edge's buckets of
  the minute of the sender's count where the sender reported, else the receiver's, else the largest
  count of the others. Only where the minute is older than 48 hours and inside the hours already rolled
  up may its row be gone again. A raw bucket is deleted only when it is older than an hour and before the
  minute cursor. Bucket starts and cursors are whole seconds, the cursor a whole minute, of dates up to the
  year 9999, as the recording and the maintenance write them. (What is shown of several edges merged into
  one is another matter, see \<open>rollup_shrinks_total\<close>.)\<close>

theorem maintenance_keeps_traffic:
  assumes "Maintain True now db = (Inr (), db')"
    and "minute_cursor_ok m db" "hour_cursor_ok db" "buckets_whole db"
    and "48 * hour \<le> now" "now < 3652059 * day_length"
    and "minute dvd m" "m + minute \<le> now - minuteRollupGrace"
    and "e \<in> tb_edgeID ` set (minute_rows db m)"
  defines "starts \<equiv> tb_bucketStart ` {r \<in> set (minute_rows db m). tb_edgeID r = e}"
  shows "((\<exists>row. find_row rollup_key (e, m) (db_minutes db') = Some row \<and>
        ru_aToBBytes row = (\<Sum>t \<in> starts. counted tb_sourceID tb_targetID tb_aToBBytes (edge_bucket e t (minute_rows db m))) \<and>
        ru_bToABytes row = (\<Sum>t \<in> starts. counted tb_targetID tb_sourceID tb_bToABytes (edge_bucket e t (minute_rows db m)))) \<or>
      m < now - minuteTrafficRetention \<and> (\<exists>d. maintenanceCursor ''hour'' db' = Some d \<and> m < d)) \<and>
    (\<forall>r \<in> set (db_buckets db) - set (db_buckets db').
       tb_bucketStart r < now - rawTrafficRetention \<and>
       (\<exists>d. maintenanceCursor ''minute'' db' = Some d \<and> tb_bucketStart r < d))"
  using maintained_traffic [OF assms(1-9)] unfolding starts_def
  by (auto simp: rollup_row_of_def raw_edge_counted)

definition ex_hour :: time where
  "ex_hour = 63000000000 * second"

definition ex_rolled :: database where
  "ex_rolled = (snd (RecordWithMetadata True (ex_stored_report ''1'') (ex_hour + 20 * second) None
     [ex_traffic ''a'' ''b'' ''a'' 5 7 (ex_hour + 20 * second), ex_traffic ''a'' ''b'' ''b'' 4 9 (ex_hour + 25 * second)] [] None
     new_database))\<lparr>db_maintenance := [(''minute'', ex_hour), (''hour'', ex_hour)]\<rparr>"

lemma ex_rolled_ok: "edges_ok ex_rolled"
proof -
  have "edges_ok (snd (RecordWithMetadata True (ex_stored_report ''1'') (ex_hour + 20 * second) None
     [ex_traffic ''a'' ''b'' ''a'' 5 7 (ex_hour + 20 * second), ex_traffic ''a'' ''b'' ''b'' 4 9 (ex_hour + 25 * second)] [] None
     new_database))" (is "edges_ok ?db")
  proof (rule RecordWithMetadata_edges_ok [OF store_run_edges_ok [OF store_run.new]])
    show "list_all named_traffic [ex_traffic ''a'' ''b'' ''a'' 5 7 (ex_hour + 20 * second),
        ex_traffic ''a'' ''b'' ''b'' 4 9 (ex_hour + 25 * second)]" by code_simp
    show "plain_option None" by (simp add: plain_option_def)
  qed (rule surjective_pairing)
  then show ?thesis using edges_ok_tables [of ex_rolled ?db] by (simp add: ex_rolled_def)
qed

lemma ex_rolled_buckets:
  "db_buckets ex_rolled =
    [\<lparr>tb_edgeID = ''a--b'', tb_bucketStart = ex_hour + 20 * second, tb_sourceID = ''a'', tb_targetID = ''b'',
      tb_observerID = ''a'', tb_aToBBytes = 5, tb_bToABytes = 7\<rparr>,
     \<lparr>tb_edgeID = ''a--b'', tb_bucketStart = ex_hour + 20 * second, tb_sourceID = ''a'', tb_targetID = ''b'',
      tb_observerID = ''b'', tb_aToBBytes = 4, tb_bToABytes = 9\<rparr>]"
  by (simp add: ex_rolled_def RecordWithMetadata_def new_database_def Let_def recordTraffic_def upsertHistoryEdgeMapping_def
      upsert_def bucket_key_def traffic_row_def ex_traffic_def truncate_to_def bucket_width_def ex_hour_def second_def)

theorem maintenance_keeps_traffic_witness:
  "map_option (\<lambda>r. (ru_aToBBytes r, ru_bToABytes r))
     (find_row rollup_key (''a--b'', ex_hour) (db_minutes (snd (Maintain True (ex_hour + 10 * minute) ex_rolled)))) = Some (5, 9)"
proof -
  let ?now = "ex_hour + 10 * minute"
  have rows: "minute_rows ex_rolled ex_hour = db_buckets ex_rolled"
    by (simp add: minute_rows_def ex_rolled_buckets minute_def second_def)
  have run: "Maintain True ?now ex_rolled = (Inr (), snd (Maintain True ?now ex_rolled))"
    using Maintain_ok(1) [OF ex_rolled_ok, of ?now] by (metis prod.collapse)
  have w: "whole ex_hour" "minute dvd ex_hour" "whole (ex_hour + 20 * second)" by code_simp+
  have c: "minute_cursor_ok ex_hour ex_rolled" "hour_cursor_ok ex_rolled"
    using w by (simp_all add: minute_cursor_ok_def hour_cursor_ok_def maintenanceCursor_def ex_rolled_def)
  have b: "buckets_whole ex_rolled" using w(3) by (simp add: buckets_whole_def ex_rolled_buckets)
  have t: "48 * hour \<le> ?now" "?now < 3652059 * day_length" "ex_hour + minute \<le> ?now - minuteRollupGrace"
    "\<not> ex_hour < ?now - minuteTrafficRetention" by code_simp+
  have e: "''a--b'' \<in> tb_edgeID ` set (minute_rows ex_rolled ex_hour)" by (simp add: rows ex_rolled_buckets)
  have s: "tb_bucketStart ` {r \<in> set (minute_rows ex_rolled ex_hour). tb_edgeID r = ''a--b''} = {ex_hour + 20 * second}"
    unfolding rows ex_rolled_buckets set_filter [symmetric] by simp
  have "counted tb_sourceID tb_targetID tb_aToBBytes (edge_bucket ''a--b'' (ex_hour + 20 * second) (minute_rows ex_rolled ex_hour)) = 5"
    "counted tb_targetID tb_sourceID tb_bToABytes (edge_bucket ''a--b'' (ex_hour + 20 * second) (minute_rows ex_rolled ex_hour)) = 9"
    by (simp_all add: rows ex_rolled_buckets edge_bucket_def counted_def)
  with maintenance_keeps_traffic [OF run c b t(1,2) w(2) t(3) e, unfolded s] t(4) show ?thesis by auto
qed

end
