(* ===== verification/Store_Query.thy ===== *)
theory Store_Query
  imports Store_Rollup
begin

text \<open>
  Reading traffic from the history store (\<open>internal/store/history_query.go\<close>): the index of logical
  edges, the split of a window into the hour, minute and bucket layers, the points of a layer and
  the totals and buckets of the logical edges.
\<close>

section \<open>The index\<close>

record history_edge_record =
  hr_edgeID :: string
  hr_sourceID :: string
  hr_targetID :: string
  hr_firstTrafficAt :: time
  hr_lastTrafficAt :: time
  hr_systemTelemetry :: bool

record history_index =
  hx_redirects :: "(string, string) gomap"
  hx_nodes :: "(string, node_identity \<times> identity_status) gomap"
  hx_edgeAlias :: "(string, string) gomap"
  hx_edgeReversed :: "(string, bool) gomap"
  hx_edges :: "(string, history_edge_record) gomap"

definition index_node ::
  "(string, string) gomap \<Rightarrow> stored_node \<Rightarrow> (string, node_identity \<times> identity_status) gomap \<Rightarrow>
   (string, node_identity \<times> identity_status) gomap" where
  "index_node redirects row nodes =
     (let resolved = resolveNodeID redirects (sn_nodeID row)
      in if map_of nodes resolved = None \<or> resolved = sn_nodeID row then mput resolved (sn_identity row) nodes else nodes)"

definition merge_record :: "edge_mapping \<Rightarrow> history_edge \<Rightarrow> history_edge_record option \<Rightarrow> history_edge_record" where
  "merge_record m e known =
     (case known of
        None \<Rightarrow> \<lparr>hr_edgeID = em_logicalID m, hr_sourceID = em_logicalSourceID m, hr_targetID = em_logicalTargetID m,
                 hr_firstTrafficAt = he_firstTrafficAt e, hr_lastTrafficAt = he_lastTrafficAt e,
                 hr_systemTelemetry = he_systemTelemetry e\<rparr>
      | Some r \<Rightarrow>
          r\<lparr>hr_systemTelemetry := hr_systemTelemetry r \<or> he_systemTelemetry e,
            hr_firstTrafficAt := (if he_firstTrafficAt e < hr_firstTrafficAt r then he_firstTrafficAt e else hr_firstTrafficAt r),
            hr_lastTrafficAt := (if he_lastTrafficAt e > hr_lastTrafficAt r then he_lastTrafficAt e else hr_lastTrafficAt r)\<rparr>)"

definition index_mapping :: "edge_mapping \<times> history_edge \<Rightarrow> history_index \<Rightarrow> history_index" where
  "index_mapping row ix =
     (let (m, e) = row
      in ix\<lparr>hx_edgeAlias := mput (em_logicalID m) (em_logicalID m) (mput (em_physicalID m) (em_logicalID m) (hx_edgeAlias ix)),
            hx_edgeReversed := mput (em_physicalID m) (em_reversed m) (hx_edgeReversed ix),
            hx_edges := mput (em_logicalID m) (merge_record m e (map_of (hx_edges ix) (em_logicalID m))) (hx_edges ix)\<rparr>)"

definition mapped_rows :: "database \<Rightarrow> (edge_mapping \<times> history_edge) list" where
  "mapped_rows db =
     concat (map (\<lambda>m. map (Pair m) (filter (\<lambda>e. he_edgeID e = em_physicalID m) (db_edges db))) (db_edgeMap db))"

definition loadHistoryIndex :: "database \<Rightarrow> history_index" where
  "loadHistoryIndex db =
     fold index_mapping (mapped_rows db)
       \<lparr>hx_redirects = loadCanonicalRedirects db,
        hx_nodes = fold (index_node (loadCanonicalRedirects db)) (db_nodes db) [],
        hx_edgeAlias = [], hx_edgeReversed = [], hx_edges = []\<rparr>"

definition originalEdgeIDs :: "history_index \<Rightarrow> string \<Rightarrow> string list" where
  "originalEdgeIDs ix canonicalID = sort (map fst (filter (\<lambda>(_, resolved). resolved = canonicalID) (hx_edgeAlias ix)))"

section \<open>Segments\<close>

datatype traffic_table = HourTable | MinuteTable | BucketTable

record traffic_segment =
  ts_table :: traffic_table
  ts_from :: time
  ts_to :: time

definition laterTime :: "time \<Rightarrow> time \<Rightarrow> time" where
  "laterTime left right = (if left > right then left else right)"

definition maintenanceCoverage :: "string \<Rightarrow> time \<Rightarrow> time \<Rightarrow> database \<Rightarrow> time" where
  "maintenanceCoverage name lower upper db =
     (case maintenanceCursor name db of
        None \<Rightarrow> lower
      | Some coverage \<Rightarrow> if coverage < lower then lower else if coverage > upper then upper else coverage)"

definition segment :: "traffic_table \<Rightarrow> time \<Rightarrow> time \<Rightarrow> traffic_segment list" where
  "segment table start stop = (if start < stop then [\<lparr>ts_table = table, ts_from = start, ts_to = stop\<rparr>] else [])"

definition summaryTrafficSegments :: "time \<Rightarrow> time \<Rightarrow> database \<Rightarrow> traffic_segment list" where
  "summaryTrafficSegments start stop db =
     (let hourEnd = maintenanceCoverage ''hour'' start stop db;
          minuteEnd = maintenanceCoverage ''minute'' hourEnd stop db
      in segment HourTable start hourEnd @ segment MinuteTable hourEnd minuteEnd @ segment BucketTable minuteEnd stop)"

definition detailTrafficSegments :: "history_window \<Rightarrow> time \<Rightarrow> time \<Rightarrow> database \<Rightarrow> traffic_segment list" where
  "detailTrafficSegments window start stop db =
     (let rawStart = laterTime start (stop - rawTrafficRetention)
      in if window = History15Minutes \<or> window = History1Hour
         then [\<lparr>ts_table = BucketTable, ts_from = start, ts_to = stop\<rparr>]
         else
           (let minuteStart = laterTime start (stop - minuteTrafficRetention);
                minuteFrom = (if window = History7Days then maintenanceCoverage ''hour'' start minuteStart db else start);
                hours = (if window = History7Days then segment HourTable start minuteFrom else []);
                minuteEnd = maintenanceCoverage ''minute'' minuteFrom rawStart db
            in hours @ segment MinuteTable minuteFrom minuteEnd @ segment BucketTable minuteEnd stop))"

section \<open>Layers\<close>

record traffic_point =
  sp_edgeID :: string
  sp_sourceID :: string
  sp_targetID :: string
  sp_bucketStart :: time
  sp_aToBBytes :: int
  sp_bToABytes :: int

definition point_less :: "traffic_point \<Rightarrow> traffic_point \<Rightarrow> bool" where
  "point_less a b \<longleftrightarrow> sp_edgeID a < sp_edgeID b \<or>
     sp_edgeID a = sp_edgeID b \<and> formatTime (sp_bucketStart a) < formatTime (sp_bucketStart b)"

definition point_of :: "rollup_row \<Rightarrow> traffic_point" where
  "point_of r =
     \<lparr>sp_edgeID = ru_edgeID r, sp_sourceID = ru_sourceID r, sp_targetID = ru_targetID r, sp_bucketStart = ru_bucketStart r,
      sp_aToBBytes = ru_aToBBytes r, sp_bToABytes = ru_bToABytes r\<rparr>"

definition bucket_point :: "traffic_bucket list \<Rightarrow> string \<times> time \<Rightarrow> traffic_point" where
  "bucket_point rows key =
     (let group = filter (\<lambda>r. (tb_edgeID r, tb_bucketStart r) = key) rows
      in \<lparr>sp_edgeID = fst key, sp_sourceID = min_text (map tb_sourceID group), sp_targetID = min_text (map tb_targetID group),
          sp_bucketStart = snd key, sp_aToBBytes = observed_aToB group, sp_bToABytes = observed_bToA group\<rparr>)"

definition bucket_points :: "traffic_bucket list \<Rightarrow> traffic_point list" where
  "bucket_points rows =
     sort_slice point_less (map (bucket_point rows) (remdups (map (\<lambda>r. (tb_edgeID r, tb_bucketStart r)) rows)))"

fun rollup_table :: "traffic_table \<Rightarrow> database \<Rightarrow> rollup_row list" where
  "rollup_table HourTable db = db_hours db"
| "rollup_table MinuteTable db = db_minutes db"
| "rollup_table BucketTable db = []"

definition edgeFilter :: "string list \<Rightarrow> string \<Rightarrow> bool" where
  "edgeFilter edgeIDs edgeID \<longleftrightarrow> edgeIDs = [] \<or> edgeID \<in> set edgeIDs"

definition queryTrafficLayer :: "traffic_segment \<Rightarrow> string list \<Rightarrow> database \<Rightarrow> traffic_point list" where
  "queryTrafficLayer seg edgeIDs db =
     (if ts_table seg = BucketTable
      then bucket_points (filter (\<lambda>r. text_in (ts_from seg) (ts_to seg) (tb_bucketStart r) \<and> edgeFilter edgeIDs (tb_edgeID r))
             (db_buckets db))
      else sort_slice point_less (map point_of
             (filter (\<lambda>r. text_in (ts_from seg) (ts_to seg) (ru_bucketStart r) \<and> edgeFilter edgeIDs (ru_edgeID r))
               (rollup_table (ts_table seg) db))))"

text \<open>
  The totals of the logical edges in a layer: of the physical edges of one logical edge the larger
  count of every bucket, in the direction of the logical edge, summed over the buckets.
\<close>

definition point_pairs :: "edge_mapping list \<Rightarrow> traffic_point list \<Rightarrow> (traffic_point \<times> edge_mapping) list" where
  "point_pairs mappings points =
     concat (map (\<lambda>p. map (Pair p) (filter (\<lambda>m. em_physicalID m = sp_edgeID p) mappings)) points)"

definition oriented_point :: "traffic_point \<times> edge_mapping \<Rightarrow> int \<times> int" where
  "oriented_point pm =
     (let (p, m) = pm in if em_reversed m then (sp_bToABytes p, sp_aToBBytes p) else (sp_aToBBytes p, sp_bToABytes p))"

definition bucket_max :: "(int \<times> int \<Rightarrow> int) \<Rightarrow> (traffic_point \<times> edge_mapping) list \<Rightarrow> time \<Rightarrow> int" where
  "bucket_max f rows t = coalesce [max_of (map (f \<circ> oriented_point) (filter (\<lambda>pm. sp_bucketStart (fst pm) = t) rows))]"

definition summary_point :: "(traffic_point \<times> edge_mapping) list \<Rightarrow> string \<Rightarrow> traffic_point" where
  "summary_point rows edgeID =
     (let mine = filter (\<lambda>pm. em_logicalID (snd pm) = edgeID) rows; starts = starts_of (sp_bucketStart \<circ> fst) mine
      in \<lparr>sp_edgeID = edgeID,
          sp_sourceID = min_text (map (\<lambda>t. em_logicalSourceID (snd (hd (filter (\<lambda>pm. sp_bucketStart (fst pm) = t) mine)))) starts),
          sp_targetID = min_text (map (\<lambda>t. em_logicalTargetID (snd (hd (filter (\<lambda>pm. sp_bucketStart (fst pm) = t) mine)))) starts),
          sp_bucketStart = (case starts of [] \<Rightarrow> 0 | t # rest \<Rightarrow> fold (\<lambda>u m. text_max m u) rest t),
          sp_aToBBytes = sum_list (map (bucket_max fst mine) starts),
          sp_bToABytes = sum_list (map (bucket_max snd mine) starts)\<rparr>)"

definition queryTrafficSummaryLayer :: "traffic_segment \<Rightarrow> database \<Rightarrow> traffic_point list" where
  "queryTrafficSummaryLayer seg db =
     (let rows = point_pairs (db_edgeMap db) (queryTrafficLayer seg [] db)
      in map (summary_point rows) (edges_of (em_logicalID \<circ> snd) rows))"

section \<open>Totals\<close>

definition empty_point :: "string \<Rightarrow> traffic_point" where
  "empty_point edgeID = \<lparr>sp_edgeID = edgeID, sp_sourceID = [], sp_targetID = [], sp_bucketStart = 0, sp_aToBBytes = 0, sp_bToABytes = 0\<rparr>"

definition add_summary :: "traffic_point \<Rightarrow> (string, traffic_point) gomap \<Rightarrow> (string, traffic_point) gomap" where
  "add_summary p totals =
     (if sp_edgeID p = [] then totals
      else
        (let current = (case map_of totals (sp_edgeID p) of Some c \<Rightarrow> c | None \<Rightarrow> empty_point (sp_edgeID p))
         in mput (sp_edgeID p)
              (current\<lparr>sp_aToBBytes := sp_aToBBytes current + sp_aToBBytes p,
                       sp_bToABytes := sp_bToABytes current + sp_bToABytes p,
                       sp_bucketStart := (if sp_bucketStart p > sp_bucketStart current then sp_bucketStart p
                                          else sp_bucketStart current)\<rparr>) totals))"

definition loadTrafficSummaryPoints :: "time \<Rightarrow> time \<Rightarrow> database \<Rightarrow> (string, traffic_point) gomap" where
  "loadTrafficSummaryPoints start stop db =
     fold (\<lambda>seg. fold add_summary (queryTrafficSummaryLayer seg db)) (summaryTrafficSegments start stop db) []"

section \<open>Buckets\<close>

text \<open>The points of the layers by logical edge and bucket start: of several the larger counts.\<close>

definition merge_point ::
  "history_index \<Rightarrow> traffic_point \<Rightarrow> (string \<times> time, traffic_point) gomap \<Rightarrow> (string \<times> time, traffic_point) gomap" where
  "merge_point ix p merged =
     (let canonicalID = str_at (hx_edgeAlias ix) (sp_edgeID p)
      in if canonicalID = [] then merged
         else
           (let flip = (map_of (hx_edges ix) canonicalID \<noteq> None \<and> map_of (hx_edgeReversed ix) (sp_edgeID p) = Some True);
                a = (if flip then sp_bToABytes p else sp_aToBBytes p);
                b = (if flip then sp_aToBBytes p else sp_bToABytes p);
                key = (canonicalID, sp_bucketStart p);
                current = (case map_of merged key of Some c \<Rightarrow> c | None \<Rightarrow> empty_point canonicalID)
            in mput key
                 (current\<lparr>sp_aToBBytes := (if a > sp_aToBBytes current then a else sp_aToBBytes current),
                          sp_bToABytes := (if b > sp_bToABytes current then b else sp_bToABytes current),
                          sp_edgeID := canonicalID, sp_bucketStart := sp_bucketStart p\<rparr>) merged))"

definition group_point ::
  "time \<Rightarrow> time \<Rightarrow> duration \<Rightarrow> traffic_point \<Rightarrow> (string \<times> time, traffic_point) gomap \<Rightarrow> (string \<times> time, traffic_point) gomap" where
  "group_point start stop resolution p grouped =
     (if sp_bucketStart p < start \<or> \<not> sp_bucketStart p < stop then grouped
      else
        (let offset = time_sub (sp_bucketStart p) start;
             bucket = start + trunc_div offset resolution * resolution;
             key = (sp_edgeID p, bucket);
             current = (case map_of grouped key of Some c \<Rightarrow> c | None \<Rightarrow> (empty_point (sp_edgeID p))\<lparr>sp_bucketStart := bucket\<rparr>)
         in mput key (current\<lparr>sp_aToBBytes := sp_aToBBytes current + sp_aToBBytes p,
                             sp_bToABytes := sp_bToABytes current + sp_bToABytes p\<rparr>) grouped))"

definition loadTrafficPointsForEdges ::
  "history_index \<Rightarrow> history_window \<Rightarrow> time \<Rightarrow> time \<Rightarrow> string list \<Rightarrow> database \<Rightarrow> (string, traffic_point list) gomap" where
  "loadTrafficPointsForEdges ix window start stop edgeIDs db =
     (let merged = fold (\<lambda>seg. fold (merge_point ix) (queryTrafficLayer seg edgeIDs db))
            (detailTrafficSegments window start stop db) [];
          grouped = fold (group_point start stop (WindowResolution window)) (map snd merged) []
      in map (\<lambda>edgeID. (edgeID, sort_slice (\<lambda>p q. sp_bucketStart p < sp_bucketStart q)
                 (map snd (filter (\<lambda>(key, _). fst key = edgeID) grouped))))
           (remdups (map (fst \<circ> fst) grouped)))"

definition loadTrafficPoints ::
  "history_index \<Rightarrow> history_window \<Rightarrow> time \<Rightarrow> time \<Rightarrow> database \<Rightarrow> (string, traffic_point list) gomap" where
  "loadTrafficPoints ix window start stop db = loadTrafficPointsForEdges ix window start stop [] db"

end
