(* ===== verification/Store_History.thy ===== *)
theory Store_History
  imports Store_Query
begin

text \<open>
  The history queries (\<open>internal/store/history_query.go\<close>, \<open>EdgeHistory\<close> of \<open>sqlite.go\<close>): the nodes
  and edges of a window with their pages, the traffic and path events of one edge, and the pages of
  its path events.

  Parameters: \<open>julianday\<close> is SQLite's date function on the text of a time; \<open>cursors\<close> reads and
  writes the JSON in base64 that carries a cursor (reading undoes writing); \<open>disk\<close> says whether the
  database answers.
\<close>

section \<open>Errors and cursors\<close>

datatype history_error =
    InvalidHistoryWindow history_window | InvalidHistoryLimit | InvalidHistoryCursor | HistoryDatabase store_error

record history_cursor =
  hc_lastTrafficAt :: time
  hc_edgeID :: string

record path_event_cursor =
  pu_observedAt :: time
  pu_id :: int
  pu_windowEnd :: time
  pu_window :: history_window
  pu_edgeID :: string
  pu_highWaterID :: int

record 'c cursors =
  cu_write :: "'c \<Rightarrow> string"
  cu_read :: "string \<Rightarrow> 'c option"

definition decodeHistoryCursor :: "history_cursor cursors \<Rightarrow> string \<Rightarrow> history_error + history_cursor" where
  "decodeHistoryCursor cu v =
     (case cu_read cu v of
        None \<Rightarrow> Inl InvalidHistoryCursor
      | Some c \<Rightarrow> if hc_lastTrafficAt c = 0 \<or> hc_edgeID c = [] then Inl InvalidHistoryCursor else Inr c)"

definition decodePathEventCursor :: "path_event_cursor cursors \<Rightarrow> string \<Rightarrow> history_error + path_event_cursor" where
  "decodePathEventCursor cu v =
     (case cu_read cu v of
        None \<Rightarrow> Inl InvalidHistoryCursor
      | Some c \<Rightarrow>
          if pu_observedAt c = 0 \<or> pu_id c < 1 \<or> pu_windowEnd c = 0 \<or> \<not> WindowValid (pu_window c) \<or>
             pu_edgeID c = [] \<or> pu_highWaterID c < pu_id c
          then Inl InvalidHistoryCursor else Inr c)"

section \<open>Nodes\<close>

record node_reference =
  nr_id :: string
  nr_stableNodeID :: string
  nr_label :: string
  nr_hostname :: string
  nr_dnsName :: string
  nr_os :: string
  nr_identityStatus :: identity_status

definition historyNodeReference :: "string \<Rightarrow> (node_identity \<times> identity_status) option \<Rightarrow> node_reference" where
  "historyNodeReference nodeID known =
     (let (identity, status) = (case known of Some i \<Rightarrow> i | None \<Rightarrow> (no_identity, NoIdentityStatus));
          name = DisplayName identity;
          label = (if name = ''unknown'' \<or> name = [] then nodeID else name)
      in \<lparr>nr_id = nodeID, nr_stableNodeID = ni_stableNodeID identity, nr_label = label,
          nr_hostname = ni_hostname identity, nr_dnsName = ni_dnsName identity, nr_os = ni_os identity,
          nr_identityStatus = status\<rparr>)"

definition indexed_node :: "history_index \<Rightarrow> string \<Rightarrow> node_reference" where
  "indexed_node ix nodeID = historyNodeReference nodeID (map_of (hx_nodes ix) nodeID)"

definition label_less :: "node_reference \<Rightarrow> node_reference \<Rightarrow> bool" where
  "label_less a b =
     (let left = to_lower (nr_label a); right = to_lower (nr_label b)
      in if left = right then nr_id a < nr_id b else left < right)"

text \<open>Edges the index does not know and, unless asked for, the edges of system telemetry are left out.\<close>

definition shown_edge :: "history_index \<Rightarrow> bool \<Rightarrow> string \<Rightarrow> history_edge_record option" where
  "shown_edge ix includeSystem edgeID =
     (case map_of (hx_edges ix) edgeID of
        None \<Rightarrow> None
      | Some e \<Rightarrow> if hr_systemTelemetry e \<and> \<not> includeSystem then None else Some e)"

definition HistoryNodes ::
  "bool \<Rightarrow> history_window \<Rightarrow> time \<Rightarrow> bool \<Rightarrow> database \<Rightarrow> history_error + node_reference list" where
  "HistoryNodes disk window stop includeSystem db =
     (if \<not> WindowValid window then Inl (InvalidHistoryWindow window)
      else if \<not> disk then Inl (HistoryDatabase DatabaseFailed)
      else
        (let ix = loadHistoryIndex db;
             points = loadTrafficSummaryPoints (stop - WindowDuration window) stop db;
             ids = remdups (concat (map (\<lambda>edgeID. case shown_edge ix includeSystem edgeID of
                     None \<Rightarrow> [] | Some e \<Rightarrow> [hr_sourceID e, hr_targetID e]) (mkeys points)))
         in Inr (take 250 (sort_slice label_less (map (indexed_node ix) ids)))))"

section \<open>Path events\<close>

record path_event_view =
  vw_observedAt :: time
  vw_path :: path_observation
  vw_conflicts :: "path_observation list"
  vw_observations :: "observation_provenance list"
  vw_pathState :: path_state
  vw_candidates :: "path_candidate list"
  vw_directions :: "directional_path_state list"
  vw_directionsTracked :: bool

definition resolved_observation :: "history_index \<Rightarrow> observation_provenance \<Rightarrow> observation_provenance" where
  "resolved_observation ix ob = ob\<lparr>op_observerID := resolveNodeID (hx_redirects ix) (op_observerID ob)\<rparr>"

text \<open>\<open>decodeStoredPathEvent\<close> counts the observers of a candidate after it has resolved them.\<close>

definition decodeStoredPathEvent :: "history_index \<Rightarrow> path_event \<Rightarrow> path_event_view" where
  "decodeStoredPathEvent ix e =
     (let observations = map (resolved_observation ix) (pv_observations e);
          (state, candidates) = PathCandidates (pv_path e) (pv_conflicts e) observations
      in \<lparr>vw_observedAt = pv_observedAt e, vw_path = pv_path e, vw_conflicts = pv_conflicts e,
          vw_observations = observations, vw_pathState = state, vw_candidates = candidates,
          vw_directions = RemapDirectionalPaths (pv_directions e) (hx_redirects ix),
          vw_directionsTracked = pv_directionsTracked e\<rparr>)"

text \<open>The loop of \<open>loadPathSetsForEdges\<close> counts them before.\<close>

definition path_set_event :: "history_index \<Rightarrow> path_event \<Rightarrow> path_event_view" where
  "path_set_event ix e =
     (let (state, candidates) = PathCandidates (pv_path e) (pv_conflicts e) (pv_observations e)
      in \<lparr>vw_observedAt = pv_observedAt e, vw_path = pv_path e, vw_conflicts = pv_conflicts e,
          vw_observations = map (resolved_observation ix) (pv_observations e), vw_pathState = state,
          vw_candidates = candidates,
          vw_directions = RemapDirectionalPaths (pv_directions e) (hx_redirects ix),
          vw_directionsTracked = pv_directionsTracked e\<rparr>)"

fun path_kind_text :: "path_kind \<Rightarrow> string" where
  "path_kind_text PathDirect = ''direct''"
| "path_kind_text PathDERP = ''derp''"
| "path_kind_text PathPeerRelay = ''peer_relay''"
| "path_kind_text PathUnknown = ''unknown''"
| "path_kind_text NoPathKind = []"
| "path_kind_text (OtherPathKind s) = s"

definition direction_kinds :: "directional_path_state \<Rightarrow> path_kind list" where
  "direction_kinds d =
     po_kind (dp_primaryPath d) # (case dp_fallbackPath d of None \<Rightarrow> [] | Some p \<Rightarrow> [po_kind p])"

definition addHistoryPathKinds :: "path_event_view \<Rightarrow> path_kind list \<Rightarrow> path_kind list" where
  "addHistoryPathKinds e kinds =
     fold List.insert
       (po_kind (vw_path e) # map po_kind (vw_conflicts e) @ concat (map direction_kinds (vw_directions e))) kinds"

record history_path_set =
  hp_anchor :: "path_event_view option"
  hp_events :: "path_event_view list"
  hp_kinds :: "path_kind list"

definition path_set_step ::
  "history_index \<Rightarrow> time \<Rightarrow> path_event \<Rightarrow> (string, history_path_set) gomap \<Rightarrow> (string, history_path_set) gomap" where
  "path_set_step ix start e sets =
     (let edgeID = str_at (hx_edgeAlias ix) (pv_edgeID e)
      in if edgeID = [] then sets
         else
           (let event = path_set_event ix e;
                known = (case map_of sets edgeID of Some s \<Rightarrow> s | None \<Rightarrow> \<lparr>hp_anchor = None, hp_events = [], hp_kinds = []\<rparr>)
            in mput edgeID
                 (if vw_observedAt event < start then known\<lparr>hp_anchor := Some event\<rparr>
                  else known\<lparr>hp_events := hp_events known @ [event],
                             hp_kinds := addHistoryPathKinds event (hp_kinds known)\<rparr>) sets))"

definition anchored_kinds :: "history_path_set \<Rightarrow> history_path_set" where
  "anchored_kinds s =
     (case hp_anchor s of None \<Rightarrow> s | Some e \<Rightarrow> s\<lparr>hp_kinds := addHistoryPathKinds e (hp_kinds s)\<rparr>)"

definition day_less :: "(time \<Rightarrow> rat) \<Rightarrow> path_event \<Rightarrow> path_event \<Rightarrow> bool" where
  "day_less julianday a b \<longleftrightarrow>
     julianday (pv_observedAt a) < julianday (pv_observedAt b) \<or>
     julianday (pv_observedAt a) = julianday (pv_observedAt b) \<and> pv_id a < pv_id b"

definition loadPathSetsForEdges ::
  "(time \<Rightarrow> rat) \<Rightarrow> history_index \<Rightarrow> time \<Rightarrow> time \<Rightarrow> string list \<Rightarrow> database \<Rightarrow> (string, history_path_set) gomap" where
  "loadPathSetsForEdges julianday ix start stop edgeIDs db =
     mapv (\<lambda>_. anchored_kinds)
       (fold (path_set_step ix start)
         (sort_slice (day_less julianday)
           (filter (\<lambda>e. julianday (pv_observedAt e) < julianday stop \<and> edgeFilter edgeIDs (pv_edgeID e)) (db_events db))) [])"

definition loadPathSets ::
  "(time \<Rightarrow> rat) \<Rightarrow> history_index \<Rightarrow> time \<Rightarrow> time \<Rightarrow> database \<Rightarrow> (string, history_path_set) gomap" where
  "loadPathSets julianday ix start stop db = loadPathSetsForEdges julianday ix start stop [] db"

section \<open>Pages of edges\<close>

record edge_summary =
  hs_edgeID :: string
  hs_source :: node_reference
  hs_target :: node_reference
  hs_systemTelemetry :: bool
  hs_lastTrafficAt :: time
  hs_aToBBytes :: int
  hs_bToABytes :: int
  hs_paths :: "path_kind list"

definition summary_less :: "edge_summary \<Rightarrow> edge_summary \<Rightarrow> bool" where
  "summary_less a b =
     (if hs_lastTrafficAt a = hs_lastTrafficAt b then hs_edgeID a < hs_edgeID b
      else hs_lastTrafficAt a > hs_lastTrafficAt b)"

definition edge_summary_of ::
  "history_index \<Rightarrow> (string, history_path_set) gomap \<Rightarrow> time \<Rightarrow> time \<Rightarrow> traffic_point \<Rightarrow> history_edge_record \<Rightarrow> edge_summary" where
  "edge_summary_of ix paths start stop p e =
     \<lparr>hs_edgeID = sp_edgeID p, hs_source = indexed_node ix (hr_sourceID e), hs_target = indexed_node ix (hr_targetID e),
      hs_systemTelemetry = hr_systemTelemetry e,
      hs_lastTrafficAt = (if \<not> hr_lastTrafficAt e < start \<and> hr_lastTrafficAt e < stop then hr_lastTrafficAt e
                          else sp_bucketStart p),
      hs_aToBBytes = sp_aToBBytes p, hs_bToABytes = sp_bToABytes p,
      hs_paths = (case map_of paths (sp_edgeID p) of
                    None \<Rightarrow> []
                  | Some s \<Rightarrow> sort_slice (\<lambda>a b. path_kind_text a < path_kind_text b) (hp_kinds s))\<rparr>"

definition summarizeHistoryEdges ::
  "history_index \<Rightarrow> (string, traffic_point) gomap \<Rightarrow> (string, history_path_set) gomap \<Rightarrow> time \<Rightarrow> time \<Rightarrow> edge_summary list" where
  "summarizeHistoryEdges ix points paths start stop =
     sort_slice summary_less
       (List.map_filter (\<lambda>(edgeID, p). map_option (edge_summary_of ix paths start stop p) (map_of (hx_edges ix) edgeID))
         points)"

definition containsPathKind :: "path_kind list \<Rightarrow> path_kind \<Rightarrow> bool" where
  "containsPathKind paths candidate \<longleftrightarrow> candidate \<in> set paths"

record edge_query =
  hq_window :: history_window
  hq_nodeID :: string
  hq_path :: path_kind
  hq_cursor :: string
  hq_limit :: int
  hq_includeSystemTelemetry :: bool

record edge_page =
  eg_edges :: "edge_summary list"
  eg_nextCursor :: string

definition historySummaryAfterCursor :: "history_cursor \<Rightarrow> edge_summary \<Rightarrow> bool" where
  "historySummaryAfterCursor c s \<longleftrightarrow>
     hs_lastTrafficAt s < hc_lastTrafficAt c \<or> hs_lastTrafficAt s = hc_lastTrafficAt c \<and> hs_edgeID s > hc_edgeID c"

definition encodeHistoryCursor :: "history_cursor cursors \<Rightarrow> edge_summary \<Rightarrow> string" where
  "encodeHistoryCursor cu s = cu_write cu \<lparr>hc_lastTrafficAt = hs_lastTrafficAt s, hc_edgeID = hs_edgeID s\<rparr>"

definition wanted_summary :: "edge_query \<Rightarrow> string \<Rightarrow> edge_summary \<Rightarrow> bool" where
  "wanted_summary q nodeID s \<longleftrightarrow>
     (hs_systemTelemetry s \<longrightarrow> hq_includeSystemTelemetry q) \<and>
     (nodeID \<noteq> [] \<longrightarrow> nr_id (hs_source s) = nodeID \<or> nr_id (hs_target s) = nodeID) \<and>
     (hq_path q \<noteq> NoPathKind \<longrightarrow> containsPathKind (hs_paths s) (hq_path q))"

definition filtered_edges :: "(time \<Rightarrow> rat) \<Rightarrow> edge_query \<Rightarrow> time \<Rightarrow> database \<Rightarrow> edge_summary list" where
  "filtered_edges julianday q stop db =
     (let ix = loadHistoryIndex db; start = stop - WindowDuration (hq_window q)
      in filter (wanted_summary q (resolveNodeID (hx_redirects ix) (hq_nodeID q)))
           (summarizeHistoryEdges ix (loadTrafficSummaryPoints start stop db) (loadPathSets julianday ix start stop db)
             start stop))"

definition edge_page_of :: "history_cursor cursors \<Rightarrow> int \<Rightarrow> edge_summary list \<Rightarrow> edge_page" where
  "edge_page_of cu limit edges =
     (if int (length edges) > limit
      then (let page = take (nat limit) edges in \<lparr>eg_edges = page, eg_nextCursor = encodeHistoryCursor cu (last page)\<rparr>)
      else \<lparr>eg_edges = edges, eg_nextCursor = []\<rparr>)"

definition HistoryEdges ::
  "history_cursor cursors \<Rightarrow> (time \<Rightarrow> rat) \<Rightarrow> bool \<Rightarrow> edge_query \<Rightarrow> time \<Rightarrow> database \<Rightarrow> history_error + edge_page" where
  "HistoryEdges cu julianday disk q stop db =
     (if \<not> WindowValid (hq_window q) then Inl (InvalidHistoryWindow (hq_window q))
      else
        (let limit = (if hq_limit q = 0 then 50 else hq_limit q)
         in if limit < 1 \<or> limit > 100 then Inl InvalidHistoryLimit
            else if \<not> disk then Inl (HistoryDatabase DatabaseFailed)
            else if hq_cursor q = [] then Inr (edge_page_of cu limit (filtered_edges julianday q stop db))
            else case decodeHistoryCursor cu (hq_cursor q) of
              Inl e \<Rightarrow> Inl e
            | Inr c \<Rightarrow>
                Inr (edge_page_of cu limit
                  (dropWhile (\<lambda>s. \<not> historySummaryAfterCursor c s) (filtered_edges julianday q stop db)))))"

section \<open>Related nodes\<close>

text \<open>
  The ends of the edge, the observers and the relays of its events; relays by the node that has the
  stable id, those of no node by the stable id itself. The accumulator is the node ids and the
  stable ids without a node.
\<close>

definition stable_ids :: "history_index \<Rightarrow> (string, string) gomap" where
  "stable_ids ix =
     fold (\<lambda>(nodeID, identity, _) ids.
         if ni_stableNodeID identity = [] then ids else mput (ni_stableNodeID identity) nodeID ids)
       (hx_nodes ix) []"

definition addRelayHistoryNode ::
  "(string, string) gomap \<Rightarrow> string \<Rightarrow> string list \<times> string list \<Rightarrow> string list \<times> string list" where
  "addRelayHistoryNode byStable stableID acc =
     (let (ids, unresolved) = acc
      in if stableID = [] then acc
         else if str_at byStable stableID \<noteq> [] then (List.insert (str_at byStable stableID) ids, unresolved)
         else (ids, List.insert stableID unresolved))"

definition add_path_relay ::
  "(string, string) gomap \<Rightarrow> path_observation \<Rightarrow> string list \<times> string list \<Rightarrow> string list \<times> string list" where
  "add_path_relay byStable path = addRelayHistoryNode byStable (po_relayStableID path)"

definition add_observation_nodes ::
  "(string, string) gomap \<Rightarrow> observation_provenance \<Rightarrow> string list \<times> string list \<Rightarrow> string list \<times> string list" where
  "add_observation_nodes byStable ob acc =
     add_path_relay byStable (op_path ob) (List.insert (op_observerID ob) (fst acc), snd acc)"

definition add_direction_nodes ::
  "(string, string) gomap \<Rightarrow> directional_path_state \<Rightarrow> string list \<times> string list \<Rightarrow> string list \<times> string list" where
  "add_direction_nodes byStable d acc =
     (let acc1 = add_path_relay byStable (dp_primaryPath d) (List.insert (dp_observerID d) (fst acc), snd acc)
      in case dp_fallbackPath d of None \<Rightarrow> acc1 | Some p \<Rightarrow> add_path_relay byStable p acc1)"

definition add_event_nodes ::
  "(string, string) gomap \<Rightarrow> path_event_view \<Rightarrow> string list \<times> string list \<Rightarrow> string list \<times> string list" where
  "add_event_nodes byStable e acc =
     fold (add_direction_nodes byStable) (vw_directions e)
       (fold (add_observation_nodes byStable) (vw_observations e)
         (fold (add_path_relay byStable) (vw_path e # vw_conflicts e) acc))"

definition unresolved_node :: "string \<Rightarrow> node_reference" where
  "unresolved_node stableID =
     \<lparr>nr_id = ''stable:'' @ stableID, nr_stableNodeID = stableID, nr_label = stableID, nr_hostname = [],
      nr_dnsName = [], nr_os = [], nr_identityStatus = IdentityPartial\<rparr>"

definition relatedHistoryNodes ::
  "history_index \<Rightarrow> node_reference \<Rightarrow> node_reference \<Rightarrow> path_event_view option \<Rightarrow> path_event_view list \<Rightarrow> node_reference list" where
  "relatedHistoryNodes ix src tgt anchor events =
     (let byStable = stable_ids ix;
          (ids, unresolved) = fold (add_event_nodes byStable) (case anchor of None \<Rightarrow> events | Some e \<Rightarrow> e # events)
            (remdups [nr_id src, nr_id tgt], [])
      in sort_slice label_less (map (indexed_node ix) ids @ map unresolved_node unresolved))"

section \<open>One edge\<close>

record history_bucket =
  hb_bucketStart :: time
  hb_aToBBytes :: int
  hb_bToABytes :: int

record edge_history =
  ey_edgeID :: string
  ey_source :: node_reference
  ey_target :: node_reference
  ey_systemTelemetry :: bool
  ey_relatedNodes :: "node_reference list"
  ey_start :: time
  ey_stop :: time
  ey_bucketDurationMS :: int
  ey_lastTrafficAt :: "time option"
  ey_traffic :: "history_bucket list"
  ey_pathAnchor :: "path_event_view option"
  ey_pathEvents :: "path_event_view list"
  ey_trafficTruncated :: bool
  ey_pathEventsTruncated :: bool

definition history_bucket_of :: "traffic_point \<Rightarrow> history_bucket" where
  "history_bucket_of p = \<lparr>hb_bucketStart = sp_bucketStart p, hb_aToBBytes = sp_aToBBytes p, hb_bToABytes = sp_bToABytes p\<rparr>"

text \<open>The last \<open>n\<close> elements of a list.\<close>

definition keep_last :: "nat \<Rightarrow> 'a list \<Rightarrow> 'a list" where
  "keep_last n xs = drop (length xs - n) xs"

definition canonical_edge :: "history_index \<Rightarrow> string \<Rightarrow> string" where
  "canonical_edge ix edgeID =
     (if str_at (hx_edgeAlias ix) edgeID = [] then edgeID else str_at (hx_edgeAlias ix) edgeID)"

definition EdgeHistoryWindow ::
  "(time \<Rightarrow> rat) \<Rightarrow> bool \<Rightarrow> string \<Rightarrow> history_window \<Rightarrow> time \<Rightarrow> bool \<Rightarrow> database \<Rightarrow>
   history_error + edge_history option" where
  "EdgeHistoryWindow julianday disk edgeID window stop includeSystem db =
     (if \<not> WindowValid window then Inl (InvalidHistoryWindow window)
      else if \<not> disk then Inl (HistoryDatabase DatabaseFailed)
      else
        (let ix = loadHistoryIndex db; canonicalID = canonical_edge ix edgeID
         in case shown_edge ix includeSystem canonicalID of
              None \<Rightarrow> Inr None
            | Some e \<Rightarrow>
                (let start = stop - WindowDuration window;
                     edgeIDs = originalEdgeIDs ix canonicalID;
                     src = indexed_node ix (hr_sourceID e); tgt = indexed_node ix (hr_targetID e);
                     points = (case map_of (loadTrafficPointsForEdges ix window start stop edgeIDs db) canonicalID of
                                 None \<Rightarrow> [] | Some ps \<Rightarrow> ps);
                     paths = map_of (loadPathSetsForEdges julianday ix start stop edgeIDs db) canonicalID;
                     anchor = Option.bind paths hp_anchor;
                     events = (case paths of None \<Rightarrow> [] | Some s \<Rightarrow> hp_events s)
                 in Inr (Some
                      \<lparr>ey_edgeID = canonicalID, ey_source = src, ey_target = tgt,
                       ey_systemTelemetry = hr_systemTelemetry e,
                       ey_relatedNodes = relatedHistoryNodes ix src tgt anchor (keep_last 500 events),
                       ey_start = start, ey_stop = stop,
                       ey_bucketDurationMS = trunc_div (WindowResolution window) (second div 1000),
                       ey_lastTrafficAt = (if \<not> hr_lastTrafficAt e < start \<and> hr_lastTrafficAt e < stop
                                           then Some (hr_lastTrafficAt e) else None),
                       ey_traffic = keep_last 200 (map history_bucket_of points),
                       ey_pathAnchor = anchor, ey_pathEvents = keep_last 500 events,
                       ey_trafficTruncated = (length points > 200),
                       ey_pathEventsTruncated = (length events > 500)\<rparr>))))"

section \<open>Pages of path events\<close>

record path_event_page =
  pp_source :: node_reference
  pp_target :: node_reference
  pp_relatedNodes :: "node_reference list"
  pp_anchor :: "path_event_view option"
  pp_events :: "path_event_view list"
  pp_nextCursor :: string

text \<open>\<open>observed_at > ? OR (observed_at = ? AND id > ?)\<close>\<close>

definition after_event :: "time \<Rightarrow> int \<Rightarrow> path_event \<Rightarrow> bool" where
  "after_event observedAt eventID e \<longleftrightarrow>
     formatPathEventTime observedAt < formatPathEventTime (pv_observedAt e) \<or>
     formatPathEventTime (pv_observedAt e) = formatPathEventTime observedAt \<and> pv_id e > eventID"

definition high_water :: "string list \<Rightarrow> time \<Rightarrow> database \<Rightarrow> int" where
  "high_water edgeIDs stop db =
     coalesce [max_of (map pv_id (filter (\<lambda>e. pv_edgeID e \<in> set edgeIDs \<and> event_before stop e) (db_events db)))]"

definition anchor_row :: "string list \<Rightarrow> time \<Rightarrow> int \<Rightarrow> database \<Rightarrow> path_event option" where
  "anchor_row edgeIDs start highWaterID db =
     last_event (filter (\<lambda>e. event_before start e \<and> pv_edgeID e \<in> set edgeIDs \<and> pv_id e \<le> highWaterID) (db_events db))"

definition window_rows :: "string list \<Rightarrow> time \<Rightarrow> time \<Rightarrow> int \<Rightarrow> database \<Rightarrow> path_event list" where
  "window_rows edgeIDs start stop highWaterID db =
     sort_slice event_less
       (filter (\<lambda>e. \<not> event_before start e \<and> event_before stop e \<and> pv_edgeID e \<in> set edgeIDs \<and> pv_id e \<le> highWaterID)
         (db_events db))"

definition paged_edge_ids :: "history_index \<Rightarrow> string \<Rightarrow> string list" where
  "paged_edge_ids ix canonicalID =
     (if originalEdgeIDs ix canonicalID = [] then [canonicalID] else originalEdgeIDs ix canonicalID)"

definition event_page ::
  "path_event_cursor cursors \<Rightarrow> history_index \<Rightarrow> history_edge_record \<Rightarrow> string \<Rightarrow> history_window \<Rightarrow> time \<Rightarrow>
   path_event_cursor option \<Rightarrow> int \<Rightarrow> database \<Rightarrow> path_event_page" where
  "event_page cu ix e canonicalID window stop cursor limit db =
     (let start = stop - WindowDuration window;
          edgeIDs = paged_edge_ids ix canonicalID;
          highWaterID = (case cursor of None \<Rightarrow> high_water edgeIDs stop db | Some c \<Rightarrow> pu_highWaterID c);
          src = indexed_node ix (hr_sourceID e); tgt = indexed_node ix (hr_targetID e);
          anchor = map_option (decodeStoredPathEvent ix) (anchor_row edgeIDs start highWaterID db);
          rows = filter (\<lambda>r. case cursor of None \<Rightarrow> True | Some c \<Rightarrow> after_event (pu_observedAt c) (pu_id c) r)
                   (window_rows edgeIDs start stop highWaterID db);
          page = take (nat limit) rows;
          events = map (decodeStoredPathEvent ix) page
      in \<lparr>pp_source = src, pp_target = tgt, pp_relatedNodes = relatedHistoryNodes ix src tgt anchor events,
          pp_anchor = anchor, pp_events = events,
          pp_nextCursor =
            (if int (length rows) > limit
             then cu_write cu \<lparr>pu_observedAt = pv_observedAt (last page), pu_id = pv_id (last page),
                               pu_windowEnd = stop, pu_window = window, pu_edgeID = canonicalID,
                               pu_highWaterID = highWaterID\<rparr>
             else [])\<rparr>)"

definition EdgePathHistoryWindow ::
  "path_event_cursor cursors \<Rightarrow> bool \<Rightarrow> string \<Rightarrow> history_window \<Rightarrow> time \<Rightarrow> string \<Rightarrow> int \<Rightarrow> bool \<Rightarrow> database \<Rightarrow>
   history_error + path_event_page option" where
  "EdgePathHistoryWindow cu disk edgeID window stop cursorValue limit includeSystem db =
     (if \<not> WindowValid window then Inl (InvalidHistoryWindow window)
      else
        (let limit = (if limit = 0 then 500 else limit)
         in if limit < 1 \<or> limit > 500 then Inl InvalidHistoryLimit
            else if \<not> disk then Inl (HistoryDatabase DatabaseFailed)
            else
              (let ix = loadHistoryIndex db; canonicalID = canonical_edge ix edgeID
               in case shown_edge ix includeSystem canonicalID of
                    None \<Rightarrow> Inr None
                  | Some e \<Rightarrow>
                      if cursorValue = [] then Inr (Some (event_page cu ix e canonicalID window stop None limit db))
                      else case decodePathEventCursor cu cursorValue of
                        Inl err \<Rightarrow> Inl err
                      | Inr c \<Rightarrow>
                          if pu_window c \<noteq> window \<or> pu_edgeID c \<noteq> canonicalID then Inl InvalidHistoryCursor
                          else Inr (Some (event_page cu ix e canonicalID window (pu_windowEnd c) (Some c) limit db)))))"

section \<open>The raw history of an edge\<close>

definition stored_event_view :: "path_event \<Rightarrow> path_event_view" where
  "stored_event_view e =
     (let (state, candidates) = PathCandidates (pv_path e) (pv_conflicts e) (pv_observations e)
      in \<lparr>vw_observedAt = pv_observedAt e, vw_path = pv_path e, vw_conflicts = pv_conflicts e,
          vw_observations = pv_observations e, vw_pathState = state, vw_candidates = candidates,
          vw_directions = pv_directions e, vw_directionsTracked = pv_directionsTracked e\<rparr>)"

definition EdgeHistory ::
  "(time \<Rightarrow> rat) \<Rightarrow> bool \<Rightarrow> string \<Rightarrow> time \<Rightarrow> database \<Rightarrow> store_error + history_bucket list \<times> path_event_view list" where
  "EdgeHistory julianday disk edgeID since db =
     (if \<not> disk then Inl DatabaseFailed
      else
        (let rows = filter (\<lambda>r. tb_edgeID r = edgeID \<and> \<not> formatTime (tb_bucketStart r) < formatTime since) (db_buckets db)
         in Inr
           (map (\<lambda>t. \<lparr>hb_bucketStart = t, hb_aToBBytes = observed_aToB (bucket_rows t rows),
                      hb_bToABytes = observed_bToA (bucket_rows t rows)\<rparr>) (starts_of tb_bucketStart rows),
            map stored_event_view
              (sort_slice (day_less julianday)
                (filter (\<lambda>e. pv_edgeID e = edgeID \<and> julianday (pv_observedAt e) \<ge> julianday since) (db_events db))))))"

section \<open>Shorthands\<close>

definition Record ::
  "bool \<Rightarrow> report_envelope \<Rightarrow> time \<Rightarrow> json option \<Rightarrow> accepted_traffic list \<Rightarrow> path_transition list \<Rightarrow> database \<Rightarrow>
   (store_error + bool) \<times> database" where
  "Record disk report receivedAt runtimeState traffic transitions db =
     RecordWithMetadata disk report receivedAt runtimeState traffic transitions None db"

definition RestoreStatePayload :: "database \<Rightarrow> json option" where
  "RestoreStatePayload db = fst (RestoreCheckpoint db)"

end
