(* ===== verification/Store_Pages.thy ===== *)
theory Store_Pages
  imports Store_History
begin

text \<open>
  The pages of the history: a client that follows the cursors of \<open>HistoryEdges\<close> or of
  \<open>EdgePathHistoryWindow\<close> receives everything once and in order, the pages of path events also
  while new events are recorded.
\<close>

section \<open>Following cursors\<close>

text \<open>A client asks with an empty cursor first and stops at a page without a next one.\<close>

fun follow :: "(string \<Rightarrow> 'r \<Rightarrow> ('a list \<times> string) option) \<Rightarrow> 'r list \<Rightarrow> string \<Rightarrow> 'a list option" where
  "follow ask [] cursor = None"
| "follow ask (r # rs) cursor =
     (case ask cursor r of
        None \<Rightarrow> None
      | Some (xs, next_cursor) \<Rightarrow>
          if next_cursor = [] then Some xs else map_option (append xs) (follow ask rs next_cursor))"

definition cut_page :: "('w \<Rightarrow> 'a) \<Rightarrow> ('w \<Rightarrow> string) \<Rightarrow> nat \<Rightarrow> 'w list \<Rightarrow> 'a list \<times> string" where
  "cut_page f cur n rest =
     (map f (take n rest), if length rest > n then cur (last (take n rest)) else [])"

lemma last_take_in: "take n xs \<noteq> [] \<Longrightarrow> last (take n xs) \<in> set xs"
  by (rule in_set_takeD [OF last_in_set])

lemma follow_rest:
  assumes "\<And>pre rest r. \<lbrakk>W = pre @ rest; pre \<noteq> []; r \<in> set rs\<rbrakk> \<Longrightarrow> ask (cur (last pre)) r = Some (cut_page f cur n rest)"
    and "\<And>x. x \<in> set W \<Longrightarrow> cur x \<noteq> []" and "0 < n"
    and "W = pre @ rest" "pre \<noteq> []" "length rest < length rs"
  shows "follow ask rs (cur (last pre)) = Some (map f rest)"
  using assms
proof (induction rs arbitrary: pre rest)
  case Nil
  then show ?case by simp
next
  case (Cons r rs)
  have page: "ask (cur (last pre)) r = Some (cut_page f cur n rest)"
    using Cons.prems(1) [OF Cons.prems(4,5)] by simp
  show ?case
  proof (cases "length rest > n")
    case False
    then show ?thesis using page by (simp add: cut_page_def)
  next
    case True
    define pre' where "pre' = pre @ take n rest"
    have ne: "take n rest \<noteq> []" using True Cons.prems(3) by auto
    have l: "last pre' = last (take n rest)" using ne by (simp add: pre'_def)
    have "last (take n rest) \<in> set W" using last_take_in [OF ne] Cons.prems(4) by simp
    then have "cur (last (take n rest)) \<noteq> []" by (rule Cons.prems(2))
    moreover have "follow ask rs (cur (last pre')) = Some (map f (drop n rest))"
    proof (rule Cons.IH)
      show "W = pre' @ drop n rest" using Cons.prems(4) by (simp add: pre'_def)
      show "pre' \<noteq> []" using ne by (simp add: pre'_def)
      show "length (drop n rest) < length rs" using Cons.prems(3,6) True by simp
      show "ask (cur (last p)) q = Some (cut_page f cur n t)" if "W = p @ t" "p \<noteq> []" "q \<in> set rs" for p t q
        using Cons.prems(1) [OF that(1,2)] that(3) by simp
    qed (use Cons.prems in auto)
    ultimately show ?thesis
      using page True l by (simp add: cut_page_def flip: map_append)
  qed
qed

lemma follow_all:
  assumes "ask cursor r = Some (cut_page f cur n W)"
    and "\<And>pre rest r. \<lbrakk>W = pre @ rest; pre \<noteq> []; r \<in> set rs\<rbrakk> \<Longrightarrow> ask (cur (last pre)) r = Some (cut_page f cur n rest)"
    and "\<And>x. x \<in> set W \<Longrightarrow> cur x \<noteq> []" and "0 < n" and "length W \<le> length rs"
  shows "follow ask (r # rs) cursor = Some (map f W)"
proof (cases "length W > n")
  case False
  then show ?thesis using assms(1) by (simp add: cut_page_def)
next
  case True
  have ne: "take n W \<noteq> []" using True assms(4) by auto
  then have "last (take n W) \<in> set W" by (rule last_take_in)
  then have "cur (last (take n W)) \<noteq> []" by (rule assms(3))
  moreover have "follow ask rs (cur (last (take n W))) = Some (map f (drop n W))"
    by (rule follow_rest [where W = W and n = n]) (use assms ne True in auto)
  ultimately show ?thesis
    using assms(1) True by (simp add: cut_page_def flip: map_append)
qed

text \<open>What comes after an element of a strictly ordered list.\<close>

lemma filter_after:
  assumes "sorted_wrt lt (pre @ rest)" "pre \<noteq> []"
    and "\<And>x. x \<in> set pre \<Longrightarrow> lt (last pre) x \<Longrightarrow> False"
  shows "filter (lt (last pre)) (pre @ rest) = rest"
proof -
  have "\<forall>x \<in> set rest. lt (last pre) x"
    using assms(1,2) by (auto simp: sorted_wrt_append)
  then show ?thesis using assms(3) by (auto simp: filter_id_conv filter_empty_conv)
qed

lemma weak_order_lex:
  "weak_order_on A (\<lambda>a b. (f a :: 'k :: linorder) < f b \<or> \<not> f b < f a \<and> (g a :: 'l :: linorder) < g b)"
  unfolding weak_order_on_def by (intro conjI ballI impI; force)

text \<open>Sorting a list without ties by a weak order gives a strictly ordered one.\<close>

lemma distinct_pairwise: "distinct xs \<Longrightarrow> sorted_wrt (\<lambda>a b. a \<noteq> b) xs"
  by (induction xs) auto

lemma strictly_sorted:
  assumes "weak_order_on (set xs) lt" "\<And>x y. \<lbrakk>x \<in> set xs; y \<in> set xs; x \<noteq> y\<rbrakk> \<Longrightarrow> lt x y \<or> lt y x" "distinct xs"
  shows "sorted_wrt lt (sort_slice lt xs)"
proof -
  have "distinct (sort_slice lt xs)" using assms(3) by (metis mset_eq_imp_distinct_iff mset_sort_slice)
  then have "sorted_wrt (\<lambda>a b. a \<noteq> b) (sort_slice lt xs)" by (rule distinct_pairwise)
  moreover have "sorted_wrt (\<lambda>a b. \<not> lt b a) (sort_slice lt xs)" by (rule sorted_sort_slice [OF assms(1)])
  ultimately have "sorted_wrt (\<lambda>a b. a \<noteq> b \<and> \<not> lt b a) (sort_slice lt xs)"
    by (auto simp: sorted_wrt_iff_nth_less)
  then show ?thesis by (rule sorted_wrt_mono_rel [rotated]) (use assms(2) in auto)
qed

lemma sorted_irrefl_last:
  assumes "sorted_wrt lt (pre @ rest)" "x \<in> set pre" "lt (last pre) x" "\<And>a b. lt a b \<Longrightarrow> \<not> lt b a"
  shows False
proof -
  have "pre = butlast pre @ [last pre]" using assms(2) by (metis append_butlast_last_id empty_iff list.set(1))
  then have "sorted_wrt lt (butlast pre @ [last pre])" "x \<in> set (butlast pre) \<or> x = last pre"
    using assms(1,2) by (metis sorted_wrt_append, metis Un_iff empty_iff insert_iff list.simps(15) set_append list.set(1))
  then show False using assms(3,4) by (auto simp: sorted_wrt_append)
qed

section \<open>Pages of path events\<close>

definition ask_events ::
  "path_event_cursor cursors \<Rightarrow> string \<Rightarrow> history_window \<Rightarrow> int \<Rightarrow> bool \<Rightarrow> string \<Rightarrow> time \<times> database \<Rightarrow>
   (path_event_view list \<times> string) option" where
  "ask_events cu edgeID window limit includeSystem cursor request =
     (case EdgePathHistoryWindow cu True edgeID window (fst request) cursor limit includeSystem (snd request) of
        Inr (Some page) \<Rightarrow> Some (pp_events page, pp_nextCursor page)
      | _ \<Rightarrow> None)"

definition events_ok :: "database \<Rightarrow> bool" where
  "events_ok db \<longleftrightarrow> distinct (map pv_id (db_events db)) \<and> 0 \<le> db_eventSeq db \<and>
     (\<forall>e \<in> set (db_events db). 1 \<le> pv_id e \<and> pv_id e \<le> db_eventSeq db \<and> pv_observedAt e \<noteq> 0)"

lemma recorded_event:
  "\<exists>e. db_events (recordPathTransition t db) = db_events db @ [e] \<and> pv_id e = db_eventSeq db + 1 \<and>
     pv_observedAt e = pt_observedAt t"
  by (auto simp: recordPathTransition_def Let_def)

lemma recorded_seq [simp]: "db_eventSeq (recordPathTransition t db) = db_eventSeq db + 1"
  by (simp add: recordPathTransition_def Let_def)

lemma events_ok_record:
  assumes "events_ok db" "pt_observedAt t \<noteq> 0"
  shows "events_ok (recordPathTransition t db)"
proof -
  obtain e where "db_events (recordPathTransition t db) = db_events db @ [e]" "pv_id e = db_eventSeq db + 1"
    "pv_observedAt e = pt_observedAt t"
    using recorded_event by blast
  then show ?thesis using assms by (fastforce simp: events_ok_def)
qed

lemma recorded_events:
  "\<exists>new. db_events (fold recordPathTransition ts db) = db_events db @ new \<and> (\<forall>e \<in> set new. pv_id e > db_eventSeq db)"
proof (induction ts arbitrary: db)
  case Nil
  then show ?case by simp
next
  case (Cons t ts)
  obtain new where new: "db_events (fold recordPathTransition ts (recordPathTransition t db)) =
      db_events (recordPathTransition t db) @ new" "\<forall>e \<in> set new. pv_id e > db_eventSeq db + 1"
    using Cons.IH [of "recordPathTransition t db"] by auto
  obtain e where e: "db_events (recordPathTransition t db) = db_events db @ [e]" "pv_id e = db_eventSeq db + 1"
    using recorded_event by blast
  have "db_events (fold recordPathTransition (t # ts) db) = db_events db @ (e # new)" using new(1) e(1) by simp
  moreover have "\<forall>x \<in> set (e # new). pv_id x > db_eventSeq db" using new(2) e(2) by auto
  ultimately show ?case by blast
qed

lemma recorded_index: "loadHistoryIndex (fold recordPathTransition ts db) = loadHistoryIndex db"
proof (induction ts arbitrary: db)
  case (Cons t ts)
  have "loadHistoryIndex (recordPathTransition t db) = loadHistoryIndex db"
    by (simp add: loadHistoryIndex_def recordPathTransition_def mapped_rows_def loadCanonicalRedirects_def Let_def)
  with Cons show ?case by simp
qed simp

lemma coalesce_max_ge: "x \<in> set xs \<Longrightarrow> x \<le> coalesce [max_of xs]"
proof (cases xs)
  case (Cons a rest)
  assume "x \<in> set xs"
  moreover have "b \<le> fold max rest b \<and> (\<forall>y \<in> set rest. y \<le> fold max rest b)" for b :: int
    by (induction rest arbitrary: b) (auto, (metis max.bounded_iff)+)
  ultimately show ?thesis using Cons by (auto simp: max_of_def)
qed simp

lemma high_water_ge:
  "\<lbrakk>e \<in> set (db_events db); pv_edgeID e \<in> set edgeIDs; event_before stop e\<rbrakk> \<Longrightarrow> pv_id e \<le> high_water edgeIDs stop db"
  unfolding high_water_def by (rule coalesce_max_ge) auto

lemma fold_max_in: "fold max rest a \<in> set (a # rest)" for a :: int
  by (induction rest arbitrary: a) (auto simp: max_def)

lemma high_water_le:
  assumes "events_ok db"
  shows "high_water edgeIDs stop db \<le> db_eventSeq db"
proof -
  let ?xs = "map pv_id (filter (\<lambda>e. pv_edgeID e \<in> set edgeIDs \<and> event_before stop e) (db_events db))"
  have "coalesce [max_of ?xs] \<in> {0} \<union> set ?xs"
    using fold_max_in by (cases ?xs) (auto simp: max_of_def simp del: fold_simps)
  then show ?thesis using assms by (auto simp: high_water_def events_ok_def)
qed

definition edge_events :: "string list \<Rightarrow> time \<Rightarrow> time \<Rightarrow> database \<Rightarrow> path_event list" where
  "edge_events edgeIDs start stop db =
     sort_slice event_less
       (filter (\<lambda>e. \<not> event_before start e \<and> event_before stop e \<and> pv_edgeID e \<in> set edgeIDs) (db_events db))"

lemma window_rows_recorded:
  assumes "events_ok db"
  shows "window_rows edgeIDs start stop (high_water edgeIDs stop db) (fold recordPathTransition ts db) =
    edge_events edgeIDs start stop db"
proof -
  obtain new where new: "db_events (fold recordPathTransition ts db) = db_events db @ new"
    "\<forall>e \<in> set new. pv_id e > db_eventSeq db"
    using recorded_events by blast
  have "filter (\<lambda>e. \<not> event_before start e \<and> event_before stop e \<and> pv_edgeID e \<in> set edgeIDs \<and>
      pv_id e \<le> high_water edgeIDs stop db) new = []"
    using new(2) high_water_le [OF assms, of edgeIDs stop] by (fastforce simp: filter_empty_conv)
  moreover have "filter (\<lambda>e. \<not> event_before start e \<and> event_before stop e \<and> pv_edgeID e \<in> set edgeIDs \<and>
      pv_id e \<le> high_water edgeIDs stop db) (db_events db) =
    filter (\<lambda>e. \<not> event_before start e \<and> event_before stop e \<and> pv_edgeID e \<in> set edgeIDs) (db_events db)"
    using high_water_ge by (intro filter_cong) auto
  ultimately show ?thesis using new(1) by (simp add: window_rows_def edge_events_def)
qed

lemma event_less_order: "weak_order_on A event_less"
  unfolding event_less_def by (rule weak_order_lex)

lemma after_event_less: "after_event (pv_observedAt c) (pv_id c) = event_less c"
  by (auto simp: fun_eq_iff after_event_def event_less_def)

lemma edge_events_sorted:
  assumes "events_ok db"
  shows "sorted_wrt event_less (edge_events edgeIDs start stop db)"
  unfolding edge_events_def
proof (rule strictly_sorted [OF event_less_order])
  have d: "distinct (map pv_id (db_events db))" using assms by (simp add: events_ok_def)
  then show "distinct (filter (\<lambda>e. \<not> event_before start e \<and> event_before stop e \<and> pv_edgeID e \<in> set edgeIDs) (db_events db))"
    by (auto simp: distinct_map)
  fix x y assume "x \<in> set (filter (\<lambda>e. \<not> event_before start e \<and> event_before stop e \<and> pv_edgeID e \<in> set edgeIDs) (db_events db))"
    "y \<in> set (filter (\<lambda>e. \<not> event_before start e \<and> event_before stop e \<and> pv_edgeID e \<in> set edgeIDs) (db_events db))" "x \<noteq> y"
  then have "pv_id x \<noteq> pv_id y" using d by (auto simp: distinct_map inj_on_def)
  then show "event_less x y \<or> event_less y x" by (auto simp: event_less_def)
qed

lemma event_less_asym: "event_less a b \<Longrightarrow> \<not> event_less b a"
  by (auto simp: event_less_def dest: less_asym)

lemma events_after:
  assumes "events_ok db" "edge_events edgeIDs start stop db = pre @ rest" "pre \<noteq> []"
  shows "filter (after_event (pv_observedAt (last pre)) (pv_id (last pre))) (edge_events edgeIDs start stop db) = rest"
proof -
  have srt: "sorted_wrt event_less (pre @ rest)" using edge_events_sorted [OF assms(1), of edgeIDs start stop] unfolding assms(2) .
  show ?thesis unfolding assms(2) after_event_less
    by (rule filter_after [OF srt assms(3)]) (use sorted_irrefl_last [OF srt] event_less_asym in blast)
qed

text \<open>The cursor of the last event of a page.\<close>

definition event_cursor :: "path_event_cursor cursors \<Rightarrow> history_window \<Rightarrow> time \<Rightarrow> string \<Rightarrow> int \<Rightarrow> path_event \<Rightarrow> string" where
  "event_cursor cu window stop canonicalID highWaterID e =
     cu_write cu \<lparr>pu_observedAt = pv_observedAt e, pu_id = pv_id e, pu_windowEnd = stop, pu_window = window,
                  pu_edgeID = canonicalID, pu_highWaterID = highWaterID\<rparr>"

definition good_cursors :: "'c cursors \<Rightarrow> bool" where
  "good_cursors cu \<longleftrightarrow> (\<forall>c. cu_read cu (cu_write cu c) = Some c \<and> cu_write cu c \<noteq> [])"

lemma event_page_cut:
  assumes "filter (\<lambda>r. case cursor of None \<Rightarrow> True | Some c \<Rightarrow> after_event (pu_observedAt c) (pu_id c) r)
      (window_rows (paged_edge_ids ix canonicalID) (stop - WindowDuration window) stop hw db) = rest"
    and "hw = (case cursor of None \<Rightarrow> high_water (paged_edge_ids ix canonicalID) stop db | Some c \<Rightarrow> pu_highWaterID c)"
    and "0 < limit"
  shows "(pp_events (event_page cu ix e canonicalID window stop cursor limit db),
      pp_nextCursor (event_page cu ix e canonicalID window stop cursor limit db)) =
    cut_page (decodeStoredPathEvent ix) (event_cursor cu window stop canonicalID hw) (nat limit) rest"
proof -
  have "int (length rest) > limit \<longleftrightarrow> length rest > nat limit" using assms(3) by linarith
  then show ?thesis
    unfolding event_page_def cut_page_def event_cursor_def Let_def assms(2) [symmetric] assms(1) by simp
qed

lemma path_pages_complete_aux:
  assumes "good_cursors cu" "WindowValid window" "1 \<le> limit" "limit \<le> 500" "edgeID \<noteq> []" "stop \<noteq> 0"
    and "events_ok db"
    and edge: "shown_edge (loadHistoryIndex db) includeSystem (canonical_edge (loadHistoryIndex db) edgeID) = Some e"
    and later: "\<forall>r \<in> set later. \<exists>ts. snd r = fold recordPathTransition ts db"
    and "length (db_events db) \<le> length later"
  defines "ix \<equiv> loadHistoryIndex db"
  defines "edgeIDs \<equiv> paged_edge_ids ix (canonical_edge ix edgeID)"
  defines "W \<equiv> edge_events edgeIDs (stop - WindowDuration window) stop db"
  shows "follow (ask_events cu edgeID window limit includeSystem) ((stop, db) # later) [] =
    Some (map (decodeStoredPathEvent ix) W)"
proof (rule follow_all)
  let ?hw = "high_water edgeIDs stop db"
  let ?cur = "event_cursor cu window stop (canonical_edge ix edgeID) ?hw"
  have ne: "canonical_edge ix edgeID \<noteq> []" using assms(5) by (simp add: canonical_edge_def)
  have limit: "(if limit = 0 then 500 else limit) = limit" "\<not> (limit < 1 \<or> limit > 500)" using assms(3,4) by auto
  have rows: "window_rows edgeIDs (stop - WindowDuration window) stop ?hw (fold recordPathTransition ts db) = W" for ts
    unfolding W_def by (rule window_rows_recorded [OF assms(7)])
  show "ask_events cu edgeID window limit includeSystem [] (stop, db) =
      Some (cut_page (decodeStoredPathEvent ix) ?cur (nat limit) W)"
  proof -
    have page: "(pp_events (event_page cu ix e (canonical_edge ix edgeID) window stop None limit db),
        pp_nextCursor (event_page cu ix e (canonical_edge ix edgeID) window stop None limit db)) =
      cut_page (decodeStoredPathEvent ix) ?cur (nat limit) W"
      using rows [of "[]"] assms(3) by (intro event_page_cut) (simp_all add: edgeIDs_def)
    show ?thesis
      using page limit assms(2) edge by (simp add: ask_events_def EdgePathHistoryWindow_def Let_def ix_def)
  qed
  have W: "x \<in> set (db_events db) \<and> pv_id x \<le> ?hw" if "x \<in> set W" for x
    using that high_water_ge [of x db edgeIDs stop] by (auto simp: W_def edge_events_def)
  show "ask_events cu edgeID window limit includeSystem (?cur (last pre)) r =
      Some (cut_page (decodeStoredPathEvent ix) ?cur (nat limit) rest)"
    if "W = pre @ rest" "pre \<noteq> []" "r \<in> set later" for pre rest r
  proof -
    let ?c = "\<lparr>pu_observedAt = pv_observedAt (last pre), pu_id = pv_id (last pre), pu_windowEnd = stop,
      pu_window = window, pu_edgeID = canonical_edge ix edgeID, pu_highWaterID = ?hw\<rparr>"
    obtain ts where r: "snd r = fold recordPathTransition ts db" using later \<open>r \<in> set later\<close> by blast
    have "last pre \<in> set W" using that by simp
    then have "last pre \<in> set (db_events db)" "pv_id (last pre) \<le> ?hw" using W by auto
    then have dec: "decodePathEventCursor cu (?cur (last pre)) = Inr ?c" "?cur (last pre) \<noteq> []"
      using assms(1,2,6,7) ne
      by (auto simp: decodePathEventCursor_def event_cursor_def good_cursors_def events_ok_def)
    have page: "(pp_events (event_page cu ix e (canonical_edge ix edgeID) window stop (Some ?c) limit (snd r)),
        pp_nextCursor (event_page cu ix e (canonical_edge ix edgeID) window stop (Some ?c) limit (snd r))) =
      cut_page (decodeStoredPathEvent ix) ?cur (nat limit) rest"
    proof (rule event_page_cut)
      show "filter (\<lambda>x. case Some ?c of None \<Rightarrow> True | Some c \<Rightarrow> after_event (pu_observedAt c) (pu_id c) x)
          (window_rows (paged_edge_ids ix (canonical_edge ix edgeID)) (stop - WindowDuration window) stop ?hw (snd r)) = rest"
        using events_after [OF assms(7)] that(1,2) rows [of ts] by (simp add: r W_def edgeIDs_def)
    qed (use assms(3) in simp_all)
    have edge': "shown_edge ix includeSystem (canonical_edge ix edgeID) = Some e" "loadHistoryIndex (snd r) = ix"
      using edge by (simp_all add: ix_def r recorded_index)
    show ?thesis
      using page limit assms(2) edge' dec
      by (simp add: ask_events_def EdgePathHistoryWindow_def Let_def)
  qed
  show "?cur x \<noteq> []" if "x \<in> set W" for x
    using assms(1) by (simp add: event_cursor_def good_cursors_def)
  show "0 < nat limit" using assms(3) by simp
  have "length W \<le> length (db_events db)" by (simp add: W_def edge_events_def)
  then show "length W \<le> length later" using assms(10) by simp
qed

section \<open>Pages of edges\<close>

definition times_set :: "database \<Rightarrow> bool" where
  "times_set db \<longleftrightarrow> (\<forall>b \<in> set (db_buckets db). 0 < tb_bucketStart b) \<and>
     (\<forall>r \<in> set (db_minutes db) \<union> set (db_hours db). 0 < ru_bucketStart r) \<and>
     (\<forall>e \<in> set (db_edges db). 0 < he_lastTrafficAt e)"

lemma fold_text_max_in: "fold (\<lambda>u m. text_max m u) rest t \<in> set (t # rest)"
proof (induction rest arbitrary: t)
  case (Cons u rest)
  then show ?case using Cons.IH [of "text_max t u"] by (auto simp: text_max_def split: if_splits)
qed simp

lemma layer_points_positive:
  assumes "times_set db" "p \<in> set (queryTrafficLayer seg edgeIDs db)"
  shows "0 < sp_bucketStart p"
proof (cases "ts_table seg = BucketTable")
  case True
  then show ?thesis
    using assms by (auto simp: queryTrafficLayer_def bucket_points_def bucket_point_def Let_def times_set_def)
next
  case False
  then have "set (rollup_table (ts_table seg) db) \<subseteq> set (db_minutes db) \<union> set (db_hours db)"
    by (cases "ts_table seg") auto
  then show ?thesis
    using assms False by (auto simp: queryTrafficLayer_def point_of_def times_set_def)
qed

lemma set_starts_query: "set (starts_of f rows) = f ` set rows"
  by (simp add: starts_of_def)

lemma summary_points_positive:
  assumes "times_set db" "p \<in> set (queryTrafficSummaryLayer seg db)"
  shows "0 < sp_bucketStart p"
proof -
  let ?rows = "point_pairs (db_edgeMap db) (queryTrafficLayer seg [] db)"
  obtain edgeID where e: "edgeID \<in> set (edges_of (em_logicalID \<circ> snd) ?rows)" "p = summary_point ?rows edgeID"
    using assms(2) by (auto simp: queryTrafficSummaryLayer_def Let_def)
  let ?mine = "filter (\<lambda>pm. em_logicalID (snd pm) = edgeID) ?rows"
  let ?starts = "starts_of (sp_bucketStart \<circ> fst) ?mine"
  have pos: "\<forall>t \<in> set ?starts. 0 < t"
    using layer_points_positive [OF assms(1), of _ seg "[]"] by (auto simp: set_starts_query point_pairs_def)
  obtain pm where "pm \<in> set ?rows" "em_logicalID (snd pm) = edgeID" using e(1) by (auto simp: edges_of_def)
  then have "sp_bucketStart (fst pm) \<in> set ?starts" by (auto simp: set_starts_query)
  then have "set ?starts \<noteq> {}" by auto
  then obtain t rest where s: "?starts = t # rest" by (cases ?starts) auto
  then show ?thesis using pos fold_text_max_in [where t = t and rest = rest] unfolding e(2) summary_point_def Let_def s
    by auto
qed

definition point_ok :: "string \<times> traffic_point \<Rightarrow> bool" where
  "point_ok kp \<longleftrightarrow> fst kp \<noteq> [] \<and> sp_edgeID (snd kp) = fst kp \<and> 0 < sp_bucketStart (snd kp)"

lemma mput_entries:
  assumes "\<forall>e \<in> set m. P e" "P (k, v)"
  shows "\<forall>e \<in> set (mput k v m). P e"
  using assms unfolding mput_def by (induction m) auto

lemma add_summary_ok:
  assumes "wf_map totals" "\<forall>kp \<in> set totals. point_ok kp" "0 < sp_bucketStart p"
  shows "wf_map (add_summary p totals) \<and> (\<forall>kp \<in> set (add_summary p totals). point_ok kp)"
proof (cases "sp_edgeID p = []")
  case True
  then show ?thesis using assms by (simp add: add_summary_def)
next
  case False
  define current where
    "current = (case map_of totals (sp_edgeID p) of Some c \<Rightarrow> c | None \<Rightarrow> empty_point (sp_edgeID p))"
  have c: "sp_edgeID current = sp_edgeID p"
    using assms(2) map_of_SomeD [of totals "sp_edgeID p"]
    by (fastforce simp: current_def empty_point_def point_ok_def split: option.splits)
  define v where
    "v = current\<lparr>sp_aToBBytes := sp_aToBBytes current + sp_aToBBytes p,
                  sp_bToABytes := sp_bToABytes current + sp_bToABytes p,
                  sp_bucketStart := (if sp_bucketStart p > sp_bucketStart current then sp_bucketStart p
                                     else sp_bucketStart current)\<rparr>"
  have "add_summary p totals = mput (sp_edgeID p) v totals"
    using False by (simp only: add_summary_def current_def v_def Let_def if_False)
  moreover have "point_ok (sp_edgeID p, v)" using False assms(3) c by (simp add: point_ok_def v_def)
  ultimately show ?thesis using assms(1) mput_entries [OF assms(2)] by simp
qed

lemma loadTrafficSummaryPoints_ok:
  assumes "times_set db"
  shows "wf_map (loadTrafficSummaryPoints start stop db) \<and> (\<forall>kp \<in> set (loadTrafficSummaryPoints start stop db). point_ok kp)"
proof -
  let ?ok = "\<lambda>totals. wf_map totals \<and> (\<forall>kp \<in> set totals. point_ok kp)"
  have inner: "?ok (fold add_summary ps totals)" if "?ok totals" "\<forall>p \<in> set ps. 0 < sp_bucketStart p" for ps totals
    using that
  proof (induction ps arbitrary: totals)
    case (Cons p ps)
    then have "?ok (add_summary p totals)" by (intro add_summary_ok) simp_all
    with Cons show ?case by simp
  qed simp
  have "?ok (fold (\<lambda>seg. fold add_summary (queryTrafficSummaryLayer seg db)) segs totals)" if "?ok totals" for segs totals
    using that
  proof (induction segs arbitrary: totals)
    case (Cons seg segs)
    have "?ok (fold add_summary (queryTrafficSummaryLayer seg db) totals)"
      using Cons.prems summary_points_positive [OF assms] by (intro inner) auto
    with Cons.IH show ?case by simp
  qed simp
  from this [of "[]" "summaryTrafficSegments start stop db"] show ?thesis
    unfolding loadTrafficSummaryPoints_def by simp
qed

lemma summary_less_lex:
  "summary_less = (\<lambda>a b. - hs_lastTrafficAt a < - hs_lastTrafficAt b \<or>
     \<not> - hs_lastTrafficAt b < - hs_lastTrafficAt a \<and> hs_edgeID a < hs_edgeID b)"
  by (auto simp: fun_eq_iff summary_less_def)

lemma summary_less_order: "weak_order_on A summary_less"
  unfolding summary_less_lex by (rule weak_order_lex)

lemma summary_less_asym: "summary_less a b \<Longrightarrow> \<not> summary_less b a"
  by (auto simp: summary_less_def split: if_splits)

lemma after_cursor_less:
  "historySummaryAfterCursor \<lparr>hc_lastTrafficAt = hs_lastTrafficAt a, hc_edgeID = hs_edgeID a\<rparr> b \<longleftrightarrow> summary_less a b"
  by (auto simp: historySummaryAfterCursor_def summary_less_def)

lemma summary_of_point:
  "hs_edgeID (edge_summary_of ix paths start stop p e) = sp_edgeID p"
  "\<lbrakk>0 < sp_bucketStart p; 0 < hr_lastTrafficAt e\<rbrakk> \<Longrightarrow> 0 < hs_lastTrafficAt (edge_summary_of ix paths start stop p e)"
  by (simp_all add: edge_summary_of_def)

lemma index_edges_positive:
  assumes "times_set db" "map_of (hx_edges (loadHistoryIndex db)) edgeID = Some r"
  shows "0 < hr_lastTrafficAt r"
proof -
  let ?ok = "\<lambda>ix. \<forall>e \<in> set (hx_edges ix). 0 < hr_lastTrafficAt (snd e)"
  have step: "?ok (index_mapping row ix)" if "?ok ix" "0 < he_lastTrafficAt (snd row)" for row ix
  proof -
    have "0 < hr_lastTrafficAt (merge_record (fst row) (snd row) (map_of (hx_edges ix) (em_logicalID (fst row))))"
      using that by (auto simp: merge_record_def dest: map_of_SomeD split: option.splits)
    then show ?thesis using mput_entries [OF that(1)] by (simp add: index_mapping_def split_beta)
  qed
  have all: "?ok (fold index_mapping rows ix)" if "?ok ix" "\<forall>row \<in> set rows. 0 < he_lastTrafficAt (snd row)" for rows ix
    using that
  proof (induction rows arbitrary: ix)
    case (Cons row rows)
    then have "?ok (index_mapping row ix)" by (intro step) simp_all
    with Cons show ?case by simp
  qed simp
  have "\<forall>row \<in> set (mapped_rows db). 0 < he_lastTrafficAt (snd row)"
    using assms(1) by (auto simp: mapped_rows_def times_set_def)
  then have "?ok (loadHistoryIndex db)" unfolding loadHistoryIndex_def by (rule all [rotated]) simp
  then show ?thesis using map_of_SomeD [OF assms(2)] by fastforce
qed

lemma summaries_distinct:
  assumes "wf_map points" "\<forall>kp \<in> set points. point_ok kp"
  shows "distinct (map hs_edgeID (List.map_filter
    (\<lambda>(edgeID, p). map_option (edge_summary_of ix paths start stop p) (map_of (hx_edges ix) edgeID)) points))"
  using assms
proof (induction points)
  case (Cons kp points)
  obtain k p where kp: "kp = (k, p)" "sp_edgeID p = k" "k \<notin> fst ` set points"
    using Cons.prems by (cases kp) (auto simp: wf_map_def point_ok_def)
  let ?f = "\<lambda>(edgeID, p). map_option (edge_summary_of ix paths start stop p) (map_of (hx_edges ix) edgeID)"
  have "hs_edgeID ` set (List.map_filter ?f points) \<subseteq> fst ` set points"
    using Cons.prems(2) by (force simp: List.map_filter_def summary_of_point point_ok_def)
  moreover have "distinct (map hs_edgeID (List.map_filter ?f points))"
    using Cons.prems by (intro Cons.IH) (auto simp: wf_map_def)
  ultimately show ?case using kp
    by (cases "map_of (hx_edges ix) k") (auto simp: List.map_filter_simps summary_of_point)
qed (simp add: List.map_filter_simps)

lemma filtered_edges_ok:
  assumes "times_set db"
  shows "sorted_wrt summary_less (filtered_edges julianday q stop db) \<and>
    (\<forall>s \<in> set (filtered_edges julianday q stop db). 0 < hs_lastTrafficAt s \<and> hs_edgeID s \<noteq> [])"
proof -
  define ix where "ix = loadHistoryIndex db"
  define start where "start = stop - WindowDuration (hq_window q)"
  define points where "points = loadTrafficSummaryPoints start stop db"
  define paths where "paths = loadPathSets julianday ix start stop db"
  define xs where "xs = List.map_filter
    (\<lambda>(edgeID, p). map_option (edge_summary_of ix paths start stop p) (map_of (hx_edges ix) edgeID)) points"
  have ok: "wf_map points" "\<forall>kp \<in> set points. point_ok kp"
    using loadTrafficSummaryPoints_ok [OF assms] by (simp_all add: points_def)
  have d: "distinct (map hs_edgeID xs)" unfolding xs_def by (rule summaries_distinct [OF ok])
  have "sorted_wrt summary_less (sort_slice summary_less xs)"
  proof (rule strictly_sorted [OF summary_less_order])
    show "summary_less x y \<or> summary_less y x" if "x \<in> set xs" "y \<in> set xs" "x \<noteq> y" for x y
    proof -
      have "hs_edgeID x \<noteq> hs_edgeID y" using d that by (auto simp: distinct_map inj_on_def)
      then show ?thesis by (auto simp: summary_less_def)
    qed
  qed (use d in \<open>simp add: distinct_map\<close>)
  moreover have "0 < hs_lastTrafficAt s \<and> hs_edgeID s \<noteq> []" if "s \<in> set xs" for s
  proof -
    obtain k p e where "(k, p) \<in> set points" "map_of (hx_edges ix) k = Some e" "s = edge_summary_of ix paths start stop p e"
      using \<open>s \<in> set xs\<close> by (auto simp: xs_def List.map_filter_def)
    then show ?thesis
      using ok(2) index_edges_positive [OF assms, of k e] by (auto simp: summary_of_point point_ok_def ix_def)
  qed
  moreover have "filtered_edges julianday q stop db =
      filter (wanted_summary q (resolveNodeID (hx_redirects ix) (hq_nodeID q))) (sort_slice summary_less xs)"
    by (simp add: filtered_edges_def summarizeHistoryEdges_def xs_def ix_def start_def points_def paths_def Let_def)
  ultimately show ?thesis by (simp add: sorted_wrt_filter)
qed

definition ask_edges ::
  "history_cursor cursors \<Rightarrow> (time \<Rightarrow> rat) \<Rightarrow> edge_query \<Rightarrow> time \<Rightarrow> database \<Rightarrow> string \<Rightarrow> unit \<Rightarrow>
   (edge_summary list \<times> string) option" where
  "ask_edges cu julianday q stop db cursor request =
     (case HistoryEdges cu julianday True (q\<lparr>hq_cursor := cursor\<rparr>) stop db of
        Inr page \<Rightarrow> Some (eg_edges page, eg_nextCursor page)
      | Inl _ \<Rightarrow> None)"

lemma edge_page_cut:
  assumes "0 < limit"
  shows "(eg_edges (edge_page_of cu limit rest), eg_nextCursor (edge_page_of cu limit rest)) =
    cut_page (\<lambda>s. s) (encodeHistoryCursor cu) (nat limit) rest"
proof -
  have "int (length rest) > limit \<longleftrightarrow> length rest > nat limit" using assms by linarith
  then show ?thesis by (simp add: edge_page_of_def cut_page_def Let_def)
qed

lemma dropWhile_after:
  assumes "sorted_wrt lt (pre @ rest)" "pre \<noteq> []" "\<And>a b. lt a b \<Longrightarrow> \<not> lt b a"
  shows "dropWhile (\<lambda>x. \<not> lt (last pre) x) (pre @ rest) = rest"
proof -
  have "\<forall>x \<in> set pre. \<not> lt (last pre) x" using sorted_irrefl_last [OF assms(1)] assms(3) by blast
  moreover have "\<forall>x \<in> set rest. lt (last pre) x" using assms(1,2) by (auto simp: sorted_wrt_append)
  ultimately show ?thesis by (cases rest) (simp_all add: dropWhile_append1 dropWhile_append2)
qed

lemma filtered_edges_cursor [simp]: "filtered_edges julianday (q\<lparr>hq_cursor := c\<rparr>) stop db = filtered_edges julianday q stop db"
  by (simp add: filtered_edges_def wanted_summary_def [abs_def])

lemma edge_pages_complete_aux:
  assumes "good_cursors cu" "WindowValid (hq_window q)" "1 \<le> hq_limit q" "hq_limit q \<le> 100" "times_set db"
    and "length (filtered_edges julianday q stop db) \<le> n"
  shows "follow (ask_edges cu julianday q stop db) (replicate (Suc n) ()) [] = Some (filtered_edges julianday q stop db)"
proof -
  let ?W = "filtered_edges julianday q stop db"
  let ?cur = "encodeHistoryCursor cu"
  let ?n = "nat (hq_limit q)"
  have limit: "(if hq_limit q = 0 then 50 else hq_limit q) = hq_limit q" "\<not> (hq_limit q < 1 \<or> hq_limit q > 100)" "0 < hq_limit q"
    using assms(3,4) by auto
  have W: "sorted_wrt summary_less ?W" "\<forall>s \<in> set ?W. 0 < hs_lastTrafficAt s \<and> hs_edgeID s \<noteq> []"
    using filtered_edges_ok [OF assms(5)] by auto
  have "follow (ask_edges cu julianday q stop db) (() # replicate n ()) [] = Some (map (\<lambda>s. s) ?W)"
  proof (rule follow_all)
    show "ask_edges cu julianday q stop db [] () = Some (cut_page (\<lambda>s. s) ?cur ?n ?W)"
      using edge_page_cut [OF limit(3), of cu ?W] limit assms(2) by (simp add: ask_edges_def HistoryEdges_def Let_def)
    show "ask_edges cu julianday q stop db (?cur (last pre)) r = Some (cut_page (\<lambda>s. s) ?cur ?n rest)"
      if "?W = pre @ rest" "pre \<noteq> []" "r \<in> set (replicate n ())" for pre rest r
    proof -
      have l: "last pre \<in> set ?W" using that by simp
      then have dec: "decodeHistoryCursor cu (?cur (last pre)) =
          Inr \<lparr>hc_lastTrafficAt = hs_lastTrafficAt (last pre), hc_edgeID = hs_edgeID (last pre)\<rparr>" "?cur (last pre) \<noteq> []"
        using assms(1) W(2) by (auto simp: decodeHistoryCursor_def encodeHistoryCursor_def good_cursors_def)
      have "dropWhile (\<lambda>s. \<not> historySummaryAfterCursor
          \<lparr>hc_lastTrafficAt = hs_lastTrafficAt (last pre), hc_edgeID = hs_edgeID (last pre)\<rparr> s) ?W = rest"
        unfolding after_cursor_less that(1)
        by (rule dropWhile_after) (use W(1) that summary_less_asym in auto)
      then show ?thesis
        using edge_page_cut [OF limit(3), of cu rest] limit assms(2) dec
        by (simp add: ask_edges_def HistoryEdges_def Let_def)
    qed
    show "?cur s \<noteq> []" if "s \<in> set ?W" for s using assms(1) by (simp add: encodeHistoryCursor_def good_cursors_def)
  qed (use limit assms(6) in simp_all)
  then show ?thesis by simp
qed

section \<open>A cursor codec\<close>

text \<open>Text forms of the cursors that read back: numbers in unary, strings with their length.\<close>

definition put_nat :: "nat \<Rightarrow> string" where
  "put_nat n = replicate n CHR ''1'' @ ''0''"

definition get_nat :: "string \<Rightarrow> nat \<times> string" where
  "get_nat s = (length (takeWhile (\<lambda>c. c = CHR ''1'') s), drop 1 (dropWhile (\<lambda>c. c = CHR ''1'') s))"

definition put_int :: "int \<Rightarrow> string" where
  "put_int i = put_nat (if i < 0 then 1 else 0) @ put_nat (nat \<bar>i\<bar>)"

definition get_int :: "string \<Rightarrow> int \<times> string" where
  "get_int s = (let (neg, s1) = get_nat s; (n, s2) = get_nat s1 in (if neg = 1 then - int n else int n, s2))"

definition put_text :: "string \<Rightarrow> string" where
  "put_text s = put_nat (length s) @ s"

definition get_text :: "string \<Rightarrow> string \<times> string" where
  "get_text s = (let (n, s1) = get_nat s in (take n s1, drop n s1))"

lemma get_put:
  "get_nat (put_nat n @ s) = (n, s)" "get_int (put_int i @ s) = (i, s)" "get_text (put_text t @ s) = (t, s)"
proof -
  show n: "get_nat (put_nat n @ s) = (n, s)" for n s
    by (induction n) (simp_all add: get_nat_def put_nat_def)
  show "get_int (put_int i @ s) = (i, s)" "get_text (put_text t @ s) = (t, s)"
    by (simp_all add: get_int_def put_int_def get_text_def put_text_def n)
qed

definition edge_cursor_codec :: "history_cursor cursors" where
  "edge_cursor_codec =
     \<lparr>cu_write = \<lambda>c. put_int (hc_lastTrafficAt c) @ put_text (hc_edgeID c),
      cu_read = \<lambda>s. let (t, s1) = get_int s; (e, _) = get_text s1
                     in Some \<lparr>hc_lastTrafficAt = t, hc_edgeID = e\<rparr>\<rparr>"

lemma put_int_neq [simp]: "put_int i \<noteq> []"
  by (simp add: put_int_def put_nat_def)

lemma edge_cursor_codec_good: "good_cursors edge_cursor_codec"
proof -
  have "get_text (put_text t) = (t, [])" for t using get_put(3) [of t "[]"] by simp
  then show ?thesis by (simp add: good_cursors_def edge_cursor_codec_def get_put)
qed

fun window_tag :: "history_window \<Rightarrow> nat \<times> string" where
  "window_tag History15Minutes = (0, [])"
| "window_tag History1Hour = (1, [])"
| "window_tag History6Hours = (2, [])"
| "window_tag History24Hours = (3, [])"
| "window_tag History7Days = (4, [])"
| "window_tag (OtherHistoryWindow s) = (5, s)"

definition tagged_window :: "nat \<times> string \<Rightarrow> history_window" where
  "tagged_window tag =
     (if fst tag = 5 then OtherHistoryWindow (snd tag)
      else [History15Minutes, History1Hour, History6Hours, History24Hours, History7Days] ! fst tag)"

lemma tagged_window_tag: "tagged_window (window_tag w) = w"
  by (cases w) (simp_all add: tagged_window_def)

definition event_cursor_codec :: "path_event_cursor cursors" where
  "event_cursor_codec =
     \<lparr>cu_write = \<lambda>c. put_int (pu_observedAt c) @ put_int (pu_id c) @ put_int (pu_windowEnd c) @
                 put_nat (fst (window_tag (pu_window c))) @ put_text (snd (window_tag (pu_window c))) @
                 put_text (pu_edgeID c) @ put_int (pu_highWaterID c),
      cu_read = \<lambda>s. let (t, s1) = get_int s; (i, s2) = get_int s1; (u, s3) = get_int s2; (k, s4) = get_nat s3;
                         (w, s5) = get_text s4; (e, s6) = get_text s5; (h, _) = get_int s6
                     in Some \<lparr>pu_observedAt = t, pu_id = i, pu_windowEnd = u, pu_window = tagged_window (k, w),
                              pu_edgeID = e, pu_highWaterID = h\<rparr>\<rparr>"

lemma event_cursor_codec_good: "good_cursors event_cursor_codec"
proof -
  have "get_int (put_int i) = (i, [])" for i using get_put(2) [of i "[]"] by simp
  then show ?thesis by (simp add: good_cursors_def event_cursor_codec_def get_put tagged_window_tag)
qed

section \<open>Properties\<close>

text \<open>C22: The pages of path events miss nothing and repeat nothing. A client that asks
  \<open>EdgePathHistoryWindow\<close> for the events of an edge and follows the cursors receives exactly the
  events the window had at the first request, each once and in order of time and id, although
  events are recorded and the clock moves between its requests: the cursor carries the end of the
  window and the largest id (\<open>HighWaterID\<close>) of the first page. It needs at most one request per
  event and one more.\<close>

theorem path_pages_complete:
  assumes "good_cursors cu" "WindowValid window" "1 \<le> limit" "limit \<le> 500" "edgeID \<noteq> []" "stop \<noteq> 0" "events_ok db"
    and "shown_edge (loadHistoryIndex db) includeSystem (canonical_edge (loadHistoryIndex db) edgeID) \<noteq> None"
    and "\<forall>r \<in> set later. \<exists>ts. snd r = fold recordPathTransition ts db"
    and "length (db_events db) \<le> length later"
  shows "follow (ask_events cu edgeID window limit includeSystem) ((stop, db) # later) [] =
    Some (map (decodeStoredPathEvent (loadHistoryIndex db))
      (edge_events (paged_edge_ids (loadHistoryIndex db) (canonical_edge (loadHistoryIndex db) edgeID))
        (stop - WindowDuration window) stop db))"
  using path_pages_complete_aux [OF assms(1-7) _ assms(9,10)] assms(8) by blast

definition ex_event :: "int \<Rightarrow> time \<Rightarrow> path_event" where
  "ex_event n t =
     \<lparr>pv_id = n, pv_edgeID = ''a--b'', pv_observedAt = t, pv_path = no_path\<lparr>po_kind := PathDirect\<rparr>, pv_conflicts = [],
      pv_observations = [], pv_directions = [], pv_directionsTracked = True\<rparr>"

definition ex_now :: time where
  "ex_now = 63000000000000000000"

definition ex_history :: database where
  "ex_history =
     new_database\<lparr>
       db_edges := [\<lparr>he_edgeID = ''a--b'', he_sourceID = ''a'', he_targetID = ''b'', he_firstTrafficAt = ex_now,
                     he_lastTrafficAt = ex_now, he_systemTelemetry = False\<rparr>],
       db_edgeMap := [\<lparr>em_physicalID = ''a--b'', em_logicalID = ''a--b'', em_logicalSourceID = ''a'',
                       em_logicalTargetID = ''b'', em_reversed = False, em_updatedAt = ex_now\<rparr>],
       db_buckets := [\<lparr>tb_edgeID = ''a--b'', tb_bucketStart = ex_now, tb_sourceID = ''a'', tb_targetID = ''b'',
                       tb_observerID = ''a'', tb_aToBBytes = 10, tb_bToABytes = 20\<rparr>],
       db_events := [ex_event 1 ex_now, ex_event 2 (ex_now + second)], db_eventSeq := 2\<rparr>"

definition ex_transition :: path_transition where
  "ex_transition =
     \<lparr>pt_edgeID = ''a--b'', pt_observedAt = ex_now + 2 * second, pt_path = no_path\<lparr>po_kind := PathDERP\<rparr>,
      pt_conflicts = [], pt_observations = [], pt_directions = []\<rparr>"

lemma ex_history_index:
  "shown_edge (loadHistoryIndex ex_history) False (canonical_edge (loadHistoryIndex ex_history) ''a--b'') \<noteq> None"
  by code_simp

theorem path_pages_complete_witness:
  "follow (ask_events event_cursor_codec ''a--b'' History1Hour 1 False)
     [(ex_now + minute, ex_history), (ex_now + 2 * minute, recordPathTransition ex_transition ex_history),
      (ex_now + 3 * minute, recordPathTransition ex_transition (recordPathTransition ex_transition ex_history))] [] =
   Some (map (decodeStoredPathEvent (loadHistoryIndex ex_history))
     (edge_events (paged_edge_ids (loadHistoryIndex ex_history) (canonical_edge (loadHistoryIndex ex_history) ''a--b''))
       (ex_now + minute - WindowDuration History1Hour) (ex_now + minute) ex_history))"
proof (rule path_pages_complete)
  show "\<forall>r \<in> set [(ex_now + 2 * minute, recordPathTransition ex_transition ex_history),
      (ex_now + 3 * minute, recordPathTransition ex_transition (recordPathTransition ex_transition ex_history))].
    \<exists>ts. snd r = fold recordPathTransition ts ex_history"
    using exI [of _ "[ex_transition]"] exI [of _ "[ex_transition, ex_transition]"] by fastforce
  show "events_ok ex_history" by (simp add: events_ok_def ex_history_def ex_event_def ex_now_def second_def)
  show "WindowValid History1Hour" "ex_now + minute \<noteq> 0" by code_simp+
qed (rule event_cursor_codec_good ex_history_index | simp add: ex_history_def)+

text \<open>C23: The pages of edges partition the list. At one instant, a client that asks
  \<open>HistoryEdges\<close> and follows the cursors receives every edge of the window that fits the query,
  once, with the latest traffic first, whatever the page size; traffic that arrives at the same
  instant on several edges does not confuse the cursor.\<close>

theorem edge_pages_complete:
  assumes "good_cursors cu" "WindowValid (hq_window q)" "1 \<le> hq_limit q" "hq_limit q \<le> 100" "times_set db"
    and "length (filtered_edges julianday q stop db) \<le> n"
  shows "follow (ask_edges cu julianday q stop db) (replicate (Suc n) ()) [] =
      Some (filtered_edges julianday q stop db) \<and>
    sorted_wrt summary_less (filtered_edges julianday q stop db)"
  using edge_pages_complete_aux [OF assms] filtered_edges_ok [OF assms(5)] by blast

definition ex_query :: edge_query where
  "ex_query = \<lparr>hq_window = History1Hour, hq_nodeID = [], hq_path = NoPathKind, hq_cursor = [], hq_limit = 1,
     hq_includeSystemTelemetry = False\<rparr>"

theorem edge_pages_complete_witness:
  "\<exists>n. follow (ask_edges edge_cursor_codec (\<lambda>t. of_int t) ex_query (ex_now + minute) ex_history) (replicate (Suc n) ()) [] =
      Some (filtered_edges (\<lambda>t. of_int t) ex_query (ex_now + minute) ex_history)"
proof -
  have "WindowValid (hq_window ex_query)" by code_simp
  moreover have "times_set ex_history" by (simp add: times_set_def ex_history_def ex_now_def new_database_def)
  ultimately show ?thesis
    using edge_pages_complete [OF edge_cursor_codec_good, of ex_query ex_history "\<lambda>t. of_int t" "ex_now + minute"
        "length (filtered_edges (\<lambda>t. of_int t) ex_query (ex_now + minute) ex_history)"]
    by (auto simp: ex_query_def)
qed

section \<open>Readings that differ\<close>

text \<open>The two readers of path events count the observers of a relay candidate differently once two of
  them were merged: \<open>EdgePathHistoryWindow\<close> after resolving them, \<open>EdgeHistoryWindow\<close> before.\<close>

definition ex_relay_path :: path_observation where
  "ex_relay_path = no_path\<lparr>po_kind := PathPeerRelay, po_relayStableID := ''r''\<rparr>"

definition ex_seen_by :: "string \<Rightarrow> observation_provenance" where
  "ex_seen_by observerID =
     \<lparr>op_observerID = observerID, op_path = ex_relay_path, op_fallbackPath = None, op_pathEvidence = PathEvidenceObserved,
      op_inferenceRule = [], op_collectedAt = ex_now, op_receivedAt = ex_now, op_clockSkewed = False, op_relaySession = None\<rparr>"

theorem candidate_counts_differ:
  "let e = (ex_event 1 ex_now)\<lparr>pv_path := ex_relay_path, pv_observations := [ex_seen_by ''a'', ex_seen_by ''b'']\<rparr>;
       ix = \<lparr>hx_redirects = [(''b'', ''a'')], hx_nodes = [], hx_edgeAlias = [], hx_edgeReversed = [], hx_edges = []\<rparr>
   in map pc_observerCount (vw_candidates (decodeStoredPathEvent ix e)) = [1] \<and>
      map pc_observerCount (vw_candidates (path_set_event ix e)) = [2] \<and>
      vw_observations (decodeStoredPathEvent ix e) = vw_observations (path_set_event ix e)"
  by code_simp

text \<open>
  Two physical edges of one logical edge, as a merge of nodes leaves them, in two buckets of a
  minute: read from the buckets the window holds 160 bytes, and 100 once the minute is rolled up,
  because the larger count is taken of the two minutes and no longer in each bucket.
\<close>

definition ex_later :: time where "ex_later = ex_now + 10 * second"
definition ex_minute_end :: time where "ex_minute_end = ex_now + minute"

definition ex_bucket :: "string \<Rightarrow> time \<Rightarrow> int \<Rightarrow> traffic_bucket" where
  "ex_bucket edgeID t bytes =
     \<lparr>tb_edgeID = edgeID, tb_bucketStart = t, tb_sourceID = ''a'', tb_targetID = ''b'', tb_observerID = ''a'',
      tb_aToBBytes = bytes, tb_bToABytes = 0\<rparr>"

definition ex_physical :: "string \<Rightarrow> edge_mapping" where
  "ex_physical edgeID =
     \<lparr>em_physicalID = edgeID, em_logicalID = ''a--b'', em_logicalSourceID = ''a'', em_logicalTargetID = ''b'',
      em_reversed = False, em_updatedAt = ex_now\<rparr>"

definition ex_twice :: database where
  "ex_twice = new_database\<lparr>db_edgeMap := [ex_physical ''a--b'', ex_physical ''a--c''],
     db_buckets := [ex_bucket ''a--b'' ex_now 100, ex_bucket ''a--c'' ex_later 60]\<rparr>"

lemma ex_texts:
  "formatTime ex_now < formatTime ex_later" "formatTime ex_now < formatTime ex_minute_end"
  "formatTime ex_later < formatTime ex_minute_end" "\<not> formatTime ex_later < formatTime ex_now"
  "ex_now \<noteq> ex_later"  "ex_later \<noteq> ex_now" "\<not> formatTime ex_minute_end < formatTime ex_now"
proof -
  have d: "datable ex_now" "datable ex_later" "datable ex_minute_end" by code_simp+
  have s: "ex_now div second \<noteq> ex_later div second" "ex_now div second \<noteq> ex_minute_end div second"
    "ex_later div second \<noteq> ex_minute_end div second" by code_simp+
  have l: "ex_now < ex_later" "ex_later < ex_minute_end" by code_simp+
  show "formatTime ex_now < formatTime ex_later" "formatTime ex_now < formatTime ex_minute_end"
    "formatTime ex_later < formatTime ex_minute_end" "\<not> formatTime ex_later < formatTime ex_now"
    "\<not> formatTime ex_minute_end < formatTime ex_now"
    using d s l by (simp_all add: formatTime_iff)
  show "ex_now \<noteq> ex_later"  "ex_later \<noteq> ex_now" using l by simp_all
qed

lemmas ex_rows = ex_twice_def ex_bucket_def ex_physical_def new_database_def ex_texts Let_def edges_of_def starts_of_def
  text_in_def min_text_def max_of_def sum_of_def observed_aToB_def observed_bToA_def

lemmas ex_summary = queryTrafficSummaryLayer_def queryTrafficLayer_def edgeFilter_def bucket_points_def bucket_point_def
  point_pairs_def summary_point_def bucket_max_def oriented_point_def point_less_def point_of_def rollup_row_of_def

lemma ex_minute_rows:
  "roll_up MinuteLayer ex_now ex_minute_end ex_twice =
    Inr (saveMaintenanceCursor ''minute'' ex_minute_end (ex_twice\<lparr>db_minutes :=
      [rollup_row_of ex_now \<lparr>lt_edgeID = ''a--b'', lt_sourceID = ''a'', lt_targetID = ''b'', lt_aToBBytes = 100, lt_bToABytes = 0\<rparr>,
       rollup_row_of ex_now \<lparr>lt_edgeID = ''a--c'', lt_sourceID = ''a'', lt_targetID = ''b'', lt_aToBBytes = 60, lt_bToABytes = 0\<rparr>]\<rparr>))"
proof -
  have l: "ex_now < ex_minute_end" "ex_now + minute = ex_minute_end" by code_simp+
  have r: "logicalRawTraffic ex_now ex_minute_end ex_twice =
    [\<lparr>lt_edgeID = ''a--b'', lt_sourceID = ''a'', lt_targetID = ''b'', lt_aToBBytes = 100, lt_bToABytes = 0\<rparr>,
     \<lparr>lt_edgeID = ''a--c'', lt_sourceID = ''a'', lt_targetID = ''b'', lt_aToBBytes = 60, lt_bToABytes = 0\<rparr>]"
    by (simp add: ex_rows logicalRawTraffic_def raw_edge_traffic_def bucket_rows_def)
  have e: "roll_up MinuteLayer ex_minute_end ex_minute_end db = Inr db" for db
    by (subst roll_up.simps) simp
  have w: "db_minutes ex_twice = []" by (simp add: ex_twice_def new_database_def)
  show ?thesis
    by (subst roll_up.simps) (simp add: l r e w upsert_def rollup_key_def rollup_row_of_def Let_def)
qed

theorem rollup_shrinks_total:
  "map sp_aToBBytes (queryTrafficSummaryLayer \<lparr>ts_table = BucketTable, ts_from = ex_now, ts_to = ex_minute_end\<rparr> ex_twice) = [160] \<and>
   (\<exists>db. roll_up MinuteLayer ex_now ex_minute_end ex_twice = Inr db \<and>
     map sp_aToBBytes (queryTrafficSummaryLayer \<lparr>ts_table = MinuteTable, ts_from = ex_now, ts_to = ex_minute_end\<rparr> db) = [100])"
  unfolding ex_minute_rows by (simp add: ex_rows ex_summary saveMaintenanceCursor_def)

end
