(* ===== verification/App.thy ===== *)
theory App
  imports Store_Rollup Agg_Apply Agg_Directory
begin

text \<open>
  The server application (\<open>internal/app/app.go\<close>): the aggregator, the database and the time of the
  last checkpoint. An operation works on a clone of the aggregator, writes its effects in one
  transaction and only then replaces the aggregator; \<open>New\<close> restores the checkpoint and applies the
  reports recorded after it.

  The encoding of the aggregator's state as JSON and its decoding are the parameter \<open>codec\<close>;
  \<open>disk\<close> says whether a transaction succeeds; \<open>now\<close> is the aggregator's clock. \<open>None\<close> is a panic.
  \<open>Clone\<close> copies the state, which is a value here, and the mutex makes every operation atomic.
\<close>

record codec =
  cd_marshal :: "agg_state \<Rightarrow> json"
  cd_unmarshal :: "json \<Rightarrow> ((string, decoded_reporter) gomap \<times> agg_state) option"

record app_state =
  ap_aggregator :: agg_state
  ap_database :: database
  ap_lastCheckpoint :: time

datatype app_error =
    InvalidReport report_error | PersistFailed store_error | DecodeFailed | RestoreFailed restore_error
  | DirectoryRejected directory_error

definition checkpointEvery :: duration where
  "checkpointEvery = second"

text \<open>\<open>RestoreState\<close> of the aggregator: decoding and normalisation.\<close>

definition restore_payload :: "codec \<Rightarrow> json \<Rightarrow> app_error + agg_state" where
  "restore_payload cd payload =
     (case cd_unmarshal cd payload of
        None \<Rightarrow> Inl DecodeFailed
      | Some (decoded, s) \<Rightarrow>
          (case RestoreState decoded s of Inl e \<Rightarrow> Inl (RestoreFailed e) | Inr s' \<Rightarrow> Inr s'))"

section \<open>Starting\<close>

definition replay_step ::
  "agg_config \<Rightarrow> time \<Rightarrow> stored_report \<Rightarrow> agg_state \<times> time \<times> int \<Rightarrow> (agg_state \<times> time \<times> int) option" where
  "replay_step cfg now stored acc =
     (let (s, latest, _) = acc;
          latest' = (if sr_receivedAt stored > latest then sr_receivedAt stored else latest)
      in case ApplyAt cfg (sr_report stored) (sr_receivedAt stored) now s of
           None \<Rightarrow> None
         | Some (Inl _) \<Rightarrow> Some (s, latest', sr_rowid stored)
         | Some (Inr (_, s')) \<Rightarrow> Some (s', latest', sr_rowid stored))"

definition New ::
  "agg_config \<Rightarrow> codec \<Rightarrow> bool \<Rightarrow> bool \<Rightarrow> time \<Rightarrow> database \<Rightarrow> ((app_error + app_state) \<times> database) option" where
  "New cfg cd disk disk' now db =
     (let (payload, lastRow, updatedAt) = RestoreCheckpoint db
      in if \<not> disk then Some (Inl (PersistFailed DatabaseFailed), db)
         else case (case payload of None \<Rightarrow> Inr newRuntimeState | Some p \<Rightarrow> restore_payload cd p) of
           Inl e \<Rightarrow> Some (Inl e, db)
         | Inr s0 \<Rightarrow>
             (let reports = RestoreReportsAfter lastRow db
              in case fold_opt (replay_step cfg now) reports (s0, updatedAt, lastRow) of
                   None \<Rightarrow> None
                 | Some (s, latest, lastReportRowID) \<Rightarrow>
                     (let db1 = (if reports = [] then db
                                 else snd (SaveCheckpoint True (cd_marshal cd s) lastReportRowID latest db));
                          (saved, db2) = SaveHistoryMetadata disk' (HistoryMetadata cfg now s) latest db1
                      in case saved of
                           Inl e \<Rightarrow> Some (Inl (PersistFailed e), db2)
                         | Inr _ \<Rightarrow>
                             Some (Inr \<lparr>ap_aggregator = s, ap_database = db2,
                                        ap_lastCheckpoint = (if reports = [] then (if payload = None then 0 else updatedAt)
                                                             else latest)\<rparr>, db2))))"

section \<open>Reports\<close>

definition shouldCheckpoint :: "time \<Rightarrow> time \<Rightarrow> bool" where
  "shouldCheckpoint receivedAt lastCheckpoint \<longleftrightarrow>
     lastCheckpoint = 0 \<or> receivedAt < lastCheckpoint \<or> \<not> receivedAt < lastCheckpoint + checkpointEvery"

definition takes_checkpoint :: "apply_result \<Rightarrow> time \<Rightarrow> time \<Rightarrow> bool" where
  "takes_checkpoint r receivedAt lastCheckpoint \<longleftrightarrow>
     ar_canonicalStateChanged r \<or> ar_checkpointRequired r \<or> shouldCheckpoint receivedAt lastCheckpoint"

definition SubmitAt ::
  "agg_config \<Rightarrow> codec \<Rightarrow> bool \<Rightarrow> report_envelope \<Rightarrow> time \<Rightarrow> time \<Rightarrow> app_state \<Rightarrow>
   ((app_error + report_receipt) \<times> app_state) option" where
  "SubmitAt cfg cd disk report receivedAt now ap =
     (case ApplyAt cfg report receivedAt now (ap_aggregator ap) of
        None \<Rightarrow> None
      | Some (Inl e) \<Rightarrow> Some (Inl (InvalidReport e), ap)
      | Some (Inr (r, candidate)) \<Rightarrow>
          if \<not> ar_changed r then Some (Inr (ar_receipt r), ap)
          else
            (let checkpoint = (if takes_checkpoint r receivedAt (ap_lastCheckpoint ap)
                               then Some (cd_marshal cd candidate) else None);
                 metadata = (if checkpoint = None then None else Some (HistoryMetadata cfg now candidate));
                 (recorded, db) = RecordWithMetadata disk report receivedAt checkpoint (ar_traffic r)
                   (ar_transitions r) metadata (ap_database ap)
             in case recorded of
                  Inl e \<Rightarrow> Some (Inl (PersistFailed e), ap\<lparr>ap_database := db\<rparr>)
                | Inr inserted \<Rightarrow>
                    if \<not> inserted then Some (Inr (ar_receipt r), ap\<lparr>ap_database := db\<rparr>)
                    else Some (Inr (ar_receipt r),
                      \<lparr>ap_aggregator = candidate, ap_database = db,
                       ap_lastCheckpoint = (if checkpoint = None then ap_lastCheckpoint ap else receivedAt)\<rparr>)))"

section \<open>The directory\<close>

definition commitDirectoryCandidate ::
  "agg_config \<Rightarrow> codec \<Rightarrow> bool \<Rightarrow> agg_state \<Rightarrow> time \<Rightarrow> time \<Rightarrow> app_state \<Rightarrow> (app_error + unit) \<times> app_state" where
  "commitDirectoryCandidate cfg cd disk candidate updatedAt now ap =
     (let (saved, db) = SaveCheckpointWithMetadata disk (cd_marshal cd candidate) (HistoryMetadata cfg now candidate)
            updatedAt (ap_database ap)
      in case saved of
           Inl e \<Rightarrow> (Inl (PersistFailed e), ap\<lparr>ap_database := db\<rparr>)
         | Inr _ \<Rightarrow> (Inr (), \<lparr>ap_aggregator = candidate, ap_database = db, ap_lastCheckpoint = updatedAt\<rparr>))"

definition ApplyDirectorySnapshotAt ::
  "agg_config \<Rightarrow> codec \<Rightarrow> bool \<Rightarrow> directory_snapshot \<Rightarrow> directory_sync_state \<Rightarrow> time \<Rightarrow> time \<Rightarrow> app_state \<Rightarrow>
   ((app_error + bool \<times> int) \<times> app_state) option" where
  "ApplyDirectorySnapshotAt cfg cd disk snap sync updatedAt now ap =
     (case ApplyDirectorySnapshot cfg snap sync (ap_aggregator ap) of
        None \<Rightarrow> None
      | Some (Inl e) \<Rightarrow> Some (Inl (DirectoryRejected e), ap)
      | Some (Inr (changed, invalid, candidate)) \<Rightarrow>
          (case commitDirectoryCandidate cfg cd disk candidate updatedAt now ap of
             (Inl e, ap') \<Rightarrow> Some (Inl e, ap')
           | (Inr _, ap') \<Rightarrow> Some (Inr (changed, invalid), ap')))"

definition UpdateDirectorySyncStateAt ::
  "agg_config \<Rightarrow> codec \<Rightarrow> bool \<Rightarrow> directory_sync_state \<Rightarrow> time \<Rightarrow> time \<Rightarrow> app_state \<Rightarrow> (app_error + unit) \<times> app_state" where
  "UpdateDirectorySyncStateAt cfg cd disk sync updatedAt now ap =
     (case UpdateDirectorySyncState sync (ap_aggregator ap) of
        Inl e \<Rightarrow> (Inl (DirectoryRejected e), ap)
      | Inr candidate \<Rightarrow> commitDirectoryCandidate cfg cd disk candidate updatedAt now ap)"

definition ClearDirectoryAt ::
  "agg_config \<Rightarrow> codec \<Rightarrow> bool \<Rightarrow> time \<Rightarrow> time \<Rightarrow> app_state \<Rightarrow> (app_error + bool) \<times> app_state" where
  "ClearDirectoryAt cfg cd disk updatedAt now ap =
     (let (cleared, candidate) = ClearDirectory (ap_aggregator ap)
      in if \<not> cleared then (Inr False, ap)
         else case commitDirectoryCandidate cfg cd disk candidate updatedAt now ap of
           (Inl e, ap') \<Rightarrow> (Inl e, ap')
         | (Inr _, ap') \<Rightarrow> (Inr True, ap'))"

section \<open>Maintenance\<close>

definition MaintainApp :: "bool \<Rightarrow> time \<Rightarrow> app_state \<Rightarrow> (maintain_error + unit) \<times> app_state" where
  "MaintainApp disk now ap =
     (let (result, db) = Maintain disk now (ap_database ap) in (result, ap\<lparr>ap_database := db\<rparr>))"

end
