(* ===== verification/App_Recovery.thy ===== *)
theory App_Recovery
  imports App Agg_Examples
begin

text \<open>
  Crash recovery: what \<open>New\<close> rebuilds from the database is the aggregator the process had when it
  stopped. The reports in the database are the received ones without the text of their relay hints,
  and the aggregator gives the same result on both.
\<close>

section \<open>Relay hints\<close>

lemma relayHintPresence_Nil [simp]: "relayHintPresence v = [] \<longleftrightarrow> v = []"
  by (simp add: relayHintPresence_def)

lemma redact_session_fields [simp]:
  "rs_relay (redact_session s) = rs_relay s" "rs_sessionID (redact_session s) = rs_sessionID s"
  "rs_vni (redact_session s) = rs_vni s" "rs_sourceToTargetBytes (redact_session s) = rs_sourceToTargetBytes s"
  "rs_targetToSourceBytes (redact_session s) = rs_targetToSourceBytes s"
  "rs_sourceToTargetDelta (redact_session s) = rs_sourceToTargetDelta s"
  "rs_targetToSourceDelta (redact_session s) = rs_targetToSourceDelta s"
  "rs_sampleDurationMS (redact_session s) = rs_sampleDurationMS s" "rs_lastActive (redact_session s) = rs_lastActive s"
  "rs_source (redact_session s) = (rs_source s)\<lparr>rc_discoShort := relayHintPresence (rc_discoShort (rs_source s))\<rparr>"
  "rs_target (redact_session s) = (rs_target s)\<lparr>rc_discoShort := relayHintPresence (rc_discoShort (rs_target s))\<rparr>"
  by (simp_all add: redact_session_def)

lemma hint_update:
  "rc_sessionClientID (c\<lparr>rc_discoShort := v\<rparr>) = rc_sessionClientID c"
  "rc_identity (c\<lparr>rc_discoShort := v\<rparr>) = rc_identity c" "rc_endpoint (c\<lparr>rc_discoShort := v\<rparr>) = rc_endpoint c"
  by simp_all

lemma sessions_update:
  "re_collectedAt (r\<lparr>re_relaySessions := u\<rparr>) = re_collectedAt r"
  "re_reporterInstanceID (r\<lparr>re_relaySessions := u\<rparr>) = re_reporterInstanceID r"
  "re_kind (r\<lparr>re_relaySessions := u\<rparr>) = re_kind r"
  by simp_all

lemma sessions_update':
  "re_relaySessions (r\<lparr>re_relaySessions := u\<rparr>) = u" "re_observers (r\<lparr>re_relaySessions := u\<rparr>) = re_observers r"
  by simp_all

lemma redacted_client [simp]:
  "ClientIdentityStatus (c\<lparr>rc_discoShort := relayHintPresence (rc_discoShort c)\<rparr>) = ClientIdentityStatus c"
  "IdentityOrEmpty (c\<lparr>rc_discoShort := v\<rparr>) = IdentityOrEmpty c"
  "validateRelayClient (c\<lparr>rc_discoShort := v\<rparr>) = validateRelayClient c"
  by (simp_all add: ClientIdentityStatus_def IdentityOrEmpty_def validateRelayClient_def)

lemma resolveRelayClient_redacted [simp]:
  "resolveRelayClient cfg i (c\<lparr>rc_discoShort := relayHintPresence (rc_discoShort c)\<rparr>) t s = resolveRelayClient cfg i c t s"
  unfolding resolveRelayClient_def redacted_client hint_update by (rule refl)

lemma resolveRelaySession_redacted [simp]:
  "resolveRelaySession cfg r (redact_session ob) t s = resolveRelaySession cfg r ob t s"
  unfolding resolveRelaySession_def redact_session_fields resolveRelayClient_redacted hint_update
  by (rule refl)

lemma applyRelaySession_redacted [simp]:
  "applyRelaySession cfg ct t r a b (redact_session ob) x y n m s = applyRelaySession cfg ct t r a b ob x y n m s"
  unfolding applyRelaySession_def relay_edge_observation_def redact_session_fields hint_update
  by (rule refl)

lemma session_step_redacted [simp]:
  "session_step cfg (report\<lparr>re_relaySessions := v\<rparr>) t (redact_session ob) ctx = session_step cfg report t ob ctx"
  unfolding session_step_def redact_session_fields resolveRelaySession_redacted applyRelaySession_redacted
    sessions_update by (rule refl)

lemma validateRelaySession_redacted [simp]: "validateRelaySession (redact_session s) = validateRelaySession s"
  unfolding validateRelaySession_def redact_session_fields hint_update first_error.simps redacted_client
  by (rule refl)

lemma first_error_map: "first_error f (map g xs) = first_error (f \<circ> g) xs"
  by (induction xs) (auto split: option.splits)

lemma fold_opt_map: "fold_opt f (map g xs) s = fold_opt (f \<circ> g) xs s"
  by (induction xs arbitrary: s) (auto split: option.splits)

lemma ValidateReport_redacted [simp]:
  "ValidateReport (reportWithRedactedRelayHints r) = ValidateReport r"
  by (simp add: ValidateReport_def reportWithRedactedRelayHints_def first_error_map comp_def split: report_kind.splits)

lemma observer_step_redacted [simp]: "observer_step cfg (r\<lparr>re_relaySessions := v\<rparr>) t = observer_step cfg r t"
  unfolding observer_step_def sessions_update by (rule refl)

lemma withdraw_step_redacted [simp]: "withdraw_step cfg (r\<lparr>re_relaySessions := v\<rparr>) t = withdraw_step cfg r t"
  unfolding withdraw_step_def sessions_update by (rule refl)

lemma run_report_redacted [simp]:
  "run_report cfg (reportWithRedactedRelayHints r) t ctx = run_report cfg r t ctx"
  unfolding run_report_def reportWithRedactedRelayHints_def observer_step_redacted withdraw_step_redacted sessions_update
    sessions_update' fold_opt_map comp_def session_step_redacted
  by (rule refl)

lemma redacted_fields [simp]:
  "re_reporterInstanceID (reportWithRedactedRelayHints r) = re_reporterInstanceID r"
  "re_sequence (reportWithRedactedRelayHints r) = re_sequence r" "re_reportID (reportWithRedactedRelayHints r) = re_reportID r"
  "re_kind (reportWithRedactedRelayHints r) = re_kind r" "re_observers (reportWithRedactedRelayHints r) = re_observers r"
  by (simp_all add: reportWithRedactedRelayHints_def)

lemma close_report_redacted [simp]: "close_report (reportWithRedactedRelayHints r) = close_report r"
  unfolding close_report_def redacted_fields by (rule refl)

lemma applyLocked_redacted [simp]:
  "applyLocked cfg (reportWithRedactedRelayHints r) t s = applyLocked cfg r t s"
  unfolding applyLocked_def redacted_fields run_report_redacted close_report_redacted by (rule refl)

lemma ApplyAt_redacted: "ApplyAt cfg (reportWithRedactedRelayHints r) t now s = ApplyAt cfg r t now s"
  unfolding ApplyAt_def ValidateReport_redacted applyLocked_redacted by (rule refl)

lemma ApplyAt_clock: "t \<noteq> 0 \<Longrightarrow> ApplyAt cfg r t now s = ApplyAt cfg r t now' s"
  by (simp add: ApplyAt_def)

section \<open>What the transactions leave alone\<close>

lemma recordTraffic_reports [simp]:
  "db_reports (recordTraffic r db) = db_reports db" "db_runtimeState (recordTraffic r db) = db_runtimeState db"
  by (simp_all add: recordTraffic_def upsertHistoryEdgeMapping_def)

lemma recordPathTransition_reports [simp]:
  "db_reports (recordPathTransition r db) = db_reports db" "db_runtimeState (recordPathTransition r db) = db_runtimeState db"
  by (simp_all add: recordPathTransition_def Let_def)

lemma fold_reports:
  "(\<And>x db. db_reports (f x db) = db_reports db) \<Longrightarrow> db_reports (fold f xs db) = db_reports db"
  "(\<And>x db. db_runtimeState (f x db) = db_runtimeState db) \<Longrightarrow> db_runtimeState (fold f xs db) = db_runtimeState db"
  by (induction xs arbitrary: db) auto

lemma recordHistoryMetadata_reports [simp]:
  "db_reports (recordHistoryMetadata m t db) = db_reports db"
  "db_runtimeState (recordHistoryMetadata m t db) = db_runtimeState db"
  by (simp_all add: recordHistoryMetadata_def rebuildHistoryEdgeMap_def Let_def split: prod.splits)

lemma write_checkpoint_reports [simp]:
  "db_reports (write_checkpoint p r t db) = db_reports db"
  "db_runtimeState (write_checkpoint p r t db) = Some \<lparr>ck_payload = p, ck_lastReportRowID = r, ck_updatedAt = t\<rparr>"
  by (simp_all add: write_checkpoint_def)

section \<open>What a restart rebuilds\<close>

definition recovered :: "agg_config \<Rightarrow> codec \<Rightarrow> time \<Rightarrow> database \<Rightarrow> agg_state option" where
  "recovered cfg cd now db =
     (case New cfg cd True True now db of
        Some (Inr ap, _) \<Rightarrow> Some (ap_aggregator ap) | _ \<Rightarrow> None)"

text \<open>The same as a replay of the reports after the checkpoint.\<close>

definition last_row :: "database \<Rightarrow> int" where
  "last_row db = (case db_runtimeState db of None \<Rightarrow> 0 | Some c \<Rightarrow> ck_lastReportRowID c)"

definition checkpointed :: "codec \<Rightarrow> database \<Rightarrow> agg_state option" where
  "checkpointed cd db =
     (case db_runtimeState db of
        None \<Rightarrow> Some newRuntimeState
      | Some c \<Rightarrow> (case restore_payload cd (ck_payload c) of Inl _ \<Rightarrow> None | Inr s \<Rightarrow> Some s))"

definition replay_report :: "agg_config \<Rightarrow> time \<Rightarrow> stored_report \<Rightarrow> agg_state \<Rightarrow> agg_state option" where
  "replay_report cfg now stored s =
     (case ApplyAt cfg (sr_report stored) (sr_receivedAt stored) now s of
        None \<Rightarrow> None | Some (Inl _) \<Rightarrow> Some s | Some (Inr (_, s')) \<Rightarrow> Some s')"

lemma replay_step_state:
  "map_option fst (fold_opt (replay_step cfg now) rs (s, t, n)) = fold_opt (replay_report cfg now) rs s"
proof (induction rs arbitrary: s t n)
  case (Cons r rs)
  show ?case
    using Cons by (auto simp: replay_step_def replay_report_def Let_def split: option.splits sum.splits)
qed simp

lemma recovered_replay:
  "recovered cfg cd now db =
    (case checkpointed cd db of
       None \<Rightarrow> None
     | Some s \<Rightarrow> fold_opt (replay_report cfg now) (RestoreReportsAfter (last_row db) db) s)"
proof -
  define rs where "rs = RestoreReportsAfter (last_row db) db"
  define t where "t = (case db_runtimeState db of None \<Rightarrow> 0 | Some c \<Rightarrow> ck_updatedAt c)"
  have row: "RestoreCheckpoint db = (map_option ck_payload (db_runtimeState db), last_row db, t)"
    by (simp add: RestoreCheckpoint_def last_row_def t_def split: option.splits)
  have start: "(case map_option ck_payload (db_runtimeState db) of None \<Rightarrow> Inr newRuntimeState
      | Some p \<Rightarrow> restore_payload cd p) = x \<Longrightarrow>
      checkpointed cd db = (case x of Inl _ \<Rightarrow> None | Inr s \<Rightarrow> Some s)" for x
    by (auto simp: checkpointed_def split: option.splits)
  show ?thesis
  proof (cases "case map_option ck_payload (db_runtimeState db) of None \<Rightarrow> Inr newRuntimeState
      | Some p \<Rightarrow> restore_payload cd p")
    case (Inl e)
    then show ?thesis using start [OF Inl] by (simp add: recovered_def New_def row)
  next
    case (Inr s0)
    have c: "checkpointed cd db = Some s0" using start [OF Inr] by simp
    show ?thesis
    proof (cases "fold_opt (replay_step cfg now) rs (s0, t, last_row db)")
      case None
      then have "fold_opt (replay_report cfg now) rs s0 = None"
        using replay_step_state [of cfg now rs s0 t "last_row db"] by simp
      then show ?thesis using None Inr c by (simp add: recovered_def New_def row flip: rs_def)
    next
      case (Some z)
      obtain s u n where z: "z = (s, u, n)" by (cases z)
      have "fold_opt (replay_report cfg now) rs s0 = Some s"
        using replay_step_state [of cfg now rs s0 t "last_row db"] Some z by simp
      then show ?thesis
        using Some z Inr c by (simp add: recovered_def New_def row SaveHistoryMetadata_def Let_def flip: rs_def)
    qed
  qed
qed

section \<open>Rows\<close>

text \<open>Rowids ascend and are positive; every report has a time of receipt.\<close>

definition rows_ok :: "database \<Rightarrow> bool" where
  "rows_ok db \<longleftrightarrow> sorted_wrt (<) (map sr_rowid (db_reports db)) \<and>
     (\<forall>r \<in> set (db_reports db). 0 < sr_rowid r \<and> sr_receivedAt r \<noteq> 0)"

lemma insert_by_least: "(\<forall>y \<in> set ys. \<not> lt y x) \<Longrightarrow> insert_by lt x ys = x # ys"
  by (cases ys) auto

lemma sort_slice_sorted: "sorted_wrt (\<lambda>a b. \<not> lt b a) xs \<Longrightarrow> sort_slice lt xs = xs"
  by (induction xs) (auto simp: insert_by_least)

lemma RestoreReportsAfter_rows:
  assumes "rows_ok db"
  shows "RestoreReportsAfter n db = filter (\<lambda>r. n < sr_rowid r) (db_reports db)"
proof -
  have "sorted_wrt (\<lambda>a b. sr_rowid a < sr_rowid b) (db_reports db)"
    using assms by (simp add: rows_ok_def sorted_wrt_map)
  then have "sorted_wrt (\<lambda>a b. \<not> sr_rowid b < sr_rowid a) (db_reports db)"
    by (rule sorted_wrt_mono_rel [rotated]) simp
  then have "sorted_wrt (\<lambda>a b. \<not> sr_rowid b < sr_rowid a) (filter (\<lambda>r. n < sr_rowid r) (db_reports db))"
    by (rule sorted_wrt_filter)
  then show ?thesis unfolding RestoreReportsAfter_def by (rule sort_slice_sorted)
qed

lemma fold_max_ge: "m \<le> fold max xs (m :: int)" "x \<in> set xs \<Longrightarrow> x \<le> fold max xs m"
proof -
  have *: "m \<le> fold max xs m \<and> (\<forall>x \<in> set xs. x \<le> fold max xs m)" for m
  proof (induction xs arbitrary: m)
    case (Cons y xs)
    show ?case using Cons.IH [of "max y m"] by simp
  qed simp
  show "m \<le> fold max xs m" "x \<in> set xs \<Longrightarrow> x \<le> fold max xs m" using * by auto
qed

lemma max_rowid_ge: "r \<in> set (db_reports db) \<Longrightarrow> sr_rowid r \<le> max_rowid db" "0 \<le> max_rowid db"
  using fold_max_ge [where xs = "map sr_rowid (db_reports db)" and m = 0] by (auto simp: max_rowid_def)

lemma rows_after_max: "RestoreReportsAfter (max_rowid db) db = []"
proof -
  have "filter (\<lambda>r. max_rowid db < sr_rowid r) (db_reports db) = []"
    using max_rowid_ge(1) [of _ db] by (force simp: filter_empty_conv)
  then show ?thesis unfolding RestoreReportsAfter_def by simp
qed

text \<open>What a committed report leaves in the two tables.\<close>

lemma RecordWithMetadata_cases:
  assumes "RecordWithMetadata disk report t payload traffic transitions metadata db = (res, db')"
  obtains (unchanged) "db' = db" "res \<noteq> Inr True"
  | (recorded) "res = Inr True"
    "db_reports db' = db_reports db @
       [\<lparr>sr_rowid = max_rowid db + 1, sr_report = reportWithRedactedRelayHints report, sr_receivedAt = t\<rparr>]"
    "db_runtimeState db' = (case payload of None \<Rightarrow> db_runtimeState db
       | Some p \<Rightarrow> Some \<lparr>ck_payload = checkpointWithoutRelayDiscoHints p,
           ck_lastReportRowID = max_rowid db + 1, ck_updatedAt = t\<rparr>)"
  using assms
  by (auto simp: RecordWithMetadata_def Let_def fold_reports split: if_splits option.splits)

section \<open>The database implements the aggregator\<close>

text \<open>The codec keeps a state: what is decoded from its sanitised encoding is that state.\<close>

definition exact :: "codec \<Rightarrow> agg_state \<Rightarrow> bool" where
  "exact cd s \<longleftrightarrow> restore_payload cd (checkpointWithoutRelayDiscoHints (cd_marshal cd s)) = Inr s"

text \<open>
  \<open>since\<close> are the reports recorded after the last checkpoint: the aggregator is the checkpoint with
  all of them applied, and of them a restart reads the ones whose rowid comes after the checkpoint's.
  They were received within a second after it, because a later report takes a checkpoint itself.
\<close>

definition read_back :: "database \<Rightarrow> stored_report list \<Rightarrow> stored_report list" where
  "read_back db since = filter (\<lambda>r. last_row db < sr_rowid r) since"

definition recent :: "time \<Rightarrow> stored_report \<Rightarrow> bool" where
  "recent lastCheckpoint r \<longleftrightarrow>
     sr_receivedAt r \<noteq> 0 \<and> lastCheckpoint \<le> sr_receivedAt r \<and> sr_receivedAt r < lastCheckpoint + checkpointEvery"

definition durable :: "agg_config \<Rightarrow> codec \<Rightarrow> stored_report list \<Rightarrow> app_state \<Rightarrow> bool" where
  "durable cfg cd since ap \<longleftrightarrow> rows_ok (ap_database ap) \<and> list_all (recent (ap_lastCheckpoint ap)) since \<and>
     RestoreReportsAfter (last_row (ap_database ap)) (ap_database ap) = read_back (ap_database ap) since \<and>
     (\<exists>s0. checkpointed cd (ap_database ap) = Some s0 \<and>
       (\<forall>now. fold_opt (replay_report cfg now) since s0 = Some (ap_aggregator ap)))"

lemma durable_rows: "durable cfg cd since ap \<Longrightarrow> rows_ok (ap_database ap)"
  by (simp add: durable_def)

lemma rows_ok_append:
  assumes "rows_ok db" "t \<noteq> 0" "db_reports db' = db_reports db @ [\<lparr>sr_rowid = max_rowid db + 1, sr_report = r, sr_receivedAt = t\<rparr>]"
  shows "rows_ok db'" and "max_rowid db' = max_rowid db + 1"
proof -
  have less: "x < max_rowid db + 1" if "x \<in> set (map sr_rowid (db_reports db))" for x
    using that max_rowid_ge(1) by fastforce
  then show "rows_ok db'"
    using assms max_rowid_ge(2) [of db] by (auto simp: rows_ok_def sorted_wrt_append)
  show "max_rowid db' = max_rowid db + 1"
    using assms(3) by (simp add: max_rowid_def)
qed

lemma durable_checkpoint:
  assumes "exact cd s" "rows_ok db"
    "db_runtimeState db = Some \<lparr>ck_payload = checkpointWithoutRelayDiscoHints (cd_marshal cd s), ck_lastReportRowID = max_rowid db, ck_updatedAt = t\<rparr>"
    "ap_aggregator ap = s" "ap_database ap = db"
  shows "durable cfg cd [] ap"
proof -
  have "last_row db = max_rowid db" using assms(3) by (simp add: last_row_def)
  moreover have "checkpointed cd db = Some s" using assms(1,3) by (simp add: checkpointed_def exact_def)
  ultimately show ?thesis
    using assms(2,4,5) by (simp add: durable_def read_back_def rows_after_max)
qed

definition submit_checkpoints :: "agg_config \<Rightarrow> report_envelope \<Rightarrow> time \<Rightarrow> time \<Rightarrow> app_state \<Rightarrow> bool" where
  "submit_checkpoints cfg report t now ap \<longleftrightarrow>
     (case ApplyAt cfg report t now (ap_aggregator ap) of
        Some (Inr (r, _)) \<Rightarrow> ar_changed r \<and> takes_checkpoint r t (ap_lastCheckpoint ap)
      | _ \<Rightarrow> False)"

lemma SubmitAt_cases:
  assumes "SubmitAt cfg cd disk report t now ap = Some (res, ap')"
  obtains (same) "ap' = ap"
  | (recorded) r cand p m where "disk"
    "ApplyAt cfg report t now (ap_aggregator ap) = Some (Inr (r, cand))" "ar_changed r" "res = Inr (ar_receipt r)"
    "RecordWithMetadata disk report t p (ar_traffic r) (ar_transitions r) m (ap_database ap) = (Inr True, ap_database ap')"
    "p = (if takes_checkpoint r t (ap_lastCheckpoint ap) then Some (cd_marshal cd cand) else None)"
    "m = (if p = None then None else Some (HistoryMetadata cfg now cand))"
    "ap_aggregator ap' = cand" "ap_lastCheckpoint ap' = (if p = None then ap_lastCheckpoint ap else t)"
proof (cases "ApplyAt cfg report t now (ap_aggregator ap)")
  case None
  then show ?thesis using assms by (simp add: SubmitAt_def)
next
  case (Some x)
  show ?thesis
  proof (cases x)
    case (Inl e)
    then show ?thesis using Some assms same by (simp add: SubmitAt_def)
  next
    case (Inr y)
    obtain r cand where y: "y = (r, cand)" by (cases y)
    define p where "p = (if takes_checkpoint r t (ap_lastCheckpoint ap) then Some (cd_marshal cd cand) else None)"
    define m where "m = (if p = None then None else Some (HistoryMetadata cfg now cand))"
    obtain recres db where rec:
      "RecordWithMetadata disk report t p (ar_traffic r) (ar_transitions r) m (ap_database ap) = (recres, db)"
      by (cases "RecordWithMetadata disk report t p (ar_traffic r) (ar_transitions r) m (ap_database ap)") auto
    show ?thesis
    proof (cases "ar_changed r \<and> recres = Inr True")
      case True
      then have eq: "res = Inr (ar_receipt r)" "ap' = \<lparr>ap_aggregator = cand, ap_database = db,
          ap_lastCheckpoint = (if p = None then ap_lastCheckpoint ap else t)\<rparr>"
        using assms Some Inr y rec by (simp_all add: SubmitAt_def Let_def flip: p_def m_def)
      have "disk" using rec True by (cases disk) (simp_all add: RecordWithMetadata_def)
      with eq True show ?thesis
        using recorded [of r cand p m] Some Inr y rec by (simp add: p_def m_def)
    next
      case False
      have "db = ap_database ap" if "recres \<noteq> Inr True"
        using rec that by (cases rule: RecordWithMetadata_cases) auto
      then have "ap' = ap"
        using assms Some Inr y rec False by (auto simp: SubmitAt_def Let_def split: if_splits sum.splits simp flip: p_def m_def)
      then show ?thesis by (rule same)
    qed
  qed
qed

text \<open>What is recorded since the last checkpoint after a report, and after an operation that checkpoints.\<close>

definition since_submit ::
  "agg_config \<Rightarrow> report_envelope \<Rightarrow> time \<Rightarrow> time \<Rightarrow> app_state \<Rightarrow> app_state \<Rightarrow> stored_report list \<Rightarrow> stored_report list" where
  "since_submit cfg report t now ap ap' since =
     (if ap' = ap then since else if submit_checkpoints cfg report t now ap then []
      else since @ [List.last (db_reports (ap_database ap'))])"

definition since_commit :: "app_state \<Rightarrow> app_state \<Rightarrow> stored_report list \<Rightarrow> stored_report list" where
  "since_commit ap ap' since = (if ap' = ap then since else [])"

lemma submit_keeps_durable:
  assumes dur: "durable cfg cd since ap" and t: "t \<noteq> 0"
    and run: "SubmitAt cfg cd disk report t now ap = Some (res, ap')"
    and codec: "submit_checkpoints cfg report t now ap \<Longrightarrow> exact cd (ap_aggregator ap')"
  shows "durable cfg cd (since_submit cfg report t now ap ap' since) ap'"
proof (cases "ap' = ap")
  case True
  with dur show ?thesis by (simp add: since_submit_def)
next
  case changed: False
  from run changed obtain r cand p m where recorded:
    "ApplyAt cfg report t now (ap_aggregator ap) = Some (Inr (r, cand))" "ar_changed r"
    "RecordWithMetadata disk report t p (ar_traffic r) (ar_transitions r) m (ap_database ap) = (Inr True, ap_database ap')"
    "p = (if takes_checkpoint r t (ap_lastCheckpoint ap) then Some (cd_marshal cd cand) else None)"
    "ap_aggregator ap' = cand" "ap_lastCheckpoint ap' = (if p = None then ap_lastCheckpoint ap else t)"
    by (cases rule: SubmitAt_cases) auto
  have rows: "rows_ok (ap_database ap)" using dur by (rule durable_rows)
  have sc: "submit_checkpoints cfg report t now ap \<longleftrightarrow> p \<noteq> None"
    using recorded(1,2,4) by (simp add: submit_checkpoints_def)
  from recorded(3) show ?thesis
  proof (cases rule: RecordWithMetadata_cases)
    case rec: recorded
    note rows' = rows_ok_append [OF rows t rec(2)]
    show ?thesis
    proof (cases "p = None")
      case False
      then have st: "db_runtimeState (ap_database ap') = Some \<lparr>ck_payload = checkpointWithoutRelayDiscoHints (cd_marshal cd cand),
          ck_lastReportRowID = max_rowid (ap_database ap'), ck_updatedAt = t\<rparr>"
        using rec(3) recorded(4) rows'(2) by (simp split: if_splits)
      have "exact cd cand" using codec sc False recorded(5) by simp
      from durable_checkpoint [OF this rows'(1) st] recorded(5) show ?thesis using sc False changed by (simp add: since_submit_def)
    next
      case True
      let ?row = "\<lparr>sr_rowid = max_rowid (ap_database ap) + 1, sr_report = reportWithRedactedRelayHints report, sr_receivedAt = t\<rparr>"
      have st: "db_runtimeState (ap_database ap') = db_runtimeState (ap_database ap)" using rec(3) True by simp
      then have l: "last_row (ap_database ap') = last_row (ap_database ap)"
        "checkpointed cd (ap_database ap') = checkpointed cd (ap_database ap)" by (simp_all add: last_row_def checkpointed_def)
      have since: "since_submit cfg report t now ap ap' since = since @ [?row]"
        using changed sc True rec(2) by (simp add: since_submit_def)
      have "RestoreReportsAfter (last_row (ap_database ap')) (ap_database ap') = read_back (ap_database ap') (since @ [?row])"
        using RestoreReportsAfter_rows [OF rows] RestoreReportsAfter_rows [OF rows'(1)] rec(2) l(1) dur
        by (simp add: durable_def read_back_def)
      moreover have "recent (ap_lastCheckpoint ap) ?row"
        using recorded(4) True t by (auto simp: recent_def takes_checkpoint_def shouldCheckpoint_def split: if_splits)
      moreover have "fold_opt (replay_report cfg n) (since @ [?row]) s0 = Some cand"
        if "fold_opt (replay_report cfg n) since s0 = Some (ap_aggregator ap)" for n s0
        using that recorded(1) ApplyAt_clock [OF t, of cfg report n "ap_aggregator ap" now]
        by (simp add: fold_opt_append replay_report_def ApplyAt_redacted)
      ultimately show ?thesis
        using dur rows'(1) recorded(5,6) True unfolding since durable_def l(2) by auto
    qed
  qed simp
qed

lemma SaveCheckpointWithMetadata_cases:
  assumes "SaveCheckpointWithMetadata disk payload m t db = (res, db')"
  obtains (failed) e where "db' = db" "res = Inl e"
  | (saved) "disk" "res = Inr ()" "db_reports db' = db_reports db"
    "db_runtimeState db' = Some \<lparr>ck_payload = checkpointWithoutRelayDiscoHints payload,
       ck_lastReportRowID = max_rowid db, ck_updatedAt = t\<rparr>"
  using assms by (auto simp: SaveCheckpointWithMetadata_def split: if_splits)

lemma rows_ok_reports: "db_reports db' = db_reports db \<Longrightarrow> rows_ok db' = rows_ok db \<and> max_rowid db' = max_rowid db"
  by (simp add: rows_ok_def max_rowid_def)

lemma commit_keeps_durable:
  assumes "durable cfg cd since ap" "commitDirectoryCandidate cfg cd disk candidate t now ap = (res, ap')"
    "res = Inr () \<Longrightarrow> exact cd candidate"
  shows "durable cfg cd (since_commit ap ap' since) ap'" and "res \<noteq> Inr () \<Longrightarrow> ap' = ap"
    and "res = Inr () \<Longrightarrow> ap_aggregator ap' = candidate"
proof -
  have rows: "rows_ok (ap_database ap)" using assms(1) by (rule durable_rows)
  obtain r db where sv: "SaveCheckpointWithMetadata disk (cd_marshal cd candidate) (HistoryMetadata cfg now candidate) t
      (ap_database ap) = (r, db)"
    by (cases "SaveCheckpointWithMetadata disk (cd_marshal cd candidate) (HistoryMetadata cfg now candidate) t
      (ap_database ap)")
  from sv show "durable cfg cd (since_commit ap ap' since) ap'"
  proof (cases rule: SaveCheckpointWithMetadata_cases)
    case (failed e)
    then have "ap' = ap" using assms(2) sv by (auto simp: commitDirectoryCandidate_def)
    with assms(1) show ?thesis by (simp add: since_commit_def)
  next
    case saved
    then have ap': "res = Inr ()" "ap' = \<lparr>ap_aggregator = candidate, ap_database = db, ap_lastCheckpoint = t\<rparr>"
      using assms(2) sv by (auto simp: commitDirectoryCandidate_def)
    from rows_ok_reports [OF saved(3)] rows saved(4) have "rows_ok db"
      "db_runtimeState db = Some \<lparr>ck_payload = checkpointWithoutRelayDiscoHints (cd_marshal cd candidate),
         ck_lastReportRowID = max_rowid db, ck_updatedAt = t\<rparr>" by simp_all
    from durable_checkpoint [OF assms(3) [OF ap'(1)] this] ap'(2) assms(1) show ?thesis by (simp add: since_commit_def)
  qed
  from sv show "res \<noteq> Inr () \<Longrightarrow> ap' = ap" "res = Inr () \<Longrightarrow> ap_aggregator ap' = candidate"
    using assms(2) by (cases rule: SaveCheckpointWithMetadata_cases; auto simp: commitDirectoryCandidate_def)+
qed

section \<open>Maintenance\<close>

lemma layer_write_reports:
  "layer_write l a b r db = Inr db' \<Longrightarrow> db_reports db' = db_reports db \<and> db_runtimeState db' = db_runtimeState db"
  by (cases l) (auto simp: persistLogicalHourEdge_def split: list.splits sum.splits)

lemma write_records_reports:
  "write_records l a b rs db = Inr db' \<Longrightarrow> db_reports db' = db_reports db \<and> db_runtimeState db' = db_runtimeState db"
  by (induction rs arbitrary: db) (auto split: sum.splits dest!: layer_write_reports)

lemma roll_up_reports:
  "roll_up l a b db = Inr db' \<Longrightarrow> db_reports db' = db_reports db \<and> db_runtimeState db' = db_runtimeState db"
proof (induction l a b db rule: roll_up.induct)
  case (1 l start stop db)
  show ?case
  proof (cases "start < stop")
    case True
    with 1(2) obtain db1 where w: "write_records l start (start + layer_interval l)
        (layer_records l start (start + layer_interval l) db) db = Inr db1"
      and r: "roll_up l (start + layer_interval l) stop (saveMaintenanceCursor (layer_name l) (start + layer_interval l) db1) = Inr db'"
      by (subst (asm) roll_up.simps) (auto simp: Let_def split: sum.splits)
    from 1(1) [OF _ refl w r] True write_records_reports [OF w] show ?thesis
      by (simp add: saveMaintenanceCursor_def)
  next
    case False
    with 1(2) show ?thesis by (subst (asm) roll_up.simps) simp
  qed
qed

lemma rollupIntervals_reports:
  "rollupIntervals l t db = Inr db' \<Longrightarrow> db_reports db' = db_reports db \<and> db_runtimeState db' = db_runtimeState db"
  by (auto simp: rollupIntervals_def saveMaintenanceCursor_def Let_def dest: roll_up_reports split: option.splits if_splits)

lemma rollupHistory_reports:
  "rollupHistory now db = Inr db' \<Longrightarrow> db_reports db' = db_reports db \<and> db_runtimeState db' = db_runtimeState db"
  by (auto simp: rollupHistory_def maintainPathAnchors_def deleteCoveredTraffic_def
      split: sum.splits option.splits dest!: rollupIntervals_reports)

lemma Maintain_cases:
  assumes "Maintain disk now db = (res, db')"
  obtains (failed) "db' = db" "res \<noteq> Inr ()"
  | (maintained) "res = Inr ()" "db_reports db' = db_reports (drop_reports db)" "db_runtimeState db' = db_runtimeState db"
proof (cases "rollupHistory now (drop_reports db)")
  case (Inl e)
  then show ?thesis using assms failed by (auto simp: Maintain_def split: if_splits)
next
  case (Inr x)
  have "db_runtimeState (drop_reports db) = db_runtimeState db" by (simp add: drop_reports_def split: option.splits)
  then show ?thesis
    using assms Inr failed maintained rollupHistory_reports [OF Inr] by (auto simp: Maintain_def split: if_splits)
qed

lemma drop_reports_rows:
  assumes "rows_ok db"
  shows "rows_ok (drop_reports db)"
    "RestoreReportsAfter (last_row db) (drop_reports db) = RestoreReportsAfter (last_row db) db"
proof -
  have "db_reports (drop_reports db) = filter (\<lambda>r. last_row db < sr_rowid r) (db_reports db)"
    using assms by (auto simp: drop_reports_def last_row_def rows_ok_def not_le split: option.splits intro!: filter_True [symmetric])
  moreover from this assms show "rows_ok (drop_reports db)"
    by (auto simp: rows_ok_def sorted_wrt_map intro: sorted_wrt_filter)
  ultimately show "RestoreReportsAfter (last_row db) (drop_reports db) = RestoreReportsAfter (last_row db) db"
    using assms by (simp add: RestoreReportsAfter_rows)
qed

lemma maintain_keeps_durable:
  assumes "durable cfg cd since ap" "MaintainApp disk now ap = (res, ap')"
  shows "durable cfg cd since ap'"
proof -
  have rows: "rows_ok (ap_database ap)" using assms(1) by (rule durable_rows)
  obtain db' where m: "Maintain disk now (ap_database ap) = (res, db')" and ap': "ap' = ap\<lparr>ap_database := db'\<rparr>"
    using assms(2) by (auto simp: MaintainApp_def split: prod.splits)
  from m show ?thesis
  proof (cases rule: Maintain_cases)
    case failed
    then show ?thesis using assms(1) ap' by simp
  next
    case maintained
    have "rows_ok db'" using drop_reports_rows(1) [OF rows] rows_ok_reports [OF maintained(2)] by simp
    moreover have "last_row db' = last_row (ap_database ap)" "checkpointed cd db' = checkpointed cd (ap_database ap)"
      using maintained(3) by (simp_all add: last_row_def checkpointed_def)
    moreover have "RestoreReportsAfter k db' = RestoreReportsAfter k (drop_reports (ap_database ap))" for k
      using maintained(2) by (simp add: RestoreReportsAfter_def)
    ultimately show ?thesis using assms(1) ap' drop_reports_rows(2) [OF rows] by (simp add: durable_def read_back_def)
  qed
qed

section \<open>Restarting\<close>

lemma sorted_wrt_last: "sorted_wrt lt xs \<Longrightarrow> x \<in> set xs \<Longrightarrow> x = List.last xs \<or> lt x (List.last xs)"
  by (induction xs) auto

lemma replay_last_row:
  "fold_opt (replay_step cfg now) rs (s, t, n) = Some (s', t', n') \<Longrightarrow> n' = (if rs = [] then n else sr_rowid (List.last rs))"
proof (induction rs arbitrary: s t n)
  case (Cons r rs)
  then show ?case
    by (auto simp: replay_step_def Let_def split: option.splits sum.splits)
qed simp

lemma rows_after_last:
  assumes "rows_ok db" "RestoreReportsAfter n db \<noteq> []"
  shows "sr_rowid (List.last (RestoreReportsAfter n db)) = max_rowid db"
proof -
  let ?rs = "filter (\<lambda>r. n < sr_rowid r) (db_reports db)"
  have rs: "RestoreReportsAfter n db = ?rs" using RestoreReportsAfter_rows [OF assms(1)] .
  have ne: "?rs \<noteq> []" using assms(2) rs by simp
  have l: "List.last ?rs \<in> set (db_reports db)" using last_in_set [OF ne] by simp
  have sorted: "sorted_wrt (\<lambda>a b. sr_rowid a < sr_rowid b) ?rs"
    using assms(1) by (auto simp: rows_ok_def sorted_wrt_map intro: sorted_wrt_filter)
  have top: "sr_rowid r \<le> sr_rowid (List.last ?rs)" if "r \<in> set ?rs" for r
    using sorted_wrt_last [OF sorted that] by auto
  have all: "sr_rowid r \<le> sr_rowid (List.last ?rs)" if "r \<in> set (db_reports db)" for r
  proof (cases "n < sr_rowid r")
    case True
    then show ?thesis using that top by simp
  next
    case False
    moreover have "n < sr_rowid (List.last ?rs)" using last_in_set [OF ne] by simp
    ultimately show ?thesis by simp
  qed
  have "max_rowid db \<le> sr_rowid (List.last ?rs)"
  proof -
    have "fold max xs m \<le> k" if "\<forall>x \<in> set xs. x \<le> k" "m \<le> k" for xs and m k :: int
      using that by (induction xs arbitrary: m) auto
    then show ?thesis using all l assms(1) unfolding max_rowid_def by (auto simp: rows_ok_def less_imp_le)
  qed
  with max_rowid_ge(1) [OF l] rs show ?thesis by simp
qed

lemma new_is_durable:
  assumes rows: "rows_ok db" and new: "New cfg cd disk disk' now db = Some (Inr ap, db')"
    and codec: "RestoreReportsAfter (last_row db) db \<noteq> [] \<Longrightarrow> exact cd (ap_aggregator ap)"
  shows "durable cfg cd [] ap" and "recovered cfg cd now db = Some (ap_aggregator ap)"
proof -
  define rs where "rs = RestoreReportsAfter (last_row db) db"
  define t where "t = (case db_runtimeState db of None \<Rightarrow> 0 | Some c \<Rightarrow> ck_updatedAt c)"
  have row: "RestoreCheckpoint db = (map_option ck_payload (db_runtimeState db), last_row db, t)"
    by (simp add: RestoreCheckpoint_def last_row_def t_def split: option.splits)
  obtain s0 s u n db1 where start: "(case map_option ck_payload (db_runtimeState db) of None \<Rightarrow> Inr newRuntimeState
      | Some p \<Rightarrow> restore_payload cd p) = Inr s0"
    and replay: "fold_opt (replay_step cfg now) rs (s0, t, last_row db) = Some (s, u, n)"
    and db1: "db1 = (if rs = [] then db else snd (SaveCheckpoint True (cd_marshal cd s) n u db))"
    and meta: "SaveHistoryMetadata disk' (HistoryMetadata cfg now s) u db1 = (Inr (), db')"
    and ap: "ap_aggregator ap = s" "ap_database ap = db'"
    using new unfolding New_def row
    by (auto simp: Let_def rs_def split: if_splits sum.splits option.splits prod.splits)
  have c: "checkpointed cd db = Some s0"
    using start by (auto simp: checkpointed_def split: option.splits)
  have rec: "recovered cfg cd now db = Some s"
    using replay_step_state [of cfg now rs s0 t "last_row db"] replay c by (simp add: recovered_replay flip: rs_def)
  with ap show "recovered cfg cd now db = Some (ap_aggregator ap)" by simp
  have db': "db_reports db' = db_reports db1" "db_runtimeState db' = db_runtimeState db1"
    using meta by (auto simp: SaveHistoryMetadata_def split: if_splits)
  show "durable cfg cd [] ap"
  proof (cases "rs = []")
    case True
    then have same: "db_reports db' = db_reports db" "db_runtimeState db' = db_runtimeState db" using db' db1 by simp_all
    then have "rows_ok db'" using rows_ok_reports rows by blast
    moreover have "last_row db' = last_row db" "checkpointed cd db' = Some s0" "RestoreReportsAfter k db' = RestoreReportsAfter k db" for k
      using same c by (simp_all add: last_row_def checkpointed_def RestoreReportsAfter_def)
    ultimately show ?thesis
      using ap True replay by (simp add: durable_def read_back_def rs_def)
  next
    case False
    have n: "n = max_rowid db"
      using replay_last_row [OF replay] False rows_after_last [OF rows] by (simp add: rs_def)
    have "db_reports db' = db_reports db"
      "db_runtimeState db' = Some \<lparr>ck_payload = checkpointWithoutRelayDiscoHints (cd_marshal cd s),
         ck_lastReportRowID = max_rowid db, ck_updatedAt = u\<rparr>"
      using db' db1 False n by (simp_all add: SaveCheckpoint_def)
    moreover from this rows_ok_reports [of db' db] rows have "rows_ok db'" "max_rowid db' = max_rowid db" by auto
    ultimately show ?thesis
      using durable_checkpoint [of cd s db' u ap cfg] codec False ap by (simp add: rs_def)
  qed
qed

section \<open>Runs of the server\<close>

text \<open>
  A run starts on a new database and goes on with the operations of the server, restarts after a
  stop at any point between them included, each with a working or a failing database. The list are
  the reports recorded since the last checkpoint. One assumption is explicit: the codec keeps every
  state that is checkpointed.
\<close>

inductive app_run :: "agg_config \<Rightarrow> codec \<Rightarrow> stored_report list \<Rightarrow> app_state \<Rightarrow> bool" for cfg cd where
  start: "New cfg cd disk disk' now new_database = Some (Inr ap, db) \<Longrightarrow> app_run cfg cd [] ap"
| restart: "app_run cfg cd since ap \<Longrightarrow> New cfg cd disk disk' now (ap_database ap) = Some (Inr ap', db) \<Longrightarrow>
    exact cd (ap_aggregator ap') \<Longrightarrow> app_run cfg cd [] ap'"
| submit: "app_run cfg cd since ap \<Longrightarrow> SubmitAt cfg cd disk report t now ap = Some (res, ap') \<Longrightarrow> t \<noteq> 0 \<Longrightarrow>
    (submit_checkpoints cfg report t now ap \<Longrightarrow> exact cd (ap_aggregator ap')) \<Longrightarrow>
    app_run cfg cd (since_submit cfg report t now ap ap' since) ap'"
| directory: "app_run cfg cd since ap \<Longrightarrow>
    ApplyDirectorySnapshotAt cfg cd disk snap sync t now ap = Some (res, ap') \<Longrightarrow>
    exact cd (ap_aggregator ap') \<Longrightarrow> app_run cfg cd (since_commit ap ap' since) ap'"
| sync: "app_run cfg cd since ap \<Longrightarrow> UpdateDirectorySyncStateAt cfg cd disk sync t now ap = (res', ap') \<Longrightarrow>
    exact cd (ap_aggregator ap') \<Longrightarrow> app_run cfg cd (since_commit ap ap' since) ap'"
| clear: "app_run cfg cd since ap \<Longrightarrow> ClearDirectoryAt cfg cd disk t now ap = (res'', ap') \<Longrightarrow>
    exact cd (ap_aggregator ap') \<Longrightarrow> app_run cfg cd (since_commit ap ap' since) ap'"
| maintain: "app_run cfg cd since ap \<Longrightarrow> MaintainApp disk now ap = (done', ap') \<Longrightarrow> app_run cfg cd since ap'"

lemma commit_result:
  assumes "durable cfg cd since ap" "exact cd (ap_aggregator ap')"
    "ap' = ap \<or> (\<exists>c r. commitDirectoryCandidate cfg cd disk c t now ap = (r, ap'))"
  shows "durable cfg cd (since_commit ap ap' since) ap'"
  using assms(3)
proof (elim disjE exE)
  assume "ap' = ap"
  then show ?thesis using assms(1) by (simp add: since_commit_def)
next
  fix c r assume c: "commitDirectoryCandidate cfg cd disk c t now ap = (r, ap')"
  show ?thesis
  proof (rule commit_keeps_durable(1) [OF assms(1) c])
    assume "r = Inr ()"
    then have "ap_aggregator ap' = c"
      using c by (auto simp: commitDirectoryCandidate_def split: prod.splits sum.splits)
    with assms(2) show "exact cd c" by simp
  qed
qed

lemma app_run_durable: "app_run cfg cd since ap \<Longrightarrow> durable cfg cd since ap"
proof (induction rule: app_run.induct)
  case (start disk disk' now ap db)
  have "rows_ok new_database" "RestoreReportsAfter (last_row new_database) new_database = []"
    by (simp_all add: rows_ok_def new_database_def RestoreReportsAfter_def)
  with new_is_durable(1) [OF _ start] show ?case by simp
next
  case (restart since ap disk disk' now ap' db)
  from new_is_durable(1) [OF durable_rows [OF restart.IH] restart.hyps(2)] restart.hyps(3) show ?case by simp
next
  case (submit since ap disk report t now res ap')
  show ?case by (rule submit_keeps_durable [OF submit.IH submit.hyps(3,2,4)])
next
  case (directory since ap disk snap sync t now res ap')
  show ?case
    by (rule commit_result [OF directory.IH directory.hyps(3)])
      (use directory.hyps(2) in \<open>auto simp: ApplyDirectorySnapshotAt_def split: option.splits sum.splits prod.splits\<close>)
next
  case (sync since ap disk sync t now res' ap')
  show ?case
    by (rule commit_result [OF sync.IH sync.hyps(3)])
      (use sync.hyps(2) in \<open>auto simp: UpdateDirectorySyncStateAt_def split: sum.splits\<close>)
next
  case (clear since ap disk t now res'' ap')
  show ?case
    by (rule commit_result [OF clear.IH clear.hyps(3)])
      (use clear.hyps(2) in \<open>auto simp: ClearDirectoryAt_def split: if_splits sum.splits prod.splits\<close>)
next
  case (maintain since ap disk now done' ap')
  then show ?case by (blast intro: maintain_keeps_durable)
qed

lemma durable_recovered:
  assumes "durable cfg cd since ap"
  obtains s0 where "checkpointed cd (ap_database ap) = Some s0"
    "fold_opt (replay_report cfg now) since s0 = Some (ap_aggregator ap)"
    "recovered cfg cd now (ap_database ap) = fold_opt (replay_report cfg now) (read_back (ap_database ap) since) s0"
  using assms unfolding durable_def recovered_replay by auto

lemma read_back_all: "\<forall>r \<in> set since. last_row db < sr_rowid r \<Longrightarrow> read_back db since = since"
  by (simp add: read_back_def)

text \<open>
  When maintenance has dropped the checkpointed reports and none is left, SQLite counts the rows from 1
  again: a report that is recorded next without a checkpoint is behind the checkpoint's rowid.
\<close>

lemma lost_after_maintenance:
  assumes dur: "durable cfg cd [] ap" and empty: "db_reports (ap_database ap) = []" and cp: "0 < last_row (ap_database ap)"
    and run: "SubmitAt cfg cd True report t now ap = Some (res, ap')" and t: "t \<noteq> 0"
    and plain: "\<not> submit_checkpoints cfg report t now ap"
  shows "recovered cfg cd n (ap_database ap') = Some (ap_aggregator ap)"
proof -
  have d': "durable cfg cd (since_submit cfg report t now ap ap' []) ap'"
    by (rule submit_keeps_durable [OF dur t run]) (use plain in simp)
  have "read_back (ap_database ap') (since_submit cfg report t now ap ap' []) = [] \<and>
      checkpointed cd (ap_database ap') = checkpointed cd (ap_database ap)"
    using run
  proof (cases rule: SubmitAt_cases)
    case (recorded r cand p m)
    have p: "p = None" using plain recorded(2,3,6) by (auto simp: submit_checkpoints_def split: if_splits)
    from recorded(5) show ?thesis
    proof (cases rule: RecordWithMetadata_cases)
      case rec: recorded
      have "max_rowid (ap_database ap) = 0" using empty by (simp add: max_rowid_def)
      then show ?thesis using rec(2,3) p cp by (simp add: read_back_def since_submit_def last_row_def checkpointed_def)
    qed simp
  qed (simp add: read_back_def since_submit_def)
  then show ?thesis using dur d' unfolding durable_def recovered_replay by auto
qed

section \<open>Properties\<close>

lemma failed_commit: "commitDirectoryCandidate cfg cd disk c t now ap = (Inl e, ap') \<Longrightarrow> ap' = ap"
  by (auto simp: commitDirectoryCandidate_def SaveCheckpointWithMetadata_def split: if_splits)

lemma failed_submit: "SubmitAt cfg cd disk report t now ap = Some (Inl e, ap') \<Longrightarrow> ap' = ap"
  by (auto elim: SubmitAt_cases)

text \<open>C18: An operation of the server that fails, because the request is rejected or because the
  database fails, leaves the aggregator, the database and the time of the last checkpoint as they
  were: for submitted reports and for the three operations on the device directory.\<close>

theorem failed_operation_changes_nothing:
  assumes "SubmitAt cfg cd disk report t now ap = Some (Inl e, ap') \<or>
    ApplyDirectorySnapshotAt cfg cd disk snap sync t now ap = Some (Inl e, ap') \<or>
    UpdateDirectorySyncStateAt cfg cd disk sync t now ap = (Inl e, ap') \<or>
    ClearDirectoryAt cfg cd disk t now ap = (Inl e, ap')"
  shows "ap' = ap"
  using assms
proof (elim disjE)
  assume "SubmitAt cfg cd disk report t now ap = Some (Inl e, ap')"
  then show ?thesis by (rule failed_submit)
qed (auto simp: ApplyDirectorySnapshotAt_def UpdateDirectorySyncStateAt_def ClearDirectoryAt_def
    split: option.splits sum.splits prod.splits if_splits dest: failed_commit)

section \<open>A small server\<close>

definition ex_sync :: directory_sync_state where
  "ex_sync = \<lparr>ds_status = DirectorySyncSyncing, ds_lastAttemptAt = None, ds_lastSuccessAt = None, ds_nextRetryAt = None,
     ds_errorCode = NoDirectoryError, ds_invalidAddressCount = 0\<rparr>"

definition ex_synced :: agg_state where
  "ex_synced = newRuntimeState\<lparr>ag_directory := Some \<lparr>dy_snapshot = None, dy_sync = ex_sync, dy_canonicalIDs = [],
     dy_identityConflicts = []\<rparr>\<rparr>"

definition ex_codec :: codec where
  "ex_codec = \<lparr>cd_marshal = (\<lambda>_. JNull), cd_unmarshal = (\<lambda>_. Some ([], ex_synced))\<rparr>"

definition ex_started :: app_state where
  "ex_started = \<lparr>ap_aggregator = newRuntimeState, ap_database = new_database, ap_lastCheckpoint = 0\<rparr>"

definition ex_saved :: app_state where
  "ex_saved = snd (UpdateDirectorySyncStateAt ex_config ex_codec True ex_sync ex_time ex_time ex_started)"

lemma ex_metadata_empty:
  "ag_nodes s = [] \<Longrightarrow> ag_redirects s = [] \<Longrightarrow> recordHistoryMetadata (HistoryMetadata cfg now s) t db = db"
  by (simp add: recordHistoryMetadata_def HistoryMetadata_def mkeys_def control_nodes_def mark_control_def [abs_def])

lemma ex_started_new: "New ex_config cd True True ex_time new_database = Some (Inr ex_started, new_database)"
proof -
  have "RestoreReportsAfter 0 new_database = []" "db_runtimeState new_database = None"
    by (simp_all add: RestoreReportsAfter_def new_database_def)
  then show ?thesis
    by (simp add: New_def RestoreCheckpoint_def SaveHistoryMetadata_def ex_metadata_empty newRuntimeState_def ex_started_def)
qed

lemma ex_sync_update: "UpdateDirectorySyncState ex_sync newRuntimeState = Inr ex_synced"
proof -
  have "ValidateSyncState ex_sync = None" by code_simp
  then show ?thesis
    by (simp add: UpdateDirectorySyncState_def ex_synced_def newRuntimeState_def) (simp add: ex_sync_def)
qed

lemma ex_saved_update:
  "UpdateDirectorySyncStateAt ex_config ex_codec True ex_sync ex_time ex_time ex_started = (Inr (), ex_saved)"
  "ap_aggregator ex_saved = ex_synced"
proof -
  from ex_sync_update show "UpdateDirectorySyncStateAt ex_config ex_codec True ex_sync ex_time ex_time ex_started = (Inr (), ex_saved)"
    "ap_aggregator ex_saved = ex_synced"
    by (simp_all add: ex_saved_def UpdateDirectorySyncStateAt_def commitDirectoryCandidate_def
        SaveCheckpointWithMetadata_def ex_started_def)
qed

lemma ex_codec_exact: "exact ex_codec ex_synced"
proof -
  have "ValidateSyncState ex_sync = None" by code_simp
  then show ?thesis
    by (simp add: exact_def restore_payload_def ex_codec_def RestoreState_def normalizeState_def
        normalizeDirectoryState_def ex_synced_def newRuntimeState_def mkeys_def) (simp add: ex_sync_def)
qed

theorem failed_operation_changes_nothing_witness:
  "snd (UpdateDirectorySyncStateAt ex_config ex_codec False ex_sync 1 1 ex_started) = ex_started"
proof (rule failed_operation_changes_nothing)
  have "fst (UpdateDirectorySyncStateAt ex_config ex_codec False ex_sync 1 1 ex_started) = Inl (PersistFailed DatabaseFailed)"
    using ex_sync_update
    by (simp add: UpdateDirectorySyncStateAt_def commitDirectoryCandidate_def SaveCheckpointWithMetadata_def ex_started_def)
  then have "UpdateDirectorySyncStateAt ex_config ex_codec False ex_sync 1 1 ex_started =
      (Inl (PersistFailed DatabaseFailed), snd (UpdateDirectorySyncStateAt ex_config ex_codec False ex_sync 1 1 ex_started))"
    by (metis prod.collapse)
  then show "SubmitAt ex_config ex_codec False ex_hello 1 1 ex_started = Some (Inl (PersistFailed DatabaseFailed), x) \<or>
    ApplyDirectorySnapshotAt ex_config ex_codec False \<lparr>sn_collectedAt = 1, sn_devices = []\<rparr> ex_sync 1 1 ex_started = Some (Inl (PersistFailed DatabaseFailed), x) \<or>
    UpdateDirectorySyncStateAt ex_config ex_codec False ex_sync 1 1 ex_started =
      (Inl (PersistFailed DatabaseFailed), snd (UpdateDirectorySyncStateAt ex_config ex_codec False ex_sync 1 1 ex_started)) \<or>
    ClearDirectoryAt ex_config ex_codec False 1 1 ex_started = (Inl (PersistFailed DatabaseFailed), x)" for x
    by blast
qed



end
