(* ===== verification/Device_Sync.thy ===== *)
theory Device_Sync
  imports App_Recovery Agg_Theorems
begin

text \<open>
  Polling the control plane's devices: what the API client makes of the answers
  (\<open>internal/devicesapi/client.go\<close>) and the loop that keeps the server's directory in step with
  them (\<open>internal/devicesync/synchronizer.go\<close>), over the operations of the server (theory App).

  One round of the loop is driven by a record of what the outside world does in it: what the API
  answers, the clock, the jitter (a random factor in the code), whether the database works, and
  whether the wait at the end runs to its end.
\<close>

section \<open>The API client\<close>

record api_device =
  ad_addresses :: "string list"
  ad_name :: string
  ad_nodeID :: string
  ad_tags :: "string list"
  ad_hostname :: string
  ad_connected :: bool
  ad_lastSeen :: "time option"
  ad_nodeKey :: string
  ad_os :: string

datatype api_error_kind =
    ErrorCanceled | ErrorTimeout | ErrorUnauthorized | ErrorForbidden | ErrorRateLimited | ErrorUnavailable
  | ErrorInvalidResponse

record request_error =
  rq_statusCode :: int
  rq_kind :: api_error_kind

text \<open>
  The errors of the client library, by what \<open>errors.Is\<close> and \<open>errors.As\<close> find in them: an API error,
  or an OAuth error with a response, carries a status code.
\<close>

datatype upstream_error =
    UpstreamCanceled | UpstreamDeadline | UpstreamStatus int | UpstreamMalformed | UpstreamOther

definition kindForStatus :: "int \<Rightarrow> api_error_kind" where
  "kindForStatus statusCode =
     (if statusCode = 401 then ErrorUnauthorized
      else if statusCode = 403 then ErrorForbidden
      else if statusCode = 429 then ErrorRateLimited
      else if statusCode \<ge> 500 then ErrorUnavailable
      else ErrorInvalidResponse)"

fun sanitizeError :: "upstream_error \<Rightarrow> request_error" where
  "sanitizeError UpstreamCanceled = \<lparr>rq_statusCode = 0, rq_kind = ErrorCanceled\<rparr>"
| "sanitizeError UpstreamDeadline = \<lparr>rq_statusCode = 0, rq_kind = ErrorTimeout\<rparr>"
| "sanitizeError (UpstreamStatus code) = \<lparr>rq_statusCode = code, rq_kind = kindForStatus code\<rparr>"
| "sanitizeError UpstreamMalformed = \<lparr>rq_statusCode = 0, rq_kind = ErrorInvalidResponse\<rparr>"
| "sanitizeError UpstreamOther = \<lparr>rq_statusCode = 0, rq_kind = ErrorUnavailable\<rparr>"

text \<open>\<open>None\<close> is the nil slice. The devices of the library are copied field by field.\<close>

definition ListDevices :: "upstream_error + api_device list option \<Rightarrow> request_error + api_device list" where
  "ListDevices answer =
     (case answer of
        Inl e \<Rightarrow> Inl (sanitizeError e)
      | Inr None \<Rightarrow> Inl \<lparr>rq_statusCode = 0, rq_kind = ErrorInvalidResponse\<rparr>
      | Inr (Some devices) \<Rightarrow> Inr devices)"

section \<open>Errors and delays\<close>

datatype sync_failure = ListFailed request_error | InvalidResponseError | ApplyFailed app_error

fun classifyError :: "sync_failure \<Rightarrow> directory_error_code" where
  "classifyError (ListFailed e) =
     (case rq_kind e of
        ErrorUnauthorized \<Rightarrow> DirectoryErrorUnauthorized
      | ErrorForbidden \<Rightarrow> DirectoryErrorForbidden
      | ErrorRateLimited \<Rightarrow> DirectoryErrorRateLimited
      | ErrorTimeout \<Rightarrow> DirectoryErrorTimeout
      | ErrorInvalidResponse \<Rightarrow> DirectoryErrorInvalidResponse
      | _ \<Rightarrow> DirectoryErrorUnavailable)"
| "classifyError InvalidResponseError = DirectoryErrorInvalidResponse"
| "classifyError (ApplyFailed _) = DirectoryErrorUnavailable"

definition isCanceled :: "request_error + api_device list \<Rightarrow> bool" where
  "isCanceled listed = (case listed of Inl e \<Rightarrow> rq_kind e = ErrorCanceled | Inr _ \<Rightarrow> False)"

definition RefreshInterval :: duration where
  "RefreshInterval = 5 * minute"

definition retryBackoff :: "duration list" where
  "retryBackoff = [30 * second, minute, 2 * minute, 4 * minute, 8 * minute, 15 * minute]"

definition backoff :: "nat \<Rightarrow> duration" where
  "backoff failures = retryBackoff ! min failures (length retryBackoff - 1)"

definition retry_delay :: "(duration \<Rightarrow> duration) \<Rightarrow> nat \<Rightarrow> duration" where
  "retry_delay jitter failures =
     (let delay = jitter (backoff failures) in if delay \<le> 0 then backoff failures else delay)"

definition directory_device_of :: "api_device \<Rightarrow> directory_device" where
  "directory_device_of d =
     \<lparr>dd_stableNodeID = ad_nodeID d, dd_nodeKey = ad_nodeKey d, dd_dnsName = ad_name d, dd_hostname = ad_hostname d,
      dd_os = ad_os d, dd_tailscaleIPs = ad_addresses d, dd_tags = ad_tags d, dd_connected = ad_connected d,
      dd_lastSeen = ad_lastSeen d\<rparr>"

definition directorySnapshot :: "api_device list \<Rightarrow> time \<Rightarrow> directory_snapshot" where
  "directorySnapshot devices collectedAt =
     \<lparr>sn_collectedAt = collectedAt, sn_devices = map directory_device_of devices\<rparr>"

section \<open>The store\<close>

text \<open>The interface \<open>DirectoryStore\<close> of the synchroniser; the server implements it.\<close>

record 'st directory_store =
  st_apply :: "bool \<Rightarrow> directory_snapshot \<Rightarrow> directory_sync_state \<Rightarrow> time \<Rightarrow> time \<Rightarrow> 'st \<Rightarrow>
    ((app_error + bool \<times> int) \<times> 'st) option"
  st_update :: "bool \<Rightarrow> directory_sync_state \<Rightarrow> time \<Rightarrow> time \<Rightarrow> 'st \<Rightarrow> (app_error + unit) \<times> 'st"
  st_directory :: "time \<Rightarrow> 'st \<Rightarrow> device_directory"

definition app_store :: "agg_config \<Rightarrow> codec \<Rightarrow> app_state directory_store" where
  "app_store cfg cd =
     \<lparr>st_apply = ApplyDirectorySnapshotAt cfg cd, st_update = UpdateDirectorySyncStateAt cfg cd,
      st_directory = \<lambda>clock ap. DeviceDirectory cfg clock (ap_aggregator ap)\<rparr>"

section \<open>The loop\<close>

record sync_input =
  si_stopped :: bool
  si_listed :: "request_error + api_device list"
  si_now :: time
  si_jitter :: "duration \<Rightarrow> duration"
  si_applyDisk :: bool
  si_updateDisk :: bool
  si_clock :: time
  si_waits :: bool

record 'st sync_loop =
  sl_store :: 'st
  sl_failures :: nat

definition healthy_sync :: "time \<Rightarrow> directory_sync_state" where
  "healthy_sync attemptAt =
     \<lparr>ds_status = DirectorySyncHealthy, ds_lastAttemptAt = Some attemptAt, ds_lastSuccessAt = Some attemptAt,
      ds_nextRetryAt = None, ds_errorCode = NoDirectoryError, ds_invalidAddressCount = 0\<rparr>"

definition stale_sync :: "time \<Rightarrow> duration \<Rightarrow> sync_failure \<Rightarrow> directory_sync_state \<Rightarrow> directory_sync_state" where
  "stale_sync attemptAt delay err current =
     \<lparr>ds_status = DirectorySyncStale, ds_lastAttemptAt = Some attemptAt, ds_lastSuccessAt = ds_lastSuccessAt current,
      ds_nextRetryAt = Some (attemptAt + delay), ds_errorCode = classifyError err,
      ds_invalidAddressCount = ds_invalidAddressCount current\<rparr>"

text \<open>What the devices give: the failure, if any, and the store with the snapshot applied.\<close>

definition sync_attempt ::
  "'st directory_store \<Rightarrow> sync_input \<Rightarrow> 'st \<Rightarrow> (sync_failure option \<times> 'st) option" where
  "sync_attempt store i st =
     (case si_listed i of
        Inl e \<Rightarrow> Some (Some (ListFailed e), st)
      | Inr devices \<Rightarrow>
          (let snap = directorySnapshot devices (si_now i)
           in case NormalizeDirectorySnapshot snap of
                Inl _ \<Rightarrow> Some (Some InvalidResponseError, st)
              | Inr _ \<Rightarrow>
                  (case st_apply store (si_applyDisk i) snap (healthy_sync (si_now i)) (si_now i) (si_clock i) st of
                     None \<Rightarrow> None
                   | Some (Inl e, st') \<Rightarrow> Some (Some (ApplyFailed e), st')
                   | Some (Inr _, st') \<Rightarrow> Some (None, st'))))"

text \<open>
  One round: \<open>Inl\<close> when the loop ends before it schedules anything, else the delay it waits for and
  the next state. The result of the state update is only logged.
\<close>

definition sync_round ::
  "'st directory_store \<Rightarrow> sync_input \<Rightarrow> 'st sync_loop \<Rightarrow> ('st + duration \<times> 'st sync_loop) option" where
  "sync_round store i z =
     (if si_stopped i \<or> isCanceled (si_listed i) then Some (Inl (sl_store z))
      else case sync_attempt store i (sl_store z) of
        None \<Rightarrow> None
      | Some (None, st) \<Rightarrow> Some (Inr (RefreshInterval, \<lparr>sl_store = st, sl_failures = 0\<rparr>))
      | Some (Some err, st) \<Rightarrow>
          (let delay = retry_delay (si_jitter i) (sl_failures z);
               current = dv_sync (st_directory store (si_clock i) st);
               (_, st') = st_update store (si_updateDisk i) (stale_sync (si_now i) delay err current) (si_now i)
                 (si_clock i) st
           in Some (Inr (delay, \<lparr>sl_store = st', sl_failures = sl_failures z + 1\<rparr>))))"

text \<open>\<open>Run\<close>: the delays the loop waited for, in order, and the store at its end.\<close>

fun sync_rounds ::
  "'st directory_store \<Rightarrow> sync_input list \<Rightarrow> 'st sync_loop \<Rightarrow> (duration list \<times> 'st) option" where
  "sync_rounds store [] z = Some ([], sl_store z)"
| "sync_rounds store (i # rest) z =
     (case sync_round store i z of
        None \<Rightarrow> None
      | Some (Inl st) \<Rightarrow> Some ([], st)
      | Some (Inr (delay, z')) \<Rightarrow>
          if \<not> si_waits i then Some ([delay], sl_store z')
          else map_option (\<lambda>(delays, st). (delay # delays, st)) (sync_rounds store rest z'))"

definition start_sync :: "'st directory_store \<Rightarrow> bool \<Rightarrow> time \<Rightarrow> time \<Rightarrow> 'st \<Rightarrow> 'st" where
  "start_sync store disk now clock st =
     (if ds_status (dv_sync (st_directory store clock st)) = DirectorySyncDisabled
      then snd (st_update store disk (disabled_sync\<lparr>ds_status := DirectorySyncSyncing\<rparr>) now clock st)
      else st)"

definition RunSynchronizer ::
  "'st directory_store \<Rightarrow> bool \<Rightarrow> time \<Rightarrow> time \<Rightarrow> sync_input list \<Rightarrow> 'st \<Rightarrow> (duration list \<times> 'st) option" where
  "RunSynchronizer store disk now clock inputs st =
     sync_rounds store inputs \<lparr>sl_store = start_sync store disk now clock st, sl_failures = 0\<rparr>"

text \<open>A listing that the directory takes: the API answered, the devices are valid, the database works.\<close>

definition listing_taken :: "sync_input \<Rightarrow> bool" where
  "listing_taken i \<longleftrightarrow> si_applyDisk i \<and>
     (case si_listed i of
        Inl _ \<Rightarrow> False
      | Inr devices \<Rightarrow>
          (case NormalizeDirectorySnapshot (directorySnapshot devices (si_now i)) of Inl _ \<Rightarrow> False | Inr _ \<Rightarrow> True))"

text \<open>The delays of the rounds, from \<open>n\<close> failures in a row on.\<close>

fun delays_fit :: "nat \<Rightarrow> sync_input list \<Rightarrow> duration list \<Rightarrow> bool" where
  "delays_fit n [] delays \<longleftrightarrow> delays = []"
| "delays_fit n (i # inputs) delays \<longleftrightarrow>
     (case delays of
        [] \<Rightarrow> False
      | d # rest \<Rightarrow>
          if listing_taken i then d = RefreshInterval \<and> delays_fit 0 inputs rest
          else d = retry_delay (si_jitter i) n \<and> delays_fit (Suc n) inputs rest)"

lemma normalized_time:
  "NormalizeDirectorySnapshot (directorySnapshot devices t) = Inr r \<Longrightarrow> t \<noteq> 0"
  by (auto simp: NormalizeDirectorySnapshot_def directorySnapshot_def split: if_splits)

section \<open>What the store promises\<close>

text \<open>
  Applying a snapshot returns, and either leaves the store as it was or the directory healthy with
  the attempt's time and the devices of the snapshot; an update of the state changes nothing else
  and is accepted when the state is valid and the database works.
\<close>

locale directory_store_laws =
  fixes store :: "'st directory_store" and ok :: "'st \<Rightarrow> bool" and sync_of :: "'st \<Rightarrow> directory_sync_state"
    and snapshot_of :: "'st \<Rightarrow> directory_snapshot option"
  assumes directory_sync: "dv_sync (st_directory store clock st) = sync_of st"
    and apply_returns: "ok st \<Longrightarrow> NormalizeDirectorySnapshot snap = Inr (normalized, n) \<Longrightarrow>
      \<exists>res st'. st_apply store disk snap (healthy_sync t) u clock st = Some (res, st') \<and> ok st' \<and>
        (case res of Inl e \<Rightarrow> st' = st
         | Inr _ \<Rightarrow> sync_of st' = (healthy_sync t)\<lparr>ds_invalidAddressCount := n\<rparr> \<and> snapshot_of st' = Some normalized)"
    and apply_accepts: "\<lbrakk>ok st; disk; t \<noteq> 0; NormalizeDirectorySnapshot snap = Inr (normalized, n)\<rbrakk> \<Longrightarrow>
      \<exists>changed st'. st_apply store disk snap (healthy_sync t) u clock st = Some (Inr (changed, n), st')"
    and apply_fails: "\<lbrakk>ok st; \<not> disk; NormalizeDirectorySnapshot snap = Inr (normalized, n)\<rbrakk> \<Longrightarrow>
      \<exists>e st'. st_apply store disk snap (healthy_sync t) u clock st = Some (Inl e, st')"
    and update_keeps: "ok st \<Longrightarrow> ok (snd (st_update store disk sync t clock st)) \<and>
      snapshot_of (snd (st_update store disk sync t clock st)) = snapshot_of st"
    and update_result: "ds_status sync \<noteq> DirectorySyncHealthy \<Longrightarrow>
      sync_of (snd (st_update store disk sync t clock st)) =
        (if disk \<and> ValidateSyncState sync = None then sync else sync_of st)"
begin

lemma attempt_returns:
  assumes "ok st"
  shows "\<exists>err st'. sync_attempt store i st = Some (err, st') \<and> ok st' \<and>
    (case err of
       Some _ \<Rightarrow> st' = st
     | None \<Rightarrow> \<exists>devices normalized n. si_listed i = Inr devices \<and>
         NormalizeDirectorySnapshot (directorySnapshot devices (si_now i)) = Inr (normalized, n) \<and>
         sync_of st' = (healthy_sync (si_now i))\<lparr>ds_invalidAddressCount := n\<rparr> \<and> snapshot_of st' = Some normalized)"
proof (cases "si_listed i")
  case (Inl e)
  then show ?thesis using assms by (simp add: sync_attempt_def)
next
  case (Inr devices)
  let ?snap = "directorySnapshot devices (si_now i)"
  show ?thesis
  proof (cases "NormalizeDirectorySnapshot ?snap")
    case (Inl e)
    then show ?thesis using assms Inr by (simp add: sync_attempt_def Let_def)
  next
    case norm: (Inr p)
    obtain normalized n where p: "NormalizeDirectorySnapshot ?snap = Inr (normalized, n)" using norm by (cases p) auto
    obtain res st' where r: "st_apply store (si_applyDisk i) ?snap (healthy_sync (si_now i)) (si_now i) (si_clock i) st = Some (res, st')"
      "ok st'" "case res of Inl e \<Rightarrow> st' = st
         | Inr _ \<Rightarrow> sync_of st' = (healthy_sync (si_now i))\<lparr>ds_invalidAddressCount := n\<rparr> \<and> snapshot_of st' = Some normalized"
      using apply_returns [OF assms p] by blast
    then show ?thesis using Inr p by (cases res) (auto simp: sync_attempt_def Let_def)
  qed
qed

lemma attempt_taken:
  assumes "ok st"
  shows "\<exists>err st'. sync_attempt store i st = Some (err, st') \<and> ok st' \<and> (err = None \<longleftrightarrow> listing_taken i)"
proof -
  obtain err st' where a: "sync_attempt store i st = Some (err, st')" "ok st'" using attempt_returns [OF assms] by blast
  have "err = None \<longleftrightarrow> listing_taken i"
  proof (cases "si_listed i")
    case (Inl e)
    then show ?thesis using a(1) by (auto simp: sync_attempt_def listing_taken_def)
  next
    case (Inr devices)
    show ?thesis
    proof (cases "NormalizeDirectorySnapshot (directorySnapshot devices (si_now i))")
      case (Inl e)
      then show ?thesis using Inr a(1) by (auto simp: sync_attempt_def listing_taken_def Let_def)
    next
      case norm: (Inr p)
      obtain normalized n where p: "NormalizeDirectorySnapshot (directorySnapshot devices (si_now i)) = Inr (normalized, n)"
        using norm by (cases p) auto
      show ?thesis
        using a(1) Inr p apply_accepts [OF assms _ normalized_time [OF p] p, of "si_applyDisk i" "si_now i" "si_clock i"]
          apply_fails [OF assms _ p, of "si_applyDisk i" "si_now i" "si_now i" "si_clock i"]
        by (cases "si_applyDisk i") (auto simp: sync_attempt_def listing_taken_def)
    qed
  qed
  with a show ?thesis by blast
qed

lemma round_returns:
  assumes "ok (sl_store z)" "\<not> si_stopped i" "\<not> isCanceled (si_listed i)"
  shows "\<exists>delay z'. sync_round store i z = Some (Inr (delay, z')) \<and> ok (sl_store z') \<and>
    (if listing_taken i then delay = RefreshInterval \<and> sl_failures z' = 0
     else delay = retry_delay (si_jitter i) (sl_failures z) \<and> sl_failures z' = Suc (sl_failures z))"
proof -
  obtain err st' where a: "sync_attempt store i (sl_store z) = Some (err, st')" "ok st'" "err = None \<longleftrightarrow> listing_taken i"
    using attempt_taken [OF assms(1)] by blast
  then show ?thesis
    using assms(2,3) update_keeps [OF a(2)] by (cases err) (auto simp: sync_round_def Let_def split_beta)
qed

lemma rounds_return:
  assumes "ok (sl_store z)"
    and "\<forall>i \<in> set inputs. \<not> si_stopped i \<and> \<not> isCanceled (si_listed i) \<and> si_waits i"
  shows "\<exists>delays st. sync_rounds store inputs z = Some (delays, st) \<and> ok st \<and> delays_fit (sl_failures z) inputs delays"
  using assms
proof (induction inputs arbitrary: z)
  case (Cons i inputs)
  obtain delay z' where r: "sync_round store i z = Some (Inr (delay, z'))" "ok (sl_store z')"
    "if listing_taken i then delay = RefreshInterval \<and> sl_failures z' = 0
     else delay = retry_delay (si_jitter i) (sl_failures z) \<and> sl_failures z' = Suc (sl_failures z)"
    using round_returns [OF Cons.prems(1), of i] Cons.prems(2) by auto
  have "\<exists>delays st. sync_rounds store inputs z' = Some (delays, st) \<and> ok st \<and> delays_fit (sl_failures z') inputs delays"
    by (rule Cons.IH [OF r(2)]) (use Cons.prems in auto)
  then show ?case using r Cons.prems by (auto split: if_splits)
qed simp

lemma start_ok: "ok st \<Longrightarrow> ok (start_sync store disk now clock st)"
  using update_keeps by (simp add: start_sync_def)

lemma failure_recorded:
  assumes "ok st" "\<not> si_stopped i" "\<not> isCanceled (si_listed i)" "sync_attempt store i st = Some (Some err, st1)"
    and "si_updateDisk i"
    and "ValidateSyncState (stale_sync (si_now i) (retry_delay (si_jitter i) n) err (sync_of st)) = None"
  shows "\<exists>st'. sync_round store i \<lparr>sl_store = st, sl_failures = n\<rparr> =
      Some (Inr (retry_delay (si_jitter i) n, \<lparr>sl_store = st', sl_failures = n + 1\<rparr>)) \<and>
    sync_of st' = stale_sync (si_now i) (retry_delay (si_jitter i) n) err (sync_of st) \<and> snapshot_of st' = snapshot_of st"
proof -
  have st1: "st1 = st" using attempt_returns [OF assms(1), of i] assms(4) by auto
  let ?stale = "stale_sync (si_now i) (retry_delay (si_jitter i) n) err (sync_of st)"
  have "ds_status ?stale \<noteq> DirectorySyncHealthy" by (simp add: stale_sync_def)
  then show ?thesis
    using assms update_result [of ?stale "si_updateDisk i" "si_now i" "si_clock i" st]
      update_keeps [OF assms(1), of "si_updateDisk i" ?stale "si_now i" "si_clock i"]
    by (simp add: sync_round_def Let_def split_beta directory_sync st1)
qed

end

section \<open>The server is such a store\<close>

definition app_ok :: "agg_config \<Rightarrow> app_state \<Rightarrow> bool" where
  "app_ok cfg ap \<longleftrightarrow> good_source cfg \<and> agg_inv cfg (ap_aggregator ap)"

definition app_sync :: "app_state \<Rightarrow> directory_sync_state" where
  "app_sync ap = (case ag_directory (ap_aggregator ap) of None \<Rightarrow> disabled_sync | Some d \<Rightarrow> dy_sync d)"

definition app_snapshot :: "app_state \<Rightarrow> directory_snapshot option" where
  "app_snapshot ap = Option.bind (ag_directory (ap_aggregator ap)) dy_snapshot"

lemma commit_cases:
  obtains (failed) e where "commitDirectoryCandidate cfg cd disk c t now ap = (Inl e, ap)" "\<not> disk"
  | (saved) ap' where "commitDirectoryCandidate cfg cd disk c t now ap = (Inr (), ap')" "ap_aggregator ap' = c" "disk"
  by (cases disk) (auto simp: commitDirectoryCandidate_def SaveCheckpointWithMetadata_def)

lemma applied_directory:
  assumes "ApplyDirectorySnapshot cfg snap sync s = Some (Inr (changed, n, s'))"
    and "NormalizeDirectorySnapshot snap = Inr (normalized, m)"
  shows "n = m \<and> (\<exists>d. ag_directory s' = Some d \<and> dy_snapshot d = Some normalized \<and>
    dy_sync d = sync\<lparr>ds_invalidAddressCount := m\<rparr>)"
  using assms
  by (auto simp: ApplyDirectorySnapshot_def applyDirectorySnapshotLocked_def Let_def Option.bind_eq_Some_conv
      split: option.splits if_splits)

lemma apply_total:
  assumes "app_ok cfg ap"
  shows "\<exists>r. ApplyDirectorySnapshot cfg snap sync (ap_aggregator ap) = Some r \<and>
    (\<forall>changed n s'. r = Inr (changed, n, s') \<longrightarrow> agg_inv cfg s')"
  using ApplyDirectorySnapshot_total [of cfg "ap_aggregator ap" snap sync] assms by (auto simp: app_ok_def)

lemma invalid_count_nonneg:
  assumes "NormalizeDirectorySnapshot snap = Inr (normalized, n)"
  shows "0 \<le> n"
proof -
  obtain ds where "normalize_devices {} (sn_devices snap) = Inr (ds, n)"
    using assms by (auto simp: NormalizeDirectorySnapshot_def split: if_splits sum.splits)
  then have "n = (\<Sum>d \<leftarrow> sn_devices snap. snd (normalizeDirectoryDevice d))"
    using normalize_devices_ok by blast
  moreover have "0 \<le> snd (normalizeDirectoryDevice d)" for d
    by (simp add: normalizeDirectoryDevice_def normalizedAddresses_def Let_def split_beta)
  ultimately show ?thesis by (auto intro!: sum_list_nonneg)
qed

lemma healthy_valid: "t \<noteq> 0 \<Longrightarrow> 0 \<le> n \<Longrightarrow> ValidateSyncState ((healthy_sync t)\<lparr>ds_invalidAddressCount := n\<rparr>) = None"
  by (simp add: ValidateSyncState_def healthy_sync_def Let_def)

interpretation app: directory_store_laws "app_store cfg cd" "app_ok cfg" app_sync app_snapshot for cfg cd
proof
  fix clock t u disk snap normalized n sync and ap :: app_state
  show "dv_sync (st_directory (app_store cfg cd) clock ap) = app_sync ap"
    by (simp add: app_store_def DeviceDirectory_def app_sync_def split: option.splits)
  show "\<exists>res ap'. st_apply (app_store cfg cd) disk snap (healthy_sync t) u clock ap = Some (res, ap') \<and> app_ok cfg ap' \<and>
      (case res of Inl e \<Rightarrow> ap' = ap
       | Inr _ \<Rightarrow> app_sync ap' = (healthy_sync t)\<lparr>ds_invalidAddressCount := n\<rparr> \<and> app_snapshot ap' = Some normalized)"
    if "app_ok cfg ap" "NormalizeDirectorySnapshot snap = Inr (normalized, n)"
  proof -
    note ok = that(1)
    obtain r where r: "ApplyDirectorySnapshot cfg snap (healthy_sync t) (ap_aggregator ap) = Some r"
      "\<forall>changed m s'. r = Inr (changed, m, s') \<longrightarrow> agg_inv cfg s'"
      using apply_total [OF ok] by blast
    show ?thesis
    proof (cases r)
      case (Inl e)
      then show ?thesis using r that by (simp add: app_store_def ApplyDirectorySnapshotAt_def)
    next
      case (Inr p)
      obtain changed m s' where p: "p = (changed, m, s')" by (cases p)
      have d: "m = n" "\<exists>d. ag_directory s' = Some d \<and> dy_snapshot d = Some normalized \<and>
          dy_sync d = (healthy_sync t)\<lparr>ds_invalidAddressCount := n\<rparr>"
        using applied_directory [OF r(1) [unfolded Inr p] that(2)] by blast+
      show ?thesis
        by (rule commit_cases [of cfg cd disk s' u clock ap])
          (use r(1,2) Inr p d that(1) in \<open>auto simp: app_store_def ApplyDirectorySnapshotAt_def app_ok_def app_sync_def app_snapshot_def\<close>)
    qed
  qed
  show "\<exists>changed ap'. st_apply (app_store cfg cd) disk snap (healthy_sync t) u clock ap = Some (Inr (changed, n), ap')"
    if "app_ok cfg ap" "disk" "t \<noteq> 0" "NormalizeDirectorySnapshot snap = Inr (normalized, n)"
  proof -
    note ok = that(1) and norm = that(4)
    obtain r where r: "ApplyDirectorySnapshot cfg snap (healthy_sync t) (ap_aggregator ap) = Some r"
      using apply_total [OF ok] by blast
    have v: "ValidateSyncState ((healthy_sync t)\<lparr>ds_invalidAddressCount := n\<rparr>) = None"
      using healthy_valid invalid_count_nonneg that(3,4) by blast
    obtain changed s' where s': "r = Inr (changed, n, s')"
      using r norm v by (auto simp: ApplyDirectorySnapshot_def Let_def healthy_sync_def)
    show ?thesis
      by (rule commit_cases [of cfg cd disk s' u clock ap])
        (use r s' that(2) in \<open>auto simp: app_store_def ApplyDirectorySnapshotAt_def\<close>)
  qed
  show "\<exists>e ap'. st_apply (app_store cfg cd) disk snap (healthy_sync t) u clock ap = Some (Inl e, ap')"
    if "app_ok cfg ap" "\<not> disk" "NormalizeDirectorySnapshot snap = Inr (normalized, n)"
  proof -
    note ok = that(1) and broken = that(2)
    obtain r where r: "ApplyDirectorySnapshot cfg snap (healthy_sync t) (ap_aggregator ap) = Some r"
      using apply_total [OF ok] by blast
    show ?thesis
    proof (cases r)
      case (Inl e)
      then show ?thesis using r by (simp add: app_store_def ApplyDirectorySnapshotAt_def)
    next
      case (Inr p)
      obtain changed m s' where p: "p = (changed, m, s')" by (cases p)
      show ?thesis
        by (rule commit_cases [of cfg cd disk s' u clock ap])
          (use r Inr p broken in \<open>auto simp: app_store_def ApplyDirectorySnapshotAt_def\<close>)
    qed
  qed
  show "app_ok cfg (snd (st_update (app_store cfg cd) disk sync t clock ap)) \<and>
      app_snapshot (snd (st_update (app_store cfg cd) disk sync t clock ap)) = app_snapshot ap"
    if "app_ok cfg ap"
  proof (cases "UpdateDirectorySyncState sync (ap_aggregator ap)")
    case (Inl e)
    then show ?thesis using that by (simp add: app_store_def UpdateDirectorySyncStateAt_def)
  next
    case (Inr s')
    have kept: "agg_inv cfg s'" "Option.bind (ag_directory s') dy_snapshot = Option.bind (ag_directory (ap_aggregator ap)) dy_snapshot"
      using Inr that by (auto simp: UpdateDirectorySyncState_def app_ok_def directory_field_inv split: option.splits if_splits)
    show ?thesis
      by (rule commit_cases [of cfg cd disk s' t clock ap])
        (use Inr that kept in \<open>auto simp: app_store_def UpdateDirectorySyncStateAt_def app_ok_def app_snapshot_def\<close>)
  qed
  show "app_sync (snd (st_update (app_store cfg cd) disk sync t clock ap)) =
      (if disk \<and> ValidateSyncState sync = None then sync else app_sync ap)"
    if "ds_status sync \<noteq> DirectorySyncHealthy"
  proof (cases "ValidateSyncState sync")
    case (Some e)
    then show ?thesis by (simp add: app_store_def UpdateDirectorySyncStateAt_def UpdateDirectorySyncState_def)
  next
    case None
    note unhealthy = that
    obtain s' where s': "UpdateDirectorySyncState sync (ap_aggregator ap) = Inr s'"
      "\<exists>d. ag_directory s' = Some d \<and> dy_sync d = sync"
      using None unhealthy by (auto simp: UpdateDirectorySyncState_def split: option.splits)
    show ?thesis
      by (rule commit_cases [of cfg cd disk s' t clock ap])
        (use s' None in \<open>auto simp: app_store_def UpdateDirectorySyncStateAt_def app_sync_def\<close>)
  qed
qed

section \<open>Properties\<close>

lemma backoff_cases: "backoff n \<in> set retryBackoff"
  by (auto simp: backoff_def intro!: nth_mem) (simp add: retryBackoff_def)

lemma retry_delay_pos: "0 < retry_delay jitter n"
  using backoff_cases [of n] by (auto simp: retry_delay_def Let_def retryBackoff_def second_def minute_def)

definition near :: "(duration \<Rightarrow> duration) \<Rightarrow> bool" where
  "near jitter \<longleftrightarrow> (\<forall>d \<in> set retryBackoff. 4 * d \<le> 5 * jitter d \<and> 5 * jitter d \<le> 6 * d)"

text \<open>The table doubles from half a minute up to a quarter of an hour.\<close>

lemma backoff_doubles: "backoff n = min (30 * second * 2 ^ n) (15 * minute)"
proof (cases "n < 5")
  case True
  then have "n \<in> {0, 1, 2, 3, 4}" by auto
  then show ?thesis by (auto simp: backoff_def retryBackoff_def second_def minute_def)
next
  case False
  then have "(2 :: int) ^ 5 \<le> 2 ^ n" by (intro power_increasing) simp_all
  then have "15 * minute \<le> 30 * second * 2 ^ n" by (simp add: second_def minute_def)
  then show ?thesis using False by (simp add: backoff_def retryBackoff_def min_def)
qed

lemma retry_delay_near:
  assumes "near jitter"
  shows "4 * backoff n \<le> 5 * retry_delay jitter n" "5 * retry_delay jitter n \<le> 6 * backoff n"
proof -
  have "0 < backoff n" using backoff_cases [of n] by (auto simp: retryBackoff_def second_def minute_def)
  moreover have "4 * backoff n \<le> 5 * jitter (backoff n)" "5 * jitter (backoff n) \<le> 6 * backoff n"
    using assms backoff_cases [of n] by (auto simp: near_def)
  ultimately show "4 * backoff n \<le> 5 * retry_delay jitter n" "5 * retry_delay jitter n \<le> 6 * backoff n"
    by (auto simp: retry_delay_def Let_def)
qed

text \<open>How many of the last rounds before round \<open>k\<close> failed in a row.\<close>

definition failed_in_a_row :: "sync_input list \<Rightarrow> nat \<Rightarrow> nat" where
  "failed_in_a_row inputs k = length (takeWhile (\<lambda>i. \<not> listing_taken i) (rev (take k inputs)))"

lemma delays_fit_nth:
  assumes "delays_fit n inputs delays"
  shows "length delays = length inputs \<and> (\<forall>k < length inputs.
    delays ! k = (if listing_taken (inputs ! k) then RefreshInterval
      else retry_delay (si_jitter (inputs ! k)) (foldl (\<lambda>c i. if listing_taken i then 0 else Suc c) n (take k inputs))))"
  using assms
proof (induction inputs arbitrary: n delays)
  case (Cons i inputs)
  from Cons.prems obtain d rest where d: "delays = d # rest"
    "if listing_taken i then d = RefreshInterval \<and> delays_fit 0 inputs rest
     else d = retry_delay (si_jitter i) n \<and> delays_fit (Suc n) inputs rest" by (auto split: list.splits)
  from d(2) Cons.IH [of 0 rest] Cons.IH [of "Suc n" rest] show ?case
    by (auto simp: d(1) nth_Cons split: nat.splits if_splits)
qed simp

lemma stale_valid:
  assumes "valid_sync_state current" "0 < t" "0 < delay" "\<forall>u. ds_lastSuccessAt current = Some u \<longrightarrow> u \<le> t"
  shows "ValidateSyncState (stale_sync t delay err current) = None"
proof -
  have "validDirectoryErrorCode (classifyError err)" by (cases err rule: classifyError.cases) (auto split: api_error_kind.splits)
  then show ?thesis
    using assms unfolding ValidateSyncState_accepts_valid by (auto simp: valid_sync_state_def stale_sync_def)
qed

lemma attempt_succeeds:
  assumes "app_ok cfg ap" "si_listed i = Inr devices" "si_applyDisk i"
    and "NormalizeDirectorySnapshot (directorySnapshot devices (si_now i)) = Inr (normalized, n)"
  shows "\<exists>ap'. sync_attempt (app_store cfg cd) i ap = Some (None, ap')"
proof -
  have t: "si_now i \<noteq> 0"
    using assms(4) by (rule normalized_time)
  obtain changed ap' where "st_apply (app_store cfg cd) (si_applyDisk i) (directorySnapshot devices (si_now i))
      (healthy_sync (si_now i)) (si_now i) (si_clock i) ap = Some (Inr (changed, n), ap')"
    using app.apply_accepts [OF assms(1,3) t assms(4)] by blast
  then show ?thesis using assms(2,4) by (simp add: sync_attempt_def Let_def)
qed

text \<open>C24: The synchroniser never gives up, and backs off. However the API answers and whether or not the
  database works, as long as it is not cancelled it makes one attempt per round and never crashes. After
  a listing that the directory takes it waits five minutes; after any other attempt the wait starts at 30
  seconds and doubles with every failure in a row, up to 15 minutes, times a jitter between 0.8 and 1.2; a
  success starts the doubling afresh.\<close>

theorem synchronizer_keeps_polling:
  assumes "good_source cfg" "agg_inv cfg (ap_aggregator ap)"
    and "\<forall>i \<in> set inputs. \<not> si_stopped i \<and> \<not> isCanceled (si_listed i) \<and> si_waits i \<and> near (si_jitter i)"
  shows "\<exists>delays ap'. RunSynchronizer (app_store cfg cd) disk now clock inputs ap = Some (delays, ap') \<and>
    length delays = length inputs \<and> agg_inv cfg (ap_aggregator ap') \<and>
    (\<forall>k < length inputs.
       if listing_taken (inputs ! k) then delays ! k = 5 * minute
       else let base = min (30 * second * 2 ^ failed_in_a_row inputs k) (15 * minute)
            in 4 * base \<le> 5 * delays ! k \<and> 5 * delays ! k \<le> 6 * base)"
proof -
  have ok: "app_ok cfg ap" using assms(1,2) by (simp add: app_ok_def)
  have "\<exists>delays ap'. sync_rounds (app_store cfg cd) inputs
      \<lparr>sl_store = start_sync (app_store cfg cd) disk now clock ap, sl_failures = 0\<rparr> = Some (delays, ap') \<and> app_ok cfg ap' \<and>
      delays_fit 0 inputs delays"
    using app.rounds_return [of cfg "\<lparr>sl_store = start_sync (app_store cfg cd) disk now clock ap, sl_failures = 0\<rparr>" inputs cd]
      app.start_ok [OF ok] assms(3) by auto
  then obtain delays ap' where r: "RunSynchronizer (app_store cfg cd) disk now clock inputs ap = Some (delays, ap')"
    "app_ok cfg ap'" "delays_fit 0 inputs delays" by (auto simp: RunSynchronizer_def)
  have "near (si_jitter (inputs ! k))" if "k < length inputs" for k using assms(3) that by simp
  with delays_fit_nth [OF r(3)] have "\<forall>k < length inputs.
       if listing_taken (inputs ! k) then delays ! k = 5 * minute
       else let base = min (30 * second * 2 ^ failed_in_a_row inputs k) (15 * minute)
            in 4 * base \<le> 5 * delays ! k \<and> 5 * delays ! k \<le> 6 * base"
    by (auto simp: foldl_since failed_in_a_row_def [symmetric] Let_def RefreshInterval_def retry_delay_near simp flip: backoff_doubles)
  with r delays_fit_nth [OF r(3)] show ?thesis by (auto simp: app_ok_def)
qed

text \<open>C25: What a round leaves in the directory. A listing the directory accepts, with a database
  that works, makes it healthy as of the attempt and shows exactly the listed devices, normalised,
  and resets the failures. A failed attempt keeps the devices of the last success and, when the database
  takes the record of the failure and the synchronisation state before was a valid one, records the
  failure: stale, the error's code, the attempt, the last success and the time of the next attempt,
  which is the delay the loop then waits. (The failure is recorded unless the last success lies
  after the attempt, as it does when the clock was set back.)\<close>

theorem sync_round_outcome:
  assumes "good_source cfg" "agg_inv cfg (ap_aggregator ap)" "\<not> si_stopped i" "\<not> isCanceled (si_listed i)"
  shows "(\<forall>devices normalized k. si_listed i = Inr devices \<longrightarrow> si_applyDisk i \<longrightarrow>
      NormalizeDirectorySnapshot (directorySnapshot devices (si_now i)) = Inr (normalized, k) \<longrightarrow>
      (\<exists>ap'. sync_round (app_store cfg cd) i \<lparr>sl_store = ap, sl_failures = n\<rparr> =
          Some (Inr (RefreshInterval, \<lparr>sl_store = ap', sl_failures = 0\<rparr>)) \<and>
        app_sync ap' = (healthy_sync (si_now i))\<lparr>ds_invalidAddressCount := k\<rparr> \<and> app_snapshot ap' = Some normalized)) \<and>
    (\<forall>err ap1. sync_attempt (app_store cfg cd) i ap = Some (Some err, ap1) \<longrightarrow> si_updateDisk i \<longrightarrow>
      valid_sync_state (app_sync ap) \<longrightarrow> 0 < si_now i \<longrightarrow>
      (\<forall>u. ds_lastSuccessAt (app_sync ap) = Some u \<longrightarrow> u \<le> si_now i) \<longrightarrow>
      (\<exists>ap'. sync_round (app_store cfg cd) i \<lparr>sl_store = ap, sl_failures = n\<rparr> =
          Some (Inr (retry_delay (si_jitter i) n, \<lparr>sl_store = ap', sl_failures = n + 1\<rparr>)) \<and>
        app_sync ap' = stale_sync (si_now i) (retry_delay (si_jitter i) n) err (app_sync ap) \<and>
        app_snapshot ap' = app_snapshot ap))"
proof (intro conjI allI impI)
  have ok: "app_ok cfg ap" using assms(1,2) by (simp add: app_ok_def)
  fix devices normalized k
  assume h: "si_listed i = Inr devices" "si_applyDisk i"
    "NormalizeDirectorySnapshot (directorySnapshot devices (si_now i)) = Inr (normalized, k)"
  obtain ap' where a: "sync_attempt (app_store cfg cd) i ap = Some (None, ap')"
    using attempt_succeeds [OF ok h] by blast
  then have "app_sync ap' = (healthy_sync (si_now i))\<lparr>ds_invalidAddressCount := k\<rparr> \<and> app_snapshot ap' = Some normalized"
    using app.attempt_returns [OF ok, of cd i] h by auto
  then show "\<exists>ap'. sync_round (app_store cfg cd) i \<lparr>sl_store = ap, sl_failures = n\<rparr> =
      Some (Inr (RefreshInterval, \<lparr>sl_store = ap', sl_failures = 0\<rparr>)) \<and>
    app_sync ap' = (healthy_sync (si_now i))\<lparr>ds_invalidAddressCount := k\<rparr> \<and> app_snapshot ap' = Some normalized"
    using a assms(3,4) by (simp add: sync_round_def)
next
  have ok: "app_ok cfg ap" using assms(1,2) by (simp add: app_ok_def)
  fix err ap1
  assume h: "sync_attempt (app_store cfg cd) i ap = Some (Some err, ap1)" "si_updateDisk i"
    "valid_sync_state (app_sync ap)" "0 < si_now i" "\<forall>u. ds_lastSuccessAt (app_sync ap) = Some u \<longrightarrow> u \<le> si_now i"
  show "\<exists>ap'. sync_round (app_store cfg cd) i \<lparr>sl_store = ap, sl_failures = n\<rparr> =
      Some (Inr (retry_delay (si_jitter i) n, \<lparr>sl_store = ap', sl_failures = n + 1\<rparr>)) \<and>
    app_sync ap' = stale_sync (si_now i) (retry_delay (si_jitter i) n) err (app_sync ap) \<and> app_snapshot ap' = app_snapshot ap"
    by (rule app.failure_recorded [OF ok assms(3,4) h(1,2)]) (rule stale_valid [OF h(3,4) retry_delay_pos h(5)])
qed

text \<open>Witnesses: an API that first refuses and then lists a device, on a new server.\<close>

definition ex_refused :: sync_input where
  "ex_refused =
     \<lparr>si_stopped = False, si_listed = ListDevices (Inl (UpstreamStatus 429)), si_now = ex_time, si_jitter = \<lambda>d. d,
      si_applyDisk = True, si_updateDisk = True, si_clock = ex_time, si_waits = True\<rparr>"

definition ex_listed :: sync_input where
  "ex_listed = ex_refused\<lparr>si_listed := ListDevices (Inr (Some [])), si_now := ex_time + 30 * second\<rparr>"

definition ex_server :: app_state where
  "ex_server = \<lparr>ap_aggregator = newRuntimeState, ap_database = new_database, ap_lastCheckpoint = 0\<rparr>"

lemma ex_inputs:
  "\<not> si_stopped ex_refused" "\<not> si_stopped ex_listed" "\<not> isCanceled (si_listed ex_refused)"
  "\<not> isCanceled (si_listed ex_listed)" "si_waits ex_refused" "si_waits ex_listed" "near (si_jitter ex_refused)"
  "near (si_jitter ex_listed)" "0 < si_now ex_refused"
  by (code_simp | simp add: ex_refused_def ex_listed_def near_def retryBackoff_def second_def minute_def)+

theorem synchronizer_keeps_polling_witness:
  "\<exists>d ap'. RunSynchronizer (app_store ex_config ex_codec) True ex_time ex_time [ex_refused, ex_listed] ex_server =
      Some ([d, 5 * minute], ap') \<and> 24 * second \<le> d \<and> d \<le> 36 * second"
proof -
  have l: "\<not> listing_taken ex_refused" "listing_taken ex_listed" by code_simp+
  from synchronizer_keeps_polling [OF ex_source_good, of ex_server "[ex_refused, ex_listed]" ex_codec True ex_time ex_time]
    agg_inv_empty [OF ex_source_good] ex_inputs
  obtain delays ap' where r: "RunSynchronizer (app_store ex_config ex_codec) True ex_time ex_time [ex_refused, ex_listed] ex_server =
      Some (delays, ap')" "length delays = 2"
    "\<forall>k < 2. if listing_taken ([ex_refused, ex_listed] ! k) then delays ! k = 5 * minute
       else let base = min (30 * second * 2 ^ failed_in_a_row [ex_refused, ex_listed] k) (15 * minute)
            in 4 * base \<le> 5 * delays ! k \<and> 5 * delays ! k \<le> 6 * base"
    by (auto simp: ex_server_def)
  from r(2) obtain d e where d: "delays = [d, e]" by (auto simp: numeral_2_eq_2 length_Suc_conv)
  have "failed_in_a_row [ex_refused, ex_listed] 0 = 0" by (simp add: failed_in_a_row_def)
  then show ?thesis
    using r(1) r(3) [rule_format, of 0] r(3) [rule_format, of 1] l by (simp add: d Let_def second_def minute_def)
qed

theorem sync_round_outcome_witness:
  "(\<exists>ap'. sync_round (app_store ex_config ex_codec) ex_refused \<lparr>sl_store = ex_server, sl_failures = 0\<rparr> =
      Some (Inr (30 * second, \<lparr>sl_store = ap', sl_failures = 1\<rparr>)) \<and> ds_status (app_sync ap') = DirectorySyncStale \<and>
      ds_errorCode (app_sync ap') = DirectoryErrorRateLimited)"
proof -
  have a: "sync_attempt (app_store ex_config ex_codec) ex_refused ex_server =
      Some (Some (ListFailed \<lparr>rq_statusCode = 429, rq_kind = ErrorRateLimited\<rparr>), ex_server)"
    by (simp add: sync_attempt_def ex_refused_def ListDevices_def kindForStatus_def)
  have v: "app_sync ex_server = disabled_sync" "valid_sync_state disabled_sync" "ds_lastSuccessAt disabled_sync = None"
    by (simp_all add: app_sync_def ex_server_def newRuntimeState_def disabled_sync_def valid_sync_state_def)
  have d: "retry_delay (si_jitter ex_refused) 0 = 30 * second" "si_updateDisk ex_refused"
    by (simp_all add: retry_delay_def ex_refused_def backoff_def retryBackoff_def Let_def second_def)
  have inv: "agg_inv ex_config (ap_aggregator ex_server)"
    using agg_inv_empty [OF ex_source_good] by (simp add: ex_server_def)
  show ?thesis
    using sync_round_outcome [OF ex_source_good inv ex_inputs(1,3), of ex_codec 0] a v d ex_inputs(9)
    by (auto simp: stale_sync_def)
qed

text \<open>A clock that was set back hides the failures: the stale state would end before its last success,
  the aggregator refuses it, and the directory still claims to be as healthy as before.\<close>

theorem clock_back_hides_failure:
  assumes "good_source cfg" "agg_inv cfg (ap_aggregator ap)" "\<not> si_stopped i" "\<not> isCanceled (si_listed i)"
    and "sync_attempt (app_store cfg cd) i ap = Some (Some err, ap1)"
    and "ds_lastSuccessAt (app_sync ap) = Some u" "si_now i < u"
  shows "\<exists>ap'. sync_round (app_store cfg cd) i \<lparr>sl_store = ap, sl_failures = n\<rparr> =
      Some (Inr (retry_delay (si_jitter i) n, \<lparr>sl_store = ap', sl_failures = n + 1\<rparr>)) \<and> app_sync ap' = app_sync ap"
proof -
  have ok: "app_ok cfg ap" using assms(1,2) by (simp add: app_ok_def)
  have st1: "ap1 = ap" using app.attempt_returns [OF ok, of cd i] assms(5) by auto
  let ?stale = "stale_sync (si_now i) (retry_delay (si_jitter i) n) err (app_sync ap)"
  have "\<not> valid_sync_state ?stale" using assms(6,7) by (auto simp: valid_sync_state_def stale_sync_def)
  then obtain e where "ValidateSyncState ?stale = Some e" using ValidateSyncState_accepts_valid by blast
  moreover have "ds_status ?stale \<noteq> DirectorySyncHealthy" by (simp add: stale_sync_def)
  ultimately have "app_sync (snd (st_update (app_store cfg cd) (si_updateDisk i) ?stale (si_now i) (si_clock i) ap)) = app_sync ap"
    using app.update_result [of ?stale cfg cd "si_updateDisk i" "si_now i" "si_clock i" ap] by simp
  then show ?thesis
    using assms(3-5) by (simp add: sync_round_def Let_def split_beta app.directory_sync st1)
qed

end
