(* ===== verification/Status_Decode.thy ===== *)
theory Status_Decode
  imports Netip Sink_Facts
begin

text \<open>
  Reading a Tailscale runtime status (\<open>internal/tailscalestatus/status.go\<close>): the identity of a peer, its
  public endpoints, the owner of a relay address, and the path a peer is on. A status comes from
  the Tailscale library: its peers are records of the fields the program reads, with the printed
  forms of the numeric node id and of the node key (empty for the zero value), and its map of peers
  is the list of its values in the order they are iterated, \<open>None\<close> a nil pointer.
\<close>

section \<open>The status of the runtime\<close>

record peer_status =
  us_id :: string
  us_nodeID :: string
  us_publicKey :: string
  us_hostName :: string
  us_dnsName :: string
  us_os :: string
  us_tailscaleIPs :: "addr list"
  us_addrs :: "string list"
  us_curAddr :: string
  us_relay :: string
  us_peerRelay :: string
  us_lastHandshake :: time
  us_rxBytes :: int
  us_txBytes :: int

record runtime_status =
  st_self :: "peer_status option"
  st_peers :: "peer_status option list"

text \<open>The peers the loops visit: nil entries are skipped.\<close>

definition present_peers :: "runtime_status \<Rightarrow> peer_status list" where
  "present_peers status = List.map_filter (\<lambda>p. p) (st_peers status)"

section \<open>Public addresses\<close>

text \<open>The classes of addresses of \<open>net/netip\<close>.\<close>

fun addr_loopback :: "addr \<Rightarrow> bool" where
  "addr_loopback (Addr4 a b c d) \<longleftrightarrow> a = 127"
| "addr_loopback (Addr6 g z) \<longleftrightarrow> g = [0, 0, 0, 0, 0, 0, 0, 1]"

fun addr_multicast :: "addr \<Rightarrow> bool" where
  "addr_multicast (Addr4 a b c d) \<longleftrightarrow> 224 \<le> a \<and> a \<le> 239"
| "addr_multicast (Addr6 g z) \<longleftrightarrow> 65280 \<le> hd g"

fun addr_link_local :: "addr \<Rightarrow> bool" where
  "addr_link_local (Addr4 a b c d) \<longleftrightarrow> a = 169 \<and> b = 254"
| "addr_link_local (Addr6 g z) \<longleftrightarrow> 65152 \<le> hd g \<and> hd g \<le> 65215"

fun addr_private :: "addr \<Rightarrow> bool" where
  "addr_private (Addr4 a b c d) \<longleftrightarrow> a = 10 \<or> a = 172 \<and> 16 \<le> b \<and> b \<le> 31 \<or> a = 192 \<and> b = 168"
| "addr_private (Addr6 g z) \<longleftrightarrow> 64512 \<le> hd g \<and> hd g \<le> 65023"

fun addr_unspecified :: "addr \<Rightarrow> bool" where
  "addr_unspecified (Addr4 a b c d) \<longleftrightarrow> [a, b, c, d] = [0, 0, 0, 0]"
| "addr_unspecified (Addr6 g z) \<longleftrightarrow> g = replicate 8 0 \<and> z = []"

definition addr_global_unicast :: "addr \<Rightarrow> bool" where
  "addr_global_unicast a \<longleftrightarrow>
     \<not> addr_unspecified a \<and> a \<noteq> Addr4 255 255 255 255 \<and> \<not> addr_loopback a \<and> \<not> addr_multicast a \<and>
     \<not> addr_link_local a"

text \<open>\<open>100.64.0.0/10\<close>, the carrier-grade range Tailscale addresses come from.\<close>

fun addr_shared :: "addr \<Rightarrow> bool" where
  "addr_shared (Addr4 a b c d) \<longleftrightarrow> a = 100 \<and> 64 \<le> b \<and> b \<le> 127"
| "addr_shared (Addr6 g z) \<longleftrightarrow> False"

definition isPublicEndpointAddress :: "addr \<Rightarrow> bool" where
  "isPublicEndpointAddress address =
     (let a = addr_unmap address
      in addr_global_unicast a \<and> \<not> addr_private a \<and> \<not> addr_loopback a \<and> \<not> addr_link_local a \<and> \<not> addr_shared a)"

definition normalized_endpoint :: "addr \<times> nat \<Rightarrow> addr \<times> nat" where
  "normalized_endpoint ap = (addr_unmap (fst ap), snd ap)"

definition add_endpoint :: "string \<Rightarrow> string list \<Rightarrow> string list" where
  "add_endpoint value result =
     (case parse_addr_port value of
        None \<Rightarrow> result
      | Some ap \<Rightarrow>
          if \<not> isPublicEndpointAddress (fst ap) then result
          else let normalized = show_addr_port (normalized_endpoint ap)
            in if normalized \<in> set result then result else result @ [normalized])"

definition PublicEndpoints :: "peer_status \<Rightarrow> string list" where
  "PublicEndpoints peer = add_endpoint (us_curAddr peer) (fold add_endpoint (us_addrs peer) [])"

section \<open>Identities\<close>

definition NormalizeOS :: "string \<Rightarrow> string" where
  "NormalizeOS value =
     (let v = to_lower (trim_space value)
      in if v = ''linux'' then ''linux''
         else if v = ''darwin'' \<or> v = ''macos'' then ''macos''
         else if v = ''windows'' then ''windows''
         else if v = ''ios'' then ''ios''
         else if v = ''android'' then ''android''
         else value)"

definition PeerIdentity :: "peer_status \<Rightarrow> node_identity" where
  "PeerIdentity peer =
     \<lparr>ni_stableNodeID = us_id peer, ni_nodeID = us_nodeID peer, ni_nodeKey = us_publicKey peer, ni_discoKey = [],
      ni_hostname = us_hostName peer, ni_dnsName = us_dnsName peer, ni_os = NormalizeOS (us_os peer),
      ni_tailscaleIPs = map show_addr (us_tailscaleIPs peer), ni_publicEndpoints = PublicEndpoints peer\<rparr>"

definition peerIdentityKey :: "peer_status \<Rightarrow> string" where
  "peerIdentityKey peer = IdentityKey (PeerIdentity peer)"

section \<open>Relay addresses\<close>

record relay_identity =
  ri_stableNodeID :: string
  ri_resolution :: string

definition no_relay_identity :: relay_identity where
  "no_relay_identity = \<lparr>ri_stableNodeID = [], ri_resolution = []\<rparr>"

type_synonym owner_map = "(string, (string, string) gomap) gomap"

definition addOwner :: "string \<Rightarrow> string \<Rightarrow> string \<Rightarrow> owner_map \<Rightarrow> owner_map" where
  "addOwner stableID ip resolution owners =
     (if ip = [] then owners
      else let m = (case map_of owners ip of None \<Rightarrow> [] | Some m \<Rightarrow> m)
        in if map_of m stableID = Some ''tailscale_ip'' then mput ip m owners
           else mput ip (mput stableID resolution m) owners)"

text \<open>What one peer claims, in the order of the loop over it.\<close>

definition endpoint_ip :: "string \<Rightarrow> string option" where
  "endpoint_ip endpoint = map_option (\<lambda>ap. show_addr (addr_unmap (fst ap))) (parse_addr_port endpoint)"

definition owner_claims :: "peer_status \<Rightarrow> (string \<times> string) list" where
  "owner_claims peer =
     map (\<lambda>a. (show_addr (addr_unmap a), ''tailscale_ip'')) (us_tailscaleIPs peer) @
     map (\<lambda>ip. (ip, ''endpoint_match'')) (List.map_filter endpoint_ip (PublicEndpoints peer))"

definition add_peer_owners :: "peer_status \<Rightarrow> owner_map \<Rightarrow> owner_map" where
  "add_peer_owners peer owners =
     (if us_id peer = [] then owners
      else fold (\<lambda>(ip, resolution). addOwner (us_id peer) ip resolution) (owner_claims peer) owners)"

definition relay_owners :: "peer_status list \<Rightarrow> owner_map" where
  "relay_owners peers = fold add_peer_owners peers []"

definition sole_owner :: "(string, string) gomap \<Rightarrow> relay_identity option" where
  "sole_owner candidates =
     (case candidates of [(stableID, resolution)] \<Rightarrow> Some \<lparr>ri_stableNodeID = stableID, ri_resolution = resolution\<rparr>
      | _ \<Rightarrow> None)"

definition RelayIdentities :: "runtime_status \<Rightarrow> (string, relay_identity) gomap" where
  "RelayIdentities status =
     fold (\<lambda>(ip, candidates) result.
         case sole_owner candidates of None \<Rightarrow> result | Some r \<Rightarrow> mput ip r result)
       (relay_owners (present_peers status)) []"

section \<open>The address of a peer relay\<close>

text \<open>\<open>strings.LastIndex\<close>\<close>

fun last_index :: "string \<Rightarrow> string \<Rightarrow> nat option" where
  "last_index p [] = (if p = [] then Some 0 else None)"
| "last_index p (c # s) =
     (case last_index p s of Some k \<Rightarrow> Some (Suc k) | None \<Rightarrow> if has_prefix (c # s) p then Some 0 else None)"

definition vni_marker :: string where
  "vni_marker = '':vni:''"

definition ParsePeerRelay :: "string \<Rightarrow> string \<times> string \<times> int option" where
  "ParsePeerRelay value =
     (let (endpoint, vni) =
        (case last_index vni_marker value of
           None \<Rightarrow> (value, None)
         | Some marker \<Rightarrow>
             (take marker value,
              map_option int (parse_uint (2 ^ 24 - 1) (drop (marker + length vni_marker) value))))
      in case parse_addr_port endpoint of
           None \<Rightarrow> ([], [], None)
         | Some ap \<Rightarrow>
             (show_addr_port (normalized_endpoint ap), show_addr (fst (normalized_endpoint ap)), vni))"

definition PeerRelayIP :: "string \<Rightarrow> string" where
  "PeerRelayIP value = fst (snd (ParsePeerRelay value))"

definition PeerRelayEndpoint :: "string \<Rightarrow> string \<times> int option" where
  "PeerRelayEndpoint value = (fst (snd (ParsePeerRelay value)), snd (snd (ParsePeerRelay value)))"

section \<open>The path of a peer\<close>

definition PeerPath :: "peer_status \<Rightarrow> (string, relay_identity) gomap \<Rightarrow> path_observation" where
  "PeerPath peer relayByIP =
     (if us_lastHandshake peer = 0 then unknown_path
      else if us_peerRelay peer \<noteq> [] then
        (case ParsePeerRelay (us_peerRelay peer) of (endpoint, relayIP, vni) \<Rightarrow>
           (let relay = (case map_of relayByIP relayIP of None \<Rightarrow> no_relay_identity | Some r \<Rightarrow> r)
            in \<lparr>po_kind = PathPeerRelay, po_directEndpoint = [], po_derpRegion = [],
                po_relayStableID = ri_stableNodeID relay, po_relayEndpoint = endpoint,
                po_relayResolution = ri_resolution relay, po_relayVNI = vni\<rparr>))
      else if us_curAddr peer \<noteq> [] then no_path\<lparr>po_kind := PathDirect, po_directEndpoint := us_curAddr peer\<rparr>
      else if us_relay peer \<noteq> [] then no_path\<lparr>po_kind := PathDERP, po_derpRegion := us_relay peer\<rparr>
      else unknown_path)"

section \<open>An address worked out\<close>

lemma example_numbers: "parse_uint (2 ^ 24 - 1) ''7'' = Some 7" "parse_uint 65535 ''4'' = Some 4"
  by (simp_all add: parse_uint_def is_digit_def digit_val_def)

lemma example_endpoint: "parse_addr_port ''9.0.0.8:4'' = Some (Addr4 9 0 0 8, 4)"
proof -
  have "split_last_colon ''9.0.0.8:4'' = Some (''9.0.0.8'', ''4'')" by code_simp
  moreover have "parse_addr ''9.0.0.8'' = Some (Addr4 9 0 0 8)" by code_simp
  ultimately show ?thesis by (simp add: parse_addr_port_def example_numbers)
qed

lemma example_normalized:
  "show_addr_port (normalized_endpoint (Addr4 9 0 0 8, 4)) = ''9.0.0.8:4''"
  "show_addr (fst (normalized_endpoint (Addr4 9 0 0 8, 4))) = ''9.0.0.8''"
  "isPublicEndpointAddress (Addr4 9 0 0 8)"
  by code_simp+

lemma example_relay: "ParsePeerRelay ''9.0.0.8:4:vni:7'' = (''9.0.0.8:4'', ''9.0.0.8'', Some 7)"
proof -
  have at: "last_index vni_marker ''9.0.0.8:4:vni:7'' = Some 9" by code_simp
  have parts: "take 9 ''9.0.0.8:4:vni:7'' = ''9.0.0.8:4''" "drop (9 + length vni_marker) ''9.0.0.8:4:vni:7'' = ''7''"
    by (simp_all add: vni_marker_def)
  show ?thesis
    unfolding ParsePeerRelay_def at option.case parts example_numbers(1) Let_def prod.case example_endpoint example_normalized
    by simp
qed

end
