(* ===== verification/Status_Relays.thy ===== *)
theory Status_Relays
  imports Status_Decode
begin

text \<open>
  The owner of a relay address (\<open>RelayIdentities\<close> of \<open>internal/tailscalestatus/status.go\<close>): an address is
  resolved exactly when one stable id claims it, however the map of peers is iterated, and the claim of a
  Tailscale address outranks that of an endpoint.
\<close>

definition owner_at :: "owner_map \<Rightarrow> string \<Rightarrow> string \<Rightarrow> string option" where
  "owner_at owners ip stableID = (case map_of owners ip of None \<Rightarrow> None | Some m \<Rightarrow> map_of m stableID)"

definition owners_ok :: "owner_map \<Rightarrow> bool" where
  "owners_ok owners \<longleftrightarrow> wf_map owners \<and> (\<forall>ip m. map_of owners ip = Some m \<longrightarrow> wf_map m \<and> m \<noteq> [])"

lemma mput_not_Nil [simp]: "mput k v m \<noteq> []"
  by (cases m) (auto simp: mput_def)

lemma owners_ok_addOwner: "owners_ok owners \<Longrightarrow> owners_ok (addOwner stableID ip resolution owners)"
  by (auto simp: owners_ok_def addOwner_def Let_def split: option.splits)

lemma owner_at_addOwner:
  "owner_at (addOwner stableID ip resolution owners) ip' sid =
     (if ip \<noteq> [] \<and> ip' = ip \<and> sid = stableID
      then Some (if owner_at owners ip stableID = Some ''tailscale_ip'' then ''tailscale_ip'' else resolution)
      else owner_at owners ip' sid)"
  by (auto simp: owner_at_def addOwner_def Let_def split: option.splits)

section \<open>All claims of a status\<close>

text \<open>The claims in the order they are made: stable id, address and kind.\<close>

definition peer_claims :: "peer_status \<Rightarrow> (string \<times> string \<times> string) list" where
  "peer_claims peer = (if us_id peer = [] then [] else map (\<lambda>c. (us_id peer, c)) (owner_claims peer))"

definition claim :: "string \<times> string \<times> string \<Rightarrow> owner_map \<Rightarrow> owner_map" where
  "claim c = (case c of (stableID, ip, resolution) \<Rightarrow> addOwner stableID ip resolution)"

lemma add_peer_owners_claims: "add_peer_owners peer owners = fold claim (peer_claims peer) owners"
  by (simp add: add_peer_owners_def peer_claims_def fold_map claim_def comp_def split_def)

lemma relay_owners_claims: "relay_owners peers = fold claim (concat (map peer_claims peers)) []"
proof -
  have "fold add_peer_owners peers owners = fold claim (concat (map peer_claims peers)) owners" for owners
    by (induction peers arbitrary: owners) (simp_all add: add_peer_owners_claims)
  then show ?thesis by (simp add: relay_owners_def)
qed

lemma owners_ok_claims: "owners_ok owners \<Longrightarrow> owners_ok (fold claim cs owners)"
  by (rule fold_inv) (auto simp: claim_def owners_ok_addOwner split: prod.splits)

lemma claim_kinds: "(sid, ip, kind) \<in> set (peer_claims peer) \<Longrightarrow> kind = ''tailscale_ip'' \<or> kind = ''endpoint_match''"
  by (auto simp: peer_claims_def owner_claims_def split: if_splits)

lemma owner_at_claims:
  assumes "ip \<noteq> []" and "\<And>sid ip kind. (sid, ip, kind) \<in> set cs \<Longrightarrow> kind = ''tailscale_ip'' \<or> kind = ''endpoint_match''"
  shows "owner_at (fold claim cs []) ip sid =
     (if (sid, ip, ''tailscale_ip'') \<in> set cs then Some ''tailscale_ip''
      else if (sid, ip, ''endpoint_match'') \<in> set cs then Some ''endpoint_match'' else None)"
  using assms(2)
proof (induction cs rule: rev_induct)
  case Nil
  then show ?case by (simp add: owner_at_def)
next
  case (snoc c cs)
  obtain s i k where c: "c = (s, i, k)" by (cases c)
  have IH: "owner_at (fold claim cs []) ip sid =
     (if (sid, ip, ''tailscale_ip'') \<in> set cs then Some ''tailscale_ip''
      else if (sid, ip, ''endpoint_match'') \<in> set cs then Some ''endpoint_match'' else None)"
    by (rule snoc.IH) (use snoc.prems in auto)
  have k: "k = ''tailscale_ip'' \<or> k = ''endpoint_match''" using snoc.prems [of s i k] by (simp add: c)
  have step: "owner_at (fold claim (cs @ [c]) []) ip sid =
      (if i \<noteq> [] \<and> ip = i \<and> sid = s
       then Some (if owner_at (fold claim cs []) i s = Some ''tailscale_ip'' then ''tailscale_ip'' else k)
       else owner_at (fold claim cs []) ip sid)"
    by (simp add: c claim_def owner_at_addOwner)
  show ?case
  proof (cases "ip = i \<and> sid = s")
    case True
    then show ?thesis unfolding step using assms(1) IH k by (auto simp: c)
  next
    case False
    then show ?thesis unfolding step using IH by (auto simp: c)
  qed
qed

section \<open>Resolution\<close>

lemma map_of_sole_owners:
  assumes "wf_map owners"
  shows "map_of (fold (\<lambda>(ip, candidates) result.
           case sole_owner candidates of None \<Rightarrow> result | Some r \<Rightarrow> mput ip r result) owners result) k =
         (case map_of owners k of
            None \<Rightarrow> map_of result k
          | Some m \<Rightarrow> (case sole_owner m of None \<Rightarrow> map_of result k | Some r \<Rightarrow> Some r))"
  using assms
proof (induction owners arbitrary: result)
  case (Cons e owners)
  obtain ip m where e: "e = (ip, m)" by (cases e)
  have "map_of owners ip = None" and w: "wf_map owners"
    using Cons.prems by (auto simp: e wf_map_def map_of_eq_None_iff)
  then show ?case by (auto simp: e Cons.IH [OF w] split: option.splits)
qed simp

lemma sole_owner_Some:
  assumes "wf_map m"
  shows "sole_owner m = Some r \<longleftrightarrow> map_of m = [ri_stableNodeID r \<mapsto> ri_resolution r]"
proof
  assume "sole_owner m = Some r"
  then show "map_of m = [ri_stableNodeID r \<mapsto> ri_resolution r]"
    by (auto simp: sole_owner_def split: list.splits prod.splits)
next
  assume eq: "map_of m = [ri_stableNodeID r \<mapsto> ri_resolution r]"
  have "set m = {(ri_stableNodeID r, ri_resolution r)}"
  proof -
    have "e \<in> set m \<longleftrightarrow> e = (ri_stableNodeID r, ri_resolution r)" for e
      using map_of_wf [OF assms, of "fst e" "snd e"] eq by (cases e) (auto split: if_splits)
    then show ?thesis by blast
  qed
  moreover have "distinct m" using assms by (simp add: wf_map_def distinct_map)
  ultimately have "m = [(ri_stableNodeID r, ri_resolution r)]"
    by (metis distinct_card card_1_singleton_iff length_0_conv length_Suc_conv One_nat_def list.set_intros(1) singletonD)
  then show "sole_owner m = Some r" by (simp add: sole_owner_def)
qed

lemma pick_owner:
  "(\<forall>s. (if T s then Some ''tailscale_ip'' else if E s then Some ''endpoint_match'' else None) =
        (if s = s0 then Some k else None)) \<longleftrightarrow>
     (\<forall>s. (T s \<or> E s) = (s = s0)) \<and> k = (if T s0 then ''tailscale_ip'' else ''endpoint_match'')"
  (is "(\<forall>s. ?l s) \<longleftrightarrow> ?r")
proof
  assume l: "\<forall>s. ?l s"
  have "(T s \<or> E s) = (s = s0)" for s using l [rule_format, of s] by (simp split: if_splits)
  with l [rule_format, of s0] show ?r by (auto split: if_splits)
qed auto

lemma fst_image_single: "fst ` A = {a} \<longleftrightarrow> (\<forall>x. (\<exists>y. (x, y) \<in> A) = (x = a))"
proof -
  have "x \<in> fst ` A \<longleftrightarrow> (\<exists>y. (x, y) \<in> A)" for x by force
  then show ?thesis unfolding set_eq_iff by simp
qed

text \<open>Who claims an address, with the kind of the claim.\<close>

definition claims_of :: "runtime_status \<Rightarrow> string \<Rightarrow> (string \<times> string) set" where
  "claims_of status ip =
     {(us_id peer, kind) | peer kind.
        peer \<in> set (present_peers status) \<and> us_id peer \<noteq> [] \<and> (ip, kind) \<in> set (owner_claims peer)}"

text \<open>C27: An address of a relay is resolved to a node exactly when that node is the only one that claims it, with the
  address among its own Tailscale addresses or its public endpoints; and the resolution is called \<open>tailscale_ip\<close> when
  one of the claims is of the first kind. An address two nodes claim is never resolved, and the order in which Go
  iterates the peers makes no difference.\<close>

theorem relay_owner_exact:
  assumes "ip \<noteq> []"
  shows "map_of (RelayIdentities status) ip = Some r \<longleftrightarrow>
     fst ` claims_of status ip = {ri_stableNodeID r} \<and>
     ri_resolution r =
       (if (ri_stableNodeID r, ''tailscale_ip'') \<in> claims_of status ip then ''tailscale_ip'' else ''endpoint_match'')"
proof -
  define cs where "cs = concat (map peer_claims (present_peers status))"
  have kinds: "kind = ''tailscale_ip'' \<or> kind = ''endpoint_match''" if "(sid, ip, kind) \<in> set cs" for sid ip kind
    using that claim_kinds by (auto simp: cs_def)
  have cl: "(sid, kind) \<in> claims_of status ip \<longleftrightarrow> (sid, ip, kind) \<in> set cs" for sid kind
    by (auto simp: claims_of_def cs_def peer_claims_def)
  have ok: "owners_ok (fold claim cs [])" by (rule owners_ok_claims) (simp add: owners_ok_def)
  have at: "owner_at (fold claim cs []) ip sid =
     (if (sid, ip, ''tailscale_ip'') \<in> set cs then Some ''tailscale_ip''
      else if (sid, ip, ''endpoint_match'') \<in> set cs then Some ''endpoint_match'' else None)" for sid
    by (rule owner_at_claims [OF assms kinds])
  have "map_of (RelayIdentities status) ip = Some r \<longleftrightarrow>
      (\<exists>m. map_of (fold claim cs []) ip = Some m \<and> map_of m = [ri_stableNodeID r \<mapsto> ri_resolution r])"
  proof (cases "map_of (fold claim cs []) ip")
    case None
    then show ?thesis
      using ok by (simp add: RelayIdentities_def relay_owners_claims flip: cs_def) (simp add: map_of_sole_owners owners_ok_def)
  next
    case (Some m)
    then have "wf_map m" using ok by (simp add: owners_ok_def)
    have "map_of (RelayIdentities status) ip = sole_owner m"
      using ok Some by (simp add: RelayIdentities_def relay_owners_claims flip: cs_def)
        (simp add: map_of_sole_owners owners_ok_def split: option.splits)
    with Some show ?thesis by (simp add: sole_owner_Some [OF \<open>wf_map m\<close>])
  qed
  also have "\<dots> \<longleftrightarrow> (\<forall>sid. owner_at (fold claim cs []) ip sid =
      (if sid = ri_stableNodeID r then Some (ri_resolution r) else None))"
    by (cases "map_of (fold claim cs []) ip") (simp_all add: owner_at_def fun_eq_iff)
  also have "\<dots> \<longleftrightarrow> fst ` claims_of status ip = {ri_stableNodeID r} \<and>
     ri_resolution r =
       (if (ri_stableNodeID r, ''tailscale_ip'') \<in> claims_of status ip then ''tailscale_ip'' else ''endpoint_match'')"
  proof -
    have "fst ` claims_of status ip = {ri_stableNodeID r} \<longleftrightarrow>
        (\<forall>sid. (\<exists>kind. (sid, kind) \<in> claims_of status ip) = (sid = ri_stableNodeID r))"
      by (rule fst_image_single)
    also have "\<dots> \<longleftrightarrow> (\<forall>sid. ((sid, ip, ''tailscale_ip'') \<in> set cs \<or> (sid, ip, ''endpoint_match'') \<in> set cs) =
        (sid = ri_stableNodeID r))"
      unfolding cl using kinds by (intro iff_allI) blast
    finally show ?thesis unfolding at cl by (simp only: pick_owner)
  qed
  finally show ?thesis .
qed

definition sample_peer :: "string \<Rightarrow> addr \<Rightarrow> string \<Rightarrow> peer_status" where
  "sample_peer stableID ip endpoint =
     \<lparr>us_id = stableID, us_nodeID = [], us_publicKey = [], us_hostName = [], us_dnsName = [], us_os = ''linux'',
      us_tailscaleIPs = [ip], us_addrs = [endpoint], us_curAddr = [], us_relay = ''hkg'', us_peerRelay = [],
      us_lastHandshake = 1, us_rxBytes = 3, us_txBytes = 4\<rparr>"

definition sample_relays :: runtime_status where
  "sample_relays =
     \<lparr>st_self = None,
      st_peers = [Some (sample_peer ''r'' (Addr4 100 64 0 8) ''9.0.0.8:4''), None,
                  Some (sample_peer ''p'' (Addr4 100 64 0 9) []), Some (sample_peer ''q'' (Addr4 100 64 0 9) [])]\<rparr>"

lemma sample_claims:
  "owner_claims (sample_peer sid (Addr4 100 64 0 8) ''9.0.0.8:4'') =
     [(''100.64.0.8'', ''tailscale_ip''), (''9.0.0.8'', ''endpoint_match'')]"
  "owner_claims (sample_peer sid (Addr4 100 64 0 9) []) = [(''100.64.0.9'', ''tailscale_ip'')]"
proof -
  have e: "parse_addr_port [] = None" by code_simp
  have a: "show_addr (addr_unmap (Addr4 100 64 0 8)) = ''100.64.0.8''" "show_addr (addr_unmap (Addr4 100 64 0 9)) = ''100.64.0.9''"
    by code_simp+
  have "PublicEndpoints (sample_peer sid x ''9.0.0.8:4'') = [''9.0.0.8:4'']" for x
    by (simp add: PublicEndpoints_def add_endpoint_def sample_peer_def e example_endpoint example_normalized)
  moreover have "PublicEndpoints (sample_peer sid x []) = []" for x
    by (simp add: PublicEndpoints_def add_endpoint_def sample_peer_def e)
  moreover have "us_tailscaleIPs (sample_peer sid x y) = [x]" for x y by (simp add: sample_peer_def)
  ultimately show
    "owner_claims (sample_peer sid (Addr4 100 64 0 8) ''9.0.0.8:4'') =
     [(''100.64.0.8'', ''tailscale_ip''), (''9.0.0.8'', ''endpoint_match'')]"
    "owner_claims (sample_peer sid (Addr4 100 64 0 9) []) = [(''100.64.0.9'', ''tailscale_ip'')]"
    using example_normalized(2)
    by (simp_all add: owner_claims_def a endpoint_ip_def example_endpoint normalized_endpoint_def List.map_filter_simps
        del: addr_unmap.simps show_addr.simps)
qed

lemma sample_resolved:
  "map_of (RelayIdentities sample_relays) ''9.0.0.8'' = Some \<lparr>ri_stableNodeID = ''r'', ri_resolution = ''endpoint_match''\<rparr>"
  "map_of (RelayIdentities sample_relays) ''100.64.0.9'' = None"
proof -
  have ids: "us_id (sample_peer sid x y) = sid" for sid x y by (simp add: sample_peer_def)
  have "relay_owners (present_peers sample_relays) =
      [(''100.64.0.8'', [(''r'', ''tailscale_ip'')]), (''9.0.0.8'', [(''r'', ''endpoint_match'')]),
       (''100.64.0.9'', [(''p'', ''tailscale_ip''), (''q'', ''tailscale_ip'')])]"
    by (simp add: relay_owners_def present_peers_def sample_relays_def add_peer_owners_def ids sample_claims addOwner_def
        mput_def List.map_filter_simps)
  then show
    "map_of (RelayIdentities sample_relays) ''9.0.0.8'' = Some \<lparr>ri_stableNodeID = ''r'', ri_resolution = ''endpoint_match''\<rparr>"
    "map_of (RelayIdentities sample_relays) ''100.64.0.9'' = None"
    by (simp_all add: RelayIdentities_def sole_owner_def)
qed

theorem relay_owner_exact_witness:
  "fst ` claims_of sample_relays ''9.0.0.8'' = {''r''} \<and> map_of (RelayIdentities sample_relays) ''100.64.0.9'' = None"
  using relay_owner_exact [of "''9.0.0.8''" sample_relays "\<lparr>ri_stableNodeID = ''r'', ri_resolution = ''endpoint_match''\<rparr>"]
    sample_resolved
  by simp

end
