(* ===== verification/Status_Tracker.thy ===== *)
theory Status_Tracker
  imports Status_Decode
begin

text \<open>
  The tracker of \<open>internal/tailscalestatus/status.go\<close>, which turns statuses into exporter snapshots and
  infers, for a short while, that a peer seen on DERP still uses the relay it was seen on before, and
  the sources built on it (\<open>internal/tailscaleadapter/localapi.go\<close>, \<open>exporter/tsnet/source.go\<close>). The
  theorems are about runs of a tracker: every inferred relay path goes back to an observation of the
  same peer on that relay, not older than the window, with nothing but DERP in between; and every
  snapshot of a run is one the sink takes as it is.
\<close>

section \<open>The tracker\<close>

definition FallbackInferenceWindow :: duration where
  "FallbackInferenceWindow = 12 * second"

definition FallbackInferenceRule :: string where
  "FallbackInferenceRule = ''tailscale-status-fallback-v1''"

record fallback_state =
  fs_path :: path_observation
  fs_observedAt :: time

type_synonym tracker = "(string, fallback_state) gomap"

definition NewTracker :: tracker where
  "NewTracker = []"

definition TrackerReset :: "tracker \<Rightarrow> tracker" where
  "TrackerReset tracker = []"

type_synonym classified = "path_observation \<times> path_observation option \<times> path_evidence \<times> string"

definition classifyPath :: "tracker \<Rightarrow> string \<Rightarrow> path_observation \<Rightarrow> time \<Rightarrow> tracker \<times> classified" where
  "classifyPath tracker key path observedAt =
     (case po_kind path of
        PathPeerRelay \<Rightarrow>
          (mput key \<lparr>fs_path = path, fs_observedAt = observedAt\<rparr> tracker, path, None, PathEvidenceObserved, [])
      | PathDERP \<Rightarrow>
          (case map_of tracker key of
             None \<Rightarrow> (tracker, path, None, PathEvidenceObserved, [])
           | Some previous \<Rightarrow>
               (let elapsed = time_sub observedAt (fs_observedAt previous)
                in if elapsed \<ge> 0 \<and> elapsed \<le> FallbackInferenceWindow
                   then (tracker, fs_path previous, Some path, PathEvidenceInferred, FallbackInferenceRule)
                   else (tracker, path, None, PathEvidenceInferred, FallbackInferenceRule)))
      | _ \<Rightarrow> (mdel key tracker, path, None, PathEvidenceObserved, []))"

definition peer_sample :: "peer_status \<Rightarrow> classified \<Rightarrow> peer_snapshot" where
  "peer_sample peer c =
     (case c of (path, fallback, evidence, rule) \<Rightarrow>
        \<lparr>ps_identity = PeerIdentity peer, ps_rxBytes = us_rxBytes peer, ps_txBytes = us_txBytes peer,
         ps_path = path, ps_fallbackPath = fallback, ps_pathEvidence = evidence, ps_inferenceRule = rule\<rparr>)"

fun sample_peers ::
  "(string, relay_identity) gomap \<Rightarrow> time \<Rightarrow> peer_status list \<Rightarrow> tracker \<Rightarrow> tracker \<times> peer_snapshot list" where
  "sample_peers relays collectedAt [] tracker = (tracker, [])"
| "sample_peers relays collectedAt (peer # peers) tracker =
     (case classifyPath tracker (peerIdentityKey peer) (PeerPath peer relays) collectedAt of (tracker1, c) \<Rightarrow>
        (case sample_peers relays collectedAt peers tracker1 of (tracker2, samples) \<Rightarrow>
           (tracker2, peer_sample peer c # samples)))"

datatype status_error = StatusUnavailable | StatusWithoutSelf | StatusNotRead

text \<open>The loop after the peers forgets the peers that are gone.\<close>

definition TrackerSnapshot ::
  "tracker \<Rightarrow> runtime_status option \<Rightarrow> time \<Rightarrow> tracker \<times> (status_error + sink_snapshot)" where
  "TrackerSnapshot tracker status collectedAt =
     (case status of
        None \<Rightarrow> (TrackerReset tracker, Inl StatusUnavailable)
      | Some st \<Rightarrow>
          (case st_self st of
             None \<Rightarrow> (TrackerReset tracker, Inl StatusWithoutSelf)
           | Some self \<Rightarrow>
               (case sample_peers (RelayIdentities st) collectedAt (present_peers st) tracker of (tracker1, peers) \<Rightarrow>
                  (keep_if (\<lambda>identity _. identity \<in> set (map peerIdentityKey (present_peers st))) tracker1,
                   Inr \<lparr>sp_collectedAt = collectedAt, sp_observer = PeerIdentity self, sp_peers = peers\<rparr>))))"

definition StatusSnapshot :: "runtime_status option \<Rightarrow> time \<Rightarrow> status_error + sink_snapshot" where
  "StatusSnapshot status collectedAt = snd (TrackerSnapshot NewTracker status collectedAt)"

section \<open>Sources\<close>

text \<open>
  A source asks its runtime for a status: \<open>None\<close> is a call that failed, \<open>Some None\<close> a nil status.
  \<open>SourceSnapshot\<close> is the method of both sources; they differ in the error they return for a failed call.
\<close>

definition SourceSnapshot ::
  "tracker \<Rightarrow> runtime_status option option \<Rightarrow> time \<Rightarrow> tracker \<times> (status_error + sink_snapshot)" where
  "SourceSnapshot tracker answer now =
     (case answer of
        None \<Rightarrow> (TrackerReset tracker, Inl StatusNotRead)
      | Some status \<Rightarrow> TrackerSnapshot tracker status now)"

text \<open>A run of a source: its answers with the times they were taken at, the latest first.\<close>

type_synonym poll = "runtime_status option option \<times> time"

fun tracker_after :: "poll list \<Rightarrow> tracker" where
  "tracker_after [] = NewTracker"
| "tracker_after (p # earlier) = fst (SourceSnapshot (tracker_after earlier) (fst p) (snd p))"

text \<open>The path a poll showed for an identity.\<close>

definition polled_paths :: "poll \<Rightarrow> string \<Rightarrow> path_observation list" where
  "polled_paths p key =
     (case fst p of
        Some (Some st) \<Rightarrow>
          (if st_self st = None then []
           else map (\<lambda>peer. PeerPath peer (RelayIdentities st))
             (filter (\<lambda>peer. peerIdentityKey peer = key) (present_peers st)))
      | _ \<Rightarrow> [])"

section \<open>Paths\<close>

lemma PeerPath_kinds: "po_kind (PeerPath peer relays) \<in> {PathPeerRelay, PathDirect, PathDERP, PathUnknown}"
  by (simp add: PeerPath_def unknown_path_def no_path_def Let_def split: prod.splits)

lemma parse_uint_bound: "parse_uint bound s = Some n \<Longrightarrow> n \<le> bound"
  by (simp add: parse_uint_def split: if_splits option.splits)

lemma ParsePeerRelay_vni: "snd (snd (ParsePeerRelay value)) = Some v \<Longrightarrow> 0 \<le> v \<and> v < 2 ^ 24"
  by (fastforce simp: ParsePeerRelay_def Let_def split: prod.splits option.splits dest!: parse_uint_bound)

lemma PeerPath_vni: "po_relayVNI (PeerPath peer relays) = Some v \<Longrightarrow> v \<in> {0..max_vni}"
  using ParsePeerRelay_vni [of "us_peerRelay peer" v]
  by (fastforce simp: PeerPath_def unknown_path_def no_path_def Let_def max_vni_def split: prod.splits if_splits)


section \<open>One sample\<close>

lemma classifyPath_other: "k \<noteq> key \<Longrightarrow> map_of (fst (classifyPath tracker key path now)) k = map_of tracker k"
  by (simp add: classifyPath_def Let_def split: path_kind.splits option.splits)

lemma classifyPath_local:
  "map_of tracker key = map_of tracker' key \<Longrightarrow>
     snd (classifyPath tracker key path now) = snd (classifyPath tracker' key path now) \<and>
     map_of (fst (classifyPath tracker key path now)) key = map_of (fst (classifyPath tracker' key path now)) key"
  by (simp add: classifyPath_def Let_def split: path_kind.splits option.splits)

lemma sample_peers_Cons:
  "snd (sample_peers relays now (q # peers) tracker) =
     peer_sample q (snd (classifyPath tracker (peerIdentityKey q) (PeerPath q relays) now)) #
     snd (sample_peers relays now peers (fst (classifyPath tracker (peerIdentityKey q) (PeerPath q relays) now)))"
  "fst (sample_peers relays now (q # peers) tracker) =
     fst (sample_peers relays now peers (fst (classifyPath tracker (peerIdentityKey q) (PeerPath q relays) now)))"
  by (simp_all split: prod.splits)

lemmas sample_peers_simps = sample_peers.simps(1) sample_peers_Cons

declare sample_peers.simps [simp del]

lemma sample_peers_all:
  "distinct (map peerIdentityKey peers) \<Longrightarrow>
     snd (sample_peers relays now peers tracker) =
       map (\<lambda>peer. peer_sample peer (snd (classifyPath tracker (peerIdentityKey peer) (PeerPath peer relays) now))) peers \<and>
     (\<forall>peer \<in> set peers.
        map_of (fst (sample_peers relays now peers tracker)) (peerIdentityKey peer) =
        map_of (fst (classifyPath tracker (peerIdentityKey peer) (PeerPath peer relays) now)) (peerIdentityKey peer)) \<and>
     (\<forall>k. k \<notin> peerIdentityKey ` set peers \<longrightarrow>
        map_of (fst (sample_peers relays now peers tracker)) k = map_of tracker k)"
proof (induction peers arbitrary: tracker)
  case (Cons q peers)
  let ?t = "fst (classifyPath tracker (peerIdentityKey q) (PeerPath q relays) now)"
  have "map_of ?t (peerIdentityKey r) = map_of tracker (peerIdentityKey r)" if "r \<in> set peers" for r
    using that Cons.prems by (intro classifyPath_other) (auto simp: image_iff)
  note local = classifyPath_local [OF this]
  from Cons.prems have "distinct (map peerIdentityKey peers)" "peerIdentityKey q \<notin> peerIdentityKey ` set peers" by simp_all
  with Cons.IH [of ?t] show ?case
    by (simp add: sample_peers_simps local classifyPath_other cong: map_cong)
qed (simp add: sample_peers_simps)

lemmas sample_peers_local = sample_peers_all [THEN conjunct1] sample_peers_all [THEN conjunct2, THEN conjunct1, rule_format]
  sample_peers_all [THEN conjunct2, THEN conjunct2, rule_format]

section \<open>Runs\<close>

definition distinct_poll :: "poll \<Rightarrow> bool" where
  "distinct_poll p =
     (case fst p of Some (Some st) \<Rightarrow> distinct (map peerIdentityKey (present_peers st)) | _ \<Rightarrow> True)"

text \<open>
  The polls showed the identity on the relay path \<open>r\<close> when the \<open>n\<close>-th was taken (the latest is number 0), and on
  DERP ever since.
\<close>

definition relayed_since :: "poll list \<Rightarrow> string \<Rightarrow> nat \<Rightarrow> path_observation \<Rightarrow> bool" where
  "relayed_since polls key n r \<longleftrightarrow>
     n < length polls \<and> polled_paths (polls ! n) key = [r] \<and> po_kind r = PathPeerRelay \<and>
     (\<forall>m<n. \<exists>d. polled_paths (polls ! m) key = [d] \<and> po_kind d = PathDERP)"

definition within_inference :: "time \<Rightarrow> time \<Rightarrow> bool" where
  "within_inference seen now \<longleftrightarrow> seen \<le> now \<and> now \<le> seen + FallbackInferenceWindow"

lemma within_inference_elapsed:
  "within_inference seen now \<longleftrightarrow> time_sub now seen \<ge> 0 \<and> time_sub now seen \<le> FallbackInferenceWindow"
  by (auto simp: within_inference_def FallbackInferenceWindow_def second_def time_sub_def min_duration_def
      max_duration_def)

text \<open>What a tracker remembers of one identity, as a function of the polls alone.\<close>

fun relay_memory :: "poll list \<Rightarrow> string \<Rightarrow> fallback_state option" where
  "relay_memory [] key = None"
| "relay_memory (p # earlier) key =
     (case polled_paths p key of
        [r] \<Rightarrow> (if po_kind r = PathPeerRelay then Some \<lparr>fs_path = r, fs_observedAt = snd p\<rparr>
                else if po_kind r = PathDERP then relay_memory earlier key else None)
      | _ \<Rightarrow> None)"

lemma map_filter_key_single:
  "distinct (map f xs) \<Longrightarrow> x \<in> set xs \<Longrightarrow> f x = k \<Longrightarrow> filter (\<lambda>y. f y = k) xs = [x]"
  by (induction xs) (auto simp: filter_empty_conv image_iff)

lemma polled_paths_peer:
  "distinct_poll (Some (Some st), now) \<Longrightarrow> st_self st = Some self \<Longrightarrow> peer \<in> set (present_peers st) \<Longrightarrow>
     polled_paths (Some (Some st), now) (peerIdentityKey peer) = [PeerPath peer (RelayIdentities st)]"
  by (simp add: polled_paths_def distinct_poll_def map_filter_key_single)

lemma polled_paths_absent:
  "k \<notin> peerIdentityKey ` set (present_peers st) \<Longrightarrow> polled_paths (Some (Some st), now) k = []"
  by (auto simp: polled_paths_def filter_empty_conv)

text \<open>What one sample makes of the memory of an identity that is present.\<close>

lemma classified_memory:
  "map_of (fst (classifyPath tracker key (PeerPath peer relays) now)) key =
     (if po_kind (PeerPath peer relays) = PathPeerRelay
      then Some \<lparr>fs_path = PeerPath peer relays, fs_observedAt = now\<rparr>
      else if po_kind (PeerPath peer relays) = PathDERP then map_of tracker key else None)"
  by (auto simp: classifyPath_def Let_def split: path_kind.splits option.splits)

lemma tracker_is_memory:
  "list_all distinct_poll polls \<Longrightarrow> map_of (tracker_after polls) key = relay_memory polls key"
proof (induction polls)
  case (Cons p earlier)
  obtain answer now where p: "p = (answer, now)" by (cases p)
  show ?case
  proof (cases "\<exists>st self. answer = Some (Some st) \<and> st_self st = Some self")
    case False
    then have "polled_paths p key = []" "tracker_after (p # earlier) = []"
      by (auto simp: p polled_paths_def SourceSnapshot_def TrackerSnapshot_def TrackerReset_def split: option.splits)
    then show ?thesis by simp
  next
    case True
    then obtain st self where st: "answer = Some (Some st)" "st_self st = Some self" by blast
    have d: "distinct_poll (Some (Some st), now)" using Cons.prems by (simp add: p st)
    note dd = d [unfolded distinct_poll_def, simplified]
    have after: "map_of (tracker_after (p # earlier)) key =
        (if key \<in> peerIdentityKey ` set (present_peers st)
         then map_of (fst (sample_peers (RelayIdentities st) now (present_peers st) (tracker_after earlier))) key else None)"
      by (auto simp: p st SourceSnapshot_def TrackerSnapshot_def split: prod.splits option.splits)
    show ?thesis
    proof (cases "key \<in> peerIdentityKey ` set (present_peers st)")
      case True
      then obtain peer where peer: "peer \<in> set (present_peers st)" "key = peerIdentityKey peer" by blast
      show ?thesis
        unfolding after using True Cons.IH Cons.prems polled_paths_peer [OF d st(2) peer(1)]
        by (simp add: sample_peers_local(2) [OF dd peer(1)] classified_memory peer(2) p st(1))
    next
      case False
      then show ?thesis unfolding after by (simp add: polled_paths_absent p st(1))
    qed
  qed
qed (simp add: NewTracker_def)

lemma relay_memory_iff:
  "relay_memory polls key = Some f \<longleftrightarrow>
     (\<exists>n. relayed_since polls key n (fs_path f) \<and> fs_observedAt f = snd (polls ! n))"
proof (induction polls)
  case (Cons p earlier)
  have split: "(\<exists>n. P n) \<longleftrightarrow> P 0 \<or> (\<exists>n. P (Suc n))" for P :: "nat \<Rightarrow> bool"
    by (metis not0_implies_Suc)
  have suc: "relayed_since (p # earlier) key (Suc n) r \<longleftrightarrow>
      (\<exists>d. polled_paths p key = [d] \<and> po_kind d = PathDERP) \<and> relayed_since earlier key n r" for n r
    by (auto simp: relayed_since_def less_Suc_eq_0_disj)
  have zero: "relayed_since (p # earlier) key 0 r \<longleftrightarrow> polled_paths p key = [r] \<and> po_kind r = PathPeerRelay" for r
    by (simp add: relayed_since_def)
  have f: "Some \<lparr>fs_path = r, fs_observedAt = t\<rparr> = Some f \<longleftrightarrow> r = fs_path f \<and> fs_observedAt f = t" for r t
    by (cases f) auto
  show ?case
    unfolding split [where P = "\<lambda>n. relayed_since (p # earlier) key n (fs_path f) \<and> _ n"] suc zero
    using Cons.IH by (auto simp: f split: list.splits)
qed (simp add: relayed_since_def)

section \<open>What is reported\<close>

lemma SourceSnapshot_Inr:
  "snd (SourceSnapshot tracker answer now) = Inr snap \<longleftrightarrow>
     (\<exists>st self. answer = Some (Some st) \<and> st_self st = Some self \<and>
        snap = \<lparr>sp_collectedAt = now, sp_observer = PeerIdentity self,
                sp_peers = snd (sample_peers (RelayIdentities st) now (present_peers st) tracker)\<rparr>)"
  by (auto simp: SourceSnapshot_def TrackerSnapshot_def split: option.splits prod.splits)

lemma peer_sample_fields [simp]:
  "ps_identity (peer_sample peer c) = PeerIdentity peer" "ps_rxBytes (peer_sample peer c) = us_rxBytes peer"
  "ps_txBytes (peer_sample peer c) = us_txBytes peer" "ps_path (peer_sample peer c) = fst c"
  "ps_fallbackPath (peer_sample peer c) = fst (snd c)" "ps_pathEvidence (peer_sample peer c) = fst (snd (snd c))"
  "ps_inferenceRule (peer_sample peer c) = snd (snd (snd c))"
  by (simp_all add: peer_sample_def split: prod.splits)

lemma classifyPath_inference:
  "if po_kind path = PathDERP \<and> (\<exists>f. map_of tracker key = Some f \<and> within_inference (fs_observedAt f) now)
   then (\<exists>f. map_of tracker key = Some f \<and> within_inference (fs_observedAt f) now \<and>
     snd (classifyPath tracker key path now) = (fs_path f, Some path, PathEvidenceInferred, FallbackInferenceRule))
   else (\<exists>evidence rule. snd (classifyPath tracker key path now) = (path, None, evidence, rule))"
  unfolding within_inference_elapsed
  by (cases "map_of tracker key") (auto simp: classifyPath_def Let_def split: path_kind.splits)

lemma relay_memory_within:
  "(\<exists>f. relay_memory polls key = Some f \<and> within_inference (fs_observedAt f) now) \<longleftrightarrow>
     (\<exists>n r. relayed_since polls key n r \<and> within_inference (snd (polls ! n)) now)"
proof
  assume "\<exists>n r. relayed_since polls key n r \<and> within_inference (snd (polls ! n)) now"
  then obtain n r where "relayed_since polls key n r" "within_inference (snd (polls ! n)) now" by blast
  then show "\<exists>f. relay_memory polls key = Some f \<and> within_inference (fs_observedAt f) now"
    using relay_memory_iff [of polls key "\<lparr>fs_path = r, fs_observedAt = snd (polls ! n)\<rparr>"] by auto
qed (force simp: relay_memory_iff)

text \<open>C26: Inference is exact. Over every run of a source in which no two peers of a status share an identity, a
  sample shows a peer on an inferred relay path, with DERP as its fallback, exactly when the peer is on DERP now, an
  earlier poll of the run saw it on that very relay path, no poll since failed or missed it or saw it on anything but
  DERP, and that poll is at most the inference window (12 s) old. In every other case the sample shows the path the
  peer is on.\<close>

theorem relay_inference_exact:
  assumes "snd (SourceSnapshot (tracker_after polls) answer now) = Inr snap"
    and "p \<in> set (sp_peers snap)"
    and "list_all distinct_poll ((answer, now) # polls)"
  shows "\<exists>d. polled_paths (answer, now) (IdentityKey (ps_identity p)) = [d] \<and>
     (if po_kind d = PathDERP \<and>
         (\<exists>n r. relayed_since polls (IdentityKey (ps_identity p)) n r \<and> within_inference (snd (polls ! n)) now)
      then ps_fallbackPath p = Some d \<and> ps_pathEvidence p = PathEvidenceInferred \<and>
         (\<exists>n. relayed_since polls (IdentityKey (ps_identity p)) n (ps_path p) \<and> within_inference (snd (polls ! n)) now)
      else ps_fallbackPath p = None \<and> ps_path p = d)"
proof -
  obtain st self where st: "answer = Some (Some st)" "st_self st = Some self"
    and snap: "sp_peers snap = snd (sample_peers (RelayIdentities st) now (present_peers st) (tracker_after polls))"
    using assms(1) by (auto simp: SourceSnapshot_Inr)
  have d: "distinct_poll (Some (Some st), now)" using assms(3) by (simp add: st)
  obtain peer where peer: "peer \<in> set (present_peers st)"
    and p: "p = peer_sample peer (snd (classifyPath (tracker_after polls) (peerIdentityKey peer)
              (PeerPath peer (RelayIdentities st)) now))"
    using assms(2) d unfolding snap by (auto simp: sample_peers_local(1) distinct_poll_def)
  have key: "IdentityKey (ps_identity p) = peerIdentityKey peer" by (simp add: p peerIdentityKey_def)
  have memory: "map_of (tracker_after polls) k = relay_memory polls k" for k
    using assms(3) by (simp add: tracker_is_memory)
  show ?thesis
    unfolding key st(1) polled_paths_peer [OF d st(2) peer] relay_memory_within [symmetric]
    using classifyPath_inference [of "PeerPath peer (RelayIdentities st)" "tracker_after polls" "peerIdentityKey peer" now]
    unfolding memory by (auto simp: p relay_memory_iff split: if_splits)
qed

definition sample_status :: "string \<Rightarrow> string \<Rightarrow> runtime_status" where
  "sample_status peerRelay relay =
     (let p = \<lparr>us_id = ''a'', us_nodeID = [], us_publicKey = [], us_hostName = [], us_dnsName = [], us_os = ''Darwin'',
          us_tailscaleIPs = [], us_addrs = [], us_curAddr = [], us_relay = relay, us_peerRelay = peerRelay,
          us_lastHandshake = 1, us_rxBytes = 3, us_txBytes = 4\<rparr>
      in \<lparr>st_self = Some (p\<lparr>us_id := ''s''\<rparr>), st_peers = [Some p]\<rparr>)"

definition sample_polls :: "poll list" where
  "sample_polls = [(Some (Some (sample_status ''9.0.0.8:4:vni:7'' [])), 5)]"

definition sample_fallback :: peer_snapshot where
  "sample_fallback =
     \<lparr>ps_identity = PeerIdentity (the (hd (st_peers (sample_status [] ''hkg'')))), ps_rxBytes = 3, ps_txBytes = 4,
      ps_path = no_path\<lparr>po_kind := PathPeerRelay, po_relayEndpoint := ''9.0.0.8:4'', po_relayVNI := Some 7\<rparr>,
      ps_fallbackPath = Some (no_path\<lparr>po_kind := PathDERP, po_derpRegion := ''hkg''\<rparr>),
      ps_pathEvidence = PathEvidenceInferred, ps_inferenceRule = FallbackInferenceRule\<rparr>"

lemma sample_fallback_seen:
  "snd (SourceSnapshot (tracker_after sample_polls) (Some (Some (sample_status [] ''hkg''))) 6) =
     Inr \<lparr>sp_collectedAt = 6, sp_observer = PeerIdentity (the (st_self (sample_status [] ''hkg''))),
          sp_peers = [sample_fallback]\<rparr>"
proof -
  define p where "p r d = the (hd (st_peers (sample_status r d)))" for r d
  have st: "present_peers (sample_status r d) = [p r d]" "st_self (sample_status r d) \<noteq> None" for r d
    by (simp_all add: p_def sample_status_def present_peers_def Let_def List.map_filter_simps)
  have key: "peerIdentityKey (p r d) = ''node:a''" for r d
    by (simp add: p_def peerIdentityKey_def IdentityKey_def PeerIdentity_def sample_status_def Let_def)
  have relayed: "PeerPath (p ''9.0.0.8:4:vni:7'' []) (RelayIdentities (sample_status ''9.0.0.8:4:vni:7'' [])) =
      ps_path sample_fallback"
  proof -
    have "RelayIdentities (sample_status ''9.0.0.8:4:vni:7'' []) = []" by code_simp
    then show ?thesis
      by (simp add: PeerPath_def p_def sample_status_def Let_def example_relay no_relay_identity_def sample_fallback_def
          no_path_def)
  qed
  have derp: "Some (PeerPath (p [] ''hkg'') relays) = ps_fallbackPath sample_fallback" for relays
    by (simp add: PeerPath_def p_def sample_status_def Let_def sample_fallback_def)
  have kinds: "po_kind (ps_path sample_fallback) = PathPeerRelay" "po_kind (PeerPath (p [] ''hkg'') relays) = PathDERP"
    for relays
    by (simp_all add: sample_fallback_def PeerPath_def p_def sample_status_def Let_def no_path_def)
  have tracked: "tracker_after sample_polls = [(''node:a'', \<lparr>fs_path = ps_path sample_fallback, fs_observedAt = 5\<rparr>)]"
    using st(2) [of "''9.0.0.8:4:vni:7''" "[]"]
    by (auto simp: sample_polls_def SourceSnapshot_def TrackerSnapshot_def st(1) sample_peers.simps key relayed
        classifyPath_def NewTracker_def mput_def keep_if_def kinds(1))
  have now: "snd (classifyPath (tracker_after sample_polls) ''node:a'' (PeerPath (p [] ''hkg'') relays) 6) =
      (ps_path sample_fallback, ps_fallbackPath sample_fallback, PathEvidenceInferred, FallbackInferenceRule)" for relays
    unfolding classifyPath_def kinds tracked derp [of relays, symmetric]
    by (simp add: FallbackInferenceWindow_def second_def time_sub_def min_duration_def max_duration_def)
  have "peer_sample (p [] ''hkg'') (ps_path sample_fallback, ps_fallbackPath sample_fallback, PathEvidenceInferred,
      FallbackInferenceRule) = sample_fallback"
    by (simp add: peer_sample_def sample_fallback_def p_def sample_status_def Let_def)
  with now st(2) [of "[]" "''hkg''"] show ?thesis
    by (auto simp: SourceSnapshot_Inr st(1) sample_peers_simps key)
qed

theorem relay_inference_exact_witness:
  "ps_fallbackPath sample_fallback \<noteq> None \<and>
   (\<exists>n. relayed_since sample_polls (IdentityKey (ps_identity sample_fallback)) n (ps_path sample_fallback) \<and>
      within_inference (snd (sample_polls ! n)) 6)"
proof -
  have d: "list_all distinct_poll ((Some (Some (sample_status [] ''hkg'')), 6) # sample_polls)" by code_simp
  have f: "ps_fallbackPath sample_fallback \<noteq> None" by (simp add: sample_fallback_def)
  show ?thesis
    using relay_inference_exact [OF sample_fallback_seen _ d, of sample_fallback] f by (auto split: if_splits)
qed

section \<open>The sink takes what a source reports\<close>

definition relay_fallback :: "fallback_state \<Rightarrow> bool" where
  "relay_fallback f \<longleftrightarrow>
     po_kind (fs_path f) = PathPeerRelay \<and> (\<forall>v. po_relayVNI (fs_path f) = Some v \<longrightarrow> v \<in> {0..max_vni})"

definition tracker_ok :: "tracker \<Rightarrow> bool" where
  "tracker_ok tracker \<longleftrightarrow> (\<forall>k f. map_of tracker k = Some f \<longrightarrow> relay_fallback f)"

lemma tracker_ok_classifyPath:
  "tracker_ok tracker \<Longrightarrow> tracker_ok (fst (classifyPath tracker key (PeerPath peer relays) now))"
  using PeerPath_vni
  by (auto simp: tracker_ok_def relay_fallback_def classifyPath_def Let_def split: path_kind.splits option.splits)

lemma tracker_ok_sample_peers:
  "tracker_ok tracker \<Longrightarrow> tracker_ok (fst (sample_peers relays now peers tracker))"
  by (induction peers arbitrary: tracker) (simp_all add: sample_peers_simps tracker_ok_classifyPath)

lemma tracker_ok_SourceSnapshot: "tracker_ok tracker \<Longrightarrow> tracker_ok (fst (SourceSnapshot tracker answer now))"
  using tracker_ok_sample_peers [of tracker]
  by (auto simp: SourceSnapshot_def TrackerSnapshot_def TrackerReset_def tracker_ok_def split: option.splits prod.splits)
     (metis fst_conv)

lemma tracker_ok_after: "tracker_ok (tracker_after polls)"
  by (induction polls) (simp_all add: tracker_ok_SourceSnapshot, simp add: tracker_ok_def NewTracker_def)

lemma inference_rule_text: "trim_space FallbackInferenceRule \<noteq> []"
  by code_simp

lemma classified_valid:
  assumes "tracker_ok tracker" "HasIdentity (PeerIdentity peer)" "0 \<le> us_rxBytes peer" "0 \<le> us_txBytes peer"
  shows "valid_peer_snapshot (peer_sample peer (snd (classifyPath tracker key (PeerPath peer relays) now)))"
  using assms PeerPath_kinds [of peer relays] PeerPath_vni [of peer relays] inference_rule_text
  by (auto simp: valid_peer_snapshot_def classifyPath_def Let_def tracker_ok_def relay_fallback_def
      split: path_kind.splits option.splits)

lemma sample_peers_valid:
  "tracker_ok tracker \<Longrightarrow>
   (\<And>peer. peer \<in> set peers \<Longrightarrow> HasIdentity (PeerIdentity peer) \<and> 0 \<le> us_rxBytes peer \<and> 0 \<le> us_txBytes peer) \<Longrightarrow>
     list_all valid_peer_snapshot (snd (sample_peers relays now peers tracker)) \<and>
     map (\<lambda>p. IdentityKey (ps_identity p)) (snd (sample_peers relays now peers tracker)) = map peerIdentityKey peers"
  by (induction peers arbitrary: tracker)
     (auto simp: sample_peers_simps classified_valid tracker_ok_classifyPath peerIdentityKey_def)

text \<open>What a source reports, the sink takes as it is: in a run of a source, a sample of a status whose observer
  and peers have identities, no two peers the same one, and whose counters are not negative passes the sink's
  validation and is not changed by it, whatever was inferred.\<close>

theorem source_snapshot_taken:
  assumes "snd (SourceSnapshot (tracker_after polls) (Some (Some st)) now) = Inr snap" and "now \<noteq> 0"
    and "HasIdentity (sp_observer snap)" and "distinct_poll (Some (Some st), now)"
    and "\<And>peer. peer \<in> set (present_peers st) \<Longrightarrow>
           HasIdentity (PeerIdentity peer) \<and> 0 \<le> us_rxBytes peer \<and> 0 \<le> us_txBytes peer"
  shows "validateSnapshot snap fallback = Inr snap"
proof (rule valid_snapshot_taken)
  have snap: "sp_peers snap = snd (sample_peers (RelayIdentities st) now (present_peers st) (tracker_after polls))"
    and now: "sp_collectedAt snap = now"
    using assms(1) by (auto simp: SourceSnapshot_Inr)
  show "sp_collectedAt snap \<noteq> 0" using assms(2) now by simp
  show "valid_snapshot snap"
    using assms(3,4) sample_peers_valid [OF tracker_ok_after assms(5), where relays = "RelayIdentities st"]
    by (simp add: valid_snapshot_def snap distinct_poll_def)
qed

theorem source_snapshot_taken_witness:
  "validateSnapshot \<lparr>sp_collectedAt = 6, sp_observer = PeerIdentity (the (st_self (sample_status [] ''hkg''))),
     sp_peers = [sample_fallback]\<rparr> 9 =
   Inr \<lparr>sp_collectedAt = 6, sp_observer = PeerIdentity (the (st_self (sample_status [] ''hkg''))),
     sp_peers = [sample_fallback]\<rparr>"
proof (rule source_snapshot_taken [OF sample_fallback_seen])
  show "HasIdentity (sp_observer \<lparr>sp_collectedAt = 6, sp_observer = PeerIdentity (the (st_self (sample_status [] ''hkg''))),
     sp_peers = [sample_fallback]\<rparr>)" by code_simp
  show "distinct_poll (Some (Some (sample_status [] ''hkg'')), 6)" by code_simp
  have "list_all (\<lambda>peer. HasIdentity (PeerIdentity peer) \<and> 0 \<le> us_rxBytes peer \<and> 0 \<le> us_txBytes peer)
      (present_peers (sample_status [] ''hkg''))" by code_simp
  then show "HasIdentity (PeerIdentity peer) \<and> 0 \<le> us_rxBytes peer \<and> 0 \<le> us_txBytes peer"
    if "peer \<in> set (present_peers (sample_status [] ''hkg''))" for peer
    using that by (simp add: list_all_iff)
qed simp

end
