(* ===== verification/Relay_Adapter.thy ===== *)
theory Relay_Adapter
  imports Status_Tracker Sink_Contract
begin

text \<open>
  The sources of the collector over the local daemon (\<open>internal/tailscaleadapter\<close>,
  \<open>internal/collector\<close>, \<open>exporter/tsnet/source.go\<close>): diagnostics and the relay sessions of a peer relay. The
  answers of the daemon are arguments; the first eight bytes of a SHA-256 in hexadecimal are the parameter
  \<open>digest\<close>. A node key is its text, empty for the zero key.
\<close>

section \<open>Status\<close>

text \<open>\<open>Source.Snapshot\<close> of \<open>tsnet\<close> reports a cancelled context as such.\<close>

datatype tsnet_error = TsnetCanceled | TsnetStatusUnread | TsnetStatus status_error

definition TsnetSnapshot ::
  "tracker \<Rightarrow> runtime_status option option \<Rightarrow> bool \<Rightarrow> time \<Rightarrow> tracker \<times> (tsnet_error + sink_snapshot)" where
  "TsnetSnapshot tracker answer canceled now =
     (case answer of
        None \<Rightarrow> (TrackerReset tracker, Inl (if canceled then TsnetCanceled else TsnetStatusUnread))
      | Some status \<Rightarrow>
          (case TrackerSnapshot tracker status now of
             (tracker', Inl e) \<Rightarrow> (tracker', Inl (TsnetStatus e))
           | (tracker', Inr snap) \<Rightarrow> (tracker', Inr snap)))"

record diagnostic =
  dg_self :: node_identity
  dg_os :: string
  dg_peerCount :: nat

definition Diagnostic :: "runtime_status option \<Rightarrow> status_error + diagnostic" where
  "Diagnostic answer =
     (case answer of
        None \<Rightarrow> Inl StatusNotRead
      | Some st \<Rightarrow>
          (case st_self st of
             None \<Rightarrow> Inl StatusWithoutSelf
           | Some self \<Rightarrow> Inr \<lparr>dg_self = PeerIdentity self, dg_os = NormalizeOS (us_os self),
               dg_peerCount = length (present_peers st)\<rparr>))"

definition ControlStableNodeIDs :: "runtime_status option \<Rightarrow> status_error + string list" where
  "ControlStableNodeIDs answer =
     (case answer of
        None \<Rightarrow> Inl StatusNotRead
      | Some st \<Rightarrow>
          (case st_self st of
             None \<Rightarrow> Inl StatusWithoutSelf
           | Some self \<Rightarrow> if us_id self = [] then Inl StatusWithoutSelf else Inr [us_id self]))"

section \<open>Relay sessions of the daemon\<close>

record server_client =
  vc_shortDisco :: string
  vc_endpoint :: "(addr \<times> nat) option"
  vc_packetsTx :: "64 word"
  vc_bytesTx :: "64 word"

record server_session =
  vs_vni :: "32 word"
  vs_client1 :: server_client
  vs_client2 :: server_client

record server_status =
  vt_udpPort :: "int option"
  vt_sessions :: "server_session list"

record disco_key =
  dk_nodeKey :: string
  dk_disco :: string
  dk_short :: string

definition maxLocalAPIResponseBytes :: nat where
  "maxLocalAPIResponseBytes = 4 * 1024 * 1024"

text \<open>\<open>None\<close>: no response. On failure the status code remains, 0 without a response.\<close>

definition readLocalAPIJSON :: "(string \<Rightarrow> 'v option) \<Rightarrow> (int \<times> string) option \<Rightarrow> int + 'v" where
  "readLocalAPIJSON decode response =
     (case response of
        None \<Rightarrow> Inl 0
      | Some (statusCode, body) \<Rightarrow>
          if statusCode \<noteq> 200 then Inl statusCode
          else case decode (take maxLocalAPIResponseBytes body) of None \<Rightarrow> Inl statusCode | Some v \<Rightarrow> Inr v)"

definition readPeerDiscoKeys :: "int + disco_key list \<Rightarrow> disco_key list \<times> relay_identity_evidence" where
  "readPeerDiscoKeys answer =
     (case answer of Inl _ \<Rightarrow> ([], RelayIdentityDegraded) | Inr keys \<Rightarrow> (keys, RelayIdentityAvailable))"

section \<open>Identities and ids\<close>

record disco_identity =
  di_nodeKey :: string
  di_discoKey :: string

definition disco_candidates :: "disco_key list \<Rightarrow> (string, disco_identity list) gomap" where
  "disco_candidates keys =
     fold (\<lambda>k m.
         if dk_short k = [] \<or> dk_nodeKey k = [] then m
         else mput (dk_short k)
           ((case map_of m (dk_short k) of None \<Rightarrow> [] | Some ids \<Rightarrow> ids) @
            [\<lparr>di_nodeKey = dk_nodeKey k, di_discoKey = dk_disco k\<rparr>]) m)
       keys []"

definition uniqueDiscoIdentities :: "disco_key list \<Rightarrow> (string, disco_identity) gomap" where
  "uniqueDiscoIdentities keys =
     List.map_filter (\<lambda>(short, matches). case matches of [m] \<Rightarrow> Some (short, m) | _ \<Rightarrow> None) (disco_candidates keys)"

abbreviation nul :: char where
  "nul \<equiv> CHR 0x00"

definition relay_material :: "string \<Rightarrow> 32 word \<Rightarrow> string \<Rightarrow> string" where
  "relay_material kind vni material = kind @ [nul] @ show_nat (unat vni) @ [nul] @ material"

definition scopedRelayID :: "(string \<Rightarrow> string) \<Rightarrow> string \<Rightarrow> 32 word \<Rightarrow> string \<Rightarrow> string" where
  "scopedRelayID digest kind vni material = kind @ ''_'' @ digest (relay_material kind vni material)"

definition stable_key :: "string \<Rightarrow> string \<Rightarrow> string" where
  "stable_key discoShort endpoint =
     (let short = trim_space discoShort
      in if short \<noteq> [] then CHR ''0'' # nul # short else CHR ''1'' # nul # endpoint)"

definition relayClientStableKey :: "relay_client_snapshot \<Rightarrow> string" where
  "relayClientStableKey c = stable_key (rq_discoShort c) (rq_endpoint c)"

definition relayClientSortKey :: "relay_client_snapshot \<Rightarrow> string" where
  "relayClientSortKey c = relayClientStableKey c"

section \<open>Adapting\<close>

definition adaptRelayClient ::
  "(string \<Rightarrow> string) \<Rightarrow> 32 word \<Rightarrow> (string, disco_identity) gomap \<Rightarrow> server_client \<Rightarrow> relay_client_snapshot" where
  "adaptRelayClient digest vni identities c =
     (let short = trim_space (vc_shortDisco c);
          endpoint = (case vc_endpoint c of None \<Rightarrow> [] | Some ap \<Rightarrow> show_addr_port ap)
      in \<lparr>rq_sessionClientID = scopedRelayID digest ''client'' vni (stable_key short endpoint),
          rq_identity = map_option (\<lambda>i. no_identity\<lparr>ni_nodeKey := di_nodeKey i, ni_discoKey := di_discoKey i\<rparr>)
            (map_of identities short),
          rq_discoShort = short, rq_endpoint = endpoint, rq_packetsSent = vc_packetsTx c, rq_bytesSent = vc_bytesTx c\<rparr>)"

text \<open>Two ends with one key are told apart by their endpoints, without an identity.\<close>

definition endpoint_client :: "(string \<Rightarrow> string) \<Rightarrow> 32 word \<Rightarrow> relay_client_snapshot \<Rightarrow> relay_client_snapshot" where
  "endpoint_client digest vni c =
     c\<lparr>rq_identity := None,
       rq_sessionClientID := scopedRelayID digest ''client'' vni (relayClientStableKey c @ [nul] @ rq_endpoint c)\<rparr>"

definition session_of :: "(string \<Rightarrow> string) \<Rightarrow> 32 word \<Rightarrow> relay_client_snapshot list \<Rightarrow> relay_session_snapshot" where
  "session_of digest vni clients =
     \<lparr>rz_sessionID = scopedRelayID digest ''session'' vni [], rz_vni = uint vni, rz_source = clients ! 0,
      rz_target = clients ! 1\<rparr>"

definition adaptRelaySession ::
  "(string \<Rightarrow> string) \<Rightarrow> (string, disco_identity) gomap \<Rightarrow> server_session \<Rightarrow> relay_session_snapshot option" where
  "adaptRelaySession digest identities s =
     (let vni = vs_vni s;
          clients = sort_slice (\<lambda>a b. relayClientSortKey a < relayClientSortKey b)
            [adaptRelayClient digest vni identities (vs_client1 s), adaptRelayClient digest vni identities (vs_client2 s)]
      in if relayClientSortKey (clients ! 0) \<noteq> relayClientSortKey (clients ! 1) then Some (session_of digest vni clients)
         else if rq_endpoint (clients ! 0) = rq_endpoint (clients ! 1) then None
         else Some (session_of digest vni
           (sort_slice (\<lambda>a b. rq_endpoint a < rq_endpoint b) (map (endpoint_client digest vni) clients))))"

definition session_less :: "relay_session_snapshot \<Rightarrow> relay_session_snapshot \<Rightarrow> bool" where
  "session_less a b \<longleftrightarrow> (if rz_vni a \<noteq> rz_vni b then rz_vni a < rz_vni b else rz_sessionID a < rz_sessionID b)"

definition adaptRelaySessions ::
  "(string \<Rightarrow> string) \<Rightarrow> server_session list \<Rightarrow> disco_key list \<Rightarrow> relay_session_snapshot list" where
  "adaptRelaySessions digest upstream discoKeys =
     sort_slice session_less
       (List.map_filter (adaptRelaySession digest (uniqueDiscoIdentities discoKeys)) upstream)"

text \<open>The result is the snapshot and whether an error came with it.\<close>

definition relay_state :: "time \<Rightarrow> relay_capability \<Rightarrow> relay_identity_evidence \<Rightarrow> relay_session_snapshot list \<Rightarrow> relay_snapshot"
where
  "relay_state now capability evidence sessions =
     \<lparr>rn_collectedAt = now, rn_capability = capability, rn_identityEvidence = evidence, rn_sessions = sessions\<rparr>"

definition PeerRelaySnapshot ::
  "(string \<Rightarrow> string) \<Rightarrow> int + server_status \<Rightarrow> int + disco_key list \<Rightarrow> time \<Rightarrow> relay_snapshot \<times> bool" where
  "PeerRelaySnapshot digest status keys now =
     (case status of
        Inl code \<Rightarrow>
          if code = 404 \<or> code = 405 then (relay_state now RelayUnsupported NoRelayIdentityEvidence [], False)
          else (relay_state now RelayTransientFailure NoRelayIdentityEvidence [], True)
      | Inr st \<Rightarrow>
          if vt_udpPort st = None then (relay_state now RelayDisabled NoRelayIdentityEvidence [], False)
          else if vt_sessions st = [] then (relay_state now RelayEnabled NoRelayIdentityEvidence [], False)
          else case readPeerDiscoKeys keys of (discoKeys, evidence) \<Rightarrow>
            (relay_state now RelayEnabled evidence (adaptRelaySessions digest (vt_sessions st) discoKeys), False))"

section \<open>Texts that are not blank\<close>

lemma drop_rune_keeps:
  "drop_rune rs s = Some s' \<Longrightarrow> c \<in> set s \<Longrightarrow> \<forall>r \<in> set rs. c \<notin> set r \<Longrightarrow> c \<in> set s'"
proof (induction rs s rule: drop_rune.induct)
  case (2 r rs s)
  then show ?case
    by (cases "r \<noteq> [] \<and> take (length r) s = r") (auto, metis Un_iff append_take_drop_id set_append)
qed simp

lemma trim_runes_keeps: "c \<in> set s \<Longrightarrow> \<forall>r \<in> set rs. c \<notin> set r \<Longrightarrow> c \<in> set (trim_runes rs s)"
proof (induction rs s rule: trim_runes.induct)
  case (1 rs s)
  then show ?case by (cases "drop_rune rs s") (auto dest: drop_rune_keeps)
qed

lemma trim_space_keeps: "c \<in> set s \<Longrightarrow> \<forall>r \<in> set space_runes. c \<notin> set r \<Longrightarrow> trim_space s \<noteq> []"
proof -
  assume c: "c \<in> set s" "\<forall>r \<in> set space_runes. c \<notin> set r"
  then have "c \<in> set (trim_runes space_runes s)" by (rule trim_runes_keeps)
  then have "c \<in> set (trim_runes (map rev space_runes) (rev (trim_runes space_runes s)))"
    using c(2) by (intro trim_runes_keeps) auto
  then show ?thesis by (auto simp: trim_space_def)
qed

lemma scopedRelayID_not_blank: "trim_space (scopedRelayID digest kind vni material) \<noteq> []"
  by (rule trim_space_keeps [of "CHR ''_''"]) (simp_all add: scopedRelayID_def space_runes_def)

lemma scopedRelayID_eq:
  "scopedRelayID digest kind vni m = scopedRelayID digest kind vni m' \<longleftrightarrow>
     digest (relay_material kind vni m) = digest (relay_material kind vni m')"
  by (simp add: scopedRelayID_def)

section \<open>Identities\<close>

lemma disco_candidates_keyed:
  "map_of (disco_candidates keys) short = Some ids \<Longrightarrow> \<forall>i \<in> set ids. di_nodeKey i \<noteq> []"
proof -
  define P where "P m \<longleftrightarrow> (\<forall>short ids. map_of m short = Some ids \<longrightarrow> (\<forall>i \<in> set ids. di_nodeKey i \<noteq> []))"
    for m :: "(string, disco_identity list) gomap"
  have "P (disco_candidates keys)"
    unfolding disco_candidates_def by (rule fold_inv) (auto simp: P_def split: option.splits, metis)
  then show "map_of (disco_candidates keys) short = Some ids \<Longrightarrow> \<forall>i \<in> set ids. di_nodeKey i \<noteq> []"
    by (simp add: P_def)
qed

lemma disco_candidates_wf: "wf_map (disco_candidates keys)"
  unfolding disco_candidates_def by (rule fold_inv) auto

lemma uniqueDiscoIdentities_keyed:
  assumes "map_of (uniqueDiscoIdentities keys) short = Some i"
  shows "di_nodeKey i \<noteq> []"
proof -
  have "(short, i) \<in> set (uniqueDiscoIdentities keys)" using assms by (rule map_of_SomeD)
  then have "(short, [i]) \<in> set (disco_candidates keys)"
    by (auto simp: uniqueDiscoIdentities_def List.map_filter_def split: list.splits)
  then have "map_of (disco_candidates keys) short = Some [i]"
    using map_of_wf [OF disco_candidates_wf] by blast
  then show ?thesis using disco_candidates_keyed by fastforce
qed

lemma HasIdentity_nodeKey: "k \<noteq> [] \<Longrightarrow> HasIdentity (no_identity\<lparr>ni_nodeKey := k, ni_discoKey := d\<rparr>)"
  by (simp add: HasIdentity_def IdentityKey_def no_identity_def)

section \<open>Sessions\<close>

definition adapted_client :: "server_client \<Rightarrow> string \<times> string" where
  "adapted_client c = (trim_space (vc_shortDisco c), case vc_endpoint c of None \<Rightarrow> [] | Some ap \<Rightarrow> show_addr_port ap)"

definition client_materials :: "server_client \<Rightarrow> string list" where
  "client_materials c =
     (case adapted_client c of (short, endpoint) \<Rightarrow>
        [stable_key short endpoint, stable_key short endpoint @ [nul] @ endpoint])"

text \<open>What is hashed for the ends of a session; the digest must tell these texts apart.\<close>

definition session_materials :: "server_session \<Rightarrow> string list" where
  "session_materials s =
     map (relay_material ''client'' (vs_vni s)) (client_materials (vs_client1 s) @ client_materials (vs_client2 s))"

definition separates :: "(string \<Rightarrow> string) \<Rightarrow> server_session \<Rightarrow> bool" where
  "separates digest s \<longleftrightarrow> inj_on digest (set (session_materials s))"

lemma relay_material_inj: "relay_material kind vni m = relay_material kind vni m' \<longleftrightarrow> m = m'"
  by (simp add: relay_material_def)

lemma adaptRelayClient_fields [simp]:
  "rq_discoShort (adaptRelayClient digest vni ids c) = fst (adapted_client c)"
  "rq_endpoint (adaptRelayClient digest vni ids c) = snd (adapted_client c)"
  "rq_sessionClientID (adaptRelayClient digest vni ids c) =
     scopedRelayID digest ''client'' vni (stable_key (fst (adapted_client c)) (snd (adapted_client c)))"
  by (simp_all add: adaptRelayClient_def adapted_client_def Let_def)

lemma endpoint_client_fields [simp]:
  "rq_endpoint (endpoint_client digest vni c) = rq_endpoint c" "rq_identity (endpoint_client digest vni c) = None"
  "rq_sessionClientID (endpoint_client digest vni c) =
     scopedRelayID digest ''client'' vni (relayClientStableKey c @ [nul] @ rq_endpoint c)"
  by (simp_all add: endpoint_client_def)

lemma adapted_client_ok: "relay_client_ok (adaptRelayClient digest vni (uniqueDiscoIdentities keys) c)"
  using uniqueDiscoIdentities_keyed
  by (auto simp: relay_client_ok_def scopedRelayID_not_blank adaptRelayClient_def Let_def HasIdentity_nodeKey)

lemma endpoint_client_ok: "relay_client_ok (endpoint_client digest vni c)"
  by (simp add: relay_client_ok_def scopedRelayID_not_blank)

text \<open>The two shapes of an adapted session.\<close>

lemma adaptRelaySession_cases:
  assumes "adaptRelaySession digest ids s = Some z"
  obtains (keys) a b where "{a, b} = {vs_client1 s, vs_client2 s}"
      "z = session_of digest (vs_vni s) [adaptRelayClient digest (vs_vni s) ids a, adaptRelayClient digest (vs_vni s) ids b]"
      "stable_key (fst (adapted_client a)) (snd (adapted_client a)) <
       stable_key (fst (adapted_client b)) (snd (adapted_client b))"
  | (endpoints) a b where "{a, b} = {vs_client1 s, vs_client2 s}"
      "z = session_of digest (vs_vni s) [endpoint_client digest (vs_vni s) (adaptRelayClient digest (vs_vni s) ids a),
             endpoint_client digest (vs_vni s) (adaptRelayClient digest (vs_vni s) ids b)]"
      "stable_key (fst (adapted_client a)) (snd (adapted_client a)) =
       stable_key (fst (adapted_client b)) (snd (adapted_client b))"
      "snd (adapted_client a) < snd (adapted_client b)"
proof -
  define e where "e c = snd (adapted_client c)" for c
  define k where "k c = stable_key (fst (adapted_client c)) (e c)" for c
  have key: "relayClientSortKey (adaptRelayClient digest v ids c) = k c" for v c
    by (simp add: relayClientSortKey_def relayClientStableKey_def k_def e_def)
  let ?c1 = "vs_client1 s" and ?c2 = "vs_client2 s"
  consider "k ?c1 < k ?c2" | "k ?c2 < k ?c1" | "k ?c1 = k ?c2" "e ?c1 < e ?c2" | "k ?c1 = k ?c2" "e ?c2 < e ?c1"
    | "k ?c1 = k ?c2" "e ?c1 = e ?c2"
    by (meson linorder_less_linear)
  then show ?thesis
  proof cases
    case 1
    then have "\<not> k ?c2 < k ?c1" "k ?c1 \<noteq> k ?c2" by auto
    then show ?thesis using assms keys [of ?c1 ?c2] 1 by (simp add: adaptRelaySession_def Let_def key k_def [symmetric] e_def [symmetric])
  next
    case 2
    then have "k ?c2 < k ?c1" "k ?c1 \<noteq> k ?c2" by auto
    then show ?thesis using assms keys [of ?c2 ?c1] 2
      by (simp add: adaptRelaySession_def Let_def key k_def [symmetric] e_def [symmetric] insert_commute)
  next
    case 3
    then have "\<not> e ?c2 < e ?c1" "e ?c1 \<noteq> e ?c2" by auto
    then show ?thesis using assms endpoints [of ?c1 ?c2] 3
      by (simp add: adaptRelaySession_def Let_def key k_def [symmetric] e_def [symmetric])
  next
    case 4
    then have "e ?c2 < e ?c1" "e ?c1 \<noteq> e ?c2" by auto
    then show ?thesis using assms endpoints [of ?c2 ?c1] 4
      by (simp add: adaptRelaySession_def Let_def key k_def [symmetric] e_def [symmetric] insert_commute)
  next
    case 5
    then show ?thesis using assms by (simp add: adaptRelaySession_def Let_def key e_def)
  qed
qed

text \<open>A session does not depend on which of its ends the daemon lists first.\<close>

lemma adaptRelaySession_swap:
  "adaptRelaySession digest ids (s\<lparr>vs_client1 := vs_client2 s, vs_client2 := vs_client1 s\<rparr>) = adaptRelaySession digest ids s"
proof -
  define k where "k c = relayClientSortKey (adaptRelayClient digest (vs_vni s) ids c)" for c
  define e where "e c = snd (adapted_client c)" for c
  have two: "sort_slice lt [a, b] = (if lt b a then [b, a] else [a, b])"
    for lt :: "relay_client_snapshot \<Rightarrow> relay_client_snapshot \<Rightarrow> bool" and a b by simp
  let ?c1 = "vs_client1 s" and ?c2 = "vs_client2 s"
  consider "k ?c1 < k ?c2" "\<not> k ?c2 < k ?c1" "k ?c1 \<noteq> k ?c2" | "k ?c2 < k ?c1" "\<not> k ?c1 < k ?c2" "k ?c2 \<noteq> k ?c1"
    | "k ?c1 = k ?c2" by (cases rule: linorder_cases [of "k ?c1" "k ?c2"]) auto
  then show ?thesis
  proof cases
    case 3
    consider "e ?c1 < e ?c2" "\<not> e ?c2 < e ?c1" "e ?c1 \<noteq> e ?c2" | "e ?c2 < e ?c1" "\<not> e ?c1 < e ?c2" "e ?c2 \<noteq> e ?c1"
      | "e ?c1 = e ?c2" by (cases rule: linorder_cases [of "e ?c1" "e ?c2"]) auto
    then show ?thesis
      using 3 by cases (simp_all add: adaptRelaySession_def Let_def two k_def [symmetric] e_def [symmetric])
  qed (simp_all add: adaptRelaySession_def Let_def two k_def [symmetric])
qed

section \<open>What the sink is given\<close>

lemma client_materials_set:
  "set (client_materials c) = {stable_key (fst (adapted_client c)) (snd (adapted_client c)),
     stable_key (fst (adapted_client c)) (snd (adapted_client c)) @ [nul] @ snd (adapted_client c)}"
  by (simp add: client_materials_def split_def)

lemma adapted_session:
  assumes "adaptRelaySession digest (uniqueDiscoIdentities keys) s = Some z" "separates digest s" "uint (vs_vni s) \<le> max_vni"
  shows "relay_session_ok z \<and> rq_sessionClientID (rz_source z) \<noteq> rq_sessionClientID (rz_target z) \<and> rz_vni z = uint (vs_vni s)"
proof -
  let ?m = "relay_material ''client'' (vs_vni s)"
  have apart: "digest (?m t) \<noteq> digest (?m u)"
    if "t \<noteq> u" "{t, u} \<subseteq> set (client_materials a) \<union> set (client_materials b)" "{a, b} = {vs_client1 s, vs_client2 s}" for t u a b
  proof -
    have "set (client_materials a) \<union> set (client_materials b) =
        set (client_materials (vs_client1 s)) \<union> set (client_materials (vs_client2 s))"
      using that(3) by (auto simp: doubleton_eq_iff)
    then have "{?m t, ?m u} \<subseteq> set (session_materials s)" using that(2) by (auto simp: session_materials_def)
    then show ?thesis
      using assms(2) that(1) unfolding separates_def
      by (metis insert_subset inj_on_contraD relay_material_inj)
  qed
  from assms(1) show ?thesis
  proof (cases rule: adaptRelaySession_cases)
    case (keys a b)
    then have "digest (?m (stable_key (fst (adapted_client a)) (snd (adapted_client a)))) \<noteq>
        digest (?m (stable_key (fst (adapted_client b)) (snd (adapted_client b))))"
      by (intro apart [OF _ _ keys(1)]) (auto simp: client_materials_set)
    then show ?thesis
      using assms(3) keys(2)
      by (simp add: session_of_def relay_session_ok_def scopedRelayID_not_blank adapted_client_ok scopedRelayID_eq)
  next
    case (endpoints a b)
    have k: "relayClientStableKey (adaptRelayClient digest (vs_vni s) ids c) = stable_key (fst (adapted_client c)) (snd (adapted_client c))"
      for ids c by (simp add: relayClientStableKey_def)
    have "digest (?m (stable_key (fst (adapted_client a)) (snd (adapted_client a)) @ [nul] @ snd (adapted_client a))) \<noteq>
        digest (?m (stable_key (fst (adapted_client b)) (snd (adapted_client b)) @ [nul] @ snd (adapted_client b)))"
      using endpoints(3,4) by (intro apart [OF _ _ endpoints(1)]) (auto simp: client_materials_set)
    then show ?thesis
      using assms(3) endpoints(2)
      by (simp add: session_of_def relay_session_ok_def scopedRelayID_not_blank endpoint_client_ok scopedRelayID_eq k)
  qed
qed

lemma relaySessionKey_vni: "relaySessionKey z = relaySessionKey z' \<Longrightarrow> rz_vni z = rz_vni z'"
proof -
  assume eq: "relaySessionKey z = relaySessionKey z'"
  have cut: "takeWhile (\<lambda>c. c \<noteq> CHR '':'') (relaySessionKey z) = show_int (rz_vni z)" for z
    using show_int_no_colon [of "rz_vni z"] by (auto simp: relaySessionKey_def takeWhile_append takeWhile_eq_all_conv)
  show ?thesis using cut [of z] cut [of z'] eq show_int_inj by metis
qed

lemma check_relay_sessions_ok:
  "\<forall>z \<in> set zs. relay_session_ok z \<Longrightarrow> distinct (map rz_vni zs) \<Longrightarrow>
     \<forall>z \<in> set zs. \<forall>z'. relaySessionKey z' \<in> seen \<longrightarrow> rz_vni z' \<noteq> rz_vni z \<Longrightarrow> check_relay_sessions i seen zs = None"
proof (induction zs arbitrary: i seen)
  case (Cons z zs)
  have client: "check_relay_client i j c = None" if "relay_client_ok c" for j c
    using that by (auto simp: relay_client_ok_def check_relay_client_def split: option.splits)
  have "relaySessionKey z \<notin> seen" using Cons.prems(3) by auto
  moreover have "check_relay_sessions (Suc i) (insert (relaySessionKey z) seen) zs = None"
  proof (rule Cons.IH)
    show "\<forall>y \<in> set zs. \<forall>z'. relaySessionKey z' \<in> insert (relaySessionKey z) seen \<longrightarrow> rz_vni z' \<noteq> rz_vni y"
    proof (intro ballI allI impI)
      fix y z' assume y: "y \<in> set zs" and z': "relaySessionKey z' \<in> insert (relaySessionKey z) seen"
      show "rz_vni z' \<noteq> rz_vni y"
      proof (cases "relaySessionKey z' = relaySessionKey z")
        case True
        then have "rz_vni z' = rz_vni z" by (rule relaySessionKey_vni)
        then show ?thesis using Cons.prems(2) y by (auto simp: image_iff)
      next
        case False
        then show ?thesis using Cons.prems(3) y z' by auto
      qed
    qed
  qed (use Cons.prems in auto)
  ultimately show ?case using Cons.prems(1) by (auto simp: relay_session_ok_def client)
qed simp

lemma adapted_vni: "adaptRelaySession digest ids s = Some z \<Longrightarrow> rz_vni z = uint (vs_vni s)"
  by (erule adaptRelaySession_cases) (simp_all add: session_of_def)

lemma adapted_vnis:
  "z \<in> set (List.map_filter (adaptRelaySession digest ids) ss) \<Longrightarrow> \<exists>s \<in> set ss. rz_vni z = uint (vs_vni s)"
proof -
  assume "z \<in> set (List.map_filter (adaptRelaySession digest ids) ss)"
  then obtain s where "s \<in> set ss" "adaptRelaySession digest ids s = Some z" by (auto simp: List.map_filter_def)
  then show ?thesis using adapted_vni by blast
qed

lemma adapted_distinct:
  "distinct (map vs_vni ss) \<Longrightarrow> distinct (map rz_vni (List.map_filter (adaptRelaySession digest ids) ss))"
proof (induction ss)
  case (Cons s ss)
  show ?case
  proof (cases "adaptRelaySession digest ids s")
    case (Some z)
    then have z: "rz_vni z = uint (vs_vni s)" by (rule adapted_vni)
    have "rz_vni y \<noteq> rz_vni z" if y: "y \<in> set (List.map_filter (adaptRelaySession digest ids) ss)" for y
    proof -
      obtain t where "t \<in> set ss" "rz_vni y = uint (vs_vni t)" using adapted_vnis [OF y] by blast
      moreover have "vs_vni t \<noteq> vs_vni s" using Cons.prems \<open>t \<in> set ss\<close> by (metis distinct.simps(2) imageI list.set_map list.simps(9))
      ultimately show ?thesis by (simp add: z word_uint_eq_iff)
    qed
    then have "rz_vni z \<notin> rz_vni ` set (List.map_filter (adaptRelaySession digest ids) ss)" by fastforce
    then show ?thesis using Cons Some by (simp add: List.map_filter_simps)
  qed (use Cons in \<open>simp add: List.map_filter_simps\<close>)
qed (simp add: List.map_filter_simps)

text \<open>C29: What the adapter makes of the daemon's relay sessions is what the sink and the server ask for: if the daemon lists
  every virtual network id once and none above 24 bits, and the digest tells the texts of the two ends of a session
  apart, then the sink takes the snapshot unchanged, every session has an id and two ends with different
  ids, and whatever identity an end has names a node. Sessions whose ends cannot be told apart are left out.\<close>

theorem relay_snapshot_accepted:
  assumes "PeerRelaySnapshot digest (Inr st) keys now = (snap, failed)" and "0 < now"
    and "distinct (map vs_vni (vt_sessions st))"
    and "\<And>s. s \<in> set (vt_sessions st) \<Longrightarrow> separates digest s \<and> uint (vs_vni s) \<le> max_vni"
  shows "\<not> failed \<and> relay_snapshot_ok snap \<and> validateRelaySnapshot snap fallback = Inr snap"
proof -
  define ks where "ks = fst (readPeerDiscoKeys keys)"
  define zs where "zs = adaptRelaySessions digest (vt_sessions st) ks"
  have "relay_session_ok z \<and> rq_sessionClientID (rz_source z) \<noteq> rq_sessionClientID (rz_target z)" if "z \<in> set zs" for z
    using that assms(4) adapted_session by (fastforce simp: zs_def adaptRelaySessions_def List.map_filter_def)
  moreover have "mset zs = mset (List.map_filter (adaptRelaySession digest (uniqueDiscoIdentities ks)) (vt_sessions st))"
    by (simp add: zs_def adaptRelaySessions_def)
  then have "distinct (map rz_vni zs)"
    using adapted_distinct [OF assms(3)] by (metis mset_eq_imp_distinct_iff mset_map)
  ultimately have ok: "check_relay_sessions 0 {} zs = None" "relay_snapshot_ok (relay_state now c e zs)" for c e
    using assms(2) by (auto simp: relay_snapshot_ok_def relay_state_def intro!: check_relay_sessions_ok)
  have none: "relay_snapshot_ok (relay_state now c e [])" for c e using assms(2) by (simp add: relay_snapshot_ok_def relay_state_def)
  have "snd (readPeerDiscoKeys keys) \<in> {RelayIdentityAvailable, RelayIdentityDegraded}"
    by (simp add: readPeerDiscoKeys_def split: sum.splits)
  then show ?thesis
    using assms(1,2) ok none
    by (auto simp: PeerRelaySnapshot_def validateRelaySnapshot_def relay_state_def zs_def ks_def split: if_splits prod.splits)
qed

text \<open>Two of the three keys of the daemon share a short name: that end of the first session keeps no identity.
  The ends of the second session cannot be told apart, and it is left out.\<close>

definition example_sessions :: "server_session list" where
  "example_sessions =
     [\<lparr>vs_vni = 7, vs_client1 = \<lparr>vc_shortDisco = ''b'', vc_endpoint = None, vc_packetsTx = 3, vc_bytesTx = 300\<rparr>,
        vs_client2 = \<lparr>vc_shortDisco = ''a'', vc_endpoint = None, vc_packetsTx = 2, vc_bytesTx = 200\<rparr>\<rparr>,
      \<lparr>vs_vni = 5, vs_client1 = \<lparr>vc_shortDisco = ''c'', vc_endpoint = None, vc_packetsTx = 1, vc_bytesTx = 100\<rparr>,
        vs_client2 = \<lparr>vc_shortDisco = ''c'', vc_endpoint = None, vc_packetsTx = 1, vc_bytesTx = 100\<rparr>\<rparr>]"

definition example_keys :: "disco_key list" where
  "example_keys =
     [\<lparr>dk_nodeKey = ''n1'', dk_disco = ''d1'', dk_short = ''a''\<rparr>, \<lparr>dk_nodeKey = ''n2'', dk_disco = ''d2'', dk_short = ''b''\<rparr>,
      \<lparr>dk_nodeKey = ''n3'', dk_disco = ''d3'', dk_short = ''b''\<rparr>]"

lemma example_sessions_separate: "s \<in> set example_sessions \<Longrightarrow> separates (\<lambda>m. m) s \<and> uint (vs_vni s) \<le> max_vni"
  by (auto simp: example_sessions_def separates_def max_vni_def)

definition example_relay_state :: relay_snapshot where
  "example_relay_state =
     fst (PeerRelaySnapshot (\<lambda>m. m) (Inr \<lparr>vt_udpPort = Some 7777, vt_sessions = example_sessions\<rparr>) (Inr example_keys) 9)"

lemma example_relay_state_read:
  "map (\<lambda>z. (rz_vni z, map_option ni_nodeKey (rq_identity (rz_source z)), map_option ni_nodeKey (rq_identity (rz_target z))))
     (rn_sessions example_relay_state) = [(7, Some ''n1'', None)]"
  by code_simp

text \<open>For these sessions the sink takes what the adapter gives it.\<close>

lemma relay_snapshot_accepted_witness:
  "relay_snapshot_ok example_relay_state \<and> validateRelaySnapshot example_relay_state 3 = Inr example_relay_state"
proof -
  let ?st = "\<lparr>vt_udpPort = Some 7777, vt_sessions = example_sessions\<rparr>"
  have "distinct (map vs_vni (vt_sessions ?st))" by (simp add: example_sessions_def)
  moreover have "PeerRelaySnapshot (\<lambda>m. m) (Inr ?st) (Inr example_keys) 9 =
      (example_relay_state, snd (PeerRelaySnapshot (\<lambda>m. m) (Inr ?st) (Inr example_keys) 9))"
    by (simp add: example_relay_state_def)
  ultimately show ?thesis
    using relay_snapshot_accepted [of "\<lambda>m. m" ?st "Inr example_keys" 9] example_sessions_separate by auto
qed

end
