(* ===== verification/App_Queries.thy ===== *)
theory App_Queries
  imports App Store_History
begin

text \<open>
  The rest of \<open>internal/app/app.go\<close>: the loop that maintains the store, and the history queries of the application,
  which are those of the store up to now.
\<close>

text \<open>The first run is at the start, the others at the ticks of a minute; what fails is logged and tried again.\<close>

definition RunMaintenance :: "(bool \<times> time) list \<Rightarrow> app_state \<Rightarrow> app_state" where
  "RunMaintenance runs ap = fold (\<lambda>(disk, now) ap. snd (MaintainApp disk now ap)) runs ap"

lemma RunMaintenance_keeps_state:
  "ap_aggregator (RunMaintenance runs ap) = ap_aggregator ap \<and> ap_lastCheckpoint (RunMaintenance runs ap) = ap_lastCheckpoint ap"
  unfolding RunMaintenance_def by (rule fold_inv) (auto simp: MaintainApp_def split: prod.splits)

definition AppEdgeHistory ::
  "(time \<Rightarrow> rat) \<Rightarrow> bool \<Rightarrow> duration \<Rightarrow> string \<Rightarrow> time \<Rightarrow> app_state \<Rightarrow> store_error + history_bucket list \<times> path_event_view list" where
  "AppEdgeHistory julianday disk retention edgeID now ap = EdgeHistory julianday disk edgeID (now - retention) (ap_database ap)"

definition AppHistoryNodes ::
  "bool \<Rightarrow> history_window \<Rightarrow> bool \<Rightarrow> time \<Rightarrow> app_state \<Rightarrow> history_error + node_reference list" where
  "AppHistoryNodes disk window includeSystem now ap = HistoryNodes disk window now includeSystem (ap_database ap)"

definition AppHistoryEdges ::
  "history_cursor cursors \<Rightarrow> (time \<Rightarrow> rat) \<Rightarrow> bool \<Rightarrow> edge_query \<Rightarrow> time \<Rightarrow> app_state \<Rightarrow> history_error + edge_page" where
  "AppHistoryEdges cu julianday disk q now ap = HistoryEdges cu julianday disk q now (ap_database ap)"

definition AppEdgeHistoryWindow ::
  "(time \<Rightarrow> rat) \<Rightarrow> bool \<Rightarrow> string \<Rightarrow> history_window \<Rightarrow> bool \<Rightarrow> time \<Rightarrow> app_state \<Rightarrow> history_error + edge_history option" where
  "AppEdgeHistoryWindow julianday disk edgeID window includeSystem now ap =
     EdgeHistoryWindow julianday disk edgeID window now includeSystem (ap_database ap)"

text \<open>The zero time asks for the pages up to now.\<close>

definition AppEdgePathHistoryWindow ::
  "path_event_cursor cursors \<Rightarrow> bool \<Rightarrow> string \<Rightarrow> history_window \<Rightarrow> time \<Rightarrow> string \<Rightarrow> int \<Rightarrow> bool \<Rightarrow> time \<Rightarrow> app_state \<Rightarrow>
   history_error + path_event_page option" where
  "AppEdgePathHistoryWindow cu disk edgeID window stop cursorValue limit includeSystem now ap =
     EdgePathHistoryWindow cu disk edgeID window (if stop = 0 then now else stop) cursorValue limit includeSystem
       (ap_database ap)"

end
