(* ===== verification/Http_Server.thy ===== *)
theory Http_Server
  imports App_Queries
begin

text \<open>
  The HTTP interface of the server (\<open>internal/httpapi/server.go\<close>): authorisation by the network
  identity of the remote address, routing, the reports, the topology, the device directory, the
  history queries and the files of the web application. A request is given by its method, its path
  split at the slashes (each part unescaped), the remote address, its body and the first value of every
  query parameter; an answer by its status and what is written as JSON. Headers and the \<open>detail\<close>
  texts of problems are left out.

  The decoding of a report (strict, with nothing after it), the cursors, SQLite's \<open>julianday\<close>, the
  authoriser and the files below the web directory are parameters.
\<close>

section \<open>Requests and answers\<close>

record http_request =
  wq_method :: string
  wq_path :: "string list"
  wq_remoteAddr :: string
  wq_body :: string
  wq_query :: "(string, string) gomap"
  wq_canceled :: bool

record devices_sync =
  ys_status :: directory_sync_status
  ys_lastAttemptAt :: "time option"
  ys_lastSuccessAt :: "time option"
  ys_nextRetryAt :: "time option"
  ys_errorCode :: directory_error_code
  ys_invalidAddressCount :: int

record devices_runtime =
  yr_dnsName :: string
  yr_hostname :: string
  yr_platform :: string
  yr_tailscaleIPs :: "string list"
  yr_observable :: bool
  yr_online :: bool
  yr_lastEvidenceAt :: time
  yr_collectedAt :: time

record devices_node =
  yn_id :: string
  yn_stableNodeID :: string
  yn_dnsName :: string
  yn_hostname :: string
  yn_platform :: string
  yn_tailscaleIPs :: "string list"
  yn_tags :: "string list"
  yn_connected :: bool
  yn_lastSeen :: "time option"
  yn_collectedAt :: time
  yn_runtime :: "devices_runtime option"
  yn_identityStatus :: identity_status
  yn_conflicts :: "metadata_conflict list"

record devices_response =
  yd_sync :: devices_sync
  yd_devices :: "devices_node list"

datatype response_body =
    ProblemBody string | CapabilitiesBody server_capabilities | ReceiptBody report_receipt | TopologyBody topology
  | DevicesBody devices_response | NodesBody "node_reference list" | EdgesBody edge_page
  | EdgeHistoryBody edge_history | PathPageBody path_event_page | HealthBody | FixtureBody
  | FileBody "string list" | RedirectBody "string list" | EventStreamBody | NoBody

datatype http_answer = Answer (answer_status: int) (answer_body: response_body)

text \<open>A fixture operation is a test hook: it may do anything to the application.\<close>

record http_config =
  wc_aggregator :: agg_config
  wc_codec :: codec
  wc_authorizer :: "(string \<Rightarrow> string + string) option"
  wc_deviceDirectory :: bool
  wc_decodeReport :: "string \<Rightarrow> report_envelope option"
  wc_edgeCursors :: "history_cursor cursors"
  wc_pathCursors :: "path_event_cursor cursors"
  wc_julianday :: "time \<Rightarrow> rat"
  wc_fixtureMutation :: "(app_state \<Rightarrow> bool \<times> app_state) option"
  wc_fixtureLifecycle :: "(app_state \<Rightarrow> bool \<times> app_state) option"
  wc_webDir :: "string list option"
  wc_isFile :: "string list \<Rightarrow> bool"

text \<open>What a request meets: whether the database works, and the clock when the handler reads it.\<close>

record http_moment =
  wm_disk :: bool
  wm_now :: time

definition query_value :: "http_request \<Rightarrow> string \<Rightarrow> string" where
  "query_value req key = str_at (wq_query req) key"

definition problem :: "int \<Rightarrow> string \<Rightarrow> http_answer" where
  "problem status title = Answer status (ProblemBody title)"

section \<open>Reports\<close>

definition max_report_bytes :: nat where
  "max_report_bytes = 2 * 1024 * 1024"

definition decode_report :: "http_config \<Rightarrow> string \<Rightarrow> report_envelope option" where
  "decode_report wc body = (if length body > max_report_bytes then None else wc_decodeReport wc body)"

definition submitReport ::
  "http_config \<Rightarrow> http_moment \<Rightarrow> http_request \<Rightarrow> app_state \<Rightarrow> (http_answer \<times> app_state) option" where
  "submitReport wc m req ap =
     (case decode_report wc (wq_body req) of
        None \<Rightarrow> Some (problem 400 ''invalid report'', ap)
      | Some report \<Rightarrow>
          (case SubmitAt (wc_aggregator wc) (wc_codec wc) (wm_disk m) report (wm_now m) (wm_now m) ap of
             None \<Rightarrow> None
           | Some (Inl e, ap') \<Rightarrow>
               Some (if ValidateReport report \<noteq> None then problem 400 ''invalid report''
                     else problem 500 ''report ingest failed'', ap')
           | Some (Inr answered, ap') \<Rightarrow> Some (Answer 202 (ReceiptBody answered), ap')))"

section \<open>Capabilities, topology and devices\<close>

definition getCapabilities :: "http_config \<Rightarrow> http_answer" where
  "getCapabilities wc =
     (let c = CurrentServerCapabilities
      in Answer 200 (CapabilitiesBody
           (if wc_deviceDirectory wc then c\<lparr>cap_features := cap_features c @ [FeatureDeviceDirectory]\<rparr> else c)))"

definition getTopology :: "http_config \<Rightarrow> http_moment \<Rightarrow> app_state \<Rightarrow> http_answer" where
  "getTopology wc m ap = Answer 200 (TopologyBody (snapshot (wc_aggregator wc) (wm_now m) (ap_aggregator ap)))"

definition devices_runtime_of :: "directory_runtime_evidence \<Rightarrow> devices_runtime" where
  "devices_runtime_of r =
     \<lparr>yr_dnsName = ni_dnsName (dr_identity r), yr_hostname = ni_hostname (dr_identity r),
      yr_platform = ni_os (dr_identity r), yr_tailscaleIPs = ni_tailscaleIPs (dr_identity r),
      yr_observable = dr_observable r, yr_online = dr_online r, yr_lastEvidenceAt = dr_lastEvidenceAt r,
      yr_collectedAt = dr_collectedAt r\<rparr>"

definition devices_node_of :: "directory_node \<Rightarrow> devices_node" where
  "devices_node_of e =
     (let d = dn_device e
      in \<lparr>yn_id = dn_id e, yn_stableNodeID = dd_stableNodeID d, yn_dnsName = dd_dnsName d,
          yn_hostname = dd_hostname d, yn_platform = dd_os d, yn_tailscaleIPs = dd_tailscaleIPs d,
          yn_tags = dd_tags d, yn_connected = dd_connected d, yn_lastSeen = dd_lastSeen d,
          yn_collectedAt = dn_collectedAt e, yn_runtime = map_option devices_runtime_of (dn_runtime e),
          yn_identityStatus = dn_identityStatus e, yn_conflicts = dn_conflicts e\<rparr>)"

definition getDevices :: "http_config \<Rightarrow> http_moment \<Rightarrow> app_state \<Rightarrow> http_answer" where
  "getDevices wc m ap =
     (let directory = DeviceDirectory (wc_aggregator wc) (wm_now m) (ap_aggregator ap); sync = dv_sync directory
      in Answer 200 (DevicesBody
           \<lparr>yd_sync = \<lparr>ys_status = ds_status sync, ys_lastAttemptAt = ds_lastAttemptAt sync,
                      ys_lastSuccessAt = ds_lastSuccessAt sync, ys_nextRetryAt = ds_nextRetryAt sync,
                      ys_errorCode = ds_errorCode sync, ys_invalidAddressCount = ds_invalidAddressCount sync\<rparr>,
            yd_devices = map devices_node_of (dv_devices directory)\<rparr>))"

section \<open>Query parameters\<close>

definition history_window_of :: "string \<Rightarrow> history_window" where
  "history_window_of v =
     (if v = ''15m'' then History15Minutes else if v = ''1h'' then History1Hour
      else if v = ''6h'' then History6Hours else if v = ''24h'' then History24Hours
      else if v = ''7d'' then History7Days else OtherHistoryWindow v)"

definition path_kind_of :: "string \<Rightarrow> path_kind" where
  "path_kind_of v =
     (if v = ''direct'' then PathDirect else if v = ''derp'' then PathDERP
      else if v = ''peer_relay'' then PathPeerRelay else if v = ''unknown'' then PathUnknown
      else if v = [] then NoPathKind else OtherPathKind v)"

definition validPathKind :: "path_kind \<Rightarrow> bool" where
  "validPathKind path \<longleftrightarrow> path \<in> {PathDirect, PathDERP, PathPeerRelay, PathUnknown}"

definition parseHistoryWindow :: "http_request \<Rightarrow> http_answer + history_window" where
  "parseHistoryWindow req =
     (let window = history_window_of (query_value req ''window'')
      in if WindowValid window then Inr window else Inl (problem 400 ''invalid history window''))"

definition parseIncludeSystemTelemetry :: "http_request \<Rightarrow> http_answer + bool" where
  "parseIncludeSystemTelemetry req =
     (let v = query_value req ''includeSystemTelemetry''
      in if v = [] \<or> v = ''false'' then Inr False
         else if v = ''true'' then Inr True
         else Inl (problem 400 ''invalid system telemetry option''))"

text \<open>\<open>strconv.Atoi\<close>: an optional sign and decimal digits, in the range of \<open>int64\<close>.\<close>

definition atoi :: "string \<Rightarrow> int option" where
  "atoi s =
     (let digits = (if s \<noteq> [] \<and> (hd s = CHR ''+'' \<or> hd s = CHR ''-'') then tl s else s);
          sign = (if s \<noteq> [] \<and> hd s = CHR ''-'' then - 1 else 1)
      in if digits = [] then None
         else case number digits of
           None \<Rightarrow> None
         | Some n \<Rightarrow> if - 9223372036854775808 \<le> sign * n \<and> sign * n \<le> 9223372036854775807 then Some (sign * n) else None)"

definition parse_limit :: "http_request \<Rightarrow> int \<Rightarrow> int \<Rightarrow> string \<Rightarrow> http_answer + int" where
  "parse_limit req usual maximum title =
     (let raw = query_value req ''limit''
      in if raw = [] then Inr usual
         else case atoi raw of
           None \<Rightarrow> Inl (problem 400 title)
         | Some n \<Rightarrow> if n < 1 \<or> n > maximum then Inl (problem 400 title) else Inr n)"

section \<open>History\<close>

text \<open>A query of a request that was given up is not answered; its database error is that of the cancellation.\<close>

definition historyRequestCanceled :: "http_request \<Rightarrow> history_error \<Rightarrow> bool" where
  "historyRequestCanceled req e \<longleftrightarrow> wq_canceled req \<and> (case e of HistoryDatabase _ \<Rightarrow> True | _ \<Rightarrow> False)"

definition query_failed :: "http_request \<Rightarrow> history_error \<Rightarrow> http_answer" where
  "query_failed req e =
     (if historyRequestCanceled req e then Answer 200 NoBody else problem 500 ''history query failed'')"

text \<open>The two parameters every history query has.\<close>

definition with_window ::
  "http_request \<Rightarrow> (history_window \<Rightarrow> bool \<Rightarrow> http_answer) \<Rightarrow> http_answer" where
  "with_window req k =
     (case parseHistoryWindow req of
        Inl a \<Rightarrow> a
      | Inr window \<Rightarrow>
          (case parseIncludeSystemTelemetry req of Inl a \<Rightarrow> a | Inr includeSystem \<Rightarrow> k window includeSystem))"

definition getHistoryNodes :: "http_config \<Rightarrow> http_moment \<Rightarrow> http_request \<Rightarrow> app_state \<Rightarrow> http_answer" where
  "getHistoryNodes wc m req ap =
     with_window req (\<lambda>window includeSystem.
       case AppHistoryNodes (wm_disk m) window includeSystem (wm_now m) ap of
         Inl e \<Rightarrow> query_failed req e
       | Inr nodes \<Rightarrow> Answer 200 (NodesBody nodes))"

definition listHistoryEdges :: "http_config \<Rightarrow> http_moment \<Rightarrow> http_request \<Rightarrow> app_state \<Rightarrow> http_answer" where
  "listHistoryEdges wc m req ap =
     with_window req (\<lambda>window includeSystem.
       let path = path_kind_of (query_value req ''path'')
       in if path \<noteq> NoPathKind \<and> \<not> validPathKind path then problem 400 ''invalid history path''
          else case parse_limit req 50 100 ''invalid history limit'' of
            Inl a \<Rightarrow> a
          | Inr limit \<Rightarrow>
              (case AppHistoryEdges (wc_edgeCursors wc) (wc_julianday wc) (wm_disk m)
                      \<lparr>hq_window = window, hq_nodeID = query_value req ''nodeId'', hq_path = path,
                       hq_cursor = query_value req ''cursor'', hq_limit = limit,
                       hq_includeSystemTelemetry = includeSystem\<rparr> (wm_now m) ap of
                 Inl InvalidHistoryCursor \<Rightarrow> problem 400 ''invalid history cursor''
               | Inl e \<Rightarrow> query_failed req e
               | Inr page \<Rightarrow> Answer 200 (EdgesBody page)))"

definition getEdgeHistory :: "http_config \<Rightarrow> http_moment \<Rightarrow> string \<Rightarrow> http_request \<Rightarrow> app_state \<Rightarrow> http_answer" where
  "getEdgeHistory wc m edgeID req ap =
     (if edgeID = [] then problem 400 ''edge ID is required''
      else with_window req (\<lambda>window includeSystem.
        case AppEdgeHistoryWindow (wc_julianday wc) (wm_disk m) edgeID window includeSystem (wm_now m) ap of
          Inl e \<Rightarrow> query_failed req e
        | Inr None \<Rightarrow> problem 404 ''edge history not found''
        | Inr (Some history) \<Rightarrow> Answer 200 (EdgeHistoryBody history)))"

definition window_end :: "http_moment \<Rightarrow> http_request \<Rightarrow> http_answer + time" where
  "window_end m req =
     (let raw = query_value req ''to''
      in if raw = [] then Inr (wm_now m)
         else case parse_zoned raw of None \<Rightarrow> Inl (problem 400 ''invalid history window end'') | Some t \<Rightarrow> Inr t)"

definition getEdgePathHistory ::
  "http_config \<Rightarrow> http_moment \<Rightarrow> string \<Rightarrow> http_request \<Rightarrow> app_state \<Rightarrow> http_answer" where
  "getEdgePathHistory wc m edgeID req ap =
     (if edgeID = [] then problem 400 ''edge ID is required''
      else with_window req (\<lambda>window includeSystem.
        case window_end m req of
          Inl a \<Rightarrow> a
        | Inr stop \<Rightarrow>
            (case parse_limit req 500 500 ''invalid path history limit'' of
               Inl a \<Rightarrow> a
             | Inr limit \<Rightarrow>
                 (case AppEdgePathHistoryWindow (wc_pathCursors wc) (wm_disk m) edgeID window stop (query_value req ''cursor'')
                         limit includeSystem (wm_now m) ap of
                    Inl InvalidHistoryCursor \<Rightarrow> problem 400 ''invalid history cursor''
                  | Inl e \<Rightarrow> query_failed req e
                  | Inr None \<Rightarrow> problem 404 ''edge history not found''
                  | Inr (Some page) \<Rightarrow> Answer 200 (PathPageBody page)))))"

section \<open>The web application\<close>

text \<open>\<open>filepath.Clean\<close> of a rooted path: \<open>..\<close> never leaves the root.\<close>

definition clean_step :: "string \<Rightarrow> string list \<Rightarrow> string list" where
  "clean_step part path =
     (if part = [] \<or> part = ''.'' then path else if part = ''..'' then butlast path else path @ [part])"

definition clean_rooted :: "string list \<Rightarrow> string list" where
  "clean_rooted parts = fold clean_step parts []"

text \<open>The parts of a path text; the unescaped parts of a request path can hold slashes.\<close>

fun split_slashes :: "string \<Rightarrow> string list" where
  "split_slashes [] = [[]]"
| "split_slashes (c # s) =
     (if c = CHR ''/'' then [] # split_slashes s
      else case split_slashes s of [] \<Rightarrow> [[c]] | p # ps \<Rightarrow> (c # p) # ps)"

text \<open>\<open>filepath.Rel\<close> of two clean absolute paths.\<close>

fun relative_path :: "string list \<Rightarrow> string list \<Rightarrow> string list" where
  "relative_path (b # base) (t # target) =
     (if b = t then relative_path base target else replicate (Suc (length base)) ''..'' @ t # target)"
| "relative_path base target = replicate (length base) ''..'' @ target"

definition withinDir :: "string list \<Rightarrow> string list \<Rightarrow> bool" where
  "withinDir base target \<longleftrightarrow> (case relative_path base target of [] \<Rightarrow> True | p # _ \<Rightarrow> p \<noteq> ''..'')"

text \<open>
  \<open>http.ServeFile\<close> refuses paths with \<open>..\<close> between slashes or backslashes, and redirects from \<open>index.html\<close> to its
  directory. A file of the web directory is named by the parts of its path.
\<close>

definition dot_dot :: "string \<Rightarrow> bool" where
  "dot_dot path \<longleftrightarrow> ''..'' \<in> set (split_slashes (map (\<lambda>c. if c = CHR 0x5C then CHR ''/'' else c) path))"

definition serveFile :: "http_config \<Rightarrow> string list \<Rightarrow> string list \<Rightarrow> http_answer" where
  "serveFile wc parts fullPath =
     (if list_ex dot_dot parts then Answer 400 NoBody
      else if last parts = ''index.html'' then Answer 301 (RedirectBody (butlast parts @ [[]]))
      else if \<not> wc_isFile wc fullPath then Answer 404 NoBody
      else Answer 200 (FileBody fullPath))"

definition serveWeb :: "http_config \<Rightarrow> http_request \<Rightarrow> http_answer" where
  "serveWeb wc req =
     (case wc_webDir wc of
        None \<Rightarrow> problem 404 ''web application is not configured''
      | Some webDir \<Rightarrow>
          (let parts = concat (map split_slashes (wq_path req));
               path = clean_rooted parts;
               fullPath = webDir @ (if path = [] then [''index.html''] else path)
           in if \<not> withinDir webDir fullPath then Answer 404 NoBody
              else serveFile wc parts (if wc_isFile wc fullPath then fullPath else webDir @ [''index.html''])))"

section \<open>Routing\<close>

datatype http_route =
    CapabilitiesRoute | ReportsRoute | TopologyRoute | DevicesRoute | EventsRoute | HistoryNodesRoute
  | HistoryEdgesRoute | EdgeHistoryRoute string | EdgePathsRoute string | FixtureMutationRoute
  | FixtureLifecycleRoute | HealthRoute | WebRoute

text \<open>A \<open>GET\<close> pattern of \<open>http.ServeMux\<close> matches \<open>HEAD\<close> too; what no pattern matches goes to \<open>/\<close>.\<close>

definition api_route :: "http_config \<Rightarrow> bool \<Rightarrow> bool \<Rightarrow> string list \<Rightarrow> http_route" where
  "api_route wc reading posting parts =
     (if reading \<and> parts = [''capabilities''] then CapabilitiesRoute
      else if posting \<and> parts = [''reports''] then ReportsRoute
      else if reading \<and> parts = [''topology''] then TopologyRoute
      else if reading \<and> parts = [''devices''] then DevicesRoute
      else if reading \<and> parts = [''events''] then EventsRoute
      else if reading \<and> parts = [''history'', ''nodes''] then HistoryNodesRoute
      else if reading \<and> parts = [''history'', ''edges''] then HistoryEdgesRoute
      else if posting \<and> wc_fixtureMutation wc \<noteq> None \<and> parts = [''fixture'', ''edge-update''] then FixtureMutationRoute
      else if posting \<and> wc_fixtureLifecycle wc \<noteq> None \<and> parts = [''fixture'', ''observer-lifecycle'']
      then FixtureLifecycleRoute
      else case parts of
        [h, e, edgeID] \<Rightarrow>
          if reading \<and> h = ''history'' \<and> e = ''edges'' \<and> edgeID \<noteq> [] then EdgeHistoryRoute edgeID else WebRoute
      | [h, e, edgeID, p] \<Rightarrow>
          if reading \<and> h = ''history'' \<and> e = ''edges'' \<and> edgeID \<noteq> [] \<and> p = ''paths'' then EdgePathsRoute edgeID
          else WebRoute
      | _ \<Rightarrow> WebRoute)"

definition route :: "http_config \<Rightarrow> string \<Rightarrow> string list \<Rightarrow> http_route" where
  "route wc method path =
     (let reading = method = ''GET'' \<or> method = ''HEAD''; posting = method = ''POST''
      in if reading \<and> path = [''healthz''] then HealthRoute
         else case path of
           a # v # parts \<Rightarrow> if a = ''api'' \<and> v = ''v1'' then api_route wc reading posting parts else WebRoute
         | _ \<Rightarrow> WebRoute)"

definition run_fixture ::
  "(app_state \<Rightarrow> bool \<times> app_state) option \<Rightarrow> string \<Rightarrow> app_state \<Rightarrow> http_answer \<times> app_state" where
  "run_fixture hook title ap =
     (case hook of
        None \<Rightarrow> (problem 500 title, ap)
      | Some f \<Rightarrow> (case f ap of (ok, ap') \<Rightarrow> (if ok then Answer 202 FixtureBody else problem 500 title, ap')))"

definition handle :: "http_config \<Rightarrow> http_moment \<Rightarrow> http_request \<Rightarrow> app_state \<Rightarrow> (http_answer \<times> app_state) option" where
  "handle wc m req ap =
     (case route wc (wq_method req) (wq_path req) of
        CapabilitiesRoute \<Rightarrow> Some (getCapabilities wc, ap)
      | ReportsRoute \<Rightarrow> submitReport wc m req ap
      | TopologyRoute \<Rightarrow> Some (getTopology wc m ap, ap)
      | DevicesRoute \<Rightarrow> Some (getDevices wc m ap, ap)
      | EventsRoute \<Rightarrow> Some (Answer 200 EventStreamBody, ap)
      | HistoryNodesRoute \<Rightarrow> Some (getHistoryNodes wc m req ap, ap)
      | HistoryEdgesRoute \<Rightarrow> Some (listHistoryEdges wc m req ap, ap)
      | EdgeHistoryRoute edgeID \<Rightarrow> Some (getEdgeHistory wc m edgeID req ap, ap)
      | EdgePathsRoute edgeID \<Rightarrow> Some (getEdgePathHistory wc m edgeID req ap, ap)
      | FixtureMutationRoute \<Rightarrow> Some (run_fixture (wc_fixtureMutation wc) ''fixture mutation failed'' ap)
      | FixtureLifecycleRoute \<Rightarrow> Some (run_fixture (wc_fixtureLifecycle wc) ''fixture lifecycle failed'' ap)
      | HealthRoute \<Rightarrow> Some (Answer 200 HealthBody, ap)
      | WebRoute \<Rightarrow> Some (serveWeb wc req, ap))"

text \<open>
  \<open>ServeMux\<close> answers a path with empty parts or dots with a redirect to its clean form; the last part
  may be empty. (It looks at the escaped path: a dot written as an escape, which the model redirects too,
  goes on to the routes, none of which it matches.)
\<close>

definition clean_path :: "string list \<Rightarrow> bool" where
  "clean_path path \<longleftrightarrow>
     path \<noteq> [] \<and> list_all (\<lambda>p. p \<notin> {[], ''.'', ''..''}) (butlast path) \<and> last path \<notin> {''.'', ''..''}"

definition dispatch :: "http_config \<Rightarrow> http_moment \<Rightarrow> http_request \<Rightarrow> app_state \<Rightarrow> (http_answer \<times> app_state) option" where
  "dispatch wc m req ap =
     (if wq_method req \<noteq> ''CONNECT'' \<and> \<not> clean_path (wq_path req)
      then Some (Answer 301 (RedirectBody (clean_rooted (wq_path req))), ap)
      else handle wc m req ap)"

section \<open>Authorisation\<close>

definition request_path :: "http_request \<Rightarrow> string" where
  "request_path req = concat (map (\<lambda>p. CHR ''/'' # p) (wq_path req))"

definition authorizeAPI :: "http_config \<Rightarrow> http_moment \<Rightarrow> http_request \<Rightarrow> app_state \<Rightarrow> (http_answer \<times> app_state) option" where
  "authorizeAPI wc m req ap =
     (if \<not> has_prefix (request_path req) ''/api/v1/'' then dispatch wc m req ap
      else case wc_authorizer wc of
        None \<Rightarrow> Some (problem 401 ''Tailnet identity is required'', ap)
      | Some authorize \<Rightarrow>
          (case authorize (wq_remoteAddr req) of
             Inl _ \<Rightarrow> Some (problem 401 ''Tailnet identity is required'', ap)
           | Inr _ \<Rightarrow> dispatch wc m req ap))"

text \<open>\<open>Authorizer.Authorize\<close> of \<open>tailscaleadapter\<close> asks the local daemon; the stable id may be missing.\<close>

definition Authorize :: "(string \<Rightarrow> string + string option) \<Rightarrow> string \<Rightarrow> string + string" where
  "Authorize whoIs remoteAddr =
     (case whoIs remoteAddr of
        Inl e \<Rightarrow> Inl e
      | Inr None \<Rightarrow> Inl ''WhoIs response does not include a stable node identity''
      | Inr (Some stableID) \<Rightarrow>
          if stableID = [] then Inl ''WhoIs response does not include a stable node identity'' else Inr stableID)"

end
