(* ===== verification/Http_Reporter.thy ===== *)
theory Http_Reporter
  imports Http_Server Sink_Contract
begin

text \<open>
  The reporter of an exporter over HTTP (\<open>exporter/http_reporter.go\<close>) and the server as the far end of
  its requests. One exchange is a parameter: it gives the status and the body of the answer, or the error of a
  request that got none. \<open>app_exchange\<close> is the exchange with the server of this repository: every request
  meets a network that may lose it, and a moment of the server.
\<close>

section \<open>The reporter\<close>

text \<open>The JSON of both sides.\<close>

record http_codec =
  xc_writeReport :: "report_envelope \<Rightarrow> string"
  xc_writeBody :: "response_body \<Rightarrow> string"
  xc_readReceipt :: "string \<Rightarrow> report_receipt option"
  xc_readCapabilities :: "string \<Rightarrow> server_capabilities option"

type_synonym 'w exchange = "http_request \<Rightarrow> 'w \<Rightarrow> (send_error + int \<times> string) \<times> 'w"

datatype reporter_error = ServerURLInvalid | ServerURLScheme | ServerURLHost

text \<open>\<open>parsed\<close> is what \<open>url.Parse\<close> gives: scheme and host. The result is the two addresses that are asked.\<close>

definition NewHTTPReporter :: "(string \<times> string) option \<Rightarrow> string \<Rightarrow> reporter_error + string \<times> string" where
  "NewHTTPReporter parsed serverURL =
     (case parsed of
        None \<Rightarrow> Inl ServerURLInvalid
      | Some (scheme, host) \<Rightarrow>
          if scheme \<noteq> ''http'' \<and> scheme \<noteq> ''https'' then Inl ServerURLScheme
          else if host = [] then Inl ServerURLHost
          else Inr (trim_suffix serverURL ''/'' @ ''/api/v1/reports'', trim_suffix serverURL ''/'' @ ''/api/v1/capabilities''))"

definition max_response_bytes :: nat where
  "max_response_bytes = 64 * 1024"

definition api_request :: "string \<Rightarrow> string \<Rightarrow> string \<Rightarrow> string \<Rightarrow> http_request" where
  "api_request addr method endpoint body =
     \<lparr>wq_method = method, wq_path = [''api'', ''v1'', endpoint], wq_remoteAddr = addr, wq_body = body,
      wq_query = [], wq_canceled = False\<rparr>"

definition ReporterCapabilities ::
  "http_codec \<Rightarrow> string \<Rightarrow> 'w exchange \<Rightarrow> 'w \<Rightarrow> (send_error + server_capabilities) \<times> 'w" where
  "ReporterCapabilities hc addr exchange w =
     (case exchange (api_request addr ''GET'' ''capabilities'' []) w of
        (Inl e, w') \<Rightarrow> (Inl e, w')
      | (Inr (status, body), w') \<Rightarrow>
          (if status = 404 then Inl (IncompatibleServer ''capability endpoint is unavailable'')
           else if status \<noteq> 200 then Inl (HTTPStatus status)
           else case xc_readCapabilities hc (take max_response_bytes body) of
             None \<Rightarrow> Inl (IncompatibleServer ''invalid capability response'')
           | Some c \<Rightarrow> Inr c, w'))"

definition RequireCapabilities ::
  "http_codec \<Rightarrow> string \<Rightarrow> 'w exchange \<Rightarrow> string list \<Rightarrow> 'w \<Rightarrow> send_error option \<times> 'w" where
  "RequireCapabilities hc addr exchange features w =
     (case ReporterCapabilities hc addr exchange w of
        (Inl e, w') \<Rightarrow> (Some e, w')
      | (Inr c, w') \<Rightarrow>
          (if \<not> SupportsProtocol c ProtocolVersion then Some (IncompatibleServer ''protocol'')
           else first_error (\<lambda>f. if SupportsFeature c f then None else Some (IncompatibleServer f)) features, w'))"

definition ReporterSend ::
  "http_codec \<Rightarrow> string \<Rightarrow> 'w exchange \<Rightarrow> report_envelope \<Rightarrow> 'w \<Rightarrow> (send_error + report_receipt) \<times> 'w" where
  "ReporterSend hc addr exchange report w =
     (case exchange (api_request addr ''POST'' ''reports'' (xc_writeReport hc report)) w of
        (Inl e, w') \<Rightarrow> (Inl e, w')
      | (Inr (status, body), w') \<Rightarrow>
          (if status \<noteq> 202 then Inl (HTTPStatus status)
           else case xc_readReceipt hc (take max_response_bytes body) of
             None \<Rightarrow> Inl (SendFailed ''decode receipt'')
           | Some rcpt \<Rightarrow> Inr rcpt, w'))"

definition http_reporter :: "http_codec \<Rightarrow> string \<Rightarrow> 'w exchange \<Rightarrow> 'w reporter" where
  "http_reporter hc addr exchange =
     \<lparr>rp_capabilities = ReporterCapabilities hc addr exchange, rp_send = ReporterSend hc addr exchange\<rparr>"

section \<open>The server at the other end\<close>

text \<open>\<open>None\<close> is a request the network loses; a handler that panics closes the connection.\<close>

record http_world =
  hw_app :: app_state
  hw_moments :: "http_moment option list"

definition app_exchange :: "http_config \<Rightarrow> http_codec \<Rightarrow> http_world exchange" where
  "app_exchange wc hc req w =
     (case hw_moments w of
        Some m # moments \<Rightarrow>
          (case authorizeAPI wc m req (hw_app w) of
             None \<Rightarrow> (Inl (SendFailed ''connection closed''), w\<lparr>hw_moments := moments\<rparr>)
           | Some (answer, ap) \<Rightarrow>
               (Inr (answer_status answer, xc_writeBody hc (answer_body answer)), \<lparr>hw_app = ap, hw_moments = moments\<rparr>))
      | None # moments \<Rightarrow> (Inl (SendFailed ''connection refused''), w\<lparr>hw_moments := moments\<rparr>)
      | [] \<Rightarrow> (Inl (SendFailed ''connection refused''), w))"

end
