(* ===== verification/Http_Facts.thy ===== *)
theory Http_Facts
  imports Http_Server App_Recovery Agg_Reports
begin

text \<open>
  What the HTTP interface guarantees: the state changes only by an accepted report of an authorised
  sender, nothing of it is shown to others, and no path leads out of the web directory.
\<close>

section \<open>Submitting\<close>

lemma SubmitAt_invalid:
  "SubmitAt cfg cd disk report t now ap = Some (Inl e, ap') \<Longrightarrow>
     (ValidateReport report \<noteq> None \<longleftrightarrow> (\<exists>err. e = InvalidReport err))"
  by (auto simp: SubmitAt_def ApplyAt_def Let_def split: option.splits if_splits prod.splits sum.splits)

lemma SubmitAt_valid: "SubmitAt cfg cd disk report t now ap = Some (Inr r, ap') \<Longrightarrow> ValidateReport report = None"
  by (auto simp: SubmitAt_def ApplyAt_def split: option.splits)

lemma submitReport_cases:
  assumes "submitReport wc m req ap = Some (answer, ap')"
  obtains (undecoded) "decode_report wc (wq_body req) = None" "answer = problem 400 ''invalid report''" "ap' = ap"
  | (invalid) report where "decode_report wc (wq_body req) = Some report" "ValidateReport report \<noteq> None"
      "answer = problem 400 ''invalid report''" "ap' = ap"
  | (failed) report where "decode_report wc (wq_body req) = Some report" "ValidateReport report = None"
      "answer = problem 500 ''report ingest failed''" "ap' = ap"
  | (taken) report answered where "decode_report wc (wq_body req) = Some report" "ValidateReport report = None"
      "answer = Answer 202 (ReceiptBody answered)"
      "SubmitAt (wc_aggregator wc) (wc_codec wc) (wm_disk m) report (wm_now m) (wm_now m) ap = Some (Inr answered, ap')"
proof (cases "decode_report wc (wq_body req)")
  case None
  then show ?thesis using assms undecoded by (simp add: submitReport_def)
next
  case (Some report)
  then obtain r where r: "SubmitAt (wc_aggregator wc) (wc_codec wc) (wm_disk m) report (wm_now m) (wm_now m) ap = Some (r, ap')"
    using assms by (auto simp: submitReport_def split: option.splits sum.splits)
  show ?thesis
  proof (cases r)
    case (Inl e)
    then have "ap' = ap" using r failed_submit by blast
    then show ?thesis using assms Some r Inl invalid failed by (auto simp: submitReport_def split: if_splits)
  next
    case (Inr answered)
    have "ValidateReport report = None" by (rule SubmitAt_valid [OF r [unfolded Inr]])
    then show ?thesis using taken [OF Some, of answered] assms Some r Inr by (simp add: submitReport_def)
  qed
qed

section \<open>Routes\<close>

definition api_path :: "string list \<Rightarrow> bool" where
  "api_path path \<longleftrightarrow> (\<exists>parts. path = ''api'' # ''v1'' # parts \<and> parts \<noteq> [])"

lemma api_path_prefix: "api_path (wq_path req) \<Longrightarrow> has_prefix (request_path req) ''/api/v1/''"
  by (auto simp: api_path_def request_path_def has_prefix_def neq_Nil_conv)

lemma route_public: "\<not> api_path path \<Longrightarrow> route wc method path \<in> {HealthRoute, WebRoute}"
proof -
  assume p: "\<not> api_path path"
  have "api_route wc reading posting [] = WebRoute" for reading posting by (simp add: api_route_def)
  then show ?thesis using p by (auto simp: route_def api_path_def Let_def split: list.splits)
qed

lemma route_reports: "route wc method path = ReportsRoute \<Longrightarrow> method = ''POST'' \<and> path = [''api'', ''v1'', ''reports'']"
  by (auto simp: route_def api_route_def Let_def split: list.splits if_splits)

lemma route_fixture:
  "wc_fixtureMutation wc = None \<Longrightarrow> wc_fixtureLifecycle wc = None \<Longrightarrow>
     route wc method path \<notin> {FixtureMutationRoute, FixtureLifecycleRoute}"
  by (auto simp: route_def api_route_def Let_def split: list.splits if_splits)

text \<open>What an answer may show to anybody: a file only when its path is that of the web directory followed by names,
  none of them empty, a dot, two dots or with a slash in it.\<close>

definition file_name :: "string \<Rightarrow> bool" where
  "file_name part \<longleftrightarrow> part \<notin> {[], ''.'', ''..''} \<and> CHR ''/'' \<notin> set part"

definition below :: "string list option \<Rightarrow> string list \<Rightarrow> bool" where
  "below dir file \<longleftrightarrow>
     (case dir of
        None \<Rightarrow> False
      | Some webDir \<Rightarrow> take (length webDir) file = webDir \<and> length webDir < length file \<and>
          list_all file_name (drop (length webDir) file))"

fun public_body :: "http_config \<Rightarrow> response_body \<Rightarrow> bool" where
  "public_body wc (ProblemBody _) = True"
| "public_body wc HealthBody = True"
| "public_body wc (FileBody file) = below (wc_webDir wc) file"
| "public_body wc (RedirectBody _) = True"
| "public_body wc NoBody = True"
| "public_body wc _ = False"

text \<open>No path leads out of the web directory: cleaning leaves no dots.\<close>

lemma split_slashes_names: "list_all (\<lambda>p. CHR ''/'' \<notin> set p) (split_slashes s)"
  by (induction s) (auto split: list.splits)

lemma clean_step_names:
  "CHR ''/'' \<notin> set part \<Longrightarrow> list_all file_name path \<Longrightarrow> list_all file_name (clean_step part path)"
  by (auto simp: clean_step_def list_all_iff file_name_def dest: in_set_butlastD)

lemma fold_clean_names:
  "list_all (\<lambda>p. CHR ''/'' \<notin> set p) parts \<Longrightarrow> list_all file_name path \<Longrightarrow> list_all file_name (fold clean_step parts path)"
  by (induction parts arbitrary: path) (simp_all add: clean_step_names)

lemma clean_rooted_names: "list_all file_name (clean_rooted (concat (map split_slashes parts)))"
proof -
  have "list_all (\<lambda>p. CHR ''/'' \<notin> set p) (concat (map split_slashes parts))"
    using split_slashes_names by (auto simp: list_all_iff)
  then show ?thesis unfolding clean_rooted_def by (rule fold_clean_names) simp
qed

lemma relative_path_below: "relative_path base (base @ path) = path"
  by (induction base) simp_all

lemma withinDir_clean: "withinDir base (base @ clean_rooted (concat (map split_slashes parts)))"
  using clean_rooted_names [of parts] by (auto simp: withinDir_def relative_path_below file_name_def split: list.splits)

lemma serveWeb_public: "public_body wc (answer_body (serveWeb wc req))"
proof -
  have "file_name ''index.html''" by code_simp
  then show ?thesis using clean_rooted_names [of "wq_path req"]
    by (simp add: serveWeb_def serveFile_def problem_def below_def Let_def split: option.splits)
qed

lemma handle_unchanged:
  "route wc (wq_method req) (wq_path req) \<notin> {ReportsRoute, FixtureMutationRoute, FixtureLifecycleRoute} \<Longrightarrow>
     handle wc m req ap = Some (answer, ap') \<Longrightarrow> ap' = ap"
  by (auto simp: handle_def split: http_route.splits)

section \<open>Properties\<close>

definition identified :: "http_config \<Rightarrow> http_request \<Rightarrow> bool" where
  "identified wc req \<longleftrightarrow>
     (\<exists>authorize identity. wc_authorizer wc = Some authorize \<and> authorize (wq_remoteAddr req) = Inr identity)"

lemma authorizeAPI_identified: "has_prefix (request_path req) ''/api/v1/'' \<Longrightarrow> \<not> identified wc req \<Longrightarrow>
    authorizeAPI wc m req ap = Some (problem 401 ''Tailnet identity is required'', ap)"
  by (auto simp: authorizeAPI_def identified_def split: option.splits sum.splits)

lemma authorizeAPI_dispatch:
  "identified wc req \<or> \<not> has_prefix (request_path req) ''/api/v1/'' \<Longrightarrow> authorizeAPI wc m req ap = dispatch wc m req ap"
  by (auto simp: authorizeAPI_def identified_def split: option.splits sum.splits)

lemma stranger_answered:
  assumes "\<not> identified wc req"
  obtains answer where "\<And>m ap. authorizeAPI wc m req ap = Some (answer, ap)" "public_body wc (answer_body answer)"
    "has_prefix (request_path req) ''/api/v1/'' \<Longrightarrow> answer = problem 401 ''Tailnet identity is required''"
proof (cases "has_prefix (request_path req) ''/api/v1/''")
  case True
  show ?thesis
    by (rule that [OF authorizeAPI_identified [OF True assms]]) (simp_all add: problem_def)
next
  case False
  then have "\<not> api_path (wq_path req)" using api_path_prefix by blast
  then have r: "route wc (wq_method req) (wq_path req) \<in> {HealthRoute, WebRoute}" by (rule route_public)
  define answer where "answer = (if wq_method req \<noteq> ''CONNECT'' \<and> \<not> clean_path (wq_path req)
      then Answer 301 (RedirectBody (clean_rooted (wq_path req)))
      else if route wc (wq_method req) (wq_path req) = HealthRoute then Answer 200 HealthBody else serveWeb wc req)"
  have "authorizeAPI wc m req ap = Some (answer, ap)" for m ap
    using authorizeAPI_dispatch [of wc req m ap] False r by (auto simp: answer_def dispatch_def handle_def)
  moreover have "public_body wc (answer_body answer)" using serveWeb_public by (simp add: answer_def)
  ultimately show ?thesis using False by (blast intro: that)
qed

text \<open>C30: No request without a network identity sees or changes the state of the server: whatever its method and its
  path (with empty parts, dots or escaped slashes), if the authoriser does not name the sender there is one answer
  that it gets in every state and at every time, and that leaves the state as it is. For a path below the API it is the
  refusal 401; else it is a problem, a redirect, the health text or a file, and a file only from below the web
  directory: the directory's path followed by one or more names without slashes, none of them a dot or two dots.\<close>

theorem strangers_see_nothing:
  assumes "\<not> identified wc req"
  shows "\<exists>answer. (\<forall>m ap. authorizeAPI wc m req ap = Some (answer, ap)) \<and> public_body wc (answer_body answer) \<and>
    (has_prefix (request_path req) ''/api/v1/'' \<longrightarrow> answer = problem 401 ''Tailnet identity is required'')"
  by (rule stranger_answered [OF assms]) blast

text \<open>C31: The state of the server changes only by a report: when a request changes anything, and no test hooks are
  installed, its sender was identified, it is a \<open>POST\<close> of a body of at most two megabytes that decodes to a valid
  report, and the sender is told so by a receipt. Reads, refused and failed requests leave everything as it was.\<close>

theorem only_reports_write:
  assumes "authorizeAPI wc m req ap = Some (answer, ap')" and "ap' \<noteq> ap"
    and "wc_fixtureMutation wc = None" and "wc_fixtureLifecycle wc = None"
  shows "identified wc req \<and> wq_method req = ''POST'' \<and> wq_path req = [''api'', ''v1'', ''reports''] \<and>
    length (wq_body req) \<le> max_report_bytes \<and>
    (\<exists>report answered. wc_decodeReport wc (wq_body req) = Some report \<and> ValidateReport report = None \<and>
       answer = Answer 202 (ReceiptBody answered))"
proof -
  have id: "identified wc req"
    by (rule ccontr) (use assms(1,2) in \<open>auto elim: stranger_answered\<close>)
  have h: "handle wc m req ap = Some (answer, ap')"
    using assms(1,2) authorizeAPI_dispatch [of wc req m ap] id by (auto simp: dispatch_def split: if_splits)
  then have r: "route wc (wq_method req) (wq_path req) = ReportsRoute"
    using handle_unchanged [OF _ h] assms(2) route_fixture [OF assms(3,4)] by blast
  then have s: "submitReport wc m req ap = Some (answer, ap')" using h by (simp add: handle_def)
  show ?thesis
    using id route_reports [OF r] assms(2)
    by (cases rule: submitReport_cases [OF s]) (auto simp: decode_report_def split: if_splits)
qed

section \<open>A server\<close>

definition wx_config :: http_config where
  "wx_config =
     \<lparr>wc_aggregator = ex_config, wc_codec = ex_codec, wc_authorizer = Some (\<lambda>addr. if addr = ''a:1'' then Inr ''n'' else Inl []),
      wc_deviceDirectory = False, wc_decodeReport = (\<lambda>text. Some ex_hello),
      wc_edgeCursors = \<lparr>cu_write = (\<lambda>_. []), cu_read = (\<lambda>_. None)\<rparr>,
      wc_pathCursors = \<lparr>cu_write = (\<lambda>_. []), cu_read = (\<lambda>_. None)\<rparr>, wc_julianday = (\<lambda>_. 0),
      wc_fixtureMutation = None, wc_fixtureLifecycle = None, wc_webDir = None, wc_isFile = (\<lambda>_. False)\<rparr>"

definition wx_moment :: http_moment where
  "wx_moment = \<lparr>wm_disk = True, wm_now = ex_time\<rparr>"

definition wx_app :: app_state where
  "wx_app = \<lparr>ap_aggregator = newRuntimeState, ap_database = new_database, ap_lastCheckpoint = 0\<rparr>"

definition wx_request :: "string \<Rightarrow> http_request" where
  "wx_request addr = \<lparr>wq_method = ''POST'', wq_path = [''api'', ''v1'', ''reports''], wq_remoteAddr = addr, wq_body = [],
     wq_query = [], wq_canceled = False\<rparr>"

lemma wx_submitted:
  obtains rcpt ap' where "SubmitAt ex_config ex_codec True ex_hello ex_time ex_time wx_app = Some (Inr rcpt, ap')"
    "db_reports (ap_database ap') \<noteq> []"
proof (rule ex_hello_applied)
  fix res s assume a: "ApplyAt ex_config ex_hello ex_time ex_time newRuntimeState = Some (Inr (res, s))" "ar_changed res"
  define p where "p = (if takes_checkpoint res ex_time 0 then Some (cd_marshal ex_codec s) else None)"
  define m where "m = (if p = None then None else Some (HistoryMetadata ex_config ex_time s))"
  obtain r db where r: "RecordWithMetadata True ex_hello ex_time p (ar_traffic res) (ar_transitions res) m new_database = (r, db)"
    by (metis surj_pair)
  have "r = Inr True" using r by (simp add: RecordWithMetadata_def new_database_def Let_def split: option.splits)
  then have "db_reports db \<noteq> []" by (cases rule: RecordWithMetadata_cases [OF r]) simp_all
  moreover have "SubmitAt ex_config ex_codec True ex_hello ex_time ex_time wx_app =
      Some (Inr (ar_receipt res), \<lparr>ap_aggregator = s, ap_database = db, ap_lastCheckpoint = (if p = None then 0 else ex_time)\<rparr>)"
    unfolding SubmitAt_def wx_app_def app_state.simps a(1) option.case sum.case prod.case Let_def p_def [symmetric]
      m_def [symmetric] r
    by (simp add: a(2) \<open>r = Inr True\<close>)
  ultimately show thesis using that by (metis app_state.select_convs(2))
qed

lemma wx_posted:
  obtains rcpt ap' where "authorizeAPI wx_config wx_moment (wx_request ''a:1'') wx_app = Some (Answer 202 (ReceiptBody rcpt), ap')"
    "ap' \<noteq> wx_app"
proof (rule wx_submitted)
  fix rcpt ap' assume s: "SubmitAt ex_config ex_codec True ex_hello ex_time ex_time wx_app = Some (Inr rcpt, ap')"
    "db_reports (ap_database ap') \<noteq> []"
  have "authorizeAPI wx_config wx_moment (wx_request ''a:1'') wx_app = submitReport wx_config wx_moment (wx_request ''a:1'') wx_app"
    by (simp add: authorizeAPI_def wx_config_def wx_request_def dispatch_def clean_path_def handle_def route_def api_route_def)
  also have "\<dots> = Some (Answer 202 (ReceiptBody rcpt), ap')"
    by (simp add: submitReport_def decode_report_def wx_config_def wx_request_def wx_moment_def s(1))
  finally have "authorizeAPI wx_config wx_moment (wx_request ''a:1'') wx_app = Some (Answer 202 (ReceiptBody rcpt), ap')" .
  moreover have "ap' \<noteq> wx_app" using s(2) by (auto simp: wx_app_def new_database_def)
  ultimately show thesis by (rule that)
qed

theorem only_reports_write_witness:
  "\<exists>answer ap'. authorizeAPI wx_config wx_moment (wx_request ''a:1'') wx_app = Some (answer, ap') \<and> ap' \<noteq> wx_app \<and>
     identified wx_config (wx_request ''a:1'')"
proof (rule wx_posted)
  fix rcpt ap' assume p: "authorizeAPI wx_config wx_moment (wx_request ''a:1'') wx_app = Some (Answer 202 (ReceiptBody rcpt), ap')"
    "ap' \<noteq> wx_app"
  have "wc_fixtureMutation wx_config = None" "wc_fixtureLifecycle wx_config = None" by (simp_all add: wx_config_def)
  from only_reports_write [OF p this] p show ?thesis by blast
qed

text \<open>A stranger that climbs out of the web directory, by dots behind an escaped slash, to the database beside it.\<close>

definition wx_climbing :: http_request where
  "wx_climbing = (wx_request ''b:1'')\<lparr>wq_method := ''GET'', wq_path := [''x/../../tailpath.db'']\<rparr>"

definition wx_web_config :: http_config where
  "wx_web_config = wx_config\<lparr>wc_webDir := Some [''srv'', ''dist''], wc_isFile := \<lambda>_. True\<rparr>"

theorem strangers_see_nothing_witness:
  "authorizeAPI wx_web_config wx_moment (wx_request ''b:1'') wx_app =
     Some (problem 401 ''Tailnet identity is required'', wx_app) \<and>
   (\<exists>answer. authorizeAPI wx_web_config wx_moment wx_climbing wx_app = Some (answer, wx_app) \<and>
     answer_body answer \<noteq> FileBody [''srv'', ''tailpath.db''])"
proof -
  have n: "\<not> identified wx_web_config (wx_request ''b:1'')" "\<not> identified wx_web_config wx_climbing"
    by (simp_all add: identified_def wx_web_config_def wx_config_def wx_climbing_def wx_request_def)
  have "has_prefix (request_path (wx_request ''b:1'')) ''/api/v1/''" by code_simp
  moreover have "\<not> public_body wx_web_config (FileBody [''srv'', ''tailpath.db''])"
    by (simp add: wx_web_config_def below_def)
  ultimately show ?thesis
    using strangers_see_nothing [OF n(1)] strangers_see_nothing [OF n(2)] by metis
qed

end
