(* ===== verification/Http_Exchange.thy ===== *)
theory Http_Exchange
  imports Http_Reporter Http_Facts
begin

text \<open>
  The exporter and the server together: a report sent over HTTP is a report submitted to the application, and
  the server never refuses what the sink sends.
\<close>

section \<open>A remote submission\<close>

lemma reports_route: "route wc ''POST'' [''api'', ''v1'', ''reports''] = ReportsRoute"
  by (simp add: route_def api_route_def)

lemma api_request_path [simp]:
  "has_prefix (request_path (api_request addr method endpoint body)) ''/api/v1/''"
  "wq_method (api_request addr method endpoint body) = method"
  "wq_path (api_request addr method endpoint body) = [''api'', ''v1'', endpoint]"
  "wq_body (api_request addr method endpoint body) = body"
  "wq_remoteAddr (api_request addr method endpoint body) = addr"
  by (simp_all add: api_request_def request_path_def has_prefix_def)

lemma posted_report:
  assumes "identified wc (api_request addr ''POST'' ''reports'' body)"
  shows "authorizeAPI wc m (api_request addr ''POST'' ''reports'' body) ap =
    submitReport wc m (api_request addr ''POST'' ''reports'' body) ap"
proof -
  have "clean_path [''api'', ''v1'', ''reports'']" by (simp add: clean_path_def)
  then show ?thesis
    using assms by (simp add: authorizeAPI_dispatch dispatch_def handle_def reports_route)
qed

text \<open>C32: A report sent over HTTP is a report submitted: for an exporter whose address the authoriser knows, and JSON that
  reads back, sending a report of at most two megabytes through the reporter to the server does to the server's state
  what \<open>SubmitAt\<close> does to it, and gives the exporter its receipt; a report that is not valid is answered with status 400, one
  that could not be stored with 500, and a panic looks like a closed connection.\<close>

theorem send_is_submit:
  assumes "identified wc (api_request addr ''POST'' ''reports'' (xc_writeReport hc r))"
    and "wc_decodeReport wc (xc_writeReport hc r) = Some r"
    and "length (xc_writeReport hc r) \<le> max_report_bytes"
    and "\<And>rcpt ap'. SubmitAt (wc_aggregator wc) (wc_codec wc) (wm_disk m) r (wm_now m) (wm_now m) ap = Some (Inr rcpt, ap') \<Longrightarrow>
      xc_readReceipt hc (take max_response_bytes (xc_writeBody hc (ReceiptBody rcpt))) = Some rcpt"
  shows "rp_send (http_reporter hc addr (app_exchange wc hc)) r \<lparr>hw_app = ap, hw_moments = Some m # moments\<rparr> =
    (case SubmitAt (wc_aggregator wc) (wc_codec wc) (wm_disk m) r (wm_now m) (wm_now m) ap of
       None \<Rightarrow> (Inl (SendFailed ''connection closed''), \<lparr>hw_app = ap, hw_moments = moments\<rparr>)
     | Some (Inl e, ap') \<Rightarrow>
         (Inl (HTTPStatus (if ValidateReport r = None then 500 else 400)), \<lparr>hw_app = ap', hw_moments = moments\<rparr>)
     | Some (Inr rcpt, ap') \<Rightarrow> (Inr rcpt, \<lparr>hw_app = ap', hw_moments = moments\<rparr>))"
  using assms(2-4)
  by (auto simp: http_reporter_def ReporterSend_def app_exchange_def posted_report [OF assms(1)] submitReport_def
      decode_report_def problem_def split: option.splits sum.splits)

section \<open>No report is refused\<close>

definition answered_by :: "'w reporter \<Rightarrow> (report_envelope \<times> answer) list \<Rightarrow> bool" where
  "answered_by env trace \<longleftrightarrow> (\<forall>(r, a) \<in> set trace. \<exists>w. a = fst (rp_send env r w))"

definition traced ::
  "sink_config \<Rightarrow> 'w reporter \<Rightarrow> 'o list \<Rightarrow> sink_state \<Rightarrow> 'w \<times> (report_envelope \<times> answer) list \<Rightarrow> bool" where
  "traced cfg env ops s wl \<longleftrightarrow> 0 < kc_maxBatchObservers cfg \<and> answered_by env (snd wl)"

lemma answered_by_send: "rp_send (logged env) r (w, t) = (a, w', t') \<Longrightarrow> answered_by env t \<Longrightarrow> answered_by env t'"
  by (auto simp: answered_by_def logged_def split: prod.splits) (metis fst_conv)

interpretation tracing: flushed cfg "logged env" "traced cfg env" "traced cfg env" "\<lambda>t. True" "\<lambda>es. True"
  for cfg and env :: "'w reporter"
  by unfold_locales
     (auto simp: traced_def dest: logged_capabilities answered_by_send split: if_splits)

lemma flush_answers:
  assumes "0 < kc_maxBatchObservers cfg" "flush cfg (logged env) jitter now later arrived (s, w, []) = (err, s', w', trace)"
    "(r, a) \<in> set trace"
  shows "\<exists>w. a = fst (rp_send env r w)"
proof -
  have "traced cfg env ([] :: observer_operation list) s (w, [])" using assms(1) by (simp add: traced_def answered_by_def)
  from tracing.flush_keeps [OF this _ _ _ assms(2)] assms(3) show ?thesis by (auto simp: traced_def answered_by_def)
qed

text \<open>What the JSON must do for this: a valid report is read back as a valid report.\<close>

definition keeps_validity :: "http_config \<Rightarrow> http_codec \<Rightarrow> bool" where
  "keeps_validity wc hc \<longleftrightarrow>
     (\<forall>r. ValidateReport r = None \<longrightarrow>
        (\<exists>r'. wc_decodeReport wc (xc_writeReport hc r) = Some r' \<and> ValidateReport r' = None))"

lemma valid_not_refused:
  assumes "keeps_validity wc hc" "ValidateReport r = None" "length (xc_writeReport hc r) \<le> max_report_bytes"
    "fst (rp_send (http_reporter hc addr (app_exchange wc hc)) r w) = Inl e"
  shows "\<not> refusal e"
proof -
  let ?req = "api_request addr ''POST'' ''reports'' (xc_writeReport hc r)"
  obtain r' where r': "decode_report wc (xc_writeReport hc r) = Some r'" "ValidateReport r' = None"
    using assms(1-3) by (auto simp: keeps_validity_def decode_report_def)
  have status: "answer_status answer \<noteq> 400 \<and> answer_status answer \<noteq> 413"
    if "authorizeAPI wc m ?req ap = Some (answer, ap')" for m ap answer ap'
  proof (cases "identified wc ?req")
    case True
    then have "submitReport wc m ?req ap = Some (answer, ap')" using that by (simp add: posted_report)
    then show ?thesis by (cases rule: submitReport_cases) (use r' in \<open>auto simp: problem_def\<close>)
  next
    case False
    then show ?thesis using authorizeAPI_identified [of ?req wc m ap] that by (auto simp: problem_def)
  qed
  show ?thesis
    using assms(4) status
    by (auto simp: http_reporter_def ReporterSend_def app_exchange_def refusal_def
        split: list.splits option.splits if_splits)
qed

text \<open>C33: The server refuses nothing the sink sends. With a usable configuration and events that hold validated samples, and
  JSON that keeps valid reports valid, no report of a flush is answered by the server with status 400 or 413 unless its
  JSON is longer than two megabytes, however the network, the database and the authoriser behave: so no observation is
  dropped because exporter and server disagree about what a valid report is.\<close>

theorem nothing_refused:
  assumes "config_ok cfg" "sink_ok relays s" "0 < now" "0 < later" "list_all (event_ok relays) arrived"
    and "keeps_validity wc hc"
    and "flush cfg (logged (http_reporter hc addr (app_exchange wc hc))) jitter now later arrived (s, w, []) =
      (err, s', w', trace)"
    and "(r, a) \<in> set trace" and "length (xc_writeReport hc r) \<le> max_report_bytes"
  shows "\<not> (\<exists>e. a = Inl e \<and> refusal e)"
proof
  assume "\<exists>e. a = Inl e \<and> refusal e"
  then obtain e where e: "a = Inl e" "refusal e" by blast
  have "contract relays (sk_sequence s) cfg [] s (w, [])" using assms(1,2) by (simp add: contract_def trace_ok_def)
  from contract.flush_keeps [OF this assms(3-5,7)] assms(8) have "ValidateReport r = None"
    by (auto simp: contract_def trace_ok_def ValidateReport_None)
  moreover obtain w where "a = fst (rp_send (http_reporter hc addr (app_exchange wc hc)) r w)"
    using flush_answers [OF _ assms(7,8)] assms(1) by (auto simp: config_ok_def)
  ultimately show False using valid_not_refused [OF assms(6) _ assms(9)] e by metis
qed

section \<open>An exporter and a server\<close>

definition wx_codec :: http_codec where
  "wx_codec =
     \<lparr>xc_writeReport = (\<lambda>r. re_reportID r), xc_writeBody = (\<lambda>_. []), xc_readReceipt = (\<lambda>_. None),
      xc_readCapabilities = (\<lambda>_. Some CurrentServerCapabilities)\<rparr>"

lemma wx_keeps: "keeps_validity wx_config wx_codec"
proof -
  have "ValidateReport ex_hello = None" by code_simp
  then show ?thesis by (simp add: keeps_validity_def wx_config_def)
qed

definition wx_sink :: sink_state where
  "wx_sink = sx_sink\<lparr>sk_transport := (sk_transport sx_sink)\<lparr>tr_capabilitiesReady := True\<rparr>\<rparr>"

definition wx_flush :: "send_error option \<times> sink_state \<times> http_world \<times> (report_envelope \<times> answer) list" where
  "wx_flush = flush sx_config (logged (http_reporter wx_codec ''b:1'' (app_exchange wx_config wx_codec))) (1 / 2) 10 10
     [] (wx_sink\<lparr>sk_events := [SourceResult ''a'' 0 (Inr (sx_snapshot 5 3))]\<rparr>, \<lparr>hw_app = wx_app, hw_moments = [Some wx_moment]\<rparr>, [])"

lemma wx_run: "map (\<lambda>(r, a). (re_kind r, a, length (re_reportID r))) (snd (snd (snd wx_flush))) =
    [(ReportObserverHello, Inl (HTTPStatus 401), 1)]"
  by code_simp

theorem nothing_refused_witness:
  "\<exists>r. (r, Inl (HTTPStatus 401)) \<in> set (snd (snd (snd wx_flush))) \<and> \<not> (\<exists>e. HTTPStatus 401 = e \<and> refusal e)"
proof -
  obtain err s' w' trace where f: "wx_flush = (err, s', w', trace)" by (cases wx_flush)
  obtain r where r: "(r, Inl (HTTPStatus 401)) \<in> set trace" "length (re_reportID r) = 1"
    using wx_run [unfolded f snd_conv] by auto
  have "list_all (event_ok False) (sk_events (wx_sink\<lparr>sk_events := [SourceResult ''a'' 0 (Inr (sx_snapshot 5 3))]\<rparr>))"
    using sx_snapshot_ok [of 3 5] by (simp add: snapshot_ok_def sx_snapshot_def)
  then have "sink_ok False (wx_sink\<lparr>sk_events := [SourceResult ''a'' 0 (Inr (sx_snapshot 5 3))]\<rparr>)"
    using sx_sink_ok [of False] by (simp add: sink_ok_def wx_sink_def all_sources_def)
  from nothing_refused [OF sx_config_ok this _ _ _ wx_keeps f [unfolded wx_flush_def] r(1)] r(2)
  have "\<not> refusal (HTTPStatus 401)" by (simp add: wx_codec_def max_report_bytes_def)
  then show ?thesis unfolding f snd_conv using r(1) by blast
qed

definition wx_receipt_codec :: http_codec where
  "wx_receipt_codec = wx_codec\<lparr>xc_readReceipt :=
     (\<lambda>_. case SubmitAt ex_config ex_codec True ex_hello ex_time ex_time wx_app of Some (Inr rcpt, _) \<Rightarrow> Some rcpt | _ \<Rightarrow> None)\<rparr>"

theorem send_is_submit_witness:
  "\<exists>rcpt ap'. rp_send (http_reporter wx_receipt_codec ''a:1'' (app_exchange wx_config wx_receipt_codec)) ex_hello
       \<lparr>hw_app = wx_app, hw_moments = [Some wx_moment]\<rparr> = (Inr rcpt, \<lparr>hw_app = ap', hw_moments = []\<rparr>) \<and>
     db_reports (ap_database ap') \<noteq> []"
proof (rule wx_submitted)
  fix rcpt ap' assume s: "SubmitAt ex_config ex_codec True ex_hello ex_time ex_time wx_app = Some (Inr rcpt, ap')"
    "db_reports (ap_database ap') \<noteq> []"
  have w: "wc_aggregator wx_config = ex_config" "wc_codec wx_config = ex_codec" "wm_disk wx_moment" "wm_now wx_moment = ex_time"
    by (simp_all add: wx_config_def wx_moment_def)
  have "re_reportID ex_hello = ''1''" by code_simp
  then have "length (xc_writeReport wx_receipt_codec ex_hello) \<le> max_report_bytes"
    by (simp add: wx_receipt_codec_def wx_codec_def max_report_bytes_def)
  moreover have "identified wx_config (api_request ''a:1'' ''POST'' ''reports'' (xc_writeReport wx_receipt_codec ex_hello))"
    by (simp add: identified_def wx_config_def)
  moreover have "wc_decodeReport wx_config (xc_writeReport wx_receipt_codec ex_hello) = Some ex_hello"
    by (simp add: wx_config_def)
  moreover have "xc_readReceipt wx_receipt_codec t = Some rcpt" for t
    by (simp add: wx_receipt_codec_def s(1))
  ultimately show ?thesis
    using send_is_submit [where m = wx_moment and wc = wx_config and hc = wx_receipt_codec and addr = "''a:1''" and
        r = ex_hello and ap = wx_app and moments = "[]"] s
    by (simp add: w)
qed

end
