(* ===== verification/Http_Events.thy ===== *)
theory Http_Events
  imports Http_Facts Status_Decode
begin

text \<open>
  The event stream of the server: the subscribers of the aggregator (\<open>Subscribe\<close>, \<open>notifyLocked\<close> of
  \<open>internal/aggregate/aggregator.go\<close>), the goroutine that coalesces their notifications and the handler that writes
  them out (\<open>coalesceInvalidations\<close>, \<open>streamEvents\<close> of \<open>internal/httpapi/server.go\<close>). The three run
  interleaved: each rule of \<open>stream_step\<close> is one communication or one expired timer, at a time that never goes
  back. The theorems are about all runs: how often a client is told of changes, and that no change is kept from it.
\<close>

section \<open>Subscribers\<close>

text \<open>A subscriber's channel holds at most one notification: \<open>True\<close> when it does.\<close>

type_synonym subscribers = "(nat, bool) gomap"

definition Subscribe :: "nat \<Rightarrow> subscribers \<Rightarrow> subscribers" where
  "Subscribe channel subs = mput channel False subs"

definition Unsubscribe :: "nat \<Rightarrow> subscribers \<Rightarrow> subscribers" where
  "Unsubscribe channel subs = mdel channel subs"

definition notifyLocked :: "subscribers \<Rightarrow> subscribers" where
  "notifyLocked subs = mapv (\<lambda>_ _. True) subs"

definition channel_taken :: "nat \<Rightarrow> subscribers \<Rightarrow> subscribers" where
  "channel_taken channel subs = mput channel False subs"

section \<open>One stream\<close>

text \<open>
  The goroutine waits without a timer, offers a notification to the handler, waits for its timer with a
  notification pending or not, or is gone.
\<close>

datatype coalescer = Quiet | Offering | Waiting time bool | Stopped

record event_stream =
  es_now :: time
  es_subscribers :: subscribers
  es_channel :: nat
  es_canceled :: bool
  es_coalescer :: coalescer
  es_serving :: bool
  es_nextKeepalive :: time

definition event_interval :: "duration \<Rightarrow> duration" where
  "event_interval configured = (if configured \<le> 0 then 250 * 1000000 else configured)"

definition keepalive_interval :: duration where
  "keepalive_interval = 20 * second"

definition streamEvents :: "nat \<Rightarrow> subscribers \<Rightarrow> time \<Rightarrow> event_stream" where
  "streamEvents channel subs now =
     \<lparr>es_now = now, es_subscribers = Subscribe channel subs, es_channel = channel, es_canceled = False,
      es_coalescer = Quiet, es_serving = True, es_nextKeepalive = now + keepalive_interval\<rparr>"

text \<open>
  \<open>Notified\<close>: the aggregator notifies its subscribers. \<open>Taken\<close>, \<open>Closed\<close>: the goroutine receives from its channel.
  \<open>Expired\<close>: its timer fires. \<open>Written\<close>: the handler receives what is offered and writes a \<open>topology\<close> event.
  \<open>KeptAlive\<close>: it writes a comment. \<open>Canceled\<close>: the client is gone, which both notice.
\<close>

datatype stream_event =
    Notified | Taken | Closed | Expired | Written | KeptAlive | Canceled | CoalescerStopped | HandlerReturned
  | OtherJoined nat | OtherParted nat

inductive stream_step :: "duration \<Rightarrow> event_stream \<Rightarrow> time \<Rightarrow> stream_event \<Rightarrow> event_stream \<Rightarrow> bool" for every where
  notified: "es_now s \<le> t \<Longrightarrow>
    stream_step every s t Notified (s\<lparr>es_now := t, es_subscribers := notifyLocked (es_subscribers s)\<rparr>)"
| taken_quiet: "es_now s \<le> t \<Longrightarrow> map_of (es_subscribers s) (es_channel s) = Some True \<Longrightarrow> es_coalescer s = Quiet \<Longrightarrow>
    stream_step every s t Taken (s\<lparr>es_now := t, es_subscribers := channel_taken (es_channel s) (es_subscribers s),
      es_coalescer := Offering\<rparr>)"
| taken_waiting: "es_now s \<le> t \<Longrightarrow> map_of (es_subscribers s) (es_channel s) = Some True \<Longrightarrow> es_coalescer s = Waiting d p \<Longrightarrow>
    stream_step every s t Taken (s\<lparr>es_now := t, es_subscribers := channel_taken (es_channel s) (es_subscribers s),
      es_coalescer := Waiting d True\<rparr>)"
| closed: "es_now s \<le> t \<Longrightarrow> map_of (es_subscribers s) (es_channel s) = None \<Longrightarrow> es_coalescer s \<noteq> Offering \<Longrightarrow>
    stream_step every s t Closed (s\<lparr>es_now := t, es_coalescer := Stopped\<rparr>)"
| expired: "es_now s \<le> t \<Longrightarrow> es_coalescer s = Waiting d p \<Longrightarrow> d \<le> t \<Longrightarrow>
    stream_step every s t Expired (s\<lparr>es_now := t, es_coalescer := (if p then Offering else Quiet)\<rparr>)"
| written: "es_now s \<le> t \<Longrightarrow> es_coalescer s = Offering \<Longrightarrow> es_serving s \<Longrightarrow>
    stream_step every s t Written (s\<lparr>es_now := t, es_coalescer := Waiting (t + event_interval every) False\<rparr>)"
| kept_alive: "es_now s \<le> t \<Longrightarrow> es_serving s \<Longrightarrow> es_nextKeepalive s \<le> t \<Longrightarrow> 0 < n \<Longrightarrow>
    stream_step every s t KeptAlive (s\<lparr>es_now := t, es_nextKeepalive := es_nextKeepalive s + n * keepalive_interval\<rparr>)"
| canceled: "es_now s \<le> t \<Longrightarrow> stream_step every s t Canceled (s\<lparr>es_now := t, es_canceled := True\<rparr>)"
| coalescer_stopped: "es_now s \<le> t \<Longrightarrow> es_canceled s \<Longrightarrow>
    stream_step every s t CoalescerStopped (s\<lparr>es_now := t, es_coalescer := Stopped\<rparr>)"
| handler_returned: "es_now s \<le> t \<Longrightarrow> es_serving s \<Longrightarrow> es_canceled s \<or> es_coalescer s = Stopped \<Longrightarrow>
    stream_step every s t HandlerReturned (s\<lparr>es_now := t, es_serving := False,
      es_subscribers := Unsubscribe (es_channel s) (es_subscribers s)\<rparr>)"
| other_joined: "es_now s \<le> t \<Longrightarrow> map_of (es_subscribers s) c = None \<Longrightarrow> c \<noteq> es_channel s \<Longrightarrow>
    stream_step every s t (OtherJoined c) (s\<lparr>es_now := t, es_subscribers := Subscribe c (es_subscribers s)\<rparr>)"
| other_parted: "es_now s \<le> t \<Longrightarrow> c \<noteq> es_channel s \<Longrightarrow>
    stream_step every s t (OtherParted c) (s\<lparr>es_now := t, es_subscribers := Unsubscribe c (es_subscribers s)\<rparr>)"

inductive_cases stream_stepE: "stream_step every s t e s'"

text \<open>A run and what happened in it, the first event first.\<close>

inductive stream_run :: "duration \<Rightarrow> event_stream \<Rightarrow> (time \<times> stream_event) list \<Rightarrow> event_stream \<Rightarrow> bool" for every s where
  start: "stream_run every s [] s"
| further: "stream_run every s ls u \<Longrightarrow> stream_step every u t e v \<Longrightarrow> stream_run every s (ls @ [(t, e)]) v"

lemma stream_run_trans:
  "stream_run every s ls u \<Longrightarrow> stream_run every u ks v \<Longrightarrow> stream_run every s (ls @ ks) v"
  by (rotate_tac, induction rule: stream_run.induct) (auto intro: stream_run.intros simp flip: append_assoc)

lemma stream_run_one: "stream_step every s t e u \<Longrightarrow> stream_run every s [(t, e)] u"
  using stream_run.further [OF stream_run.start] by simp

definition times_of :: "stream_event \<Rightarrow> (time \<times> stream_event) list \<Rightarrow> time list" where
  "times_of e ls = map fst (filter (\<lambda>l. snd l = e) ls)"

lemma times_of_simps [simp]: "times_of e [] = []" "times_of e (ls @ ks) = times_of e ls @ times_of e ks"
    "times_of e ((t, e') # ls) = (if e' = e then t # times_of e ls else times_of e ls)"
  by (simp_all add: times_of_def)

text \<open>A notification that no event has been written after.\<close>

definition untold :: "(time \<times> stream_event) list \<Rightarrow> bool" where
  "untold ls \<longleftrightarrow> list_ex (\<lambda>l. snd l = Notified) (takeWhile (\<lambda>l. snd l \<noteq> Written) (rev ls))"

lemma untold_simps [simp]: "\<not> untold []"
    "untold (ls @ [(t, e)]) \<longleftrightarrow> e \<noteq> Written \<and> (e = Notified \<or> untold ls)"
  by (auto simp: untold_def)

section \<open>What holds in every run\<close>

lemma map_of_subscribers [simp]:
  "map_of (Subscribe c subs) k = (if k = c then Some False else map_of subs k)"
  "map_of (Unsubscribe c subs) k = (if k = c then None else map_of subs k)"
  "map_of (notifyLocked subs) k = map_option (\<lambda>_. True) (map_of subs k)"
  "map_of (channel_taken c subs) k = (if k = c then Some False else map_of subs k)"
  by (simp_all add: Subscribe_def Unsubscribe_def notifyLocked_def channel_taken_def)

lemma event_interval_pos: "0 < event_interval every"
  by (simp add: event_interval_def)

text \<open>As long as the client is there, nothing stops.\<close>

definition alive :: "event_stream \<Rightarrow> bool" where
  "alive s \<longleftrightarrow> es_serving s \<and> es_coalescer s \<noteq> Stopped \<and> map_of (es_subscribers s) (es_channel s) \<noteq> None"

text \<open>A notification on its way to the client.\<close>

definition in_flight :: "event_stream \<Rightarrow> bool" where
  "in_flight s \<longleftrightarrow>
     map_of (es_subscribers s) (es_channel s) = Some True \<or>
     (case es_coalescer s of Offering \<Rightarrow> True | Waiting d p \<Rightarrow> p | _ \<Rightarrow> False)"

definition held :: "event_stream \<Rightarrow> nat" where
  "held s = (if map_of (es_subscribers s) (es_channel s) = Some True then 1 else 0) +
     (case es_coalescer s of Offering \<Rightarrow> 1 | Waiting d p \<Rightarrow> if p then 1 else 0 | _ \<Rightarrow> 0)"

text \<open>When the next event may be written.\<close>

definition paced :: "duration \<Rightarrow> event_stream \<Rightarrow> time list \<Rightarrow> bool" where
  "paced every s ts \<longleftrightarrow> sorted_wrt (\<lambda>a b. a + event_interval every \<le> b) ts \<and>
     (case es_coalescer s of
        Waiting d p \<Rightarrow> ts \<noteq> [] \<and> d = last ts + event_interval every
      | Stopped \<Rightarrow> True
      | _ \<Rightarrow> \<forall>t \<in> set ts. t + event_interval every \<le> es_now s)"

definition stream_inv :: "duration \<Rightarrow> event_stream \<Rightarrow> (time \<times> stream_event) list \<Rightarrow> bool" where
  "stream_inv every s ls \<longleftrightarrow> paced every s (times_of Written ls) \<and> (\<not> es_canceled s \<longrightarrow> alive s) \<and>
     (untold ls \<longrightarrow> alive s \<longrightarrow> in_flight s) \<and> length (times_of Written ls) + held s \<le> length (times_of Notified ls)"

lemma sorted_last:
  "sorted_wrt (\<lambda>a b. a + (i :: int) \<le> b) ts \<Longrightarrow> 0 < i \<Longrightarrow> t \<in> set ts \<Longrightarrow> t \<le> last ts"
  by (induction ts rule: rev_induct) (auto simp: sorted_wrt_append)

lemma paced_step:
  assumes "stream_step every s t e s'" "paced every s ts"
  shows "paced every s' (if e = Written then ts @ [t] else ts)"
  using assms(1)
proof cases
  case (expired d p)
  have "u + event_interval every \<le> t" if "u \<in> set ts" for u
    using sorted_last [OF _ event_interval_pos that] assms(2) expired by (fastforce simp: paced_def)
  then show ?thesis using assms(2) expired by (auto simp: paced_def)
next
  case written
  then show ?thesis using assms(2) by (fastforce simp: paced_def sorted_wrt_append)
qed (use assms(2) in \<open>fastforce simp: paced_def split: coalescer.splits\<close>)+

lemma alive_step: "stream_step every s t e s' \<Longrightarrow> \<not> es_canceled s' \<Longrightarrow> (\<not> es_canceled s \<Longrightarrow> alive s) \<Longrightarrow> alive s'"
  by (erule stream_stepE) (auto simp: alive_def)

lemma in_flight_step:
  "stream_step every s t e s' \<Longrightarrow> alive s' \<Longrightarrow> e \<noteq> Written \<Longrightarrow> (alive s \<Longrightarrow> e = Notified \<or> in_flight s) \<Longrightarrow> in_flight s'"
  by (erule stream_stepE) (auto simp: alive_def in_flight_def split: coalescer.splits)

lemma held_step:
  "stream_step every s t e s' \<Longrightarrow>
     held s' + (if e = Written then 1 else 0) \<le> held s + (if e = Notified then 1 else 0)"
  by (erule stream_stepE) (auto simp: held_def split: coalescer.splits)

lemma alive_before: "stream_step every s t e s' \<Longrightarrow> alive s' \<Longrightarrow> alive s"
  by (erule stream_stepE) (auto simp: alive_def split: if_splits)

lemma stream_run_inv:
  assumes "stream_run every (streamEvents channel subs now) ls s"
  shows "stream_inv every s ls"
  using assms
proof (induction rule: stream_run.induct)
  case start
  then show ?case by (simp add: stream_inv_def streamEvents_def paced_def alive_def held_def)
next
  case (further ls u t e v)
  have "paced every v (times_of Written (ls @ [(t, e)]))"
    using paced_step [OF further(2)] further(3) by (auto simp: stream_inv_def)
  moreover have "\<not> es_canceled v \<longrightarrow> alive v"
    using alive_step [OF further(2)] further(3) by (auto simp: stream_inv_def)
  moreover have "untold (ls @ [(t, e)]) \<longrightarrow> alive v \<longrightarrow> in_flight v"
    using in_flight_step [OF further(2)] alive_before [OF further(2)] further(3) by (auto simp: stream_inv_def)
  moreover have "length (times_of Written (ls @ [(t, e)])) + held v \<le> length (times_of Notified (ls @ [(t, e)]))"
    using held_step [OF further(2)] further(3) by (auto simp: stream_inv_def split: if_splits)
  ultimately show ?case by (simp add: stream_inv_def)
qed

section \<open>Properties\<close>

text \<open>C35: A client of the event stream is told of changes no more often than the configured interval allows (250
  milliseconds when none is configured), however fast and at whatever moments the topology changes, and never more
  often than it changes.\<close>

theorem stream_paced:
  assumes "stream_run every (streamEvents channel subs now) ls s"
  shows "sorted_wrt (\<lambda>a b. a + event_interval every \<le> b) (times_of Written ls) \<and>
    length (times_of Written ls) \<le> length (times_of Notified ls)"
  using stream_run_inv [OF assms] by (auto simp: stream_inv_def paced_def)

text \<open>A run on the way to the client takes at most a receive, a timer and a write.\<close>

lemma in_flight_written:
  assumes "alive s" "in_flight s" "paced every s ts" "es_now s \<le> t" "\<forall>w \<in> set ts. w + event_interval every \<le> t"
  obtains ks s' where "stream_run every s ks s'" "times_of Written ks = [t]" "length ks \<le> 3"
    "snd ` set ks \<subseteq> {Taken, Expired, Written}"
proof -
  define full where "full \<longleftrightarrow> map_of (es_subscribers s) (es_channel s) = Some True"
  have writing: "stream_run every u [(t, Written)] (u\<lparr>es_now := t, es_coalescer := Waiting (t + event_interval every) False\<rparr>)"
    if "es_coalescer u = Offering" "es_serving u" "es_now u \<le> t" for u
    using stream_step.written [of u t every] that by (auto intro: stream_run_one)
  have serving: "es_serving s" using assms(1) by (simp add: alive_def)
  have fire: "\<exists>u. stream_run every s' [(t, Expired), (t, Written)] u"
    if c: "es_coalescer s' = Waiting d True" "d \<le> t" "es_serving s'" "es_now s' \<le> t" for s' d
  proof -
    have "stream_run every s' [(t, Expired)] (s'\<lparr>es_now := t, es_coalescer := Offering\<rparr>)"
      using stream_step.expired [of s' t d True every] c by (auto intro: stream_run_one)
    from stream_run_trans [OF this writing] c show ?thesis by auto
  qed
  show thesis
  proof (cases "es_coalescer s")
    case Quiet
    then have "full" using assms(2) by (simp add: in_flight_def full_def)
    then have "stream_run every s [(t, Taken)]
        (s\<lparr>es_now := t, es_subscribers := channel_taken (es_channel s) (es_subscribers s), es_coalescer := Offering\<rparr>)"
      using stream_step.taken_quiet [of s t every] Quiet assms(4) by (auto simp: full_def intro: stream_run_one)
    from stream_run_trans [OF this writing] serving show thesis
      by (intro that [of "[(t, Taken), (t, Written)]"]) auto
  next
    case Offering
    then show thesis using writing [OF Offering serving assms(4)] by (intro that [of "[(t, Written)]"]) auto
  next
    case (Waiting d p)
    then have d: "d \<le> t" using assms(3,5) by (auto simp: paced_def)
    show thesis
    proof (cases p)
      case True
      then obtain u where "stream_run every s [(t, Expired), (t, Written)] u"
        using fire [of s d] Waiting d serving assms(4) by auto
      then show thesis by (rule that) auto
    next
      case False
      let ?s = "s\<lparr>es_now := t, es_subscribers := channel_taken (es_channel s) (es_subscribers s), es_coalescer := Waiting d True\<rparr>"
      have "full" using assms(2) Waiting False by (simp add: in_flight_def full_def)
      then have "stream_run every s [(t, Taken)] ?s"
        using stream_step.taken_waiting [of s t d p every] Waiting assms(4) by (auto simp: full_def intro: stream_run_one)
      moreover obtain u where "stream_run every ?s [(t, Expired), (t, Written)] u"
        using fire [of ?s d] d serving by auto
      ultimately have "stream_run every s ([(t, Taken)] @ [(t, Expired), (t, Written)]) u" by (rule stream_run_trans)
      then show thesis by (rule that) auto
    qed
  next
    case Stopped
    then show thesis using assms(1) by (simp add: alive_def)
  qed
qed

text \<open>C34: No change of the topology is kept from a connected client: whatever happened before, if the aggregator notified
  its subscribers after the last event written to the client (or none was written), then the stream can write the
  next one at any time from now on that keeps the interval, by at most three steps of its own, without another
  notification and although notifications that found the channel full were dropped.\<close>

theorem stream_tells:
  assumes "stream_run every (streamEvents channel subs now) ls s" and "untold ls" and "\<not> es_canceled s"
    and "es_now s \<le> t" and "\<forall>w \<in> set (times_of Written ls). w + event_interval every \<le> t"
  shows "\<exists>ks s'. stream_run every s ks s' \<and> times_of Written ks = [t] \<and> length ks \<le> 3 \<and>
    snd ` set ks \<subseteq> {Taken, Expired, Written}"
proof -
  have "alive s" "in_flight s" "paced every s (times_of Written ls)"
    using stream_run_inv [OF assms(1)] assms(2,3) by (simp_all add: stream_inv_def)
  from in_flight_written [OF this assms(4,5)] show ?thesis by metis
qed

text \<open>The second of two notifications finds the channel full; the client is told once.\<close>

definition example_stream :: event_stream where
  "example_stream = streamEvents 4 [(3, False)] 100"

lemma example_notified:
  obtains s where "stream_run 0 example_stream [(101, Notified), (102, Notified)] s" "\<not> es_canceled s" "es_now s = 102"
proof -
  let ?u = "example_stream\<lparr>es_now := 101, es_subscribers := notifyLocked (es_subscribers example_stream)\<rparr>"
  have "stream_step 0 example_stream 101 Notified ?u"
    by (rule stream_step.notified) (simp add: example_stream_def streamEvents_def)
  moreover have "stream_step 0 ?u 102 Notified (?u\<lparr>es_now := 102, es_subscribers := notifyLocked (es_subscribers ?u)\<rparr>)"
    by (rule stream_step.notified) simp
  ultimately have "stream_run 0 example_stream [(101, Notified), (102, Notified)]
      (?u\<lparr>es_now := 102, es_subscribers := notifyLocked (es_subscribers ?u)\<rparr>)"
    using stream_run.further [OF stream_run_one] by fastforce
  then show thesis by (rule that) (simp_all add: example_stream_def streamEvents_def)
qed

theorem stream_tells_witness:
  "\<exists>ls s ks s'. stream_run 0 example_stream ls s \<and> length (times_of Notified ls) = 2 \<and> stream_run 0 s ks s' \<and>
     times_of Written ks = [200] \<and> length ks \<le> 3"
proof (rule example_notified)
  fix s assume s: "stream_run 0 example_stream [(101, Notified), (102, Notified)] s" "\<not> es_canceled s" "es_now s = 102"
  have "untold [(101, Notified), (102, Notified)]" by (simp add: untold_def)
  from stream_tells [OF s(1) [unfolded example_stream_def] this s(2), of 200] s(1,3) show ?thesis by fastforce
qed

theorem stream_paced_witness:
  "\<exists>ls s. stream_run 0 example_stream ls s \<and> length (times_of Notified ls) = 2 \<and> length (times_of Written ls) \<le> 2"
proof (rule example_notified)
  fix s assume s: "stream_run 0 example_stream [(101, Notified), (102, Notified)] s"
  from stream_paced [OF s [unfolded example_stream_def]] s show ?thesis by fastforce
qed

end
