(* ===== verification/Process_Flags.thy ===== *)
theory Process_Flags
  imports Relay_Adapter Http_Events
begin

text \<open>
  The command line of \<open>cmd/tailpath/main.go\<close>: Go's \<open>flag\<close> package as the program uses it, and the configurations
  read from it and from the environment. Files are read by the argument \<open>readFile\<close>; the texts of durations by
  \<open>parseDuration\<close> (\<open>time.ParseDuration\<close>, whose fractions are floating point).
\<close>

section \<open>Flags\<close>

datatype flag_value = TextFlag string | SwitchFlag bool | DurationFlag duration

datatype flag_error = BadFlagSyntax string | UndefinedFlag string | HelpWanted | InvalidFlagValue string | MissingFlagValue string

text \<open>The flags of a set with their values; at first these are the defaults.\<close>

type_synonym flag_set = "(string, flag_value) gomap"

definition flag_text :: "flag_set \<Rightarrow> string \<Rightarrow> string" where
  "flag_text fs name = (case map_of fs name of Some (TextFlag s) \<Rightarrow> s | _ \<Rightarrow> [])"

definition flag_on :: "flag_set \<Rightarrow> string \<Rightarrow> bool" where
  "flag_on fs name = (case map_of fs name of Some (SwitchFlag b) \<Rightarrow> b | _ \<Rightarrow> False)"

definition flag_duration :: "flag_set \<Rightarrow> string \<Rightarrow> duration" where
  "flag_duration fs name = (case map_of fs name of Some (DurationFlag d) \<Rightarrow> d | _ \<Rightarrow> 0)"

definition parse_bool :: "string \<Rightarrow> bool option" where
  "parse_bool s =
     (if s \<in> {''1'', ''t'', ''T'', ''TRUE'', ''true'', ''True''} then Some True
      else if s \<in> {''0'', ''f'', ''F'', ''FALSE'', ''false'', ''False''} then Some False
      else None)"

definition set_flag :: "(string \<Rightarrow> duration option) \<Rightarrow> string \<Rightarrow> flag_value \<Rightarrow> string \<Rightarrow> flag_set \<Rightarrow> flag_error + flag_set" where
  "set_flag parseDuration name old text fs =
     (case (case old of
        TextFlag _ \<Rightarrow> Some (TextFlag text)
      | SwitchFlag _ \<Rightarrow> map_option SwitchFlag (parse_bool text)
      | DurationFlag _ \<Rightarrow> map_option DurationFlag (parseDuration text)) of
        None \<Rightarrow> Inl (InvalidFlagValue name)
      | Some v \<Rightarrow> Inr (mput name v fs))"

text \<open>One argument: \<open>-name\<close>, \<open>--name\<close> or with \<open>=value\<close>; \<open>--\<close> ends the flags, as does an argument without a dash.\<close>

datatype flag_argument = NoFlag | FlagsEnd | BadFlag | NamedFlag string "string option"

definition flag_argument :: "string \<Rightarrow> flag_argument" where
  "flag_argument s =
     (if length s < 2 \<or> hd s \<noteq> CHR ''-'' then NoFlag
      else if s = ''--'' then FlagsEnd
      else let body = (if s ! 1 = CHR ''-'' then drop 2 s else drop 1 s)
        in if body = [] \<or> hd body = CHR ''-'' \<or> hd body = CHR ''='' then BadFlag
           else let name = takeWhile (\<lambda>c. c \<noteq> CHR ''='') body
             in NamedFlag name (if name = body then None else Some (drop (Suc (length name)) body)))"

fun parse_flags :: "(string \<Rightarrow> duration option) \<Rightarrow> flag_set \<Rightarrow> string list \<Rightarrow> flag_error + flag_set \<times> string list" where
  "parse_flags parseDuration fs [] = Inr (fs, [])"
| "parse_flags parseDuration fs (s # args) =
     (case flag_argument s of
        NoFlag \<Rightarrow> Inr (fs, s # args)
      | FlagsEnd \<Rightarrow> Inr (fs, args)
      | BadFlag \<Rightarrow> Inl (BadFlagSyntax s)
      | NamedFlag name given \<Rightarrow>
          (case map_of fs name of
             None \<Rightarrow> Inl (if name = ''help'' \<or> name = ''h'' then HelpWanted else UndefinedFlag name)
           | Some old \<Rightarrow>
               (case (given, old) of
                  (Some text, _) \<Rightarrow>
                    (case set_flag parseDuration name old text fs of
                       Inl e \<Rightarrow> Inl e | Inr fs' \<Rightarrow> parse_flags parseDuration fs' args)
                | (None, SwitchFlag _) \<Rightarrow> parse_flags parseDuration (mput name (SwitchFlag True) fs) args
                | (None, _) \<Rightarrow>
                    (case args of
                       [] \<Rightarrow> Inl (MissingFlagValue name)
                     | text # rest \<Rightarrow>
                         (case set_flag parseDuration name old text fs of
                            Inl e \<Rightarrow> Inl e | Inr fs' \<Rightarrow> parse_flags parseDuration fs' rest)))))"

section \<open>Subcommands\<close>

datatype command =
  ServerCommand "string list" | FixtureServerCommand "string list" | CollectorCommand "string list"
| HealthcheckCommand "string list" | VersionCommand | HelpCommand

text \<open>The whole error: without a command the usage, otherwise the unknown name.\<close>

definition run_command :: "string list \<Rightarrow> string option + command" where
  "run_command arguments =
     (case arguments of
        [] \<Rightarrow> Inl None
      | name # rest \<Rightarrow>
          if name = ''server'' then Inr (ServerCommand rest)
          else if name = ''fixture-server'' then Inr (FixtureServerCommand rest)
          else if name = ''collector'' then Inr (CollectorCommand rest)
          else if name = ''healthcheck'' then Inr (HealthcheckCommand rest)
          else if name \<in> {''version'', ''--version'', ''-version''} then Inr VersionCommand
          else if name \<in> {''help'', ''--help'', ''-h''} then Inr HelpCommand
          else Inl (Some name))"

section \<open>The devices API\<close>

record devices_server_config =
  dq_enabled :: bool
  dq_clientID :: string
  dq_clientSecret :: string
  dq_tailnet :: string

datatype devices_config_error =
  DevicesFlags flag_error | DevicesArguments | DevicesIncomplete | DevicesSecretUnread | DevicesSecretEmpty

definition bindDevicesConfigFlags :: "(string \<Rightarrow> string) \<Rightarrow> flag_set" where
  "bindDevicesConfigFlags getenv =
     (let tailnet = trim_space (getenv ''TAILPATH_DEVICES_TAILNET'')
      in [(''devices-oauth-client-id'', TextFlag (trim_space (getenv ''TAILPATH_DEVICES_OAUTH_CLIENT_ID''))),
          (''devices-oauth-client-secret-file'', TextFlag (trim_space (getenv ''TAILPATH_DEVICES_OAUTH_CLIENT_SECRET_FILE''))),
          (''devices-tailnet'', TextFlag (if tailnet = [] then ''-'' else tailnet))])"

definition resolveDevicesServerConfig ::
  "flag_set \<Rightarrow> (string \<Rightarrow> string option) \<Rightarrow> devices_config_error + devices_server_config" where
  "resolveDevicesServerConfig fs readFile =
     (let clientID = trim_space (flag_text fs ''devices-oauth-client-id'');
          secretFile = trim_space (flag_text fs ''devices-oauth-client-secret-file'')
      in if clientID = [] \<and> secretFile = []
         then Inr \<lparr>dq_enabled = False, dq_clientID = [], dq_clientSecret = [], dq_tailnet = ''-''\<rparr>
         else if clientID = [] \<or> secretFile = [] then Inl DevicesIncomplete
         else case readFile secretFile of
           None \<Rightarrow> Inl DevicesSecretUnread
         | Some contents \<Rightarrow>
             (let clientSecret = trim_space contents; tailnet = trim_space (flag_text fs ''devices-tailnet'')
              in if clientSecret = [] then Inl DevicesSecretEmpty
                 else Inr \<lparr>dq_enabled = True, dq_clientID = clientID, dq_clientSecret = clientSecret,
                           dq_tailnet = (if tailnet = [] then ''-'' else tailnet)\<rparr>))"

definition parseDevicesServerConfig ::
  "(string \<Rightarrow> duration option) \<Rightarrow> string list \<Rightarrow> (string \<Rightarrow> string) \<Rightarrow> (string \<Rightarrow> string option) \<Rightarrow>
   devices_config_error + devices_server_config" where
  "parseDevicesServerConfig parseDuration arguments getenv readFile =
     (case parse_flags parseDuration (bindDevicesConfigFlags getenv) arguments of
        Inl e \<Rightarrow> Inl (DevicesFlags e)
      | Inr (fs, rest) \<Rightarrow> if rest \<noteq> [] then Inl DevicesArguments else resolveDevicesServerConfig fs readFile)"

section \<open>The auth key\<close>

datatype auth_key_error = AuthKeyPathEmpty | AuthKeyUnread

definition resolveAuthKey :: "(string \<Rightarrow> string option) \<Rightarrow> string \<Rightarrow> auth_key_error + string" where
  "resolveAuthKey readFile value =
     (let v = trim_space value
      in if \<not> has_prefix v ''file:'' then Inr v
         else let path = trim_space (trim_prefix v ''file:'')
           in if path = [] then Inl AuthKeyPathEmpty
              else case readFile path of None \<Rightarrow> Inl AuthKeyUnread | Some contents \<Rightarrow> Inr (trim_space contents))"

section \<open>Listening\<close>

text \<open>\<open>net.SplitHostPort\<close> and \<open>net.JoinHostPort\<close>\<close>

definition split_host_port :: "string \<Rightarrow> (string \<times> string) option" where
  "split_host_port s =
     (case split_last_colon s of
        None \<Rightarrow> None
      | Some (before, port) \<Rightarrow>
          if hd s = CHR ''['' then
            (let host = takeWhile (\<lambda>c. c \<noteq> CHR '']'') (tl s)
             in if before \<noteq> CHR ''['' # host @ '']'' then None
                else if CHR ''['' \<in> set host \<or> CHR ''['' \<in> set port \<or> CHR '']'' \<in> set port then None
                else Some (host, port))
          else if CHR '':'' \<in> set before \<or> CHR ''['' \<in> set s \<or> CHR '']'' \<in> set s then None
          else Some (before, port))"

definition join_host_port :: "string \<Rightarrow> string \<Rightarrow> string" where
  "join_host_port host port =
     (if CHR '':'' \<in> set host then CHR ''['' # host @ '']:'' @ port else host @ '':'' @ port)"

datatype listen_error = ListenAddressInvalid | LocalAddressUnread | NoTailscaleAddress | NotTailscaleAddress string

definition validateTailscaledListenAddress :: "string \<Rightarrow> string \<Rightarrow> string list \<Rightarrow> bool \<Rightarrow> listen_error + string" where
  "validateTailscaledListenAddress host port tailscaleIPs unsafeBroadListen =
     (if host = [] then Inr (join_host_port (hd tailscaleIPs) port)
      else if host \<in> set tailscaleIPs then Inr (join_host_port host port)
      else if unsafeBroadListen then Inr (join_host_port host port)
      else Inl (NotTailscaleAddress host))"

text \<open>\<open>addresses\<close> are those of the local daemon, \<open>None\<close> when it cannot be asked.\<close>

definition tailscaledListenAddress :: "addr list option \<Rightarrow> string \<Rightarrow> bool \<Rightarrow> listen_error + string" where
  "tailscaledListenAddress addresses requested unsafeBroadListen =
     (case split_host_port requested of
        None \<Rightarrow> Inl ListenAddressInvalid
      | Some (host, port) \<Rightarrow>
          (case addresses of
             None \<Rightarrow> Inl LocalAddressUnread
           | Some as \<Rightarrow>
               if as = [] then Inl NoTailscaleAddress
               else validateTailscaledListenAddress host port (map show_addr as) unsafeBroadListen))"

section \<open>The database directory\<close>

text \<open>\<open>filepath.Dir\<close> of a path text.\<close>

definition clean_part :: "bool \<Rightarrow> string \<Rightarrow> string list \<Rightarrow> string list" where
  "clean_part rooted part path =
     (if part = [] \<or> part = ''.'' then path
      else if part = ''..'' then
        (if path = [] then (if rooted then [] else [''..'']) else if last path = ''..'' then path @ [''..''] else butlast path)
      else path @ [part])"

definition clean_text :: "string \<Rightarrow> string" where
  "clean_text p =
     (let rooted = p \<noteq> [] \<and> hd p = CHR ''/''; parts = fold (clean_part rooted) (split_slashes p) []
      in if rooted then CHR ''/'' # join_with ''/'' parts else if parts = [] then ''.'' else join_with ''/'' parts)"

definition dir_text :: "string \<Rightarrow> string" where
  "dir_text p = clean_text (rev (dropWhile (\<lambda>c. c \<noteq> CHR ''/'') (rev p)))"

text \<open>The directory that must be created, if any.\<close>

definition ensureDatabaseDirectory :: "string \<Rightarrow> string option" where
  "ensureDatabaseDirectory path =
     (if path = '':memory:'' \<or> has_prefix path ''file:'' then None
      else if dir_text path = ''.'' then None else Some (dir_text path))"

section \<open>The collector\<close>

record collector_config =
  cq_serverURL :: string
  cq_socket :: string
  cq_check :: bool
  cq_relayTelemetry :: string

datatype collector_error = CollectorFlags flag_error | CollectorArguments | RelayTelemetryMode

definition text_or :: "string \<Rightarrow> string \<Rightarrow> string" where
  "text_or s usual = (if s = [] then usual else s)"

definition collector_flags :: "(string \<Rightarrow> string) \<Rightarrow> flag_set" where
  "collector_flags getenv =
     [(''server'', TextFlag (text_or (getenv ''TAILPATH_SERVER_URL'') ''http://tailpath:8080'')),
      (''socket'', TextFlag (getenv ''TAILPATH_SOCKET'')),
      (''relay-telemetry'', TextFlag (text_or (getenv ''TAILPATH_RELAY_TELEMETRY'') ''auto'')),
      (''check'', SwitchFlag False)]"

definition parseCollectorConfig ::
  "(string \<Rightarrow> duration option) \<Rightarrow> string list \<Rightarrow> (string \<Rightarrow> string) \<Rightarrow> collector_error + collector_config" where
  "parseCollectorConfig parseDuration arguments getenv =
     (case parse_flags parseDuration (collector_flags getenv) arguments of
        Inl e \<Rightarrow> Inl (CollectorFlags e)
      | Inr (fs, rest) \<Rightarrow>
          if rest \<noteq> [] then Inl CollectorArguments
          else if flag_text fs ''relay-telemetry'' \<noteq> ''auto'' \<and> flag_text fs ''relay-telemetry'' \<noteq> ''off''
          then Inl RelayTelemetryMode
          else Inr \<lparr>cq_serverURL = flag_text fs ''server'', cq_socket = flag_text fs ''socket'',
                    cq_check = flag_on fs ''check'', cq_relayTelemetry = flag_text fs ''relay-telemetry''\<rparr>)"

record collector_check =
  cc_diagnostic :: diagnostic
  cc_relayCapability :: relay_capability
  cc_relayIdentity :: relay_identity_evidence
  cc_relayEnabled :: bool
  cc_relaySessionCount :: nat

text \<open>\<open>relay\<close> is what \<open>PeerRelaySnapshot\<close> gives, asked for unless the telemetry is off.\<close>

definition checkCollector ::
  "status_error + diagnostic \<Rightarrow> relay_snapshot \<times> bool \<Rightarrow> string \<Rightarrow> status_error + collector_check" where
  "checkCollector result relay relayTelemetry =
     (case result of
        Inl e \<Rightarrow> Inl e
      | Inr d \<Rightarrow>
          if relayTelemetry = ''off''
          then Inr \<lparr>cc_diagnostic = d, cc_relayCapability = RelayOff, cc_relayIdentity = NoRelayIdentityEvidence,
                    cc_relayEnabled = False, cc_relaySessionCount = 0\<rparr>
          else let capability = (if snd relay then RelayTransientFailure else rn_capability (fst relay));
                   enabled = (capability = RelayEnabled)
            in Inr \<lparr>cc_diagnostic = d, cc_relayCapability = capability, cc_relayIdentity = rn_identityEvidence (fst relay),
                    cc_relayEnabled = enabled,
                    cc_relaySessionCount = (if enabled then length (rn_sessions (fst relay)) else 0)\<rparr>)"

section \<open>The health check\<close>

datatype health_error = HealthFlags flag_error | HealthURL | HealthUnreached | HealthStatus int

definition health_flags :: flag_set where
  "health_flags = [(''url'', TextFlag ''http://127.0.0.1:8091/healthz'')]"

text \<open>\<open>parseURL\<close> gives the scheme and the host; \<open>get\<close> the status of the answer.\<close>

definition runHealthcheck ::
  "(string \<Rightarrow> duration option) \<Rightarrow> (string \<Rightarrow> (string \<times> string) option) \<Rightarrow> (string \<Rightarrow> int option) \<Rightarrow> string list \<Rightarrow>
   health_error option" where
  "runHealthcheck parseDuration parseURL get arguments =
     (case parse_flags parseDuration health_flags arguments of
        Inl e \<Rightarrow> Some (HealthFlags e)
      | Inr (fs, _) \<Rightarrow>
          (case parseURL (flag_text fs ''url'') of
             None \<Rightarrow> Some HealthURL
           | Some (scheme, host) \<Rightarrow>
               if scheme \<noteq> ''http'' \<or> host = [] then Some HealthURL
               else case get (flag_text fs ''url'') of
                 None \<Rightarrow> Some HealthUnreached
               | Some status \<Rightarrow> if status \<noteq> 200 then Some (HealthStatus status) else None))"

section \<open>Facts\<close>

text \<open>A flag given as \<open>-name=value\<close> replaces the value it had, whether from the environment or the command line.\<close>

lemma flag_argument_given:
  assumes "name \<noteq> []" "hd name \<noteq> CHR ''-''" "CHR ''='' \<notin> set name"
  shows "flag_argument (CHR ''-'' # name @ CHR ''='' # text) = NamedFlag name (Some text)"
proof -
  have "hd name \<noteq> CHR ''=''" using assms(1,3) by (metis hd_in_set)
  moreover have "takeWhile (\<lambda>c. c \<noteq> CHR ''='') (name @ CHR ''='' # text) = name"
    using assms(3) by (subst takeWhile_append2) auto
  moreover have "(CHR ''-'' # name @ CHR ''='' # text) ! 1 = hd name" using assms(1) by (cases name) auto
  ultimately show ?thesis using assms(1,2) by (cases name) (auto simp: flag_argument_def Let_def)
qed

lemma parse_text_flag:
  assumes "map_of fs name = Some (TextFlag old)" "name \<noteq> []" "hd name \<noteq> CHR ''-''" "CHR ''='' \<notin> set name"
  shows "parse_flags parseDuration fs ((CHR ''-'' # name @ CHR ''='' # text) # args) =
    parse_flags parseDuration (mput name (TextFlag text) fs) args"
  using assms(1) by (simp add: flag_argument_given [OF assms(2-4)] set_flag_def)

lemma flag_text_mput [simp]: "flag_text (mput k (TextFlag v) fs) k' = (if k' = k then v else flag_text fs k')"
  by (simp add: flag_text_def)

text \<open>A host and a port read back from their joined text.\<close>

lemma split_last_colon_append:
  assumes "CHR '':'' \<notin> set port"
  shows "split_last_colon (before @ CHR '':'' # port) = Some (before, port)"
proof -
  have "takeWhile (\<lambda>c. c \<noteq> CHR '':'') (rev port @ CHR '':'' # rev before) = rev port"
    using assms by (subst takeWhile_append2) auto
  moreover have "dropWhile (\<lambda>c. c \<noteq> CHR '':'') (rev port @ CHR '':'' # rev before) = CHR '':'' # rev before"
    using assms by (subst dropWhile_append2) auto
  ultimately show ?thesis by (simp add: split_last_colon_def)
qed

lemma split_join_host_port:
  assumes "CHR '':'' \<notin> set port" "set ''[]'' \<inter> set (host @ port) = {}"
  shows "split_host_port (join_host_port host port) = Some (host, port)"
proof (cases "CHR '':'' \<in> set host")
  case True
  have "takeWhile (\<lambda>c. c \<noteq> CHR '']'') (host @ CHR '']'' # CHR '':'' # port) = host"
    using assms(2) by (subst takeWhile_append2) auto
  then show ?thesis
    using True assms split_last_colon_append [OF assms(1), of "CHR ''['' # host @ '']''"]
    by (simp add: join_host_port_def split_host_port_def)
next
  case False
  have "hd (host @ CHR '':'' # port) \<noteq> CHR ''[''" using assms(2) by (cases host) auto
  then show ?thesis
    using False assms split_last_colon_append [OF assms(1), of host]
    by (auto simp: join_host_port_def split_host_port_def)
qed

lemma validate_listen_cases:
  assumes "tailscaledListenAddress addresses requested unsafe = Inr address"
  obtains host port where "address = join_host_port host port"
    "(\<exists>as. addresses = Some as \<and> host \<in> show_addr ` set as) \<or> unsafe"
proof -
  obtain host port as where r: "split_host_port requested = Some (host, port)" "addresses = Some as" "as \<noteq> []"
      "validateTailscaledListenAddress host port (map show_addr as) unsafe = Inr address"
    using assms by (auto simp: tailscaledListenAddress_def split: option.splits if_splits)
  consider "host = []" "address = join_host_port (hd (map show_addr as)) port"
    | "address = join_host_port host port" "host \<in> show_addr ` set as \<or> unsafe"
    using r(4) by (auto simp: validateTailscaledListenAddress_def split: if_splits)
  then show thesis
  proof cases
    case 1
    moreover have "hd (map show_addr as) \<in> show_addr ` set as" using r(3) by (cases as) auto
    ultimately show thesis using that r(2) by blast
  next
    case 2
    then show thesis using that r(2) by blast
  qed
qed

end
