(* ===== verification/Server_Process.thy ===== *)
theory Server_Process
  imports Process_Flags
begin

text \<open>
  Starting the server (\<open>runServer\<close> of \<open>cmd/tailpath/main.go\<close>): flags, database, network, application, device
  directory and the HTTP interface, in the order of the code, with every error on the way. What the process meets
  is a record: files, the local daemon, the listeners. The generated data of the fixture server is left out; its
  flags and its network are not. The theorems say what a started server serves to whom.
\<close>

section \<open>Flags\<close>

definition server_flags :: "bool \<Rightarrow> (string \<Rightarrow> string) \<Rightarrow> flag_set" where
  "server_flags fixture getenv =
     [(''network'', TextFlag (if fixture then ''plain'' else ''tsnet'')), (''listen'', TextFlag '':8080''),
      (''hostname'', TextFlag ''tailpath''), (''state-dir'', TextFlag ''tailpath-tsnet''),
      (''database'', TextFlag (if fixture then '':memory:'' else ''tailpath.db'')),
      (''web-dir'', TextFlag ''web/dist''), (''socket'', TextFlag []), (''admin-listen'', TextFlag ''127.0.0.1:8091''),
      (''heartbeat-interval'', DurationFlag minute), (''unsafe-allow-non-tailnet-listen'', SwitchFlag False),
      (''scale'', SwitchFlag False), (''relay-scale'', SwitchFlag False), (''empty'', SwitchFlag False),
      (''devices'', SwitchFlag False)] @ bindDevicesConfigFlags getenv"

datatype server_error =
    ServerFlags flag_error | FixtureOnly string | FixturesExclusive | HeartbeatOutOfRange
  | DevicesConfig devices_config_error | DevicesFixtureWithAPI | DatabaseDirectory | OpenDatabase
  | PlainForFixtures | TailscaledIdentity status_error | ListenAddress listen_error | ListenFailed
  | TsnetAuthKey auth_key_error | TsnetStart | TsnetUp | TsnetClient | UnknownNetwork string
  | AppFailed app_error

definition fixture_only :: "bool \<Rightarrow> flag_set \<Rightarrow> server_error option" where
  "fixture_only fixture fs =
     first_error (\<lambda>name. if flag_on fs name \<and> \<not> fixture then Some (FixtureOnly name) else None)
       [''scale'', ''relay-scale'', ''empty'', ''devices'']"

definition heartbeat_of :: "flag_set \<Rightarrow> duration" where
  "heartbeat_of fs =
     (let heartbeat = flag_duration fs ''heartbeat-interval''
      in if (flag_on fs ''scale'' \<or> flag_on fs ''relay-scale'') \<and> heartbeat = minute then 10 * minute else heartbeat)"

text \<open>The flags, the heartbeat interval and the devices configuration of a server.\<close>

definition server_settings ::
  "(string \<Rightarrow> duration option) \<Rightarrow> (string \<Rightarrow> string) \<Rightarrow> (string \<Rightarrow> string option) \<Rightarrow> bool \<Rightarrow> string list \<Rightarrow>
   server_error + flag_set \<times> duration \<times> devices_server_config" where
  "server_settings parseDuration getenv readFile fixture arguments =
     (case parse_flags parseDuration (server_flags fixture getenv) arguments of
        Inl e \<Rightarrow> Inl (ServerFlags e)
      | Inr (fs, _) \<Rightarrow>
          (case fixture_only fixture fs of
             Some e \<Rightarrow> Inl e
           | None \<Rightarrow>
               if length (filter (flag_on fs) [''scale'', ''relay-scale'', ''empty'']) > 1 then Inl FixturesExclusive
               else let heartbeat = heartbeat_of fs
                 in if heartbeat < 10 * second \<or> heartbeat > 10 * minute then Inl HeartbeatOutOfRange
                    else case resolveDevicesServerConfig fs readFile of
                      Inl e \<Rightarrow> Inl (DevicesConfig e)
                    | Inr devices \<Rightarrow>
                        if flag_on fs ''devices'' \<and> dq_enabled devices then Inl DevicesFixtureWithAPI
                        else Inr (fs, heartbeat, devices)))"

section \<open>The network\<close>

text \<open>
  \<open>bw_status\<close> and \<open>bw_addresses\<close> are the two answers of the local daemon to \<open>StatusWithoutPeers\<close>; \<open>bw_http\<close> holds the
  parameters of the HTTP interface that do not depend on the command line.
\<close>

record server_world =
  bw_getenv :: "string \<Rightarrow> string"
  bw_readFile :: "string \<Rightarrow> string option"
  bw_parseDuration :: "string \<Rightarrow> duration option"
  bw_makeDir :: "string \<Rightarrow> bool"
  bw_open :: "string \<Rightarrow> database option"
  bw_status :: "runtime_status option"
  bw_addresses :: "addr list option"
  bw_whoIs :: "string \<Rightarrow> string + string option"
  bw_tsnetStarts :: bool
  bw_tsnetUp :: bool
  bw_tsnetClient :: bool
  bw_listen :: "string \<Rightarrow> bool"
  bw_webParts :: "string \<Rightarrow> string list"
  bw_disk :: bool
  bw_now :: time
  bw_newNodeID :: "nat \<Rightarrow> string"
  bw_http :: http_config

text \<open>\<open>LoopbackAuthorizer\<close>: \<open>net.ParseIP\<close> knows no zones.\<close>

definition LoopbackAuthorizer :: "string \<Rightarrow> string + string" where
  "LoopbackAuthorizer remoteAddr =
     (case split_host_port remoteAddr of
        None \<Rightarrow> Inl ''address''
      | Some (host, _) \<Rightarrow>
          (case parse_addr host of
             None \<Rightarrow> Inl ''fixture ingest only accepts loopback reporters''
           | Some a \<Rightarrow>
               if (case a of Addr6 _ z \<Rightarrow> z = [] | _ \<Rightarrow> True) \<and> addr_loopback (addr_unmap a) then Inr ''fixture''
               else Inl ''fixture ingest only accepts loopback reporters''))"

record network =
  nw_mode :: string
  nw_listen :: string
  nw_authorizer :: "string \<Rightarrow> string + string"
  nw_controlIDs :: "string list"

definition open_tailscaled :: "server_world \<Rightarrow> flag_set \<Rightarrow> server_error + network" where
  "open_tailscaled w fs =
     (case ControlStableNodeIDs (bw_status w) of
        Inl e \<Rightarrow> Inl (TailscaledIdentity e)
      | Inr controlIDs \<Rightarrow>
          (case tailscaledListenAddress (bw_addresses w) (flag_text fs ''listen'') (flag_on fs ''unsafe-allow-non-tailnet-listen'') of
             Inl e \<Rightarrow> Inl (ListenAddress e)
           | Inr address \<Rightarrow>
               if \<not> bw_listen w address then Inl ListenFailed
               else Inr \<lparr>nw_mode = ''tailscaled'', nw_listen = address, nw_authorizer = Authorize (bw_whoIs w),
                         nw_controlIDs = controlIDs\<rparr>))"

definition open_tsnet :: "server_world \<Rightarrow> flag_set \<Rightarrow> server_error + network" where
  "open_tsnet w fs =
     (case resolveAuthKey (bw_readFile w) (bw_getenv w ''TS_AUTHKEY'') of
        Inl e \<Rightarrow> Inl (TsnetAuthKey e)
      | Inr _ \<Rightarrow>
          if \<not> bw_tsnetStarts w then Inl TsnetStart
          else if \<not> bw_tsnetUp w then Inl TsnetUp
          else if \<not> bw_listen w (flag_text fs ''listen'') then Inl ListenFailed
          else if \<not> bw_tsnetClient w then Inl TsnetClient
          else case ControlStableNodeIDs (bw_status w) of
            Inl _ \<Rightarrow> Inl ListenFailed
          | Inr controlIDs \<Rightarrow>
              Inr \<lparr>nw_mode = ''tsnet'', nw_listen = flag_text fs ''listen'', nw_authorizer = Authorize (bw_whoIs w),
                   nw_controlIDs = controlIDs\<rparr>)"

definition open_network :: "server_world \<Rightarrow> bool \<Rightarrow> flag_set \<Rightarrow> server_error + network" where
  "open_network w fixture fs =
     (let mode = flag_text fs ''network''
      in if mode = ''plain'' then
           (if \<not> fixture then Inl PlainForFixtures
            else if \<not> bw_listen w (flag_text fs ''listen'') then Inl ListenFailed
            else Inr \<lparr>nw_mode = mode, nw_listen = flag_text fs ''listen'', nw_authorizer = LoopbackAuthorizer,
                      nw_controlIDs = []\<rparr>)
         else if mode = ''tailscaled'' then open_tailscaled w fs
         else if mode = ''tsnet'' then open_tsnet w fs
         else Inl (UnknownNetwork mode))"

section \<open>The server\<close>

definition open_database :: "server_world \<Rightarrow> flag_set \<Rightarrow> server_error + database" where
  "open_database w fs =
     (let path = flag_text fs ''database''
      in if (case ensureDatabaseDirectory path of Some directory \<Rightarrow> \<not> bw_makeDir w directory | None \<Rightarrow> False)
         then Inl DatabaseDirectory
         else case bw_open w path of None \<Rightarrow> Inl OpenDatabase | Some db \<Rightarrow> Inr db)"

definition syncing_state :: directory_sync_state where
  "syncing_state =
     \<lparr>ds_status = DirectorySyncSyncing, ds_lastAttemptAt = None, ds_lastSuccessAt = None, ds_nextRetryAt = None,
      ds_errorCode = NoDirectoryError, ds_invalidAddressCount = 0\<rparr>"

text \<open>The directory of an application that starts: cleared, or waiting for its first synchronisation.\<close>

definition start_directory ::
  "agg_config \<Rightarrow> codec \<Rightarrow> bool \<Rightarrow> bool \<Rightarrow> time \<Rightarrow> app_state \<Rightarrow> app_error + app_state" where
  "start_directory cfg cd enabled disk now ap =
     (if \<not> enabled then
        (case ClearDirectoryAt cfg cd disk now now ap of (Inl e, _) \<Rightarrow> Inl e | (Inr _, ap') \<Rightarrow> Inr ap')
      else if ds_status (dv_sync (DeviceDirectory cfg now (ap_aggregator ap))) = DirectorySyncDisabled then
        (case UpdateDirectorySyncStateAt cfg cd disk syncing_state now now ap of
           (Inl e, _) \<Rightarrow> Inl e | (Inr _, ap') \<Rightarrow> Inr ap')
      else Inr ap)"

definition server_options :: "server_world \<Rightarrow> agg_config \<Rightarrow> network \<Rightarrow> flag_set \<Rightarrow> devices_server_config \<Rightarrow> http_config" where
  "server_options w cfg net fs devices =
     (let webDir = flag_text fs ''web-dir''
      in (bw_http w)\<lparr>wc_aggregator := cfg, wc_authorizer := Some (nw_authorizer net),
           wc_deviceDirectory := (dq_enabled devices \<or> flag_on fs ''devices''),
           wc_fixtureMutation := None, wc_fixtureLifecycle := None,
           wc_webDir := (if webDir = [] then None else Some (bw_webParts w webDir))\<rparr>)"

record server =
  sv_network :: network
  sv_config :: http_config
  sv_app :: app_state
  sv_adminListen :: string
  sv_synchronizer :: "devices_server_config option"

text \<open>\<open>None\<close> when restoring the application panics.\<close>

definition start_application ::
  "server_world \<Rightarrow> flag_set \<Rightarrow> duration \<Rightarrow> devices_server_config \<Rightarrow> database \<Rightarrow> network \<Rightarrow> (server_error + server) option"
where
  "start_application w fs heartbeat devices db net =
     (let cfg = new_config heartbeat (nw_controlIDs net) (bw_newNodeID w); cd = wc_codec (bw_http w)
      in case New cfg cd (bw_disk w) (bw_disk w) (bw_now w) db of
           None \<Rightarrow> None
         | Some (Inl e, _) \<Rightarrow> Some (Inl (AppFailed e))
         | Some (Inr ap, _) \<Rightarrow>
             (case start_directory cfg cd (dq_enabled devices) (bw_disk w) (bw_now w) ap of
                Inl e \<Rightarrow> Some (Inl (AppFailed e))
              | Inr ap' \<Rightarrow>
                  Some (Inr \<lparr>sv_network = net, sv_config = server_options w cfg net fs devices, sv_app = ap',
                             sv_adminListen = flag_text fs ''admin-listen'',
                             sv_synchronizer = (if dq_enabled devices then Some devices else None)\<rparr>)))"

definition runServer :: "server_world \<Rightarrow> string list \<Rightarrow> (server_error + server) option" where
  "runServer w arguments =
     (case server_settings (bw_parseDuration w) (bw_getenv w) (bw_readFile w) False arguments of
        Inl e \<Rightarrow> Some (Inl e)
      | Inr (fs, heartbeat, devices) \<Rightarrow>
          (case open_database w fs of
             Inl e \<Rightarrow> Some (Inl e)
           | Inr db \<Rightarrow>
               (case open_network w False fs of
                  Inl e \<Rightarrow> Some (Inl e)
                | Inr net \<Rightarrow> start_application w fs heartbeat devices db net)))"

section \<open>What a started server is\<close>

lemma open_network_cases:
  assumes "open_network w False fs = Inr net"
  obtains (tailscaled) host port where "nw_mode net = ''tailscaled''" "nw_authorizer net = Authorize (bw_whoIs w)"
      "nw_listen net = join_host_port host port"
      "(\<exists>as. bw_addresses w = Some as \<and> host \<in> show_addr ` set as) \<or> flag_on fs ''unsafe-allow-non-tailnet-listen''"
  | (tsnet) "nw_mode net = ''tsnet''" "nw_authorizer net = Authorize (bw_whoIs w)"
proof -
  consider "open_tailscaled w fs = Inr net" | "open_tsnet w fs = Inr net"
    using assms by (auto simp: open_network_def Let_def split: if_splits)
  then show thesis
  proof cases
    case 1
    then obtain address where a: "tailscaledListenAddress (bw_addresses w) (flag_text fs ''listen'')
        (flag_on fs ''unsafe-allow-non-tailnet-listen'') = Inr address"
      and n: "nw_mode net = ''tailscaled''" "nw_authorizer net = Authorize (bw_whoIs w)" "nw_listen net = address"
      by (auto simp: open_tailscaled_def split: sum.splits if_splits)
    show thesis by (rule validate_listen_cases [OF a]) (use n tailscaled in blast)
  next
    case 2
    then have "nw_mode net = ''tsnet''" "nw_authorizer net = Authorize (bw_whoIs w)"
      by (auto simp: open_tsnet_def split: sum.splits if_splits)
    then show thesis by (rule tsnet)
  qed
qed

lemma started_server:
  assumes "runServer w arguments = Some (Inr sv)"
  obtains fs rest net devices ap0 cfg where
    "parse_flags (bw_parseDuration w) (server_flags False (bw_getenv w)) arguments = Inr (fs, rest)"
    "resolveDevicesServerConfig fs (bw_readFile w) = Inr devices" "\<not> flag_on fs ''devices''"
    "open_network w False fs = Inr net" "sv_network sv = net" "sv_config sv = server_options w cfg net fs devices"
    "start_directory cfg (wc_codec (bw_http w)) (dq_enabled devices) (bw_disk w) (bw_now w) ap0 = Inr (sv_app sv)"
    "sv_synchronizer sv = (if dq_enabled devices then Some devices else None)"
proof -
  obtain fs heartbeat devices where s: "server_settings (bw_parseDuration w) (bw_getenv w) (bw_readFile w) False arguments =
      Inr (fs, heartbeat, devices)"
    using assms by (auto simp: runServer_def split: sum.splits)
  then obtain rest where p: "parse_flags (bw_parseDuration w) (server_flags False (bw_getenv w)) arguments = Inr (fs, rest)"
    and d: "resolveDevicesServerConfig fs (bw_readFile w) = Inr devices" and o: "fixture_only False fs = None"
    by (auto simp: server_settings_def Let_def split: sum.splits option.splits if_splits)
  have "\<not> flag_on fs ''devices''" using o by (auto simp: fixture_only_def split: if_splits)
  moreover obtain db net where n: "open_network w False fs = Inr net"
    and a: "start_application w fs heartbeat devices db net = Some (Inr sv)"
    using assms s by (auto simp: runServer_def split: sum.splits)
  moreover obtain ap0 db' where "start_directory (new_config heartbeat (nw_controlIDs net) (bw_newNodeID w)) (wc_codec (bw_http w))
      (dq_enabled devices) (bw_disk w) (bw_now w) ap0 = Inr (sv_app sv)"
    "sv_network sv = net" "sv_synchronizer sv = (if dq_enabled devices then Some devices else None)"
    "sv_config sv = server_options w (new_config heartbeat (nw_controlIDs net) (bw_newNodeID w)) net fs devices"
    using a by (auto simp: start_application_def Let_def split: option.splits sum.splits)
  ultimately show thesis using that p d by blast
qed

lemma commit_aggregator:
  "commitDirectoryCandidate cfg cd disk candidate updatedAt now ap = (Inr u, ap') \<Longrightarrow> ap_aggregator ap' = candidate"
  by (auto simp: commitDirectoryCandidate_def split: prod.splits sum.splits)

lemma cleared_directory:
  "ClearDirectoryAt cfg cd disk t now ap = (Inr b, ap') \<Longrightarrow> ag_directory (ap_aggregator ap') = None"
  by (auto simp: ClearDirectoryAt_def ClearDirectory_def dest: commit_aggregator split: if_splits prod.splits sum.splits)

lemma syncing_directory:
  assumes "UpdateDirectorySyncStateAt cfg cd disk syncing_state t now ap = (Inr u, ap')"
  shows "ds_status (dv_sync (DeviceDirectory cfg' now' (ap_aggregator ap'))) = DirectorySyncSyncing"
proof -
  obtain candidate where c: "UpdateDirectorySyncState syncing_state (ap_aggregator ap) = Inr candidate"
    and "commitDirectoryCandidate cfg cd disk candidate t now ap = (Inr u, ap')"
    using assms by (auto simp: UpdateDirectorySyncStateAt_def split: sum.splits)
  then have "ap_aggregator ap' = candidate" by (auto dest: commit_aggregator)
  moreover obtain d where "ag_directory candidate = Some d" "dy_sync d = syncing_state"
    using c by (auto simp: UpdateDirectorySyncState_def split: option.splits if_splits)
  ultimately show ?thesis by (simp add: DeviceDirectory_def syncing_state_def)
qed

lemma started_directory:
  assumes "start_directory cfg cd enabled disk now ap = Inr ap'"
  shows "if enabled then ds_status (dv_sync (DeviceDirectory cfg now (ap_aggregator ap'))) \<noteq> DirectorySyncDisabled
    else ag_directory (ap_aggregator ap') = None"
proof (cases enabled)
  case True
  then show ?thesis
    using assms syncing_directory [of cfg cd disk now now ap]
    by (force simp: start_directory_def split: if_splits prod.splits sum.splits)
next
  case False
  then show ?thesis
    using assms cleared_directory [of cfg cd disk now now ap]
    by (auto simp: start_directory_def split: prod.splits sum.splits)
qed

section \<open>Properties\<close>

text \<open>C36: However the server is started, it does not serve its API to strangers: with any command line, environment and
  files, a server that comes up (outside of the fixture mode) answers every API request from an address to which the
  local daemon gives no stable node id with 401 and without touching its state, has no test hooks, and listens either
  through an embedded Tailscale node or, in the mode over the local daemon, on an address of that daemon unless the
  flag that allows others was given.\<close>

theorem started_server_guarded:
  assumes "runServer w arguments = Some (Inr sv)"
  shows "(\<forall>m req ap. has_prefix (request_path req) ''/api/v1/'' \<and> (\<forall>i. bw_whoIs w (wq_remoteAddr req) = Inr (Some i) \<longrightarrow> i = [])
      \<longrightarrow> authorizeAPI (sv_config sv) m req ap = Some (problem 401 ''Tailnet identity is required'', ap)) \<and>
    wc_fixtureMutation (sv_config sv) = None \<and> wc_fixtureLifecycle (sv_config sv) = None \<and>
    (nw_mode (sv_network sv) = ''tsnet'' \<or>
     nw_mode (sv_network sv) = ''tailscaled'' \<and>
     (\<exists>host port fs rest. nw_listen (sv_network sv) = join_host_port host port \<and>
        parse_flags (bw_parseDuration w) (server_flags False (bw_getenv w)) arguments = Inr (fs, rest) \<and>
        ((\<exists>as. bw_addresses w = Some as \<and> host \<in> show_addr ` set as) \<or> flag_on fs ''unsafe-allow-non-tailnet-listen'')))"
proof (rule started_server [OF assms])
  fix fs rest net devices ap0 cfg
  assume p: "parse_flags (bw_parseDuration w) (server_flags False (bw_getenv w)) arguments = Inr (fs, rest)"
    and n: "open_network w False fs = Inr net" "sv_network sv = net" "sv_config sv = server_options w cfg net fs devices"
  have auth: "nw_authorizer net = Authorize (bw_whoIs w)" by (rule open_network_cases [OF n(1)])
  have "authorizeAPI (sv_config sv) m req ap = Some (problem 401 ''Tailnet identity is required'', ap)"
    if "has_prefix (request_path req) ''/api/v1/''" "\<forall>i. bw_whoIs w (wq_remoteAddr req) = Inr (Some i) \<longrightarrow> i = []" for m req ap
  proof (rule authorizeAPI_identified [OF that(1)])
    show "\<not> identified (sv_config sv) req"
      using that(2) by (auto simp: identified_def n(3) server_options_def Let_def auth Authorize_def split: sum.splits option.splits if_splits)
  qed
  moreover have "wc_fixtureMutation (sv_config sv) = None" "wc_fixtureLifecycle (sv_config sv) = None"
    by (simp_all add: n(3) server_options_def Let_def)
  moreover have "nw_mode net = ''tsnet'' \<or> nw_mode net = ''tailscaled'' \<and> (\<exists>host port. nw_listen net = join_host_port host port \<and>
        ((\<exists>as. bw_addresses w = Some as \<and> host \<in> show_addr ` set as) \<or> flag_on fs ''unsafe-allow-non-tailnet-listen''))"
    by (rule open_network_cases [OF n(1)]) blast+
  ultimately show ?thesis using p n(2) by blast
qed

lemma resolved_from_flags:
  assumes "resolveDevicesServerConfig fs readFile = Inr devices"
  shows "let clientID = trim_space (flag_text fs ''devices-oauth-client-id'');
      secretFile = trim_space (flag_text fs ''devices-oauth-client-secret-file'');
      tailnet = trim_space (flag_text fs ''devices-tailnet'')
    in if clientID = [] \<and> secretFile = [] then \<not> dq_enabled devices
       else clientID \<noteq> [] \<and> secretFile \<noteq> [] \<and>
         (\<exists>contents. readFile secretFile = Some contents \<and> trim_space contents \<noteq> [] \<and>
           devices = \<lparr>dq_enabled = True, dq_clientID = clientID, dq_clientSecret = trim_space contents,
             dq_tailnet = (if tailnet = [] then ''-'' else tailnet)\<rparr>)"
  using assms by (auto simp: resolveDevicesServerConfig_def Let_def split: if_splits option.splits)

lemma offered_directory:
  "\<exists>c. getCapabilities wc = Answer 200 (CapabilitiesBody c) \<and>
     (SupportsFeature c FeatureDeviceDirectory \<longleftrightarrow> wc_deviceDirectory wc)"
proof -
  have "\<not> SupportsFeature CurrentServerCapabilities FeatureDeviceDirectory" by code_simp
  then show ?thesis by (simp add: getCapabilities_def Let_def SupportsFeature_def)
qed

text \<open>C37: The device directory follows the configuration, by which is meant the flags as parsed from the command line
  over their defaults from the environment. When neither a client id nor a secret file is configured, a server that
  comes up runs no synchroniser, shows an empty, disabled directory even if an earlier run left one in the database,
  and does not offer the feature. Else both are configured and the file held a secret, and the server runs the
  synchroniser with exactly that client id, that secret and the configured tailnet (or the default one), offers the
  feature, and its directory is not disabled from the first request on.\<close>

theorem directory_follows_configuration:
  assumes "runServer w arguments = Some (Inr sv)"
  shows "\<exists>fs rest. parse_flags (bw_parseDuration w) (server_flags False (bw_getenv w)) arguments = Inr (fs, rest) \<and>
    (let clientID = trim_space (flag_text fs ''devices-oauth-client-id'');
         secretFile = trim_space (flag_text fs ''devices-oauth-client-secret-file'');
         tailnet = trim_space (flag_text fs ''devices-tailnet'')
     in if clientID = [] \<and> secretFile = []
        then sv_synchronizer sv = None \<and>
          DeviceDirectory cfg now (ap_aggregator (sv_app sv)) = \<lparr>dv_sync = disabled_sync, dv_devices = []\<rparr> \<and>
          (\<exists>c. getCapabilities (sv_config sv) = Answer 200 (CapabilitiesBody c) \<and> \<not> SupportsFeature c FeatureDeviceDirectory)
        else clientID \<noteq> [] \<and> secretFile \<noteq> [] \<and>
          (\<exists>contents. bw_readFile w secretFile = Some contents \<and> trim_space contents \<noteq> [] \<and>
             sv_synchronizer sv = Some \<lparr>dq_enabled = True, dq_clientID = clientID, dq_clientSecret = trim_space contents,
               dq_tailnet = (if tailnet = [] then ''-'' else tailnet)\<rparr>) \<and>
          ds_status (dv_sync (DeviceDirectory cfg now (ap_aggregator (sv_app sv)))) \<noteq> DirectorySyncDisabled \<and>
          (\<exists>c. getCapabilities (sv_config sv) = Answer 200 (CapabilitiesBody c) \<and> SupportsFeature c FeatureDeviceDirectory))"
proof (rule started_server [OF assms])
  fix fs rest net devices ap0 cfg'
  assume p: "parse_flags (bw_parseDuration w) (server_flags False (bw_getenv w)) arguments = Inr (fs, rest)"
    and d: "resolveDevicesServerConfig fs (bw_readFile w) = Inr devices" "\<not> flag_on fs ''devices''"
    and c: "sv_config sv = server_options w cfg' net fs devices"
    and a: "start_directory cfg' (wc_codec (bw_http w)) (dq_enabled devices) (bw_disk w) (bw_now w) ap0 = Inr (sv_app sv)"
    and y: "sv_synchronizer sv = (if dq_enabled devices then Some devices else None)"
  have f: "wc_deviceDirectory (sv_config sv) = dq_enabled devices" using d(2) by (simp add: c server_options_def Let_def)
  have status: "ds_status (dv_sync (DeviceDirectory cfg now s)) = ds_status (dv_sync (DeviceDirectory cfg1 now1 s))"
    for cfg1 now1 s by (simp add: DeviceDirectory_def split: option.splits)
  note r = resolved_from_flags [OF d(1)] and o = offered_directory [of "sv_config sv", unfolded f]
  show ?thesis
  proof (cases "dq_enabled devices")
    case True
    then show ?thesis
      using p r o y started_directory [OF a] status [of _ cfg' "bw_now w"] by (auto simp: Let_def split: if_splits)
  next
    case False
    then show ?thesis
      using p r o y started_directory [OF a] by (auto simp: Let_def DeviceDirectory_def split: if_splits)
  qed
qed

section \<open>A server that starts\<close>

definition example_world :: server_world where
  "example_world =
     \<lparr>bw_getenv = (\<lambda>k. if k = ''TAILPATH_DEVICES_OAUTH_CLIENT_ID'' then ''id''
        else if k = ''TAILPATH_DEVICES_OAUTH_CLIENT_SECRET_FILE'' then ''/key'' else []),
      bw_readFile = (\<lambda>_. Some ''secret''), bw_parseDuration = (\<lambda>_. None), bw_makeDir = (\<lambda>_. True),
      bw_open = (\<lambda>_. Some new_database), bw_status = Some (sample_status [] []), bw_addresses = Some [Addr4 100 64 0 9],
      bw_whoIs = (\<lambda>_. Inr None), bw_tsnetStarts = False, bw_tsnetUp = False, bw_tsnetClient = False,
      bw_listen = (\<lambda>_. True), bw_webParts = split_slashes, bw_disk = True, bw_now = ex_time, bw_newNodeID = ex_source,
      bw_http = wx_config\<rparr>"

definition example_arguments :: "string list" where
  "example_arguments = [''-network=tailscaled'', ''--listen'', '':80'']"

definition example_flags :: flag_set where
  "example_flags = mput ''listen'' (TextFlag '':80'') (mput ''network'' (TextFlag ''tailscaled'')
     (server_flags False (bw_getenv example_world)))"

definition example_devices :: devices_server_config where
  "example_devices = \<lparr>dq_enabled = True, dq_clientID = ''id'', dq_clientSecret = ''secret'', dq_tailnet = ''-''\<rparr>"

definition example_network :: network where
  "example_network =
     \<lparr>nw_mode = ''tailscaled'', nw_listen = ''100.64.0.9:80'', nw_authorizer = Authorize (bw_whoIs example_world),
      nw_controlIDs = [''s'']\<rparr>"

lemma example_settings:
  "server_settings (bw_parseDuration example_world) (bw_getenv example_world) (bw_readFile example_world) False example_arguments =
     Inr (example_flags, minute, example_devices)"
  by code_simp

lemma example_opened:
  "open_database example_world example_flags = Inr new_database"
  "open_network example_world False example_flags = Inr example_network"
proof -
  have f: "flag_text example_flags ''database'' = ''tailpath.db''" "flag_text example_flags ''listen'' = '':80''"
      "flag_text example_flags ''network'' = ''tailscaled''" "\<not> flag_on example_flags ''unsafe-allow-non-tailnet-listen''"
    by code_simp+
  have "ensureDatabaseDirectory ''tailpath.db'' = None" by code_simp
  then show "open_database example_world example_flags = Inr new_database"
    by (simp add: open_database_def f example_world_def)
  have "ControlStableNodeIDs (bw_status example_world) = Inr [''s'']" by code_simp
  moreover have "tailscaledListenAddress (Some [Addr4 100 64 0 9]) '':80'' False = Inr ''100.64.0.9:80''" by code_simp
  moreover have "bw_addresses example_world = Some [Addr4 100 64 0 9]" "bw_listen example_world a" for a
    by (simp_all add: example_world_def)
  ultimately show "open_network example_world False example_flags = Inr example_network"
    by (simp add: open_network_def f open_tailscaled_def example_network_def)
qed

lemma new_server:
  "New cfg cd True True t new_database =
     Some (Inr \<lparr>ap_aggregator = newRuntimeState, ap_database = new_database, ap_lastCheckpoint = 0\<rparr>, new_database)"
proof -
  have "RestoreReportsAfter 0 new_database = []" "db_runtimeState new_database = None"
    by (simp_all add: RestoreReportsAfter_def new_database_def)
  then show ?thesis
    by (simp add: New_def RestoreCheckpoint_def SaveHistoryMetadata_def ex_metadata_empty newRuntimeState_def)
qed

text \<open>With a database that works the directory starts.\<close>

lemma syncing_started:
  obtains candidate where "UpdateDirectorySyncState syncing_state a = Inr candidate"
proof -
  have "ValidateSyncState syncing_state = None" by code_simp
  then show thesis using that by (simp add: UpdateDirectorySyncState_def) (simp add: syncing_state_def)
qed

lemma directory_starts:
  obtains ap' where "start_directory cfg cd enabled True now ap = Inr ap'"
proof -
  have c: "fst (commitDirectoryCandidate cfg cd True candidate now now ap) = Inr ()" for candidate
    by (simp add: commitDirectoryCandidate_def SaveCheckpointWithMetadata_def)
  obtain candidate where "UpdateDirectorySyncState syncing_state (ap_aggregator ap) = Inr candidate"
    by (rule syncing_started)
  moreover obtain ap' where "commitDirectoryCandidate cfg cd True candidate now now ap = (Inr (), ap')"
    using c [of candidate] by (metis prod.collapse)
  ultimately have u: "UpdateDirectorySyncStateAt cfg cd True syncing_state now now ap = (Inr (), ap')"
    by (simp add: UpdateDirectorySyncStateAt_def)
  obtain b ap'' where "ClearDirectoryAt cfg cd True now now ap = (Inr b, ap'')"
    using c [of "snd (ClearDirectory (ap_aggregator ap))"]
    by (cases "commitDirectoryCandidate cfg cd True (snd (ClearDirectory (ap_aggregator ap))) now now ap")
      (cases "fst (ClearDirectory (ap_aggregator ap))", auto simp: ClearDirectoryAt_def Let_def split_def)
  with u have "\<exists>ap'. start_directory cfg cd enabled True now ap = Inr ap'" by (simp add: start_directory_def)
  then show thesis using that by blast
qed

lemma example_started:
  obtains sv where "runServer example_world example_arguments = Some (Inr sv)" "sv_network sv = example_network"
    "sv_synchronizer sv = Some example_devices"
proof -
  have s: "bw_disk example_world" "bw_newNodeID example_world = ex_source" "wc_codec (bw_http example_world) = ex_codec"
      "bw_now example_world = ex_time" "nw_controlIDs example_network = [''s'']" "dq_enabled example_devices"
    by (simp_all add: example_world_def wx_config_def example_network_def example_devices_def)
  obtain ap' where "start_directory (new_config minute [''s''] ex_source) ex_codec True True ex_time
      \<lparr>ap_aggregator = newRuntimeState, ap_database = new_database, ap_lastCheckpoint = 0\<rparr> = Inr ap'"
    by (rule directory_starts)
  note d = this
  show thesis
    by (rule that, simp add: runServer_def example_settings example_opened start_application_def Let_def new_server s d)
      simp_all
qed

theorem started_server_guarded_witness:
  "\<exists>sv. runServer example_world example_arguments = Some (Inr sv) \<and>
     authorizeAPI (sv_config sv) wx_moment (wx_request ''b:1'') wx_app =
       Some (problem 401 ''Tailnet identity is required'', wx_app) \<and> nw_listen (sv_network sv) = ''100.64.0.9:80''"
proof (rule example_started)
  fix sv assume s: "runServer example_world example_arguments = Some (Inr sv)" "sv_network sv = example_network"
  have "has_prefix (request_path (wx_request ''b:1'')) ''/api/v1/''" by code_simp
  moreover have "bw_whoIs example_world (wq_remoteAddr (wx_request ''b:1'')) = Inr None" by (simp add: example_world_def)
  ultimately have "authorizeAPI (sv_config sv) wx_moment (wx_request ''b:1'') wx_app =
       Some (problem 401 ''Tailnet identity is required'', wx_app)"
    using started_server_guarded [OF s(1)] by simp
  then show ?thesis using s by (auto simp: example_network_def)
qed

text \<open>The client id and the name of the secret file come from the environment.\<close>

theorem directory_follows_configuration_witness:
  "\<exists>sv c. runServer example_world example_arguments = Some (Inr sv) \<and>
     sv_synchronizer sv = Some \<lparr>dq_enabled = True, dq_clientID = ''id'', dq_clientSecret = ''secret'', dq_tailnet = ''-''\<rparr> \<and>
     getCapabilities (sv_config sv) = Answer 200 (CapabilitiesBody c) \<and> SupportsFeature c FeatureDeviceDirectory"
proof (rule example_started)
  fix sv assume s: "runServer example_world example_arguments = Some (Inr sv)"
  have "parse_flags (bw_parseDuration example_world) (server_flags False (bw_getenv example_world)) example_arguments =
      Inr (example_flags, [])" by code_simp
  moreover have "trim_space (flag_text example_flags ''devices-oauth-client-id'') = ''id''"
    "trim_space (flag_text example_flags ''devices-oauth-client-secret-file'') = ''/key''"
    "trim_space (flag_text example_flags ''devices-tailnet'') = ''-''" "trim_space ''secret'' = ''secret''" by code_simp+
  moreover have "bw_readFile example_world ''/key'' = Some ''secret''" by (simp add: example_world_def)
  ultimately show ?thesis using directory_follows_configuration [OF s] s by (auto simp: Let_def)
qed

end
