(* ===== verification/Store_Migrations.thy ===== *)
theory Store_Migrations
  imports Store_Facts "HOL-Library.Product_Lexorder"
begin

text \<open>
  Opening a database file of an older version (\<open>internal/store/migrations.go\<close>): the seven migrations and the loop
  that runs what is missing, each in a transaction with the new version number.

  The tables are those of the old file. A column that was added later is optional in its rows: \<open>None\<close> is NULL, or that
  the table does not have the column yet (\<open>ensureColumn\<close> then adds it with its default). A JSON column holds
  what it decodes to, \<open>None\<close> when it does not decode; the time of a path event is a text, as the migrations rewrite it.
  Indexes are left out, and so are the tables that no later code reads.
\<close>

section \<open>Old files\<close>

record old_report =
  lr_rowid :: int
  lr_report :: report_envelope
  lr_receivedAt :: "time option"

record old_checkpoint =
  lk_payload :: json
  lk_lastReportRowID :: "int option"
  lk_updatedAt :: time

record old_bucket =
  lb_edgeID :: string
  lb_bucketStart :: time
  lb_sourceID :: string
  lb_targetID :: string
  lb_observerID :: string
  lb_txBytes :: int
  lb_rxBytes :: int
  lb_aToBBytes :: "int option"
  lb_bToABytes :: "int option"

record old_edge =
  lg_edgeID :: string
  lg_sourceID :: string
  lg_targetID :: string
  lg_firstTrafficAt :: time
  lg_lastTrafficAt :: time
  lg_systemTelemetry :: "bool option"

text \<open>\<open>le_observations\<close> is NULL, or a document that decodes or does not.\<close>

record old_event =
  le_id :: int
  le_edgeID :: string
  le_observedAt :: string
  le_path :: "path_observation option"
  le_observations :: "observation_provenance list option option"
  le_conflicts :: "path_observation list option"
  le_directions :: "directional_path_state list option"
  le_tracked :: "bool option"

record old_file =
  lf_version :: int
  lf_reports :: "old_report list"
  lf_checkpoint :: "old_checkpoint option"
  lf_nodes :: "stored_node list"
  lf_redirects :: "stored_redirect list"
  lf_buckets :: "old_bucket list"
  lf_edges :: "old_edge list"
  lf_edgeMap :: "edge_mapping list option"
  lf_events :: "old_event list"
  lf_eventSeq :: int
  lf_minutes :: "rollup_row list"
  lf_hours :: "rollup_row list"
  lf_maintenance :: "(string, time) gomap"

datatype migration_error =
    UnsupportedVersion int | EdgeMapExists | PathUndecodable int | ObservationsUndecodable int | TimestampUnreadable int
  | MigrationFailed

type_synonym migration = "old_file \<Rightarrow> migration_error + old_file"

definition ensureColumn :: "'v \<Rightarrow> 'v option \<Rightarrow> 'v option" where
  "ensureColumn declared column = Some (case column of None \<Rightarrow> declared | Some v \<Rightarrow> v)"

section \<open>The migrations\<close>

text \<open>1: the tables, and the columns of the first drafts. The counters of a bucket were those of its observer.\<close>

definition draft_report :: "old_report \<Rightarrow> old_report" where
  "draft_report r = r\<lparr>lr_receivedAt := ensureColumn (re_collectedAt (lr_report r)) (lr_receivedAt r)\<rparr>"

definition draft_bucket :: "old_bucket \<Rightarrow> old_bucket" where
  "draft_bucket b =
     (if lb_aToBBytes b = None \<or> lb_bToABytes b = None
      then b\<lparr>lb_aToBBytes := Some (if lb_observerID b = lb_sourceID b then lb_txBytes b else lb_rxBytes b),
             lb_bToABytes := Some (if lb_observerID b = lb_targetID b then lb_txBytes b else lb_rxBytes b)\<rparr>
      else b)"

definition migrateDraftSchema :: migration where
  "migrateDraftSchema f =
     Inr (f\<lparr>lf_reports := map draft_report (lf_reports f),
            lf_checkpoint := map_option (\<lambda>c. c\<lparr>lk_lastReportRowID := ensureColumn 0 (lk_lastReportRowID c)\<rparr>) (lf_checkpoint f),
            lf_events := map (\<lambda>e. e\<lparr>le_observations := ensureColumn (Some []) (le_observations e)\<rparr>) (lf_events f),
            lf_buckets := map draft_bucket (lf_buckets f)\<rparr>)"

text \<open>2: the edges of the buckets there are. \<open>MIN\<close> and \<open>MAX\<close> compare texts.\<close>

definition edge_of_buckets :: "string \<Rightarrow> old_bucket list \<Rightarrow> old_edge" where
  "edge_of_buckets edgeID bs =
     \<lparr>lg_edgeID = edgeID, lg_sourceID = Min (lb_sourceID ` set bs), lg_targetID = Min (lb_targetID ` set bs),
      lg_firstTrafficAt = fold text_min (map lb_bucketStart (tl bs)) (lb_bucketStart (hd bs)),
      lg_lastTrafficAt = fold text_max (map lb_bucketStart (tl bs)) (lb_bucketStart (hd bs)), lg_systemTelemetry = None\<rparr>"

definition migrateBoundedHistory :: migration where
  "migrateBoundedHistory f =
     (let known = set (map lg_edgeID (lf_edges f));
          missing = filter (\<lambda>k. k \<notin> known) (remdups (sort (map lb_edgeID (lf_buckets f))))
      in Inr (f\<lparr>lf_edges := lf_edges f @
           map (\<lambda>k. edge_of_buckets k (filter (\<lambda>b. lb_edgeID b = k) (lf_buckets f))) missing\<rparr>))"

text \<open>3: the map from physical to logical edges.\<close>

definition stored_edge :: "old_edge \<Rightarrow> history_edge" where
  "stored_edge e =
     \<lparr>he_edgeID = lg_edgeID e, he_sourceID = lg_sourceID e, he_targetID = lg_targetID e,
      he_firstTrafficAt = lg_firstTrafficAt e, he_lastTrafficAt = lg_lastTrafficAt e,
      he_systemTelemetry = (lg_systemTelemetry e = Some True)\<rparr>"

definition migrateHistoryEdgeMapping :: migration where
  "migrateHistoryEdgeMapping f =
     (if lf_edgeMap f \<noteq> None then Inl EdgeMapExists
      else Inr (f\<lparr>lf_edgeMap := Some (db_edgeMap (rebuildHistoryEdgeMap 0
        (new_database\<lparr>db_redirects := lf_redirects f, db_edges := map stored_edge (lf_edges f)\<rparr>)))\<rparr>))"

text \<open>4: the hours are rolled up again.\<close>

definition migrateCanonicalHourRollups :: migration where
  "migrateCanonicalHourRollups f = Inr (f\<lparr>lf_hours := [], lf_maintenance := mdel ''hour'' (lf_maintenance f)\<rparr>)"

text \<open>5: the path of an event is chosen again from its observations, and repeated evidence is dropped.\<close>

definition edge_ends :: "old_file \<Rightarrow> string \<Rightarrow> string \<times> string" where
  "edge_ends f edgeID =
     (case find_row lg_edgeID edgeID (lf_edges f) of None \<Rightarrow> ([], []) | Some e \<Rightarrow> (lg_sourceID e, lg_targetID e))"

definition event_order :: "old_event \<Rightarrow> string \<times> string \<times> int" where
  "event_order e = (le_edgeID e, le_observedAt e, le_id e)"

record decoded_event =
  xe_id :: int
  xe_edgeID :: string
  xe_path :: path_observation
  xe_observations :: "observation_provenance list"

definition event_observations :: "old_event \<Rightarrow> migration_error + observation_provenance list" where
  "event_observations e =
     (case le_observations e of
        None \<Rightarrow> Inr []
      | Some None \<Rightarrow> Inl (ObservationsUndecodable (le_id e))
      | Some (Some os) \<Rightarrow> Inr os)"

definition decode_event :: "old_event \<Rightarrow> migration_error + decoded_event" where
  "decode_event e =
     (case le_path e of
        None \<Rightarrow> Inl (PathUndecodable (le_id e))
      | Some path \<Rightarrow>
          (case event_observations e of
             Inl err \<Rightarrow> Inl err
           | Inr os \<Rightarrow> Inr \<lparr>xe_id = le_id e, xe_edgeID = le_edgeID e, xe_path = path, xe_observations = os\<rparr>))"

fun try_map :: "('a \<Rightarrow> 'e + 'b) \<Rightarrow> 'a list \<Rightarrow> 'e + 'b list" where
  "try_map f [] = Inr []"
| "try_map f (x # xs) =
     (case f x of Inl e \<Rightarrow> Inl e | Inr y \<Rightarrow> (case try_map f xs of Inl e \<Rightarrow> Inl e | Inr ys \<Rightarrow> Inr (y # ys)))"

definition event_evidence :: "string \<times> string \<Rightarrow> path_evidence_state option \<Rightarrow> decoded_event \<Rightarrow> path_evidence_state" where
  "event_evidence ends previous e =
     (if xe_observations e = [] then \<lparr>pes_path = xe_path e, pes_conflicts = [], pes_directions = []\<rparr>
      else ReconcilePathEvidence (fst ends) (snd ends) (case previous of None \<Rightarrow> no_path | Some p \<Rightarrow> pes_path p)
        (xe_observations e))"

definition repeats :: "path_evidence_state option \<Rightarrow> path_evidence_state \<Rightarrow> bool" where
  "repeats previous state \<longleftrightarrow> (case previous of None \<Rightarrow> False | Some p \<Rightarrow> SamePathEvidence p state)"

text \<open>What happens to each event: it is deleted, or gets a path and conflicts.\<close>

fun evidence_updates ::
  "(string \<Rightarrow> string \<times> string) \<Rightarrow> (string, path_evidence_state) gomap \<Rightarrow> decoded_event list \<Rightarrow>
   (int \<times> path_evidence_state option) list" where
  "evidence_updates ends previousByEdge [] = []"
| "evidence_updates ends previousByEdge (e # es) =
     (let previous = map_of previousByEdge (xe_edgeID e); state = event_evidence (ends (xe_edgeID e)) previous e
      in if repeats previous state then (xe_id e, None) # evidence_updates ends previousByEdge es
         else (xe_id e, Some state) # evidence_updates ends (mput (xe_edgeID e) state previousByEdge) es)"

definition update_event :: "(int \<times> path_evidence_state option) list \<Rightarrow> old_event \<Rightarrow> old_event option" where
  "update_event updates e =
     (case map_of updates (le_id e) of
        None \<Rightarrow> Some e
      | Some None \<Rightarrow> None
      | Some (Some state) \<Rightarrow> Some (e\<lparr>le_path := Some (pes_path state), le_conflicts := Some (pes_conflicts state)\<rparr>))"

definition conflicts_column :: "old_event \<Rightarrow> old_event" where
  "conflicts_column e = e\<lparr>le_conflicts := ensureColumn [] (le_conflicts e)\<rparr>"

definition evidence_columns :: "old_file \<Rightarrow> old_file" where
  "evidence_columns f =
     f\<lparr>lf_edges := map (\<lambda>e. e\<lparr>lg_systemTelemetry := ensureColumn False (lg_systemTelemetry e)\<rparr>) (lf_edges f),
       lf_events := map conflicts_column (lf_events f)\<rparr>"

definition migrateHistoryEvidence :: migration where
  "migrateHistoryEvidence f =
     (let f1 = evidence_columns f
      in case try_map decode_event (sort_key event_order (lf_events f1)) of
           Inl err \<Rightarrow> Inl err
         | Inr events \<Rightarrow>
             Inr (f1\<lparr>lf_events := List.map_filter (update_event (evidence_updates (edge_ends f1) [] events)) (lf_events f1)\<rparr>))"

text \<open>6: directions from the observations, and times in the form whose texts are ordered.\<close>

definition direct_event :: "(string \<Rightarrow> string \<times> string) \<Rightarrow> old_event \<Rightarrow> migration_error + old_event" where
  "direct_event ends e =
     (case parse_zoned (le_observedAt e) of
        None \<Rightarrow> Inl (TimestampUnreadable (le_id e))
      | Some t \<Rightarrow>
          (case event_observations e of
             Inl err \<Rightarrow> Inl err
           | Inr os \<Rightarrow>
               (let (source, target) = ends (le_edgeID e)
                in Inr (e\<lparr>le_observedAt := formatPathEventTime t,
                          le_directions := Some (LegacyDirectionalPaths source target os)\<rparr>))))"

text \<open>Errors are those of the least event id; the order of the rows stays.\<close>

definition migrateDirectionalPaths :: migration where
  "migrateDirectionalPaths f =
     (case try_map (direct_event (edge_ends f)) (sort_key le_id (lf_events f)) of
        Inl err \<Rightarrow> Inl err
      | Inr _ \<Rightarrow>
          (case try_map (direct_event (edge_ends f)) (lf_events f) of
             Inl err \<Rightarrow> Inl err
           | Inr events \<Rightarrow> Inr (f\<lparr>lf_events := events\<rparr>)))"

text \<open>7: older projections are not tracked.\<close>

definition migrateDirectionalTracking :: migration where
  "migrateDirectionalTracking f =
     Inr (f\<lparr>lf_events := map (\<lambda>e. e\<lparr>le_tracked := ensureColumn False (le_tracked e)\<rparr>) (lf_events f)\<rparr>)"

section \<open>The loop\<close>

definition migrations :: "migration list" where
  "migrations =
     [migrateDraftSchema, migrateBoundedHistory, migrateHistoryEdgeMapping, migrateCanonicalHourRollups,
      migrateHistoryEvidence, migrateDirectionalPaths, migrateDirectionalTracking]"

text \<open>\<open>disk version\<close> says whether the transaction that leaves \<open>version\<close> succeeds.\<close>

fun run_migrations :: "(int \<Rightarrow> bool) \<Rightarrow> migration list \<Rightarrow> old_file \<Rightarrow> (migration_error + unit) \<times> old_file" where
  "run_migrations disk [] f = (Inr (), f)"
| "run_migrations disk (m # ms) f =
     (case m f of
        Inl err \<Rightarrow> (Inl err, f)
      | Inr f' \<Rightarrow>
          if \<not> disk (lf_version f) then (Inl MigrationFailed, f)
          else run_migrations disk ms (f'\<lparr>lf_version := lf_version f + 1\<rparr>))"

definition migrate :: "(int \<Rightarrow> bool) \<Rightarrow> old_file \<Rightarrow> (migration_error + unit) \<times> old_file" where
  "migrate disk f =
     (if lf_version f < 0 \<or> lf_version f > int (length migrations) then (Inl (UnsupportedVersion (lf_version f)), f)
      else run_migrations disk (drop (nat (lf_version f)) migrations) f)"

text \<open>The tables of a file of the current version, as the store reads them.\<close>

definition the_or :: "'v \<Rightarrow> 'v option \<Rightarrow> 'v" where
  "the_or usual v = (case v of None \<Rightarrow> usual | Some x \<Rightarrow> x)"

definition current_event :: "old_event \<Rightarrow> path_event" where
  "current_event e =
     \<lparr>pv_id = le_id e, pv_edgeID = le_edgeID e, pv_observedAt = the_or 0 (parse_zoned (le_observedAt e)),
      pv_path = the_or no_path (le_path e), pv_conflicts = the_or [] (le_conflicts e),
      pv_observations = the_or [] (the_or None (le_observations e)), pv_directions = the_or [] (le_directions e),
      pv_directionsTracked = the_or False (le_tracked e)\<rparr>"

definition current_bucket :: "old_bucket \<Rightarrow> traffic_bucket" where
  "current_bucket b =
     \<lparr>tb_edgeID = lb_edgeID b, tb_bucketStart = lb_bucketStart b, tb_sourceID = lb_sourceID b,
      tb_targetID = lb_targetID b, tb_observerID = lb_observerID b, tb_aToBBytes = the_or 0 (lb_aToBBytes b),
      tb_bToABytes = the_or 0 (lb_bToABytes b)\<rparr>"

definition current_database :: "old_file \<Rightarrow> database" where
  "current_database f =
     \<lparr>db_reports = map (\<lambda>r. \<lparr>sr_rowid = lr_rowid r, sr_report = lr_report r, sr_receivedAt = the_or 0 (lr_receivedAt r)\<rparr>)
        (lf_reports f),
      db_runtimeState = map_option (\<lambda>c. \<lparr>ck_payload = lk_payload c, ck_lastReportRowID = the_or 0 (lk_lastReportRowID c),
        ck_updatedAt = lk_updatedAt c\<rparr>) (lf_checkpoint f),
      db_nodes = lf_nodes f, db_redirects = lf_redirects f, db_buckets = map current_bucket (lf_buckets f),
      db_edges = map stored_edge (lf_edges f), db_edgeMap = the_or [] (lf_edgeMap f),
      db_events = map current_event (lf_events f), db_eventSeq = lf_eventSeq f, db_minutes = lf_minutes f,
      db_hours = lf_hours f, db_maintenance = lf_maintenance f\<rparr>"

end
