(* ===== verification/Migration_Facts.thy ===== *)
theory Migration_Facts
  imports Store_Migrations
begin

text \<open>
  What opening an older file keeps: an interrupted upgrade goes on where it stopped, the path history of every edge
  is the one its observations give, without repetitions, and the map from physical to logical edges is in step with
  the edges and redirects from the migration on that creates it.
\<close>

section \<open>Lists\<close>

lemma insort_key_map:
  "k (g x) = k x \<Longrightarrow> \<forall>y \<in> set ys. k (g y) = k y \<Longrightarrow> insort_key k (g x) (map g ys) = map g (insort_key k x ys)"
  by (induction ys) auto

lemma sort_key_map:
  "\<forall>y \<in> set ys. k (g y) = k y \<Longrightarrow> sort_key k (map g ys) = map g (sort_key k ys)"
  by (induction ys) (auto simp: insort_key_map)

lemma sort_key_map_filter:
  assumes "\<And>x y. h x = Some y \<Longrightarrow> k y = k x"
  shows "sort_key k (List.map_filter h xs) = List.map_filter h (sort_key k xs)"
proof -
  have "sort_key k (map (\<lambda>x. the (h x)) (filter (\<lambda>x. h x \<noteq> None) xs)) =
      map (\<lambda>x. the (h x)) (sort_key k (filter (\<lambda>x. h x \<noteq> None) xs))"
    by (rule sort_key_map) (use assms in force)
  then show ?thesis by (simp add: List.map_filter_def comp_def filter_sort)
qed

lemma try_map_all2: "try_map f xs = Inr ys \<Longrightarrow> list_all2 (\<lambda>x y. f x = Inr y) xs ys"
  by (induction xs arbitrary: ys) (auto split: sum.splits)

lemma try_map_map: "try_map f (map g xs) = try_map (\<lambda>x. f (g x)) xs"
  by (induction xs) (auto split: sum.splits)

section \<open>An interrupted upgrade\<close>

lemma length_migrations [simp]: "length migrations = 7"
  by (simp add: migrations_def)

lemma rest_of_migrations:
  "0 \<le> lf_version f \<Longrightarrow> lf_version f < 7 \<Longrightarrow>
     drop (nat (lf_version f)) migrations = (migrations ! nat (lf_version f)) # drop (nat (lf_version f + 1)) migrations"
  by (simp add: Cons_nth_drop_Suc [symmetric] nat_add_distrib)

text \<open>A run does nothing more, stops at a migration, or goes on after one.\<close>

lemma run_migrations_induct [consumes 3, case_names finished stopped further]:
  assumes "run_migrations disk (drop (nat (lf_version f)) migrations) f = (r, f')" "0 \<le> lf_version f" "lf_version f \<le> 7"
    and "\<And>f. lf_version f = 7 \<Longrightarrow> P f (Inr ()) f"
    and "\<And>f err. 0 \<le> lf_version f \<Longrightarrow> lf_version f < 7 \<Longrightarrow> P f (Inl err) f"
    and "\<And>f g r f'. 0 \<le> lf_version f \<Longrightarrow> lf_version f < 7 \<Longrightarrow> (migrations ! nat (lf_version f)) f = Inr g \<Longrightarrow>
      P (g\<lparr>lf_version := lf_version f + 1\<rparr>) r f' \<Longrightarrow> P f r f'"
  shows "P f r f'"
  using assms(1-3)
proof (induction "7 - nat (lf_version f)" arbitrary: f)
  case 0
  then have "lf_version f = 7" by simp
  then show ?case using 0 assms(4) by auto
next
  case (Suc n)
  have v: "0 \<le> lf_version f" "lf_version f < 7" using Suc.hyps(2) Suc.prems by auto
  note d = rest_of_migrations [OF v]
  show ?case
  proof (cases "(migrations ! nat (lf_version f)) f")
    case (Inl err)
    then show ?thesis using Suc.prems(1) d v assms(5) by auto
  next
    case (Inr g)
    let ?g = "g\<lparr>lf_version := lf_version f + 1\<rparr>"
    show ?thesis
    proof (cases "disk (lf_version f)")
      case False
      then show ?thesis using Suc.prems(1) d v Inr assms(5) by auto
    next
      case True
      then have "run_migrations disk (drop (nat (lf_version ?g)) migrations) ?g = (r, f')" using Suc.prems(1) d Inr by simp
      moreover have "n = 7 - nat (lf_version ?g)" "0 \<le> lf_version ?g" "lf_version ?g \<le> 7" using Suc.hyps(2) v by simp_all
      ultimately have "P ?g r f'" using Suc.hyps(1) by blast
      then show ?thesis using assms(6) v Inr by blast
    qed
  qed
qed

lemma run_migrations_resumes:
  assumes "run_migrations disk (drop (nat (lf_version f)) migrations) f = (r, f')" "0 \<le> lf_version f" "lf_version f \<le> 7"
  shows "run_migrations (\<lambda>_. True) (drop (nat (lf_version f')) migrations) f' =
      run_migrations (\<lambda>_. True) (drop (nat (lf_version f)) migrations) f \<and>
    lf_version f \<le> lf_version f' \<and> lf_version f' \<le> 7 \<and> (r = Inr () \<longrightarrow> lf_version f' = 7)"
  using assms
proof (induction rule: run_migrations_induct)
  case (further f g r f')
  then show ?case by (simp add: rest_of_migrations)
qed simp_all

text \<open>C38: An upgrade that is interrupted loses nothing and need not start again: whenever the database fails between two
  migrations, or a migration refuses the file, what is left is a file of an older version, and opening it again gives
  what opening the first file without an interruption gives. A file that was upgraded has the current version, and
  opening it again leaves it as it is.\<close>

theorem migration_resumes:
  assumes "migrate disk f = (r, f')"
  shows "migrate (\<lambda>_. True) f' = migrate (\<lambda>_. True) f \<and>
    (r = Inr () \<longrightarrow> lf_version f' = 7 \<and> migrate disk' f' = (Inr (), f'))"
proof (cases "lf_version f < 0 \<or> lf_version f > 7")
  case True
  then show ?thesis using assms by (auto simp: migrate_def)
next
  case False
  then have run: "run_migrations disk (drop (nat (lf_version f)) migrations) f = (r, f')"
    using assms by (simp add: migrate_def)
  show ?thesis using run_migrations_resumes [OF run] False run by (auto simp: migrate_def)
qed

section \<open>Path evidence\<close>

text \<open>The path history of one edge, from its own events alone.\<close>

fun edge_evidence ::
  "string \<times> string \<Rightarrow> path_evidence_state option \<Rightarrow> decoded_event list \<Rightarrow> (int \<times> path_evidence_state) list" where
  "edge_evidence ends previous [] = []"
| "edge_evidence ends previous (e # es) =
     (let state = event_evidence ends previous e
      in if repeats previous state then edge_evidence ends previous es
         else (xe_id e, state) # edge_evidence ends (Some state) es)"

definition repeats_next :: "int \<times> path_evidence_state \<Rightarrow> int \<times> path_evidence_state \<Rightarrow> bool" where
  "repeats_next a b \<longleftrightarrow> SamePathEvidence (snd a) (snd b)"

lemma edge_evidence_successive:
  "successively (\<lambda>a b. \<not> repeats_next a b) (edge_evidence ends previous es) \<and>
   (case edge_evidence ends previous es of [] \<Rightarrow> True | a # _ \<Rightarrow> \<not> repeats previous (snd a))"
proof (induction es arbitrary: previous)
  case (Cons e es)
  let ?st = "event_evidence ends previous e"
  have "successively (\<lambda>a b. \<not> repeats_next a b) ((xe_id e, ?st) # edge_evidence ends (Some ?st) es)"
    using Cons.IH [of "Some ?st"] by (auto simp: successively_Cons repeats_next_def repeats_def split: list.splits)
  then show ?case using Cons.IH [of previous] by (simp add: Let_def)
qed simp

lemma updates_ids: "map fst (evidence_updates ends previousByEdge es) = map xe_id es"
  by (induction es arbitrary: previousByEdge) (auto simp: Let_def)

definition event_row :: "old_event \<Rightarrow> int \<times> path_observation option \<times> path_observation list option" where
  "event_row e = (le_id e, le_path e, le_conflicts e)"

definition evidence_row :: "int \<times> path_evidence_state \<Rightarrow> int \<times> path_observation option \<times> path_observation list option" where
  "evidence_row a = (fst a, Some (pes_path (snd a)), Some (pes_conflicts (snd a)))"

lemma decoded_fields: "decode_event y = Inr e \<Longrightarrow> xe_id e = le_id y \<and> xe_edgeID e = le_edgeID y"
  by (auto simp: decode_event_def split: option.splits sum.splits)

lemma decoded_ids: "list_all2 (\<lambda>y e. decode_event y = Inr e) ys es \<Longrightarrow> map xe_id es = map le_id ys"
  by (induction rule: list_all2_induct) (auto dest: decoded_fields)

lemma updated_events:
  assumes "list_all2 (\<lambda>y e. decode_event y = Inr e) ys es"
    and "\<forall>(i, s) \<in> set (evidence_updates ends prev es). map_of us i = Some s"
  shows "map event_row (filter (\<lambda>y. le_edgeID y = k) (List.map_filter (update_event us) ys)) =
    map evidence_row (edge_evidence (ends k) (map_of prev k) (filter (\<lambda>e. xe_edgeID e = k) es))"
  using assms
proof (induction ys es arbitrary: prev rule: list_all2_induct)
  case (Cons y ys e es)
  have d: "xe_id e = le_id y" "xe_edgeID e = le_edgeID y" using decoded_fields [OF Cons.hyps(1)] by auto
  let ?st = "event_evidence (ends (xe_edgeID e)) (map_of prev (xe_edgeID e)) e"
  show ?case
  proof (cases "repeats (map_of prev (xe_edgeID e)) ?st")
    case True
    then have "update_event us y = None" using Cons.prems d by (auto simp: update_event_def Let_def)
    moreover have "\<forall>(i, s) \<in> set (evidence_updates ends prev es). map_of us i = Some s"
      using Cons.prems True by (auto simp: Let_def)
    ultimately show ?thesis using Cons.IH [of prev] True by (auto simp: List.map_filter_simps Let_def)
  next
    case False
    let ?prev = "mput (xe_edgeID e) ?st prev"
    have u: "update_event us y = Some (y\<lparr>le_path := Some (pes_path ?st), le_conflicts := Some (pes_conflicts ?st)\<rparr>)"
      using Cons.prems False d by (auto simp: update_event_def Let_def)
    moreover have "\<forall>(i, s) \<in> set (evidence_updates ends ?prev es). map_of us i = Some s"
      using Cons.prems False by (auto simp: Let_def)
    ultimately show ?thesis
      using Cons.IH [of ?prev] False d
      by (cases "le_edgeID y = k") (auto simp: List.map_filter_simps Let_def event_row_def evidence_row_def)
  qed
qed (simp add: List.map_filter_simps)

lemma update_event_order: "update_event us x = Some y \<Longrightarrow> event_order y = event_order x"
  by (auto simp: update_event_def event_order_def split: option.splits)

lemma find_row_map:
  "(\<And>r. key (g r) = key r) \<Longrightarrow> find_row key k (map g rows) = map_option g (find_row key k rows)"
  by (induction rows) (auto simp: find_row_def)

lemma decode_event_conflicts [simp]: "decode_event (conflicts_column e) = decode_event e"
  by (simp add: decode_event_def event_observations_def conflicts_column_def split: option.split sum.split)

lemma conflicts_column_order [simp]: "event_order (conflicts_column e) = event_order e" "le_id (conflicts_column e) = le_id e"
  by (simp_all add: event_order_def conflicts_column_def)

text \<open>C39: The migration of path evidence rebuilds the history of every edge from its observations: what an edge has
  afterwards, in the order of its texts, is what going through its own events alone gives, each read with the path
  kept before it, and an event is dropped exactly when it shows the same evidence as the last one kept. No two
  events that follow each other on an edge show the same evidence any more.\<close>

theorem migrated_evidence_exact:
  assumes "migrateHistoryEvidence f = Inr f'" and "distinct (map le_id (lf_events f))"
  shows "\<exists>es. try_map decode_event (sort_key event_order (lf_events f)) = Inr es \<and>
    (\<forall>k. let history = edge_evidence (edge_ends f k) None (filter (\<lambda>e. xe_edgeID e = k) es)
      in map event_row (filter (\<lambda>e. le_edgeID e = k) (sort_key event_order (lf_events f'))) = map evidence_row history \<and>
         successively (\<lambda>a b. \<not> repeats_next a b) history)"
proof -
  define f1 where "f1 = evidence_columns f"
  have ends: "edge_ends f1 = edge_ends f"
    by (rule ext) (simp add: edge_ends_def f1_def evidence_columns_def find_row_map split: option.splits)
  have sorted: "sort_key event_order (lf_events f1) = map conflicts_column (sort_key event_order (lf_events f))"
    by (simp add: f1_def evidence_columns_def sort_key_map)
  obtain es where es: "try_map decode_event (sort_key event_order (lf_events f1)) = Inr es"
    and f': "lf_events f' = List.map_filter (update_event (evidence_updates (edge_ends f1) [] es)) (lf_events f1)"
    using assms(1) by (auto simp: migrateHistoryEvidence_def Let_def f1_def [symmetric] split: sum.splits)
  let ?us = "evidence_updates (edge_ends f) [] es" and ?ys = "map conflicts_column (sort_key event_order (lf_events f))"
  have all2: "list_all2 (\<lambda>y e. decode_event y = Inr e) ?ys es"
    using try_map_all2 [OF es] by (simp add: sorted)
  have "map fst ?us = map xe_id es" by (rule updates_ids)
  also have "\<dots> = map le_id ?ys" by (rule decoded_ids [OF all2])
  also have "distinct \<dots>" using assms(2) by (simp add: comp_def distinct_map)
  finally have "\<forall>(i, s) \<in> set ?us. map_of ?us i = Some s" by (auto intro: map_of_is_SomeI)
  from updated_events [OF all2 this]
  have history: "map event_row (filter (\<lambda>y. le_edgeID y = k) (List.map_filter (update_event ?us) ?ys)) =
      map evidence_row (edge_evidence (edge_ends f k) None (filter (\<lambda>e. xe_edgeID e = k) es))" for k
    by simp
  have "sort_key event_order (lf_events f') = List.map_filter (update_event ?us) ?ys"
    using sort_key_map_filter [of "update_event ?us" event_order, OF update_event_order]
    by (simp add: f' ends sorted)
  moreover have "try_map decode_event (sort_key event_order (lf_events f)) = Inr es"
    using es by (simp add: sorted try_map_map)
  ultimately show ?thesis
    using history edge_evidence_successive by (auto simp: Let_def)
qed

text \<open>
  The order of the texts is not that of the times: a whole second comes after the fractions of the second it begins.
  Events of such a second are read in the wrong order, before the next migration rewrites the texts.
\<close>

lemma whole_second_read_last:
  "event_order (e\<lparr>le_edgeID := k, le_observedAt := ''1970-01-01T00:00:01.5Z''\<rparr>) <
     event_order (e'\<lparr>le_edgeID := k, le_observedAt := ''1970-01-01T00:00:01Z''\<rparr>)"
  "parse_zoned ''1970-01-01T00:00:01Z'' = Some 62135596801000000000" "parse_zoned ''1970-01-01T00:00:01.5Z'' = Some 62135596801500000000"
proof -
  have "''1970-01-01T00:00:01.5Z'' < ''1970-01-01T00:00:01Z''" by code_simp
  then show "event_order (e\<lparr>le_edgeID := k, le_observedAt := ''1970-01-01T00:00:01.5Z''\<rparr>) <
     event_order (e'\<lparr>le_edgeID := k, le_observedAt := ''1970-01-01T00:00:01Z''\<rparr>)" by (simp add: event_order_def)
  show "parse_zoned ''1970-01-01T00:00:01Z'' = Some 62135596801000000000" "parse_zoned ''1970-01-01T00:00:01.5Z'' = Some 62135596801500000000"
    by code_simp+
qed

section \<open>Edges\<close>

text \<open>What the store ensured of its edges in every version, and of the edge map since it has one.\<close>

definition old_edges_ok :: "old_file \<Rightarrow> bool" where
  "old_edges_ok f \<longleftrightarrow>
     distinct (map lg_edgeID (lf_edges f)) \<and> distinct (map sd_fromID (lf_redirects f)) \<and>
     (\<forall>e \<in> set (lf_edges f). named (lg_edgeID e) (lg_sourceID e) (lg_targetID e)) \<and>
     (\<forall>b \<in> set (lf_buckets f). named (lb_edgeID b) (lb_sourceID b) (lb_targetID b)) \<and>
     (\<forall>r \<in> set (lf_redirects f). dash_free (sd_toID r))"

definition same_edges :: "old_file \<Rightarrow> old_file \<Rightarrow> bool" where
  "same_edges f g \<longleftrightarrow>
     map (\<lambda>e. (lg_edgeID e, lg_sourceID e, lg_targetID e)) (lf_edges f) = map (\<lambda>e. (lg_edgeID e, lg_sourceID e, lg_targetID e)) (lf_edges g) \<and>
     map (\<lambda>b. (lb_edgeID b, lb_sourceID b, lb_targetID b)) (lf_buckets f) = map (\<lambda>b. (lb_edgeID b, lb_sourceID b, lb_targetID b)) (lf_buckets g) \<and>
     lf_redirects f = lf_redirects g \<and> lf_edgeMap f = lf_edgeMap g"

lemma named_rows_cong:
  assumes "map (\<lambda>e. (i e, a e, b e)) xs = map (\<lambda>e. (i e, a e, b e)) ys"
  shows "(\<forall>e \<in> set xs. P (i e) (a e) (b e)) \<longleftrightarrow> (\<forall>e \<in> set ys. P (i e) (a e) (b e))" "map i xs = map i ys"
proof -
  have "list_all (\<lambda>(i, a, b). P i a b) (map (\<lambda>e. (i e, a e, b e)) xs) = list_all (\<lambda>(i, a, b). P i a b) (map (\<lambda>e. (i e, a e, b e)) ys)"
    by (simp only: assms)
  then show "(\<forall>e \<in> set xs. P (i e) (a e) (b e)) \<longleftrightarrow> (\<forall>e \<in> set ys. P (i e) (a e) (b e))"
    by (simp add: list_all_iff)
  have "map fst (map (\<lambda>e. (i e, a e, b e)) xs) = map fst (map (\<lambda>e. (i e, a e, b e)) ys)" by (simp only: assms)
  then show "map i xs = map i ys" by (simp add: comp_def)
qed

lemma same_edges_rows:
  assumes "same_edges f g"
  shows "(\<forall>e \<in> set (lf_edges f). P (lg_edgeID e) (lg_sourceID e) (lg_targetID e)) \<longleftrightarrow>
      (\<forall>e \<in> set (lf_edges g). P (lg_edgeID e) (lg_sourceID e) (lg_targetID e))"
    "map lg_edgeID (lf_edges f) = map lg_edgeID (lf_edges g)"
    "(\<forall>b \<in> set (lf_buckets f). P (lb_edgeID b) (lb_sourceID b) (lb_targetID b)) \<longleftrightarrow>
      (\<forall>b \<in> set (lf_buckets g). P (lb_edgeID b) (lb_sourceID b) (lb_targetID b))"
    "lf_redirects f = lf_redirects g" "lf_edgeMap f = lf_edgeMap g"
proof -
  note s = assms [unfolded same_edges_def]
  note e = named_rows_cong [where i = lg_edgeID and a = lg_sourceID and b = lg_targetID, OF s [THEN conjunct1]]
  note b = named_rows_cong [where i = lb_edgeID and a = lb_sourceID and b = lb_targetID, OF s [THEN conjunct2, THEN conjunct1]]
  show "(\<forall>e \<in> set (lf_edges f). P (lg_edgeID e) (lg_sourceID e) (lg_targetID e)) \<longleftrightarrow>
      (\<forall>e \<in> set (lf_edges g). P (lg_edgeID e) (lg_sourceID e) (lg_targetID e))" by (rule e(1))
  show "map lg_edgeID (lf_edges f) = map lg_edgeID (lf_edges g)" by (rule e(2))
  show "(\<forall>b \<in> set (lf_buckets f). P (lb_edgeID b) (lb_sourceID b) (lb_targetID b)) \<longleftrightarrow>
      (\<forall>b \<in> set (lf_buckets g). P (lb_edgeID b) (lb_sourceID b) (lb_targetID b))" by (rule b(1))
  show "lf_redirects f = lf_redirects g" "lf_edgeMap f = lf_edgeMap g" using s by simp_all
qed

lemma same_edges_old: "same_edges f g \<Longrightarrow> old_edges_ok f = old_edges_ok g"
  by (simp add: old_edges_ok_def same_edges_rows(2,4) same_edges_rows(1) [where P = named] same_edges_rows(3) [where P = named])

lemma edges_ok_file:
  "edges_ok (current_database f) \<longleftrightarrow>
     distinct (map lg_edgeID (lf_edges f)) \<and> distinct (map em_physicalID (the_or [] (lf_edgeMap f))) \<and>
     distinct (map sd_fromID (lf_redirects f)) \<and> (\<forall>e \<in> set (lf_edges f). named (lg_edgeID e) (lg_sourceID e) (lg_targetID e)) \<and>
     (\<forall>r \<in> set (lf_redirects f). dash_free (sd_toID r)) \<and>
     em_physicalID ` set (the_or [] (lf_edgeMap f)) \<subseteq> set (map lg_edgeID (lf_edges f)) \<and>
     (\<forall>e \<in> set (lf_edges f). map_entry (the_or [] (lf_edgeMap f)) (lg_edgeID e) =
        edge_entry (map (\<lambda>r. (sd_fromID r, sd_toID r)) (lf_redirects f)) (lg_sourceID e) (lg_targetID e))"
  by (auto simp: edges_ok_def current_database_def mapped_edges_def map_in_sync_def named_edge_def stored_edge_def
      loadCanonicalRedirects_def comp_def image_image)

lemma same_edges_database:
  assumes "same_edges f g"
  shows "edges_ok (current_database f) = edges_ok (current_database g)"
proof -
  note r = same_edges_rows [OF assms]
  let ?entry = "\<lambda>i a b. map_entry (the_or [] (lf_edgeMap g)) i = edge_entry (map (\<lambda>r. (sd_fromID r, sd_toID r)) (lf_redirects g)) a b"
  show ?thesis by (simp only: edges_ok_file r(2,4,5) r(1) [where P = named] r(1) [where P = ?entry])
qed

lemma draft_bucket_ends [simp]:
  "lb_edgeID (draft_bucket b) = lb_edgeID b" "lb_sourceID (draft_bucket b) = lb_sourceID b"
  "lb_targetID (draft_bucket b) = lb_targetID b"
  by (simp_all add: draft_bucket_def)

lemma draft_same_edges: "migrateDraftSchema f = Inr g \<Longrightarrow> same_edges g f"
  by (auto simp: migrateDraftSchema_def same_edges_def)

lemma hours_same_edges: "migrateCanonicalHourRollups f = Inr g \<Longrightarrow> same_edges g f"
  by (auto simp: migrateCanonicalHourRollups_def same_edges_def)

lemma evidence_same_edges: "migrateHistoryEvidence f = Inr g \<Longrightarrow> same_edges g f"
  by (auto simp: migrateHistoryEvidence_def evidence_columns_def same_edges_def Let_def split: sum.splits)

lemma paths_same_edges: "migrateDirectionalPaths f = Inr g \<Longrightarrow> same_edges g f"
  by (auto simp: migrateDirectionalPaths_def same_edges_def split: sum.splits)

lemma tracking_same_edges: "migrateDirectionalTracking f = Inr g \<Longrightarrow> same_edges g f"
  by (auto simp: migrateDirectionalTracking_def same_edges_def)

lemmas migrations_same_edges =
  draft_same_edges hours_same_edges evidence_same_edges paths_same_edges tracking_same_edges

lemma image_single: "b \<in> S \<Longrightarrow> (\<And>x. x \<in> S \<Longrightarrow> g x = c) \<Longrightarrow> g ` S = {c}"
  by auto

lemma bucket_ends:
  assumes "\<forall>b \<in> set bs. named k (lb_sourceID b) (lb_targetID b)" "bs \<noteq> []"
  shows "named (lg_edgeID (edge_of_buckets k bs)) (lg_sourceID (edge_of_buckets k bs)) (lg_targetID (edge_of_buckets k bs))"
proof -
  obtain b where b: "b \<in> set bs" using assms(2) by (cases bs) auto
  have "lb_sourceID b' = lb_sourceID b \<and> lb_targetID b' = lb_targetID b" if "b' \<in> set bs" for b'
    using named_unique [OF assms(1) [rule_format, OF that] assms(1) [rule_format, OF b]] .
  note ends = this
  have "lb_sourceID ` set bs = {lb_sourceID b}" by (rule image_single [OF b ends [THEN conjunct1]])
  moreover have "lb_targetID ` set bs = {lb_targetID b}" by (rule image_single [OF b ends [THEN conjunct2]])
  ultimately show ?thesis using assms(1) b by (simp add: edge_of_buckets_def)
qed

lemma bounded_history_ok:
  assumes "migrateBoundedHistory f = Inr g" "old_edges_ok f"
  shows "old_edges_ok g"
proof -
  let ?bs = "\<lambda>k. filter (\<lambda>b. lb_edgeID b = k) (lf_buckets f)"
  define missing where "missing = filter (\<lambda>k. k \<notin> set (map lg_edgeID (lf_edges f))) (remdups (sort (map lb_edgeID (lf_buckets f))))"
  have g: "g = f\<lparr>lf_edges := lf_edges f @ map (\<lambda>k. edge_of_buckets k (?bs k)) missing\<rparr>"
    using assms(1) by (simp add: migrateBoundedHistory_def missing_def Let_def)
  have ids: "lg_edgeID (edge_of_buckets k bs) = k" for k bs by (simp add: edge_of_buckets_def)
  have "named (lg_edgeID e) (lg_sourceID e) (lg_targetID e)" if e: "e \<in> (\<lambda>k. edge_of_buckets k (?bs k)) ` set missing" for e
  proof -
    obtain k where k: "k \<in> set missing" "e = edge_of_buckets k (?bs k)" using e by blast
    then have "k \<in> lb_edgeID ` set (lf_buckets f)" by (auto simp: missing_def)
    then have "?bs k \<noteq> []" by (auto simp: filter_empty_conv)
    moreover have "\<forall>b \<in> set (?bs k). named k (lb_sourceID b) (lb_targetID b)" using assms(2) by (auto simp: old_edges_ok_def)
    ultimately show ?thesis using bucket_ends k(2) by blast
  qed
  moreover have "distinct (map lg_edgeID (lf_edges g))"
    using assms(2) by (auto simp: g old_edges_ok_def comp_def ids missing_def)
  ultimately show ?thesis using assms(2) by (auto simp: g old_edges_ok_def)
qed

lemma edge_mapping_ok:
  assumes "migrateHistoryEdgeMapping f = Inr g" "old_edges_ok f"
  shows "old_edges_ok g \<and> edges_ok (current_database g)"
proof -
  let ?db = "new_database\<lparr>db_redirects := lf_redirects f, db_edges := map stored_edge (lf_edges f)\<rparr>"
  have g: "g = f\<lparr>lf_edgeMap := Some (db_edgeMap (rebuildHistoryEdgeMap 0 ?db))\<rparr>"
    using assms(1) by (simp add: migrateHistoryEdgeMapping_def split: if_splits)
  have d: "distinct (map he_edgeID (db_edges ?db))"
    using assms(2) by (simp add: old_edges_ok_def stored_edge_def comp_def)
  have "map_entry (db_edgeMap (rebuildHistoryEdgeMap 0 ?db)) (lg_edgeID e) =
      edge_entry (map (\<lambda>r. (sd_fromID r, sd_toID r)) (lf_redirects f)) (lg_sourceID e) (lg_targetID e)"
    if "e \<in> set (lf_edges f)" for e
    using rebuild_entry [OF d, of "stored_edge e" 0] that by (simp add: stored_edge_def loadCanonicalRedirects_def)
  moreover have "em_physicalID ` set (db_edgeMap (rebuildHistoryEdgeMap 0 ?db)) \<subseteq> lg_edgeID ` set (lf_edges f)"
    using rebuild_keys(1) [of 0 ?db] by (simp add: stored_edge_def image_image)
  moreover have "old_edges_ok g" using assms(2) by (simp add: g old_edges_ok_def)
  ultimately show ?thesis
    using rebuild_keys(2) [of 0 ?db] by (simp add: edges_ok_file old_edges_ok_def g the_or_def)
qed

text \<open>Every file the store left, at any version: from version 3 on with a map that is in step.\<close>

definition file_ok :: "old_file \<Rightarrow> bool" where
  "file_ok f \<longleftrightarrow> old_edges_ok f \<and> (3 \<le> lf_version f \<longrightarrow> edges_ok (current_database f))"

lemma version_irrelevant [simp]:
  "old_edges_ok (f\<lparr>lf_version := v\<rparr>) = old_edges_ok f" "current_database (f\<lparr>lf_version := v\<rparr>) = current_database f"
  by (simp_all add: old_edges_ok_def current_database_def)

lemma migration_file_ok:
  assumes "(migrations ! nat (lf_version f)) f = Inr g" "0 \<le> lf_version f" "lf_version f < 7" "file_ok f"
  shows "file_ok (g\<lparr>lf_version := lf_version f + 1\<rparr>)"
proof -
  consider "lf_version f = 0" | "lf_version f = 1" | "lf_version f = 2" | "same_edges g f"
  proof -
    have "lf_version f \<in> {0, 1, 2} \<union> {3, 4, 5, 6}" using assms(2,3) by auto
    then show thesis using assms(1) migrations_same_edges [of f g] that by (auto simp: migrations_def)
  qed
  then show ?thesis
  proof cases
    case 1
    then have "same_edges g f" using assms(1) draft_same_edges by (simp add: migrations_def)
    then show ?thesis using 1 assms(4) same_edges_old by (simp add: file_ok_def)
  next
    case 2
    then show ?thesis using assms(1,4) bounded_history_ok by (simp add: migrations_def file_ok_def)
  next
    case 3
    then show ?thesis using assms(1,4) edge_mapping_ok by (simp add: migrations_def file_ok_def)
  next
    case 4
    have "edges_ok (current_database g)" if "3 \<le> lf_version f + 1"
    proof (cases "lf_version f = 2")
      case True
      then show ?thesis using assms(1,4) edge_mapping_ok by (simp add: migrations_def file_ok_def)
    next
      case False
      then show ?thesis using that assms(4) same_edges_database [OF 4] by (simp add: file_ok_def)
    qed
    then show ?thesis using assms(4) same_edges_old [OF 4] by (simp add: file_ok_def)
  qed
qed

lemma run_migrations_file_ok:
  assumes "run_migrations disk (drop (nat (lf_version f)) migrations) f = (r, f')" "0 \<le> lf_version f" "lf_version f \<le> 7"
  shows "file_ok f \<Longrightarrow> file_ok f'"
  using assms by (induction rule: run_migrations_induct) (auto dest: migration_file_ok)

text \<open>C40: After an upgrade, complete or interrupted, from any version the store wrote, the map from physical to logical edges
  is the one a rebuild from the redirects and edges makes, as in a database that never was older: the migrations that
  create the edges from the buckets and the map from the edges establish what the running store then keeps.\<close>

theorem migrated_edge_map:
  assumes "migrate disk f = (r, f')" and "file_ok f"
  shows "file_ok f' \<and> (3 \<le> lf_version f' \<longrightarrow>
    map_entry (db_edgeMap (current_database f')) k = map_entry (db_edgeMap (rebuildHistoryEdgeMap t (current_database f'))) k)"
proof -
  have "file_ok f'"
  proof (cases "lf_version f < 0 \<or> lf_version f > 7")
    case True
    then show ?thesis using assms by (auto simp: migrate_def)
  next
    case False
    then show ?thesis using assms run_migrations_file_ok [of disk f r f'] by (simp add: migrate_def)
  qed
  then show ?thesis using map_is_rebuilt by (auto simp: file_ok_def)
qed

text \<open>The directional counters of an old bucket add up to what its observer counted.\<close>

lemma draft_bucket_total:
  assumes "lb_aToBBytes b = None \<or> lb_bToABytes b = None" "lb_sourceID b \<noteq> lb_targetID b" "lb_observerID b \<in> {lb_sourceID b, lb_targetID b}"
  shows "the (lb_aToBBytes (draft_bucket b)) + the (lb_bToABytes (draft_bucket b)) = lb_txBytes b + lb_rxBytes b"
  using assms by (auto simp: draft_bucket_def)

section \<open>A file of the first version\<close>

definition example_old_event :: "int \<Rightarrow> string \<Rightarrow> path_observation \<Rightarrow> old_event" where
  "example_old_event i t path =
     \<lparr>le_id = i, le_edgeID = ''a--b'', le_observedAt = t, le_path = Some path, le_observations = None,
      le_conflicts = None, le_directions = None, le_tracked = None\<rparr>"

definition example_file :: old_file where
  "example_file =
     \<lparr>lf_version = 0, lf_reports = [], lf_checkpoint = None, lf_nodes = [], lf_redirects = [],
      lf_buckets = [\<lparr>lb_edgeID = ''a--b'', lb_bucketStart = 10, lb_sourceID = ''a'', lb_targetID = ''b'', lb_observerID = ''b'',
        lb_txBytes = 3, lb_rxBytes = 4, lb_aToBBytes = None, lb_bToABytes = None\<rparr>],
      lf_edges = [], lf_edgeMap = None,
      lf_events = [example_old_event 1 ''1970-01-01T00:00:01Z'' unknown_path,
        example_old_event 2 ''1970-01-01T00:00:02Z'' unknown_path,
        example_old_event 3 ''1970-01-01T00:00:03Z'' (no_path\<lparr>po_kind := PathDERP, po_derpRegion := ''fra''\<rparr>)],
      lf_eventSeq = 3, lf_minutes = [], lf_hours = [], lf_maintenance = []\<rparr>"

text \<open>The database fails once, in the fifth migration.\<close>

definition example_interrupted :: old_file where
  "example_interrupted = snd (migrate (\<lambda>v. v \<noteq> 4) example_file)"

lemma example_interrupted_at: "fst (migrate (\<lambda>v. v \<noteq> 4) example_file) = Inl MigrationFailed" "lf_version example_interrupted = 4"
    "map lb_aToBBytes (lf_buckets example_interrupted) = [Some 4]" "map lg_edgeID (lf_edges example_interrupted) = [''a--b'']"
  by code_simp+

theorem migration_resumes_witness:
  "migrate (\<lambda>_. True) example_interrupted = migrate (\<lambda>_. True) example_file \<and> lf_version example_interrupted = 4"
proof -
  have "migrate (\<lambda>v. v \<noteq> 4) example_file = (fst (migrate (\<lambda>v. v \<noteq> 4) example_file), example_interrupted)"
    by (simp add: example_interrupted_def)
  from migration_resumes [OF this] show ?thesis by (simp add: example_interrupted_at)
qed

theorem migrated_edge_map_witness:
  "file_ok example_interrupted \<and>
   map_entry (db_edgeMap (current_database example_interrupted)) ''a--b'' =
     map_entry (db_edgeMap (rebuildHistoryEdgeMap 5 (current_database example_interrupted))) ''a--b''"
proof -
  have "named ''a--b'' ''a'' ''b''" by (simp add: named_def dash_free_def EdgeID_def)
  then have "file_ok example_file" by (simp add: file_ok_def old_edges_ok_def example_file_def)
  moreover have "migrate (\<lambda>v. v \<noteq> 4) example_file = (fst (migrate (\<lambda>v. v \<noteq> 4) example_file), example_interrupted)"
    by (simp add: example_interrupted_def)
  ultimately show ?thesis using migrated_edge_map [of "\<lambda>v. v \<noteq> 4" example_file] by (simp add: example_interrupted_at)
qed

theorem migrated_evidence_exact_witness:
  "\<exists>g es. migrateHistoryEvidence example_interrupted = Inr g \<and> map le_id (lf_events g) = [1, 3] \<and>
     try_map decode_event (sort_key event_order (lf_events example_interrupted)) = Inr es \<and> map xe_id es = [1, 2, 3]"
proof -
  have "case migrateHistoryEvidence example_interrupted of Inr g \<Rightarrow> map le_id (lf_events g) = [1, 3] | Inl _ \<Rightarrow> False" by code_simp
  then obtain g where g: "migrateHistoryEvidence example_interrupted = Inr g" "map le_id (lf_events g) = [1, 3]"
    by (auto split: sum.splits)
  have ids: "map le_id (lf_events example_interrupted) = [1, 2, 3]" by code_simp
  then have "distinct (map le_id (lf_events example_interrupted))" by simp
  from migrated_evidence_exact [OF g(1) this]
  obtain es where es: "try_map decode_event (sort_key event_order (lf_events example_interrupted)) = Inr es" by blast
  have "map xe_id es = map le_id (sort_key event_order (lf_events example_interrupted))"
    by (rule decoded_ids [OF try_map_all2 [OF es]])
  also have "\<dots> = [1, 2, 3]" by code_simp
  finally show ?thesis using g es by (intro exI [of _ g] exI [of _ es]) simp
qed

end
