(* ===== verification/Sink_Sampling.thy ===== *)
theory Sink_Sampling
  imports Status_Tracker Relay_Adapter
begin

text \<open>
  The samplers of the sink (\<open>exporter/sink.go\<close>, \<open>sink_relay.go\<close>): the loops that read a source, validate what it
  gives, hand the result to the sink and wait, longer after failures. A loop is driven by a record for each of its
  rounds. The theorem puts the sampler over the source of the local daemon: what the sink is handed, and when the
  daemon is asked again.
\<close>

section \<open>The samplers\<close>

definition NewSnapshotSink :: "string \<Rightarrow> string \<Rightarrow> sink_config \<Rightarrow> sink_config" where
  "NewSnapshotSink uuid reporterInstanceID parameters =
     normalize_config uuid (parameters\<lparr>kc_sampleInterval := defaultSampleInterval, kc_snapshotTimeout := defaultSnapshotTimeout,
       kc_batchWindow := defaultBatchWindow, kc_heartbeatInterval := defaultHeartbeatInterval,
       kc_retryMin := defaultRetryMin, kc_retryMax := defaultRetryMax, kc_maxBatchObservers := defaultMaxBatchObservers,
       kc_maxRequestBytes := defaultMaxRequestBytes, kc_reporterInstanceID := reporterInstanceID\<rparr>)"

text \<open>
  A round: what the source answers from, whether the sampler was cancelled meanwhile, whether the sink took the
  result before it was cancelled, whether the sampler waited to the end, the clock and the jitter.
\<close>

record 'a sample_round =
  sg_answer :: 'a
  sg_canceled :: bool
  sg_delivered :: bool
  sg_waited :: bool
  sg_now :: time
  sg_jitter :: rat

text \<open>The results that reach the sink, each with the time the sampler waits after it.\<close>

fun sample_rounds ::
  "sink_config \<Rightarrow> ('s \<Rightarrow> 'a \<Rightarrow> 's \<times> ('e + 'v)) \<Rightarrow> ('v \<Rightarrow> time \<Rightarrow> 'e + 'v) \<Rightarrow> nat \<Rightarrow> 's \<Rightarrow> 'a sample_round list \<Rightarrow>
   (('e + 'v) \<times> duration) list" where
  "sample_rounds cfg source validate failures st [] = []"
| "sample_rounds cfg source validate failures st (g # gs) =
     (case source st (sg_answer g) of (st', result) \<Rightarrow>
        if sg_canceled g then []
        else let r = (case result of Inl e \<Rightarrow> Inl e | Inr v \<Rightarrow> validate v (sg_now g));
                 failures' = (if isl r then Suc failures else 0);
                 waitFor = (if isl r then retryDelay cfg failures' (sg_jitter g) else kc_sampleInterval cfg)
          in if \<not> sg_delivered g then []
             else (r, waitFor) # (if sg_waited g then sample_rounds cfg source validate failures' st' gs else []))"

definition sampleSource ::
  "sink_config \<Rightarrow> ('s \<Rightarrow> 'a \<Rightarrow> 's \<times> (snapshot_error + sink_snapshot)) \<Rightarrow> 's \<Rightarrow> string \<Rightarrow> nat \<Rightarrow> 'a sample_round list \<Rightarrow>
   (sink_event \<times> duration) list" where
  "sampleSource cfg source st key registration gs =
     map (\<lambda>(r, w). (SourceResult key registration r, w)) (sample_rounds cfg source validateSnapshot 0 st gs)"

definition sampleRelaySource ::
  "sink_config \<Rightarrow> ('s \<Rightarrow> 'a \<Rightarrow> 's \<times> (relay_error + relay_snapshot)) \<Rightarrow> 's \<Rightarrow> string \<Rightarrow> nat \<Rightarrow> 'a sample_round list \<Rightarrow>
   (sink_event \<times> duration) list" where
  "sampleRelaySource cfg source st key registration gs =
     map (\<lambda>(r, w). (RelayResult key registration r, w)) (sample_rounds cfg source validateRelaySnapshot 0 st gs)"

text \<open>Which errors of a report are told to others.\<close>

definition boundedReportError :: "send_error \<Rightarrow> send_error" where
  "boundedReportError err = (case err of SendFailed _ \<Rightarrow> SendFailed ''report transport failed'' | e \<Rightarrow> e)"

section \<open>The collector\<close>

text \<open>The sources of the local daemon; the texts of their errors are left out. A relay answer is what the daemon
  says about its sessions and keys, and the clock.\<close>

definition daemon_source :: "tracker \<Rightarrow> poll \<Rightarrow> tracker \<times> (snapshot_error + sink_snapshot)" where
  "daemon_source tracker answer =
     (case SourceSnapshot tracker (fst answer) (snd answer) of
        (tracker', Inl _) \<Rightarrow> (tracker', Inl (SourceFailed [])) | (tracker', Inr snap) \<Rightarrow> (tracker', Inr snap))"

definition daemon_relay_source ::
  "(string \<Rightarrow> string) \<Rightarrow> unit \<Rightarrow> (int + server_status) \<times> (int + disco_key list) \<times> time \<Rightarrow> unit \<times> (relay_error + relay_snapshot)"
where
  "daemon_relay_source digest u answer =
     (case answer of (status, keys, now) \<Rightarrow>
        (case PeerRelaySnapshot digest status keys now of
           (snap, failed) \<Rightarrow> (u, if failed then Inl (RelaySourceFailed []) else Inr snap)))"

section \<open>Runs\<close>

definition undisturbed :: "'a sample_round \<Rightarrow> bool" where
  "undisturbed g \<longleftrightarrow> \<not> sg_canceled g \<and> sg_delivered g \<and> sg_waited g"

text \<open>What a round gives.\<close>

definition round_result :: "('s \<Rightarrow> 'a \<Rightarrow> 's \<times> ('e + 'v)) \<Rightarrow> ('v \<Rightarrow> time \<Rightarrow> 'e + 'v) \<Rightarrow> 's \<Rightarrow> 'a sample_round \<Rightarrow> 'e + 'v" where
  "round_result source validate st g =
     (case snd (source st (sg_answer g)) of Inl e \<Rightarrow> Inl e | Inr v \<Rightarrow> validate v (sg_now g))"

lemma sample_rounds_Cons:
  "\<not> sg_canceled g \<Longrightarrow> sg_delivered g \<Longrightarrow>
   sample_rounds cfg source validate failures st (g # gs) =
     (let r = round_result source validate st g; failures' = (if isl r then Suc failures else 0)
      in (r, if isl r then retryDelay cfg failures' (sg_jitter g) else kc_sampleInterval cfg) #
         (if sg_waited g then sample_rounds cfg source validate failures' (fst (source st (sg_answer g))) gs else []))"
  by (simp add: round_result_def Let_def split_def)

declare sample_rounds.simps(2) [simp del]

section \<open>Statuses the sink can take\<close>

text \<open>The status came, its own node and its peers have identities, no two peers the same one, and no counter is negative.\<close>

definition fit_status :: "runtime_status option option \<Rightarrow> bool" where
  "fit_status answer =
     (case answer of
        Some (Some st) \<Rightarrow>
          (case st_self st of
             None \<Rightarrow> False
           | Some self \<Rightarrow> HasIdentity (PeerIdentity self) \<and>
               distinct (map peerIdentityKey (present_peers st)) \<and>
               list_all (\<lambda>peer. HasIdentity (PeerIdentity peer) \<and> 0 \<le> us_rxBytes peer \<and> 0 \<le> us_txBytes peer) (present_peers st))
      | _ \<Rightarrow> False)"

text \<open>Classifying the paths changes neither identities nor counters, nor do the defaults of the validation.\<close>

lemma sampled_counters:
  "map (\<lambda>p. (ps_identity p, ps_rxBytes p, ps_txBytes p)) (snd (sample_peers relays now peers tracker)) =
     map (\<lambda>peer. (PeerIdentity peer, us_rxBytes peer, us_txBytes peer)) peers"
  by (induction peers arbitrary: tracker) (simp_all add: sample_peers_simps)

lemma filled_counters [simp]:
  "ps_identity (fill_peer p) = ps_identity p" "ps_rxBytes (fill_peer p) = ps_rxBytes p" "ps_txBytes (fill_peer p) = ps_txBytes p"
  by (simp_all add: fill_peer_def Let_def)

lemma taken_status_fit:
  assumes "snd (SourceSnapshot tracker answer now) = Inr snap" and "validateSnapshot snap fallback = Inr u"
  shows "fit_status answer"
proof -
  obtain st self where st: "answer = Some (Some st)" "st_self st = Some self" "sp_observer snap = PeerIdentity self"
    and peers: "sp_peers snap = snd (sample_peers (RelayIdentities st) now (present_peers st) tracker)"
    using assms(1) by (auto simp: SourceSnapshot_Inr)
  note same = sampled_counters [of "RelayIdentities st" now "present_peers st" tracker, folded peers]
  have keys: "map (\<lambda>p. IdentityKey (ps_identity p)) (sp_peers snap) = map peerIdentityKey (present_peers st)"
    using arg_cong [OF same, of "map (\<lambda>(i, _). IdentityKey i)"] by (simp add: comp_def peerIdentityKey_def [abs_def])
  have v: "HasIdentity (sp_observer snap)" "distinct (map (\<lambda>p. IdentityKey (ps_identity p)) (sp_peers snap))"
    "list_all (\<lambda>p. HasIdentity (ps_identity p) \<and> 0 \<le> ps_rxBytes p \<and> 0 \<le> ps_txBytes p) (sp_peers snap)"
    using assms(2) unfolding validateSnapshot_Inr
    by (auto simp: valid_snapshot_def valid_peer_snapshot_def comp_def list_all_iff)
  have "list_all (\<lambda>(i, rx, tx). HasIdentity i \<and> 0 \<le> rx \<and> 0 \<le> tx)
      (map (\<lambda>p. (ps_identity p, ps_rxBytes p, ps_txBytes p)) (sp_peers snap))"
    using v(3) by (simp add: list_all_iff)
  then have "list_all (\<lambda>peer. HasIdentity (PeerIdentity peer) \<and> 0 \<le> us_rxBytes peer \<and> 0 \<le> us_txBytes peer) (present_peers st)"
    unfolding same by (simp add: list_all_iff)
  then show ?thesis using v(1,2) st keys by (simp add: fit_status_def)
qed

lemma fit_status_taken:
  assumes "fit_status answer" "now \<noteq> 0"
  obtains snap where "snd (SourceSnapshot (tracker_after polls) answer now) = Inr snap" "validateSnapshot snap fallback = Inr snap"
proof -
  obtain st self where st: "answer = Some (Some st)" "st_self st = Some self" "HasIdentity (PeerIdentity self)"
    "distinct (map peerIdentityKey (present_peers st))"
    "list_all (\<lambda>peer. HasIdentity (PeerIdentity peer) \<and> 0 \<le> us_rxBytes peer \<and> 0 \<le> us_txBytes peer) (present_peers st)"
    using assms(1) by (auto simp: fit_status_def split: option.splits)
  obtain snap where snap: "snd (SourceSnapshot (tracker_after polls) answer now) = Inr snap" "sp_observer snap = PeerIdentity self"
    using st(1,2) by (auto simp: SourceSnapshot_Inr)
  moreover have "validateSnapshot snap fallback = Inr snap"
    by (rule source_snapshot_taken [OF snap(1) [unfolded st(1)] assms(2)])
      (use st snap(2) in \<open>auto simp: distinct_poll_def peerIdentityKey_def list_all_iff\<close>)
  ultimately show thesis using that by blast
qed

text \<open>The time may be missing: the sampler then fills in its own.\<close>

lemma unclocked_snapshot_taken:
  assumes "fit_status answer" "snd (SourceSnapshot (tracker_after polls) answer now) = Inr snap"
  shows "\<not> isl (validateSnapshot snap fallback)"
proof -
  obtain st self where st: "answer = Some (Some st)" "st_self st = Some self"
    "snap = \<lparr>sp_collectedAt = now, sp_observer = PeerIdentity self,
       sp_peers = snd (sample_peers (RelayIdentities st) now (present_peers st) (tracker_after polls))\<rparr>"
    using assms(2) by (auto simp: SourceSnapshot_Inr)
  have peers: "list_all valid_peer_snapshot (sp_peers snap)" "distinct (map (\<lambda>p. IdentityKey (ps_identity p)) (sp_peers snap))"
    using assms(1) st sample_peers_valid [OF tracker_ok_after, of "present_peers st" "RelayIdentities st" now polls]
    by (auto simp: fit_status_def list_all_iff)
  have "fill_peer p = p" if "p \<in> set (sp_peers snap)" for p
    using peers(1) that by (auto simp: list_all_iff valid_peer_snapshot_def fill_peer_def Let_def)
  then have "map fill_peer (sp_peers snap) = sp_peers snap" by (intro map_idI) auto
  then have "\<exists>u. validateSnapshot snap fallback = Inr u"
    using peers assms(1) st by (auto simp: validateSnapshot_Inr valid_snapshot_def fit_status_def)
  then show ?thesis by auto
qed

lemma daemon_round_fails:
  "isl (round_result daemon_source validateSnapshot (tracker_after polls) g) \<longleftrightarrow> \<not> fit_status (fst (sg_answer g))"
proof (cases "snd (SourceSnapshot (tracker_after polls) (fst (sg_answer g)) (snd (sg_answer g)))")
  case (Inl e)
  then have "\<not> fit_status (fst (sg_answer g))"
    by (auto simp: fit_status_def SourceSnapshot_def TrackerSnapshot_def split: option.splits prod.splits)
  then show ?thesis using Inl by (simp add: round_result_def daemon_source_def split_def split: sum.splits)
next
  case (Inr snap)
  then have r: "round_result daemon_source validateSnapshot (tracker_after polls) g = validateSnapshot snap (sg_now g)"
    by (simp add: round_result_def daemon_source_def split_def split: sum.splits)
  then show ?thesis
    using taken_status_fit [OF Inr] unclocked_snapshot_taken [OF _ Inr, of "sg_now g"]
    by (cases "validateSnapshot snap (sg_now g)") auto
qed

section \<open>The rounds of the sampler\<close>

text \<open>How many of the last rounds failed in a row.\<close>

definition unfit_in_a_row :: "poll sample_round list \<Rightarrow> nat" where
  "unfit_in_a_row gs = length (takeWhile (\<lambda>g. \<not> fit_status (fst (sg_answer g))) (rev gs))"

lemma daemon_rounds_nth:
  assumes "\<And>b. b \<in> set before \<Longrightarrow> undisturbed b" "\<not> sg_canceled g" "sg_delivered g"
  shows "sample_rounds cfg daemon_source validateSnapshot n (tracker_after polls) (before @ g # after) ! length before =
      (let r = round_result daemon_source validateSnapshot (tracker_after (rev (map sg_answer before) @ polls)) g;
           failures = foldl (\<lambda>c b. if fit_status (fst (sg_answer b)) then 0 else Suc c) n before
       in (r, if isl r then retryDelay cfg (Suc failures) (sg_jitter g) else kc_sampleInterval cfg)) \<and>
    length before < length (sample_rounds cfg daemon_source validateSnapshot n (tracker_after polls) (before @ g # after))"
  using assms(1)
proof (induction before arbitrary: n polls)
  case Nil
  show ?case using sample_rounds_Cons [OF assms(2,3), of cfg daemon_source validateSnapshot n "tracker_after polls" after]
    by (auto simp: Let_def)
next
  case (Cons b before)
  then have b: "\<not> sg_canceled b" "sg_delivered b" "sg_waited b" by (simp_all add: undisturbed_def)
  have next': "fst (daemon_source (tracker_after polls) (sg_answer b)) = tracker_after (sg_answer b # polls)"
    by (auto simp: daemon_source_def split: prod.splits sum.splits)
  let ?n = "if fit_status (fst (sg_answer b)) then 0 else Suc n"
  have "sample_rounds cfg daemon_source validateSnapshot n (tracker_after polls) ((b # before) @ g # after) =
      (let r = round_result daemon_source validateSnapshot (tracker_after polls) b
       in (r, if isl r then retryDelay cfg ?n (sg_jitter b) else kc_sampleInterval cfg) #
          sample_rounds cfg daemon_source validateSnapshot ?n (tracker_after (sg_answer b # polls)) (before @ g # after))"
    using sample_rounds_Cons [OF b(1,2), of cfg daemon_source validateSnapshot n "tracker_after polls" "before @ g # after"] b(3)
    by (simp add: Let_def daemon_round_fails next')
  with Cons.IH [of ?n "sg_answer b # polls"] Cons.prems show ?case by (simp add: Let_def)
qed

text \<open>C28: The collector's sampler over the local daemon, after any rounds before (statuses, failed calls, missing
  selves): when the daemon's answer, taken by a clock that is set, is a status whose own node and peers have identities,
  no two peers the same, and whose counters are not negative, the sink is handed exactly what the tracker made of it and
  of all answers before, unchanged by the sink's validation, and the daemon is asked again after the sample interval.
  Any other answer (a failed call, no status, no own node, a status that is not fit) is handed over as a failure, never
  as a snapshot, and the wait doubles with every failure in a row, from the least to the largest retry delay, give or
  take a fifth, and starts afresh after a success.\<close>

theorem sampled_status_reaches_sink:
  assumes "cfg = NewSnapshotSink uuid instance_id parameters"
    and "\<And>b. b \<in> set before \<Longrightarrow> undisturbed b" and "\<not> sg_canceled g" and "sg_delivered g"
    and "sg_answer g = (answer, now)" and "now \<noteq> 0" and "0 \<le> sg_jitter g" and "sg_jitter g < 1"
  shows "\<exists>r w. sampleSource cfg daemon_source NewTracker key registration (before @ g # after) ! length before =
      (SourceResult key registration r, w) \<and>
    (if fit_status answer
     then w = kc_sampleInterval cfg \<and>
       (\<exists>snap. snd (SourceSnapshot (tracker_after (rev (map sg_answer before))) answer now) = Inr snap \<and> r = Inr snap)
     else isl r \<and>
       (let base = min (kc_retryMax cfg) (kc_retryMin cfg * 2 ^ unfit_in_a_row before)
        in 4 * base div 5 \<le> w \<and> 5 * w < 6 * base))"
proof -
  let ?tracker = "tracker_after (rev (map sg_answer before))"
  define r where "r = round_result daemon_source validateSnapshot ?tracker g"
  define w where "w = (if isl r then retryDelay cfg (Suc (unfit_in_a_row before)) (sg_jitter g) else kc_sampleInterval cfg)"
  have rounds: "sample_rounds cfg daemon_source validateSnapshot 0 NewTracker (before @ g # after) ! length before = (r, w)"
    "length before < length (sample_rounds cfg daemon_source validateSnapshot 0 NewTracker (before @ g # after))"
    using daemon_rounds_nth [OF assms(2-4), where cfg = cfg and n = 0 and polls = "[]" and after = after]
    by (simp_all add: Let_def foldl_since r_def w_def unfit_in_a_row_def)
  have failed: "isl r \<longleftrightarrow> \<not> fit_status answer" by (simp add: r_def daemon_round_fails assms(5))
  obtain c where cfg: "cfg = normalize_config uuid c" using assms(1) by (simp add: NewSnapshotSink_def)
  have "retry_base cfg (Suc (unfit_in_a_row before)) = min (kc_retryMax cfg) (kc_retryMin cfg * 2 ^ unfit_in_a_row before)"
    using retryDelay_bounds [OF assms(7,8) _ cfg, of "Suc (unfit_in_a_row before)"] by simp
  then have "let base = min (kc_retryMax cfg) (kc_retryMin cfg * 2 ^ unfit_in_a_row before)
        in 4 * base div 5 \<le> w \<and> 5 * w < 6 * base" if "isl r"
    using retryDelay_bounds [OF assms(7,8) _ cfg, of "Suc (unfit_in_a_row before)"] that by (metis (full_types) Suc_le_mono le0 One_nat_def w_def)
  moreover have "\<exists>snap. snd (SourceSnapshot ?tracker answer now) = Inr snap \<and> r = Inr snap" if "fit_status answer"
  proof (rule fit_status_taken [OF that assms(6), of "rev (map sg_answer before)" "sg_now g"])
    fix snap assume "snd (SourceSnapshot ?tracker answer now) = Inr snap" "validateSnapshot snap (sg_now g) = Inr snap"
    then show ?thesis by (simp add: r_def round_result_def daemon_source_def assms(5) split_def)
  qed
  ultimately have "if fit_status answer
     then w = kc_sampleInterval cfg \<and> (\<exists>snap. snd (SourceSnapshot ?tracker answer now) = Inr snap \<and> r = Inr snap)
     else isl r \<and> (let base = min (kc_retryMax cfg) (kc_retryMin cfg * 2 ^ unfit_in_a_row before)
        in 4 * base div 5 \<le> w \<and> 5 * w < 6 * base)"
    using failed by (auto simp: w_def)
  then show ?thesis using rounds by (auto simp: sampleSource_def)
qed

text \<open>A call of the daemon that fails, then a status.\<close>

definition sample_before :: "poll sample_round" where
  "sample_before = \<lparr>sg_answer = (None, 4), sg_canceled = False, sg_delivered = True, sg_waited = True, sg_now = 4, sg_jitter = 0\<rparr>"

definition sample_good :: "poll sample_round" where
  "sample_good = sample_before\<lparr>sg_answer := (Some (Some (sample_status [] ''hkg'')), 6)\<rparr>"

theorem sampled_status_reaches_sink_witness:
  "(\<exists>snap. sampleSource (NewSnapshotSink [] ''i'' sx_config) daemon_source NewTracker ''tailscaled'' 0 [sample_before, sample_good] ! 1 =
     (SourceResult ''tailscaled'' 0 (Inr snap), 2 * second) \<and> length (sp_peers snap) = 1) \<and>
   (\<exists>e w. sampleSource (NewSnapshotSink [] ''i'' sx_config) daemon_source NewTracker ''tailscaled'' 0 [sample_before, sample_good] ! 0 =
     (SourceResult ''tailscaled'' 0 (Inl e), w) \<and> 5 * w < 12 * second)"
proof
  let ?cfg = "NewSnapshotSink [] ''i'' sx_config"
  have c: "kc_sampleInterval ?cfg = 2 * second" "kc_retryMin ?cfg = 2 * second" "kc_retryMax ?cfg = 60 * second"
    by (simp_all add: NewSnapshotSink_def normalize_config_def Let_def defaultSampleInterval_def defaultRetryMin_def
        defaultRetryMax_def second_def)
  have fit: "fit_status (Some (Some (sample_status [] ''hkg'')))" "\<not> fit_status None" by code_simp+
  have one: "case snd (SourceSnapshot (tracker_after [(None, 4)]) (Some (Some (sample_status [] ''hkg''))) 6) of
      Inl _ \<Rightarrow> False | Inr snap \<Rightarrow> length (sp_peers snap) = 1" by code_simp
  have u: "undisturbed sample_before" by (simp add: undisturbed_def sample_before_def)
  from sampled_status_reaches_sink [OF refl, of "[sample_before]" sample_good "Some (Some (sample_status [] ''hkg''))" 6
        "[]" "''i''" sx_config "''tailscaled''" 0 "[]"] u fit(1) one c(1)
  show "\<exists>snap. sampleSource ?cfg daemon_source NewTracker ''tailscaled'' 0 [sample_before, sample_good] ! 1 =
     (SourceResult ''tailscaled'' 0 (Inr snap), 2 * second) \<and> length (sp_peers snap) = 1"
    by (auto simp: sample_good_def sample_before_def)
  from sampled_status_reaches_sink [OF refl, of "[]" sample_before None 4 "[]" "''i''" sx_config "''tailscaled''" 0
        "[sample_good]"] fit(2) c
  show "\<exists>e w. sampleSource ?cfg daemon_source NewTracker ''tailscaled'' 0 [sample_before, sample_good] ! 0 =
     (SourceResult ''tailscaled'' 0 (Inl e), w) \<and> 5 * w < 12 * second"
    by (auto simp: sample_before_def unfit_in_a_row_def Let_def second_def isl_def)
qed

end
