(* ===== verification/Spec2Isabelle.thy ===== *)
theory Spec2Isabelle
  imports Agg_Reports Node_Ids Sink_Tracking Store_Traffic Store_Pages Device_Sync Status_Relays Status_Tracker Relay_Adapter
    Http_Exchange Server_Process Migration_Facts Sink_Sampling
begin

text \<open>
  \<^bold>\<open>Tailpath: a verification library for the topology server, its history and its exporters.\<close>

  Tailpath collects traffic and path observations of the nodes of a Tailscale network and shows
  them as a live topology. An exporter (\<open>exporter/\<close>) turns samples of the local daemon into numbered
  reports. The server (\<open>internal/app\<close>) validates a report, applies it to a clone of the aggregator
  (\<open>internal/aggregate\<close>), commits what it changed to the SQLite store (\<open>internal/store\<close>) in one
  transaction, and only then replaces the aggregator; after a crash it restores the last checkpoint
  and applies the reports recorded since. Maintenance rolls traffic up into minutes and hours, and
  the history queries read all layers. A synchroniser (\<open>internal/devicesync\<close>) polls the control
  plane (\<open>internal/devicesapi\<close>) and keeps the server's device directory up to date. Clients reach the
  server over HTTP (\<open>internal/httpapi\<close>): exporters post reports, the web application reads the topology,
  the history and a stream of change events. \<open>cmd/tailpath\<close> puts the parts together.

  \<^bold>\<open>Theories\<close>, in the order in which they build on each other:

  \<^item> \<open>Tailpath_Prelude\<close>: time as nanoseconds (\<open>0\<close> is Go's zero time), durations with the saturating
    \<open>Sub\<close> of \<open>time.Time\<close>, strings (\<open>strings.TrimSpace\<close>, \<open>strconv\<close>), Go maps as association lists
    whose list order is the unspecified iteration order, \<open>sort.Slice\<close>, loops that stop at an error.
  \<^item> \<open>Netip\<close>: the part of \<open>net/netip\<close> the program uses (parsing, printing and ordering of addresses).
  \<^item> \<open>Domain_Types\<close>: \<open>internal/domain/types.go\<close>: identities, reports, their validation, edge ids.
  \<^item> \<open>Path_Evidence\<close>: \<open>internal/domain/path_evidence.go\<close>, \<open>path_candidates.go\<close>,
    \<open>directional_paths.go\<close>: primary path, conflicts, candidates and directions of an edge.
  \<^item> \<open>Device_Directory\<close>: \<open>internal/domain/directory.go\<close>: the directory's synchronisation state and the
    normalisation of snapshots.
  \<^item> \<open>Agg_State\<close>, \<open>Agg_Identity\<close>, \<open>Agg_Relay\<close>, \<open>Agg_Edges\<close>, \<open>Agg_Apply\<close>, \<open>Agg_Snapshot\<close>,
    \<open>Agg_Directory\<close>: \<open>internal/aggregate/aggregator.go\<close>: the runtime state and, in this order, how
    identities find and merge nodes, relay sessions, edges, reports, what is shown, the directory.
    \<open>Node_Ids\<close>: the default source of node ids.
  \<^item> \<open>Agg_Invariants\<close>, \<open>Agg_Examples\<close>, \<open>Agg_Theorems\<close>, \<open>Agg_Reporters\<close>, \<open>Agg_Reports\<close>: the invariant
    \<open>agg_inv\<close> and that every operation keeps it (the locales \<open>keeping_step\<close> and \<open>total_step\<close> carry it through
    the loops), reachable states, what a merge forgets, the claim of an observer, what the aggregator
    remembers of a reporter through a run of other reports (\<open>known_run\<close>), with which a report that comes
    again, however late, is not applied twice, sequence gaps, and which reports always return.
  \<^item> \<open>Sink_Snapshot\<close>, \<open>Sink_State\<close>, \<open>Sink_Flush\<close>: \<open>exporter/types.go\<close>, \<open>sink.go\<close>, \<open>sink_relay.go\<close>:
    snapshots and their validation, the state of the sink and its events, sending and answers.
    \<open>Sink_Facts\<close>, \<open>Sink_Laws\<close>, \<open>Sink_Contract\<close>, \<open>Sink_Tracking\<close>: deltas add up, retry delays, every
    report that is sent is valid for the server, and no observer the server may know is forgotten, but
    for those whose withdrawal is too large to be sent (the locales of \<open>Sink_Laws\<close> ask for one law per kind of answer).
  \<^item> \<open>Store_Time\<close>, \<open>Store_Tables\<close>, \<open>Store_Rollup\<close>: \<open>internal/store/sqlite.go\<close>, \<open>history_edge_map.go\<close>,
    \<open>history_rollup.go\<close>: the texts of times and their order, the tables and the transactions that
    write them, roll-up and deletion. \<open>Store_Facts\<close>, \<open>Store_Traffic\<close>: the map from physical to logical
    edges is the one a rebuild would make, maintenance never fails, and every minute it rolls up has the
    traffic of its edges; what the totals of merged edges lose by it is \<open>rollup_shrinks_total\<close>.
  \<^item> \<open>Store_Query\<close>, \<open>Store_History\<close>: \<open>internal/store/history_query.go\<close>: the index, the layers of a
    window, totals and buckets, the pages of edges and of path events. \<open>Store_Pages\<close>: following the
    cursors gives everything once and in order.
  \<^item> \<open>App\<close>, \<open>App_Recovery\<close>, \<open>App_Queries\<close>: \<open>internal/app/app.go\<close>: the server over aggregator and store; what fails
    changes nothing, and what a restart reads back after a crash: the aggregator that crashed, but for the
    reports recorded within a second after a checkpoint whose rows maintenance had emptied
    (\<open>lost_after_maintenance\<close> shows one).
  \<^item> \<open>Device_Sync\<close>: \<open>internal/devicesapi/client.go\<close>, \<open>internal/devicesync/synchronizer.go\<close>: the loop
    over its interface \<open>DirectoryStore\<close> (locale \<open>directory_store_laws\<close>), interpreted by the server: the delays
    of a run, which double with every failure in a row, and what a round leaves in the directory.

  \<^item> \<open>Store_Migrations\<close>, \<open>Migration_Facts\<close>: \<open>internal/store/migrations.go\<close>: files of older versions; an
    interrupted upgrade goes on where it stopped, the path history is the one its observations give,
    and the edge map is in step afterwards.
  \<^item> \<open>Status_Decode\<close>, \<open>Status_Tracker\<close>, \<open>Status_Relays\<close>: \<open>internal/tailscalestatus/status.go\<close>: identities and
    paths from the status of the local daemon, the tracker that infers fallbacks and the sources over
    it; who owns a relay address, and that every inferred path goes back to an observed one.
    \<open>Sink_Sampling\<close>: the samplers of \<open>exporter/sink.go\<close> over these sources: which answers of the daemon reach
    the sink, as what, and when the daemon is asked again.
    \<open>Relay_Adapter\<close>: \<open>exporter/tsnet/source.go\<close>, \<open>internal/tailscaleadapter\<close>: relay sessions of the daemon, in
    the form the sink accepts.
  \<^item> \<open>Http_Server\<close>, \<open>Http_Facts\<close>, \<open>Http_Events\<close>: \<open>internal/httpapi/server.go\<close>: authorisation, routes and
    handlers; strangers see nothing but files from below the web directory, only reports write; the event
    stream as interleaved steps (\<open>stream_step\<close>), with its pace and that no change is kept back.
  \<^item> \<open>Http_Reporter\<close>, \<open>Http_Exchange\<close>: \<open>exporter/http_reporter.go\<close>, and the exporter's flush over a network
    that loses requests to the server of this repository: sending is submitting, and the server
    refuses nothing the sink sends.
  \<^item> \<open>Process_Flags\<close>, \<open>Server_Process\<close>: \<open>cmd/tailpath/main.go\<close>: flags, configurations and the start of the
    server; whatever the command line, a started server asks for an identity, and its device directory is
    that of the resolved flags.

  \<^bold>\<open>Conventions.\<close> A Go struct is a record whose fields carry a two-letter prefix; a nil pointer is
  \<open>None\<close>; reading a missing key gives the zero value (\<open>str_at\<close>, \<open>time_at\<close>); copying functions
  (\<open>Clone...\<close>) are the identity, since HOL values are not shared. Objects that are shared by pointer
  (observers, relay scopes and sessions) live in numbered cells. An operation that can fail returns
  \<open>Inl\<close> of its error; one that can panic returns \<open>None\<close>. Rates are rationals, byte counts of the
  store unbounded integers; the relay counters of the exporter are 64-bit words. \<open>strings.ToLower\<close>
  is modelled on ASCII. A table is the list of its rows; a TEXT column with a time holds the time,
  and what SQL compares are the texts \<open>formatTime\<close> and \<open>formatPathEventTime\<close> give. A transaction
  commits all of its statements or none, as the argument \<open>disk\<close> says.

  \<^bold>\<open>Parameters\<close> stand for what is outside of the repository or left open by it: the source of node
  ids (\<open>cf_newNodeID\<close>; \<open>good_source\<close> asks for fresh non-empty ids), the reporter's transport, the
  digest and the size of a report (\<open>kc_digest\<close>, \<open>kc_payload\<close>), random report ids (\<open>kc_reportID\<close>), the
  JSON of the aggregator's state (\<open>codec\<close>; \<open>exact\<close> asks that it reads back) and of cursors
  (\<open>cursors\<close>; \<open>good_cursors\<close>), the decoding of reports and answers (\<open>wc_decodeReport\<close>, \<open>http_codec\<close>;
  \<open>keeps_validity\<close>), the first bytes of a SHA-256 (\<open>digest\<close>; \<open>separates\<close>), SQLite's \<open>julianday\<close>,
  \<open>time.ParseDuration\<close>, \<open>url.Parse\<close>, the clock, the jitter of the synchroniser, the authoriser and the other
  answers of the local daemon, and what the control plane answers. Every property with such a hypothesis has a witness with a
  concrete instance.

  \<^bold>\<open>Bounds and termination.\<close> Every definition is total. The walks over redirects end because the
  visited ids are never visited again; \<open>roll_up\<close> because every step moves the start by an interval;
  the flush of the sink because every answer shortens the list of operations. Clients that follow
  cursors and rounds of the synchroniser are driven by finite lists of requests; the properties say
  how many suffice.

  \<^bold>\<open>Not modelled.\<close> HTTP headers and the detail texts of problems; the JSON encodings; mutexes, channels,
  timers and goroutines other than those of the event stream; signals, shutdown and logging; indexes and
  pragmas of SQLite, its errors other than a failing transaction, and its 64-bit bound on sums. The
  generated API types, the generated data of the fixture server, the load generators and the
  performance gate are tools around the program, and the web client is another language.
\<close>

end
